(* ===== verification/Prelude.thy ===== *)
theory Prelude
  imports Main "HOL-Library.Multiset" "HOL-Library.Sublist" "HOL-Library.Char_ord"
    "HOL-Library.List_Lexorder" "HOL-Library.Product_Lexorder" "HOL-Library.Word"
begin

text \<open>
  What every component of the development shares.

  \<^item> Conventions. A Go function that returns \<open>(T, error)\<close> is a HOL function into
    \<open>'e + 'a\<close> with \<open>Inl\<close> for the error; one that returns only \<open>error\<close> goes into
    \<open>'e option\<close>, with \<open>None\<close> for \<open>nil\<close>. A Go string is a list of bytes (\<open>string\<close>).
    A pointer that may be \<open>nil\<close> is an \<open>option\<close>.
  \<^item> 64-bit signed arithmetic (\<open>int64\<close>, \<open>time.Duration\<close>) with the wrap-around written out.
  \<^item> \<open>sort.Slice\<close>: a sort for a \<open>less\<close> function, and the locale that says what such a
    function must satisfy for the result not to depend on the order of the input.
  \<^item> The choice of the best element of a list for such a function, as a loop that keeps a
    candidate makes it.
\<close>

section \<open>Collections of facts\<close>

named_theorems go_defs \<open>definitions of small library functions, unfolded on sight\<close>

named_theorems inv_simps \<open>invariants unfolded to their conjuncts\<close>

section \<open>Errors and options\<close>

definition is_ok :: "'e + 'a \<Rightarrow> bool" where
  "is_ok r = (case r of Inl _ \<Rightarrow> False | Inr _ \<Rightarrow> True)"

lemma is_ok_simps [simp]: "is_ok (Inr x)" "\<not> is_ok (Inl e)"
  by (simp_all add: is_ok_def)

lemma is_ok_iff: "is_ok r \<longleftrightarrow> (\<exists>x. r = Inr x)"
  by (cases r) simp_all

lemma ok_case: "(case r of Inl e \<Rightarrow> False | Inr x \<Rightarrow> P x) \<longleftrightarrow> (\<exists>x. r = Inr x \<and> P x)"
  by (cases r) simp_all

text \<open>
  Early returns: when a chain of guards lets a value through. The proofs about constructors and
  validators read a cascade of checks with these facts, one conjunct for each guard.
\<close>

lemma early_return:
  "(if c then Some e else x) = None \<longleftrightarrow> \<not> c \<and> x = None"
  "(if c then Inl e' else r) = Inr y \<longleftrightarrow> \<not> c \<and> r = Inr y"
  "(case o1 of Some e \<Rightarrow> Some (g e) | None \<Rightarrow> x) = None \<longleftrightarrow> o1 = None \<and> x = None"
  "(case o2 of Some e \<Rightarrow> Inl (h e) | None \<Rightarrow> r) = Inr y \<longleftrightarrow> o2 = None \<and> r = Inr y"
  "(case o3 of Some (i, e) \<Rightarrow> Inl (m i e) | None \<Rightarrow> r) = Inr y \<longleftrightarrow> o3 = None \<and> r = Inr y"
  "(case s1 of Inl e \<Rightarrow> Inl (k e) | Inr a \<Rightarrow> f a) = Inr y \<longleftrightarrow> (\<exists>a. s1 = Inr a \<and> f a = Inr y)"
  "(case s2 of Inl e \<Rightarrow> Some (l e) | Inr b \<Rightarrow> q b) = None \<longleftrightarrow> (\<exists>b. s2 = Inr b \<and> q b = None)"
  by (auto split: option.split sum.split)

text \<open>The first error that a list of checks reports, as a chain of early returns does.\<close>

fun first_error :: "('a \<Rightarrow> 'e option) \<Rightarrow> 'a list \<Rightarrow> 'e option" where
  "first_error f [] = None"
| "first_error f (x # xs) = (case f x of Some e \<Rightarrow> Some e | None \<Rightarrow> first_error f xs)"

lemma first_error_None [simp]: "first_error f xs = None \<longleftrightarrow> (\<forall>x \<in> set xs. f x = None)"
  by (induction xs) (auto split: option.splits)

lemma first_error_Some_in: "first_error f xs = Some e \<Longrightarrow> \<exists>x \<in> set xs. f x = Some e"
  by (induction xs) (auto split: option.splits)

lemma map_fixed: "map f xs = xs \<longleftrightarrow> (\<forall>x \<in> set xs. f x = x)"
  by (induction xs) auto

lemma sorted_wrt_irrefl_distinct:
  fixes f :: "'a \<Rightarrow> nat"
  shows "sorted_wrt (\<lambda>a b. f a < f b) xs \<Longrightarrow> distinct xs"
  by (induction xs) auto

lemma set_map_filter: "set (List.map_filter f xs) = {y. \<exists>x \<in> set xs. f x = Some y}"
  by (force simp: map_filter_def)

section \<open>Signed 64-bit arithmetic\<close>

text \<open>
  \<open>int64\<close> and \<open>time.Duration\<close> values are integers between \<open>min_int64\<close> and \<open>max_int64\<close>.
  Go's \<open>+\<close>, \<open>-\<close> and \<open>*\<close> on them wrap around, which \<open>wrap64\<close> writes out.
\<close>

type_synonym int64 = int

definition max_int64 :: int where
  "max_int64 = 9223372036854775807"

definition min_int64 :: int where
  "min_int64 = - 9223372036854775808"

definition wrap64 :: "int \<Rightarrow> int64" where
  "wrap64 x = (x + 9223372036854775808) mod 18446744073709551616 - 9223372036854775808"

definition in_int64 :: "int \<Rightarrow> bool" where
  "in_int64 x \<longleftrightarrow> min_int64 \<le> x \<and> x \<le> max_int64"

lemma wrap64_id [simp]: "in_int64 x \<Longrightarrow> wrap64 x = x"
  by (simp add: wrap64_def in_int64_def min_int64_def max_int64_def)

lemma wrap64_range: "in_int64 (wrap64 x)"
proof -
  have "0 \<le> (x + 9223372036854775808) mod 18446744073709551616"
    and "(x + 9223372036854775808) mod 18446744073709551616 < (18446744073709551616 :: int)"
    by simp_all
  then show ?thesis
    unfolding wrap64_def in_int64_def min_int64_def max_int64_def by linarith
qed

lemma in_int64_nonneg: "0 \<le> x \<Longrightarrow> in_int64 x \<longleftrightarrow> x \<le> max_int64"
  by (simp add: in_int64_def min_int64_def)

text \<open>Go's integer division truncates towards zero.\<close>

definition quot64 :: "int64 \<Rightarrow> int64 \<Rightarrow> int64" where
  "quot64 a b = sgn a * sgn b * (\<bar>a\<bar> div \<bar>b\<bar>)"

definition rem64 :: "int64 \<Rightarrow> int64 \<Rightarrow> int64" where
  "rem64 a b = a - quot64 a b * b"

lemma quot64_nonneg [simp]: "0 \<le> a \<Longrightarrow> 0 < b \<Longrightarrow> quot64 a b = a div b"
  by (cases "a = 0") (simp_all add: quot64_def)

lemma rem64_nonneg [simp]: "0 \<le> a \<Longrightarrow> 0 < b \<Longrightarrow> rem64 a b = a mod b"
  by (simp add: rem64_def minus_div_mult_eq_mod)

type_synonym uint64 = "64 word"

section \<open>Instants\<close>

text \<open>
  \<open>time.Time\<close>: nanoseconds since the zero time, and whether the location is UTC.
\<close>

record go_time =
  time_nanos :: int
  time_utc :: bool

definition time_IsZero :: "go_time \<Rightarrow> bool" where
  "time_IsZero t \<longleftrightarrow> time_nanos t = 0"

definition time_UTC :: "go_time \<Rightarrow> go_time" where
  "time_UTC t = t\<lparr>time_utc := True\<rparr>"

definition time_Before :: "go_time \<Rightarrow> go_time \<Rightarrow> bool" where
  "time_Before a b \<longleftrightarrow> time_nanos a < time_nanos b"

definition time_After :: "go_time \<Rightarrow> go_time \<Rightarrow> bool" where
  "time_After a b \<longleftrightarrow> time_nanos b < time_nanos a"

definition time_Equal :: "go_time \<Rightarrow> go_time \<Rightarrow> bool" where
  "time_Equal a b \<longleftrightarrow> time_nanos a = time_nanos b"

definition time_Add :: "go_time \<Rightarrow> int64 \<Rightarrow> go_time" where
  "time_Add t d = t\<lparr>time_nanos := time_nanos t + d\<rparr>"

section \<open>Sorting\<close>

text \<open>
  \<open>sort.Slice\<close> with a \<open>less\<close> function. Go's sort is not stable, so nothing may be concluded
  about elements that \<open>less\<close> does not separate; the model sorts by insertion, and the
  locale below shows that any other sorted permutation is the same list whenever \<open>less\<close>
  separates the elements.
\<close>

fun insert_by :: "('a \<Rightarrow> 'a \<Rightarrow> bool) \<Rightarrow> 'a \<Rightarrow> 'a list \<Rightarrow> 'a list" where
  "insert_by lt x [] = [x]"
| "insert_by lt x (y # ys) =
     (if lt y x then y # insert_by lt x ys else x # y # ys)"

definition sort_slice :: "('a \<Rightarrow> 'a \<Rightarrow> bool) \<Rightarrow> 'a list \<Rightarrow> 'a list" where
  "sort_slice lt xs = foldr (insert_by lt) xs []"

lemma sort_slice_simps [simp]:
  "sort_slice lt [] = []"
  "sort_slice lt (x # xs) = insert_by lt x (sort_slice lt xs)"
  by (simp_all add: sort_slice_def)

lemma mset_insert_by [simp]: "mset (insert_by lt x xs) = add_mset x (mset xs)"
  by (induction xs) auto

lemma mset_sort_slice [simp]: "mset (sort_slice lt xs) = mset xs"
  by (induction xs) simp_all

lemma set_insert_by [simp]: "set (insert_by lt x xs) = insert x (set xs)"
  by (induction xs) auto

lemma set_sort_slice [simp]: "set (sort_slice lt xs) = set xs"
  by (induction xs) simp_all

lemma length_insert_by [simp]: "length (insert_by lt x xs) = Suc (length xs)"
  by (induction xs) simp_all

lemma length_sort_slice [simp]: "length (sort_slice lt xs) = length xs"
  by (induction xs) simp_all

lemma distinct_insert_by [simp]: "distinct (insert_by lt x xs) \<longleftrightarrow> x \<notin> set xs \<and> distinct xs"
  by (induction xs) auto

lemma distinct_sort_slice [simp]: "distinct (sort_slice lt xs) \<longleftrightarrow> distinct xs"
  by (induction xs) simp_all

text \<open>The contract of a \<open>less\<close> function: a strict weak order.\<close>

locale sort_order =
  fixes lt :: "'a \<Rightarrow> 'a \<Rightarrow> bool"
  assumes less_asym: "lt x y \<Longrightarrow> \<not> lt y x"
    and less_negtrans: "\<not> lt x y \<Longrightarrow> \<not> lt y z \<Longrightarrow> \<not> lt x z"
begin

definition sorted_by :: "'a list \<Rightarrow> bool" where
  "sorted_by xs = sorted_wrt (\<lambda>x y. \<not> lt y x) xs"

lemma less_irrefl: "\<not> lt x x"
  using less_asym by blast

lemma less_trans: "lt x y \<Longrightarrow> lt y z \<Longrightarrow> lt x z"
  using less_asym less_negtrans by blast

lemma sorted_insert_by: "sorted_by xs \<Longrightarrow> sorted_by (insert_by lt x xs)"
  unfolding sorted_by_def
  by (induction xs) (auto dest: less_asym, blast dest: less_negtrans)

lemma sorted_sort_slice: "sorted_by (sort_slice lt xs)"
  by (induction xs) (simp_all add: sorted_insert_by, simp add: sorted_by_def)

text \<open>
  Two sorted lists with the same elements are equal when \<open>less\<close> separates different
  elements: whatever algorithm \<open>sort.Slice\<close> uses, the result is the one of the model.
\<close>

definition separated :: "'a set \<Rightarrow> bool" where
  "separated A \<longleftrightarrow> (\<forall>x \<in> A. \<forall>y \<in> A. \<not> lt x y \<longrightarrow> \<not> lt y x \<longrightarrow> x = y)"

lemma sorted_unique:
  "mset xs = mset ys \<Longrightarrow> sorted_by xs \<Longrightarrow> sorted_by ys \<Longrightarrow> separated (set xs) \<Longrightarrow> xs = ys"
proof (induction xs arbitrary: ys)
  case Nil
  then show ?case by simp
next
  case (Cons x xs)
  then obtain y zs where ys: "ys = y # zs"
    by (cases ys) auto
  have sets: "set (x # xs) = set ys"
    using Cons.prems(1) by (metis set_mset_mset)
  have "x = y"
  proof (rule ccontr)
    assume "x \<noteq> y"
    moreover have "x \<in> set ys" and "y \<in> set (x # xs)"
      using sets ys by auto
    ultimately have "x \<in> set zs" and "y \<in> set xs"
      using ys by auto
    then have "\<not> lt x y" and "\<not> lt y x"
      using Cons.prems(2,3) ys by (auto simp: sorted_by_def)
    with \<open>x \<noteq> y\<close> \<open>y \<in> set xs\<close> Cons.prems(4) show False
      by (auto simp: separated_def)
  qed
  moreover have "xs = zs"
    using Cons ys \<open>x = y\<close> by (auto simp: sorted_by_def separated_def)
  ultimately show ?case using ys by simp
qed

lemma sort_slice_unique:
  "mset ys = mset xs \<Longrightarrow> sorted_by ys \<Longrightarrow> separated (set xs) \<Longrightarrow> sort_slice lt xs = ys"
  by (rule sorted_unique) (simp_all add: sorted_sort_slice)

lemma sort_slice_cong:
  "mset xs = mset ys \<Longrightarrow> separated (set xs) \<Longrightarrow> sort_slice lt xs = sort_slice lt ys"
  by (rule sort_slice_unique) (simp_all add: sorted_sort_slice)

end

text \<open>The comparison cascade of a \<open>less\<close> function, as the order of pairs and of lists.\<close>

lemma less_pair_cascade:
  "(a :: 'a :: linorder, b :: 'b :: linorder) < (c, d) \<longleftrightarrow> (if a \<noteq> c then a < c else b < d)"
  by auto

lemma less_list_cascade:
  "[a] < [c :: 'a :: linorder] \<longleftrightarrow> a < c"
  "a # b # x < c # d # y \<longleftrightarrow> (if a \<noteq> c then a < c else b # x < d # y)"
  by auto

text \<open>A \<open>less\<close> function that compares a key of a linearly ordered type.\<close>

lemma sort_order_key:
  fixes f :: "'a \<Rightarrow> 'k :: linorder"
  shows "sort_order (\<lambda>x y. f x < f y)"
  by unfold_locales auto

text \<open>Sorting strings with \<open>sort.Strings\<close>: the byte-wise lexicographic order.\<close>

interpretation string_order: sort_order "(<) :: string \<Rightarrow> string \<Rightarrow> bool"
  by unfold_locales auto

lemma string_separated: "string_order.separated A"
  by (auto simp: string_order.separated_def)

section \<open>Choosing by precedence\<close>

text \<open>
  A scan that keeps the first element and replaces it by a strictly better later one. Where
  \<open>lt\<close> is the order of a sort, the choice is a least element, the earliest of its class.
\<close>

fun pick_best :: "('a \<Rightarrow> 'a \<Rightarrow> bool) \<Rightarrow> 'a \<Rightarrow> 'a list \<Rightarrow> 'a" where
  "pick_best lt x [] = x"
| "pick_best lt x (y # ys) = pick_best lt (if lt y x then y else x) ys"

context sort_order
begin

lemma pick_best_in: "pick_best lt x ys \<in> set (x # ys)"
  by (induction ys arbitrary: x) (simp, force)

lemma pick_best_least: "y \<in> set (x # ys) \<Longrightarrow> \<not> lt y (pick_best lt x ys)"
proof (induction ys arbitrary: x y)
  case Nil
  then show ?case by (simp add: less_irrefl)
next
  case (Cons z zs)
  let ?best = "if lt z x then z else x"
  have "\<not> lt ?best (pick_best lt ?best zs)" by (rule Cons.IH) simp
  moreover have "\<not> lt x ?best" "\<not> lt z ?best" using less_irrefl less_asym by auto
  ultimately have "\<not> lt x (pick_best lt ?best zs)" "\<not> lt z (pick_best lt ?best zs)"
    using less_negtrans by blast+
  moreover have "\<not> lt y (pick_best lt ?best zs)" if "y \<in> set zs"
    using that by (intro Cons.IH) simp
  ultimately show ?case using Cons.prems by auto
qed

lemma pick_best_earliest:
  "\<exists>pre post. x # ys = pre @ pick_best lt x ys # post \<and> (\<forall>p \<in> set pre. lt (pick_best lt x ys) p)"
proof (induction ys rule: rev_induct)
  case Nil
  show ?case by (intro exI [of _ "[]"]) simp
next
  case (snoc y ys)
  have app: "pick_best lt x (ys @ [y]) =
      (if lt y (pick_best lt x ys) then y else pick_best lt x ys)"
    by (induction ys arbitrary: x) simp_all
  show ?case
  proof (cases "lt y (pick_best lt x ys)")
    case True
    have "lt y p" if "p \<in> set (x # ys)" for p
      using True pick_best_least [OF that] less_negtrans [of y p "pick_best lt x ys"] by blast
    with True app show ?thesis
      by (intro exI [of _ "x # ys"] exI [of _ "[]"]) simp
  next
    case False
    from snoc obtain pre post where "x # ys = pre @ pick_best lt x ys # post"
      "\<forall>p \<in> set pre. lt (pick_best lt x ys) p" by blast
    with False app show ?thesis
      by (intro exI [of _ pre] exI [of _ "post @ [y]"]) simp
  qed
qed

end

end
