(* ===== verification/Go_Strings.thy ===== *)
theory Go_Strings
  imports Prelude
begin

text \<open>
  The parts of Go's string library that the program uses, on byte strings: prefixes,
  \<open>strings.TrimSpace\<close> and \<open>strings.Fields\<close> with the white-space code points of
  \<open>unicode.IsSpace\<close> in their UTF-8 encoding, \<open>strings.ToLower\<close>, \<open>strings.Join\<close>,
  \<open>path.Clean\<close>, decimal and hexadecimal formatting.

  UTF-8 is self-synchronising, so looking for the encoding of a white-space code point at a
  byte position finds exactly the white space that Go's rune loop finds, on invalid input too.
\<close>

section \<open>Byte classes\<close>

definition is_digit_byte :: "char \<Rightarrow> bool" where
  "is_digit_byte c \<longleftrightarrow> CHR ''0'' \<le> c \<and> c \<le> CHR ''9''"

definition is_lower_byte :: "char \<Rightarrow> bool" where
  "is_lower_byte c \<longleftrightarrow> CHR ''a'' \<le> c \<and> c \<le> CHR ''z''"

definition is_upper_byte :: "char \<Rightarrow> bool" where
  "is_upper_byte c \<longleftrightarrow> CHR ''A'' \<le> c \<and> c \<le> CHR ''Z''"

definition is_lower_hex_byte :: "char \<Rightarrow> bool" where
  "is_lower_hex_byte c \<longleftrightarrow>
     is_digit_byte c \<or> CHR ''a'' \<le> c \<and> c \<le> CHR ''f''"

definition ascii :: "string \<Rightarrow> bool" where
  "ascii s \<longleftrightarrow> list_all (\<lambda>c. c < CHR 0x80) s"

declare is_digit_byte_def [go_defs] is_lower_byte_def [go_defs] is_upper_byte_def [go_defs]
  is_lower_hex_byte_def [go_defs] ascii_def [go_defs]

section \<open>Prefixes and searching\<close>

definition HasPrefix :: "string \<Rightarrow> string \<Rightarrow> bool" where
  "HasPrefix s p = prefix p s"

definition TrimPrefix :: "string \<Rightarrow> string \<Rightarrow> string" where
  "TrimPrefix s p = (if prefix p s then drop (length p) s else s)"

definition HasSuffix :: "string \<Rightarrow> string \<Rightarrow> bool" where
  "HasSuffix s p = suffix p s"

definition ContainsAny :: "string \<Rightarrow> string \<Rightarrow> bool" where
  "ContainsAny s cs = list_ex (\<lambda>c. c \<in> set cs) s"

fun Contains :: "string \<Rightarrow> string \<Rightarrow> bool" where
  "Contains [] p = (p = [])"
| "Contains (c # cs) p = (prefix p (c # cs) \<or> Contains cs p)"

lemma Contains_iff: "Contains s p \<longleftrightarrow> (\<exists>u v. s = u @ p @ v)"
proof (induction s)
  case Nil
  then show ?case by auto
next
  case (Cons c s)
  show ?case
  proof
    assume "Contains (c # s) p"
    then show "\<exists>u v. c # s = u @ p @ v"
    proof (cases "prefix p (c # s)")
      case True
      then show ?thesis by (metis append_Nil prefix_def)
    next
      case False
      with \<open>Contains (c # s) p\<close> have "\<exists>u v. s = u @ p @ v"
        using Cons.IH by simp
      then show ?thesis by (metis append_Cons)
    qed
  next
    assume "\<exists>u v. c # s = u @ p @ v"
    then show "Contains (c # s) p"
      using Cons.IH by (auto simp: prefix_def Cons_eq_append_conv)
  qed
qed

lemma HasPrefix_TrimPrefix: "HasPrefix s p \<Longrightarrow> p @ TrimPrefix s p = s"
  by (auto simp: HasPrefix_def TrimPrefix_def prefix_def)

lemma TrimPrefix_append [simp]: "TrimPrefix (p @ s) p = s"
  by (simp add: TrimPrefix_def)

lemma HasPrefix_append [simp]: "HasPrefix (p @ s) p"
  by (simp add: HasPrefix_def)

section \<open>White space\<close>

definition unicode_spaces :: "string list" where
  "unicode_spaces =
     [[CHR 0x09], [CHR 0x0A], [CHR 0x0B], [CHR 0x0C], [CHR 0x0D], [CHR 0x20],
      [CHR 0xC2, CHR 0x85], [CHR 0xC2, CHR 0xA0], [CHR 0xE1, CHR 0x9A, CHR 0x80],
      [CHR 0xE2, CHR 0x80, CHR 0x80], [CHR 0xE2, CHR 0x80, CHR 0x81],
      [CHR 0xE2, CHR 0x80, CHR 0x82], [CHR 0xE2, CHR 0x80, CHR 0x83],
      [CHR 0xE2, CHR 0x80, CHR 0x84], [CHR 0xE2, CHR 0x80, CHR 0x85],
      [CHR 0xE2, CHR 0x80, CHR 0x86], [CHR 0xE2, CHR 0x80, CHR 0x87],
      [CHR 0xE2, CHR 0x80, CHR 0x88], [CHR 0xE2, CHR 0x80, CHR 0x89],
      [CHR 0xE2, CHR 0x80, CHR 0x8A], [CHR 0xE2, CHR 0x80, CHR 0xA8],
      [CHR 0xE2, CHR 0x80, CHR 0xA9], [CHR 0xE2, CHR 0x80, CHR 0xAF],
      [CHR 0xE2, CHR 0x81, CHR 0x9F], [CHR 0xE3, CHR 0x80, CHR 0x80]]"

definition strip_one :: "string list \<Rightarrow> string \<Rightarrow> string option" where
  "strip_one pats s =
     (case find (\<lambda>p. p \<noteq> [] \<and> prefix p s) pats of
        None \<Rightarrow> None
      | Some p \<Rightarrow> Some (drop (length p) s))"

lemma find_SomeD: "find P xs = Some x \<Longrightarrow> x \<in> set xs \<and> P x"
  by (induction xs) (auto split: if_splits)

lemma strip_one_None: "strip_one pats s = None \<longleftrightarrow> (\<forall>p \<in> set pats. p \<noteq> [] \<longrightarrow> \<not> prefix p s)"
  by (auto simp: strip_one_def find_None_iff split: option.splits dest!: find_SomeD)

lemma strip_one_Some:
  "strip_one pats s = Some t \<Longrightarrow> \<exists>p \<in> set pats. p \<noteq> [] \<and> s = p @ t"
  by (fastforce simp: strip_one_def prefix_def split: option.splits dest!: find_SomeD)

lemma strip_one_length: "strip_one pats s = Some t \<Longrightarrow> length t < length s"
  by (drule strip_one_Some) auto

lemma strip_one_mono: "strip_one pats (s @ t) = None \<Longrightarrow> strip_one pats s = None"
  by (auto simp: strip_one_None prefix_append)

function strip_all :: "string list \<Rightarrow> string \<Rightarrow> string" where
  "strip_all pats s = (case strip_one pats s of None \<Rightarrow> s | Some t \<Rightarrow> strip_all pats t)"
  by pat_completeness auto
termination
  by (relation "measure (\<lambda>(pats, s). length s)") (auto dest: strip_one_length)

declare strip_all.simps [simp del]

lemma strip_all_stops: "strip_one pats (strip_all pats s) = None"
  by (induction pats s rule: strip_all.induct) (subst strip_all.simps, simp split: option.split)

lemma strip_all_fixed: "strip_one pats s = None \<Longrightarrow> strip_all pats s = s"
  by (subst strip_all.simps) simp

lemma strip_all_suffix: "suffix (strip_all pats s) s"
proof (induction pats s rule: strip_all.induct)
  case (1 pats s)
  show ?case
  proof (cases "strip_one pats s")
    case None
    then show ?thesis by (simp add: strip_all_fixed)
  next
    case (Some t)
    then have "suffix t s"
      by (auto dest!: strip_one_Some simp: suffix_def)
    moreover have "strip_all pats s = strip_all pats t"
      by (subst strip_all.simps) (simp add: Some)
    ultimately show ?thesis
      using 1 [OF Some] by (metis suffix_order.trans)
  qed
qed

definition TrimLeftSpace :: "string \<Rightarrow> string" where
  "TrimLeftSpace s = strip_all unicode_spaces s"

definition TrimRightSpace :: "string \<Rightarrow> string" where
  "TrimRightSpace s = rev (strip_all (map rev unicode_spaces) (rev s))"

definition TrimSpace :: "string \<Rightarrow> string" where
  "TrimSpace s = TrimRightSpace (TrimLeftSpace s)"

lemma TrimRightSpace_prefix: "prefix (TrimRightSpace s) s"
  using strip_all_suffix [of "map rev unicode_spaces" "rev s"]
  by (simp add: TrimRightSpace_def suffix_to_prefix)

text \<open>Trimming twice is trimming once: the constructors store trimmed text, the validators trim again.\<close>

lemma TrimSpace_idem [simp]: "TrimSpace (TrimSpace s) = TrimSpace s"
proof -
  let ?l = "TrimLeftSpace s"
  let ?r = "TrimRightSpace ?l"
  obtain rest where "?l = ?r @ rest"
    using TrimRightSpace_prefix [of ?l] by (auto simp: prefix_def)
  moreover have "strip_one unicode_spaces ?l = None"
    by (simp add: TrimLeftSpace_def strip_all_stops)
  ultimately have "strip_one unicode_spaces ?r = None"
    by (metis strip_one_mono)
  then have "TrimLeftSpace ?r = ?r"
    by (simp add: TrimLeftSpace_def strip_all_fixed)
  moreover have "TrimRightSpace ?r = ?r"
    by (simp add: TrimRightSpace_def strip_all_fixed strip_all_stops)
  ultimately show ?thesis by (simp add: TrimSpace_def)
qed

lemma TrimSpace_Nil [simp]: "TrimSpace [] = []"
  by (simp add: TrimSpace_def TrimLeftSpace_def TrimRightSpace_def strip_all_fixed
      strip_one_None)

text \<open>\<open>strings.Fields\<close>: the maximal runs of non-space code points.\<close>

function fields_from :: "string \<Rightarrow> string \<Rightarrow> string list" where
  "fields_from acc s =
     (if s = [] then (if acc = [] then [] else [acc])
      else case strip_one unicode_spaces s of
             Some t \<Rightarrow> (if acc = [] then [] else [acc]) @ fields_from [] t
           | None \<Rightarrow> fields_from (acc @ [hd s]) (tl s))"
  by pat_completeness auto
termination
  by (relation "measure (\<lambda>(acc, s). length s)") (auto dest: strip_one_length)

declare fields_from.simps [simp del]

definition Fields :: "string \<Rightarrow> string list" where
  "Fields s = fields_from [] s"

fun Join :: "string list \<Rightarrow> string \<Rightarrow> string" where
  "Join [] sep = []"
| "Join [x] sep = x"
| "Join (x # y # ys) sep = x @ sep @ Join (y # ys) sep"


section \<open>Splitting at a byte, and joining\<close>

fun split_on :: "char \<Rightarrow> string \<Rightarrow> string list" where
  "split_on d [] = [[]]"
| "split_on d (c # cs) =
     (if c = d then [] # split_on d cs
      else case split_on d cs of [] \<Rightarrow> [[c]] | w # ws \<Rightarrow> (c # w) # ws)"

lemma split_on_not_Nil [simp]: "split_on d s \<noteq> []"
  by (induction s) (auto split: list.splits)

lemma split_on_no_sep: "w \<in> set (split_on d s) \<Longrightarrow> d \<notin> set w"
  by (induction s arbitrary: w) (auto split: list.splits if_splits)

lemma Join_Cons: "ws \<noteq> [] \<Longrightarrow> Join (w # ws) sep = w @ sep @ Join ws sep"
  by (cases ws) simp_all

lemma Join_split_on: "Join (split_on d s) [d] = s"
proof (induction s)
  case Nil
  then show ?case by simp
next
  case (Cons c s)
  show ?case
  proof (cases "c = d")
    case True
    then show ?thesis using Cons by (simp add: Join_Cons)
  next
    case False
    obtain w ws where "split_on d s = w # ws"
      by (cases "split_on d s") simp_all
    with False Cons show ?thesis
      by (cases ws) simp_all
  qed
qed

lemma split_on_single: "d \<notin> set w \<Longrightarrow> split_on d w = [w]"
  by (induction w) auto

lemma split_on_append: "split_on d (a @ d # b) = split_on d a @ split_on d b"
  by (induction a) (auto split: list.splits)

lemma split_on_Join:
  "ws \<noteq> [] \<Longrightarrow> \<forall>w \<in> set ws. d \<notin> set w \<Longrightarrow> split_on d (Join ws [d]) = ws"
proof (induction ws rule: list_nonempty_induct)
  case (single w)
  then show ?case by (simp add: split_on_single)
next
  case (cons w ws)
  then show ?case by (simp add: Join_Cons split_on_append split_on_single)
qed

section \<open>Lower case\<close>

text \<open>
  \<open>strings.ToLower\<close> maps ASCII letters byte by byte; on a string with a byte above 127 it
  goes through the Unicode case tables, which are generated data and not part of the
  program: \<open>ul\<close> stands for them.
\<close>

definition lower_byte :: "char \<Rightarrow> char" where
  "lower_byte c = (if is_upper_byte c then char_of (of_char c + 32 :: nat) else c)"

definition ToLower :: "(string \<Rightarrow> string) \<Rightarrow> string \<Rightarrow> string" where
  "ToLower ul s = (if ascii s then map lower_byte s else ul s)"

text \<open>
  Lower-casing the words of a text and joining them with single blanks (the program's
  normal form for matching keys) is idempotent on ASCII text.
\<close>

definition ascii_space :: "char \<Rightarrow> bool" where
  "ascii_space c \<longleftrightarrow> c \<in> set [CHR 0x09, CHR 0x0A, CHR 0x0B, CHR 0x0C, CHR 0x0D, CHR 0x20]"

definition plain_word :: "string \<Rightarrow> bool" where
  "plain_word w \<longleftrightarrow> w \<noteq> [] \<and> ascii w \<and> list_all (\<lambda>c. \<not> ascii_space c) w"

lemma ascii_simps [simp]:
  "ascii []" "ascii (c # s) \<longleftrightarrow> c < CHR 0x80 \<and> ascii s" "ascii (s @ t) \<longleftrightarrow> ascii s \<and> ascii t"
  by (simp_all add: ascii_def)

lemma not_ascii_bytes:
  assumes "c < CHR 0x80"
  shows "c \<noteq> CHR 0xC2" "c \<noteq> CHR 0xE1" "c \<noteq> CHR 0xE2" "c \<noteq> CHR 0xE3"
  using assms by auto

lemma strip_one_ascii:
  "c < CHR 0x80 \<Longrightarrow> strip_one unicode_spaces (c # s) = (if ascii_space c then Some s else None)"
  by (simp add: strip_one_def unicode_spaces_def ascii_space_def not_ascii_bytes
      not_ascii_bytes [THEN not_sym])

lemma fields_from_Nil [simp]: "fields_from acc [] = (if acc = [] then [] else [acc])"
  by (simp add: fields_from.simps)

lemma fields_from_space:
  "ascii_space c \<Longrightarrow> c < CHR 0x80 \<Longrightarrow>
    fields_from acc (c # s) = (if acc = [] then [] else [acc]) @ fields_from [] s"
  by (simp add: fields_from.simps [of acc "c # s"] strip_one_ascii)

lemma fields_from_char:
  "\<not> ascii_space c \<Longrightarrow> c < CHR 0x80 \<Longrightarrow> fields_from acc (c # s) = fields_from (acc @ [c]) s"
  by (simp add: fields_from.simps [of acc "c # s"] strip_one_ascii)

lemma fields_from_plain:
  "ascii s \<Longrightarrow> acc = [] \<or> plain_word acc \<Longrightarrow> list_all plain_word (fields_from acc s)"
proof (induction s arbitrary: acc)
  case Nil
  then show ?case by auto
next
  case (Cons c s)
  show ?case
  proof (cases "ascii_space c")
    case True
    then show ?thesis using Cons by (auto simp: fields_from_space)
  next
    case False
    then have "plain_word (acc @ [c])"
      using Cons.prems by (auto simp: plain_word_def)
    then show ?thesis using False Cons by (simp add: fields_from_char)
  qed
qed

lemma fields_from_word:
  "list_all (\<lambda>c. \<not> ascii_space c) w \<Longrightarrow> ascii w \<Longrightarrow>
    fields_from acc (w @ s) = fields_from (acc @ w) s"
  by (induction w arbitrary: acc) (simp_all add: fields_from_char)

lemma Fields_Join: "list_all plain_word ws \<Longrightarrow> Fields (Join ws '' '') = ws"
proof (induction ws)
  case Nil
  then show ?case by (simp add: Fields_def)
next
  case (Cons w ws)
  then have w: "list_all (\<lambda>c. \<not> ascii_space c) w" "ascii w" "w \<noteq> []"
    by (simp_all add: plain_word_def)
  show ?case
  proof (cases "ws = []")
    case True
    then show ?thesis
      using fields_from_word [OF w(1,2), of "[]" "[]"] w(3) by (simp add: Fields_def)
  next
    case False
    have "fields_from [] (w @ '' '' @ Join ws '' '') = w # Fields (Join ws '' '')"
      using w(3) by (simp add: fields_from_word [OF w(1,2)] fields_from_space ascii_space_def Fields_def)
    then show ?thesis
      using Cons False by (simp add: Fields_def Join_Cons)
  qed
qed

lemma lower_byte_upper: "is_upper_byte c \<Longrightarrow>
    of_char (lower_byte c) = (of_char c + 32 :: nat) \<and> 97 \<le> (of_char c + 32 :: nat) \<and> (of_char c + 32 :: nat) \<le> 122"
  by (simp add: lower_byte_def is_upper_byte_def less_eq_char_def)

lemma lower_byte_props:
  assumes "c < CHR 0x80"
  shows "lower_byte c < CHR 0x80" "ascii_space (lower_byte c) = ascii_space c"
    "lower_byte (lower_byte c) = lower_byte c"
proof -
  have eq: "(of_char a = (of_char b :: nat)) = (a = b)" for a b
    by simp
  show "lower_byte c < CHR 0x80"
  proof (cases "is_upper_byte c")
    case True
    then show ?thesis using lower_byte_upper [OF True] by (simp add: less_char_def)
  qed (simp add: lower_byte_def assms)
  show "lower_byte (lower_byte c) = lower_byte c"
  proof (cases "is_upper_byte c")
    case True
    then have "\<not> is_upper_byte (lower_byte c)"
      using lower_byte_upper [OF True] by (simp add: is_upper_byte_def less_eq_char_def)
    then show ?thesis by (simp add: lower_byte_def [of "lower_byte c"])
  qed (simp add: lower_byte_def)
  show "ascii_space (lower_byte c) = ascii_space c"
  proof (cases "is_upper_byte c")
    case True
    have "\<not> ascii_space d" if "65 \<le> (of_char d :: nat)" for d
      using that by (auto simp: ascii_space_def)
    then show ?thesis
      using lower_byte_upper [OF True] True by (simp add: is_upper_byte_def less_eq_char_def)
  qed (simp add: lower_byte_def)
qed

lemma map_lower_plain_word: "plain_word w \<Longrightarrow> plain_word (map lower_byte w)"
  by (auto simp: plain_word_def ascii_def list_all_iff lower_byte_props)

lemma ascii_Join: "list_all ascii ws \<Longrightarrow> ascii sep \<Longrightarrow> ascii (Join ws sep)"
  by (induction ws sep rule: Join.induct) simp_all

lemma map_Join: "map f (Join ws sep) = Join (map (map f) ws) (map f sep)"
  by (induction ws sep rule: Join.induct) simp_all

lemma lower_words_idem:
  assumes "ascii s"
  shows "ToLower ul (Join (Fields (ToLower ul (Join (Fields s) '' ''))) '' '') =
    ToLower ul (Join (Fields s) '' '')"
proof -
  define ws where "ws = Fields s"
  define ls where "ls = map (map lower_byte) ws"
  have ws: "list_all plain_word ws"
    using fields_from_plain [OF assms, of "[]"] by (simp add: ws_def Fields_def)
  then have ls: "list_all plain_word ls"
    by (auto simp: ls_def list_all_iff map_lower_plain_word)
  have asc: "ascii (Join vs '' '')" if "list_all plain_word vs" for vs
    using that by (intro ascii_Join) (auto simp: list_all_iff plain_word_def)
  have low: "lower_byte CHR '' '' = CHR '' ''"
    by (simp add: lower_byte_def is_upper_byte_def)
  have first: "ToLower ul (Join ws '' '') = Join ls '' ''"
    using asc [OF ws] low by (simp add: ToLower_def map_Join ls_def)
  have "map (map lower_byte) ls = ls"
    using ws by (auto simp: ls_def list_all_iff plain_word_def ascii_def lower_byte_props)
  then have "ToLower ul (Join ls '' '') = Join ls '' ''"
    using asc [OF ls] low by (simp add: ToLower_def map_Join)
  with first ls show ?thesis
    by (simp add: ws_def [symmetric] Fields_Join)
qed

section \<open>Lexical path cleaning\<close>

text \<open>
  \<open>path.Clean\<close>: the components between slashes, without empty ones and dots, each
  dot-dot removing the component before it where there is one.
\<close>

fun clean_components :: "bool \<Rightarrow> string list \<Rightarrow> string list \<Rightarrow> string list" where
  "clean_components rooted stack [] = rev stack"
| "clean_components rooted stack (c # cs) =
     (if c = [] \<or> c = ''.'' then clean_components rooted stack cs
      else if c = ''..'' then
        (if stack \<noteq> [] \<and> hd stack \<noteq> ''..'' then clean_components rooted (tl stack) cs
         else if rooted then clean_components rooted stack cs
         else clean_components rooted (''..'' # stack) cs)
      else clean_components rooted (c # stack) cs)"

definition PathClean :: "string \<Rightarrow> string" where
  "PathClean s =
     (if s = [] then ''.''
      else let rooted = (hd s = CHR ''/'');
               body = Join (clean_components rooted [] (split_on (CHR ''/'') s)) ''/''
           in if rooted then CHR ''/'' # body else if body = [] then ''.'' else body)"

text \<open>
  The components that remain are proper names, behind a run of dot-dots that is empty for a
  rooted path.
\<close>

definition proper_component :: "string \<Rightarrow> bool" where
  "proper_component c \<longleftrightarrow> c \<noteq> [] \<and> c \<noteq> ''.'' \<and> c \<noteq> ''..''"

fun dots_then_proper :: "string list \<Rightarrow> bool" where
  "dots_then_proper [] = True"
| "dots_then_proper (c # cs) =
     (if c = ''..'' then dots_then_proper cs else list_all proper_component (c # cs))"

lemma dots_then_proper_snoc:
  "dots_then_proper (xs @ [c]) \<longleftrightarrow>
     dots_then_proper xs \<and> (if c = ''..'' then list_all (\<lambda>x. x = ''..'') xs else proper_component c)"
  by (induction xs) (auto simp: proper_component_def list_all_iff)

lemma dots_then_proper_last:
  "dots_then_proper xs \<Longrightarrow> xs \<noteq> [] \<Longrightarrow> last xs = ''..'' \<Longrightarrow> list_all (\<lambda>x. x = ''..'') xs"
  by (induction xs) (auto simp: list_all_iff proper_component_def split: if_splits)

lemma dots_then_proper_dots: "list_all (\<lambda>x. x = ''..'') xs \<Longrightarrow> dots_then_proper xs"
  by (induction xs) simp_all

lemma clean_components_shape:
  "dots_then_proper (rev stack) \<Longrightarrow> dots_then_proper (clean_components False stack cs)"
proof (induction cs arbitrary: stack)
  case Nil
  then show ?case by simp
next
  case (Cons c cs)
  have pop: "dots_then_proper (rev (tl stack))"
    using Cons.prems by (cases stack) (simp_all add: dots_then_proper_snoc)
  have push_dots: "dots_then_proper (rev (''..'' # stack))"
    if "stack = [] \<or> hd stack = ''..''"
    using that Cons.prems dots_then_proper_last [of "rev stack"]
    by (intro dots_then_proper_dots, cases "stack = []") (auto simp: list_all_iff last_rev)
  have push: "dots_then_proper (rev (c # stack))" if "proper_component c"
    using that Cons.prems by (auto simp: dots_then_proper_snoc proper_component_def)
  show ?case
    using Cons.IH [OF Cons.prems] Cons.IH [OF pop] Cons.IH [OF push_dots] Cons.IH [OF push]
    by (auto simp: proper_component_def)
qed

lemma clean_components_members:
  "x \<in> set (clean_components rooted stack cs) \<Longrightarrow> x \<in> set stack \<or> x \<in> set cs \<or> x = ''..''"
proof (induction cs arbitrary: stack)
  case (Cons c cs)
  have "x \<in> set (tl stack) \<Longrightarrow> x \<in> set stack"
    by (cases stack) auto
  then show ?case
    using Cons.prems Cons.IH [of stack] Cons.IH [of "tl stack"] Cons.IH [of "''..'' # stack"]
      Cons.IH [of "c # stack"]
    by (auto split: if_splits)
qed simp

text \<open>A relative path that cleaning leaves alone and that does not start with dot-dot.\<close>

lemma PathClean_fixed_components:
  assumes clean: "PathClean s = s" and rel: "\<not> HasPrefix s ''/''" and dot: "s \<noteq> ''.''"
    and up: "s \<noteq> ''..''" and up2: "\<not> HasPrefix s ''../''"
  shows "list_all proper_component (split_on (CHR ''/'') s)"
proof -
  let ?cs = "clean_components False [] (split_on (CHR ''/'') s)"
  have "s \<noteq> []" using clean by (auto simp: PathClean_def)
  then have "hd s \<noteq> CHR ''/''"
    using rel by (cases s) (simp_all add: HasPrefix_def)
  then have joined: "Join ?cs ''/'' = s" and "?cs \<noteq> []"
    using clean \<open>s \<noteq> []\<close> dot by (auto simp: PathClean_def Let_def split: if_splits)
  have "\<forall>w \<in> set ?cs. CHR ''/'' \<notin> set w"
    using clean_components_members split_on_no_sep by fastforce
  with \<open>?cs \<noteq> []\<close> have split: "split_on (CHR ''/'') s = ?cs"
    using split_on_Join [of ?cs "CHR ''/''"] joined by simp
  have shape: "dots_then_proper ?cs"
    by (rule clean_components_shape) simp
  obtain c cs where cs: "?cs = c # cs"
    using \<open>?cs \<noteq> []\<close> by (cases ?cs) simp_all
  have "c \<noteq> ''..''"
  proof
    assume "c = ''..''"
    then show False
      using joined cs up up2 by (cases cs) (auto simp: HasPrefix_def Join_Cons prefix_def)
  qed
  with shape cs have "list_all proper_component ?cs" by simp
  with split show ?thesis by simp
qed

text \<open>Conversely, a path of proper components is left alone by cleaning.\<close>

lemma clean_components_proper:
  "list_all proper_component cs \<Longrightarrow> clean_components rooted stack cs = rev stack @ cs"
  by (induction cs arbitrary: stack) (auto simp: proper_component_def)

lemma proper_components_path:
  assumes "list_all proper_component (split_on (CHR ''/'') s)"
  shows "PathClean s = s" "s \<noteq> []" "s \<noteq> ''.''" "s \<noteq> ''..''" "\<not> HasPrefix s ''/''"
    "\<not> HasPrefix s ''../''" "\<not> Contains s ''//''" "\<not> HasSuffix s ''/''"
proof -
  have no_empty: "[] \<notin> set (split_on (CHR ''/'') s)" and no_up: "''..'' \<notin> set (split_on (CHR ''/'') s)"
    using assms by (auto simp: list_all_iff proper_component_def)
  show ne: "s \<noteq> []" "s \<noteq> ''.''" "s \<noteq> ''..''" using assms by (auto simp: proper_component_def)
  show rel: "\<not> HasPrefix s ''/''"
    using no_empty by (auto simp: HasPrefix_def prefix_def)
  show "\<not> HasPrefix s ''../''"
    using no_up split_on_append [of "CHR ''/''" "''..''"] by (auto simp: HasPrefix_def prefix_def)
  show "\<not> HasSuffix s ''/''"
    using no_empty split_on_append [of "CHR ''/''" _ "[]"] by (auto simp: HasSuffix_def suffix_def)
  show "\<not> Contains s ''//''"
    using no_empty split_on_append [of "CHR ''/''"] by (auto simp: Contains_iff)
  have "hd s \<noteq> CHR ''/''" using rel ne by (cases s) (simp_all add: HasPrefix_def)
  then show "PathClean s = s"
    using ne clean_components_proper [OF assms, of False "[]"] Join_split_on [of "CHR ''/''" s]
    by (simp add: PathClean_def Let_def)
qed

text \<open>
  What an accepted path looks like: relative, a sequence of proper names, none of them empty,
  dot or dot-dot, and without the bytes that would change its meaning elsewhere.
\<close>

definition safe_path :: "string \<Rightarrow> bool" where
  "safe_path v \<longleftrightarrow>
     list_all proper_component (split_on (CHR ''/'') v) \<and>
     (\<forall>c \<in> {CHR 0x5C, CHR 0x00, CHR 0x0D, CHR 0x0A}. c \<notin> set v)"

section \<open>Numbers and bytes as text\<close>

definition digit_char :: "nat \<Rightarrow> char" where
  "digit_char n = char_of (48 + n)"

fun dec :: "nat \<Rightarrow> string" where
  "dec n = (if n < 10 then [digit_char n] else dec (n div 10) @ [digit_char (n mod 10)])"

declare dec.simps [simp del]

text \<open>\<open>%03d\<close>\<close>

definition dec3 :: "nat \<Rightarrow> string" where
  "dec3 n = replicate (3 - length (dec n)) (CHR ''0'') @ dec n"

definition nibble_char :: "nat \<Rightarrow> char" where
  "nibble_char n = (if n < 10 then char_of (48 + n) else char_of (87 + n))"

definition hex_byte :: "nat \<Rightarrow> string" where
  "hex_byte b = [nibble_char (b div 16), nibble_char (b mod 16)]"

definition hex_encode :: "nat list \<Rightarrow> string" where
  "hex_encode bs = concat (map hex_byte bs)"

lemma digit_char_inject: "m < 10 \<Longrightarrow> n < 10 \<Longrightarrow> digit_char m = digit_char n \<longleftrightarrow> m = n"
  by (simp add: digit_char_def char_of_eq_iff take_bit_eq_mod)

lemma digit_char_is_digit: "n < 10 \<Longrightarrow> is_digit_byte (digit_char n)"
  by (simp add: digit_char_def is_digit_byte_def less_eq_char_def)

lemma dec_digits: "list_all is_digit_byte (dec n)"
proof (induction n rule: dec.induct)
  case (1 n)
  then show ?case by (subst dec.simps) (auto simp: digit_char_is_digit)
qed

lemma dec_not_Nil [simp]: "dec n \<noteq> []" "[] \<noteq> dec n"
  by (subst dec.simps, simp)+

lemma dec_inject: "dec m = dec n \<longleftrightarrow> m = n"
proof (induction m arbitrary: n rule: dec.induct)
  case (1 m)
  show ?case
  proof (cases "m < 10")
    case True
    then show ?thesis
      by (cases "n < 10")
        (auto simp: dec.simps [of m] dec.simps [of n] digit_char_inject Cons_eq_append_conv)
  next
    case m: False
    show ?thesis
    proof (cases "n < 10")
      case True
      then show ?thesis
        using m by (auto simp: dec.simps [of m] dec.simps [of n] Cons_eq_append_conv)
    next
      case False
      have "dec m = dec n \<longleftrightarrow> m div 10 = n div 10 \<and> m mod 10 = n mod 10"
        using m False 1 [OF m] by (simp add: dec.simps [of m] dec.simps [of n] digit_char_inject)
      then show ?thesis by (metis div_mult_mod_eq)
    qed
  qed
qed

lemma dec_no_byte: "\<not> is_digit_byte c \<Longrightarrow> c \<notin> set (dec n)"
  using dec_digits [of n] by (auto simp: list_all_iff)

lemma nibble_char_lower_hex: "n < 16 \<Longrightarrow> is_lower_hex_byte (nibble_char n)"
  by (simp add: nibble_char_def go_defs less_eq_char_def)

lemma nibble_char_inject: "m < 16 \<Longrightarrow> n < 16 \<Longrightarrow> nibble_char m = nibble_char n \<longleftrightarrow> m = n"
  by (auto simp: nibble_char_def char_of_eq_iff take_bit_eq_mod)

lemma length_hex_encode [simp]: "length (hex_encode bs) = 2 * length bs"
  by (induction bs) (simp_all add: hex_encode_def hex_byte_def)

lemma hex_encode_simps [simp]:
  "hex_encode [] = []" "hex_encode (b # bs) = hex_byte b @ hex_encode bs"
  "hex_encode (bs @ cs) = hex_encode bs @ hex_encode cs"
  by (simp_all add: hex_encode_def)

lemma hex_encode_lower_hex:
  "list_all (\<lambda>b. b < 256) bs \<Longrightarrow> list_all is_lower_hex_byte (hex_encode bs)"
  by (induction bs) (auto simp: hex_byte_def nibble_char_lower_hex)

text \<open>Reading the digits back: leading zeros do not change the number.\<close>

definition undec :: "string \<Rightarrow> nat" where
  "undec s = foldl (\<lambda>a c. 10 * a + (of_char c - 48)) 0 s"

lemma undec_dec [simp]: "undec (dec n) = n"
proof (induction n rule: dec.induct)
  case (1 n)
  have digit: "of_char (digit_char d) = 48 + d" if "d < 10" for d
    using that by (simp add: digit_char_def)
  show ?case
    using 1 by (subst dec.simps) (simp add: undec_def digit)
qed

lemma undec_zeros: "undec (replicate k (CHR ''0'') @ s) = undec s"
  by (induction k) (simp_all add: undec_def)

lemma dec3_inject: "dec3 m = dec3 n \<Longrightarrow> m = n"
  by (metis dec3_def undec_dec undec_zeros)

end
