(* ===== verification/States.thy ===== *)
theory States
  imports Go_Strings
begin

text \<open>
  The closed state sets of \<open>internal/domain/states.go\<close>.

  Each Go string type becomes a datatype with the source's constants and one more
  constructor, \<open>...Other\<close>, for every other string (the zero value is \<open>...Other ''''\<close>), so
  that the \<open>Valid\<close> guards have something to reject. \<open>T_string\<close> is the conversion to
  \<open>string\<close>, \<open>T_of\<close> the conversion from it; the locale \<open>string_enum\<close> shows that they are
  inverse to each other and that \<open>Valid\<close> is the source's \<open>oneOf\<close> on the wire strings.

  The transition tables of runs, role tasks, attempts and invocations follow, with the
  contract (\<open>lifecycle\<close>, \<open>ranked_lifecycle\<close>) that the aggregates rely on.
\<close>

section \<open>Closed string enumerations\<close>

fun oneOf :: "'a \<Rightarrow> 'a list \<Rightarrow> bool" where
  "oneOf v [] = False"
| "oneOf v (c # cs) = (v = c \<or> oneOf v cs)"

lemma oneOf_iff: "oneOf v cs \<longleftrightarrow> v \<in> set cs"
  by (induction cs) auto

definition from_wire :: "('e \<Rightarrow> string) \<Rightarrow> 'e list \<Rightarrow> (string \<Rightarrow> 'e) \<Rightarrow> string \<Rightarrow> 'e" where
  "from_wire str vals other s =
     (case find (\<lambda>e. str e = s) vals of Some e \<Rightarrow> e | None \<Rightarrow> other s)"

locale string_enum =
  fixes str :: "'e \<Rightarrow> string" and vals :: "'e list" and other :: "string \<Rightarrow> 'e"
    and valid :: "'e \<Rightarrow> bool"
  assumes str_other: "str (other s) = s"
    and distinct_wire: "distinct (map str vals)"
    and valid_iff: "valid e \<longleftrightarrow> e \<in> set vals"
    and other_invalid: "\<not> valid (other s)"
begin

lemma str_from_wire: "str (from_wire str vals other s) = s"
  by (auto simp: from_wire_def str_other split: option.splits dest: find_SomeD)

lemma str_inject: "valid a \<Longrightarrow> valid b \<Longrightarrow> str a = str b \<longleftrightarrow> a = b"
  using distinct_wire by (auto simp: valid_iff distinct_map dest: inj_onD)

lemma from_wire_str: "valid e \<Longrightarrow> from_wire str vals other (str e) = e"
proof -
  assume e: "valid e"
  then have "find (\<lambda>x. str x = str e) vals \<noteq> None"
    by (auto simp: find_None_iff valid_iff)
  then obtain x where "find (\<lambda>x. str x = str e) vals = Some x" by blast
  with e show ?thesis
    using str_inject find_SomeD by (fastforce simp: from_wire_def valid_iff)
qed

lemma valid_from_wire: "valid (from_wire str vals other s) \<longleftrightarrow> oneOf s (map str vals)"
proof
  assume "valid (from_wire str vals other s)"
  then show "oneOf s (map str vals)"
    using str_from_wire [of s] by (auto simp: valid_iff oneOf_iff image_iff intro: bexI [rotated])
next
  assume "oneOf s (map str vals)"
  then obtain e where "valid e" "str e = s" by (auto simp: oneOf_iff valid_iff)
  then show "valid (from_wire str vals other s)" using from_wire_str by force
qed

end

section \<open>Transitions\<close>

datatype TransitionError = TransitionError (te_domain: string) (te_from: string) (te_to: string)

definition requireTransition ::
    "string \<Rightarrow> string \<Rightarrow> bool \<Rightarrow> string \<Rightarrow> bool \<Rightarrow> bool \<Rightarrow> TransitionError option" where
  "requireTransition machine from fromValid to toValid allowed =
     (if \<not> fromValid \<or> \<not> toValid \<or> \<not> allowed then Some (TransitionError machine from to) else None)"

text \<open>
  The contract between a state type and the aggregate that stores it: a legal successor
  table on valid states, and a guard that accepts exactly the table. A terminal state has no
  successor. In a ranked lifecycle every transition descends, so a state machine that only
  moves along the table stops after at most \<open>rank\<close> transitions. \<open>moves\<close> is a sequence of
  states that the guard lets through.
\<close>

fun moves :: "('s \<Rightarrow> 's \<Rightarrow> 'err option) \<Rightarrow> 's \<Rightarrow> 's list \<Rightarrow> bool" where
  "moves require s [] = True"
| "moves require s (t # ts) = (require s t = None \<and> moves require t ts)"

locale lifecycle =
  fixes valid :: "'s \<Rightarrow> bool" and can :: "'s \<Rightarrow> 's \<Rightarrow> bool"
    and require :: "'s \<Rightarrow> 's \<Rightarrow> 'err option"
  assumes can_valid: "can s t \<Longrightarrow> valid s \<and> valid t"
    and require_iff: "require s t = None \<longleftrightarrow> can s t"
begin

definition terminal :: "'s \<Rightarrow> bool" where
  "terminal s \<longleftrightarrow> valid s \<and> (\<forall>t. \<not> can s t)"

lemma require_ok: "can s t \<Longrightarrow> require s t = None"
  by (simp add: require_iff)

lemma terminal_chain: "terminal s \<Longrightarrow> moves require s ts \<Longrightarrow> ts = []"
  by (cases ts) (auto simp: terminal_def require_iff)

lemma chain_valid: "moves require s ts \<Longrightarrow> t \<in> set ts \<Longrightarrow> valid t"
  by (induction ts arbitrary: s) (auto simp: require_iff dest: can_valid)

end

locale ranked_lifecycle = lifecycle +
  fixes rank :: "'a \<Rightarrow> nat"
  assumes rank_descends: "can s t \<Longrightarrow> rank t < rank s"
begin

lemma chain_bounded: "moves require s ts \<Longrightarrow> length ts \<le> rank s"
proof (induction ts arbitrary: s)
  case (Cons t ts)
  then show ?case using rank_descends [of s t] by (fastforce simp: require_iff)
qed simp

lemma chain_descends: "moves require s ts \<Longrightarrow> t \<in> set ts \<Longrightarrow> rank t < rank s"
  by (induction ts arbitrary: s) (auto simp: require_iff dest: rank_descends less_trans)

lemma chain_distinct: "moves require s ts \<Longrightarrow> distinct (s # ts)"
proof (induction ts arbitrary: s)
  case (Cons t ts)
  then show ?case using chain_descends [of s "t # ts" s] by auto
qed simp

end

section \<open>The enumerations\<close>

subsection \<open>RunType\<close>

datatype RunType =
    RunTypeReview
  | RunTypeFollowup
  | RunTypeDelta
  | RunTypeRerun
  | RunTypeComposite
  | RunTypeOther string

fun RunType_string :: "RunType \<Rightarrow> string" where
  "RunType_string RunTypeReview = ''review''"
| "RunType_string RunTypeFollowup = ''followup''"
| "RunType_string RunTypeDelta = ''delta''"
| "RunType_string RunTypeRerun = ''rerun''"
| "RunType_string RunTypeComposite = ''composite''"
| "RunType_string (RunTypeOther s) = s"

definition RunType_Valid :: "RunType \<Rightarrow> bool" where
  "RunType_Valid v = oneOf v
     [RunTypeReview, RunTypeFollowup, RunTypeDelta, RunTypeRerun, RunTypeComposite]"

definition RunType_of :: "string \<Rightarrow> RunType" where
  "RunType_of = from_wire RunType_string
     [RunTypeReview, RunTypeFollowup, RunTypeDelta, RunTypeRerun, RunTypeComposite]
     RunTypeOther"

interpretation RunType_enum: string_enum RunType_string
    "[RunTypeReview, RunTypeFollowup, RunTypeDelta, RunTypeRerun, RunTypeComposite]"
    RunTypeOther RunType_Valid
  by unfold_locales (auto simp: RunType_Valid_def)

subsection \<open>RunState\<close>

datatype RunState =
    RunPending
  | RunRunning
  | RunCompleted
  | RunDegraded
  | RunFailed
  | RunCancelled
  | RunStateOther string

fun RunState_string :: "RunState \<Rightarrow> string" where
  "RunState_string RunPending = ''pending''"
| "RunState_string RunRunning = ''running''"
| "RunState_string RunCompleted = ''completed''"
| "RunState_string RunDegraded = ''degraded''"
| "RunState_string RunFailed = ''failed''"
| "RunState_string RunCancelled = ''cancelled''"
| "RunState_string (RunStateOther s) = s"

definition RunState_Valid :: "RunState \<Rightarrow> bool" where
  "RunState_Valid v = oneOf v
     [RunPending, RunRunning, RunCompleted, RunDegraded, RunFailed, RunCancelled]"

definition RunState_of :: "string \<Rightarrow> RunState" where
  "RunState_of = from_wire RunState_string
     [RunPending, RunRunning, RunCompleted, RunDegraded, RunFailed, RunCancelled]
     RunStateOther"

interpretation RunState_enum: string_enum RunState_string
    "[RunPending, RunRunning, RunCompleted, RunDegraded, RunFailed, RunCancelled]"
    RunStateOther RunState_Valid
  by unfold_locales (auto simp: RunState_Valid_def)

fun RunState_CanTransition :: "RunState \<Rightarrow> RunState \<Rightarrow> bool" where
  "RunState_CanTransition RunPending n = (n = RunRunning \<or> n = RunCancelled)"
| "RunState_CanTransition RunRunning n = (n = RunCompleted \<or> n = RunDegraded \<or> n = RunFailed \<or> n = RunCancelled)"
| "RunState_CanTransition _ n = False"

definition RunState_RequireTransition :: "RunState \<Rightarrow> RunState \<Rightarrow> TransitionError option" where
  "RunState_RequireTransition v n =
     requireTransition ''run'' (RunState_string v) (RunState_Valid v) (RunState_string n) (RunState_Valid n)
       (RunState_CanTransition v n)"

subsection \<open>RoleTaskState\<close>

datatype RoleTaskState =
    RoleTaskPending
  | RoleTaskPrimaryQueued
  | RoleTaskPrimaryRunning
  | RoleTaskSucceeded
  | RoleTaskFailed
  | RoleTaskCancelled
  | RoleTaskBlocked
  | RoleTaskStateOther string

fun RoleTaskState_string :: "RoleTaskState \<Rightarrow> string" where
  "RoleTaskState_string RoleTaskPending = ''pending''"
| "RoleTaskState_string RoleTaskPrimaryQueued = ''primary_queued''"
| "RoleTaskState_string RoleTaskPrimaryRunning = ''primary_running''"
| "RoleTaskState_string RoleTaskSucceeded = ''succeeded''"
| "RoleTaskState_string RoleTaskFailed = ''failed''"
| "RoleTaskState_string RoleTaskCancelled = ''cancelled''"
| "RoleTaskState_string RoleTaskBlocked = ''blocked''"
| "RoleTaskState_string (RoleTaskStateOther s) = s"

definition RoleTaskState_Valid :: "RoleTaskState \<Rightarrow> bool" where
  "RoleTaskState_Valid v = oneOf v
     [RoleTaskPending, RoleTaskPrimaryQueued, RoleTaskPrimaryRunning,
      RoleTaskSucceeded, RoleTaskFailed, RoleTaskCancelled, RoleTaskBlocked]"

definition RoleTaskState_of :: "string \<Rightarrow> RoleTaskState" where
  "RoleTaskState_of = from_wire RoleTaskState_string
     [RoleTaskPending, RoleTaskPrimaryQueued, RoleTaskPrimaryRunning,
      RoleTaskSucceeded, RoleTaskFailed, RoleTaskCancelled, RoleTaskBlocked]
     RoleTaskStateOther"

interpretation RoleTaskState_enum: string_enum RoleTaskState_string
    "[RoleTaskPending, RoleTaskPrimaryQueued, RoleTaskPrimaryRunning,
      RoleTaskSucceeded, RoleTaskFailed, RoleTaskCancelled, RoleTaskBlocked]"
    RoleTaskStateOther RoleTaskState_Valid
  by unfold_locales (auto simp: RoleTaskState_Valid_def)

fun RoleTaskState_CanTransition :: "RoleTaskState \<Rightarrow> RoleTaskState \<Rightarrow> bool" where
  "RoleTaskState_CanTransition RoleTaskPending n = (n = RoleTaskPrimaryQueued \<or> n = RoleTaskCancelled \<or> n = RoleTaskBlocked)"
| "RoleTaskState_CanTransition RoleTaskPrimaryQueued n = (n = RoleTaskPrimaryRunning \<or> n = RoleTaskCancelled \<or> n = RoleTaskBlocked)"
| "RoleTaskState_CanTransition RoleTaskPrimaryRunning n = (n = RoleTaskSucceeded \<or> n = RoleTaskFailed \<or> n = RoleTaskCancelled)"
| "RoleTaskState_CanTransition _ n = False"

definition RoleTaskState_RequireTransition :: "RoleTaskState \<Rightarrow> RoleTaskState \<Rightarrow> TransitionError option" where
  "RoleTaskState_RequireTransition v n =
     requireTransition ''role task'' (RoleTaskState_string v) (RoleTaskState_Valid v) (RoleTaskState_string n) (RoleTaskState_Valid n)
       (RoleTaskState_CanTransition v n)"

subsection \<open>AttemptState\<close>

datatype AttemptState =
    AttemptQueued
  | AttemptRunning
  | AttemptValidating
  | AttemptRepairing
  | AttemptSucceeded
  | AttemptFailed
  | AttemptTimedOut
  | AttemptCancelled
  | AttemptBlocked
  | AttemptStateOther string

fun AttemptState_string :: "AttemptState \<Rightarrow> string" where
  "AttemptState_string AttemptQueued = ''queued''"
| "AttemptState_string AttemptRunning = ''running''"
| "AttemptState_string AttemptValidating = ''validating''"
| "AttemptState_string AttemptRepairing = ''repairing''"
| "AttemptState_string AttemptSucceeded = ''succeeded''"
| "AttemptState_string AttemptFailed = ''failed''"
| "AttemptState_string AttemptTimedOut = ''timed_out''"
| "AttemptState_string AttemptCancelled = ''cancelled''"
| "AttemptState_string AttemptBlocked = ''blocked''"
| "AttemptState_string (AttemptStateOther s) = s"

definition AttemptState_Valid :: "AttemptState \<Rightarrow> bool" where
  "AttemptState_Valid v = oneOf v
     [AttemptQueued, AttemptRunning, AttemptValidating, AttemptRepairing,
      AttemptSucceeded, AttemptFailed, AttemptTimedOut, AttemptCancelled,
      AttemptBlocked]"

definition AttemptState_of :: "string \<Rightarrow> AttemptState" where
  "AttemptState_of = from_wire AttemptState_string
     [AttemptQueued, AttemptRunning, AttemptValidating, AttemptRepairing,
      AttemptSucceeded, AttemptFailed, AttemptTimedOut, AttemptCancelled,
      AttemptBlocked]
     AttemptStateOther"

interpretation AttemptState_enum: string_enum AttemptState_string
    "[AttemptQueued, AttemptRunning, AttemptValidating, AttemptRepairing,
      AttemptSucceeded, AttemptFailed, AttemptTimedOut, AttemptCancelled,
      AttemptBlocked]"
    AttemptStateOther AttemptState_Valid
  by unfold_locales (auto simp: AttemptState_Valid_def)

fun AttemptState_CanTransition :: "AttemptState \<Rightarrow> AttemptState \<Rightarrow> bool" where
  "AttemptState_CanTransition AttemptQueued n = (n = AttemptRunning \<or> n = AttemptCancelled \<or> n = AttemptBlocked)"
| "AttemptState_CanTransition AttemptRunning n = (n = AttemptValidating \<or> n = AttemptFailed \<or> n = AttemptTimedOut \<or> n = AttemptCancelled \<or> n = AttemptBlocked)"
| "AttemptState_CanTransition AttemptValidating n = (n = AttemptRepairing \<or> n = AttemptSucceeded \<or> n = AttemptFailed \<or> n = AttemptCancelled \<or> n = AttemptBlocked)"
| "AttemptState_CanTransition AttemptRepairing n = (n = AttemptValidating \<or> n = AttemptFailed \<or> n = AttemptTimedOut \<or> n = AttemptCancelled \<or> n = AttemptBlocked)"
| "AttemptState_CanTransition _ n = False"

definition AttemptState_RequireTransition :: "AttemptState \<Rightarrow> AttemptState \<Rightarrow> TransitionError option" where
  "AttemptState_RequireTransition v n =
     requireTransition ''attempt'' (AttemptState_string v) (AttemptState_Valid v) (AttemptState_string n) (AttemptState_Valid n)
       (AttemptState_CanTransition v n)"

subsection \<open>InvocationState\<close>

datatype InvocationState =
    InvocationQueued
  | InvocationRunning
  | InvocationSucceeded
  | InvocationFailed
  | InvocationTimedOut
  | InvocationCancelled
  | InvocationBlocked
  | InvocationStateOther string

fun InvocationState_string :: "InvocationState \<Rightarrow> string" where
  "InvocationState_string InvocationQueued = ''queued''"
| "InvocationState_string InvocationRunning = ''running''"
| "InvocationState_string InvocationSucceeded = ''succeeded''"
| "InvocationState_string InvocationFailed = ''failed''"
| "InvocationState_string InvocationTimedOut = ''timed_out''"
| "InvocationState_string InvocationCancelled = ''cancelled''"
| "InvocationState_string InvocationBlocked = ''blocked''"
| "InvocationState_string (InvocationStateOther s) = s"

definition InvocationState_Valid :: "InvocationState \<Rightarrow> bool" where
  "InvocationState_Valid v = oneOf v
     [InvocationQueued, InvocationRunning, InvocationSucceeded, InvocationFailed,
      InvocationTimedOut, InvocationCancelled, InvocationBlocked]"

definition InvocationState_of :: "string \<Rightarrow> InvocationState" where
  "InvocationState_of = from_wire InvocationState_string
     [InvocationQueued, InvocationRunning, InvocationSucceeded, InvocationFailed,
      InvocationTimedOut, InvocationCancelled, InvocationBlocked]
     InvocationStateOther"

interpretation InvocationState_enum: string_enum InvocationState_string
    "[InvocationQueued, InvocationRunning, InvocationSucceeded, InvocationFailed,
      InvocationTimedOut, InvocationCancelled, InvocationBlocked]"
    InvocationStateOther InvocationState_Valid
  by unfold_locales (auto simp: InvocationState_Valid_def)

fun InvocationState_CanTransition :: "InvocationState \<Rightarrow> InvocationState \<Rightarrow> bool" where
  "InvocationState_CanTransition InvocationQueued n = (n = InvocationRunning \<or> n = InvocationCancelled \<or> n = InvocationBlocked)"
| "InvocationState_CanTransition InvocationRunning n = (n = InvocationSucceeded \<or> n = InvocationFailed \<or> n = InvocationTimedOut \<or> n = InvocationCancelled \<or> n = InvocationBlocked)"
| "InvocationState_CanTransition _ n = False"

definition InvocationState_RequireTransition :: "InvocationState \<Rightarrow> InvocationState \<Rightarrow> TransitionError option" where
  "InvocationState_RequireTransition v n =
     requireTransition ''invocation'' (InvocationState_string v) (InvocationState_Valid v) (InvocationState_string n) (InvocationState_Valid n)
       (InvocationState_CanTransition v n)"

subsection \<open>ParseState\<close>

datatype ParseState =
    ParseNotStarted
  | ParseValid
  | ParseInvalidJSON
  | ParseEmptyOutput
  | ParseOutputTooLarge
  | ParseStateOther string

fun ParseState_string :: "ParseState \<Rightarrow> string" where
  "ParseState_string ParseNotStarted = ''not_started''"
| "ParseState_string ParseValid = ''valid''"
| "ParseState_string ParseInvalidJSON = ''invalid_json''"
| "ParseState_string ParseEmptyOutput = ''empty_output''"
| "ParseState_string ParseOutputTooLarge = ''output_too_large''"
| "ParseState_string (ParseStateOther s) = s"

definition ParseState_Valid :: "ParseState \<Rightarrow> bool" where
  "ParseState_Valid v = oneOf v
     [ParseNotStarted, ParseValid, ParseInvalidJSON, ParseEmptyOutput,
      ParseOutputTooLarge]"

definition ParseState_of :: "string \<Rightarrow> ParseState" where
  "ParseState_of = from_wire ParseState_string
     [ParseNotStarted, ParseValid, ParseInvalidJSON, ParseEmptyOutput,
      ParseOutputTooLarge]
     ParseStateOther"

interpretation ParseState_enum: string_enum ParseState_string
    "[ParseNotStarted, ParseValid, ParseInvalidJSON, ParseEmptyOutput,
      ParseOutputTooLarge]"
    ParseStateOther ParseState_Valid
  by unfold_locales (auto simp: ParseState_Valid_def)

subsection \<open>ValidationState\<close>

datatype ValidationState =
    ValidationNotStarted
  | ValidationValid
  | ValidationRepairedValid
  | ValidationInvalid
  | ValidationRepairExhausted
  | ValidationInternalError
  | ValidationStateOther string

fun ValidationState_string :: "ValidationState \<Rightarrow> string" where
  "ValidationState_string ValidationNotStarted = ''not_started''"
| "ValidationState_string ValidationValid = ''valid''"
| "ValidationState_string ValidationRepairedValid = ''repaired_valid''"
| "ValidationState_string ValidationInvalid = ''invalid''"
| "ValidationState_string ValidationRepairExhausted = ''repair_exhausted''"
| "ValidationState_string ValidationInternalError = ''internal_error''"
| "ValidationState_string (ValidationStateOther s) = s"

definition ValidationState_Valid :: "ValidationState \<Rightarrow> bool" where
  "ValidationState_Valid v = oneOf v
     [ValidationNotStarted, ValidationValid, ValidationRepairedValid,
      ValidationInvalid, ValidationRepairExhausted, ValidationInternalError]"

definition ValidationState_of :: "string \<Rightarrow> ValidationState" where
  "ValidationState_of = from_wire ValidationState_string
     [ValidationNotStarted, ValidationValid, ValidationRepairedValid,
      ValidationInvalid, ValidationRepairExhausted, ValidationInternalError]
     ValidationStateOther"

interpretation ValidationState_enum: string_enum ValidationState_string
    "[ValidationNotStarted, ValidationValid, ValidationRepairedValid,
      ValidationInvalid, ValidationRepairExhausted, ValidationInternalError]"
    ValidationStateOther ValidationState_Valid
  by unfold_locales (auto simp: ValidationState_Valid_def)

subsection \<open>EvidenceState\<close>

datatype EvidenceState =
    EvidenceVerified
  | EvidencePartiallyVerified
  | EvidenceUnverified
  | EvidenceInvalidPath
  | EvidenceInvalidLine
  | EvidenceQuoteMismatch
  | EvidenceOutsideScope
  | EvidenceStateOther string

fun EvidenceState_string :: "EvidenceState \<Rightarrow> string" where
  "EvidenceState_string EvidenceVerified = ''verified''"
| "EvidenceState_string EvidencePartiallyVerified = ''partially_verified''"
| "EvidenceState_string EvidenceUnverified = ''unverified''"
| "EvidenceState_string EvidenceInvalidPath = ''invalid_path''"
| "EvidenceState_string EvidenceInvalidLine = ''invalid_line''"
| "EvidenceState_string EvidenceQuoteMismatch = ''quote_mismatch''"
| "EvidenceState_string EvidenceOutsideScope = ''outside_review_scope''"
| "EvidenceState_string (EvidenceStateOther s) = s"

definition EvidenceState_Valid :: "EvidenceState \<Rightarrow> bool" where
  "EvidenceState_Valid v = oneOf v
     [EvidenceVerified, EvidencePartiallyVerified, EvidenceUnverified,
      EvidenceInvalidPath, EvidenceInvalidLine, EvidenceQuoteMismatch,
      EvidenceOutsideScope]"

definition EvidenceState_of :: "string \<Rightarrow> EvidenceState" where
  "EvidenceState_of = from_wire EvidenceState_string
     [EvidenceVerified, EvidencePartiallyVerified, EvidenceUnverified,
      EvidenceInvalidPath, EvidenceInvalidLine, EvidenceQuoteMismatch,
      EvidenceOutsideScope]
     EvidenceStateOther"

interpretation EvidenceState_enum: string_enum EvidenceState_string
    "[EvidenceVerified, EvidencePartiallyVerified, EvidenceUnverified,
      EvidenceInvalidPath, EvidenceInvalidLine, EvidenceQuoteMismatch,
      EvidenceOutsideScope]"
    EvidenceStateOther EvidenceState_Valid
  by unfold_locales (auto simp: EvidenceState_Valid_def)

subsection \<open>PublicationStatus\<close>

datatype PublicationStatus =
    PublicationNotPublished
  | PublicationStaged
  | PublicationInstalled
  | PublicationCommitted
  | PublicationCorrupt
  | PublicationStatusOther string

fun PublicationStatus_string :: "PublicationStatus \<Rightarrow> string" where
  "PublicationStatus_string PublicationNotPublished = ''not_published''"
| "PublicationStatus_string PublicationStaged = ''staged''"
| "PublicationStatus_string PublicationInstalled = ''installed''"
| "PublicationStatus_string PublicationCommitted = ''committed''"
| "PublicationStatus_string PublicationCorrupt = ''corrupt''"
| "PublicationStatus_string (PublicationStatusOther s) = s"

definition PublicationStatus_Valid :: "PublicationStatus \<Rightarrow> bool" where
  "PublicationStatus_Valid v = oneOf v
     [PublicationNotPublished, PublicationStaged, PublicationInstalled,
      PublicationCommitted, PublicationCorrupt]"

definition PublicationStatus_of :: "string \<Rightarrow> PublicationStatus" where
  "PublicationStatus_of = from_wire PublicationStatus_string
     [PublicationNotPublished, PublicationStaged, PublicationInstalled,
      PublicationCommitted, PublicationCorrupt]
     PublicationStatusOther"

interpretation PublicationStatus_enum: string_enum PublicationStatus_string
    "[PublicationNotPublished, PublicationStaged, PublicationInstalled,
      PublicationCommitted, PublicationCorrupt]"
    PublicationStatusOther PublicationStatus_Valid
  by unfold_locales (auto simp: PublicationStatus_Valid_def)

subsection \<open>FindingLifecycle\<close>

datatype FindingLifecycle =
    FindingOpen
  | FindingAcknowledged
  | FindingResolved
  | FindingDismissed
  | FindingLifecycleOther string

fun FindingLifecycle_string :: "FindingLifecycle \<Rightarrow> string" where
  "FindingLifecycle_string FindingOpen = ''open''"
| "FindingLifecycle_string FindingAcknowledged = ''acknowledged''"
| "FindingLifecycle_string FindingResolved = ''resolved''"
| "FindingLifecycle_string FindingDismissed = ''dismissed''"
| "FindingLifecycle_string (FindingLifecycleOther s) = s"

definition FindingLifecycle_Valid :: "FindingLifecycle \<Rightarrow> bool" where
  "FindingLifecycle_Valid v = oneOf v
     [FindingOpen, FindingAcknowledged, FindingResolved, FindingDismissed]"

definition FindingLifecycle_of :: "string \<Rightarrow> FindingLifecycle" where
  "FindingLifecycle_of = from_wire FindingLifecycle_string
     [FindingOpen, FindingAcknowledged, FindingResolved, FindingDismissed]
     FindingLifecycleOther"

interpretation FindingLifecycle_enum: string_enum FindingLifecycle_string
    "[FindingOpen, FindingAcknowledged, FindingResolved, FindingDismissed]"
    FindingLifecycleOther FindingLifecycle_Valid
  by unfold_locales (auto simp: FindingLifecycle_Valid_def)

subsection \<open>FollowupResolution\<close>

datatype FollowupResolution =
    FollowupResolved
  | FollowupPartiallyResolved
  | FollowupStillOpen
  | FollowupUnclear
  | FollowupResolutionOther string

fun FollowupResolution_string :: "FollowupResolution \<Rightarrow> string" where
  "FollowupResolution_string FollowupResolved = ''resolved''"
| "FollowupResolution_string FollowupPartiallyResolved = ''partially_resolved''"
| "FollowupResolution_string FollowupStillOpen = ''still_open''"
| "FollowupResolution_string FollowupUnclear = ''unclear''"
| "FollowupResolution_string (FollowupResolutionOther s) = s"

definition FollowupResolution_Valid :: "FollowupResolution \<Rightarrow> bool" where
  "FollowupResolution_Valid v = oneOf v
     [FollowupResolved, FollowupPartiallyResolved, FollowupStillOpen,
      FollowupUnclear]"

definition FollowupResolution_of :: "string \<Rightarrow> FollowupResolution" where
  "FollowupResolution_of = from_wire FollowupResolution_string
     [FollowupResolved, FollowupPartiallyResolved, FollowupStillOpen,
      FollowupUnclear]
     FollowupResolutionOther"

interpretation FollowupResolution_enum: string_enum FollowupResolution_string
    "[FollowupResolved, FollowupPartiallyResolved, FollowupStillOpen,
      FollowupUnclear]"
    FollowupResolutionOther FollowupResolution_Valid
  by unfold_locales (auto simp: FollowupResolution_Valid_def)

subsection \<open>InvocationPurpose\<close>

datatype InvocationPurpose =
    InvocationInitial
  | InvocationRetry
  | InvocationRepair
  | InvocationExtract
  | InvocationPurposeOther string

fun InvocationPurpose_string :: "InvocationPurpose \<Rightarrow> string" where
  "InvocationPurpose_string InvocationInitial = ''initial''"
| "InvocationPurpose_string InvocationRetry = ''retry''"
| "InvocationPurpose_string InvocationRepair = ''repair''"
| "InvocationPurpose_string InvocationExtract = ''extract''"
| "InvocationPurpose_string (InvocationPurposeOther s) = s"

definition InvocationPurpose_Valid :: "InvocationPurpose \<Rightarrow> bool" where
  "InvocationPurpose_Valid v = oneOf v
     [InvocationInitial, InvocationRetry, InvocationRepair, InvocationExtract]"

definition InvocationPurpose_of :: "string \<Rightarrow> InvocationPurpose" where
  "InvocationPurpose_of = from_wire InvocationPurpose_string
     [InvocationInitial, InvocationRetry, InvocationRepair, InvocationExtract]
     InvocationPurposeOther"

interpretation InvocationPurpose_enum: string_enum InvocationPurpose_string
    "[InvocationInitial, InvocationRetry, InvocationRepair, InvocationExtract]"
    InvocationPurposeOther InvocationPurpose_Valid
  by unfold_locales (auto simp: InvocationPurpose_Valid_def)

definition InvocationPurpose_CarriesRoleReport :: "InvocationPurpose \<Rightarrow> bool" where
  "InvocationPurpose_CarriesRoleReport v \<longleftrightarrow>
     v = InvocationInitial \<or> v = InvocationRetry \<or> v = InvocationRepair"

subsection \<open>Classification of a successful attempt\<close>

text \<open>\<open>Some True\<close> is \<open>(true, true)\<close>, \<open>None\<close> is \<open>(false, false)\<close>.\<close>

definition ClassifySuccessfulAttemptExtraction ::
    "ParseState \<Rightarrow> ValidationState \<Rightarrow> bool \<times> bool" where
  "ClassifySuccessfulAttemptExtraction parse validation =
     (if parse = ParseNotStarted \<and> validation = ValidationNotStarted then (True, True)
      else if parse = ParseValid \<and>
          (validation = ValidationValid \<or> validation = ValidationRepairedValid)
      then (False, True)
      else if validation = ValidationInvalid \<or> validation = ValidationRepairExhausted then
        (if parse \<in> set [ParseValid, ParseInvalidJSON, ParseOutputTooLarge] then (True, True)
         else (False, False))
      else (False, False))"

section \<open>The four lifecycles\<close>

fun RunState_rank :: "RunState \<Rightarrow> nat" where
  "RunState_rank RunPending = 2"
| "RunState_rank RunRunning = 1"
| "RunState_rank _ = 0"

fun RoleTaskState_rank :: "RoleTaskState \<Rightarrow> nat" where
  "RoleTaskState_rank RoleTaskPending = 3"
| "RoleTaskState_rank RoleTaskPrimaryQueued = 2"
| "RoleTaskState_rank RoleTaskPrimaryRunning = 1"
| "RoleTaskState_rank _ = 0"

fun InvocationState_rank :: "InvocationState \<Rightarrow> nat" where
  "InvocationState_rank InvocationQueued = 2"
| "InvocationState_rank InvocationRunning = 1"
| "InvocationState_rank _ = 0"

lemmas valid_defs = RunState_Valid_def RoleTaskState_Valid_def AttemptState_Valid_def
  InvocationState_Valid_def

lemma RunState_can_valid:
  "RunState_CanTransition s t \<Longrightarrow> RunState_Valid s \<and> RunState_Valid t"
  by (cases s) (auto simp: RunState_Valid_def)

lemma RoleTaskState_can_valid:
  "RoleTaskState_CanTransition s t \<Longrightarrow> RoleTaskState_Valid s \<and> RoleTaskState_Valid t"
  by (cases s) (auto simp: RoleTaskState_Valid_def)

lemma AttemptState_can_valid:
  "AttemptState_CanTransition s t \<Longrightarrow> AttemptState_Valid s \<and> AttemptState_Valid t"
  by (cases s) (auto simp: AttemptState_Valid_def)

lemma InvocationState_can_valid:
  "InvocationState_CanTransition s t \<Longrightarrow> InvocationState_Valid s \<and> InvocationState_Valid t"
  by (cases s) (auto simp: InvocationState_Valid_def)

interpretation run_states: ranked_lifecycle
    RunState_Valid RunState_CanTransition RunState_RequireTransition RunState_rank
  apply unfold_locales
  subgoal by (rule RunState_can_valid)
  subgoal for s t
    using RunState_can_valid [of s t] by (auto simp: RunState_RequireTransition_def requireTransition_def)
  subgoal for s t by (cases s) auto
  done

interpretation role_states: ranked_lifecycle
    RoleTaskState_Valid RoleTaskState_CanTransition RoleTaskState_RequireTransition
    RoleTaskState_rank
  apply unfold_locales
  subgoal by (rule RoleTaskState_can_valid)
  subgoal for s t
    using RoleTaskState_can_valid [of s t]
    by (auto simp: RoleTaskState_RequireTransition_def requireTransition_def)
  subgoal for s t by (cases s) auto
  done

interpretation attempt_states: lifecycle
    AttemptState_Valid AttemptState_CanTransition AttemptState_RequireTransition
  apply unfold_locales
  subgoal by (rule AttemptState_can_valid)
  subgoal for s t
    using AttemptState_can_valid [of s t]
    by (auto simp: AttemptState_RequireTransition_def requireTransition_def)
  done

interpretation invocation_states: ranked_lifecycle
    InvocationState_Valid InvocationState_CanTransition InvocationState_RequireTransition
    InvocationState_rank
  apply unfold_locales
  subgoal by (rule InvocationState_can_valid)
  subgoal for s t
    using InvocationState_can_valid [of s t]
    by (auto simp: InvocationState_RequireTransition_def requireTransition_def)
  subgoal for s t by (cases s) auto
  done

lemmas require_simps [simp] = run_states.require_iff role_states.require_iff
  attempt_states.require_iff invocation_states.require_iff run_states.require_ok
  role_states.require_ok attempt_states.require_ok invocation_states.require_ok

end
