(* ===== verification/RoleTasks.thy ===== *)
theory RoleTasks
  imports States
begin

text \<open>
  Review roles and role tasks (\<open>internal/domain/role_task.go\<close>): the fixed role order, a
  role's assignment to one provider, and the transition of a task.
\<close>

section \<open>Roles\<close>

datatype Role =
    RoleLogic
  | RoleSecurity
  | RoleMaintainability
  | RoleProduct
  | RoleDocumentation
  | RoleTesting
  | RoleArtist
  | RoleOther string

fun Role_string :: "Role \<Rightarrow> string" where
  "Role_string RoleLogic = ''logic''"
| "Role_string RoleSecurity = ''security''"
| "Role_string RoleMaintainability = ''maintainability''"
| "Role_string RoleProduct = ''product''"
| "Role_string RoleDocumentation = ''documentation''"
| "Role_string RoleTesting = ''testing''"
| "Role_string RoleArtist = ''artist''"
| "Role_string (RoleOther s) = s"

definition Role_Valid :: "Role \<Rightarrow> bool" where
  "Role_Valid v = oneOf v
     [RoleLogic, RoleSecurity, RoleMaintainability, RoleProduct, RoleDocumentation,
      RoleTesting, RoleArtist]"

definition Role_of :: "string \<Rightarrow> Role" where
  "Role_of = from_wire Role_string
     [RoleLogic, RoleSecurity, RoleMaintainability, RoleProduct, RoleDocumentation,
      RoleTesting, RoleArtist]
     RoleOther"

interpretation Role_enum: string_enum Role_string
    "[RoleLogic, RoleSecurity, RoleMaintainability, RoleProduct, RoleDocumentation,
      RoleTesting, RoleArtist]"
    RoleOther Role_Valid
  by unfold_locales (auto simp: Role_Valid_def)

definition FixedRoleOrder :: "Role list" where
  "FixedRoleOrder =
     [RoleLogic, RoleSecurity, RoleMaintainability, RoleProduct, RoleDocumentation,
      RoleTesting, RoleArtist]"

definition CoreRoleOrder :: "Role list" where
  "CoreRoleOrder = take (length FixedRoleOrder - 1) FixedRoleOrder"

definition Role_RequiredFloor :: "Role \<Rightarrow> bool" where
  "Role_RequiredFloor r \<longleftrightarrow> r = RoleLogic"

lemma Role_Valid_iff: "Role_Valid r \<longleftrightarrow> r \<in> set FixedRoleOrder"
  by (auto simp: Role_Valid_def FixedRoleOrder_def)

lemma distinct_FixedRoleOrder [simp]: "distinct FixedRoleOrder"
  by (simp add: FixedRoleOrder_def)

lemma CoreRoleOrder_eq: "CoreRoleOrder @ [RoleArtist] = FixedRoleOrder"
  by (simp add: CoreRoleOrder_def FixedRoleOrder_def)

text \<open>The position of a role in the fixed order; the length of the order for an unknown role.\<close>

fun role_index :: "Role \<Rightarrow> nat \<Rightarrow> Role list \<Rightarrow> nat" where
  "role_index r i [] = length FixedRoleOrder"
| "role_index r i (c # cs) = (if c = r then i else role_index r (Suc i) cs)"

definition rolePosition :: "Role \<Rightarrow> nat" where
  "rolePosition r = role_index r 0 FixedRoleOrder"

lemma rolePosition_simps [simp]:
  "rolePosition RoleLogic = 0" "rolePosition RoleSecurity = 1"
  "rolePosition RoleMaintainability = 2" "rolePosition RoleProduct = 3"
  "rolePosition RoleDocumentation = 4" "rolePosition RoleTesting = 5"
  "rolePosition RoleArtist = 6" "rolePosition (RoleOther s) = 7"
  by (simp_all add: rolePosition_def FixedRoleOrder_def)

lemma rolePosition_inject:
  "Role_Valid a \<Longrightarrow> Role_Valid b \<Longrightarrow> rolePosition a = rolePosition b \<longleftrightarrow> a = b"
  by (auto simp: Role_Valid_def)

section \<open>Role tasks\<close>

record RoleTask =
  task_role :: Role
  task_required :: bool
  task_state :: RoleTaskState
  task_primaryProvider :: string

datatype role_task_error =
    TaskRoleInvalid string
  | TaskProviderRequired
  | TaskNilReceiver
  | TaskTransition TransitionError

definition NewRoleTask :: "Role \<Rightarrow> bool \<Rightarrow> string \<Rightarrow> role_task_error + RoleTask" where
  "NewRoleTask role required provider =
     (let provider' = TrimSpace provider
      in if \<not> Role_Valid role then Inl (TaskRoleInvalid (Role_string role))
         else if provider' = '''' then Inl TaskProviderRequired
         else Inr \<lparr>task_role = role, task_required = required \<or> Role_RequiredFloor role,
                   task_state = RoleTaskPending, task_primaryProvider = provider'\<rparr>)"

fun RoleTask_transition :: "RoleTask option \<Rightarrow> RoleTaskState \<Rightarrow> role_task_error + RoleTask" where
  "RoleTask_transition None n = Inl TaskNilReceiver"
| "RoleTask_transition (Some task) n =
     (case RoleTaskState_RequireTransition (task_state task) n of
        Some e \<Rightarrow> Inl (TaskTransition e)
      | None \<Rightarrow> Inr (task\<lparr>task_state := n\<rparr>))"

definition RoleTask_ok :: "RoleTask \<Rightarrow> bool" where
  [inv_simps]: "RoleTask_ok t \<longleftrightarrow>
     Role_Valid (task_role t) \<and> RoleTaskState_Valid (task_state t) \<and>
     (Role_RequiredFloor (task_role t) \<longrightarrow> task_required t) \<and>
     task_primaryProvider t \<noteq> '''' \<and> TrimSpace (task_primaryProvider t) = task_primaryProvider t"

lemma NewRoleTask_ok:
  "NewRoleTask role required provider = Inr t \<Longrightarrow> RoleTask_ok t \<and> task_state t = RoleTaskPending"
  by (auto simp: NewRoleTask_def Let_def inv_simps RoleTaskState_Valid_def split: if_splits)

lemma RoleTask_transition_Inr:
  "RoleTask_transition (Some t) n = Inr t' \<longleftrightarrow>
     RoleTaskState_CanTransition (task_state t) n \<and> t' = t\<lparr>task_state := n\<rparr>"
  by (auto split: option.splits)

lemma RoleTask_transition_ok:
  "RoleTask_transition (Some t) n = Inr t' \<Longrightarrow> RoleTask_ok t \<Longrightarrow> RoleTask_ok t'"
  unfolding RoleTask_transition_Inr by (auto simp: inv_simps dest: RoleTaskState_can_valid)

end
