(* ===== verification/Identifiers.thy ===== *)
theory Identifiers
  imports Go_Strings
begin

text \<open>
  The typed identifiers of \<open>internal/domain/identifiers.go\<close>: session, run, attempt and
  review identifiers are opaque wrappers of a canonical UUIDv7 text, the first three with a
  two-byte prefix. The locale \<open>typed_id\<close> is the contract that the callers rely on: parsing
  accepts exactly the canonical texts of the kind, keeps the text, and marshalling and
  unmarshalling are inverse to each other. The JSON decoding wrappers (\<open>UnmarshalJSON\<close>)
  only add Go's JSON decoder in front of the parsers and are not modelled.
\<close>

section \<open>Canonical UUIDv7 text\<close>

datatype id_error =
    MustStartWith string
  | MustContain36
  | HyphenMissing nat
  | NotLowerHex nat
  | VersionNibbleNot7
  | VariantNibbleNotRFC9562
  | ZeroForm
  | NilDestination
  | IdContext string id_error

definition isLowerHex :: "char \<Rightarrow> bool" where
  "isLowerHex c \<longleftrightarrow>
     CHR ''0'' \<le> c \<and> c \<le> CHR ''9'' \<or> CHR ''a'' \<le> c \<and> c \<le> CHR ''f''"

text \<open>
  The loop over the text. Go ranges over runes; a rune above 127 is neither a hyphen nor a
  hexadecimal digit at its first byte, so the byte loop reports the same position.
\<close>

fun uuid_scan :: "nat \<Rightarrow> string \<Rightarrow> id_error option" where
  "uuid_scan i [] = None"
| "uuid_scan i (c # cs) =
     (if i \<in> set [8, 13, 18, 23] then
        (if c \<noteq> CHR ''-'' then Some (HyphenMissing i) else uuid_scan (Suc i) cs)
      else if \<not> isLowerHex c then Some (NotLowerHex i)
      else uuid_scan (Suc i) cs)"

definition validateUUIDv7 :: "string \<Rightarrow> id_error option" where
  "validateUUIDv7 v =
     (if length v \<noteq> 36 then Some MustContain36
      else case uuid_scan 0 v of
        Some e \<Rightarrow> Some e
      | None \<Rightarrow>
          if v ! 14 \<noteq> CHR ''7'' then Some VersionNibbleNot7
          else if v ! 19 \<notin> set ''89ab'' then Some VariantNibbleNotRFC9562
          else if v = ''00000000-0000-7000-8000-000000000000'' then Some ZeroForm
          else None)"

definition validatePrefixedUUIDv7 :: "string \<Rightarrow> string \<Rightarrow> id_error option" where
  "validatePrefixedUUIDv7 v p =
     (if \<not> HasPrefix v p then Some (MustStartWith p) else validateUUIDv7 (TrimPrefix v p))"

definition marshalID :: "string \<Rightarrow> string \<Rightarrow> id_error + string" where
  "marshalID v p =
     (case validatePrefixedUUIDv7 v p of Some e \<Rightarrow> Inl e | None \<Rightarrow> Inr v)"

text \<open>What the validator accepts, as a predicate on positions.\<close>

definition uuid_byte :: "nat \<Rightarrow> char \<Rightarrow> bool" where
  "uuid_byte i c \<longleftrightarrow> (if i \<in> set [8, 13, 18, 23] then c = CHR ''-'' else isLowerHex c)"

definition canonical_uuid_v7 :: "string \<Rightarrow> bool" where
  "canonical_uuid_v7 v \<longleftrightarrow>
     length v = 36 \<and>
     (\<forall>i < 36. uuid_byte i (v ! i)) \<and>
     v ! 14 = CHR ''7'' \<and> v ! 19 \<in> set ''89ab'' \<and>
     v \<noteq> ''00000000-0000-7000-8000-000000000000''"

lemma uuid_scan_None: "uuid_scan i cs = None \<longleftrightarrow> (\<forall>k < length cs. uuid_byte (i + k) (cs ! k))"
proof (induction cs arbitrary: i)
  case Nil
  then show ?case by simp
next
  case (Cons c cs)
  have split: "(\<forall>k < length (c # cs). P k) \<longleftrightarrow> P 0 \<and> (\<forall>k < length cs. P (Suc k))" for P
    by (auto simp: less_Suc_eq_0_disj)
  show ?case
    unfolding split by (simp add: Cons.IH uuid_byte_def)
qed

lemma validateUUIDv7_None: "validateUUIDv7 v = None \<longleftrightarrow> canonical_uuid_v7 v"
  unfolding validateUUIDv7_def canonical_uuid_v7_def
  using uuid_scan_None [of 0 v] by (cases "uuid_scan 0 v") auto

lemma validatePrefixedUUIDv7_None:
  "validatePrefixedUUIDv7 v p = None \<longleftrightarrow> (\<exists>u. v = p @ u \<and> canonical_uuid_v7 u)"
proof -
  have "HasPrefix v p \<longleftrightarrow> v = p @ TrimPrefix v p"
    by (metis HasPrefix_TrimPrefix HasPrefix_append)
  then show ?thesis
    unfolding validatePrefixedUUIDv7_def
    by (auto simp: validateUUIDv7_None)
qed

section \<open>The contract of a typed identifier\<close>

locale typed_id =
  fixes wellformed :: "string \<Rightarrow> bool" and mk :: "string \<Rightarrow> 'id" and str :: "'id \<Rightarrow> string"
    and parse :: "string \<Rightarrow> id_error + 'id" and marshal :: "'id \<Rightarrow> id_error + string"
    and unmarshal :: "'id option \<Rightarrow> string \<Rightarrow> id_error + 'id"
  assumes str_mk: "str (mk s) = s" and mk_str: "mk (str i) = i"
    and parse_ok: "parse s = Inr i \<longleftrightarrow> wellformed s \<and> i = mk s"
    and marshal_ok: "marshal i = Inr t \<longleftrightarrow> wellformed (str i) \<and> t = str i"
    and unmarshal_some: "unmarshal (Some d) t = parse t"
    and unmarshal_nil: "\<not> is_ok (unmarshal None t)"
begin

definition valid_id :: "'id \<Rightarrow> bool" where
  "valid_id i \<longleftrightarrow> wellformed (str i)"

lemma parse_keeps_text: "parse s = Inr i \<Longrightarrow> str i = s \<and> valid_id i"
  by (simp add: parse_ok str_mk valid_id_def)

lemma parse_str: "is_ok (parse (str i)) \<longleftrightarrow> valid_id i"
  by (auto simp: is_ok_iff parse_ok valid_id_def)

lemma parse_str_valid: "valid_id i \<Longrightarrow> parse (str i) = Inr i"
  by (simp add: parse_ok valid_id_def mk_str)

lemma parse_inject: "parse s = Inr i \<Longrightarrow> parse t = Inr i \<Longrightarrow> s = t"
  by (metis parse_keeps_text)

lemma marshal_unmarshal: "marshal i = Inr t \<Longrightarrow> unmarshal (Some d) t = Inr i"
  by (auto simp: marshal_ok unmarshal_some parse_ok mk_str)

lemma unmarshal_marshal: "unmarshal dest t = Inr i \<Longrightarrow> marshal i = Inr t"
  using unmarshal_nil [of t] by (cases dest) (auto simp: marshal_ok unmarshal_some parse_ok str_mk)

end

section \<open>The four kinds\<close>

subsection \<open>SessionID\<close>

datatype SessionID = SessionID (SessionID_String: string)

definition ParseSessionID :: "string \<Rightarrow> id_error + SessionID" where
  "ParseSessionID v =
     (case validatePrefixedUUIDv7 v ''s_'' of
        Some e \<Rightarrow> Inl (IdContext ''session id'' e)
      | None \<Rightarrow> Inr (SessionID v))"

definition SessionID_MarshalText :: "SessionID \<Rightarrow> id_error + string" where
  "SessionID_MarshalText i = marshalID (SessionID_String i) ''s_''"

definition SessionID_UnmarshalText :: "SessionID option \<Rightarrow> string \<Rightarrow> id_error + SessionID" where
  "SessionID_UnmarshalText dest text =
     (case ParseSessionID text of
        Inl e \<Rightarrow> Inl e
      | Inr parsed \<Rightarrow> if dest = None then Inl (IdContext ''session id'' NilDestination) else Inr parsed)"

interpretation SessionID_id: typed_id
    "\<lambda>v. validatePrefixedUUIDv7 v ''s_'' = None" SessionID SessionID_String
    ParseSessionID SessionID_MarshalText SessionID_UnmarshalText
  by unfold_locales
    (auto simp: ParseSessionID_def SessionID_MarshalText_def SessionID_UnmarshalText_def marshalID_def
      split: option.splits sum.splits)

subsection \<open>RunID\<close>

datatype RunID = RunID (RunID_String: string)

definition ParseRunID :: "string \<Rightarrow> id_error + RunID" where
  "ParseRunID v =
     (case validatePrefixedUUIDv7 v ''r_'' of
        Some e \<Rightarrow> Inl (IdContext ''run id'' e)
      | None \<Rightarrow> Inr (RunID v))"

definition RunID_MarshalText :: "RunID \<Rightarrow> id_error + string" where
  "RunID_MarshalText i = marshalID (RunID_String i) ''r_''"

definition RunID_UnmarshalText :: "RunID option \<Rightarrow> string \<Rightarrow> id_error + RunID" where
  "RunID_UnmarshalText dest text =
     (case ParseRunID text of
        Inl e \<Rightarrow> Inl e
      | Inr parsed \<Rightarrow> if dest = None then Inl (IdContext ''run id'' NilDestination) else Inr parsed)"

interpretation RunID_id: typed_id
    "\<lambda>v. validatePrefixedUUIDv7 v ''r_'' = None" RunID RunID_String
    ParseRunID RunID_MarshalText RunID_UnmarshalText
  by unfold_locales
    (auto simp: ParseRunID_def RunID_MarshalText_def RunID_UnmarshalText_def marshalID_def
      split: option.splits sum.splits)

subsection \<open>AttemptID\<close>

datatype AttemptID = AttemptID (AttemptID_String: string)

definition ParseAttemptID :: "string \<Rightarrow> id_error + AttemptID" where
  "ParseAttemptID v =
     (case validatePrefixedUUIDv7 v ''a_'' of
        Some e \<Rightarrow> Inl (IdContext ''attempt id'' e)
      | None \<Rightarrow> Inr (AttemptID v))"

definition AttemptID_MarshalText :: "AttemptID \<Rightarrow> id_error + string" where
  "AttemptID_MarshalText i = marshalID (AttemptID_String i) ''a_''"

definition AttemptID_UnmarshalText :: "AttemptID option \<Rightarrow> string \<Rightarrow> id_error + AttemptID" where
  "AttemptID_UnmarshalText dest text =
     (case ParseAttemptID text of
        Inl e \<Rightarrow> Inl e
      | Inr parsed \<Rightarrow> if dest = None then Inl (IdContext ''attempt id'' NilDestination) else Inr parsed)"

interpretation AttemptID_id: typed_id
    "\<lambda>v. validatePrefixedUUIDv7 v ''a_'' = None" AttemptID AttemptID_String
    ParseAttemptID AttemptID_MarshalText AttemptID_UnmarshalText
  by unfold_locales
    (auto simp: ParseAttemptID_def AttemptID_MarshalText_def AttemptID_UnmarshalText_def marshalID_def
      split: option.splits sum.splits)

subsection \<open>ReviewID\<close>

datatype ReviewID = ReviewID (ReviewID_String: string)

definition ParseReviewID :: "string \<Rightarrow> id_error + ReviewID" where
  "ParseReviewID v =
     (case validateUUIDv7 v of
        Some e \<Rightarrow> Inl (IdContext ''review id'' e)
      | None \<Rightarrow> Inr (ReviewID v))"

definition ReviewID_MarshalText :: "ReviewID \<Rightarrow> id_error + string" where
  "ReviewID_MarshalText i =
     (case validateUUIDv7 (ReviewID_String i) of
        Some e \<Rightarrow> Inl (IdContext ''review id'' e)
      | None \<Rightarrow> Inr (ReviewID_String i))"

definition ReviewID_UnmarshalText :: "ReviewID option \<Rightarrow> string \<Rightarrow> id_error + ReviewID" where
  "ReviewID_UnmarshalText dest text =
     (case ParseReviewID text of
        Inl e \<Rightarrow> Inl e
      | Inr parsed \<Rightarrow> if dest = None then Inl (IdContext ''review id'' NilDestination) else Inr parsed)"

interpretation ReviewID_id: typed_id
    "\<lambda>v. validateUUIDv7 v = None" ReviewID ReviewID_String
    ParseReviewID ReviewID_MarshalText ReviewID_UnmarshalText
  by unfold_locales
    (auto simp: ParseReviewID_def ReviewID_MarshalText_def ReviewID_UnmarshalText_def marshalID_def
      split: option.splits sum.splits)

text \<open>The kinds are disjoint: no text parses as two kinds of identifier.\<close>

lemma canonical_uuid_hex_head: "canonical_uuid_v7 v \<Longrightarrow> \<exists>c cs. v = c # cs \<and> isLowerHex c"
  by (cases v) (auto simp: canonical_uuid_v7_def uuid_byte_def dest!: spec [of _ 0])

lemma wellformed_kinds:
  "is_ok (ParseSessionID v) \<longleftrightarrow> (\<exists>u. v = ''s_'' @ u \<and> canonical_uuid_v7 u)"
  "is_ok (ParseRunID v) \<longleftrightarrow> (\<exists>u. v = ''r_'' @ u \<and> canonical_uuid_v7 u)"
  "is_ok (ParseAttemptID v) \<longleftrightarrow> (\<exists>u. v = ''a_'' @ u \<and> canonical_uuid_v7 u)"
  "is_ok (ParseReviewID v) \<longleftrightarrow> canonical_uuid_v7 v"
  unfolding is_ok_iff SessionID_id.parse_ok RunID_id.parse_ok AttemptID_id.parse_ok
    ReviewID_id.parse_ok
  by (simp_all add: validatePrefixedUUIDv7_None validateUUIDv7_None)

end
