(* ===== verification/Targets.thy ===== *)
theory Targets
  imports Identifiers States
begin

text \<open>
  Identities of what is reviewed: \<open>internal/domain/target.go\<close> (captured and live targets),
  \<open>review_identity.go\<close> (the four prefixed digests), \<open>source_reference.go\<close> (published
  reviews and failed-run recoveries) and \<open>live_source.go\<close> (selection scopes).
  Zero values are the empty string, \<open>...Other ''''\<close> for the string enumerations.
\<close>

section \<open>Digest patterns\<close>

definition lowerSHA256Pattern :: "string \<Rightarrow> bool" where
  "lowerSHA256Pattern s \<longleftrightarrow> length s = 64 \<and> list_all is_lower_hex_byte s"

definition gitOIDPattern :: "string \<Rightarrow> bool" where
  "gitOIDPattern s \<longleftrightarrow> (length s = 40 \<or> length s = 64) \<and> list_all is_lower_hex_byte s"

definition allZeroHex :: "string \<Rightarrow> bool" where
  "allZeroHex s \<longleftrightarrow> s \<noteq> '''' \<and> list_all (\<lambda>c. c = CHR ''0'') s"

section \<open>Target identities\<close>

datatype TargetKind =
    TargetGit
  | TargetWorkspace
  | TargetPatch
  | TargetStdin
  | TargetLiveSource
  | TargetKindOther string

fun TargetKind_string :: "TargetKind \<Rightarrow> string" where
  "TargetKind_string TargetGit = ''git''"
| "TargetKind_string TargetWorkspace = ''workspace''"
| "TargetKind_string TargetPatch = ''patch''"
| "TargetKind_string TargetStdin = ''stdin''"
| "TargetKind_string TargetLiveSource = ''live_source''"
| "TargetKind_string (TargetKindOther s) = s"

datatype GitTargetMode =
    GitTargetDiff
  | GitTargetStage
  | GitTargetDirty
  | GitTargetModeOther string

fun GitTargetMode_string :: "GitTargetMode \<Rightarrow> string" where
  "GitTargetMode_string GitTargetDiff = ''diff''"
| "GitTargetMode_string GitTargetStage = ''stage''"
| "GitTargetMode_string GitTargetDirty = ''dirty''"
| "GitTargetMode_string (GitTargetModeOther s) = s"

definition GitTargetMode_Valid :: "GitTargetMode \<Rightarrow> bool" where
  "GitTargetMode_Valid v = oneOf v
     [GitTargetDiff, GitTargetStage, GitTargetDirty]"

definition GitTargetMode_of :: "string \<Rightarrow> GitTargetMode" where
  "GitTargetMode_of = from_wire GitTargetMode_string
     [GitTargetDiff, GitTargetStage, GitTargetDirty]
     GitTargetModeOther"

interpretation GitTargetMode_enum: string_enum GitTargetMode_string
    "[GitTargetDiff, GitTargetStage, GitTargetDirty]"
    GitTargetModeOther GitTargetMode_Valid
  by unfold_locales (auto simp: GitTargetMode_Valid_def)

record TargetIdentityInput =
  tin_Kind :: TargetKind
  tin_SHA256 :: string
  tin_RepositoryID :: string
  tin_BaseObjectID :: string
  tin_HeadObjectID :: string
  tin_HeadTreeObjectID :: string
  tin_IndexTreeObjectID :: string
  tin_GitMode :: GitTargetMode

record TargetIdentity =
  target_kind :: TargetKind
  target_sha256 :: string
  target_sourceIdentitySHA256 :: string
  target_repositoryID :: string
  target_baseObjectID :: string
  target_headObjectID :: string
  target_headTreeObjectID :: string
  target_indexTreeObjectID :: string
  target_gitMode :: GitTargetMode

datatype target_error =
    LiveDigestInvalid
  | LiveObjectInvalid
  | TargetDigestNotHex
  | TargetDigestZero
  | TargetGitModeInvalid
  | TargetRepositoryRequired
  | TargetObjectInvalid string
  | TargetIndexTreeInvalid
  | TargetCarriesGitIdentity
  | TargetKindUnknown string

definition bad_oid :: "string \<Rightarrow> bool" where
  "bad_oid v \<longleftrightarrow> \<not> gitOIDPattern v \<or> allZeroHex v"

definition NewLiveTargetIdentity ::
    "string \<Rightarrow> string \<Rightarrow> string \<Rightarrow> target_error + TargetIdentity" where
  "NewLiveTargetIdentity digest base head =
     (if \<not> lowerSHA256Pattern digest \<or> allZeroHex digest then Inl LiveDigestInvalid
      else if list_ex (\<lambda>v. v \<noteq> '''' \<and> bad_oid v) [base, head] then Inl LiveObjectInvalid
      else Inr \<lparr>target_kind = TargetLiveSource, target_sha256 = '''',
                target_sourceIdentitySHA256 = digest, target_repositoryID = '''',
                target_baseObjectID = base, target_headObjectID = head,
                target_headTreeObjectID = '''', target_indexTreeObjectID = '''',
                target_gitMode = GitTargetModeOther ''''\<rparr>)"

definition target_identity_of :: "TargetIdentityInput \<Rightarrow> TargetIdentity" where
  "target_identity_of inp =
     \<lparr>target_kind = tin_Kind inp, target_sha256 = tin_SHA256 inp,
      target_sourceIdentitySHA256 = '''', target_repositoryID = tin_RepositoryID inp,
      target_baseObjectID = tin_BaseObjectID inp, target_headObjectID = tin_HeadObjectID inp,
      target_headTreeObjectID = tin_HeadTreeObjectID inp,
      target_indexTreeObjectID = tin_IndexTreeObjectID inp, target_gitMode = tin_GitMode inp\<rparr>"

definition checked_git_target ::
    "TargetIdentityInput \<Rightarrow> target_error + TargetIdentity" where
  "checked_git_target inp =
     (let mode = (if tin_GitMode inp = GitTargetModeOther '''' then GitTargetDiff
                  else tin_GitMode inp);
          identity = (target_identity_of inp)\<lparr>target_gitMode := mode\<rparr>
      in if \<not> GitTargetMode_Valid mode then Inl TargetGitModeInvalid
         else if TrimSpace (tin_RepositoryID inp) = '''' then Inl TargetRepositoryRequired
         else case first_error
             (\<lambda>(name, v). if bad_oid v then Some (TargetObjectInvalid name) else None)
             [(''base object'', tin_BaseObjectID inp), (''head object'', tin_HeadObjectID inp),
              (''head tree'', tin_HeadTreeObjectID inp)] of
           Some e \<Rightarrow> Inl e
         | None \<Rightarrow>
             if tin_IndexTreeObjectID inp \<noteq> '''' \<and> bad_oid (tin_IndexTreeObjectID inp)
             then Inl TargetIndexTreeInvalid
             else Inr identity)"

definition NewTargetIdentity :: "TargetIdentityInput \<Rightarrow> target_error + TargetIdentity" where
  "NewTargetIdentity inp =
     (if \<not> lowerSHA256Pattern (tin_SHA256 inp) then Inl TargetDigestNotHex
      else if allZeroHex (tin_SHA256 inp) then Inl TargetDigestZero
      else if tin_Kind inp = TargetGit then checked_git_target inp
      else if tin_Kind inp \<in> set [TargetWorkspace, TargetPatch, TargetStdin] then
        (if tin_RepositoryID inp \<noteq> '''' \<or> tin_BaseObjectID inp \<noteq> '''' \<or>
            tin_HeadObjectID inp \<noteq> '''' \<or> tin_HeadTreeObjectID inp \<noteq> '''' \<or>
            tin_IndexTreeObjectID inp \<noteq> '''' \<or> tin_GitMode inp \<noteq> GitTargetModeOther ''''
         then Inl TargetCarriesGitIdentity
         else Inr (target_identity_of inp))
      else Inl (TargetKindUnknown (TargetKind_string (tin_Kind inp))))"

text \<open>
  What a constructed identity satisfies. A captured identity binds content, a live one only
  a source selection: exactly one of the two digests is present.
\<close>

definition good_digest :: "string \<Rightarrow> bool" where
  "good_digest s \<longleftrightarrow> lowerSHA256Pattern s \<and> \<not> allZeroHex s"

definition TargetIdentity_ok :: "TargetIdentity \<Rightarrow> bool" where
  "TargetIdentity_ok t \<longleftrightarrow>
     (if target_kind t = TargetLiveSource then
        target_sha256 t = '''' \<and> good_digest (target_sourceIdentitySHA256 t) \<and>
        target_repositoryID t = '''' \<and> target_headTreeObjectID t = '''' \<and>
        target_indexTreeObjectID t = '''' \<and> target_gitMode t = GitTargetModeOther '''' \<and>
        (\<forall>v \<in> {target_baseObjectID t, target_headObjectID t}. v = '''' \<or> \<not> bad_oid v)
      else good_digest (target_sha256 t) \<and> target_sourceIdentitySHA256 t = '''' \<and>
        (if target_kind t = TargetGit then
           GitTargetMode_Valid (target_gitMode t) \<and> TrimSpace (target_repositoryID t) \<noteq> '''' \<and>
           \<not> bad_oid (target_baseObjectID t) \<and> \<not> bad_oid (target_headObjectID t) \<and>
           \<not> bad_oid (target_headTreeObjectID t) \<and>
           (target_indexTreeObjectID t = '''' \<or> \<not> bad_oid (target_indexTreeObjectID t))
         else target_kind t \<in> {TargetWorkspace, TargetPatch, TargetStdin} \<and>
           target_repositoryID t = '''' \<and> target_baseObjectID t = '''' \<and>
           target_headObjectID t = '''' \<and> target_headTreeObjectID t = '''' \<and>
           target_indexTreeObjectID t = '''' \<and> target_gitMode t = GitTargetModeOther ''''))"

lemma NewLiveTargetIdentity_ok:
  "NewLiveTargetIdentity digest base head = Inr t \<Longrightarrow> TargetIdentity_ok t"
  by (auto simp: NewLiveTargetIdentity_def TargetIdentity_ok_def good_digest_def split: if_splits)

lemma checked_git_target_ok:
  assumes "checked_git_target inp = Inr t" "tin_Kind inp = TargetGit" "good_digest (tin_SHA256 inp)"
  shows "TargetIdentity_ok t"
  using assms
  by (auto simp: checked_git_target_def Let_def TargetIdentity_ok_def target_identity_of_def
      split: if_splits option.splits)

lemma NewTargetIdentity_ok: "NewTargetIdentity inp = Inr t \<Longrightarrow> TargetIdentity_ok t"
proof -
  assume t: "NewTargetIdentity inp = Inr t"
  then have digest: "good_digest (tin_SHA256 inp)"
    by (auto simp: NewTargetIdentity_def good_digest_def split: if_splits)
  show ?thesis
  proof (cases "tin_Kind inp = TargetGit")
    case True
    then show ?thesis
      using t digest checked_git_target_ok by (auto simp: NewTargetIdentity_def split: if_splits)
  next
    case False
    then show ?thesis
      using t digest
      by (auto simp: NewTargetIdentity_def TargetIdentity_ok_def target_identity_of_def
          split: if_splits)
  qed
qed

section \<open>Review identities\<close>

definition reviewIdentityValid :: "string \<Rightarrow> bool" where
  "reviewIdentityValid v \<longleftrightarrow>
     HasPrefix v ''sha256:'' \<and> lowerSHA256Pattern (drop 7 v) \<and> \<not> allZeroHex (drop 7 v)"

datatype ProjectBinding = ProjectBinding (ProjectBinding_String: string)

definition ParseProjectBinding :: "string \<Rightarrow> string + ProjectBinding" where
  "ParseProjectBinding v =
     (if \<not> reviewIdentityValid v then Inl ''project binding'' else Inr (ProjectBinding v))"

definition ProjectBinding_Valid :: "ProjectBinding \<Rightarrow> bool" where
  "ProjectBinding_Valid i = reviewIdentityValid (ProjectBinding_String i)"

datatype CaptureIdentity = CaptureIdentity (CaptureIdentity_String: string)

definition ParseCaptureIdentity :: "string \<Rightarrow> string + CaptureIdentity" where
  "ParseCaptureIdentity v =
     (if \<not> reviewIdentityValid v then Inl ''capture identity'' else Inr (CaptureIdentity v))"

definition CaptureIdentity_Valid :: "CaptureIdentity \<Rightarrow> bool" where
  "CaptureIdentity_Valid i = reviewIdentityValid (CaptureIdentity_String i)"

datatype RequestIdentity = RequestIdentity (RequestIdentity_String: string)

definition ParseRequestIdentity :: "string \<Rightarrow> string + RequestIdentity" where
  "ParseRequestIdentity v =
     (if \<not> reviewIdentityValid v then Inl ''request identity'' else Inr (RequestIdentity v))"

definition RequestIdentity_Valid :: "RequestIdentity \<Rightarrow> bool" where
  "RequestIdentity_Valid i = reviewIdentityValid (RequestIdentity_String i)"

datatype PublicationReceipt = PublicationReceipt (PublicationReceipt_String: string)

definition ParsePublicationReceipt :: "string \<Rightarrow> string + PublicationReceipt" where
  "ParsePublicationReceipt v =
     (if \<not> reviewIdentityValid v then Inl ''publication receipt'' else Inr (PublicationReceipt v))"

definition PublicationReceipt_Valid :: "PublicationReceipt \<Rightarrow> bool" where
  "PublicationReceipt_Valid i = reviewIdentityValid (PublicationReceipt_String i)"

lemma reviewIdentityValid_iff:
  "reviewIdentityValid v \<longleftrightarrow> (\<exists>d. v = ''sha256:'' @ d \<and> good_digest d)"
  by (auto simp: reviewIdentityValid_def good_digest_def HasPrefix_def prefix_def)

section \<open>Source references\<close>

record SourceReference =
  source_runID :: RunID
  source_reviewID :: ReviewID
  source_recoverySHA256 :: string

text \<open>
  \<open>hex.DecodeString\<close> accepts both cases; together with the comparison with the lower-case
  text only lower-case digits remain. A digest with a non-ASCII byte is not hexadecimal.
\<close>

definition is_hex_byte :: "char \<Rightarrow> bool" where
  "is_hex_byte c \<longleftrightarrow>
     is_digit_byte c \<or> CHR ''a'' \<le> c \<and> c \<le> CHR ''f'' \<or> CHR ''A'' \<le> c \<and> c \<le> CHR ''F''"

definition hex_decodes_to :: "string \<Rightarrow> nat \<Rightarrow> bool" where
  "hex_decodes_to s n \<longleftrightarrow> list_all is_hex_byte s \<and> length s = 2 * n"

definition SourceReference_Valid :: "SourceReference \<Rightarrow> bool" where
  "SourceReference_Valid r =
     (if \<not> is_ok (ParseRunID (RunID_String (source_runID r))) then False
      else if source_recoverySHA256 r = '''' then
        is_ok (ParseReviewID (ReviewID_String (source_reviewID r)))
      else if ReviewID_String (source_reviewID r) \<noteq> '''' \<or>
          \<not> HasPrefix (source_recoverySHA256 r) ''sha256:'' then False
      else let digest = TrimPrefix (source_recoverySHA256 r) ''sha256:''
           in hex_decodes_to digest 32 \<and> map lower_byte digest = digest)"

definition NewPublishedSourceReference ::
    "RunID \<Rightarrow> ReviewID \<Rightarrow> string + SourceReference" where
  "NewPublishedSourceReference run review =
     (let r = \<lparr>source_runID = run, source_reviewID = review, source_recoverySHA256 = ''''\<rparr>
      in if \<not> SourceReference_Valid r then Inl ''invalid published identity'' else Inr r)"

definition NewRecoverySourceReference ::
    "RunID \<Rightarrow> string \<Rightarrow> string + SourceReference" where
  "NewRecoverySourceReference run manifest =
     (let r = \<lparr>source_runID = run, source_reviewID = ReviewID '''', source_recoverySHA256 = manifest\<rparr>
      in if \<not> SourceReference_Valid r then Inl ''invalid recovery identity'' else Inr r)"

definition SourceReference_Kind :: "SourceReference \<Rightarrow> string" where
  "SourceReference_Kind r =
     (if \<not> SourceReference_Valid r then ''''
      else if source_recoverySHA256 r \<noteq> '''' then ''failed_run_recovery''
      else ''published_review'')"

lemma lower_hex_bytes: "is_hex_byte c \<Longrightarrow> lower_byte c = c \<Longrightarrow> is_lower_hex_byte c"
proof -
  assume c: "is_hex_byte c" "lower_byte c = c"
  have "\<not> is_upper_byte c"
  proof
    assume u: "is_upper_byte c"
    then have "of_char (lower_byte c) = (of_char c + 32 :: nat)"
      using lower_byte_upper by blast
    with c(2) show False by simp
  qed
  with c(1) show ?thesis
    by (auto simp: is_hex_byte_def go_defs less_eq_char_def)
qed

text \<open>A recovery reference never carries a review identifier, a published one always does.\<close>

lemma SourceReference_Valid_cases:
  assumes "SourceReference_Valid r"
  shows "(source_recoverySHA256 r = '''' \<and> ReviewID_id.valid_id (source_reviewID r)) \<or>
    (\<exists>d. source_recoverySHA256 r = ''sha256:'' @ d \<and> lowerSHA256Pattern d \<and>
         source_reviewID r = ReviewID '''')"
proof (cases "source_recoverySHA256 r = ''''")
  case True
  then show ?thesis using assms
    by (auto simp: SourceReference_Valid_def ReviewID_id.parse_str split: if_splits)
next
  case False
  let ?d = "TrimPrefix (source_recoverySHA256 r) ''sha256:''"
  have "source_recoverySHA256 r = ''sha256:'' @ ?d"
    and "hex_decodes_to ?d 32" and "map lower_byte ?d = ?d"
    and "source_reviewID r = ReviewID ''''"
    using assms False HasPrefix_TrimPrefix [of "source_recoverySHA256 r" "''sha256:''"]
    by (auto simp: SourceReference_Valid_def Let_def split: if_splits)
      (metis ReviewID.collapse)
  then have "lowerSHA256Pattern ?d"
    unfolding lowerSHA256Pattern_def hex_decodes_to_def list_all_iff
    by (auto simp: map_fixed lower_hex_bytes)
  then show ?thesis
    using \<open>source_recoverySHA256 r = ''sha256:'' @ ?d\<close> \<open>source_reviewID r = ReviewID ''''\<close> by blast
qed

section \<open>Live source selections\<close>

datatype LiveSourceScope =
    LiveSourceWorkspace
  | LiveSourceStage
  | LiveSourceHead
  | LiveSourceCommit
  | LiveSourceDiff
  | LiveSourceScopeOther string

fun LiveSourceScope_string :: "LiveSourceScope \<Rightarrow> string" where
  "LiveSourceScope_string LiveSourceWorkspace = ''workspace''"
| "LiveSourceScope_string LiveSourceStage = ''stage''"
| "LiveSourceScope_string LiveSourceHead = ''head''"
| "LiveSourceScope_string LiveSourceCommit = ''commit''"
| "LiveSourceScope_string LiveSourceDiff = ''diff''"
| "LiveSourceScope_string (LiveSourceScopeOther s) = s"

definition LiveSourceScope_Valid :: "LiveSourceScope \<Rightarrow> bool" where
  "LiveSourceScope_Valid v = oneOf v
     [LiveSourceWorkspace, LiveSourceStage, LiveSourceHead, LiveSourceCommit,
      LiveSourceDiff]"

definition LiveSourceScope_of :: "string \<Rightarrow> LiveSourceScope" where
  "LiveSourceScope_of = from_wire LiveSourceScope_string
     [LiveSourceWorkspace, LiveSourceStage, LiveSourceHead, LiveSourceCommit,
      LiveSourceDiff]
     LiveSourceScopeOther"

interpretation LiveSourceScope_enum: string_enum LiveSourceScope_string
    "[LiveSourceWorkspace, LiveSourceStage, LiveSourceHead, LiveSourceCommit,
      LiveSourceDiff]"
    LiveSourceScopeOther LiveSourceScope_Valid
  by unfold_locales (auto simp: LiveSourceScope_Valid_def)

datatype LiveSourceSide =
    LiveSourceWorktree
  | LiveSourceIndex
  | LiveSourceBefore
  | LiveSourceAfter
  | LiveSourceSideOther string

fun LiveSourceSide_string :: "LiveSourceSide \<Rightarrow> string" where
  "LiveSourceSide_string LiveSourceWorktree = ''worktree''"
| "LiveSourceSide_string LiveSourceIndex = ''index''"
| "LiveSourceSide_string LiveSourceBefore = ''before''"
| "LiveSourceSide_string LiveSourceAfter = ''after''"
| "LiveSourceSide_string (LiveSourceSideOther s) = s"

end
