(* ===== verification/Runs.thy ===== *)
theory Runs
  imports RoleTasks Targets
begin

text \<open>
  Runs (\<open>internal/domain/run.go\<close>) and review sessions (\<open>session.go\<close>): the constructors of
  root and child runs, the two mutators \<open>Transition\<close> and \<open>TransitionRole\<close>, and the invariant
  of every run that the constructors and mutators can produce.
\<close>

record Run =
  run_id :: RunID
  run_sessionID :: SessionID
  run_runType :: RunType
  run_state :: RunState
  run_parentRunID :: RunID
  run_hasParent :: bool
  run_sourceRunID :: RunID
  run_hasSource :: bool
  run_target :: TargetIdentity
  run_roles :: "RoleTask list"

datatype run_error =
    RunBadRunID string id_error
  | RunBadSessionID string id_error
  | RunSessionMismatch
  | RunSelectedRoleInvalid
  | RunSelectedNotPending
  | RunSelfReference
  | RunTargetRequired
  | RunTypeInvalid string
  | RunReviewNeedsSession
  | RunNoRoles
  | RunRoleInvalid
  | RunFloorNotRequired string
  | RunRoleNotPending string
  | RunDuplicateRole string
  | RunNilReceiver
  | RunIllegalTransition TransitionError
  | RunCompletionNeedsSuccess
  | RunDegradationNeedsTerminal
  | RunDegradationNeedsRequired
  | RunDegradationNeedsOptionalFailure
  | RunNotRunning
  | RunUnknownRole string
  | RunRoleNotSelected string
  | RunTaskError role_task_error
  | RunCreatedAtInvalid

definition check_run_id :: "string \<Rightarrow> RunID \<Rightarrow> run_error option" where
  "check_run_id what i =
     (case ParseRunID (RunID_String i) of Inl e \<Rightarrow> Some (RunBadRunID what e) | Inr _ \<Rightarrow> None)"

definition check_session_id :: "string \<Rightarrow> SessionID \<Rightarrow> run_error option" where
  "check_session_id what i =
     (case ParseSessionID (SessionID_String i) of
        Inl e \<Rightarrow> Some (RunBadSessionID what e) | Inr _ \<Rightarrow> None)"

lemma check_run_id_None [simp]: "check_run_id what i = None \<longleftrightarrow> RunID_id.valid_id i"
  using RunID_id.parse_str [of i] by (auto simp: check_run_id_def is_ok_iff split: sum.splits)

lemma check_session_id_None [simp]: "check_session_id what i = None \<longleftrightarrow> SessionID_id.valid_id i"
  using SessionID_id.parse_str [of i]
  by (auto simp: check_session_id_def is_ok_iff split: sum.splits)

lemma checked_ids [simp]:
  "RunID_id.valid_id i \<Longrightarrow> check_run_id what i = None"
  "SessionID_id.valid_id j \<Longrightarrow> check_session_id what j = None"
  by simp_all

section \<open>Role selection\<close>

text \<open>
  \<open>seen\<close> is the source's map from roles to tasks; a task is only entered when its role is
  not yet in the map.
\<close>

fun scan_role_tasks :: "(Role \<rightharpoonup> RoleTask) \<Rightarrow> RoleTask list \<Rightarrow> run_error + (Role \<rightharpoonup> RoleTask)" where
  "scan_role_tasks seen [] = Inr seen"
| "scan_role_tasks seen (t # ts) =
     (if \<not> Role_Valid (task_role t) then Inl RunRoleInvalid
      else if Role_RequiredFloor (task_role t) \<and> \<not> task_required t
        then Inl (RunFloorNotRequired (Role_string (task_role t)))
      else if task_state t \<noteq> RoleTaskPending
        then Inl (RunRoleNotPending (Role_string (task_role t)))
      else if seen (task_role t) \<noteq> None
        then Inl (RunDuplicateRole (Role_string (task_role t)))
      else scan_role_tasks (seen(task_role t \<mapsto> t)) ts)"

definition validateRoleTasks :: "RoleTask list \<Rightarrow> run_error + RoleTask list" where
  "validateRoleTasks roles =
     (if roles = [] then Inl RunNoRoles
      else case scan_role_tasks Map.empty roles of
        Inl e \<Rightarrow> Inl e
      | Inr seen \<Rightarrow> Inr (List.map_filter seen FixedRoleOrder))"

section \<open>Constructors\<close>

definition fresh_run ::
    "RunID \<Rightarrow> SessionID \<Rightarrow> RunType \<Rightarrow> TargetIdentity \<Rightarrow> RoleTask list \<Rightarrow> Run" where
  "fresh_run i session typ target roles =
     \<lparr>run_id = i, run_sessionID = session, run_runType = typ, run_state = RunPending,
      run_parentRunID = RunID '''', run_hasParent = False, run_sourceRunID = RunID '''',
      run_hasSource = False, run_target = target, run_roles = roles\<rparr>"

definition with_lineage :: "RunID \<Rightarrow> RunID \<Rightarrow> Run \<Rightarrow> Run" where
  "with_lineage parent source run =
     run\<lparr>run_parentRunID := parent, run_hasParent := True,
         run_sourceRunID := source, run_hasSource := True\<rparr>"

definition newRun ::
    "RunID \<Rightarrow> SessionID \<Rightarrow> RunType \<Rightarrow> TargetIdentity \<Rightarrow> RoleTask list \<Rightarrow> run_error + Run" where
  "newRun i session typ target roles =
     (case check_run_id ''run'' i of Some e \<Rightarrow> Inl e | None \<Rightarrow>
      case check_session_id ''run'' session of Some e \<Rightarrow> Inl e | None \<Rightarrow>
      if \<not> RunType_Valid typ then Inl (RunTypeInvalid (RunType_string typ))
      else if target_kind target = TargetKindOther '''' then Inl RunTargetRequired
      else case validateRoleTasks roles of
        Inl e \<Rightarrow> Inl e
      | Inr canonical \<Rightarrow> Inr (fresh_run i session typ target canonical))"

definition newFollowupRun ::
    "RunID \<Rightarrow> SessionID \<Rightarrow> TargetIdentity \<Rightarrow> RoleTask \<Rightarrow> run_error + Run" where
  "newFollowupRun i session target selected =
     (case check_run_id ''followup'' i of Some e \<Rightarrow> Inl e | None \<Rightarrow>
      case check_session_id ''followup'' session of Some e \<Rightarrow> Inl e | None \<Rightarrow>
      if target_kind target = TargetKindOther '''' then Inl RunTargetRequired
      else if \<not> Role_Valid (task_role selected) \<or> task_state selected \<noteq> RoleTaskPending
        then Inl RunSelectedRoleInvalid
      else Inr (fresh_run i session RunTypeFollowup target [selected]))"

definition validateChildProvenance :: "string \<Rightarrow> Run \<Rightarrow> run_error option" where
  "validateChildProvenance name run =
     (case check_run_id name (run_id run) of Some e \<Rightarrow> Some e | None \<Rightarrow>
      check_session_id name (run_sessionID run))"

definition NewChildRunFromImmutableSource ::
    "RunID \<Rightarrow> RunType \<Rightarrow> SessionID \<Rightarrow> RunID \<Rightarrow> RunID \<Rightarrow> TargetIdentity \<Rightarrow> RoleTask list
      \<Rightarrow> run_error + Run" where
  "NewChildRunFromImmutableSource i typ session parent source target roles =
     (if \<not> RunType_Valid typ then Inl (RunTypeInvalid (RunType_string typ))
      else if typ = RunTypeReview then Inl RunReviewNeedsSession
      else case check_session_id ''child'' session of Some e \<Rightarrow> Inl e | None \<Rightarrow>
      case check_run_id ''parent'' parent of Some e \<Rightarrow> Inl e | None \<Rightarrow>
      case check_run_id ''source'' source of Some e \<Rightarrow> Inl e | None \<Rightarrow>
      if i = parent \<or> i = source then Inl RunSelfReference
      else case newRun i session typ target roles of
        Inl e \<Rightarrow> Inl e
      | Inr run \<Rightarrow> Inr (with_lineage parent source run))"

definition NewChildRun ::
    "RunID \<Rightarrow> RunType \<Rightarrow> Run \<Rightarrow> Run \<Rightarrow> TargetIdentity \<Rightarrow> RoleTask list \<Rightarrow> run_error + Run" where
  "NewChildRun i typ parent source target roles =
     (case validateChildProvenance ''parent'' parent of Some e \<Rightarrow> Inl e | None \<Rightarrow>
      case validateChildProvenance ''source'' source of Some e \<Rightarrow> Inl e | None \<Rightarrow>
      if run_sessionID parent \<noteq> run_sessionID source then Inl RunSessionMismatch
      else NewChildRunFromImmutableSource i typ (run_sessionID parent) (run_id parent)
             (run_id source) target roles)"

definition NewFollowupChildRun ::
    "RunID \<Rightarrow> Run \<Rightarrow> Run \<Rightarrow> TargetIdentity \<Rightarrow> RoleTask \<Rightarrow> run_error + Run" where
  "NewFollowupChildRun i parent source target selected =
     (case validateChildProvenance ''parent'' parent of Some e \<Rightarrow> Inl e | None \<Rightarrow>
      case validateChildProvenance ''source'' source of Some e \<Rightarrow> Inl e | None \<Rightarrow>
      if run_sessionID parent \<noteq> run_sessionID source then Inl RunSessionMismatch
      else if \<not> Role_Valid (task_role selected) then Inl RunSelectedRoleInvalid
      else if task_state selected \<noteq> RoleTaskPending then Inl RunSelectedNotPending
      else if i = run_id parent \<or> i = run_id source then Inl RunSelfReference
      else case newFollowupRun i (run_sessionID parent) target selected of
        Inl e \<Rightarrow> Inl e
      | Inr run \<Rightarrow> Inr (with_lineage (run_id parent) (run_id source) run))"

definition NewFollowupChildRunFromImmutableSource ::
    "RunID \<Rightarrow> SessionID \<Rightarrow> RunID \<Rightarrow> RunID \<Rightarrow> TargetIdentity \<Rightarrow> RoleTask \<Rightarrow> run_error + Run" where
  "NewFollowupChildRunFromImmutableSource i session parent source target selected =
     (case check_session_id ''followup'' session of Some e \<Rightarrow> Inl e | None \<Rightarrow>
      case check_run_id ''parent'' parent of Some e \<Rightarrow> Inl e | None \<Rightarrow>
      case check_run_id ''source'' source of Some e \<Rightarrow> Inl e | None \<Rightarrow>
      if i = parent \<or> i = source then Inl RunSelfReference
      else case newFollowupRun i session target selected of
        Inl e \<Rightarrow> Inl e
      | Inr run \<Rightarrow> Inr (with_lineage parent source run))"

definition NewRerunChildRunFromImmutableSource ::
    "RunID \<Rightarrow> SessionID \<Rightarrow> RunID \<Rightarrow> RunID \<Rightarrow> TargetIdentity \<Rightarrow> RoleTask \<Rightarrow> run_error + Run" where
  "NewRerunChildRunFromImmutableSource i session parent source target selected =
     (case check_session_id ''rerun'' session of Some e \<Rightarrow> Inl e | None \<Rightarrow>
      case check_run_id ''parent'' parent of Some e \<Rightarrow> Inl e | None \<Rightarrow>
      case check_run_id ''source'' source of Some e \<Rightarrow> Inl e | None \<Rightarrow>
      if i = parent \<or> i = source then Inl RunSelfReference
      else case check_run_id ''rerun'' i of Some e \<Rightarrow> Inl e | None \<Rightarrow>
      if target_kind target = TargetKindOther '''' then Inl RunTargetRequired
      else if \<not> Role_Valid (task_role selected) \<or> task_state selected \<noteq> RoleTaskPending
        then Inl RunSelectedRoleInvalid
      else Inr (with_lineage parent source
                 (fresh_run i session RunTypeRerun target [selected])))"

section \<open>Sessions\<close>

record Session =
  session_id :: SessionID
  session_createdAt :: go_time
  session_rootRunID :: RunID

definition NewReviewSession ::
    "SessionID \<Rightarrow> go_time \<Rightarrow> RunID \<Rightarrow> TargetIdentity \<Rightarrow> RoleTask list
      \<Rightarrow> run_error + (Session \<times> Run)" where
  "NewReviewSession session createdAt i target roles =
     (case check_session_id ''review session'' session of Some e \<Rightarrow> Inl e | None \<Rightarrow>
      if time_IsZero createdAt \<or> \<not> time_utc createdAt then Inl RunCreatedAtInvalid
      else case newRun i session RunTypeReview target roles of
        Inl e \<Rightarrow> Inl e
      | Inr run \<Rightarrow>
          Inr (\<lparr>session_id = session, session_createdAt = createdAt,
                session_rootRunID = run_id run\<rparr>, run))"

section \<open>Mutators\<close>

definition roleTaskTerminal :: "RoleTaskState \<Rightarrow> bool" where
  "roleTaskTerminal s \<longleftrightarrow>
     s \<in> set [RoleTaskSucceeded, RoleTaskFailed, RoleTaskCancelled, RoleTaskBlocked]"

text \<open>The loop of the degradation guard, with its flag \<open>optionalNonSuccess\<close>.\<close>

fun degraded_scan :: "bool \<Rightarrow> RoleTask list \<Rightarrow> run_error option" where
  "degraded_scan optional [] =
     (if \<not> optional then Some RunDegradationNeedsOptionalFailure else None)"
| "degraded_scan optional (t # ts) =
     (if \<not> roleTaskTerminal (task_state t) then Some RunDegradationNeedsTerminal
      else if task_required t \<and> task_state t \<noteq> RoleTaskSucceeded
        then Some RunDegradationNeedsRequired
      else degraded_scan
        (if \<not> task_required t \<and> task_state t \<noteq> RoleTaskSucceeded then True else optional) ts)"

definition run_guard :: "Run \<Rightarrow> RunState \<Rightarrow> run_error option" where
  "run_guard run n =
     (case n of
        RunCompleted \<Rightarrow>
          first_error (\<lambda>t. if task_state t \<noteq> RoleTaskSucceeded then Some RunCompletionNeedsSuccess
                           else None) (run_roles run)
      | RunDegraded \<Rightarrow> degraded_scan False (run_roles run)
      | _ \<Rightarrow> None)"

fun Run_Transition :: "Run option \<Rightarrow> RunState \<Rightarrow> run_error + Run" where
  "Run_Transition None n = Inl RunNilReceiver"
| "Run_Transition (Some run) n =
     (case RunState_RequireTransition (run_state run) n of
        Some e \<Rightarrow> Inl (RunIllegalTransition e)
      | None \<Rightarrow>
          case run_guard run n of Some e \<Rightarrow> Inl e | None \<Rightarrow> Inr (run\<lparr>run_state := n\<rparr>))"

fun transition_role_task ::
    "Role \<Rightarrow> RoleTaskState \<Rightarrow> RoleTask list \<Rightarrow> run_error + RoleTask list" where
  "transition_role_task role n [] = Inl (RunRoleNotSelected (Role_string role))"
| "transition_role_task role n (t # ts) =
     (if task_role t = role then
        (case RoleTask_transition (Some t) n of
           Inl e \<Rightarrow> Inl (RunTaskError e)
         | Inr t' \<Rightarrow> Inr (t' # ts))
      else case transition_role_task role n ts of Inl e \<Rightarrow> Inl e | Inr ts' \<Rightarrow> Inr (t # ts'))"

fun Run_TransitionRole :: "Run option \<Rightarrow> Role \<Rightarrow> RoleTaskState \<Rightarrow> run_error + Run" where
  "Run_TransitionRole None role n = Inl RunNilReceiver"
| "Run_TransitionRole (Some run) role n =
     (if run_state run \<noteq> RunRunning then Inl RunNotRunning
      else if \<not> Role_Valid role then Inl (RunUnknownRole (Role_string role))
      else case transition_role_task role n (run_roles run) of
        Inl e \<Rightarrow> Inl e
      | Inr roles \<Rightarrow> Inr (run\<lparr>run_roles := roles\<rparr>))"


section \<open>Facts about the guards\<close>

lemma degraded_scan_None:
  "degraded_scan optional ts = None \<longleftrightarrow>
     (\<forall>t \<in> set ts. roleTaskTerminal (task_state t)) \<and>
     (\<forall>t \<in> set ts. task_required t \<longrightarrow> task_state t = RoleTaskSucceeded) \<and>
     (optional \<or> (\<exists>t \<in> set ts. \<not> task_required t \<and> task_state t \<noteq> RoleTaskSucceeded))"
  by (induction ts arbitrary: optional) auto

lemma Run_Transition_Inr:
  "Run_Transition (Some run) n = Inr run' \<longleftrightarrow>
     RunState_CanTransition (run_state run) n \<and> run_guard run n = None \<and>
     run' = run\<lparr>run_state := n\<rparr>"
  by (auto split: option.splits)

lemma transition_role_task_Inr:
  "transition_role_task role n ts = Inr ts' \<Longrightarrow>
    \<exists>pre t post. ts = pre @ t # post \<and> task_role t = role \<and> role \<notin> task_role ` set pre \<and>
      RoleTaskState_CanTransition (task_state t) n \<and> ts' = pre @ t\<lparr>task_state := n\<rparr> # post"
proof (induction ts arbitrary: ts')
  case Nil
  then show ?case by simp
next
  case (Cons t ts)
  show ?case
  proof (cases "task_role t = role")
    case True
    then obtain t' where "RoleTask_transition (Some t) n = Inr t'" and "ts' = t' # ts"
      using Cons.prems by (auto split: sum.splits)
    with True show ?thesis
      unfolding RoleTask_transition_Inr by (intro exI [of _ "[]"]) auto
  next
    case False
    then obtain us where us: "transition_role_task role n ts = Inr us" "ts' = t # us"
      using Cons.prems by (auto split: sum.splits)
    from Cons.IH [OF us(1)] obtain pre u post where
      "ts = pre @ u # post \<and> task_role u = role \<and> role \<notin> task_role ` set pre \<and>
        RoleTaskState_CanTransition (task_state u) n \<and> us = pre @ u\<lparr>task_state := n\<rparr> # post"
      by blast
    with us(2) False show ?thesis
      by (intro exI [of _ "t # pre"] exI [of _ u] exI [of _ post]) auto
  qed
qed

lemma transition_role_task_found:
  "t \<in> set ts \<Longrightarrow> distinct (map task_role ts) \<Longrightarrow> RoleTaskState_CanTransition (task_state t) n \<Longrightarrow>
    is_ok (transition_role_task (task_role t) n ts)"
proof (induction ts)
  case (Cons u ts)
  show ?case
  proof (cases "task_role u = task_role t")
    case True
    then have "u = t" using Cons.prems by (auto simp: image_iff)
    moreover have "RoleTaskState_RequireTransition (task_state t) n = None"
      using Cons.prems by simp
    ultimately show ?thesis using Cons.prems by simp
  next
    case False
    then show ?thesis using Cons by (auto simp: is_ok_iff split: sum.splits)
  qed
qed simp

text \<open>Selection: the accepted tasks in the fixed role order, each exactly once.\<close>

definition canonical_roles :: "RoleTask list \<Rightarrow> bool" where
  "canonical_roles ts \<longleftrightarrow>
     sorted_wrt (\<lambda>a b. rolePosition (task_role a) < rolePosition (task_role b)) ts \<and>
     (\<forall>t \<in> set ts. Role_Valid (task_role t))"

definition fresh_role_task :: "RoleTask \<Rightarrow> bool" where
  "fresh_role_task t \<longleftrightarrow>
     Role_Valid (task_role t) \<and> (Role_RequiredFloor (task_role t) \<longrightarrow> task_required t) \<and>
     task_state t = RoleTaskPending"

lemma scan_role_tasks_Inr:
  "scan_role_tasks seen ts = Inr seen' \<Longrightarrow>
    (\<forall>t \<in> set ts. fresh_role_task t) \<and> distinct (map task_role ts) \<and>
    (\<forall>t \<in> set ts. seen (task_role t) = None) \<and>
    (\<forall>r u. seen' r = Some u \<longleftrightarrow> seen r = Some u \<or> u \<in> set ts \<and> task_role u = r)"
proof (induction ts arbitrary: seen)
  case Nil
  then show ?case by simp
next
  case (Cons t ts)
  then have fresh: "fresh_role_task t" and new: "seen (task_role t) = None"
    and rest: "scan_role_tasks (seen(task_role t \<mapsto> t)) ts = Inr seen'"
    by (auto simp: fresh_role_task_def split: if_splits)
  note IH = Cons.IH [OF rest]
  have other: "task_role u \<noteq> task_role t \<and> seen (task_role u) = None" if "u \<in> set ts" for u
    using IH that by (force split: if_splits)
  have "task_role t \<notin> task_role ` set ts"
    using other by force
  then show ?case
    using IH fresh new other by (auto split: if_splits)
qed

lemma scan_role_tasks_complete:
  "\<forall>t \<in> set ts. fresh_role_task t \<Longrightarrow> distinct (map task_role ts) \<Longrightarrow>
    \<forall>t \<in> set ts. seen (task_role t) = None \<Longrightarrow> is_ok (scan_role_tasks seen ts)"
proof (induction ts arbitrary: seen)
  case (Cons t ts)
  then have "\<forall>u \<in> set ts. (seen(task_role t \<mapsto> t)) (task_role u) = None"
    by (auto simp: image_iff)
  then show ?case
    using Cons.prems Cons.IH [of "seen(task_role t \<mapsto> t)"]
    by (simp add: fresh_role_task_def del: fun_upd_apply)
qed simp

lemma sorted_map_filter_positions:
  "sorted_wrt (\<lambda>a b. rolePosition a < rolePosition b) rs \<Longrightarrow>
    (\<And>r u. f r = Some u \<Longrightarrow> task_role u = r) \<Longrightarrow>
    sorted_wrt (\<lambda>a b. rolePosition (task_role a) < rolePosition (task_role b)) (List.map_filter f rs)"
  by (induction rs) (auto simp: map_filter_simps set_map_filter split: option.splits)

lemma validateRoleTasks_Inr:
  assumes "validateRoleTasks roles = Inr ts"
  shows "canonical_roles ts" "mset ts = mset roles" "\<forall>t \<in> set ts. fresh_role_task t" "ts \<noteq> []"
proof -
  obtain seen where scan: "scan_role_tasks Map.empty roles = Inr seen" and ne: "roles \<noteq> []"
    and ts: "ts = List.map_filter seen FixedRoleOrder"
    using assms by (auto simp: validateRoleTasks_def split: if_splits sum.splits)
  note S = scan_role_tasks_Inr [OF scan]
  have seen: "seen r = Some u \<longleftrightarrow> u \<in> set roles \<and> task_role u = r" for r u
    using S by simp
  have members: "set ts = set roles"
    using S by (auto simp: ts set_map_filter seen Role_Valid_iff fresh_role_task_def)
  have order: "sorted_wrt (\<lambda>a b. rolePosition a < rolePosition b) FixedRoleOrder"
    by (simp add: FixedRoleOrder_def)
  have sorted: "sorted_wrt (\<lambda>a b. rolePosition (task_role a) < rolePosition (task_role b)) ts"
    unfolding ts by (rule sorted_map_filter_positions [OF order]) (simp add: seen)
  show "canonical_roles ts"
    using sorted members S by (auto simp: canonical_roles_def fresh_role_task_def)
  have "distinct ts"
    by (rule sorted_wrt_irrefl_distinct [OF sorted])
  moreover have "distinct roles" using S by (simp add: distinct_map)
  ultimately show "mset ts = mset roles"
    using members set_eq_iff_mset_eq_distinct by blast
  show "\<forall>t \<in> set ts. fresh_role_task t" and "ts \<noteq> []"
    using members S ne by auto
qed

lemma validateRoleTasks_ok_iff:
  "is_ok (validateRoleTasks roles) \<longleftrightarrow>
     roles \<noteq> [] \<and> (\<forall>t \<in> set roles. fresh_role_task t) \<and> distinct (map task_role roles)"
proof
  assume "is_ok (validateRoleTasks roles)"
  then obtain seen where "scan_role_tasks Map.empty roles = Inr seen" "roles \<noteq> []"
    by (auto simp: is_ok_iff validateRoleTasks_def split: if_splits sum.splits)
  then show "roles \<noteq> [] \<and> (\<forall>t \<in> set roles. fresh_role_task t) \<and> distinct (map task_role roles)"
    using scan_role_tasks_Inr by blast
next
  assume "roles \<noteq> [] \<and> (\<forall>t \<in> set roles. fresh_role_task t) \<and> distinct (map task_role roles)"
  then show "is_ok (validateRoleTasks roles)"
    using scan_role_tasks_complete [of roles Map.empty]
    by (auto simp: is_ok_iff validateRoleTasks_def)
qed

lemma canonical_roles_distinct: "canonical_roles ts \<Longrightarrow> distinct (map task_role ts)"
proof -
  assume "canonical_roles ts"
  then have "sorted_wrt (\<lambda>a b. rolePosition a < rolePosition b) (map task_role ts)"
    by (simp add: canonical_roles_def sorted_wrt_map)
  then show ?thesis by (rule sorted_wrt_irrefl_distinct)
qed

section \<open>Reachable runs\<close>

text \<open>
  Every run a client outside the package can hold: a constructor's result or the result of one
  of the two mutators. Role tasks given to a constructor come from \<open>NewRoleTask\<close>, the only
  exported source of them, hence the hypotheses \<open>RoleTask_ok\<close>.
\<close>

inductive run_reachable :: "Run \<Rightarrow> bool" where
  root: "NewReviewSession session createdAt i target roles = Inr (s, run) \<Longrightarrow>
    \<forall>t \<in> set roles. RoleTask_ok t \<Longrightarrow> run_reachable run"
| child: "NewChildRun i typ parent source target roles = Inr run \<Longrightarrow>
    \<forall>t \<in> set roles. RoleTask_ok t \<Longrightarrow> run_reachable run"
| child_immutable:
    "NewChildRunFromImmutableSource i typ session p src target roles = Inr run \<Longrightarrow>
    \<forall>t \<in> set roles. RoleTask_ok t \<Longrightarrow> run_reachable run"
| followup: "NewFollowupChildRun i parent source target selected = Inr run \<Longrightarrow>
    RoleTask_ok selected \<Longrightarrow> run_reachable run"
| followup_immutable:
    "NewFollowupChildRunFromImmutableSource i session p src target selected = Inr run \<Longrightarrow>
    RoleTask_ok selected \<Longrightarrow> run_reachable run"
| rerun: "NewRerunChildRunFromImmutableSource i session p src target selected = Inr run \<Longrightarrow>
    RoleTask_ok selected \<Longrightarrow> run_reachable run"
| move: "run_reachable run \<Longrightarrow> Run_Transition (Some run) n = Inr run' \<Longrightarrow> run_reachable run'"
| move_role: "run_reachable run \<Longrightarrow> Run_TransitionRole (Some run) role m = Inr run' \<Longrightarrow>
    run_reachable run'"

definition run_identity_ok :: "Run \<Rightarrow> bool" where
  [inv_simps]: "run_identity_ok run \<longleftrightarrow>
     RunID_id.valid_id (run_id run) \<and> SessionID_id.valid_id (run_sessionID run) \<and>
     RunType_Valid (run_runType run) \<and> RunState_Valid (run_state run) \<and>
     target_kind (run_target run) \<noteq> TargetKindOther ''''"

definition run_lineage_ok :: "Run \<Rightarrow> bool" where
  [inv_simps]: "run_lineage_ok run \<longleftrightarrow>
     (run_hasSource run \<longleftrightarrow> run_hasParent run) \<and>
     (run_hasParent run \<longleftrightarrow> run_runType run \<noteq> RunTypeReview) \<and>
     (run_hasParent run \<longrightarrow>
        RunID_id.valid_id (run_parentRunID run) \<and> RunID_id.valid_id (run_sourceRunID run) \<and>
        run_id run \<noteq> run_parentRunID run \<and> run_id run \<noteq> run_sourceRunID run)"

definition run_roles_ok :: "Run \<Rightarrow> bool" where
  [inv_simps]: "run_roles_ok run \<longleftrightarrow>
     run_roles run \<noteq> [] \<and> canonical_roles (run_roles run) \<and>
     (\<forall>t \<in> set (run_roles run). RoleTask_ok t)"

text \<open>
  What the state of the run says about its tasks. A pending run has untouched tasks, and the two
  successful ends are exactly as good as the guards promise.
\<close>

definition run_progress_ok :: "Run \<Rightarrow> bool" where
  [inv_simps]: "run_progress_ok run \<longleftrightarrow>
     (run_state run = RunPending \<longrightarrow>
        (\<forall>t \<in> set (run_roles run). task_state t = RoleTaskPending)) \<and>
     (run_state run = RunCompleted \<longrightarrow>
        (\<forall>t \<in> set (run_roles run). task_state t = RoleTaskSucceeded)) \<and>
     (run_state run = RunDegraded \<longrightarrow> degraded_scan False (run_roles run) = None)"

definition run_inv :: "Run \<Rightarrow> bool" where
  "run_inv run \<longleftrightarrow>
     run_identity_ok run \<and> run_lineage_ok run \<and> run_roles_ok run \<and> run_progress_ok run"

lemma fresh_run_inv:
  assumes "RunID_id.valid_id i" "SessionID_id.valid_id session" "RunType_Valid typ"
    and "target_kind target \<noteq> TargetKindOther ''''"
    and "roles \<noteq> []" "canonical_roles roles" "\<forall>t \<in> set roles. RoleTask_ok t"
    and "\<forall>t \<in> set roles. task_state t = RoleTaskPending"
  shows "typ = RunTypeReview \<Longrightarrow> run_inv (fresh_run i session typ target roles)"
    and "typ \<noteq> RunTypeReview \<Longrightarrow> RunID_id.valid_id p \<Longrightarrow> RunID_id.valid_id src \<Longrightarrow> i \<noteq> p \<Longrightarrow> i \<noteq> src \<Longrightarrow>
      run_inv (with_lineage p src (fresh_run i session typ target roles))"
  using assms
  by (simp_all add: run_inv_def inv_simps fresh_run_def with_lineage_def RunState_Valid_def)

lemma newRun_Inr:
  assumes "newRun i session typ target roles = Inr run"
  obtains ts where "run = fresh_run i session typ target ts" "validateRoleTasks roles = Inr ts"
    "RunID_id.valid_id i" "SessionID_id.valid_id session" "RunType_Valid typ"
    "target_kind target \<noteq> TargetKindOther ''''"
proof -
  have "check_run_id ''run'' i = None" "check_session_id ''run'' session = None"
    using assms by (auto simp: newRun_def split: option.splits)
  then show ?thesis
    using assms that by (auto simp: newRun_def split: if_splits sum.splits)
qed

lemma newFollowupRun_Inr:
  assumes "newFollowupRun i session target t = Inr run"
  shows "run = fresh_run i session RunTypeFollowup target [t]" "RunID_id.valid_id i"
    "SessionID_id.valid_id session" "target_kind target \<noteq> TargetKindOther ''''"
    "Role_Valid (task_role t)" "task_state t = RoleTaskPending"
proof -
  have "check_run_id ''followup'' i = None" "check_session_id ''followup'' session = None"
    using assms by (auto simp: newFollowupRun_def split: option.splits)
  then show "run = fresh_run i session RunTypeFollowup target [t]" "RunID_id.valid_id i"
    "SessionID_id.valid_id session" "target_kind target \<noteq> TargetKindOther ''''"
    "Role_Valid (task_role t)" "task_state t = RoleTaskPending"
    using assms by (auto simp: newFollowupRun_def split: if_splits)
qed

lemma selected_roles_ok:
  assumes "validateRoleTasks roles = Inr ts" "\<forall>t \<in> set roles. RoleTask_ok t"
  shows "ts \<noteq> []" "canonical_roles ts" "\<forall>t \<in> set ts. RoleTask_ok t"
    "\<forall>t \<in> set ts. task_state t = RoleTaskPending"
  using validateRoleTasks_Inr [OF assms(1)] assms(2)
  by (auto simp: fresh_role_task_def dest!: mset_eq_setD)

lemma canonical_single [simp]: "canonical_roles [t] \<longleftrightarrow> Role_Valid (task_role t)"
  by (simp add: canonical_roles_def)

lemma newRun_inv:
  assumes "newRun i session typ target roles = Inr run" "\<forall>t \<in> set roles. RoleTask_ok t"
  shows "typ = RunTypeReview \<Longrightarrow> run_inv run"
    and "typ \<noteq> RunTypeReview \<Longrightarrow> RunID_id.valid_id p \<Longrightarrow> RunID_id.valid_id src \<Longrightarrow> i \<noteq> p \<Longrightarrow> i \<noteq> src \<Longrightarrow>
      run_inv (with_lineage p src run)"
proof -
  obtain ts where run: "run = fresh_run i session typ target ts"
    and ts: "validateRoleTasks roles = Inr ts"
    and ok: "RunID_id.valid_id i" "SessionID_id.valid_id session" "RunType_Valid typ"
      "target_kind target \<noteq> TargetKindOther ''''"
    by (rule newRun_Inr [OF assms(1)])
  note fresh = fresh_run_inv [OF ok selected_roles_ok [OF ts assms(2)]]
  show "typ = RunTypeReview \<Longrightarrow> run_inv run" unfolding run by (rule fresh(1))
  show "typ \<noteq> RunTypeReview \<Longrightarrow> RunID_id.valid_id p \<Longrightarrow> RunID_id.valid_id src \<Longrightarrow> i \<noteq> p \<Longrightarrow>
      i \<noteq> src \<Longrightarrow> run_inv (with_lineage p src run)" unfolding run by (rule fresh(2))
qed

text \<open>Each constructor establishes the invariant.\<close>

lemma root_inv:
  assumes "NewReviewSession session createdAt i target roles = Inr (s, run)"
    and "\<forall>t \<in> set roles. RoleTask_ok t"
  shows "run_inv run"
proof -
  from assms(1) have "newRun i session RunTypeReview target roles = Inr run"
    by (auto simp: NewReviewSession_def split: option.splits if_splits sum.splits)
  then show ?thesis using assms(2) by (rule newRun_inv(1)) simp
qed

lemma immutable_child_inv:
  assumes "NewChildRunFromImmutableSource i typ session p src target roles = Inr run"
    and "\<forall>t \<in> set roles. RoleTask_ok t"
  shows "run_inv run"
proof -
  from assms(1) have "check_session_id ''child'' session = None"
    "check_run_id ''parent'' p = None" "check_run_id ''source'' src = None"
    "typ \<noteq> RunTypeReview" "i \<noteq> p" "i \<noteq> src"
    by (auto simp: NewChildRunFromImmutableSource_def split: option.splits if_splits)
  moreover from this assms(1) obtain run0 where
    "newRun i session typ target roles = Inr run0" and run: "run = with_lineage p src run0"
    by (auto simp: NewChildRunFromImmutableSource_def split: if_splits sum.splits)
  ultimately show ?thesis
    unfolding run using newRun_inv(2) [OF _ assms(2)] by auto
qed

lemma child_inv:
  assumes "NewChildRun i typ parent source target roles = Inr run"
    and "\<forall>t \<in> set roles. RoleTask_ok t"
  shows "run_inv run"
proof (rule immutable_child_inv [OF _ assms(2)])
  show "NewChildRunFromImmutableSource i typ (run_sessionID parent) (run_id parent)
      (run_id source) target roles = Inr run"
    using assms(1) by (simp add: NewChildRun_def split: option.splits if_splits)
qed

lemma followup_lineage_inv:
  assumes "newFollowupRun i session target t = Inr run" "RoleTask_ok t"
    and "RunID_id.valid_id p" "RunID_id.valid_id src" "i \<noteq> p" "i \<noteq> src"
  shows "run_inv (with_lineage p src run)"
  unfolding newFollowupRun_Inr(1) [OF assms(1)]
  using newFollowupRun_Inr(2-) [OF assms(1)] assms(2-)
  by (intro fresh_run_inv(2)) (auto simp: RunType_Valid_def)

lemma immutable_followup_inv:
  assumes "NewFollowupChildRunFromImmutableSource i session p src target t = Inr run"
    and "RoleTask_ok t"
  shows "run_inv run"
proof -
  from assms(1) have "check_session_id ''followup'' session = None"
    "check_run_id ''parent'' p = None" "check_run_id ''source'' src = None" "i \<noteq> p" "i \<noteq> src"
    by (auto simp: NewFollowupChildRunFromImmutableSource_def split: option.splits if_splits)
  moreover from this assms(1) obtain run0 where "newFollowupRun i session target t = Inr run0"
    and "run = with_lineage p src run0"
    by (auto simp: NewFollowupChildRunFromImmutableSource_def split: if_splits sum.splits)
  ultimately show ?thesis using followup_lineage_inv assms(2) by auto
qed

lemma followup_inv:
  assumes "NewFollowupChildRun i parent source target t = Inr run" "RoleTask_ok t"
  shows "run_inv run"
proof -
  from assms(1) have "validateChildProvenance ''parent'' parent = None"
    "validateChildProvenance ''source'' source = None" "i \<noteq> run_id parent" "i \<noteq> run_id source"
    by (auto simp: NewFollowupChildRun_def split: option.splits if_splits)
  moreover from this have "RunID_id.valid_id (run_id parent)" "RunID_id.valid_id (run_id source)"
    by (auto simp: validateChildProvenance_def split: option.splits)
  moreover from calculation assms(1) obtain run0
    where "newFollowupRun i (run_sessionID parent) target t = Inr run0"
      and "run = with_lineage (run_id parent) (run_id source) run0"
    by (auto simp: NewFollowupChildRun_def split: if_splits sum.splits)
  ultimately show ?thesis using followup_lineage_inv assms(2) by auto
qed

lemma rerun_inv:
  assumes "NewRerunChildRunFromImmutableSource i session p src target t = Inr run"
    and "RoleTask_ok t"
  shows "run_inv run"
proof -
  from assms(1) have *: "check_session_id ''rerun'' session = None"
    "check_run_id ''parent'' p = None" "check_run_id ''source'' src = None"
    "check_run_id ''rerun'' i = None" "i \<noteq> p" "i \<noteq> src"
    by (auto simp: NewRerunChildRunFromImmutableSource_def split: option.splits if_splits)
  with assms(1) have "run = with_lineage p src (fresh_run i session RunTypeRerun target [t])"
    "target_kind target \<noteq> TargetKindOther ''''" "Role_Valid (task_role t)"
    "task_state t = RoleTaskPending"
    by (auto simp: NewRerunChildRunFromImmutableSource_def split: if_splits)
  with * assms(2) show ?thesis
    by (auto intro!: fresh_run_inv(2) simp: RunType_Valid_def)
qed

text \<open>Each mutator preserves it.\<close>

lemma Run_Transition_inv:
  assumes "Run_Transition (Some run) n = Inr run'" "run_inv run"
  shows "run_inv run'"
proof -
  have can: "RunState_CanTransition (run_state run) n" and guard: "run_guard run n = None"
    and run': "run' = run\<lparr>run_state := n\<rparr>"
    using assms(1) unfolding Run_Transition_Inr by auto
  have "n \<noteq> RunPending" using can by (cases "run_state run") auto
  moreover have "RunState_Valid n" using can RunState_can_valid by blast
  moreover have "n = RunCompleted \<Longrightarrow> \<forall>t \<in> set (run_roles run). task_state t = RoleTaskSucceeded"
    using guard by (auto simp: run_guard_def split: if_splits)
  moreover have "n = RunDegraded \<Longrightarrow> degraded_scan False (run_roles run) = None"
    using guard by (simp add: run_guard_def)
  ultimately show ?thesis
    using assms(2) by (simp add: run' run_inv_def inv_simps)
qed

lemma Run_TransitionRole_Inr:
  "Run_TransitionRole (Some run) role n = Inr run' \<Longrightarrow>
    \<exists>roles. run_state run = RunRunning \<and> Role_Valid role \<and>
      transition_role_task role n (run_roles run) = Inr roles \<and> run' = run\<lparr>run_roles := roles\<rparr>"
  by (auto split: if_splits sum.splits)

lemma Run_TransitionRole_inv:
  assumes "Run_TransitionRole (Some run) role n = Inr run'" "run_inv run"
  shows "run_inv run'"
proof -
  obtain roles where running: "run_state run = RunRunning"
    and run': "run' = run\<lparr>run_roles := roles\<rparr>"
    and *: "transition_role_task role n (run_roles run) = Inr roles"
    using Run_TransitionRole_Inr [OF assms(1)] by blast
  obtain pre t post where split: "run_roles run = pre @ t # post"
    and can: "RoleTaskState_CanTransition (task_state t) n"
    and roles: "roles = pre @ t\<lparr>task_state := n\<rparr> # post"
    using transition_role_task_Inr [OF *] by blast
  have "RoleTask_ok t" using assms(2) split by (simp add: run_inv_def run_roles_ok_def)
  then have "RoleTask_ok (t\<lparr>task_state := n\<rparr>)"
    using can RoleTaskState_can_valid by (simp add: RoleTask_ok_def)
  then have "run_roles_ok run'"
    using assms(2) split
    by (auto simp: run' roles run_inv_def run_roles_ok_def canonical_roles_def sorted_wrt_append)
  then show ?thesis
    using assms(2) running
    by (simp add: run' run_inv_def run_identity_ok_def run_lineage_ok_def run_progress_ok_def)
qed

lemmas run_operations_inv =
  root_inv child_inv immutable_child_inv followup_inv immutable_followup_inv rerun_inv
  Run_Transition_inv Run_TransitionRole_inv

lemma run_reachable_inv: "run_reachable run \<Longrightarrow> run_inv run"
  by (induction rule: run_reachable.induct) (blast intro: run_operations_inv)+

text \<open>A history of mutations as a list: \<open>Inl\<close> moves the run, \<open>Inr\<close> one of its tasks.\<close>

fun run_moves :: "(RunState + Role \<times> RoleTaskState) list \<Rightarrow> Run \<Rightarrow> run_error + Run" where
  "run_moves [] run = Inr run"
| "run_moves (m # ms) run =
     (case (case m of Inl n \<Rightarrow> Run_Transition (Some run) n
                    | Inr (role, n) \<Rightarrow> Run_TransitionRole (Some run) role n) of
        Inl e \<Rightarrow> Inl e
      | Inr run' \<Rightarrow> run_moves ms run')"

lemma run_moves_reachable:
  "run_reachable run \<Longrightarrow> run_moves ms run = Inr run' \<Longrightarrow> run_reachable run'"
proof (induction ms arbitrary: run)
  case (Cons m ms)
  then show ?case
    by (cases m) (auto intro: run_reachable.move run_reachable.move_role
        simp del: Run_Transition.simps Run_TransitionRole.simps split: sum.splits)
qed simp

end
