(* ===== verification/Attempts.thy ===== *)
theory Attempts
  imports States Identifiers
begin

text \<open>
  Attempts and their invocations (\<open>internal/domain/attempt.go\<close>): one provider's try at a role,
  made of an initial invocation and at most one more (a retry, a repair or the extraction
  trailer). Every index into the invocation slice that the source takes unguarded is a branch of
  the model that answers \<open>AttemptIndexPanic\<close>; the invariant shows that it is never taken.
\<close>

section \<open>Invocations\<close>

record Invocation =
  inv_sequence :: uint64
  inv_purpose :: InvocationPurpose
  inv_state :: InvocationState
  inv_artifacts :: bool

datatype attempt_error =
    InvocationSequenceZero
  | InvocationPurposeInvalid string
  | AttemptBadID id_error
  | AttemptProviderRequired
  | AttemptFirstInvocation
  | AttemptNilReceiver
  | AttemptIllegalTransition TransitionError
  | AttemptInitialValidation
  | AttemptRetryValidation
  | AttemptValidationShape
  | AttemptRepairValidationShape
  | AttemptRepairValidation
  | AttemptReportNotSucceeded
  | AttemptTrailerNotTerminal
  | AttemptRepairShape
  | AttemptRepairNeedsInitial
  | AttemptRetryPhase
  | AttemptRetryNeedsFailure
  | AttemptRetryInvocation
  | AttemptExtractPhase
  | AttemptExtractShape
  | AttemptExtractNeedsInitial
  | AttemptExtractInvocation
  | AttemptSingleRepair
  | AttemptRepairPhase
  | AttemptRepairInvocation
  | AttemptNoInvocations
  | AttemptRunningShape
  | AttemptInitialPhase
  | AttemptRetryOrder
  | AttemptRepairOrder
  | AttemptTrailerOnly
  | AttemptInvocationFrozen string
  | AttemptSequenceNotCurrent uint64
  | AttemptArtifactsBoundary
  | AttemptIndexPanic

definition NewInvocation :: "uint64 \<Rightarrow> InvocationPurpose \<Rightarrow> attempt_error + Invocation" where
  "NewInvocation sequence purpose =
     (if sequence = 0 then Inl InvocationSequenceZero
      else if \<not> InvocationPurpose_Valid purpose
        then Inl (InvocationPurposeInvalid (InvocationPurpose_string purpose))
      else Inr \<lparr>inv_sequence = sequence, inv_purpose = purpose, inv_state = InvocationQueued,
                inv_artifacts = False\<rparr>)"

definition Invocation_withTransition ::
    "Invocation \<Rightarrow> InvocationState \<Rightarrow> attempt_error + Invocation" where
  "Invocation_withTransition i n =
     (case InvocationState_RequireTransition (inv_state i) n of
        Some e \<Rightarrow> Inl (AttemptIllegalTransition e)
      | None \<Rightarrow> Inr (i\<lparr>inv_state := n\<rparr>))"

text \<open>The test the source spells out at each guard, and its first two conjuncts.\<close>

definition inv_at :: "uint64 \<Rightarrow> InvocationPurpose \<Rightarrow> Invocation \<Rightarrow> bool" where
  "inv_at q p i \<longleftrightarrow> inv_sequence i = q \<and> inv_purpose i = p"

definition inv_is :: "uint64 \<Rightarrow> InvocationPurpose \<Rightarrow> InvocationState \<Rightarrow> Invocation \<Rightarrow> bool" where
  "inv_is q p s i \<longleftrightarrow> inv_at q p i \<and> inv_state i = s"

section \<open>Attempts\<close>

record Attempt =
  att_id :: AttemptID
  att_state :: AttemptState
  att_provider :: string
  att_invocations :: "Invocation list"

definition NewAttempt :: "AttemptID \<Rightarrow> string \<Rightarrow> Invocation \<Rightarrow> attempt_error + Attempt" where
  "NewAttempt i provider initial =
     (case ParseAttemptID (AttemptID_String i) of
        Inl e \<Rightarrow> Inl (AttemptBadID e)
      | Inr _ \<Rightarrow>
          let provider' = TrimSpace provider
          in if provider' = '''' then Inl AttemptProviderRequired
             else if \<not> inv_is 1 InvocationInitial InvocationQueued initial
               then Inl AttemptFirstInvocation
             else Inr \<lparr>att_id = i, att_state = AttemptQueued, att_provider = provider',
                       att_invocations = [initial]\<rparr>)"

text \<open>\<open>latestReportInvocation\<close> scans from the newest invocation to the oldest.\<close>

definition latestReportInvocation :: "Invocation list \<Rightarrow> Invocation option" where
  "latestReportInvocation invs =
     List.find (\<lambda>i. InvocationPurpose_CarriesRoleReport (inv_purpose i)) (rev invs)"

definition terminalInvocationState :: "InvocationState \<Rightarrow> bool" where
  "terminalInvocationState s \<longleftrightarrow>
     InvocationState_Valid s \<and> s \<noteq> InvocationQueued \<and> s \<noteq> InvocationRunning"

text \<open>The three guarded targets of \<open>Attempt.Transition\<close>.\<close>

definition validating_guard :: "Attempt \<Rightarrow> attempt_error option" where
  "validating_guard a =
     (if att_state a = AttemptRunning then
        (case att_invocations a of
           [] \<Rightarrow> Some AttemptIndexPanic
         | [latest] \<Rightarrow>
             if \<not> inv_is 1 InvocationInitial InvocationSucceeded latest
             then Some AttemptInitialValidation else None
         | [initial, latest] \<Rightarrow>
             if \<not> inv_is 1 InvocationInitial InvocationFailed initial \<or>
                \<not> inv_is 2 InvocationRetry InvocationSucceeded latest
             then Some AttemptRetryValidation else None
         | _ \<Rightarrow> Some AttemptValidationShape)
      else
        (case att_invocations a of
           [initial, repair] \<Rightarrow>
             if \<not> inv_is 1 InvocationInitial InvocationSucceeded initial \<or>
                \<not> inv_is 2 InvocationRepair InvocationSucceeded repair
             then Some AttemptRepairValidation else None
         | _ \<Rightarrow> Some AttemptRepairValidationShape))"

definition succeeded_guard :: "Attempt \<Rightarrow> attempt_error option" where
  "succeeded_guard a =
     (case latestReportInvocation (att_invocations a) of
        None \<Rightarrow> Some AttemptReportNotSucceeded
      | Some report \<Rightarrow>
          if inv_state report \<noteq> InvocationSucceeded then Some AttemptReportNotSucceeded
          else if att_invocations a = [] then Some AttemptIndexPanic
          else if inv_purpose (last (att_invocations a)) = InvocationExtract \<and>
            \<not> terminalInvocationState (inv_state (last (att_invocations a)))
          then Some AttemptTrailerNotTerminal
          else None)"

definition repairing_guard :: "Attempt \<Rightarrow> attempt_error option" where
  "repairing_guard a =
     (case att_invocations a of
        [initial] \<Rightarrow>
          if \<not> inv_is 1 InvocationInitial InvocationSucceeded initial
          then Some AttemptRepairNeedsInitial else None
      | _ \<Rightarrow> Some AttemptRepairShape)"

definition attempt_guard :: "Attempt \<Rightarrow> AttemptState \<Rightarrow> attempt_error option" where
  "attempt_guard a n =
     (case n of
        AttemptValidating \<Rightarrow> validating_guard a
      | AttemptSucceeded \<Rightarrow> succeeded_guard a
      | AttemptRepairing \<Rightarrow> repairing_guard a
      | _ \<Rightarrow> None)"

fun Attempt_Transition :: "Attempt option \<Rightarrow> AttemptState \<Rightarrow> attempt_error + Attempt" where
  "Attempt_Transition None n = Inl AttemptNilReceiver"
| "Attempt_Transition (Some a) n =
     (case AttemptState_RequireTransition (att_state a) n of
        Some e \<Rightarrow> Inl (AttemptIllegalTransition e)
      | None \<Rightarrow>
          case attempt_guard a n of
            Some e \<Rightarrow> Inl e
          | None \<Rightarrow> Inr (a\<lparr>att_state := n\<rparr>))"

definition append_invocation :: "Attempt \<Rightarrow> Invocation \<Rightarrow> Attempt" where
  "append_invocation a i = a\<lparr>att_invocations := att_invocations a @ [i]\<rparr>"

fun AppendRetryInvocation :: "Attempt option \<Rightarrow> Invocation \<Rightarrow> attempt_error + Attempt" where
  "AppendRetryInvocation None i = Inl AttemptRetryPhase"
| "AppendRetryInvocation (Some a) i =
     (if att_state a \<noteq> AttemptRunning \<or> length (att_invocations a) \<noteq> 1
        then Inl AttemptRetryPhase
      else if \<not> inv_is 1 InvocationInitial InvocationFailed (hd (att_invocations a))
        then Inl AttemptRetryNeedsFailure
      else if \<not> inv_is 2 InvocationRetry InvocationQueued i then Inl AttemptRetryInvocation
      else Inr (append_invocation a i))"

fun AppendExtractInvocation :: "Attempt option \<Rightarrow> Invocation \<Rightarrow> attempt_error + Attempt" where
  "AppendExtractInvocation None i = Inl AttemptNilReceiver"
| "AppendExtractInvocation (Some a) i =
     (if att_state a \<noteq> AttemptValidating then Inl AttemptExtractPhase
      else if length (att_invocations a) \<noteq> 1 then Inl AttemptExtractShape
      else if \<not> inv_is 1 InvocationInitial InvocationSucceeded (hd (att_invocations a))
        then Inl AttemptExtractNeedsInitial
      else if \<not> inv_is 2 InvocationExtract InvocationQueued i then Inl AttemptExtractInvocation
      else Inr (append_invocation a i))"

fun AppendRepairInvocation :: "Attempt option \<Rightarrow> Invocation \<Rightarrow> attempt_error + Attempt" where
  "AppendRepairInvocation None i = Inl AttemptNilReceiver"
| "AppendRepairInvocation (Some a) i =
     (if length (att_invocations a) \<noteq> 1 then Inl AttemptSingleRepair
      else if att_state a \<noteq> AttemptRepairing then Inl AttemptRepairPhase
      else if \<not> inv_is 1 InvocationInitial InvocationSucceeded (hd (att_invocations a))
        then Inl AttemptRepairNeedsInitial
      else if \<not> inv_is 2 InvocationRepair InvocationQueued i then Inl AttemptRepairInvocation
      else Inr (append_invocation a i))"

text \<open>
  The phase of the attempt selects the invocation that may move, always the last one. The phase
  check comes first, then the caller's sequence number, then the invocation's own lifecycle.
\<close>

definition current_invocation :: "Attempt \<Rightarrow> attempt_error + Invocation" where
  "current_invocation a =
     (case att_state a of
        AttemptRunning \<Rightarrow>
          (case att_invocations a of
             [current] \<Rightarrow>
               if \<not> inv_at 1 InvocationInitial current then Inl AttemptInitialPhase
               else Inr current
           | [initial, current] \<Rightarrow>
               if inv_state initial \<noteq> InvocationFailed \<or> \<not> inv_at 2 InvocationRetry current
               then Inl AttemptRetryOrder else Inr current
           | _ \<Rightarrow> Inl AttemptRunningShape)
      | AttemptRepairing \<Rightarrow>
          (case att_invocations a of
             [initial, current] \<Rightarrow>
               if \<not> inv_is 1 InvocationInitial InvocationSucceeded initial
                 then Inl AttemptRepairNeedsInitial
               else if \<not> inv_at 2 InvocationRepair current then Inl AttemptRepairOrder
               else Inr current
           | _ \<Rightarrow> Inl AttemptRepairShape)
      | AttemptValidating \<Rightarrow>
          (if att_invocations a = [] then Inl AttemptIndexPanic
           else let current = last (att_invocations a)
             in if inv_purpose current \<noteq> InvocationExtract \<or>
                   inv_sequence current \<noteq> of_nat (length (att_invocations a))
                then Inl AttemptTrailerOnly else Inr current)
      | s \<Rightarrow> Inl (AttemptInvocationFrozen (AttemptState_string s)))"

definition replace_last :: "Attempt \<Rightarrow> Invocation \<Rightarrow> Attempt" where
  "replace_last a i =
     a\<lparr>att_invocations := (att_invocations a)[length (att_invocations a) - 1 := i]\<rparr>"

fun TransitionInvocation ::
    "Attempt option \<Rightarrow> uint64 \<Rightarrow> InvocationState \<Rightarrow> attempt_error + Attempt" where
  "TransitionInvocation None q n = Inl AttemptNilReceiver"
| "TransitionInvocation (Some a) q n =
     (if att_invocations a = [] then Inl AttemptNoInvocations
      else case current_invocation a of
        Inl e \<Rightarrow> Inl e
      | Inr current \<Rightarrow>
          if inv_sequence current \<noteq> q then Inl (AttemptSequenceNotCurrent q)
          else case Invocation_withTransition current n of
            Inl e \<Rightarrow> Inl e
          | Inr updated \<Rightarrow> Inr (replace_last a updated))"

fun MarkInvocationRuntimeArtifactsExpected ::
    "Attempt option \<Rightarrow> uint64 \<Rightarrow> attempt_error + Attempt" where
  "MarkInvocationRuntimeArtifactsExpected None q = Inl AttemptNoInvocations"
| "MarkInvocationRuntimeArtifactsExpected (Some a) q =
     (if att_invocations a = [] then Inl AttemptNoInvocations
      else let i = last (att_invocations a)
        in if inv_sequence i \<noteq> q \<or> inv_state i \<noteq> InvocationRunning \<or> inv_artifacts i
           then Inl AttemptArtifactsBoundary
           else Inr (replace_last a (i\<lparr>inv_artifacts := True\<rparr>)))"

section \<open>Operation sequences\<close>

text \<open>The exported mutators as values, so that a history of an attempt is a list of them.\<close>

datatype attempt_op =
    OpTransition AttemptState
  | OpAppendRetry Invocation
  | OpAppendExtract Invocation
  | OpAppendRepair Invocation
  | OpTransitionInvocation uint64 InvocationState
  | OpMarkArtifacts uint64

fun attempt_apply :: "attempt_op \<Rightarrow> Attempt \<Rightarrow> attempt_error + Attempt" where
  "attempt_apply (OpTransition n) a = Attempt_Transition (Some a) n"
| "attempt_apply (OpAppendRetry i) a = AppendRetryInvocation (Some a) i"
| "attempt_apply (OpAppendExtract i) a = AppendExtractInvocation (Some a) i"
| "attempt_apply (OpAppendRepair i) a = AppendRepairInvocation (Some a) i"
| "attempt_apply (OpTransitionInvocation q n) a = TransitionInvocation (Some a) q n"
| "attempt_apply (OpMarkArtifacts q) a = MarkInvocationRuntimeArtifactsExpected (Some a) q"

text \<open>
  An invocation outside an attempt comes from \<open>NewInvocation\<close> or is a copy that \<open>Invocations\<close>
  returned; one that an append accepts is queued, and a queued one never carries the artifacts
  mark.
\<close>

fun op_fresh :: "attempt_op \<Rightarrow> bool" where
  "op_fresh (OpAppendRetry i) = (inv_state i = InvocationQueued \<longrightarrow> \<not> inv_artifacts i)"
| "op_fresh (OpAppendExtract i) = (inv_state i = InvocationQueued \<longrightarrow> \<not> inv_artifacts i)"
| "op_fresh (OpAppendRepair i) = (inv_state i = InvocationQueued \<longrightarrow> \<not> inv_artifacts i)"
| "op_fresh _ = True"

inductive attempt_reachable :: "Attempt \<Rightarrow> bool" where
  new: "NewAttempt i provider initial = Inr a \<Longrightarrow> \<not> inv_artifacts initial \<Longrightarrow>
    attempt_reachable a"
| step: "attempt_reachable a \<Longrightarrow> op_fresh op \<Longrightarrow> attempt_apply op a = Inr a' \<Longrightarrow>
    attempt_reachable a'"

text \<open>The successful operations of a list, run in order; a failed one stops the history.\<close>

fun attempt_run :: "attempt_op list \<Rightarrow> Attempt \<Rightarrow> attempt_error + Attempt" where
  "attempt_run [] a = Inr a"
| "attempt_run (op # ops) a =
     (case attempt_apply op a of Inl e \<Rightarrow> Inl e | Inr a' \<Rightarrow> attempt_run ops a')"

section \<open>The invariant\<close>

text \<open>
  The second slot is exclusive: a retry follows a failed initial invocation, a repair or an
  extraction trailer a succeeded one, and the phase of the attempt fixes which is possible.
\<close>

fun attempt_shape :: "AttemptState \<Rightarrow> Invocation list \<Rightarrow> bool" where
  "attempt_shape s [i] \<longleftrightarrow>
     inv_at 1 InvocationInitial i \<and>
     (s = AttemptQueued \<longrightarrow> inv_state i = InvocationQueued) \<and>
     (s \<in> {AttemptValidating, AttemptRepairing, AttemptSucceeded} \<longrightarrow>
        inv_state i = InvocationSucceeded)"
| "attempt_shape s [i, l] \<longleftrightarrow>
     inv_at 1 InvocationInitial i \<and> inv_sequence l = 2 \<and> s \<noteq> AttemptQueued \<and>
     (inv_purpose l = InvocationRetry \<and> inv_state i = InvocationFailed \<and>
        s \<noteq> AttemptRepairing \<and>
        (s \<in> {AttemptValidating, AttemptSucceeded} \<longrightarrow> inv_state l = InvocationSucceeded) \<or>
      inv_purpose l = InvocationRepair \<and> inv_state i = InvocationSucceeded \<and>
        s \<noteq> AttemptRunning \<and>
        (s \<in> {AttemptValidating, AttemptSucceeded} \<longrightarrow> inv_state l = InvocationSucceeded) \<or>
      inv_purpose l = InvocationExtract \<and> inv_state i = InvocationSucceeded \<and>
        s \<notin> {AttemptRunning, AttemptRepairing} \<and>
        (s = AttemptSucceeded \<longrightarrow> terminalInvocationState (inv_state l)))"
| "attempt_shape _ _ \<longleftrightarrow> False"

definition invocation_ok :: "Invocation \<Rightarrow> bool" where
  [inv_simps]: "invocation_ok i \<longleftrightarrow>
     InvocationPurpose_Valid (inv_purpose i) \<and> InvocationState_Valid (inv_state i) \<and>
     (inv_state i = InvocationQueued \<longrightarrow> \<not> inv_artifacts i)"

definition attempt_inv :: "Attempt \<Rightarrow> bool" where
  "attempt_inv a \<longleftrightarrow>
     AttemptID_id.valid_id (att_id a) \<and> AttemptState_Valid (att_state a) \<and>
     att_provider a \<noteq> '''' \<and> TrimSpace (att_provider a) = att_provider a \<and>
     attempt_shape (att_state a) (att_invocations a) \<and>
     (\<forall>i \<in> set (att_invocations a). invocation_ok i)"

lemma attempt_shape_cases:
  assumes "attempt_shape s invs"
  obtains (one) i where "invs = [i]" | (two) i l where "invs = [i, l]"
  using assms by (induction s invs rule: attempt_shape.induct) auto

lemma NewAttempt_inv:
  assumes "NewAttempt i provider initial = Inr a" "\<not> inv_artifacts initial"
  shows "attempt_inv a"
proof -
  obtain x where "ParseAttemptID (AttemptID_String i) = Inr x"
    using assms(1) by (auto simp: NewAttempt_def split: sum.splits)
  then have "AttemptID_id.valid_id i"
    using AttemptID_id.parse_str [of i] by (simp add: is_ok_iff)
  then show ?thesis
    using assms by (auto simp: NewAttempt_def Let_def attempt_inv_def inv_simps inv_is_def inv_at_def
        AttemptState_Valid_def InvocationState_Valid_def InvocationPurpose_Valid_def
        split: sum.splits if_splits)
qed

lemma Attempt_Transition_Inr:
  "Attempt_Transition (Some a) n = Inr a' \<longleftrightarrow>
     AttemptState_CanTransition (att_state a) n \<and> attempt_guard a n = None \<and>
     a' = a\<lparr>att_state := n\<rparr>"
  by (auto split: option.splits)

lemmas attempt_defs = inv_is_def inv_at_def attempt_guard_def validating_guard_def
  succeeded_guard_def repairing_guard_def latestReportInvocation_def
  InvocationPurpose_CarriesRoleReport_def

lemma Attempt_Transition_shape:
  assumes "AttemptState_CanTransition (att_state a) n" "attempt_guard a n = None"
    and "attempt_shape (att_state a) (att_invocations a)"
  shows "attempt_shape n (att_invocations a)"
  using assms(3)
proof (cases rule: attempt_shape_cases)
  case (one i)
  then show ?thesis
    using assms by (cases "att_state a") (auto simp: attempt_defs split: if_splits)
next
  case (two i l)
  then show ?thesis
    using assms by (cases "att_state a") (auto simp: attempt_defs split: if_splits)
qed

lemma Attempt_Transition_inv:
  assumes "Attempt_Transition (Some a) n = Inr a'" "attempt_inv a"
  shows "attempt_inv a'"
  using assms Attempt_Transition_shape [of a n] AttemptState_can_valid
  unfolding Attempt_Transition_Inr by (auto simp: attempt_inv_def)

lemma append_ops_Inr:
  "AppendRetryInvocation (Some a) i = Inr a' \<Longrightarrow>
    \<exists>i0. a' = append_invocation a i \<and> att_invocations a = [i0] \<and> att_state a = AttemptRunning \<and>
      inv_is 1 InvocationInitial InvocationFailed i0 \<and> inv_is 2 InvocationRetry InvocationQueued i"
  "AppendExtractInvocation (Some a) i = Inr a' \<Longrightarrow>
    \<exists>i0. a' = append_invocation a i \<and> att_invocations a = [i0] \<and> att_state a = AttemptValidating \<and>
      inv_is 1 InvocationInitial InvocationSucceeded i0 \<and>
      inv_is 2 InvocationExtract InvocationQueued i"
  "AppendRepairInvocation (Some a) i = Inr a' \<Longrightarrow>
    \<exists>i0. a' = append_invocation a i \<and> att_invocations a = [i0] \<and> att_state a = AttemptRepairing \<and>
      inv_is 1 InvocationInitial InvocationSucceeded i0 \<and>
      inv_is 2 InvocationRepair InvocationQueued i"
  by (auto split: if_splits simp: length_Suc_conv)

lemma purposes_valid [simp]:
  "InvocationPurpose_Valid InvocationInitial" "InvocationPurpose_Valid InvocationRetry"
  "InvocationPurpose_Valid InvocationRepair" "InvocationPurpose_Valid InvocationExtract"
  "InvocationState_Valid InvocationQueued"
  by (simp_all add: InvocationPurpose_Valid_def InvocationState_Valid_def)

lemma append_invocation_inv:
  "attempt_inv a \<Longrightarrow> att_invocations a = [i0] \<Longrightarrow> attempt_shape (att_state a) [i0, i] \<Longrightarrow>
    invocation_ok i \<Longrightarrow> attempt_inv (append_invocation a i)"
  by (auto simp: attempt_inv_def append_invocation_def)

lemma append_retry_inv:
  assumes "AppendRetryInvocation (Some a) i = Inr a'" "attempt_inv a"
    and "inv_state i = InvocationQueued \<longrightarrow> \<not> inv_artifacts i"
  shows "attempt_inv a'"
proof -
  obtain i0 where "a' = append_invocation a i" "att_invocations a = [i0]"
    "att_state a = AttemptRunning" "inv_is 1 InvocationInitial InvocationFailed i0"
    "inv_is 2 InvocationRetry InvocationQueued i"
    using append_ops_Inr(1) [OF assms(1)] by blast
  then show ?thesis
    using append_invocation_inv [of a i0 i] assms by (simp add: inv_is_def inv_at_def inv_simps)
qed

lemma append_extract_inv:
  assumes "AppendExtractInvocation (Some a) i = Inr a'" "attempt_inv a"
    and "inv_state i = InvocationQueued \<longrightarrow> \<not> inv_artifacts i"
  shows "attempt_inv a'"
proof -
  obtain i0 where "a' = append_invocation a i" "att_invocations a = [i0]"
    "att_state a = AttemptValidating" "inv_is 1 InvocationInitial InvocationSucceeded i0"
    "inv_is 2 InvocationExtract InvocationQueued i"
    using append_ops_Inr(2) [OF assms(1)] by blast
  then show ?thesis
    using append_invocation_inv [of a i0 i] assms by (simp add: inv_is_def inv_at_def inv_simps)
qed

lemma append_repair_inv:
  assumes "AppendRepairInvocation (Some a) i = Inr a'" "attempt_inv a"
    and "inv_state i = InvocationQueued \<longrightarrow> \<not> inv_artifacts i"
  shows "attempt_inv a'"
proof -
  obtain i0 where "a' = append_invocation a i" "att_invocations a = [i0]"
    "att_state a = AttemptRepairing" "inv_is 1 InvocationInitial InvocationSucceeded i0"
    "inv_is 2 InvocationRepair InvocationQueued i"
    using append_ops_Inr(3) [OF assms(1)] by blast
  then show ?thesis
    using append_invocation_inv [of a i0 i] assms by (simp add: inv_is_def inv_at_def inv_simps)
qed

text \<open>Which invocation can move: the last one, and only one the phase allows.\<close>

lemma current_invocation_Inr:
  assumes "current_invocation a = Inr i" "attempt_shape (att_state a) (att_invocations a)"
  shows "att_invocations a = [i] \<and> att_state a = AttemptRunning \<or>
    (\<exists>i0. att_invocations a = [i0, i] \<and>
      (att_state a, inv_purpose i) \<in> {(AttemptRunning, InvocationRetry),
        (AttemptRepairing, InvocationRepair), (AttemptValidating, InvocationExtract)})"
  using assms(2)
proof (cases rule: attempt_shape_cases)
  case (one i')
  then show ?thesis
    using assms
    by (cases "att_state a")
      (auto simp: current_invocation_def inv_at_def Let_def split: if_splits)
next
  case (two i' l)
  then show ?thesis
    using assms
    by (cases "att_state a")
      (auto simp: current_invocation_def inv_at_def Let_def split: if_splits)
qed

lemma TransitionInvocation_Inr:
  "TransitionInvocation (Some a) q n = Inr a' \<Longrightarrow>
    \<exists>i. current_invocation a = Inr i \<and> inv_sequence i = q \<and>
      InvocationState_CanTransition (inv_state i) n \<and> a' = replace_last a (i\<lparr>inv_state := n\<rparr>)"
  by (auto simp: Invocation_withTransition_def split: if_splits sum.splits option.splits)

lemma TransitionInvocation_inv:
  assumes "TransitionInvocation (Some a) q n = Inr a'" "attempt_inv a"
  shows "attempt_inv a'"
proof -
  obtain i where cur: "current_invocation a = Inr i"
    and can: "InvocationState_CanTransition (inv_state i) n"
    and a': "a' = replace_last a (i\<lparr>inv_state := n\<rparr>)"
    using TransitionInvocation_Inr [OF assms(1)] by blast
  have shape: "attempt_shape (att_state a) (att_invocations a)"
    using assms(2) by (simp add: attempt_inv_def)
  have "n \<noteq> InvocationQueued" using can by (cases "inv_state i") auto
  moreover have "InvocationState_Valid n" using can InvocationState_can_valid by blast
  ultimately show ?thesis
    using current_invocation_Inr [OF cur shape] assms(2)
    by (auto simp: a' replace_last_def attempt_inv_def inv_simps inv_at_def)
qed

lemma MarkArtifacts_Inr:
  "MarkInvocationRuntimeArtifactsExpected (Some a) q = Inr a' \<Longrightarrow>
    att_invocations a \<noteq> [] \<and> inv_sequence (last (att_invocations a)) = q \<and>
    inv_state (last (att_invocations a)) = InvocationRunning \<and>
    \<not> inv_artifacts (last (att_invocations a)) \<and>
    a' = replace_last a ((last (att_invocations a))\<lparr>inv_artifacts := True\<rparr>)"
  by (auto simp: Let_def split: if_splits)

lemma MarkArtifacts_inv:
  assumes "MarkInvocationRuntimeArtifactsExpected (Some a) q = Inr a'" "attempt_inv a"
  shows "attempt_inv a'"
proof -
  note M = MarkArtifacts_Inr [OF assms(1)]
  have "attempt_shape (att_state a) (att_invocations a)"
    using assms(2) by (simp add: attempt_inv_def)
  then show ?thesis
  proof (cases rule: attempt_shape_cases)
    case (one i)
    then show ?thesis using M assms(2)
      by (simp add: replace_last_def attempt_inv_def inv_simps inv_at_def)
  next
    case (two i l)
    then show ?thesis using M assms(2)
      by (auto simp: replace_last_def attempt_inv_def inv_simps inv_at_def)
  qed
qed

lemma attempt_apply_inv:
  assumes "attempt_inv a" "op_fresh op" "attempt_apply op a = Inr a'"
  shows "attempt_inv a'"
proof (cases op)
  case (OpTransition n)
  then show ?thesis using assms Attempt_Transition_inv by (simp only: attempt_apply.simps)
next
  case (OpTransitionInvocation q n)
  then show ?thesis using assms TransitionInvocation_inv by (simp only: attempt_apply.simps)
next
  case (OpMarkArtifacts q)
  then show ?thesis using assms MarkArtifacts_inv by (simp only: attempt_apply.simps)
next
  case (OpAppendRetry i)
  then show ?thesis using assms append_retry_inv
    by (simp only: attempt_apply.simps op_fresh.simps)
next
  case (OpAppendExtract i)
  then show ?thesis using assms append_extract_inv
    by (simp only: attempt_apply.simps op_fresh.simps)
next
  case (OpAppendRepair i)
  then show ?thesis using assms append_repair_inv
    by (simp only: attempt_apply.simps op_fresh.simps)
qed

lemma attempt_reachable_inv: "attempt_reachable a \<Longrightarrow> attempt_inv a"
  by (induction rule: attempt_reachable.induct) (auto intro: NewAttempt_inv attempt_apply_inv)

section \<open>Every history is short\<close>

text \<open>
  A rank of the phase, one for each invocation (its lifecycle and the artifacts mark) and a
  budget for the free second slot. Every successful operation lowers their sum, which starts at
  twelve.
\<close>

fun phase_rank :: "AttemptState \<Rightarrow> nat \<Rightarrow> nat" where
  "phase_rank AttemptQueued n = 5"
| "phase_rank AttemptRunning n = 4"
| "phase_rank AttemptValidating n = (if n < 2 then 3 else 1)"
| "phase_rank AttemptRepairing n = 2"
| "phase_rank _ n = 0"

definition invocation_rank :: "Invocation \<Rightarrow> nat" where
  "invocation_rank i = InvocationState_rank (inv_state i) + (if inv_artifacts i then 0 else 1)"

definition attempt_rank :: "Attempt \<Rightarrow> nat" where
  "attempt_rank a =
     phase_rank (att_state a) (length (att_invocations a)) +
     sum_list (map invocation_rank (att_invocations a)) + 4 * (2 - length (att_invocations a))"

lemma new_attempt_rank: "NewAttempt i provider initial = Inr a \<Longrightarrow> attempt_rank a \<le> 12"
  by (auto simp: NewAttempt_def Let_def attempt_rank_def invocation_rank_def inv_is_def
      split: sum.splits if_splits)

lemma transition_rank:
  assumes "Attempt_Transition (Some a) n = Inr a'" "attempt_inv a"
  shows "attempt_rank a' < attempt_rank a"
proof -
  have can: "AttemptState_CanTransition (att_state a) n" and a': "a' = a\<lparr>att_state := n\<rparr>"
    and guard: "attempt_guard a n = None"
    and shape: "attempt_shape (att_state a) (att_invocations a)"
    using assms unfolding Attempt_Transition_Inr attempt_inv_def by auto
  have "phase_rank n (length (att_invocations a))
      < phase_rank (att_state a) (length (att_invocations a))"
    using shape
  proof (cases rule: attempt_shape_cases)
    case (one i)
    then show ?thesis using can guard by (cases "att_state a") (auto simp: attempt_defs)
  next
    case (two i l)
    then show ?thesis using can guard by (cases "att_state a") (auto simp: attempt_defs)
  qed
  then show ?thesis by (simp add: attempt_rank_def a')
qed

lemma append_rank:
  assumes "a' = append_invocation a i" "att_invocations a = [i0]" "inv_state i = InvocationQueued"
  shows "attempt_rank a' < attempt_rank a"
  using assms
  by (cases "att_state a")
    (auto simp: attempt_rank_def append_invocation_def invocation_rank_def)

lemma transition_invocation_rank:
  assumes "TransitionInvocation (Some a) q n = Inr a'" "attempt_inv a"
  shows "attempt_rank a' < attempt_rank a"
proof -
  obtain i where cur: "current_invocation a = Inr i"
    and can: "InvocationState_CanTransition (inv_state i) n"
    and a': "a' = replace_last a (i\<lparr>inv_state := n\<rparr>)"
    using TransitionInvocation_Inr [OF assms(1)] by blast
  have "InvocationState_rank n < InvocationState_rank (inv_state i)"
    using can by (rule invocation_states.rank_descends)
  then show ?thesis
    using current_invocation_Inr [OF cur] assms(2)
    by (auto simp: attempt_inv_def a' attempt_rank_def replace_last_def invocation_rank_def)
qed

lemma mark_rank:
  assumes "MarkInvocationRuntimeArtifactsExpected (Some a) q = Inr a'" "attempt_inv a"
  shows "attempt_rank a' < attempt_rank a"
proof -
  note M = MarkArtifacts_Inr [OF assms(1)]
  have "attempt_shape (att_state a) (att_invocations a)"
    using assms(2) by (simp add: attempt_inv_def)
  then show ?thesis
    by (cases rule: attempt_shape_cases)
      (use M in \<open>auto simp: attempt_rank_def replace_last_def invocation_rank_def\<close>)
qed

lemma attempt_apply_rank:
  assumes "attempt_apply op a = Inr a'" "attempt_inv a"
  shows "attempt_rank a' < attempt_rank a"
proof (cases op)
  case (OpTransition n)
  then show ?thesis using assms transition_rank by (simp only: attempt_apply.simps)
next
  case (OpTransitionInvocation q n)
  then show ?thesis using assms transition_invocation_rank by (simp only: attempt_apply.simps)
next
  case (OpMarkArtifacts q)
  then show ?thesis using assms mark_rank by (simp only: attempt_apply.simps)
next
  case (OpAppendRetry i)
  then have "AppendRetryInvocation (Some a) i = Inr a'" using assms(1) by (simp only: attempt_apply.simps)
  then show ?thesis using append_ops_Inr(1) append_rank unfolding inv_is_def by blast
next
  case (OpAppendExtract i)
  then have "AppendExtractInvocation (Some a) i = Inr a'" using assms(1) by (simp only: attempt_apply.simps)
  then show ?thesis using append_ops_Inr(2) append_rank unfolding inv_is_def by blast
next
  case (OpAppendRepair i)
  then have "AppendRepairInvocation (Some a) i = Inr a'" using assms(1) by (simp only: attempt_apply.simps)
  then show ?thesis using append_ops_Inr(3) append_rank unfolding inv_is_def by blast
qed

lemma attempt_run_rank:
  "attempt_run ops a = Inr a' \<Longrightarrow> attempt_inv a \<Longrightarrow> \<forall>op \<in> set ops. op_fresh op \<Longrightarrow>
    attempt_inv a' \<and> length ops + attempt_rank a' \<le> attempt_rank a"
proof (induction ops arbitrary: a)
  case (Cons op ops)
  then obtain a1 where step: "attempt_apply op a = Inr a1" and rest: "attempt_run ops a1 = Inr a'"
    by (auto split: sum.splits)
  have "attempt_inv a1" using attempt_apply_inv step Cons.prems by auto
  moreover have "attempt_rank a1 < attempt_rank a"
    using attempt_apply_rank step Cons.prems by auto
  ultimately show ?case using Cons.IH [OF rest] Cons.prems by auto
qed simp

section \<open>No out-of-range index, and nothing after success\<close>

lemma attempt_guard_no_panic:
  "att_invocations a \<noteq> [] \<Longrightarrow> attempt_guard a n \<noteq> Some AttemptIndexPanic"
  by (cases n) (simp_all add: attempt_guard_def validating_guard_def succeeded_guard_def
      repairing_guard_def split: option.split list.split)

lemma current_invocation_no_panic:
  "att_invocations a \<noteq> [] \<Longrightarrow> current_invocation a \<noteq> Inl AttemptIndexPanic"
  by (cases "att_state a") (simp_all add: current_invocation_def Let_def split: list.split)

lemma attempt_no_panic:
  assumes "attempt_inv a"
  shows "attempt_apply op a \<noteq> Inl AttemptIndexPanic"
proof -
  have "attempt_shape (att_state a) (att_invocations a)"
    using assms by (simp add: attempt_inv_def)
  then have ne: "att_invocations a \<noteq> []" by (cases rule: attempt_shape_cases) auto
  show ?thesis
  proof (cases op)
    case (OpTransition n)
    then show ?thesis using attempt_guard_no_panic [OF ne, of n] by (auto split: option.split)
  next
    case (OpTransitionInvocation q n)
    then show ?thesis using current_invocation_no_panic [OF ne]
      by (auto simp: Invocation_withTransition_def split: option.split sum.split)
  qed (simp_all add: Let_def)
qed

lemma attempt_success_final:
  assumes "attempt_inv a" "att_state a = AttemptSucceeded"
  shows "\<not> is_ok (attempt_apply op a)"
proof
  assume "is_ok (attempt_apply op a)"
  then obtain a' where *: "attempt_apply op a = Inr a'" by (auto simp: is_ok_iff)
  have shape: "attempt_shape AttemptSucceeded (att_invocations a)"
    using assms by (simp add: attempt_inv_def)
  show False
    using * assms(2) shape
    by (cases op; cases rule: attempt_shape_cases [OF shape])
      (auto simp: current_invocation_def Attempt_Transition_Inr terminalInvocationState_def Let_def
        simp del: Attempt_Transition.simps split: if_splits)
qed

lemma attempt_run_reachable:
  "attempt_reachable a \<Longrightarrow> \<forall>op \<in> set ops. op_fresh op \<Longrightarrow> attempt_run ops a = Inr a' \<Longrightarrow>
    attempt_reachable a'"
  by (induction ops arbitrary: a) (auto intro: attempt_reachable.step split: sum.splits)

end
