(* ===== verification/Failures.thy ===== *)
theory Failures
  imports States
begin

text \<open>
  Typed failures (\<open>internal/domain/failure.go\<close>): the closed failure classes, the
  constructor with its guards, the accessors that tolerate a nil receiver, and the two
  policy predicates on classes. The underlying cause is an opaque value of type \<open>'c\<close>.
\<close>

datatype FailureClass =
    FailureProviderUnavailable
  | FailureInvalidOutput
  | FailureTimeout
  | FailureAuthentication
  | FailureQuota
  | FailureRateLimit
  | FailureSecurityPolicy
  | FailureConfiguration
  | FailureArtifact
  | FailureInternal
  | FailureCancelled
  | FailureClassOther string

fun FailureClass_string :: "FailureClass \<Rightarrow> string" where
  "FailureClass_string FailureProviderUnavailable = ''provider_unavailable''"
| "FailureClass_string FailureInvalidOutput = ''invalid_provider_output''"
| "FailureClass_string FailureTimeout = ''timeout''"
| "FailureClass_string FailureAuthentication = ''auth''"
| "FailureClass_string FailureQuota = ''quota''"
| "FailureClass_string FailureRateLimit = ''rate_limit''"
| "FailureClass_string FailureSecurityPolicy = ''security_policy_violation''"
| "FailureClass_string FailureConfiguration = ''configuration_violation''"
| "FailureClass_string FailureArtifact = ''artifact_failure''"
| "FailureClass_string FailureInternal = ''mulgae_internal_error''"
| "FailureClass_string FailureCancelled = ''user_cancelled''"
| "FailureClass_string (FailureClassOther s) = s"

definition FailureClass_Valid :: "FailureClass \<Rightarrow> bool" where
  "FailureClass_Valid v = oneOf v
     [FailureProviderUnavailable, FailureInvalidOutput, FailureTimeout,
      FailureAuthentication, FailureQuota, FailureRateLimit, FailureSecurityPolicy,
      FailureConfiguration, FailureArtifact, FailureInternal, FailureCancelled]"

definition FailureClass_of :: "string \<Rightarrow> FailureClass" where
  "FailureClass_of = from_wire FailureClass_string
     [FailureProviderUnavailable, FailureInvalidOutput, FailureTimeout,
      FailureAuthentication, FailureQuota, FailureRateLimit, FailureSecurityPolicy,
      FailureConfiguration, FailureArtifact, FailureInternal, FailureCancelled]
     FailureClassOther"

interpretation FailureClass_enum: string_enum FailureClass_string
    "[FailureProviderUnavailable, FailureInvalidOutput, FailureTimeout,
      FailureAuthentication, FailureQuota, FailureRateLimit, FailureSecurityPolicy,
      FailureConfiguration, FailureArtifact, FailureInternal, FailureCancelled]"
    FailureClassOther FailureClass_Valid
  by unfold_locales (auto simp: FailureClass_Valid_def)

record 'c Failure =
  failure_stage :: string
  failure_class :: FailureClass
  failure_reason :: string
  failure_cause :: "'c option"

datatype failure_error = FailureStageEmpty | FailureClassUnknown string | FailureReasonEmpty

definition NewFailure ::
    "string \<Rightarrow> FailureClass \<Rightarrow> string \<Rightarrow> 'c option \<Rightarrow> failure_error + 'c Failure" where
  "NewFailure stage cls reason cause =
     (if TrimSpace stage = '''' then Inl FailureStageEmpty
      else if \<not> FailureClass_Valid cls then Inl (FailureClassUnknown (FailureClass_string cls))
      else if TrimSpace reason = '''' then Inl FailureReasonEmpty
      else Inr \<lparr>failure_stage = stage, failure_class = cls, failure_reason = reason,
                failure_cause = cause\<rparr>)"

fun Failure_Error :: "'c Failure option \<Rightarrow> string" where
  "Failure_Error None = ''<nil>''"
| "Failure_Error (Some f) =
     failure_stage f @ '': '' @ FailureClass_string (failure_class f) @ '': '' @ failure_reason f"

fun Failure_Unwrap :: "'c Failure option \<Rightarrow> 'c option" where
  "Failure_Unwrap None = None"
| "Failure_Unwrap (Some f) = failure_cause f"

fun Failure_Stage :: "'c Failure option \<Rightarrow> string" where
  "Failure_Stage None = ''''"
| "Failure_Stage (Some f) = failure_stage f"

fun Failure_Class :: "'c Failure option \<Rightarrow> FailureClass" where
  "Failure_Class None = FailureClassOther ''''"
| "Failure_Class (Some f) = failure_class f"

fun Failure_Reason :: "'c Failure option \<Rightarrow> string" where
  "Failure_Reason None = ''''"
| "Failure_Reason (Some f) = failure_reason f"

definition FailureClass_RepairAllowed :: "FailureClass \<Rightarrow> bool" where
  "FailureClass_RepairAllowed c \<longleftrightarrow> c = FailureInvalidOutput"

definition FailureClass_ProviderFault :: "FailureClass \<Rightarrow> bool" where
  "FailureClass_ProviderFault c \<longleftrightarrow>
     c \<in> set [FailureProviderUnavailable, FailureInvalidOutput, FailureTimeout,
              FailureAuthentication, FailureQuota, FailureRateLimit]"

lemma ProviderFault_Valid: "FailureClass_ProviderFault c \<Longrightarrow> FailureClass_Valid c"
  by (auto simp: FailureClass_ProviderFault_def FailureClass_Valid_def)

text \<open>A failure that was constructed has a valid class and non-blank stage and reason.\<close>

definition Failure_ok :: "'c Failure \<Rightarrow> bool" where
  [inv_simps]: "Failure_ok f \<longleftrightarrow>
     FailureClass_Valid (failure_class f) \<and> TrimSpace (failure_stage f) \<noteq> '''' \<and>
     TrimSpace (failure_reason f) \<noteq> ''''"

lemma NewFailure_ok:
  "NewFailure stage cls reason cause = Inr f \<longleftrightarrow>
     f = \<lparr>failure_stage = stage, failure_class = cls, failure_reason = reason,
          failure_cause = cause\<rparr> \<and> Failure_ok f"
  by (auto simp: NewFailure_def inv_simps)

end
