(* ===== verification/Sha256.thy ===== *)
theory Sha256
  imports Go_Strings
begin

text \<open>
  \<open>crypto/sha256\<close> and the length-prefixed encoding of a list of strings that the program feeds
  to it (\<open>fingerprint\<close> in \<open>internal/domain/finding.go\<close>, the composition fingerprint in
  \<open>composition.go\<close>). The hash is FIPS 180-4 on 32-bit words, executable; the theorems use only
  the length of the digest and that it is a function of its input.
\<close>

unbundle bit_operations_syntax

section \<open>The compression function\<close>

type_synonym word32 = "32 word"

text \<open>A 256-bit numeral holds eight words, the first in the highest bits.\<close>

definition eight_words :: "nat \<Rightarrow> word32 list" where
  "eight_words n = map (\<lambda>i. of_nat (n div 2 ^ (32 * i))) (rev [0..<8])"

definition sha_K :: "word32 list" where
  "sha_K = concat (map eight_words
     [0x428a2f9871374491b5c0fbcfe9b5dba53956c25b59f111f1923f82a4ab1c5ed5,
      0xd807aa9812835b01243185be550c7dc372be5d7480deb1fe9bdc06a7c19bf174,
      0xe49b69c1efbe47860fc19dc6240ca1cc2de92c6f4a7484aa5cb0a9dc76f988da,
      0x983e5152a831c66db00327c8bf597fc7c6e00bf3d5a7914706ca635114292967,
      0x27b70a852e1b21384d2c6dfc53380d13650a7354766a0abb81c2c92e92722c85,
      0xa2bfe8a1a81a664bc24b8b70c76c51a3d192e819d6990624f40e3585106aa070,
      0x19a4c1161e376c082748774c34b0bcb5391c0cb34ed8aa4a5b9cca4f682e6ff3,
      0x748f82ee78a5636f84c878148cc7020890befffaa4506cebbef9a3f7c67178f2])"

record sha_state =
  sha_a :: word32
  sha_b :: word32
  sha_c :: word32
  sha_d :: word32
  sha_e :: word32
  sha_f :: word32
  sha_g :: word32
  sha_h :: word32

definition sha_init :: sha_state where
  "sha_init =
     \<lparr>sha_a = 0x6a09e667, sha_b = 0xbb67ae85, sha_c = 0x3c6ef372, sha_d = 0xa54ff53a,
      sha_e = 0x510e527f, sha_f = 0x9b05688c, sha_g = 0x1f83d9ab, sha_h = 0x5be0cd19\<rparr>"

definition rotr32 :: "nat \<Rightarrow> word32 \<Rightarrow> word32" where
  "rotr32 n w = drop_bit n w OR push_bit (32 - n) w"

definition sha_schedule_step :: "word32 list \<Rightarrow> nat \<Rightarrow> word32 list" where
  "sha_schedule_step w t =
     (let x = w ! (t - 15); y = w ! (t - 2);
          s0 = rotr32 7 x XOR rotr32 18 x XOR drop_bit 3 x;
          s1 = rotr32 17 y XOR rotr32 19 y XOR drop_bit 10 y
      in w @ [w ! (t - 16) + s0 + w ! (t - 7) + s1])"

definition sha_schedule :: "word32 list \<Rightarrow> word32 list" where
  "sha_schedule block = foldl sha_schedule_step block [16..<64]"

definition sha_round :: "sha_state \<Rightarrow> word32 \<times> word32 \<Rightarrow> sha_state" where
  "sha_round s kw =
     (let e = sha_e s; a = sha_a s;
          S1 = rotr32 6 e XOR rotr32 11 e XOR rotr32 25 e;
          ch = (e AND sha_f s) XOR (NOT e AND sha_g s);
          t1 = sha_h s + S1 + ch + fst kw + snd kw;
          S0 = rotr32 2 a XOR rotr32 13 a XOR rotr32 22 a;
          maj = (a AND sha_b s) XOR (a AND sha_c s) XOR (sha_b s AND sha_c s)
      in \<lparr>sha_a = t1 + (S0 + maj), sha_b = a, sha_c = sha_b s, sha_d = sha_c s,
          sha_e = sha_d s + t1, sha_f = e, sha_g = sha_f s, sha_h = sha_g s\<rparr>)"

definition sha_compress :: "sha_state \<Rightarrow> word32 list \<Rightarrow> sha_state" where
  "sha_compress s block =
     (let r = foldl sha_round s (zip sha_K (sha_schedule block))
      in \<lparr>sha_a = sha_a s + sha_a r, sha_b = sha_b s + sha_b r, sha_c = sha_c s + sha_c r,
          sha_d = sha_d s + sha_d r, sha_e = sha_e s + sha_e r, sha_f = sha_f s + sha_f r,
          sha_g = sha_g s + sha_g r, sha_h = sha_h s + sha_h r\<rparr>)"

section \<open>Bytes, padding and the digest\<close>

text \<open>Big-endian bytes of a number: \<open>be_bytes n x\<close> are the \<open>n\<close> low ones.\<close>

fun be_bytes :: "nat \<Rightarrow> nat \<Rightarrow> string" where
  "be_bytes 0 x = []"
| "be_bytes (Suc n) x = be_bytes n (x div 256) @ [char_of (x mod 256)]"

definition be_nat :: "string \<Rightarrow> nat" where
  "be_nat s = foldl (\<lambda>a c. 256 * a + of_char c) 0 s"

lemma length_be_bytes [simp]: "length (be_bytes n x) = n"
  by (induction n arbitrary: x) simp_all

lemma be_nat_be_bytes: "be_nat (be_bytes n x) = x mod 256 ^ n"
proof (induction n arbitrary: x)
  case 0
  then show ?case by (simp add: be_nat_def)
next
  case (Suc n)
  have "be_nat (be_bytes (Suc n) x) = 256 * be_nat (be_bytes n (x div 256)) + x mod 256"
    by (simp add: be_nat_def)
  also have "\<dots> = 256 * ((x div 256) mod 256 ^ n) + x mod 256"
    by (simp add: Suc)
  also have "\<dots> = x mod 256 ^ Suc n"
    by (simp add: mod_mult2_eq)
  finally show ?case .
qed

fun words_of_bytes :: "string \<Rightarrow> word32 list" where
  "words_of_bytes (a # b # c # d # s) = of_nat (be_nat [a, b, c, d]) # words_of_bytes s"
| "words_of_bytes _ = []"

definition sha_pad :: "string \<Rightarrow> string" where
  "sha_pad m =
     m @ [CHR 0x80] @ replicate ((119 - length m mod 64) mod 64) (CHR 0x00) @
     be_bytes 8 (8 * length m)"

function sha_blocks :: "sha_state \<Rightarrow> word32 list \<Rightarrow> sha_state" where
  "sha_blocks s ws = (if ws = [] then s else sha_blocks (sha_compress s (take 16 ws)) (drop 16 ws))"
  by pat_completeness auto
termination
  by (relation "measure (\<lambda>(s, ws). length ws)") auto

declare sha_blocks.simps [simp del]

definition sha_bytes :: "sha_state \<Rightarrow> string" where
  "sha_bytes s = concat (map (\<lambda>w. be_bytes 4 (unat w))
     [sha_a s, sha_b s, sha_c s, sha_d s, sha_e s, sha_f s, sha_g s, sha_h s])"

definition sha256_sum :: "string \<Rightarrow> string" where
  "sha256_sum m = sha_bytes (sha_blocks sha_init (words_of_bytes (sha_pad m)))"

definition sha256_hex :: "string \<Rightarrow> string" where
  "sha256_hex m = hex_encode (map of_char (sha256_sum m))"

lemma length_sha256_sum [simp]: "length (sha256_sum m) = 32"
  by (simp add: sha256_sum_def sha_bytes_def)

lemma sha256_hex_shape:
  "length (sha256_hex m) = 64" "list_all is_lower_hex_byte (sha256_hex m)"
proof -
  show "length (sha256_hex m) = 64" by (simp add: sha256_hex_def)
  show "list_all is_lower_hex_byte (sha256_hex m)"
    unfolding sha256_hex_def by (rule hex_encode_lower_hex) (simp add: list_all_iff )
qed

lemma sha_pad_arith: "(l + (1 + ((119 - l mod 64) mod 64 + 8))) mod 64 = (0 :: nat)"
proof -
  define q where "q = l div 64"
  define r where "r = l mod 64"
  have l: "l = 64 * q + r" and r: "r < 64" by (simp_all add: q_def r_def)
  show ?thesis
  proof (cases "r \<le> 55")
    case True
    then have "(119 - r) mod 64 = 55 - r" by (simp add: mod_if)
    then have "l + (1 + ((119 - l mod 64) mod 64 + 8)) = 64 * (q + 1)"
      using l r True by simp
    then show ?thesis by (metis mod_mult_self1_is_0)
  next
    case False
    then have "(119 - r) mod 64 = 119 - r" by simp
    then have "l + (1 + ((119 - l mod 64) mod 64 + 8)) = 64 * (q + 2)"
      using l r False by simp
    then show ?thesis by (metis mod_mult_self1_is_0)
  qed
qed

lemma length_sha_pad: "length (sha_pad m) mod 64 = 0"
  using sha_pad_arith [of "length m"] by (simp add: sha_pad_def)

section \<open>Length-prefixed frames\<close>

text \<open>
  Each value is preceded by its length as eight big-endian bytes, so that the concatenation of
  frames determines the values: no two lists of values have the same encoding.
\<close>

definition frame :: "string \<Rightarrow> string" where
  "frame v = be_bytes 8 (length v) @ v"

definition frames :: "string list \<Rightarrow> string" where
  "frames vs = concat (map frame vs)"

definition sized :: "string \<Rightarrow> bool" where
  "sized v \<longleftrightarrow> length v < 256 ^ 8"

lemma frames_simps [simp]: "frames [] = []" "frames (v # vs) = frame v @ frames vs"
  by (simp_all add: frames_def)

lemma frames_append [simp]: "frames (us @ vs) = frames us @ frames vs"
  by (simp add: frames_def)

lemma frame_not_Nil [simp]: "frame v \<noteq> []"
  using length_be_bytes [of 8 "length v"] by (auto simp: frame_def simp del: length_be_bytes)

lemma frame_inject:
  assumes "sized u" "sized v" "frame u @ s = frame v @ t"
  shows "u = v \<and> s = t"
proof -
  from assms(3) have len: "be_bytes 8 (length u) = be_bytes 8 (length v)"
    and rest: "u @ s = v @ t"
    by (simp_all add: frame_def append_eq_append_conv)
  have "length u = length v"
    using arg_cong [OF len, of be_nat] assms(1,2) by (simp add: be_nat_be_bytes sized_def)
  with rest show ?thesis by simp
qed

lemma frames_inject:
  "frames us = frames vs \<Longrightarrow> \<forall>u \<in> set us. sized u \<Longrightarrow> \<forall>v \<in> set vs. sized v \<Longrightarrow> us = vs"
proof (induction us arbitrary: vs)
  case Nil
  then show ?case by (cases vs) auto
next
  case (Cons u us)
  then obtain v ws where vs: "vs = v # ws"
    by (cases vs) auto
  have "u = v \<and> frames us = frames ws"
    using Cons.prems by (intro frame_inject) (auto simp: vs)
  then show ?case using Cons vs by auto
qed

end
