(* ===== verification/Findings.thy ===== *)
theory Findings
  imports RoleTasks Sha256
begin

text \<open>
  Findings (\<open>internal/domain/finding.go\<close>): severities, the constructor and the validator, path
  and text normalisation, the fingerprint, and the deterministic order in which final
  identifiers are assigned. \<open>ul\<close> stands for the Unicode tables of \<open>strings.ToLower\<close>.
\<close>

section \<open>Severity and confidence\<close>

datatype Severity =
    SeverityInfo
  | SeverityLow
  | SeverityMedium
  | SeverityHigh
  | SeverityCritical
  | SeverityBlocker
  | SeverityOther string

fun Severity_string :: "Severity \<Rightarrow> string" where
  "Severity_string SeverityInfo = ''info''"
| "Severity_string SeverityLow = ''low''"
| "Severity_string SeverityMedium = ''medium''"
| "Severity_string SeverityHigh = ''high''"
| "Severity_string SeverityCritical = ''critical''"
| "Severity_string SeverityBlocker = ''blocker''"
| "Severity_string (SeverityOther s) = s"

fun Severity_Rank :: "Severity \<Rightarrow> int" where
  "Severity_Rank SeverityInfo = 0"
| "Severity_Rank SeverityLow = 1"
| "Severity_Rank SeverityMedium = 2"
| "Severity_Rank SeverityHigh = 3"
| "Severity_Rank SeverityCritical = 4"
| "Severity_Rank SeverityBlocker = 5"
| "Severity_Rank (SeverityOther s) = -1"

definition Severity_Valid :: "Severity \<Rightarrow> bool" where
  "Severity_Valid s \<longleftrightarrow> 0 \<le> Severity_Rank s"

lemma Severity_Rank_inject:
  "Severity_Valid a \<Longrightarrow> Severity_Rank a = Severity_Rank b \<longleftrightarrow> a = b"
  by (cases a; cases b) (auto simp: Severity_Valid_def)

datatype Confidence =
    ConfidenceLow
  | ConfidenceMedium
  | ConfidenceHigh
  | ConfidenceOther string

fun Confidence_string :: "Confidence \<Rightarrow> string" where
  "Confidence_string ConfidenceLow = ''low''"
| "Confidence_string ConfidenceMedium = ''medium''"
| "Confidence_string ConfidenceHigh = ''high''"
| "Confidence_string (ConfidenceOther s) = s"

definition Confidence_Valid :: "Confidence \<Rightarrow> bool" where
  "Confidence_Valid v = oneOf v
     [ConfidenceLow, ConfidenceMedium, ConfidenceHigh]"

definition Confidence_of :: "string \<Rightarrow> Confidence" where
  "Confidence_of = from_wire Confidence_string
     [ConfidenceLow, ConfidenceMedium, ConfidenceHigh]
     ConfidenceOther"

interpretation Confidence_enum: string_enum Confidence_string
    "[ConfidenceLow, ConfidenceMedium, ConfidenceHigh]"
    ConfidenceOther Confidence_Valid
  by unfold_locales (auto simp: Confidence_Valid_def)

section \<open>Data\<close>

record FindingInput =
  fi_Severity :: Severity
  fi_Path :: string
  fi_LineStart :: int64
  fi_Role :: Role
  fi_ProviderInstance :: string
  fi_Title :: string
  fi_Description :: string
  fi_Recommendation :: string
  fi_Confidence :: Confidence
  fi_Lifecycle :: FindingLifecycle
  fi_EvidenceState :: EvidenceState
  fi_NormalizedRuleCategory :: string
  fi_NormalizedEvidenceRegion :: string

record Finding =
  f_id :: string
  f_fingerprint :: string
  f_severity :: Severity
  f_path :: string
  f_lineStart :: int64
  f_role :: Role
  f_providerInstance :: string
  f_title :: string
  f_description :: string
  f_recommendation :: string
  f_confidence :: Confidence
  f_lifecycle :: FindingLifecycle
  f_evidenceState :: EvidenceState
  f_normalizedRuleCategory :: string
  f_normalizedEvidenceRegion :: string

datatype finding_error =
    FindingSeverityInvalid string
  | FindingPathUnsafe
  | FindingPathNoncanonical
  | FindingPathNotNormalized
  | FindingLineStartInvalid
  | FindingRoleInvalid string
  | FindingContentRequired
  | FindingStatesInvalid
  | FindingRegionRequired
  | FindingPathInvalid
  | FindingLineOrRoleInvalid
  | FindingContentEmpty
  | FindingInputsNotNormalized
  | FindingFingerprintMismatch
  | FindingCannotUpdate finding_error
  | FindingEvidenceInvalid string
  | FindingAt nat finding_error

section \<open>Normalisation and fingerprint\<close>

definition normalizeFindingPath :: "string \<Rightarrow> finding_error + string" where
  "normalizeFindingPath v =
     (if v = '''' \<or> ContainsAny v [CHR 0x5C, CHR 0x00, CHR 0x0D, CHR 0x0A] \<or> HasPrefix v ''/''
        then Inl FindingPathUnsafe
      else let normalized = PathClean v
        in if normalized = ''.'' \<or> normalized = ''..'' \<or> HasPrefix normalized ''../'' \<or>
              Contains v ''//'' \<or> HasSuffix v ''/'' then Inl FindingPathNoncanonical
           else if normalized \<noteq> v then Inl FindingPathNotNormalized
           else Inr normalized)"

definition normalizeFingerprintText :: "(string \<Rightarrow> string) \<Rightarrow> string \<Rightarrow> string" where
  "normalizeFingerprintText ul v = ToLower ul (Join (Fields v) '' '')"

definition fingerprint :: "string \<Rightarrow> string \<Rightarrow> string \<Rightarrow> string" where
  "fingerprint rule normalizedPath region = sha256_hex (frames [rule, normalizedPath, region])"

section \<open>Operations\<close>

definition blank :: "string \<Rightarrow> bool" where
  "blank s \<longleftrightarrow> TrimSpace s = ''''"

definition NewFinding :: "(string \<Rightarrow> string) \<Rightarrow> FindingInput \<Rightarrow> finding_error + Finding" where
  "NewFinding ul inp =
     (if \<not> Severity_Valid (fi_Severity inp)
        then Inl (FindingSeverityInvalid (Severity_string (fi_Severity inp)))
      else case normalizeFindingPath (fi_Path inp) of Inl e \<Rightarrow> Inl e | Inr normalizedPath \<Rightarrow>
      if fi_LineStart inp < 1 then Inl FindingLineStartInvalid
      else if \<not> Role_Valid (fi_Role inp) then Inl (FindingRoleInvalid (Role_string (fi_Role inp)))
      else if blank (fi_ProviderInstance inp) \<or> blank (fi_Title inp) \<or>
        blank (fi_Description inp) \<or> blank (fi_Recommendation inp) then Inl FindingContentRequired
      else if \<not> Confidence_Valid (fi_Confidence inp) \<or> \<not> FindingLifecycle_Valid (fi_Lifecycle inp) \<or>
        \<not> EvidenceState_Valid (fi_EvidenceState inp) then Inl FindingStatesInvalid
      else let rule = normalizeFingerprintText ul (fi_NormalizedRuleCategory inp);
               region = normalizeFingerprintText ul (fi_NormalizedEvidenceRegion inp)
        in if rule = '''' \<or> region = '''' then Inl FindingRegionRequired
           else Inr \<lparr>f_id = '''', f_fingerprint = fingerprint rule normalizedPath region,
                     f_severity = fi_Severity inp, f_path = normalizedPath,
                     f_lineStart = fi_LineStart inp, f_role = fi_Role inp,
                     f_providerInstance = TrimSpace (fi_ProviderInstance inp),
                     f_title = TrimSpace (fi_Title inp), f_description = fi_Description inp,
                     f_recommendation = fi_Recommendation inp, f_confidence = fi_Confidence inp,
                     f_lifecycle = fi_Lifecycle inp, f_evidenceState = fi_EvidenceState inp,
                     f_normalizedRuleCategory = rule, f_normalizedEvidenceRegion = region\<rparr>)"

definition Finding_Validate :: "(string \<Rightarrow> string) \<Rightarrow> Finding \<Rightarrow> finding_error option" where
  "Finding_Validate ul f =
     (if \<not> Severity_Valid (f_severity f)
        then Some (FindingSeverityInvalid (Severity_string (f_severity f)))
      else if normalizeFindingPath (f_path f) \<noteq> Inr (f_path f) then Some FindingPathInvalid
      else if f_lineStart f < 1 \<or> \<not> Role_Valid (f_role f) then Some FindingLineOrRoleInvalid
      else if blank (f_providerInstance f) \<or> blank (f_title f) \<or> blank (f_description f) \<or>
        blank (f_recommendation f) then Some FindingContentEmpty
      else if \<not> Confidence_Valid (f_confidence f) \<or> \<not> FindingLifecycle_Valid (f_lifecycle f) \<or>
        \<not> EvidenceState_Valid (f_evidenceState f) then Some FindingStatesInvalid
      else if f_normalizedRuleCategory f = '''' \<or>
        f_normalizedRuleCategory f \<noteq> normalizeFingerprintText ul (f_normalizedRuleCategory f) \<or>
        f_normalizedEvidenceRegion f = '''' \<or>
        f_normalizedEvidenceRegion f \<noteq> normalizeFingerprintText ul (f_normalizedEvidenceRegion f)
        then Some FindingInputsNotNormalized
      else if f_fingerprint f \<noteq>
        fingerprint (f_normalizedRuleCategory f) (f_path f) (f_normalizedEvidenceRegion f)
        then Some FindingFingerprintMismatch
      else None)"

definition Finding_WithEvidenceState ::
    "(string \<Rightarrow> string) \<Rightarrow> Finding \<Rightarrow> EvidenceState \<Rightarrow> finding_error + Finding" where
  "Finding_WithEvidenceState ul f s =
     (case Finding_Validate ul f of
        Some e \<Rightarrow> Inl (FindingCannotUpdate e)
      | None \<Rightarrow>
          if \<not> EvidenceState_Valid s then Inl (FindingEvidenceInvalid (EvidenceState_string s))
          else Inr (f\<lparr>f_evidenceState := s\<rparr>))"

text \<open>The \<open>less\<close> function of the sort, condition by condition.\<close>

definition finding_less :: "Finding \<Rightarrow> Finding \<Rightarrow> bool" where
  "finding_less a b =
     (if Severity_Rank (f_severity a) \<noteq> Severity_Rank (f_severity b)
        then Severity_Rank (f_severity a) > Severity_Rank (f_severity b)
      else if f_path a \<noteq> f_path b then f_path a < f_path b
      else if f_lineStart a \<noteq> f_lineStart b then f_lineStart a < f_lineStart b
      else if Role_string (f_role a) \<noteq> Role_string (f_role b)
        then Role_string (f_role a) < Role_string (f_role b)
      else if f_providerInstance a \<noteq> f_providerInstance b
        then f_providerInstance a < f_providerInstance b
      else if f_title a \<noteq> f_title b then f_title a < f_title b
      else if f_fingerprint a \<noteq> f_fingerprint b then f_fingerprint a < f_fingerprint b
      else if f_normalizedRuleCategory a \<noteq> f_normalizedRuleCategory b
        then f_normalizedRuleCategory a < f_normalizedRuleCategory b
      else if f_normalizedEvidenceRegion a \<noteq> f_normalizedEvidenceRegion b
        then f_normalizedEvidenceRegion a < f_normalizedEvidenceRegion b
      else if Confidence_string (f_confidence a) \<noteq> Confidence_string (f_confidence b)
        then Confidence_string (f_confidence a) < Confidence_string (f_confidence b)
      else if FindingLifecycle_string (f_lifecycle a) \<noteq> FindingLifecycle_string (f_lifecycle b)
        then FindingLifecycle_string (f_lifecycle a) < FindingLifecycle_string (f_lifecycle b)
      else if EvidenceState_string (f_evidenceState a) \<noteq> EvidenceState_string (f_evidenceState b)
        then EvidenceState_string (f_evidenceState a) < EvidenceState_string (f_evidenceState b)
      else if f_description a \<noteq> f_description b then f_description a < f_description b
      else f_recommendation a < f_recommendation b)"

fun validate_findings :: "(string \<Rightarrow> string) \<Rightarrow> nat \<Rightarrow> Finding list \<Rightarrow> (nat \<times> finding_error) option" where
  "validate_findings ul i [] = None"
| "validate_findings ul i (f # fs) =
     (case Finding_Validate ul f of
        Some e \<Rightarrow> Some (i, e)
      | None \<Rightarrow> validate_findings ul (Suc i) fs)"

definition clear_id :: "Finding \<Rightarrow> Finding" where
  "clear_id f = f\<lparr>f_id := ''''\<rparr>"

definition final_id :: "nat \<Rightarrow> string" where
  "final_id index = ''F'' @ dec3 (index + 1)"

fun assign_ids :: "nat \<Rightarrow> Finding list \<Rightarrow> Finding list" where
  "assign_ids i [] = []"
| "assign_ids i (f # fs) = f\<lparr>f_id := final_id i\<rparr> # assign_ids (Suc i) fs"

definition OrderAndAssignFindings ::
    "(string \<Rightarrow> string) \<Rightarrow> Finding list \<Rightarrow> finding_error + Finding list" where
  "OrderAndAssignFindings ul inp =
     (case validate_findings ul 0 inp of
        Some (index, e) \<Rightarrow> Inl (FindingAt index e)
      | None \<Rightarrow> Inr (assign_ids 0 (sort_slice finding_less (map clear_id inp))))"

lemma Finding_Validate_None:
  "Finding_Validate ul f = None \<longleftrightarrow>
     Severity_Valid (f_severity f) \<and> normalizeFindingPath (f_path f) = Inr (f_path f) \<and>
     1 \<le> f_lineStart f \<and> Role_Valid (f_role f) \<and>
     \<not> blank (f_providerInstance f) \<and> \<not> blank (f_title f) \<and> \<not> blank (f_description f) \<and>
     \<not> blank (f_recommendation f) \<and> Confidence_Valid (f_confidence f) \<and>
     FindingLifecycle_Valid (f_lifecycle f) \<and> EvidenceState_Valid (f_evidenceState f) \<and>
     f_normalizedRuleCategory f \<noteq> '''' \<and>
     normalizeFingerprintText ul (f_normalizedRuleCategory f) = f_normalizedRuleCategory f \<and>
     f_normalizedEvidenceRegion f \<noteq> '''' \<and>
     normalizeFingerprintText ul (f_normalizedEvidenceRegion f) = f_normalizedEvidenceRegion f \<and>
     f_fingerprint f =
       fingerprint (f_normalizedRuleCategory f) (f_path f) (f_normalizedEvidenceRegion f)"
  by (simp only: Finding_Validate_def early_return) auto

section \<open>Paths\<close>

lemma normalizeFindingPath_safe:
  assumes "normalizeFindingPath v = Inr p"
  shows "p = v \<and> safe_path p"
proof -
  have "PathClean v = v" "v \<noteq> ''.''" "v \<noteq> ''..''" "\<not> HasPrefix v ''/''" "\<not> HasPrefix v ''../''"
    and "p = v" and "\<not> ContainsAny v [CHR 0x5C, CHR 0x00, CHR 0x0D, CHR 0x0A]"
    using assms by (auto simp: normalizeFindingPath_def Let_def split: if_splits)
  then show ?thesis
    using PathClean_fixed_components [of v]
    by (auto simp: safe_path_def ContainsAny_def list_ex_iff)
qed

lemma normalizeFindingPath_iff:
  "normalizeFindingPath v = Inr p \<longleftrightarrow> p = v \<and> safe_path v"
proof
  assume "normalizeFindingPath v = Inr p"
  then show "p = v \<and> safe_path v" using normalizeFindingPath_safe by blast
next
  assume *: "p = v \<and> safe_path v"
  then have "list_all proper_component (split_on (CHR ''/'') v)" by (simp add: safe_path_def)
  note P = proper_components_path [OF this]
  have "\<not> ContainsAny v [CHR 0x5C, CHR 0x00, CHR 0x0D, CHR 0x0A]"
    using * by (auto simp: safe_path_def ContainsAny_def list_ex_iff)
  with * P show "normalizeFindingPath v = Inr p" by (simp add: normalizeFindingPath_def Let_def)
qed

section \<open>The constructor establishes what the validator checks\<close>

lemma blank_TrimSpace [simp]: "blank (TrimSpace s) \<longleftrightarrow> blank s"
  by (simp add: blank_def)

lemma NewFinding_Inr:
  assumes "NewFinding ul inp = Inr f"
  shows "normalizeFindingPath (fi_Path inp) = Inr (f_path f)"
    "f_normalizedRuleCategory f = normalizeFingerprintText ul (fi_NormalizedRuleCategory inp)"
    "f_normalizedEvidenceRegion f = normalizeFingerprintText ul (fi_NormalizedEvidenceRegion inp)"
    "f_normalizedRuleCategory f \<noteq> ''''" "f_normalizedEvidenceRegion f \<noteq> ''''"
    "f_fingerprint f =
      fingerprint (f_normalizedRuleCategory f) (f_path f) (f_normalizedEvidenceRegion f)"
    "Severity_Valid (f_severity f)" "1 \<le> f_lineStart f" "Role_Valid (f_role f)"
    "\<not> blank (f_providerInstance f)" "\<not> blank (f_title f)" "\<not> blank (f_description f)"
    "\<not> blank (f_recommendation f)" "Confidence_Valid (f_confidence f)"
    "FindingLifecycle_Valid (f_lifecycle f)" "EvidenceState_Valid (f_evidenceState f)"
    "f_id f = ''''"
  using assms by (auto simp: NewFinding_def Let_def split: if_splits sum.splits)

lemma normalize_ascii_idem:
  "ascii s \<Longrightarrow>
    normalizeFingerprintText ul (normalizeFingerprintText ul s) = normalizeFingerprintText ul s"
  unfolding normalizeFingerprintText_def by (rule lower_words_idem)

lemma new_finding_validates:
  assumes "NewFinding ul inp = Inr f"
    and "ascii (fi_NormalizedRuleCategory inp)" "ascii (fi_NormalizedEvidenceRegion inp)"
  shows "Finding_Validate ul f = None"
proof -
  note N = NewFinding_Inr [OF assms(1)]
  have "normalizeFindingPath (f_path f) = Inr (f_path f)"
    using N(1) normalizeFindingPath_safe [OF N(1)] by simp
  moreover have
    "normalizeFingerprintText ul (f_normalizedRuleCategory f) = f_normalizedRuleCategory f"
    "normalizeFingerprintText ul (f_normalizedEvidenceRegion f) = f_normalizedEvidenceRegion f"
    using N(2,3) assms(2,3) normalize_ascii_idem by simp_all
  ultimately show ?thesis
    using N by (simp add: Finding_Validate_def)
qed

lemma WithEvidenceState_valid:
  "Finding_WithEvidenceState ul f s = Inr f' \<Longrightarrow>
    Finding_Validate ul f' = None \<and> f' = f\<lparr>f_evidenceState := s\<rparr>"
  by (auto simp: Finding_WithEvidenceState_def early_return Finding_Validate_None)

section \<open>The order\<close>

text \<open>The comparison is the lexicographic order of a key.\<close>

definition finding_texts :: "Finding \<Rightarrow> string list" where
  "finding_texts f =
     [Role_string (f_role f), f_providerInstance f, f_title f, f_fingerprint f,
      f_normalizedRuleCategory f, f_normalizedEvidenceRegion f, Confidence_string (f_confidence f),
      FindingLifecycle_string (f_lifecycle f), EvidenceState_string (f_evidenceState f),
      f_description f, f_recommendation f]"

definition finding_key :: "Finding \<Rightarrow> int \<times> string \<times> int64 \<times> string list" where
  "finding_key f = (- Severity_Rank (f_severity f), f_path f, f_lineStart f, finding_texts f)"

lemma finding_less_key: "finding_less a b \<longleftrightarrow> finding_key a < finding_key b"
  by (simp only: finding_less_def finding_key_def finding_texts_def less_pair_cascade
      less_list_cascade neg_equal_iff_equal neg_less_iff_less)

interpretation finding_order: sort_order finding_less
  using sort_order_key [of finding_key] by (simp add: finding_less_key [abs_def])

lemma finding_key_inject:
  assumes "Finding_Validate ul a = None" "Finding_Validate ul b = None"
    and "finding_key a = finding_key b"
  shows "clear_id a = clear_id b"
proof -
  have "Severity_Valid (f_severity a)" "Role_Valid (f_role a)" "Role_Valid (f_role b)"
    "Confidence_Valid (f_confidence a)" "Confidence_Valid (f_confidence b)"
    "FindingLifecycle_Valid (f_lifecycle a)" "FindingLifecycle_Valid (f_lifecycle b)"
    "EvidenceState_Valid (f_evidenceState a)" "EvidenceState_Valid (f_evidenceState b)"
    using assms(1,2) by (simp_all add: Finding_Validate_None)
  moreover have "Severity_Rank (f_severity a) = Severity_Rank (f_severity b)"
    "f_path a = f_path b" "f_lineStart a = f_lineStart b" "finding_texts a = finding_texts b"
    using assms(3) by (simp_all add: finding_key_def)
  ultimately have "f_severity a = f_severity b" "f_role a = f_role b"
    "f_confidence a = f_confidence b" "f_lifecycle a = f_lifecycle b"
    "f_evidenceState a = f_evidenceState b"
    by (simp_all add: finding_texts_def Severity_Rank_inject Role_enum.str_inject
        Confidence_enum.str_inject FindingLifecycle_enum.str_inject EvidenceState_enum.str_inject)
  with \<open>f_path a = f_path b\<close> \<open>f_lineStart a = f_lineStart b\<close> \<open>finding_texts a = finding_texts b\<close>
  show ?thesis
    unfolding clear_id_def by (intro Finding.equality) (simp_all add: finding_texts_def)
qed

lemma clear_id_validate [simp]: "Finding_Validate ul (clear_id f) = Finding_Validate ul f"
  by (simp add: Finding_Validate_def clear_id_def)

lemma clear_id_idem [simp]: "clear_id (clear_id f) = clear_id f"
  by (simp add: clear_id_def)

lemma clear_id_assign [simp]: "clear_id (f\<lparr>f_id := x\<rparr>) = clear_id f"
  by (simp add: clear_id_def)

lemma finding_key_clear [simp]: "finding_key (clear_id f) = finding_key f"
  by (simp add: finding_key_def finding_texts_def clear_id_def)

lemma findings_separated:
  assumes "\<forall>f \<in> A. Finding_Validate ul f = None"
  shows "finding_order.separated (clear_id ` A)"
  unfolding finding_order.separated_def
proof (intro ballI impI)
  fix x y
  assume "x \<in> clear_id ` A" "y \<in> clear_id ` A" "\<not> finding_less x y" "\<not> finding_less y x"
  then obtain a b where ab: "a \<in> A" "b \<in> A" "x = clear_id a" "y = clear_id b"
    and "finding_key a = finding_key b"
    by (auto simp: finding_less_key)
  with assms show "x = y" using finding_key_inject by blast
qed

lemma validate_findings_None:
  "validate_findings ul i fs = None \<longleftrightarrow> (\<forall>f \<in> set fs. Finding_Validate ul f = None)"
  by (induction fs arbitrary: i) (auto split: option.splits)

lemma map_clear_assign [simp]: "map clear_id (assign_ids i fs) = map clear_id fs"
  by (induction fs arbitrary: i) simp_all

lemma map_key_assign: "map finding_key (assign_ids i fs) = map finding_key fs"
  by (induction fs arbitrary: i) (simp_all add: finding_key_def finding_texts_def)

lemma length_assign_ids [simp]: "length (assign_ids i fs) = length fs"
  by (induction fs arbitrary: i) simp_all

lemma assign_ids_nth: "k < length fs \<Longrightarrow> f_id (assign_ids i fs ! k) = final_id (i + k)"
  by (induction fs arbitrary: i k) (auto simp: nth_Cons split: nat.splits)

lemma sorted_keys: "finding_order.sorted_by fs \<longleftrightarrow> sorted (map finding_key fs)"
  by (simp add: finding_order.sorted_by_def finding_less_key sorted_wrt_map linorder_not_less)

lemma final_ids_distinct: "distinct (map f_id (assign_ids i fs))"
proof (rule distinct_conv_nth [THEN iffD2], intro allI impI)
  fix m n
  assume "m < length (map f_id (assign_ids i fs))" "n < length (map f_id (assign_ids i fs))" "m \<noteq> n"
  then show "map f_id (assign_ids i fs) ! m \<noteq> map f_id (assign_ids i fs) ! n"
    by (auto simp: assign_ids_nth final_id_def dest: dec3_inject)
qed

text \<open>What an ordered list is, as a specification: a permutation, sorted, numbered.\<close>

definition ordered_findings :: "Finding list \<Rightarrow> Finding list \<Rightarrow> bool" where
  "ordered_findings inp out \<longleftrightarrow>
     mset (map clear_id out) = mset (map clear_id inp) \<and>
     sorted (map finding_key out) \<and>
     (\<forall>k < length out. f_id (out ! k) = final_id k)"

lemma OrderAndAssignFindings_ordered:
  assumes "OrderAndAssignFindings ul inp = Inr out"
  shows "ordered_findings inp out"
proof -
  have out: "out = assign_ids 0 (sort_slice finding_less (map clear_id inp))"
    using assms by (simp add: OrderAndAssignFindings_def early_return)
  have "mset (map clear_id out) = mset (map clear_id inp)"
    by (simp add: out multiset.map_comp comp_def)
  moreover have "sorted (map finding_key out)"
    using finding_order.sorted_sort_slice by (simp add: out map_key_assign flip: sorted_keys)
  ultimately show ?thesis
    by (simp add: ordered_findings_def out assign_ids_nth)
qed

lemma OrderAndAssignFindings_ok_iff:
  "is_ok (OrderAndAssignFindings ul inp) \<longleftrightarrow> (\<forall>f \<in> set inp. Finding_Validate ul f = None)"
  unfolding validate_findings_None [of ul 0 inp, symmetric]
  by (simp add: OrderAndAssignFindings_def split: option.split)

lemma OrderAndAssignFindings_permutation:
  assumes "mset (map clear_id xs) = mset (map clear_id ys)"
    and "OrderAndAssignFindings ul xs = Inr out"
  shows "OrderAndAssignFindings ul ys = Inr out"
proof -
  have xs: "\<forall>f \<in> set xs. Finding_Validate ul f = None"
    using assms(2) OrderAndAssignFindings_ok_iff [of ul xs] by (simp add: is_ok_iff)
  have sets: "clear_id ` set xs = clear_id ` set ys"
    using mset_eq_setD [OF assms(1)] by simp
  have "Finding_Validate ul f = None" if "f \<in> set ys" for f
  proof -
    have "clear_id f \<in> clear_id ` set xs" using that sets by simp
    then obtain g where "g \<in> set xs" and eq: "clear_id f = clear_id g" by blast
    then have "Finding_Validate ul (clear_id g) = None" using xs by simp
    then show ?thesis by (simp add: eq [symmetric])
  qed
  then have ys: "validate_findings ul 0 ys = None" and xs': "validate_findings ul 0 xs = None"
    using xs by (simp_all add: validate_findings_None)
  have "finding_order.separated (set (map clear_id xs))"
    using findings_separated [OF xs] by simp
  then have "sort_slice finding_less (map clear_id xs) = sort_slice finding_less (map clear_id ys)"
    by (rule finding_order.sort_slice_cong [OF assms(1)])
  then show ?thesis
    using assms(2) ys xs' by (simp add: OrderAndAssignFindings_def)
qed

section \<open>The fingerprint\<close>

text \<open>The fingerprint hashes an encoding that determines rule, path and region.\<close>

lemma fingerprint_preimage:
  assumes "frames [r, p, e] = frames [r', p', e']"
    and "list_all sized [r, p, e]" "list_all sized [r', p', e']"
  shows "r = r' \<and> p = p' \<and> e = e'"
  using frames_inject [OF assms(1)] assms(2,3) by simp

lemma fingerprint_shape: "list_all is_lower_hex_byte (fingerprint r p e) \<and> length (fingerprint r p e) = 64"
  by (simp add: fingerprint_def sha256_hex_shape del: frames_simps)

lemma NewFinding_accepts:
  "is_ok (NewFinding ul inp) \<longleftrightarrow>
     Severity_Valid (fi_Severity inp) \<and> is_ok (normalizeFindingPath (fi_Path inp)) \<and>
     1 \<le> fi_LineStart inp \<and> Role_Valid (fi_Role inp) \<and>
     \<not> blank (fi_ProviderInstance inp) \<and> \<not> blank (fi_Title inp) \<and>
     \<not> blank (fi_Description inp) \<and> \<not> blank (fi_Recommendation inp) \<and>
     Confidence_Valid (fi_Confidence inp) \<and> FindingLifecycle_Valid (fi_Lifecycle inp) \<and>
     EvidenceState_Valid (fi_EvidenceState inp) \<and>
     normalizeFingerprintText ul (fi_NormalizedRuleCategory inp) \<noteq> '''' \<and>
     normalizeFingerprintText ul (fi_NormalizedEvidenceRegion inp) \<noteq> ''''"
  unfolding is_ok_iff NewFinding_def Let_def early_return by auto

end
