(* ===== verification/Outcomes.thy ===== *)
theory Outcomes
  imports Findings Identifiers Targets
begin

text \<open>
  The four outcome axes (\<open>internal/domain/outcome.go\<close>), the review artifact that carries them
  (\<open>run.go\<close>) and the replacement of the publication axis (\<open>publication.go\<close>).
\<close>

section \<open>The axes\<close>

datatype ContentVerdict =
    ContentNoFindings
  | ContentFindingsPresent
  | ContentRequestChanges
  | ContentReportsOnly
  | ContentVerdictOther string

fun ContentVerdict_string :: "ContentVerdict \<Rightarrow> string" where
  "ContentVerdict_string ContentNoFindings = ''no_findings''"
| "ContentVerdict_string ContentFindingsPresent = ''findings_present''"
| "ContentVerdict_string ContentRequestChanges = ''request_changes''"
| "ContentVerdict_string ContentReportsOnly = ''reports_only''"
| "ContentVerdict_string (ContentVerdictOther s) = s"

definition ContentVerdict_Valid :: "ContentVerdict \<Rightarrow> bool" where
  "ContentVerdict_Valid v = oneOf v
     [ContentNoFindings, ContentFindingsPresent, ContentRequestChanges,
      ContentReportsOnly]"

definition ContentVerdict_of :: "string \<Rightarrow> ContentVerdict" where
  "ContentVerdict_of = from_wire ContentVerdict_string
     [ContentNoFindings, ContentFindingsPresent, ContentRequestChanges,
      ContentReportsOnly]
     ContentVerdictOther"

interpretation ContentVerdict_enum: string_enum ContentVerdict_string
    "[ContentNoFindings, ContentFindingsPresent, ContentRequestChanges,
      ContentReportsOnly]"
    ContentVerdictOther ContentVerdict_Valid
  by unfold_locales (auto simp: ContentVerdict_Valid_def)

datatype StructuredExtractionStatus =
    StructuredExtractionStructured
  | StructuredExtractionMixed
  | StructuredExtractionReportsOnly
  | StructuredExtractionStatusOther string

fun StructuredExtractionStatus_string :: "StructuredExtractionStatus \<Rightarrow> string" where
  "StructuredExtractionStatus_string StructuredExtractionStructured = ''structured''"
| "StructuredExtractionStatus_string StructuredExtractionMixed = ''mixed''"
| "StructuredExtractionStatus_string StructuredExtractionReportsOnly = ''reports_only''"
| "StructuredExtractionStatus_string (StructuredExtractionStatusOther s) = s"

definition StructuredExtractionStatus_Valid :: "StructuredExtractionStatus \<Rightarrow> bool" where
  "StructuredExtractionStatus_Valid v = oneOf v
     [StructuredExtractionStructured, StructuredExtractionMixed,
      StructuredExtractionReportsOnly]"

definition StructuredExtractionStatus_of :: "string \<Rightarrow> StructuredExtractionStatus" where
  "StructuredExtractionStatus_of = from_wire StructuredExtractionStatus_string
     [StructuredExtractionStructured, StructuredExtractionMixed,
      StructuredExtractionReportsOnly]
     StructuredExtractionStatusOther"

interpretation StructuredExtractionStatus_enum: string_enum StructuredExtractionStatus_string
    "[StructuredExtractionStructured, StructuredExtractionMixed,
      StructuredExtractionReportsOnly]"
    StructuredExtractionStatusOther StructuredExtractionStatus_Valid
  by unfold_locales (auto simp: StructuredExtractionStatus_Valid_def)

datatype CoverageStatus =
    CoverageComplete
  | CoverageDegraded
  | CoverageIncomplete
  | CoverageStatusOther string

fun CoverageStatus_string :: "CoverageStatus \<Rightarrow> string" where
  "CoverageStatus_string CoverageComplete = ''complete''"
| "CoverageStatus_string CoverageDegraded = ''degraded''"
| "CoverageStatus_string CoverageIncomplete = ''incomplete''"
| "CoverageStatus_string (CoverageStatusOther s) = s"

definition CoverageStatus_Valid :: "CoverageStatus \<Rightarrow> bool" where
  "CoverageStatus_Valid v = oneOf v
     [CoverageComplete, CoverageDegraded, CoverageIncomplete]"

definition CoverageStatus_of :: "string \<Rightarrow> CoverageStatus" where
  "CoverageStatus_of = from_wire CoverageStatus_string
     [CoverageComplete, CoverageDegraded, CoverageIncomplete]
     CoverageStatusOther"

interpretation CoverageStatus_enum: string_enum CoverageStatus_string
    "[CoverageComplete, CoverageDegraded, CoverageIncomplete]"
    CoverageStatusOther CoverageStatus_Valid
  by unfold_locales (auto simp: CoverageStatus_Valid_def)

datatype CIDecision =
    CIPass
  | CIFail
  | CIDecisionOther string

fun CIDecision_string :: "CIDecision \<Rightarrow> string" where
  "CIDecision_string CIPass = ''pass''"
| "CIDecision_string CIFail = ''fail''"
| "CIDecision_string (CIDecisionOther s) = s"

definition CIDecision_Valid :: "CIDecision \<Rightarrow> bool" where
  "CIDecision_Valid v = oneOf v
     [CIPass, CIFail]"

definition CIDecision_of :: "string \<Rightarrow> CIDecision" where
  "CIDecision_of = from_wire CIDecision_string
     [CIPass, CIFail]
     CIDecisionOther"

interpretation CIDecision_enum: string_enum CIDecision_string
    "[CIPass, CIFail]"
    CIDecisionOther CIDecision_Valid
  by unfold_locales (auto simp: CIDecision_Valid_def)

record RoleResultSummary =
  rr_Role :: Role
  rr_Selected :: bool
  rr_Required :: bool
  rr_Valid :: bool
  rr_Degraded :: bool
  rr_ReportsOnly :: bool

record CIPolicy =
  ci_RequestChangesFails :: bool
  ci_DegradedReviewFails :: bool
  ci_IncompleteReviewFails :: bool

definition DefaultCIPolicy :: CIPolicy where
  "DefaultCIPolicy = \<lparr>ci_RequestChangesFails = True, ci_DegradedReviewFails = True,
     ci_IncompleteReviewFails = True\<rparr>"

record OutcomeAxes =
  ax_content :: ContentVerdict
  ax_coverage :: CoverageStatus
  ax_publication :: PublicationStatus
  ax_ci :: CIDecision

datatype outcome_error =
    OutcomeThresholdInvalid string
  | OutcomePublicationInvalid string
  | CoverageRoleInvalid string
  | CoverageRoleDuplicate string
  | OutcomeFinding nat finding_error
  | OutcomeAxesInvalid
  | ArtifactBadID id_error
  | ArtifactAxesInvalid
  | ArtifactCreatedAtInvalid
  | ArtifactDigestInvalid

section \<open>Structured extraction\<close>

text \<open>The two counters of the loop, then the classification.\<close>

fun extraction_counts :: "int \<Rightarrow> int \<Rightarrow> RoleResultSummary list \<Rightarrow> int \<times> int" where
  "extraction_counts structured reportsOnly [] = (structured, reportsOnly)"
| "extraction_counts structured reportsOnly (r # rs) =
     (if \<not> rr_Selected r \<or> \<not> rr_Valid r then extraction_counts structured reportsOnly rs
      else if rr_ReportsOnly r then extraction_counts structured (reportsOnly + 1) rs
      else extraction_counts (structured + 1) reportsOnly rs)"

definition ComputeStructuredExtractionStatus ::
    "RoleResultSummary list \<Rightarrow> StructuredExtractionStatus" where
  "ComputeStructuredExtractionStatus results =
     (case extraction_counts 0 0 results of (structured, reportsOnly) \<Rightarrow>
        if structured > 0 \<and> reportsOnly > 0 then StructuredExtractionMixed
        else if reportsOnly > 0 then StructuredExtractionReportsOnly
        else StructuredExtractionStructured)"

section \<open>Coverage\<close>

fun coverage_index ::
    "(Role \<rightharpoonup> RoleResultSummary) \<Rightarrow> RoleResultSummary list
      \<Rightarrow> outcome_error + (Role \<rightharpoonup> RoleResultSummary)" where
  "coverage_index byRole [] = Inr byRole"
| "coverage_index byRole (r # rs) =
     (if \<not> Role_Valid (rr_Role r) then Inl (CoverageRoleInvalid (Role_string (rr_Role r)))
      else if byRole (rr_Role r) \<noteq> None
        then Inl (CoverageRoleDuplicate (Role_string (rr_Role r)))
      else coverage_index (byRole(rr_Role r \<mapsto> r)) rs)"

fun coverage_scan ::
    "(Role \<rightharpoonup> RoleResultSummary) \<Rightarrow> bool \<Rightarrow> Role list \<Rightarrow> CoverageStatus" where
  "coverage_scan byRole degraded [] = (if degraded then CoverageDegraded else CoverageComplete)"
| "coverage_scan byRole degraded (role # rs) =
     (case byRole role of
        None \<Rightarrow> coverage_scan byRole degraded rs
      | Some result \<Rightarrow>
          let required = (rr_Required result \<or> role = RoleLogic)
          in if required \<and> (\<not> rr_Selected result \<or> \<not> rr_Valid result) then CoverageIncomplete
             else if rr_Selected result \<and> \<not> rr_Valid result then CoverageIncomplete
             else coverage_scan byRole
               (if rr_Selected result \<and> rr_Degraded result then True else degraded) rs)"

definition computeCoverage :: "RoleResultSummary list \<Rightarrow> outcome_error + CoverageStatus" where
  "computeCoverage results =
     (case coverage_index Map.empty results of
        Inl e \<Rightarrow> Inl e
      | Inr byRole \<Rightarrow> Inr (coverage_scan byRole False FixedRoleOrder))"

section \<open>All four axes\<close>

definition content_verdict :: "Finding list \<Rightarrow> RoleResultSummary list \<Rightarrow> Severity \<Rightarrow> ContentVerdict" where
  "content_verdict findings results threshold =
     (if findings \<noteq> [] then
        foldl (\<lambda>content f. if Severity_Rank (f_severity f) \<ge> Severity_Rank threshold
                           then ContentRequestChanges else content)
          ContentFindingsPresent findings
      else if list_ex (\<lambda>r. rr_Selected r \<and> rr_Valid r \<and> rr_ReportsOnly r) results
        then ContentReportsOnly
      else ContentNoFindings)"

definition ci_decision :: "CIPolicy \<Rightarrow> ContentVerdict \<Rightarrow> CoverageStatus \<Rightarrow> CIDecision" where
  "ci_decision policy content coverage =
     (if content = ContentRequestChanges \<and> ci_RequestChangesFails policy \<or>
         coverage = CoverageDegraded \<and> ci_DegradedReviewFails policy \<or>
         coverage = CoverageIncomplete \<and> ci_IncompleteReviewFails policy
      then CIFail else CIPass)"

definition ComputeOutcomeAxes ::
    "(string \<Rightarrow> string) \<Rightarrow> Finding list \<Rightarrow> RoleResultSummary list \<Rightarrow> Severity
      \<Rightarrow> PublicationStatus \<Rightarrow> CIPolicy option \<Rightarrow> outcome_error + OutcomeAxes" where
  "ComputeOutcomeAxes ul findings results threshold0 publication policy =
     (let threshold = (if threshold0 = SeverityOther '''' then SeverityHigh else threshold0)
      in if \<not> Severity_Valid threshold
           then Inl (OutcomeThresholdInvalid (Severity_string threshold))
         else if \<not> PublicationStatus_Valid publication
           then Inl (OutcomePublicationInvalid (PublicationStatus_string publication))
         else case computeCoverage results of Inl e \<Rightarrow> Inl e | Inr coverage \<Rightarrow>
         case validate_findings ul 0 findings of
           Some (index, e) \<Rightarrow> Inl (OutcomeFinding index e)
         | None \<Rightarrow>
             let content = content_verdict findings results threshold;
                 resolved = (case policy of None \<Rightarrow> DefaultCIPolicy | Some p \<Rightarrow> p)
             in Inr \<lparr>ax_content = content, ax_coverage = coverage, ax_publication = publication,
                     ax_ci = ci_decision resolved content coverage\<rparr>)"

definition OutcomeAxes_WithPublicationStatus ::
    "OutcomeAxes \<Rightarrow> PublicationStatus \<Rightarrow> outcome_error + OutcomeAxes" where
  "OutcomeAxes_WithPublicationStatus axes publication =
     (if \<not> ContentVerdict_Valid (ax_content axes) \<or> \<not> CoverageStatus_Valid (ax_coverage axes) \<or>
         \<not> CIDecision_Valid (ax_ci axes) then Inl OutcomeAxesInvalid
      else if \<not> PublicationStatus_Valid publication
        then Inl (OutcomePublicationInvalid (PublicationStatus_string publication))
      else Inr (axes\<lparr>ax_publication := publication\<rparr>))"

section \<open>The review artifact\<close>

record ReviewArtifact =
  ra_id :: ReviewID
  ra_axes :: OutcomeAxes
  ra_createdAt :: go_time
  ra_fileSHA256 :: string

definition OutcomeAxes_valid :: "OutcomeAxes \<Rightarrow> bool" where
  "OutcomeAxes_valid axes \<longleftrightarrow>
     ContentVerdict_Valid (ax_content axes) \<and> CoverageStatus_Valid (ax_coverage axes) \<and>
     PublicationStatus_Valid (ax_publication axes) \<and> CIDecision_Valid (ax_ci axes)"

definition NewReviewArtifact ::
    "ReviewID \<Rightarrow> OutcomeAxes \<Rightarrow> go_time \<Rightarrow> string \<Rightarrow> outcome_error + ReviewArtifact" where
  "NewReviewArtifact i axes createdAt fileSHA256 =
     (case ParseReviewID (ReviewID_String i) of
        Inl e \<Rightarrow> Inl (ArtifactBadID e)
      | Inr _ \<Rightarrow>
          if \<not> OutcomeAxes_valid axes then Inl ArtifactAxesInvalid
          else if time_IsZero createdAt \<or> \<not> time_utc createdAt then Inl ArtifactCreatedAtInvalid
          else if \<not> lowerSHA256Pattern fileSHA256 then Inl ArtifactDigestInvalid
          else Inr \<lparr>ra_id = i, ra_axes = axes, ra_createdAt = createdAt,
                    ra_fileSHA256 = fileSHA256\<rparr>)"

section \<open>Coverage against its specification\<close>

text \<open>What makes a result unsatisfied, and the status as a statement about all results.\<close>

definition unsatisfied :: "RoleResultSummary \<Rightarrow> bool" where
  "unsatisfied r \<longleftrightarrow>
     (rr_Required r \<or> rr_Role r = RoleLogic) \<and> \<not> (rr_Selected r \<and> rr_Valid r) \<or>
     rr_Selected r \<and> \<not> rr_Valid r"

definition coverage_of :: "RoleResultSummary list \<Rightarrow> CoverageStatus" where
  "coverage_of results =
     (if \<exists>r \<in> set results. unsatisfied r then CoverageIncomplete
      else if \<exists>r \<in> set results. rr_Selected r \<and> rr_Degraded r then CoverageDegraded
      else CoverageComplete)"

lemma coverage_index_Inr:
  "coverage_index byRole rs = Inr m \<Longrightarrow>
    (\<forall>r \<in> set rs. Role_Valid (rr_Role r)) \<and> distinct (map rr_Role rs) \<and>
    (\<forall>r \<in> set rs. byRole (rr_Role r) = None) \<and>
    (\<forall>role r. m role = Some r \<longleftrightarrow> byRole role = Some r \<or> r \<in> set rs \<and> rr_Role r = role)"
proof (induction rs arbitrary: byRole)
  case (Cons r rs)
  then have ok: "Role_Valid (rr_Role r)" and new: "byRole (rr_Role r) = None"
    and rest: "coverage_index (byRole(rr_Role r \<mapsto> r)) rs = Inr m"
    by (auto split: if_splits)
  note IH = Cons.IH [OF rest]
  have other: "rr_Role x \<noteq> rr_Role r \<and> byRole (rr_Role x) = None" if "x \<in> set rs" for x
    using IH that by (force split: if_splits)
  have "rr_Role r \<notin> rr_Role ` set rs" using other by force
  then show ?case using IH ok new other by (auto split: if_splits)
qed simp

lemma coverage_index_complete:
  "\<forall>r \<in> set rs. Role_Valid (rr_Role r) \<Longrightarrow> distinct (map rr_Role rs) \<Longrightarrow>
    \<forall>r \<in> set rs. byRole (rr_Role r) = None \<Longrightarrow> is_ok (coverage_index byRole rs)"
proof (induction rs arbitrary: byRole)
  case (Cons r rs)
  then have "\<forall>x \<in> set rs. (byRole(rr_Role r \<mapsto> r)) (rr_Role x) = None"
    by (auto simp: image_iff)
  then show ?case using Cons by (simp del: fun_upd_apply)
qed simp

lemma coverage_scan_eq:
  "\<forall>role r. byRole role = Some r \<longrightarrow> rr_Role r = role \<Longrightarrow>
    coverage_scan byRole degraded roles =
      (if \<exists>role \<in> set roles. \<exists>r. byRole role = Some r \<and> unsatisfied r then CoverageIncomplete
       else if degraded \<or> (\<exists>role \<in> set roles. \<exists>r. byRole role = Some r \<and> rr_Selected r \<and> rr_Degraded r)
         then CoverageDegraded
       else CoverageComplete)"
proof (induction roles arbitrary: degraded)
  case (Cons role roles)
  note IH = Cons.IH [OF Cons.prems]
  show ?case
  proof (cases "byRole role")
    case None
    then show ?thesis by (auto simp: IH)
  next
    case (Some r)
    then have "rr_Role r = role" using Cons.prems by simp
    then have step: "coverage_scan byRole degraded (role # roles) =
        (if unsatisfied r then CoverageIncomplete
         else coverage_scan byRole (degraded \<or> rr_Selected r \<and> rr_Degraded r) roles)"
      using Some by (simp add: unsatisfied_def Let_def)
    show ?thesis unfolding step IH using Some by auto
  qed
qed simp

lemma computeCoverage_Inr:
  "computeCoverage results = Inr c \<longleftrightarrow>
     (\<forall>r \<in> set results. Role_Valid (rr_Role r)) \<and> distinct (map rr_Role results) \<and>
     c = coverage_of results"
proof (cases "coverage_index Map.empty results")
  case (Inl e)
  then show ?thesis
    using coverage_index_complete [of results Map.empty] by (auto simp: computeCoverage_def)
next
  case (Inr m)
  note I = coverage_index_Inr [OF Inr]
  have ex: "(\<exists>role \<in> set FixedRoleOrder. \<exists>r. m role = Some r \<and> P r) \<longleftrightarrow> (\<exists>r \<in> set results. P r)" for P
    using I by (auto simp: Role_Valid_iff)
  have keyed: "\<forall>role r. m role = Some r \<longrightarrow> rr_Role r = role"
    using I by simp
  have "coverage_scan m False FixedRoleOrder = coverage_of results"
    unfolding coverage_of_def coverage_scan_eq [OF keyed] ex by simp
  then show ?thesis using I Inr by (auto simp: computeCoverage_def)
qed

section \<open>The axes against their specification\<close>

lemma content_foldl:
  "foldl (\<lambda>content f. if P f then ContentRequestChanges else content) c fs =
    (if \<exists>f \<in> set fs. P f then ContentRequestChanges else c)"
  by (induction fs arbitrary: c) auto

lemma content_verdict_eq:
  "content_verdict findings results threshold =
    (if \<exists>f \<in> set findings. Severity_Rank threshold \<le> Severity_Rank (f_severity f)
       then ContentRequestChanges
     else if findings \<noteq> [] then ContentFindingsPresent
     else if \<exists>r \<in> set results. rr_Selected r \<and> rr_Valid r \<and> rr_ReportsOnly r
       then ContentReportsOnly
     else ContentNoFindings)"
  by (auto simp: content_verdict_def content_foldl list_ex_iff)

lemma extraction_counts_eq:
  "extraction_counts s p rs =
    (s + int (length (filter (\<lambda>r. rr_Selected r \<and> rr_Valid r \<and> \<not> rr_ReportsOnly r) rs)),
     p + int (length (filter (\<lambda>r. rr_Selected r \<and> rr_Valid r \<and> rr_ReportsOnly r) rs)))"
  by (induction rs arbitrary: s p) auto

definition effective_threshold :: "Severity \<Rightarrow> Severity" where
  "effective_threshold t = (if t = SeverityOther '''' then SeverityHigh else t)"

lemma ComputeOutcomeAxes_Inr:
  "ComputeOutcomeAxes ul fs rs t p pol = Inr axes \<longleftrightarrow>
     Severity_Valid (effective_threshold t) \<and> PublicationStatus_Valid p \<and>
     (\<forall>r \<in> set rs. Role_Valid (rr_Role r)) \<and> distinct (map rr_Role rs) \<and>
     (\<forall>f \<in> set fs. Finding_Validate ul f = None) \<and>
     axes = \<lparr>ax_content = content_verdict fs rs (effective_threshold t),
             ax_coverage = coverage_of rs, ax_publication = p,
             ax_ci = ci_decision (case pol of None \<Rightarrow> DefaultCIPolicy | Some q \<Rightarrow> q)
               (content_verdict fs rs (effective_threshold t)) (coverage_of rs)\<rparr>"
  unfolding ComputeOutcomeAxes_def effective_threshold_def [symmetric] Let_def early_return
    computeCoverage_Inr validate_findings_None by auto

end
