(* ===== verification/Publication.thy ===== *)
theory Publication
  imports States
begin

text \<open>
  Publication recovery and operational exits (\<open>internal/domain/publication.go\<close>): the closed
  vocabularies, the validated classifier input and decision, the classifier of durable facts,
  and the reduction of several exit reasons to one exit code.
\<close>

section \<open>Vocabularies\<close>

datatype PersistedJournalState =
    JournalCollecting
  | JournalContentValidated
  | JournalFinalStaged
  | JournalFinalFileInstalled
  | JournalManifestCommitted
  | JournalCompleted
  | PersistedJournalStateOther string

fun PersistedJournalState_string :: "PersistedJournalState \<Rightarrow> string" where
  "PersistedJournalState_string JournalCollecting = ''collecting''"
| "PersistedJournalState_string JournalContentValidated = ''content_validated''"
| "PersistedJournalState_string JournalFinalStaged = ''final_staged''"
| "PersistedJournalState_string JournalFinalFileInstalled = ''final_file_installed''"
| "PersistedJournalState_string JournalManifestCommitted = ''manifest_committed''"
| "PersistedJournalState_string JournalCompleted = ''completed''"
| "PersistedJournalState_string (PersistedJournalStateOther s) = s"

definition PersistedJournalState_Valid :: "PersistedJournalState \<Rightarrow> bool" where
  "PersistedJournalState_Valid v = oneOf v
     [JournalCollecting, JournalContentValidated, JournalFinalStaged,
      JournalFinalFileInstalled, JournalManifestCommitted, JournalCompleted]"

definition PersistedJournalState_of :: "string \<Rightarrow> PersistedJournalState" where
  "PersistedJournalState_of = from_wire PersistedJournalState_string
     [JournalCollecting, JournalContentValidated, JournalFinalStaged,
      JournalFinalFileInstalled, JournalManifestCommitted, JournalCompleted]
     PersistedJournalStateOther"

interpretation PersistedJournalState_enum: string_enum PersistedJournalState_string
    "[JournalCollecting, JournalContentValidated, JournalFinalStaged,
      JournalFinalFileInstalled, JournalManifestCommitted, JournalCompleted]"
    PersistedJournalStateOther PersistedJournalState_Valid
  by unfold_locales (auto simp: PersistedJournalState_Valid_def)

datatype DurableObservationClass =
    DurableObservationP2Committed
  | DurableObservationP1Installed
  | DurableObservationP0Staged
  | DurableObservationP0None
  | DurableObservationAmbiguousOrMismatch
  | DurableObservationClassOther string

fun DurableObservationClass_string :: "DurableObservationClass \<Rightarrow> string" where
  "DurableObservationClass_string DurableObservationP2Committed = ''P2_COMMITTED''"
| "DurableObservationClass_string DurableObservationP1Installed = ''P1_INSTALLED''"
| "DurableObservationClass_string DurableObservationP0Staged = ''P0_STAGED''"
| "DurableObservationClass_string DurableObservationP0None = ''P0_NONE''"
| "DurableObservationClass_string DurableObservationAmbiguousOrMismatch = ''AMBIGUOUS_OR_MISMATCH''"
| "DurableObservationClass_string (DurableObservationClassOther s) = s"

definition DurableObservationClass_Valid :: "DurableObservationClass \<Rightarrow> bool" where
  "DurableObservationClass_Valid v = oneOf v
     [DurableObservationP2Committed, DurableObservationP1Installed,
      DurableObservationP0Staged, DurableObservationP0None,
      DurableObservationAmbiguousOrMismatch]"

definition DurableObservationClass_of :: "string \<Rightarrow> DurableObservationClass" where
  "DurableObservationClass_of = from_wire DurableObservationClass_string
     [DurableObservationP2Committed, DurableObservationP1Installed,
      DurableObservationP0Staged, DurableObservationP0None,
      DurableObservationAmbiguousOrMismatch]
     DurableObservationClassOther"

interpretation DurableObservationClass_enum: string_enum DurableObservationClass_string
    "[DurableObservationP2Committed, DurableObservationP1Installed,
      DurableObservationP0Staged, DurableObservationP0None,
      DurableObservationAmbiguousOrMismatch]"
    DurableObservationClassOther DurableObservationClass_Valid
  by unfold_locales (auto simp: DurableObservationClass_Valid_def)

datatype PublicationAuthority =
    PublicationAuthorityNone
  | PublicationAuthorityP0
  | PublicationAuthorityP1
  | PublicationAuthorityP2
  | PublicationAuthorityOther string

fun PublicationAuthority_string :: "PublicationAuthority \<Rightarrow> string" where
  "PublicationAuthority_string PublicationAuthorityNone = ''none''"
| "PublicationAuthority_string PublicationAuthorityP0 = ''P0''"
| "PublicationAuthority_string PublicationAuthorityP1 = ''P1''"
| "PublicationAuthority_string PublicationAuthorityP2 = ''P2''"
| "PublicationAuthority_string (PublicationAuthorityOther s) = s"

definition PublicationAuthority_Valid :: "PublicationAuthority \<Rightarrow> bool" where
  "PublicationAuthority_Valid v = oneOf v
     [PublicationAuthorityNone, PublicationAuthorityP0, PublicationAuthorityP1,
      PublicationAuthorityP2]"

definition PublicationAuthority_of :: "string \<Rightarrow> PublicationAuthority" where
  "PublicationAuthority_of = from_wire PublicationAuthority_string
     [PublicationAuthorityNone, PublicationAuthorityP0, PublicationAuthorityP1,
      PublicationAuthorityP2]
     PublicationAuthorityOther"

interpretation PublicationAuthority_enum: string_enum PublicationAuthority_string
    "[PublicationAuthorityNone, PublicationAuthorityP0, PublicationAuthorityP1,
      PublicationAuthorityP2]"
    PublicationAuthorityOther PublicationAuthority_Valid
  by unfold_locales (auto simp: PublicationAuthority_Valid_def)

datatype RecoveryAction =
    RecoveryActionNone
  | RecoveryActionResumeCollection
  | RecoveryActionRestageValidatedCandidate
  | RecoveryActionInstallStagedFinal
  | RecoveryActionCommitCompositeEpoch
  | RecoveryActionReconstructCompletedStatus
  | RecoveryActionEmitImmutableCorruptionDiagnostic
  | RecoveryActionOther string

fun RecoveryAction_string :: "RecoveryAction \<Rightarrow> string" where
  "RecoveryAction_string RecoveryActionNone = ''none''"
| "RecoveryAction_string RecoveryActionResumeCollection = ''resume_collection''"
| "RecoveryAction_string RecoveryActionRestageValidatedCandidate = ''restage_validated_candidate''"
| "RecoveryAction_string RecoveryActionInstallStagedFinal = ''install_staged_final''"
| "RecoveryAction_string RecoveryActionCommitCompositeEpoch = ''commit_composite_epoch''"
| "RecoveryAction_string RecoveryActionReconstructCompletedStatus = ''reconstruct_completed_status''"
| "RecoveryAction_string RecoveryActionEmitImmutableCorruptionDiagnostic = ''emit_immutable_corruption_diagnostic''"
| "RecoveryAction_string (RecoveryActionOther s) = s"

definition RecoveryAction_Valid :: "RecoveryAction \<Rightarrow> bool" where
  "RecoveryAction_Valid v = oneOf v
     [RecoveryActionNone, RecoveryActionResumeCollection,
      RecoveryActionRestageValidatedCandidate, RecoveryActionInstallStagedFinal,
      RecoveryActionCommitCompositeEpoch, RecoveryActionReconstructCompletedStatus,
      RecoveryActionEmitImmutableCorruptionDiagnostic]"

definition RecoveryAction_of :: "string \<Rightarrow> RecoveryAction" where
  "RecoveryAction_of = from_wire RecoveryAction_string
     [RecoveryActionNone, RecoveryActionResumeCollection,
      RecoveryActionRestageValidatedCandidate, RecoveryActionInstallStagedFinal,
      RecoveryActionCommitCompositeEpoch, RecoveryActionReconstructCompletedStatus,
      RecoveryActionEmitImmutableCorruptionDiagnostic]
     RecoveryActionOther"

interpretation RecoveryAction_enum: string_enum RecoveryAction_string
    "[RecoveryActionNone, RecoveryActionResumeCollection,
      RecoveryActionRestageValidatedCandidate, RecoveryActionInstallStagedFinal,
      RecoveryActionCommitCompositeEpoch, RecoveryActionReconstructCompletedStatus,
      RecoveryActionEmitImmutableCorruptionDiagnostic]"
    RecoveryActionOther RecoveryAction_Valid
  by unfold_locales (auto simp: RecoveryAction_Valid_def)

fun PublicationRecoveryCompatible :: "PublicationStatus \<Rightarrow> RecoveryAction \<Rightarrow> bool" where
  "PublicationRecoveryCompatible PublicationNotPublished action =
     (action = RecoveryActionResumeCollection \<or> action = RecoveryActionRestageValidatedCandidate)"
| "PublicationRecoveryCompatible PublicationStaged action =
     (action = RecoveryActionInstallStagedFinal)"
| "PublicationRecoveryCompatible PublicationInstalled action =
     (action = RecoveryActionCommitCompositeEpoch)"
| "PublicationRecoveryCompatible PublicationCommitted action =
     (action = RecoveryActionReconstructCompletedStatus)"
| "PublicationRecoveryCompatible PublicationCorrupt action =
     (action = RecoveryActionEmitImmutableCorruptionDiagnostic)"
| "PublicationRecoveryCompatible _ action = False"

section \<open>Exit codes\<close>

datatype OperationalExitCode =
    ExitCommittedPass
  | ExitCommittedCIRejected
  | ExitConfiguration
  | ExitIncompleteCoverage
  | ExitArtifactFailure
  | ExitSecurityViolation
  | ExitCancelled
  | ExitInternalError
  | ExitOther int

fun OperationalExitCode_int :: "OperationalExitCode \<Rightarrow> int" where
  "OperationalExitCode_int ExitCommittedPass = 0"
| "OperationalExitCode_int ExitCommittedCIRejected = 1"
| "OperationalExitCode_int ExitConfiguration = 2"
| "OperationalExitCode_int ExitIncompleteCoverage = 4"
| "OperationalExitCode_int ExitArtifactFailure = 7"
| "OperationalExitCode_int ExitSecurityViolation = 8"
| "OperationalExitCode_int ExitCancelled = 9"
| "OperationalExitCode_int ExitInternalError = 10"
| "OperationalExitCode_int (ExitOther n) = n"

fun OperationalExitCode_Valid :: "OperationalExitCode \<Rightarrow> bool" where
  "OperationalExitCode_Valid (ExitOther n) = False"
| "OperationalExitCode_Valid _ = True"

fun exit_priority :: "OperationalExitCode \<Rightarrow> int" where
  "exit_priority ExitInternalError = 8"
| "exit_priority ExitSecurityViolation = 7"
| "exit_priority ExitArtifactFailure = 6"
| "exit_priority ExitCancelled = 5"
| "exit_priority ExitConfiguration = 4"
| "exit_priority ExitIncompleteCoverage = 3"
| "exit_priority ExitCommittedCIRejected = 2"
| "exit_priority ExitCommittedPass = 1"
| "exit_priority (ExitOther n) = 0"

definition isStoredNormalExit :: "OperationalExitCode \<Rightarrow> bool" where
  "isStoredNormalExit code \<longleftrightarrow>
     code = ExitCommittedPass \<or> code = ExitCommittedCIRejected \<or> code = ExitIncompleteCoverage"

section \<open>Reason codes\<close>

datatype reason_error =
    ReasonLength
  | ReasonFirstByte
  | ReasonByte
  | ReasonSpace
  | ReasonNone
  | ReasonDuplicate string

fun scan_reason :: "nat \<Rightarrow> string \<Rightarrow> reason_error option" where
  "scan_reason i [] = None"
| "scan_reason i (c # cs) =
     (if i = 0 then (if \<not> is_lower_byte c then Some ReasonFirstByte else scan_reason (Suc i) cs)
      else if is_lower_byte c \<or> is_digit_byte c \<or> c = CHR ''_'' then scan_reason (Suc i) cs
      else Some ReasonByte)"

definition validatePublicationReasonCode :: "string \<Rightarrow> reason_error option" where
  "validatePublicationReasonCode reason =
     (if length reason = 0 \<or> length reason > 64 then Some ReasonLength
      else case scan_reason 0 reason of
        Some e \<Rightarrow> Some e
      | None \<Rightarrow> if TrimSpace reason \<noteq> reason then Some ReasonSpace else None)"

fun scan_reasons :: "string set \<Rightarrow> string list \<Rightarrow> reason_error option" where
  "scan_reasons seen [] = None"
| "scan_reasons seen (r # rs) =
     (case validatePublicationReasonCode r of
        Some e \<Rightarrow> Some e
      | None \<Rightarrow> if r \<in> seen then Some (ReasonDuplicate r) else scan_reasons (insert r seen) rs)"

definition validatePublicationReasonCodes :: "string list \<Rightarrow> reason_error option" where
  "validatePublicationReasonCodes reasons =
     (if reasons = [] then Some ReasonNone else scan_reasons {} reasons)"

section \<open>The classifier's input and decision\<close>

record PublicationClassifierInput =
  pci_journalState :: PersistedJournalState
  pci_observation :: DurableObservationClass
  pci_storedNormalExit :: "OperationalExitCode option"
  pci_ambiguityReasons :: "string list"

record PublicationDecision =
  pd_status :: PublicationStatus
  pd_authority :: PublicationAuthority
  pd_action :: RecoveryAction
  pd_exitCode :: "OperationalExitCode option"
  pd_reasons :: "string list"

datatype publication_error =
    JournalUnknown string
  | ObservationUnknown string
  | P2NeedsStoredExit
  | StoredExitForbidden
  | AmbiguityReasons reason_error
  | AmbiguityReasonsForbidden
  | StatusUnknown string
  | AuthorityUnknown string
  | ActionUnknown string
  | ActionIncompatible string string
  | CommittedShape
  | InstalledShape
  | StagedShape
  | NotPublishedShape
  | CorruptShape
  | CorruptReasons reason_error
  | ObservationUnhandled string
  | ExitCodeUnknown int
  | ExitReasonCode reason_error
  | ExitReasonsEmpty
  | ExitReasonAt nat publication_error

definition PublicationClassifierInput_validate ::
    "PublicationClassifierInput \<Rightarrow> publication_error option" where
  "PublicationClassifierInput_validate i =
     (if \<not> PersistedJournalState_Valid (pci_journalState i)
        then Some (JournalUnknown (PersistedJournalState_string (pci_journalState i)))
      else if \<not> DurableObservationClass_Valid (pci_observation i)
        then Some (ObservationUnknown (DurableObservationClass_string (pci_observation i)))
      else case (if pci_observation i = DurableObservationP2Committed
                   then (case pci_storedNormalExit i of
                           None \<Rightarrow> Some P2NeedsStoredExit
                         | Some code \<Rightarrow> if \<not> isStoredNormalExit code then Some P2NeedsStoredExit
                                        else None)
                 else if pci_storedNormalExit i \<noteq> None then Some StoredExitForbidden
                 else None) of
        Some e \<Rightarrow> Some e
      | None \<Rightarrow>
          if pci_observation i = DurableObservationAmbiguousOrMismatch
          then (case validatePublicationReasonCodes (pci_ambiguityReasons i) of
                  Some e \<Rightarrow> Some (AmbiguityReasons e) | None \<Rightarrow> None)
          else if pci_ambiguityReasons i \<noteq> [] then Some AmbiguityReasonsForbidden
          else None)"

definition NewPublicationClassifierInput ::
    "PersistedJournalState \<Rightarrow> DurableObservationClass \<Rightarrow> OperationalExitCode option
      \<Rightarrow> string list \<Rightarrow> publication_error + PublicationClassifierInput" where
  "NewPublicationClassifierInput journal observation stored reasons =
     (let i = \<lparr>pci_journalState = journal, pci_observation = observation,
               pci_storedNormalExit = stored, pci_ambiguityReasons = reasons\<rparr>
      in case PublicationClassifierInput_validate i of Some e \<Rightarrow> Inl e | None \<Rightarrow> Inr i)"

definition PublicationDecision_shape :: "PublicationDecision \<Rightarrow> publication_error option" where
  "PublicationDecision_shape d =
     (case pd_status d of
        PublicationCommitted \<Rightarrow>
          (if pd_authority d \<noteq> PublicationAuthorityP2 \<or> pd_exitCode d = None \<or>
              \<not> isStoredNormalExit (the (pd_exitCode d)) \<or> pd_reasons d \<noteq> []
           then Some CommittedShape else None)
      | PublicationInstalled \<Rightarrow>
          (if pd_authority d \<noteq> PublicationAuthorityP1 \<or> pd_exitCode d \<noteq> None \<or> pd_reasons d \<noteq> []
           then Some InstalledShape else None)
      | PublicationStaged \<Rightarrow>
          (if pd_authority d \<noteq> PublicationAuthorityP0 \<or> pd_exitCode d \<noteq> None \<or> pd_reasons d \<noteq> []
           then Some StagedShape else None)
      | PublicationNotPublished \<Rightarrow>
          (if pd_authority d \<noteq> PublicationAuthorityNone \<or> pd_exitCode d \<noteq> None \<or> pd_reasons d \<noteq> []
           then Some NotPublishedShape else None)
      | PublicationCorrupt \<Rightarrow>
          (if pd_authority d \<noteq> PublicationAuthorityNone \<or> pd_exitCode d \<noteq> Some ExitArtifactFailure
           then Some CorruptShape
           else case validatePublicationReasonCodes (pd_reasons d) of
             Some e \<Rightarrow> Some (CorruptReasons e) | None \<Rightarrow> None)
      | s \<Rightarrow> Some (StatusUnknown (PublicationStatus_string s)))"

definition PublicationDecision_validate :: "PublicationDecision \<Rightarrow> publication_error option" where
  "PublicationDecision_validate d =
     (if \<not> PublicationStatus_Valid (pd_status d)
        then Some (StatusUnknown (PublicationStatus_string (pd_status d)))
      else if \<not> PublicationAuthority_Valid (pd_authority d)
        then Some (AuthorityUnknown (PublicationAuthority_string (pd_authority d)))
      else if \<not> RecoveryAction_Valid (pd_action d)
        then Some (ActionUnknown (RecoveryAction_string (pd_action d)))
      else if \<not> PublicationRecoveryCompatible (pd_status d) (pd_action d)
        then Some (ActionIncompatible (RecoveryAction_string (pd_action d))
                     (PublicationStatus_string (pd_status d)))
      else PublicationDecision_shape d)"

definition NewPublicationDecision ::
    "PublicationStatus \<Rightarrow> PublicationAuthority \<Rightarrow> RecoveryAction \<Rightarrow> OperationalExitCode option
      \<Rightarrow> string list \<Rightarrow> publication_error + PublicationDecision" where
  "NewPublicationDecision status authority action exitCode reasons =
     (let d = \<lparr>pd_status = status, pd_authority = authority, pd_action = action,
               pd_exitCode = exitCode, pd_reasons = reasons\<rparr>
      in case PublicationDecision_validate d of Some e \<Rightarrow> Inl e | None \<Rightarrow> Inr d)"

section \<open>The classifier\<close>

definition StoredNormalExit :: "PublicationClassifierInput \<Rightarrow> OperationalExitCode \<times> bool" where
  "StoredNormalExit i =
     (case pci_storedNormalExit i of None \<Rightarrow> (ExitCommittedPass, False) | Some c \<Rightarrow> (c, True))"

definition corrupt_decision :: "string list \<Rightarrow> publication_error + PublicationDecision" where
  "corrupt_decision reasons =
     NewPublicationDecision PublicationCorrupt PublicationAuthorityNone
       RecoveryActionEmitImmutableCorruptionDiagnostic (Some ExitArtifactFailure) reasons"

definition classify_unobserved ::
    "PublicationClassifierInput \<Rightarrow> publication_error + PublicationDecision" where
  "classify_unobserved i =
     (case pci_journalState i of
        JournalCollecting \<Rightarrow>
          NewPublicationDecision PublicationNotPublished PublicationAuthorityNone
            RecoveryActionResumeCollection None []
      | JournalContentValidated \<Rightarrow>
          NewPublicationDecision PublicationNotPublished PublicationAuthorityNone
            RecoveryActionRestageValidatedCandidate None []
      | JournalFinalStaged \<Rightarrow>
          NewPublicationDecision PublicationNotPublished PublicationAuthorityNone
            RecoveryActionRestageValidatedCandidate None []
      | JournalFinalFileInstalled \<Rightarrow> corrupt_decision [''missing_required_durable_effect'']
      | JournalManifestCommitted \<Rightarrow> corrupt_decision [''missing_required_durable_effect'']
      | JournalCompleted \<Rightarrow> corrupt_decision [''missing_required_durable_effect'']
      | _ \<Rightarrow> Inl (ObservationUnhandled (DurableObservationClass_string (pci_observation i))))"

definition ClassifyPublication ::
    "PublicationClassifierInput \<Rightarrow> publication_error + PublicationDecision" where
  "ClassifyPublication i =
     (case PublicationClassifierInput_validate i of
        Some e \<Rightarrow> Inl e
      | None \<Rightarrow>
          (case pci_observation i of
             DurableObservationAmbiguousOrMismatch \<Rightarrow> corrupt_decision (pci_ambiguityReasons i)
           | DurableObservationP2Committed \<Rightarrow>
               NewPublicationDecision PublicationCommitted PublicationAuthorityP2
                 RecoveryActionReconstructCompletedStatus (Some (fst (StoredNormalExit i))) []
           | DurableObservationP1Installed \<Rightarrow>
               NewPublicationDecision PublicationInstalled PublicationAuthorityP1
                 RecoveryActionCommitCompositeEpoch None []
           | DurableObservationP0Staged \<Rightarrow>
               NewPublicationDecision PublicationStaged PublicationAuthorityP0
                 RecoveryActionInstallStagedFinal None []
           | DurableObservationP0None \<Rightarrow> classify_unobserved i
           | o' \<Rightarrow> Inl (ObservationUnhandled (DurableObservationClass_string o'))))"

section \<open>Exit reasons\<close>

record ExitReason =
  er_code :: OperationalExitCode
  er_reasonCode :: string

definition ExitReason_validate :: "ExitReason \<Rightarrow> publication_error option" where
  "ExitReason_validate r =
     (if \<not> OperationalExitCode_Valid (er_code r)
        then Some (ExitCodeUnknown (OperationalExitCode_int (er_code r)))
      else case validatePublicationReasonCode (er_reasonCode r) of
        Some e \<Rightarrow> Some (ExitReasonCode e) | None \<Rightarrow> None)"

definition NewExitReason :: "OperationalExitCode \<Rightarrow> string \<Rightarrow> publication_error + ExitReason" where
  "NewExitReason code reasonCode =
     (let r = \<lparr>er_code = code, er_reasonCode = reasonCode\<rparr>
      in case ExitReason_validate r of Some e \<Rightarrow> Inl e | None \<Rightarrow> Inr r)"

fun validate_exit_reasons :: "nat \<Rightarrow> ExitReason list \<Rightarrow> publication_error option" where
  "validate_exit_reasons i [] = None"
| "validate_exit_reasons i (r # rs) =
     (case ExitReason_validate r of
        Some e \<Rightarrow> Some (ExitReasonAt i e)
      | None \<Rightarrow> validate_exit_reasons (Suc i) rs)"

text \<open>\<open>OperationalExitInput\<close> holds just the reasons.\<close>

definition OperationalExitInput_validate :: "ExitReason list \<Rightarrow> publication_error option" where
  "OperationalExitInput_validate reasons =
     (if reasons = [] then Some ExitReasonsEmpty else validate_exit_reasons 0 reasons)"

definition NewOperationalExitInput :: "ExitReason list \<Rightarrow> publication_error + ExitReason list" where
  "NewOperationalExitInput reasons =
     (case OperationalExitInput_validate reasons of Some e \<Rightarrow> Inl e | None \<Rightarrow> Inr reasons)"

record OperationalExitDecision =
  oed_code :: OperationalExitCode
  oed_reasons :: "ExitReason list"

definition exit_precedes :: "OperationalExitCode \<Rightarrow> OperationalExitCode \<Rightarrow> bool" where
  "exit_precedes a b \<longleftrightarrow> exit_priority a > exit_priority b"

definition ReduceOperationalExit ::
    "ExitReason list \<Rightarrow> publication_error + OperationalExitDecision" where
  "ReduceOperationalExit reasons =
     (case OperationalExitInput_validate reasons of
        Some e \<Rightarrow> Inl e
      | None \<Rightarrow>
          Inr \<lparr>oed_code = pick_best exit_precedes (er_code (hd reasons)) (map er_code (tl reasons)),
               oed_reasons = reasons\<rparr>)"

section \<open>What the classifier decides\<close>

text \<open>
  The authority of an observation: a function of the durable facts alone, and the statement of
  the whole matrix.
\<close>

fun observed_authority :: "DurableObservationClass \<Rightarrow> PublicationAuthority" where
  "observed_authority DurableObservationP2Committed = PublicationAuthorityP2"
| "observed_authority DurableObservationP1Installed = PublicationAuthorityP1"
| "observed_authority DurableObservationP0Staged = PublicationAuthorityP0"
| "observed_authority _ = PublicationAuthorityNone"

definition early_journal :: "PersistedJournalState \<Rightarrow> bool" where
  "early_journal j \<longleftrightarrow> j \<in> {JournalCollecting, JournalContentValidated, JournalFinalStaged}"

definition terminal_status :: "PublicationStatus \<Rightarrow> bool" where
  "terminal_status s \<longleftrightarrow> s \<in> {PublicationCommitted, PublicationCorrupt}"

lemma missing_effect_reason [simp]:
  "validatePublicationReasonCodes [''missing_required_durable_effect''] = None"
  by code_simp

lemma vocabulary_valid [simp]:
  "PublicationStatus_Valid PublicationNotPublished" "PublicationStatus_Valid PublicationStaged"
  "PublicationStatus_Valid PublicationInstalled" "PublicationStatus_Valid PublicationCommitted"
  "PublicationStatus_Valid PublicationCorrupt"
  "PublicationAuthority_Valid PublicationAuthorityNone"
  "PublicationAuthority_Valid PublicationAuthorityP0"
  "PublicationAuthority_Valid PublicationAuthorityP1"
  "PublicationAuthority_Valid PublicationAuthorityP2"
  "RecoveryAction_Valid RecoveryActionResumeCollection"
  "RecoveryAction_Valid RecoveryActionRestageValidatedCandidate"
  "RecoveryAction_Valid RecoveryActionInstallStagedFinal"
  "RecoveryAction_Valid RecoveryActionCommitCompositeEpoch"
  "RecoveryAction_Valid RecoveryActionReconstructCompletedStatus"
  "RecoveryAction_Valid RecoveryActionEmitImmutableCorruptionDiagnostic"
  by (simp_all add: PublicationStatus_Valid_def PublicationAuthority_Valid_def
      RecoveryAction_Valid_def)

lemma classifier_input_cases:
  assumes "PublicationClassifierInput_validate i = None"
  obtains (ambiguous) "pci_observation i = DurableObservationAmbiguousOrMismatch"
      "validatePublicationReasonCodes (pci_ambiguityReasons i) = None"
      "pci_storedNormalExit i = None"
  | (p2) code where "pci_observation i = DurableObservationP2Committed"
      "pci_storedNormalExit i = Some code" "isStoredNormalExit code" "pci_ambiguityReasons i = []"
  | (p1) "pci_observation i = DurableObservationP1Installed" "pci_storedNormalExit i = None"
      "pci_ambiguityReasons i = []"
  | (p0) "pci_observation i = DurableObservationP0Staged" "pci_storedNormalExit i = None"
      "pci_ambiguityReasons i = []"
  | (low) "pci_observation i = DurableObservationP0None" "pci_storedNormalExit i = None"
      "pci_ambiguityReasons i = []" "PersistedJournalState_Valid (pci_journalState i)"
  using assms
  by (cases "pci_observation i"; cases "pci_storedNormalExit i")
    (auto simp: PublicationClassifierInput_validate_def DurableObservationClass_Valid_def
      split: if_splits option.splits)

lemma valid_journal_cases:
  "PersistedJournalState_Valid j \<Longrightarrow>
    j = JournalCollecting \<or> j = JournalContentValidated \<or> j = JournalFinalStaged \<or>
    j = JournalFinalFileInstalled \<or> j = JournalManifestCommitted \<or> j = JournalCompleted"
  by (simp add: PersistedJournalState_Valid_def)

lemmas classify_defs = ClassifyPublication_def classify_unobserved_def corrupt_decision_def
  NewPublicationDecision_def PublicationDecision_validate_def PublicationDecision_shape_def
  StoredNormalExit_def Let_def

lemma classify_total:
  assumes "PublicationClassifierInput_validate i = None"
  obtains d where "ClassifyPublication i = Inr d" "PublicationDecision_validate d = None"
    "pd_authority d = observed_authority (pci_observation i)"
    "pd_exitCode d \<noteq> None \<longleftrightarrow> terminal_status (pd_status d)"
    "pd_status d = PublicationCorrupt \<longleftrightarrow>
       pci_observation i = DurableObservationAmbiguousOrMismatch \<or>
       pci_observation i = DurableObservationP0None \<and> \<not> early_journal (pci_journalState i)"
    "pd_status d = PublicationCommitted \<longrightarrow> pd_exitCode d = pci_storedNormalExit i"
proof -
  have "\<exists>d. ClassifyPublication i = Inr d \<and> PublicationDecision_validate d = None \<and>
    pd_authority d = observed_authority (pci_observation i) \<and>
    (pd_exitCode d \<noteq> None \<longleftrightarrow> terminal_status (pd_status d)) \<and>
    (pd_status d = PublicationCorrupt \<longleftrightarrow>
       pci_observation i = DurableObservationAmbiguousOrMismatch \<or>
       pci_observation i = DurableObservationP0None \<and> \<not> early_journal (pci_journalState i)) \<and>
    (pd_status d = PublicationCommitted \<longrightarrow> pd_exitCode d = pci_storedNormalExit i)"
    using assms
  proof (cases rule: classifier_input_cases)
    case low
    from valid_journal_cases [OF low(4)] show ?thesis
      using low assms
      by (elim disjE) (simp_all add: classify_defs terminal_status_def early_journal_def)
  qed (use assms in \<open>simp_all add: classify_defs terminal_status_def\<close>)
  then show ?thesis using that by blast
qed

lemma classify_journal_irrelevant:
  assumes "PublicationClassifierInput_validate i = None"
    and "PublicationClassifierInput_validate (i\<lparr>pci_journalState := j\<rparr>) = None"
    and "pci_observation i \<noteq> DurableObservationP0None"
  shows "ClassifyPublication (i\<lparr>pci_journalState := j\<rparr>) = ClassifyPublication i"
  using assms by (simp add: ClassifyPublication_def StoredNormalExit_def
      split: DurableObservationClass.split)

text \<open>The validator of decisions accepts nothing but what the classifier can produce.\<close>

lemma decision_reachable:
  assumes "PublicationDecision_validate d = None"
  shows "\<exists>i. PublicationClassifierInput_validate i = None \<and> ClassifyPublication i = Inr d"
proof -
  define i where "i obs jou = \<lparr>pci_journalState = jou, pci_observation = obs,
    pci_storedNormalExit = (if obs = DurableObservationP2Committed then pd_exitCode d else None),
    pci_ambiguityReasons = pd_reasons d\<rparr>" for obs jou
  have compat: "PublicationRecoveryCompatible (pd_status d) (pd_action d)"
    and shape: "PublicationDecision_shape d = None"
    using assms unfolding PublicationDecision_validate_def early_return by simp_all
  have jv [simp]: "PersistedJournalState_Valid JournalCollecting"
    "PersistedJournalState_Valid JournalContentValidated"
    by (simp_all add: PersistedJournalState_Valid_def)
  have ov [simp]: "DurableObservationClass_Valid DurableObservationP2Committed"
    "DurableObservationClass_Valid DurableObservationP1Installed"
    "DurableObservationClass_Valid DurableObservationP0Staged"
    "DurableObservationClass_Valid DurableObservationP0None"
    "DurableObservationClass_Valid DurableObservationAmbiguousOrMismatch"
    by (simp_all add: DurableObservationClass_Valid_def)
  note defs = i_def PublicationClassifierInput_validate_def classify_defs
  show ?thesis
  proof (cases "pd_status d")
    case PublicationCommitted
    then show ?thesis using compat shape
      by (intro exI [of _ "i DurableObservationP2Committed JournalCollecting"])
        (auto simp: defs split: if_splits)
  next
    case PublicationInstalled
    then show ?thesis using compat shape
      by (intro exI [of _ "i DurableObservationP1Installed JournalCollecting"])
        (auto simp: defs split: if_splits)
  next
    case PublicationStaged
    then show ?thesis using compat shape
      by (intro exI [of _ "i DurableObservationP0Staged JournalCollecting"])
        (auto simp: defs split: if_splits)
  next
    case PublicationNotPublished
    then show ?thesis using compat shape
      by (intro exI [of _ "i DurableObservationP0None
            (if pd_action d = RecoveryActionResumeCollection then JournalCollecting
             else JournalContentValidated)"])
        (auto simp: defs split: if_splits)
  next
    case PublicationCorrupt
    then show ?thesis using compat shape
      by (intro exI [of _ "i DurableObservationAmbiguousOrMismatch JournalCollecting"])
        (auto simp: defs split: if_splits option.splits)
  next
    case (PublicationStatusOther s)
    then show ?thesis using compat by simp
  qed
qed

section \<open>What the reduction selects\<close>

interpretation exit_order: sort_order exit_precedes
  using sort_order_key [of "\<lambda>c. - exit_priority c"] by (simp add: exit_precedes_def [abs_def])

lemma exit_priority_inject:
  "OperationalExitCode_Valid a \<Longrightarrow> exit_priority a = exit_priority b \<longleftrightarrow> a = b"
  by (cases a; cases b) auto

lemma validate_exit_reasons_None:
  "validate_exit_reasons i rs = None \<longleftrightarrow> (\<forall>r \<in> set rs. ExitReason_validate r = None)"
  by (induction rs arbitrary: i) (auto split: option.splits)

lemma ReduceOperationalExit_Inr:
  assumes "ReduceOperationalExit rs = Inr d"
  shows "oed_reasons d = rs" "oed_code d \<in> er_code ` set rs"
    "\<forall>r \<in> set rs. exit_priority (er_code r) \<le> exit_priority (oed_code d)"
    "OperationalExitCode_Valid (oed_code d)"
proof -
  have ne: "rs \<noteq> []" and ok: "\<forall>r \<in> set rs. ExitReason_validate r = None"
    and d: "d = \<lparr>oed_code = pick_best exit_precedes (er_code (hd rs)) (map er_code (tl rs)),
               oed_reasons = rs\<rparr>"
    using assms by (auto simp: ReduceOperationalExit_def OperationalExitInput_validate_def
        early_return validate_exit_reasons_None)
  have codes: "set (er_code (hd rs) # map er_code (tl rs)) = er_code ` set rs"
    using ne by (cases rs) simp_all
  show "oed_reasons d = rs" by (simp add: d)
  show mem: "oed_code d \<in> er_code ` set rs"
    using exit_order.pick_best_in [of "er_code (hd rs)" "map er_code (tl rs)"]
    by (simp only: codes d OperationalExitDecision.select_convs)
  show "\<forall>r \<in> set rs. exit_priority (er_code r) \<le> exit_priority (oed_code d)"
  proof
    fix r assume "r \<in> set rs"
    then have "er_code r \<in> set (er_code (hd rs) # map er_code (tl rs))"
      unfolding codes by simp
    from exit_order.pick_best_least [OF this]
    show "exit_priority (er_code r) \<le> exit_priority (oed_code d)"
      by (simp add: d exit_precedes_def)
  qed
  show "OperationalExitCode_Valid (oed_code d)"
    using mem ok by (auto simp: ExitReason_validate_def early_return)
qed

lemma ReduceOperationalExit_perm:
  assumes "ReduceOperationalExit rs = Inr d" "ReduceOperationalExit rs' = Inr d'"
    and "set rs = set rs'"
  shows "oed_code d = oed_code d'"
proof -
  note A = ReduceOperationalExit_Inr [OF assms(1)] and B = ReduceOperationalExit_Inr [OF assms(2)]
  have "exit_priority (oed_code d) = exit_priority (oed_code d')"
    using A(2,3) B(2,3) assms(3) by (auto intro!: antisym)
  then show ?thesis using exit_priority_inject [OF A(4)] by simp
qed

end
