(* ===== verification/Compositions.thy ===== *)
theory Compositions
  imports RoleTasks Targets Sha256
begin

text \<open>
  Compositions (\<open>internal/domain/composition.go\<close>): the fingerprint of a root and a mapping of
  roles to sources, the run identity derived from it, and the closed reason codes. The source
  list is sorted by role position; two sources of one role are rejected after the sort, so the
  order that Go's unstable sort leaves them in shows at most in which error is reported.
  Domain events (\<open>event.go\<close>) follow.
\<close>

unbundle bit_operations_syntax

section \<open>Vocabulary\<close>

datatype CompositionState =
    CompositionCreated
  | CompositionReconciled
  | CompositionNotCommitted
  | CompositionStatusRequired
  | CompositionStateOther string

fun CompositionState_string :: "CompositionState \<Rightarrow> string" where
  "CompositionState_string CompositionCreated = ''created''"
| "CompositionState_string CompositionReconciled = ''reconciled''"
| "CompositionState_string CompositionNotCommitted = ''not_committed''"
| "CompositionState_string CompositionStatusRequired = ''status_required''"
| "CompositionState_string (CompositionStateOther s) = s"

definition CompositionState_Valid :: "CompositionState \<Rightarrow> bool" where
  "CompositionState_Valid v = oneOf v
     [CompositionCreated, CompositionReconciled, CompositionNotCommitted,
      CompositionStatusRequired]"

definition CompositionState_of :: "string \<Rightarrow> CompositionState" where
  "CompositionState_of = from_wire CompositionState_string
     [CompositionCreated, CompositionReconciled, CompositionNotCommitted,
      CompositionStatusRequired]
     CompositionStateOther"

interpretation CompositionState_enum: string_enum CompositionState_string
    "[CompositionCreated, CompositionReconciled, CompositionNotCommitted,
      CompositionStatusRequired]"
    CompositionStateOther CompositionState_Valid
  by unfold_locales (auto simp: CompositionState_Valid_def)

definition CompositeReasonCodes :: "string list" where
  "CompositeReasonCodes =
     [''composite_target_mismatch'', ''composite_target_digest_invalid'',
      ''composite_lineage_mismatch'', ''composite_role_not_required'',
      ''composite_role_already_satisfied'', ''composite_recovery_incomplete'',
      ''composite_recovery_unavailable'', ''composite_selection_ambiguous'',
      ''composite_validation_failed'', ''composite_publication_incomplete'']"

definition ValidCompositeReasonCode :: "string \<Rightarrow> bool" where
  "ValidCompositeReasonCode v = list_ex (\<lambda>c. v = c) CompositeReasonCodes"

section \<open>Sources\<close>

record CompositionSource =
  cs_role :: Role
  cs_runID :: RunID
  cs_reviewID :: ReviewID
  cs_attemptID :: AttemptID

datatype composition_error =
    CompositionSourceInvalid
  | CompositionRecoveryRootInvalid
  | CompositionUnbounded
  | CompositionBadSource
  | CompositionDuplicateRole string
  | CompositionFingerprintInvalid
  | CompositionDigestInvalid
  | CompositionRunID id_error
  | CompositionIndexPanic

definition source_complete :: "CompositionSource \<Rightarrow> bool" where
  "source_complete s \<longleftrightarrow>
     Role_Valid (cs_role s) \<and> RunID_String (cs_runID s) \<noteq> '''' \<and>
     ReviewID_String (cs_reviewID s) \<noteq> '''' \<and> AttemptID_String (cs_attemptID s) \<noteq> ''''"

definition NewCompositionSource ::
    "Role \<Rightarrow> RunID \<Rightarrow> ReviewID \<Rightarrow> AttemptID \<Rightarrow> composition_error + CompositionSource" where
  "NewCompositionSource role run review attempt =
     (let s = \<lparr>cs_role = role, cs_runID = run, cs_reviewID = review, cs_attemptID = attempt\<rparr>
      in if \<not> source_complete s then Inl CompositionSourceInvalid else Inr s)"

section \<open>The fingerprint\<close>

text \<open>\<open>writeCompositionField\<close>: the length in decimal, a colon, the value and a bar.\<close>

definition composition_field :: "string \<Rightarrow> string" where
  "composition_field v = dec (length v) @ '':'' @ v @ ''|''"

definition source_fields :: "CompositionSource \<Rightarrow> string" where
  "source_fields s =
     composition_field (Role_string (cs_role s)) @
     composition_field (RunID_String (cs_runID s)) @
     composition_field (AttemptID_String (cs_attemptID s))"

fun composition_scan ::
    "Role set \<Rightarrow> string \<Rightarrow> CompositionSource list \<Rightarrow> composition_error + string" where
  "composition_scan seen out [] = Inr out"
| "composition_scan seen out (s # ss) =
     (if \<not> source_complete s then Inl CompositionBadSource
      else if cs_role s \<in> seen then Inl (CompositionDuplicateRole (Role_string (cs_role s)))
      else composition_scan (insert (cs_role s) seen) (out @ source_fields s) ss)"

definition position_less :: "CompositionSource \<Rightarrow> CompositionSource \<Rightarrow> bool" where
  "position_less a b \<longleftrightarrow> rolePosition (cs_role a) < rolePosition (cs_role b)"

definition composition_head :: "RunID \<Rightarrow> string \<Rightarrow> string" where
  "composition_head root recovery =
     (if recovery = '''' then ''mulgae-review-composition-v1'' @ [CHR 0x00]
      else ''mulgae-review-composition-v2'' @ [CHR 0x00]) @
     composition_field (RunID_String root) @
     (if recovery \<noteq> '''' then composition_field recovery else [])"

datatype CompositionFingerprint = CompositionFingerprint (fingerprint_value: string)

definition compositionFingerprint ::
    "RunID \<Rightarrow> string \<Rightarrow> CompositionSource list \<Rightarrow> composition_error + CompositionFingerprint" where
  "compositionFingerprint root recovery sources =
     (if RunID_String root = '''' \<or> length sources = 0 \<or> length sources > length FixedRoleOrder
        then Inl CompositionUnbounded
      else case composition_scan {} (composition_head root recovery)
                  (sort_slice position_less sources) of
        Inl e \<Rightarrow> Inl e
      | Inr inp \<Rightarrow> Inr (CompositionFingerprint (''sha256:'' @ sha256_hex inp)))"

definition NewCompositionFingerprint ::
    "RunID \<Rightarrow> CompositionSource list \<Rightarrow> composition_error + CompositionFingerprint" where
  "NewCompositionFingerprint root sources = compositionFingerprint root '''' sources"

definition NewRecoveryCompositionFingerprint ::
    "SourceReference \<Rightarrow> CompositionSource list \<Rightarrow> composition_error + CompositionFingerprint" where
  "NewRecoveryCompositionFingerprint root sources =
     (if \<not> SourceReference_Valid root \<or> SourceReference_Kind root \<noteq> ''failed_run_recovery''
        then Inl CompositionRecoveryRootInvalid
      else compositionFingerprint (source_runID root) (source_recoverySHA256 root) sources)"

section \<open>The derived run identity\<close>

text \<open>\<open>hex.DecodeString\<close> accepts digits of both cases and an even length.\<close>

definition hex_value :: "char \<Rightarrow> nat option" where
  "hex_value c =
     (if CHR ''0'' \<le> c \<and> c \<le> CHR ''9'' then Some (of_char c - 48)
      else if CHR ''a'' \<le> c \<and> c \<le> CHR ''f'' then Some (of_char c - 87)
      else if CHR ''A'' \<le> c \<and> c \<le> CHR ''F'' then Some (of_char c - 55)
      else None)"

fun hex_decode :: "string \<Rightarrow> nat list option" where
  "hex_decode [] = Some []"
| "hex_decode [c] = None"
| "hex_decode (c # d # s) =
     (case (hex_value c, hex_value d, hex_decode s) of
        (Some h, Some l, Some bs) \<Rightarrow> Some ((16 * h + l) # bs)
      | _ \<Rightarrow> None)"

definition stamp_uuid :: "nat list \<Rightarrow> nat list" where
  "stamp_uuid bs =
     (let u = bs[6 := (bs ! 6 AND 0x0f) OR 0x70] in u[8 := (u ! 8 AND 0x3f) OR 0x80])"

definition slice :: "nat \<Rightarrow> nat \<Rightarrow> 'a list \<Rightarrow> 'a list" where
  "slice i j xs = take (j - i) (drop i xs)"

definition uuid_text :: "nat list \<Rightarrow> string" where
  "uuid_text u =
     hex_encode (slice 0 4 u) @ ''-'' @ hex_encode (slice 4 6 u) @ ''-'' @
     hex_encode (slice 6 8 u) @ ''-'' @ hex_encode (slice 8 10 u) @ ''-'' @
     hex_encode (slice 10 16 u)"

definition CompositionFingerprint_RunID ::
    "CompositionFingerprint \<Rightarrow> composition_error + RunID" where
  "CompositionFingerprint_RunID f =
     (let v = fingerprint_value f
      in if length v \<noteq> length ''sha256:'' + 32 * 2 \<or> \<not> HasPrefix v ''sha256:''
           then Inl CompositionFingerprintInvalid
         else case hex_decode (TrimPrefix v ''sha256:'') of
           None \<Rightarrow> Inl CompositionDigestInvalid
         | Some decoded \<Rightarrow>
             if length decoded \<noteq> 32 then Inl CompositionDigestInvalid
             else case ParseRunID (''r_'' @ uuid_text (stamp_uuid (take 16 decoded))) of
               Inl e \<Rightarrow> Inl (CompositionRunID e) | Inr i \<Rightarrow> Inr i)"

section \<open>Domain events\<close>

record DomainEvent =
  ev_sequence :: uint64
  ev_occurredAt :: go_time
  ev_kind :: string
  ev_aggregateID :: string
  ev_payload :: string

datatype event_error =
    EventSequenceZero
  | EventTimestampZero
  | EventTimestampNotUTC
  | EventKindEmpty
  | EventAggregateEmpty

definition NewDomainEvent ::
    "uint64 \<Rightarrow> go_time \<Rightarrow> string \<Rightarrow> string \<Rightarrow> string \<Rightarrow> event_error + DomainEvent" where
  "NewDomainEvent sequence occurredAt kind aggregateID payload =
     (if sequence = 0 then Inl EventSequenceZero
      else if time_IsZero occurredAt then Inl EventTimestampZero
      else if \<not> time_utc occurredAt then Inl EventTimestampNotUTC
      else if TrimSpace kind = '''' then Inl EventKindEmpty
      else if TrimSpace aggregateID = '''' then Inl EventAggregateEmpty
      else Inr \<lparr>ev_sequence = sequence, ev_occurredAt = occurredAt, ev_kind = kind,
                ev_aggregateID = aggregateID, ev_payload = payload\<rparr>)"

section \<open>The order of the sources does not matter\<close>

interpretation position_order: sort_order position_less
  using sort_order_key [of "\<lambda>s. rolePosition (cs_role s)"] by (simp add: position_less_def [abs_def])

lemma composition_scan_Inr:
  "composition_scan seen out ss = Inr r \<longleftrightarrow>
     (\<forall>s \<in> set ss. source_complete s \<and> cs_role s \<notin> seen) \<and> distinct (map cs_role ss) \<and>
     r = out @ concat (map source_fields ss)"
proof (induction ss arbitrary: seen out)
  case (Cons s ss)
  have fresh: "(\<forall>x \<in> set ss. cs_role x \<notin> insert (cs_role s) seen) \<longleftrightarrow>
      cs_role s \<notin> cs_role ` set ss \<and> (\<forall>x \<in> set ss. cs_role x \<notin> seen)"
    unfolding image_iff insert_iff de_Morgan_disj ball_conj_distrib by metis
  show ?case
    unfolding composition_scan.simps early_return Cons.IH ball_conj_distrib fresh by auto
qed auto

lemma sources_separated:
  assumes "\<forall>s \<in> set ss. source_complete s" "distinct (map cs_role ss)"
  shows "position_order.separated (set ss)"
  unfolding position_order.separated_def position_less_def
proof (intro ballI impI)
  fix x y
  assume "x \<in> set ss" "y \<in> set ss" "\<not> rolePosition (cs_role x) < rolePosition (cs_role y)"
    "\<not> rolePosition (cs_role y) < rolePosition (cs_role x)"
  moreover from this have "cs_role x = cs_role y"
    using assms(1) rolePosition_inject [of "cs_role x" "cs_role y"] by (auto simp: source_complete_def)
  ultimately show "x = y" using assms(2) by (auto simp: distinct_map dest: inj_onD)
qed

lemma compositionFingerprint_Inr:
  "compositionFingerprint root recovery ss = Inr f \<longleftrightarrow>
     RunID_String root \<noteq> '''' \<and> ss \<noteq> [] \<and> length ss \<le> length FixedRoleOrder \<and>
     (\<forall>s \<in> set ss. source_complete s) \<and> distinct (map cs_role (sort_slice position_less ss)) \<and>
     f = CompositionFingerprint (''sha256:'' @ sha256_hex (composition_head root recovery @
           concat (map source_fields (sort_slice position_less ss))))"
  unfolding compositionFingerprint_def early_return composition_scan_Inr by auto

lemma distinct_map_sort: "distinct (map f (sort_slice lt xs)) = distinct (map f xs)"
proof -
  have "mset (map f (sort_slice lt xs)) = mset (map f xs)" by simp
  then show ?thesis by (metis mset_eq_imp_distinct_iff)
qed

lemma compositionFingerprint_permutation:
  assumes "compositionFingerprint root recovery xs = Inr f" "mset xs = mset ys"
  shows "compositionFingerprint root recovery ys = Inr f"
proof -
  have ok: "\<forall>s \<in> set xs. source_complete s" "distinct (map cs_role xs)" and ne: "xs \<noteq> []"
    using assms(1) unfolding compositionFingerprint_Inr distinct_map_sort by auto
  have "sort_slice position_less xs = sort_slice position_less ys"
    by (rule position_order.sort_slice_cong [OF assms(2) sources_separated [OF ok]])
  moreover have "set xs = set ys" "length xs = length ys" "ys \<noteq> []"
    using assms(2) ne mset_eq_setD mset_eq_length by auto
  ultimately show ?thesis
    using assms(1) unfolding compositionFingerprint_Inr by simp
qed

section \<open>The encoding determines the composition\<close>

lemma split_at_byte:
  "c \<notin> set u \<Longrightarrow> c \<notin> set v \<Longrightarrow> u @ c # s = v @ c # t \<Longrightarrow> u = v \<and> s = t"
  by (induction u arbitrary: v) (auto simp: Cons_eq_append_conv)

lemma composition_field_inject:
  assumes "composition_field u @ s = composition_field v @ t"
  shows "u = v \<and> s = t"
proof -
  have colon: "CHR '':'' \<notin> set (dec n)" for n
    by (rule dec_no_byte) (simp add: is_digit_byte_def less_eq_char_def)
  have "dec (length u) @ CHR '':'' # (u @ ''|'' @ s) = dec (length v) @ CHR '':'' # (v @ ''|'' @ t)"
    using assms by (simp add: composition_field_def)
  from split_at_byte [OF colon colon this]
  have "length u = length v" "u @ ''|'' @ s = v @ ''|'' @ t" by (simp_all add: dec_inject)
  then show ?thesis by simp
qed

lemma composition_field_not_Nil [simp]: "composition_field v \<noteq> []" "[] \<noteq> composition_field v"
  by (simp_all add: composition_field_def)

definition source_coordinates :: "CompositionSource \<Rightarrow> string \<times> string \<times> string" where
  "source_coordinates s =
     (Role_string (cs_role s), RunID_String (cs_runID s), AttemptID_String (cs_attemptID s))"

lemma source_fields_inject:
  assumes "source_fields a @ s = source_fields b @ t"
  shows "source_coordinates a = source_coordinates b \<and> s = t"
  using assms by (auto simp: source_fields_def source_coordinates_def dest!: composition_field_inject)

lemma sources_inject:
  "concat (map source_fields xs) = concat (map source_fields ys) \<Longrightarrow>
    map source_coordinates xs = map source_coordinates ys"
proof (induction xs arbitrary: ys)
  case Nil
  then show ?case by (cases ys) (auto simp: source_fields_def)
next
  case (Cons x xs)
  then obtain y zs where ys: "ys = y # zs" by (cases ys) (auto simp: source_fields_def)
  have "source_coordinates x = source_coordinates y"
    "concat (map source_fields xs) = concat (map source_fields zs)"
    using source_fields_inject [of x "concat (map source_fields xs)" y "concat (map source_fields zs)"]
      Cons.prems by (simp_all add: ys)
  then show ?case using Cons.IH [of zs] by (simp add: ys)
qed

lemma composition_head_inject:
  assumes "composition_head r p @ s = composition_head r' p' @ t"
  shows "r = r' \<and> p = p' \<and> s = t"
proof -
  obtain u v where r: "r = RunID u" "r' = RunID v" by (cases r; cases r') simp
  consider "p = ''''" "p' = ''''" | "p = ''''" "p' \<noteq> ''''" | "p \<noteq> ''''" "p' = ''''"
    | "p \<noteq> ''''" "p' \<noteq> ''''" by blast
  then show ?thesis
  proof cases
    case 1
    then have "composition_field u @ s = composition_field v @ t"
      using assms by (simp add: composition_head_def r)
    then show ?thesis using 1 composition_field_inject [of u s v t] r by simp
  next
    case 4
    then have "composition_field u @ composition_field p @ s =
        composition_field v @ composition_field p' @ t"
      using assms by (simp add: composition_head_def r)
    then have "u = v" "composition_field p @ s = composition_field p' @ t"
      using composition_field_inject by blast+
    then show ?thesis using composition_field_inject [of p s p' t] r by simp
  qed (use assms in \<open>simp_all add: composition_head_def\<close>)
qed

lemma composition_preimage_inject:
  assumes "composition_head r p @ concat (map source_fields xs) =
      composition_head r' p' @ concat (map source_fields ys)"
  shows "r = r' \<and> p = p' \<and> map source_coordinates xs = map source_coordinates ys"
  using composition_head_inject [OF assms] sources_inject by blast

section \<open>The derived identity is a canonical run identifier\<close>

lemma hex_value_nibble: "n < 16 \<Longrightarrow> hex_value (nibble_char n) = Some n"
  by (auto simp: hex_value_def nibble_char_def less_eq_char_def)

lemma hex_decode_encode: "list_all (\<lambda>b. b < 256) bs \<Longrightarrow> hex_decode (hex_encode bs) = Some bs"
proof (induction bs)
  case (Cons b bs)
  then have "b div 16 < 16" "b mod 16 < 16" by (simp_all add: less_mult_imp_div_less)
  then show ?case using Cons by (simp add: hex_byte_def hex_value_nibble)
qed simp

lemma or_high: "take_bit n b OR push_bit n k = take_bit n b + push_bit n (k :: nat)"
  by (rule disjunctive_add_eq_or [symmetric]) (auto intro!: bit_eqI simp: bit_simps)

lemma stamp_masks:
  "((b :: nat) AND 0x0f) OR 0x70 = b mod 16 + 112"
  "((b :: nat) AND 0x3f) OR 0x80 = b mod 64 + 128"
proof -
  have "b AND 0x0f = b mod 16" "b AND 0x3f = b mod 64"
    using take_bit_eq_mask [of 4 b] take_bit_eq_mask [of 6 b]
    by (simp_all add: take_bit_eq_mod mask_eq_exp_minus_1)
  then show "(b AND 0x0f) OR 0x70 = b mod 16 + 112" "(b AND 0x3f) OR 0x80 = b mod 64 + 128"
    using or_high [of 4 b 7] or_high [of 6 b 2]
    by (simp_all add: take_bit_eq_mod push_bit_eq_mult)
qed

lemma isLowerHex_nibble [simp]: "n < 16 \<Longrightarrow> isLowerHex (nibble_char n)"
  by (auto simp: isLowerHex_def nibble_char_def less_eq_char_def)

lemma nibble_digits:
  "nibble_char 7 = CHR ''7''" "nibble_char 8 = CHR ''8''" "nibble_char 9 = CHR ''9''"
  "nibble_char 10 = CHR ''a''" "nibble_char 11 = CHR ''b''"
  by code_simp+

lemma high_nibble_variant:
  "nibble_char ((x mod 64 + 128) div 16) \<in> set ''89ab''"
proof -
  have "(x mod 64 + 128) div 16 = x mod 64 div 16 + 8" by simp
  moreover have "x mod 64 div 16 < 4" by (simp add: less_mult_imp_div_less)
  then have "x mod 64 div 16 \<in> {0, 1, 2, 3}" by auto
  ultimately show ?thesis by (auto simp: nibble_digits)
qed

lemma uuid_scan_append:
  "uuid_scan i (xs @ ys) =
    (case uuid_scan i xs of Some e \<Rightarrow> Some e | None \<Rightarrow> uuid_scan (i + length xs) ys)"
  by (induction xs arbitrary: i) (simp_all split: option.split)

lemma uuid_scan_hex:
  assumes "list_all (\<lambda>b. b < 256) bs" "\<forall>k < 2 * length bs. i + k \<notin> set [8, 13, 18, 23]"
  shows "uuid_scan i (hex_encode bs) = None"
proof -
  have "\<forall>c \<in> set (hex_encode bs). isLowerHex c"
    using hex_encode_lower_hex [OF assms(1)]
    by (auto simp: list_all_iff is_lower_hex_byte_def is_digit_byte_def isLowerHex_def)
  then show ?thesis
    using assms(2) unfolding uuid_scan_None uuid_byte_def length_hex_encode by auto
qed

lemma stamp_uuid_facts:
  assumes "length bs = 16" "list_all (\<lambda>b. b < 256) bs"
  shows "length (stamp_uuid bs) = 16" "list_all (\<lambda>b. b < 256) (stamp_uuid bs)"
    "stamp_uuid bs ! 6 = bs ! 6 mod 16 + 112" "stamp_uuid bs ! 8 = bs ! 8 mod 64 + 128"
proof -
  have s: "stamp_uuid bs = bs[6 := bs ! 6 mod 16 + 112, 8 := bs ! 8 mod 64 + 128]"
    by (simp add: stamp_uuid_def stamp_masks)
  have "bs ! 6 mod 16 + 112 < 256" "bs ! 8 mod 64 + 128 < 256" by (simp_all add: mod_less_divisor
        less_trans [of _ 64] less_diff_conv [symmetric])
  then show "list_all (\<lambda>b. b < 256) (stamp_uuid bs)"
    using assms(2) unfolding s list_all_iff by (auto dest!: set_update_subset_insert [THEN subsetD])
  show "length (stamp_uuid bs) = 16" "stamp_uuid bs ! 6 = bs ! 6 mod 16 + 112"
    "stamp_uuid bs ! 8 = bs ! 8 mod 64 + 128"
    using assms(1) by (simp_all add: s)
qed

lemma slice_facts:
  "j \<le> length xs \<Longrightarrow> length (slice i j xs) = j - i"
  "list_all P xs \<Longrightarrow> list_all P (slice i j xs)"
  by (auto simp: slice_def list_all_iff dest!: in_set_takeD in_set_dropD)

lemma hex_encode_slice_hd:
  "i < j \<Longrightarrow> j \<le> length u \<Longrightarrow> hex_encode (slice i j u) ! 0 = nibble_char (u ! i div 16)"
  by (cases "j - i") (auto simp: slice_def hex_byte_def Cons_nth_drop_Suc [symmetric])

lemma uuid_text_scan:
  assumes "length bs = 16" "list_all (\<lambda>b. b < 256) bs"
  shows "length (uuid_text (stamp_uuid bs)) = 36"
    "uuid_scan 0 (uuid_text (stamp_uuid bs)) = None"
    "uuid_text (stamp_uuid bs) ! 14 = CHR ''7''"
    "uuid_text (stamp_uuid bs) ! 19 \<in> set ''89ab''"
proof -
  define u where "u = stamp_uuid bs"
  note U = stamp_uuid_facts [OF assms, folded u_def]
  have len: "length (slice i j u) = j - i" if "j \<le> 16" for i j
    using slice_facts(1) [of j u i] U(1) that by simp
  have scan: "uuid_scan k (hex_encode (slice i j u)) = None"
    if "\<forall>n < 2 * length (slice i j u). k + n \<notin> set [8, 13, 18, 23]" for i j k
    by (rule uuid_scan_hex [OF slice_facts(2) [OF U(2)] that])
  show "length (uuid_text (stamp_uuid bs)) = 36"
    by (simp add: uuid_text_def len flip: u_def)
  have "uuid_scan 0 (hex_encode (slice 0 4 u)) = None" "uuid_scan 9 (hex_encode (slice 4 6 u)) = None"
    "uuid_scan 14 (hex_encode (slice 6 8 u)) = None" "uuid_scan 19 (hex_encode (slice 8 10 u)) = None"
    "uuid_scan 24 (hex_encode (slice 10 16 u)) = None"
    by (rule scan; auto simp: len)+
  then show "uuid_scan 0 (uuid_text (stamp_uuid bs)) = None"
    by (simp add: uuid_text_def uuid_scan_append len flip: u_def)
  have "uuid_text u ! 14 = hex_encode (slice 6 8 u) ! 0"
    by (simp add: uuid_text_def nth_append len)
  also have "\<dots> = nibble_char 7"
  proof -
    have "(bs ! 6 mod 16 + 112) div 16 = 7"
      by (rule div_nat_eqI) (simp_all add: less_Suc_eq_le [symmetric])
    then show ?thesis using U(1,3) by (simp add: hex_encode_slice_hd)
  qed
  finally show "uuid_text (stamp_uuid bs) ! 14 = CHR ''7''"
    by (simp add: nibble_digits u_def)
  have "uuid_text u ! 19 = hex_encode (slice 8 10 u) ! 0"
    by (simp add: uuid_text_def nth_append len)
  also have "\<dots> = nibble_char ((bs ! 8 mod 64 + 128) div 16)"
    using U(1,4) by (simp only: hex_encode_slice_hd)
  finally show "uuid_text (stamp_uuid bs) ! 19 \<in> set ''89ab''"
    using high_nibble_variant [of "bs ! 8"] by (simp add: u_def)
qed

lemma fingerprint_digest:
  assumes "compositionFingerprint root recovery ss = Inr f"
  obtains digest where "length digest = 32" "list_all (\<lambda>b. b < 256) digest"
    "fingerprint_value f = ''sha256:'' @ hex_encode digest"
proof -
  obtain m where f: "f = CompositionFingerprint (''sha256:'' @ sha256_hex m)"
    using assms unfolding compositionFingerprint_Inr by blast
  show ?thesis
    by (rule that [of "map of_char (sha256_sum m)"])
      (simp_all add: f sha256_hex_def list_all_iff nat_of_char_less_256)
qed

definition zero_form :: string where
  "zero_form = ''00000000-0000-7000-8000-000000000000''"

lemma prefixed_validate: "validatePrefixedUUIDv7 (p @ u) p = validateUUIDv7 u"
  by (simp add: validatePrefixedUUIDv7_def)

lemma CompositionFingerprint_RunID_canonical:
  assumes "compositionFingerprint root recovery ss = Inr f"
  obtains digest u where "length digest = 32" "fingerprint_value f = ''sha256:'' @ hex_encode digest"
    "u = uuid_text (stamp_uuid (take 16 digest))"
    "\<And>i. CompositionFingerprint_RunID f = Inr i \<longleftrightarrow> u \<noteq> zero_form \<and> i = RunID (''r_'' @ u)"
    "u \<noteq> zero_form \<Longrightarrow> canonical_uuid_v7 u"
proof -
  obtain digest where d: "length digest = 32" "list_all (\<lambda>b. b < 256) digest"
    and v: "fingerprint_value f = ''sha256:'' @ hex_encode digest"
    using fingerprint_digest [OF assms] by blast
  let ?u = "uuid_text (stamp_uuid (take 16 digest))"
  have half: "length (take 16 digest) = 16" "list_all (\<lambda>b. b < 256) (take 16 digest)"
    using d by (auto simp: list_all_iff dest: in_set_takeD)
  have accepted: "validateUUIDv7 ?u = (if ?u = zero_form then Some ZeroForm else None)"
    using uuid_text_scan [OF half] by (simp add: validateUUIDv7_def zero_form_def)
  have parse: "ParseRunID (''r_'' @ ?u) = Inr i \<longleftrightarrow> ?u \<noteq> zero_form \<and> i = RunID (''r_'' @ ?u)" for i
    by (simp only: RunID_id.parse_ok prefixed_validate accepted if_split_eq1) simp
  have "CompositionFingerprint_RunID f = Inr i \<longleftrightarrow> ParseRunID (''r_'' @ ?u) = Inr i" for i
    using d hex_decode_encode [OF d(2)] HasPrefix_append [of "''sha256:''" "hex_encode digest"]
      TrimPrefix_append [of "''sha256:''" "hex_encode digest"]
    by (simp add: CompositionFingerprint_RunID_def v Let_def split: sum.split)
  moreover have "canonical_uuid_v7 ?u" if "?u \<noteq> zero_form"
    using accepted that validateUUIDv7_None by simp
  ultimately show ?thesis using that [of digest ?u] d(1) v parse by blast
qed

lemma compositionFingerprint_accepts:
  "is_ok (compositionFingerprint root recovery ss) \<longleftrightarrow>
     RunID_String root \<noteq> '''' \<and> ss \<noteq> [] \<and> length ss \<le> length FixedRoleOrder \<and>
     list_all source_complete ss \<and> distinct (map cs_role ss)"
  unfolding is_ok_iff compositionFingerprint_Inr distinct_map_sort list_all_iff by blast

end
