(* ===== verification/Diagnostics.thy ===== *)
theory Diagnostics
  imports RoleTasks Identifiers
begin

text \<open>
  Runtime diagnostics (\<open>internal/domain/runtime_diagnostic.go\<close>): the closed vocabularies of
  events, causes and phases (string types whose validity is a lookup, kept as strings), the
  validators of the free-text fields, the constructor of an event draft and its stamp.
\<close>

section \<open>Vocabularies\<close>

datatype RuntimeDiagnosticLevel =
    RuntimeDiagnosticInfo
  | RuntimeDiagnosticWarn
  | RuntimeDiagnosticError
  | RuntimeDiagnosticLevelOther string

fun RuntimeDiagnosticLevel_string :: "RuntimeDiagnosticLevel \<Rightarrow> string" where
  "RuntimeDiagnosticLevel_string RuntimeDiagnosticInfo = ''INFO''"
| "RuntimeDiagnosticLevel_string RuntimeDiagnosticWarn = ''WARN''"
| "RuntimeDiagnosticLevel_string RuntimeDiagnosticError = ''ERROR''"
| "RuntimeDiagnosticLevel_string (RuntimeDiagnosticLevelOther s) = s"

definition RuntimeDiagnosticLevel_Valid :: "RuntimeDiagnosticLevel \<Rightarrow> bool" where
  "RuntimeDiagnosticLevel_Valid v = oneOf v
     [RuntimeDiagnosticInfo, RuntimeDiagnosticWarn, RuntimeDiagnosticError]"

definition RuntimeDiagnosticLevel_of :: "string \<Rightarrow> RuntimeDiagnosticLevel" where
  "RuntimeDiagnosticLevel_of = from_wire RuntimeDiagnosticLevel_string
     [RuntimeDiagnosticInfo, RuntimeDiagnosticWarn, RuntimeDiagnosticError]
     RuntimeDiagnosticLevelOther"

interpretation RuntimeDiagnosticLevel_enum: string_enum RuntimeDiagnosticLevel_string
    "[RuntimeDiagnosticInfo, RuntimeDiagnosticWarn, RuntimeDiagnosticError]"
    RuntimeDiagnosticLevelOther RuntimeDiagnosticLevel_Valid
  by unfold_locales (auto simp: RuntimeDiagnosticLevel_Valid_def)

datatype RuntimeDiagnosticStream =
    DiagnosticStdout
  | DiagnosticStderr
  | RuntimeDiagnosticStreamOther string

fun RuntimeDiagnosticStream_string :: "RuntimeDiagnosticStream \<Rightarrow> string" where
  "RuntimeDiagnosticStream_string DiagnosticStdout = ''stdout''"
| "RuntimeDiagnosticStream_string DiagnosticStderr = ''stderr''"
| "RuntimeDiagnosticStream_string (RuntimeDiagnosticStreamOther s) = s"

definition RuntimeDiagnosticStream_Valid :: "RuntimeDiagnosticStream \<Rightarrow> bool" where
  "RuntimeDiagnosticStream_Valid v = oneOf v
     [DiagnosticStdout, DiagnosticStderr]"

definition RuntimeDiagnosticStream_of :: "string \<Rightarrow> RuntimeDiagnosticStream" where
  "RuntimeDiagnosticStream_of = from_wire RuntimeDiagnosticStream_string
     [DiagnosticStdout, DiagnosticStderr]
     RuntimeDiagnosticStreamOther"

interpretation RuntimeDiagnosticStream_enum: string_enum RuntimeDiagnosticStream_string
    "[DiagnosticStdout, DiagnosticStderr]"
    RuntimeDiagnosticStreamOther RuntimeDiagnosticStream_Valid
  by unfold_locales (auto simp: RuntimeDiagnosticStream_Valid_def)

text \<open>\<open>runtimeDiagnosticMessages\<close>: the valid event codes with their messages.\<close>

definition runtimeDiagnosticMessages :: "(string \<times> string) list" where
  "runtimeDiagnosticMessages =
     [(''command_accepted'', ''command accepted''),
      (''runtime_diagnostics_opened'', ''runtime diagnostics opened''),
      (''session_created'', ''session created''),
      (''run_created'', ''run created''),
      (''run_started'', ''run started''),
      (''run_completed'', ''run completed''),
      (''run_stopped'', ''run stopped''),
      (''runtime_diagnostics_closed'', ''runtime diagnostics closed''),
      (''qualification_started'', ''qualification started''),
      (''qualification_candidate_checked'', ''qualification candidate checked''),
      (''qualification_succeeded'', ''qualification succeeded''),
      (''qualification_rejected'', ''qualification rejected''),
      (''review_plan_created'', ''review plan created''),
      (''assignment_resolved'', ''assignment resolved''),
      (''run_budget_accepted'', ''run budget accepted''),
      (''role_path_scheduled'', ''role path scheduled''),
      (''role_path_started'', ''role path started''),
      (''attempt_created'', ''attempt created''),
      (''attempt_started'', ''attempt started''),
      (''attempt_completed'', ''attempt completed''),
      (''attempt_failed'', ''attempt failed''),
      (''role_path_completed'', ''role path completed''),
      (''role_path_cancelled'', ''role path cancelled''),
      (''provider_invocation_prepared'', ''provider invocation prepared''),
      (''provider_spawn_revalidated'', ''provider spawn revalidated''),
      (''provider_process_started'', ''provider process started''),
      (''provider_io_observed'', ''provider I/O observed''),
      (''provider_process_exited'', ''provider process exited''),
      (''provider_process_timed_out'', ''provider process timed out''),
      (''provider_process_cancelled'', ''provider process cancelled''),
      (''provider_process_terminated'', ''provider process terminated''),
      (''provider_output_received'', ''provider output received''),
      (''provider_output_parse_started'', ''provider output parse started''),
      (''provider_output_parsed'', ''provider output parsed''),
      (''provider_output_parse_failed'', ''provider output parse failed''),
      (''candidate_validation_started'', ''candidate validation started''),
      (''candidate_validation_succeeded'', ''candidate validation succeeded''),
      (''provider_output_fields_discarded'', ''provider output fields discarded''),
      (''candidate_validation_failed'', ''candidate validation failed''),
      (''repair_scheduled'', ''repair scheduled''),
      (''repair_started'', ''repair started''),
      (''repair_completed'', ''repair completed''),
      (''repair_exhausted'', ''repair exhausted''),
      (''provider_quarantined'', ''provider quarantined''),
      (''role_not_attempted'', ''role not attempted''),
      (''role_completed'', ''role completed''),
      (''role_exhausted'', ''role exhausted''),
      (''coordinator_reduction_started'', ''coordinator reduction started''),
      (''coordinator_reduction_completed'', ''coordinator reduction completed''),
      (''publication_preparation_started'', ''publication preparation started''),
      (''publication_staged'', ''publication staged''),
      (''publication_installed'', ''publication installed''),
      (''publication_committed'', ''publication committed''),
      (''publication_failed'', ''publication failed''),
      (''provider_namespace_drain_started'', ''provider namespace drain started''),
      (''provider_namespace_drained'', ''provider namespace drained''),
      (''workspace_cleanup_started'', ''workspace cleanup started''),
      (''workspace_cleanup_completed'', ''workspace cleanup completed''),
      (''provider_protocol_terminal'', ''provider protocol conversation terminated''),
      (''internal_invariant_detected'', ''internal invariant detected'')]"

definition EventCode_Valid :: "string \<Rightarrow> bool" where
  "EventCode_Valid code \<longleftrightarrow> map_of runtimeDiagnosticMessages code \<noteq> None"

definition EventCode_SafeMessage :: "string \<Rightarrow> string" where
  "EventCode_SafeMessage code =
     (case map_of runtimeDiagnosticMessages code of None \<Rightarrow> '''' | Some m \<Rightarrow> m)"

definition diagnostic_causes :: "string list" where
  "diagnostic_causes =
     [''provider_spawn_failed'',
      ''provider_execution_failed'',
      ''provider_turn_failed'',
      ''provider_process_wait_failed'',
      ''provider_process_group_cleanup_failed'',
      ''provider_transport_verification_failed'',
      ''provider_prompt_file_prestart_identity_failed'',
      ''provider_prompt_file_posttermination_identity_failed'',
      ''provider_transport_receipt_mismatch'',
      ''provider_lifecycle_receipt_invalid'',
      ''provider_output_frame_missing'',
      ''provider_output_missing'',
      ''provider_output_frame_mismatch'',
      ''provider_signal_receipt_mismatch'',
      ''provider_output_envelope_invalid'',
      ''provider_output_decode_failed'',
      ''provider_protocol_event_decode_failed'',
      ''provider_output_file_missing'',
      ''provider_output_file_invalid'',
      ''provider_output_staging_violation'',
      ''provider_output_staging_cleanup_failed'',
      ''provider_result_binding_failed'',
      ''provider_observation_invalid'',
      ''provider_observation_mismatch'',
      ''candidate_validation_failed'',
      ''candidate_repair_plan_invalid'',
      ''workspace_revalidation_failed'',
      ''diagnostic_persistence_failed'',
      ''publication_candidate_invalid'',
      ''publication_evidence_verification_failed'',
      ''publication_schema_validation_failed'',
      ''publication_serialization_failed'',
      ''publication_store_lock_failed'',
      ''publication_path_preparation_failed'',
      ''publication_persistence_failed'',
      ''publication_installation_failed'',
      ''publication_commit_failed'',
      ''provider_login_required'',
      ''provider_authentication_failed'',
      ''provider_quota_exceeded'',
      ''provider_rate_limited'',
      ''provider_timed_out'',
      ''provider_permission_denied'',
      ''review_prompt_source_preparation_failed'',
      ''review_provider_runtime_preparation_failed'',
      ''review_provider_output_staging_preparation_failed'',
      ''review_coordinator_preparation_failed'',
      ''review_coordinator_admission_preparation_failed'',
      ''review_root_run_preparation_failed'']"

definition RuntimeDiagnosticCause_Valid :: "string \<Rightarrow> bool" where
  "RuntimeDiagnosticCause_Valid c \<longleftrightarrow> c \<in> set diagnostic_causes"

definition RuntimeDiagnosticPhase_Valid :: "string \<Rightarrow> bool" where
  "RuntimeDiagnosticPhase_Valid p \<longleftrightarrow> p \<in> set
     [''publication_candidate'',
      ''publication_final_review'',
      ''publication_manifest'',
      ''publication_store_lock'',
      ''publication_persistence'',
      ''publication_staging'',
      ''publication_installation'',
      ''publication_commit'',
      ''diagnostics'']"

definition error_events :: "string list" where
  "error_events =
     [''run_stopped'',
      ''attempt_failed'',
      ''provider_process_timed_out'',
      ''provider_process_terminated'',
      ''provider_output_parse_failed'',
      ''candidate_validation_failed'',
      ''repair_exhausted'',
      ''provider_quarantined'',
      ''role_not_attempted'',
      ''role_exhausted'',
      ''publication_failed'',
      ''internal_invariant_detected'']"

definition warn_events :: "string list" where
  "warn_events =
     [''repair_scheduled'',
      ''repair_started'',
      ''repair_completed'',
      ''provider_output_fields_discarded'']"

definition validDiagnosticLevelForEvent :: "RuntimeDiagnosticLevel \<Rightarrow> string \<Rightarrow> bool" where
  "validDiagnosticLevelForEvent level event =
     (if event \<in> set error_events then level = RuntimeDiagnosticError
      else if event \<in> set warn_events then level = RuntimeDiagnosticWarn
      else level = RuntimeDiagnosticInfo)"

section \<open>Validators of text\<close>

definition token_byte :: "char \<Rightarrow> bool" where
  "token_byte c \<longleftrightarrow>
     is_lower_byte c \<or> is_upper_byte c \<or> is_digit_byte c \<or> c \<in> set ''_-.:''"

definition validDiagnosticToken :: "string \<Rightarrow> int \<Rightarrow> bool" where
  "validDiagnosticToken v maximum =
     (if v = '''' \<or> int (length v) > maximum then False
      else if \<not> list_all token_byte v then False
      else TrimSpace v = v)"

definition validDiagnosticPath :: "string \<Rightarrow> bool" where
  "validDiagnosticPath v \<longleftrightarrow>
     v \<noteq> '''' \<and> length v \<le> 4096 \<and>
     \<not> ContainsAny v [CHR 0x5C, CHR 0x00, CHR 0x0D, CHR 0x0A] \<and> \<not> HasPrefix v ''/'' \<and>
     PathClean v = v \<and> v \<noteq> ''.'' \<and> \<not> HasPrefix v ''../''"

definition validDiagnosticInvocationID :: "string \<Rightarrow> bool" where
  "validDiagnosticInvocationID v =
     (if \<not> HasPrefix v ''i_'' then False else is_ok (ParseReviewID (TrimPrefix v ''i_'')))"

definition validDiagnosticExecutionInvocationID :: "string \<Rightarrow> bool" where
  "validDiagnosticExecutionInvocationID v =
     (if length v \<noteq> 36 then False else is_ok (ParseReviewID v))"

definition validDiagnosticFingerprint :: "string \<Rightarrow> bool" where
  "validDiagnosticFingerprint v =
     (if length v \<noteq> length ''sha256:'' + 64 \<or> \<not> HasPrefix v ''sha256:'' then False
      else list_all (\<lambda>c. \<not> (c < CHR ''0'' \<or> c > CHR ''9'' \<and> c < CHR ''a'' \<or> c > CHR ''f''))
             (drop (length ''sha256:'') v))"

definition validDiagnosticProvider :: "string \<Rightarrow> bool" where
  "validDiagnosticProvider v =
     (case v of
        [] \<Rightarrow> False
      | c # cs \<Rightarrow>
          if length v > 64 \<or> c < CHR ''a'' \<or> c > CHR ''z'' then False
          else list_all (\<lambda>d. is_lower_byte d \<or> is_digit_byte d \<or> d \<in> set ''._-'') cs)"

text \<open>A JSON pointer: every tilde is followed by 0 or 1.\<close>

fun tilde_escapes :: "string \<Rightarrow> bool" where
  "tilde_escapes [] = True"
| "tilde_escapes (c # cs) =
     (if c = CHR ''~'' \<and> (cs = [] \<or> hd cs \<noteq> CHR ''0'' \<and> hd cs \<noteq> CHR ''1'') then False
      else tilde_escapes cs)"

definition validDiagnosticJSONPointer :: "string \<Rightarrow> bool" where
  "validDiagnosticJSONPointer v =
     (if v = '''' \<or> length v > 4096 \<or> hd v \<noteq> CHR ''/'' \<or>
         ContainsAny v [CHR 0x00, CHR 0x0D, CHR 0x0A] then False
      else tilde_escapes v)"

section \<open>Event drafts\<close>

record RuntimeDiagnosticEventInput =
  di_Level :: RuntimeDiagnosticLevel
  di_Component :: string
  di_Operation :: string
  di_Event :: string
  di_SessionID :: SessionID
  di_RunID :: RunID
  di_AttemptID :: AttemptID
  di_InvocationID :: string
  di_ExecutionInvocationID :: string
  di_Role :: Role
  di_Provider :: string
  di_Cause :: string
  di_Failure :: string
  di_Mitigation :: string
  di_State :: string
  di_Outcome :: string
  di_Termination :: string
  di_ProtocolPhase :: string
  di_ProtocolTerminal :: string
  di_ProviderSessionFingerprint :: string
  di_ProviderTurnFingerprint :: string
  di_InvariantID :: string
  di_Stream :: RuntimeDiagnosticStream
  di_Offset :: int64
  di_Length :: int64
  di_ExitCode :: int64
  di_HasExitCode :: bool
  di_ArtifactRef :: string
  di_DiscardedPaths :: "string list"
  di_DiscardedPathCount :: int64

datatype diagnostic_error =
    DraftHeader
  | DraftSessionID
  | DraftRunID
  | DraftAttemptID
  | DraftInvocationID
  | DraftExecutionInvocationID
  | DraftProvider
  | DraftFingerprint
  | DraftToken
  | DraftRole
  | DraftCause
  | DraftStreamRange
  | DraftRangeWithoutStream
  | DraftArtifactRef
  | DraftDiscardedMetadata
  | DraftJSONPointer
  | DraftDiscardEvent
  | DraftLevel
  | EventStamp

definition MaxRuntimeDiagnosticDiscardedPaths :: nat where
  "MaxRuntimeDiagnosticDiscardedPaths = 100"

text \<open>The checks of \<open>NewRuntimeDiagnosticEventDraft\<close>, in their order.\<close>

definition draft_identity_check :: "RuntimeDiagnosticEventInput \<Rightarrow> diagnostic_error option" where
  "draft_identity_check i =
     (if \<not> RuntimeDiagnosticLevel_Valid (di_Level i) \<or> \<not> EventCode_Valid (di_Event i) \<or>
         \<not> validDiagnosticToken (di_Component i) 64 \<or> \<not> validDiagnosticToken (di_Operation i) 64
        then Some DraftHeader
      else if \<not> is_ok (ParseSessionID (SessionID_String (di_SessionID i))) then Some DraftSessionID
      else if \<not> is_ok (ParseRunID (RunID_String (di_RunID i))) then Some DraftRunID
      else if AttemptID_String (di_AttemptID i) \<noteq> '''' \<and>
         \<not> is_ok (ParseAttemptID (AttemptID_String (di_AttemptID i))) then Some DraftAttemptID
      else if di_InvocationID i \<noteq> '''' \<and> \<not> validDiagnosticInvocationID (di_InvocationID i)
        then Some DraftInvocationID
      else if di_ExecutionInvocationID i \<noteq> '''' \<and>
         \<not> validDiagnosticExecutionInvocationID (di_ExecutionInvocationID i)
        then Some DraftExecutionInvocationID
      else if di_Provider i \<noteq> '''' \<and> \<not> validDiagnosticProvider (di_Provider i)
        then Some DraftProvider
      else if di_ProviderSessionFingerprint i \<noteq> '''' \<and>
           \<not> validDiagnosticFingerprint (di_ProviderSessionFingerprint i) \<or>
         di_ProviderTurnFingerprint i \<noteq> '''' \<and>
           \<not> validDiagnosticFingerprint (di_ProviderTurnFingerprint i)
        then Some DraftFingerprint
      else None)"

definition optional_tokens :: "RuntimeDiagnosticEventInput \<Rightarrow> string list" where
  "optional_tokens i =
     [di_Failure i, di_Mitigation i, di_State i, di_Outcome i, di_Termination i,
      di_ProtocolPhase i, di_ProtocolTerminal i, di_InvariantID i]"

definition draft_content_check :: "RuntimeDiagnosticEventInput \<Rightarrow> diagnostic_error option" where
  "draft_content_check i =
     (if list_ex (\<lambda>v. v \<noteq> '''' \<and> \<not> validDiagnosticToken v 128) (optional_tokens i)
        then Some DraftToken
      else if di_Role i \<noteq> RoleOther '''' \<and> \<not> Role_Valid (di_Role i) then Some DraftRole
      else if di_Cause i \<noteq> '''' \<and> \<not> RuntimeDiagnosticCause_Valid (di_Cause i) then Some DraftCause
      else if di_Stream i \<noteq> RuntimeDiagnosticStreamOther '''' \<and>
         (\<not> RuntimeDiagnosticStream_Valid (di_Stream i) \<or> di_Offset i < 0 \<or> di_Length i \<le> 0)
        then Some DraftStreamRange
      else if di_Stream i = RuntimeDiagnosticStreamOther '''' \<and> (di_Offset i \<noteq> 0 \<or> di_Length i \<noteq> 0)
        then Some DraftRangeWithoutStream
      else if di_ArtifactRef i \<noteq> '''' \<and> \<not> validDiagnosticPath (di_ArtifactRef i)
        then Some DraftArtifactRef
      else if di_DiscardedPathCount i < int (length (di_DiscardedPaths i)) \<or>
         length (di_DiscardedPaths i) > MaxRuntimeDiagnosticDiscardedPaths \<or>
         (di_DiscardedPathCount i = 0) \<noteq> (length (di_DiscardedPaths i) = 0)
        then Some DraftDiscardedMetadata
      else if \<not> list_all validDiagnosticJSONPointer (di_DiscardedPaths i)
        then Some DraftJSONPointer
      else if di_Event i \<noteq> ''provider_output_fields_discarded'' \<and> di_DiscardedPathCount i \<noteq> 0
        then Some DraftDiscardEvent
      else if \<not> validDiagnosticLevelForEvent (di_Level i) (di_Event i) then Some DraftLevel
      else None)"

definition NewRuntimeDiagnosticEventDraft ::
    "RuntimeDiagnosticEventInput \<Rightarrow> diagnostic_error + RuntimeDiagnosticEventInput" where
  "NewRuntimeDiagnosticEventDraft i =
     (case draft_identity_check i of Some e \<Rightarrow> Inl e | None \<Rightarrow>
      case draft_content_check i of Some e \<Rightarrow> Inl e | None \<Rightarrow> Inr i)"

record RuntimeDiagnosticEvent =
  de_draft :: RuntimeDiagnosticEventInput
  de_sequence :: uint64
  de_timestamp :: go_time
  de_elapsedMillis :: uint64

definition StampRuntimeDiagnosticEvent ::
    "RuntimeDiagnosticEventInput \<Rightarrow> uint64 \<Rightarrow> go_time \<Rightarrow> uint64
      \<Rightarrow> diagnostic_error + RuntimeDiagnosticEvent" where
  "StampRuntimeDiagnosticEvent draft sequence timestamp elapsed =
     (if \<not> is_ok (NewRuntimeDiagnosticEventDraft draft) \<or> sequence = 0 \<or>
         time_IsZero timestamp \<or> \<not> time_utc timestamp then Inl EventStamp
      else Inr \<lparr>de_draft = draft, de_sequence = sequence, de_timestamp = timestamp,
                de_elapsedMillis = elapsed\<rparr>)"

section \<open>What an accepted draft cannot contain\<close>

text \<open>
  The path validator lets through proper relative paths and the single text dot-dot, which the
  last two conjuncts of the source miss: dot-dot is its own cleaned form and has no slash.
\<close>

lemma validDiagnosticPath_shape:
  assumes "validDiagnosticPath v"
  shows "v = ''..'' \<or> list_all proper_component (split_on (CHR ''/'') v)"
  using assms PathClean_fixed_components [of v] by (auto simp: validDiagnosticPath_def)

lemma validDiagnosticPath_dotdot: "validDiagnosticPath ''..''"
  by (simp add: validDiagnosticPath_def ContainsAny_def HasPrefix_def PathClean_def Let_def)

lemma validDiagnosticPath_iff:
  "validDiagnosticPath v \<longleftrightarrow> v = ''..'' \<or> length v \<le> 4096 \<and> safe_path v"
proof
  assume v: "validDiagnosticPath v"
  then show "v = ''..'' \<or> length v \<le> 4096 \<and> safe_path v"
    using validDiagnosticPath_shape [OF v]
    by (auto simp: validDiagnosticPath_def safe_path_def ContainsAny_def list_ex_iff)
next
  assume "v = ''..'' \<or> length v \<le> 4096 \<and> safe_path v"
  then show "validDiagnosticPath v"
  proof
    assume "v = ''..''" then show ?thesis using validDiagnosticPath_dotdot by simp
  next
    assume *: "length v \<le> 4096 \<and> safe_path v"
    then have "list_all proper_component (split_on (CHR ''/'') v)" by (simp add: safe_path_def)
    note P = proper_components_path [OF this]
    show ?thesis
      using * P by (auto simp: validDiagnosticPath_def safe_path_def ContainsAny_def list_ex_iff)
  qed
qed

lemma token_byte_safe: "token_byte c \<Longrightarrow> c \<noteq> CHR ''/'' \<and> c \<noteq> CHR 0x5C \<and> c \<noteq> CHR 0x0A \<and> c \<noteq> CHR 0x0D \<and>
    c \<noteq> CHR 0x00 \<and> c \<noteq> CHR '' ''"
  by (auto simp: token_byte_def go_defs less_eq_char_def)

lemma tilde_escapes_iff:
  "tilde_escapes s \<longleftrightarrow>
    (\<forall>i < length s. s ! i = CHR ''~'' \<longrightarrow>
       Suc i < length s \<and> (s ! Suc i = CHR ''0'' \<or> s ! Suc i = CHR ''1''))"
proof (induction s)
  case (Cons c cs)
  have split: "(\<forall>i < length (c # cs). P i) \<longleftrightarrow> P 0 \<and> (\<forall>i < length cs. P (Suc i))" for P
    by (auto simp: less_Suc_eq_0_disj)
  have step: "tilde_escapes (c # cs) \<longleftrightarrow>
      (c = CHR ''~'' \<longrightarrow> 0 < length cs \<and> (cs ! 0 = CHR ''0'' \<or> cs ! 0 = CHR ''1'')) \<and> tilde_escapes cs"
    by (cases cs) auto
  show ?case unfolding split step Cons.IH by simp
qed simp

text \<open>No two event codes share an entry, and every event has exactly one admissible level.\<close>

lemma event_codes_distinct: "distinct (map fst runtimeDiagnosticMessages)"
  by code_simp

lemma event_levels_known:
  "list_all EventCode_Valid error_events" "list_all EventCode_Valid warn_events"
  "list_all (\<lambda>e. e \<notin> set warn_events) error_events"
  by code_simp+

lemma event_level_unique:
  "validDiagnosticLevelForEvent l e \<Longrightarrow> validDiagnosticLevelForEvent l' e \<Longrightarrow> l = l'"
  by (auto simp: validDiagnosticLevelForEvent_def split: if_splits)

lemma event_messages_nonempty: "EventCode_Valid e \<Longrightarrow> EventCode_SafeMessage e \<noteq> ''''"
proof -
  assume "EventCode_Valid e"
  then obtain m where m: "map_of runtimeDiagnosticMessages e = Some m"
    by (auto simp: EventCode_Valid_def)
  then have "(e, m) \<in> set runtimeDiagnosticMessages" by (rule map_of_SomeD)
  moreover have "list_all (\<lambda>(e, m). m \<noteq> '''') runtimeDiagnosticMessages" by code_simp
  ultimately have "m \<noteq> ''''" by (auto simp: list_all_iff)
  with m show ?thesis by (simp add: EventCode_SafeMessage_def)
qed

lemma NewRuntimeDiagnosticEventDraft_Inr:
  assumes "NewRuntimeDiagnosticEventDraft i = Inr d"
  shows "d = i" "draft_identity_check i = None" "draft_content_check i = None"
  using assms unfolding NewRuntimeDiagnosticEventDraft_def early_return by auto

lemma draft_safe:
  assumes "NewRuntimeDiagnosticEventDraft i = Inr d"
  shows "EventCode_Valid (di_Event d)"
    "SessionID_id.valid_id (di_SessionID d)" "RunID_id.valid_id (di_RunID d)"
    "\<forall>v \<in> set (di_Component d # di_Operation d # optional_tokens d). list_all token_byte v"
    "di_ArtifactRef d = '''' \<or> di_ArtifactRef d = ''..'' \<or>
       list_all proper_component (split_on (CHR ''/'') (di_ArtifactRef d))"
    "length (di_DiscardedPaths d) \<le> 100"
    "di_DiscardedPaths d \<noteq> [] \<longrightarrow> di_Event d = ''provider_output_fields_discarded''"
    "validDiagnosticLevelForEvent (di_Level d) (di_Event d)"
proof -
  note N = NewRuntimeDiagnosticEventDraft_Inr [OF assms]
  note A = N(2) [unfolded draft_identity_check_def early_return]
  note B = N(3) [unfolded draft_content_check_def early_return]
  show "EventCode_Valid (di_Event d)" using A N(1) by simp
  show "SessionID_id.valid_id (di_SessionID d)" "RunID_id.valid_id (di_RunID d)"
    using A N(1) by (simp_all add: SessionID_id.parse_str RunID_id.parse_str)
  have token: "list_all token_byte v" if "validDiagnosticToken v n" for v n
    using that by (simp add: validDiagnosticToken_def split: if_splits)
  have "list_all token_byte (di_Component d)" "list_all token_byte (di_Operation d)"
    using A N(1) token by blast+
  moreover have "\<forall>v \<in> set (optional_tokens d). v = '''' \<or> validDiagnosticToken v 128"
    using B N(1) by (auto simp: list_ex_iff)
  ultimately show "\<forall>v \<in> set (di_Component d # di_Operation d # optional_tokens d). list_all token_byte v"
    using token by auto
  show "di_ArtifactRef d = '''' \<or> di_ArtifactRef d = ''..'' \<or>
       list_all proper_component (split_on (CHR ''/'') (di_ArtifactRef d))"
    using B N(1) validDiagnosticPath_shape by blast
  show "length (di_DiscardedPaths d) \<le> 100"
    using B N(1) by (simp add: MaxRuntimeDiagnosticDiscardedPaths_def)
  show "di_DiscardedPaths d \<noteq> [] \<longrightarrow> di_Event d = ''provider_output_fields_discarded''"
    using B N(1) by auto
  show "validDiagnosticLevelForEvent (di_Level d) (di_Event d)"
    using B N(1) by simp
qed

end
