(* ===== verification/Transition_Policy.thy ===== *)
theory Transition_Policy
  imports Failures
begin

text \<open>
  The coordinator's transition policy (\<open>internal/app/review/policy.go\<close>): the closed table of
  attempt conditions, the precedence reduction of several conditions to one, and the decision
  that follows (schedule the repair or the retry, close the role, cancel the run).
\<close>

section \<open>The table\<close>

datatype AttemptCondition =
    AttemptConditionValidReview
  | AttemptConditionInvalidProviderOutput
  | AttemptConditionUnrepairableProviderOutput
  | AttemptConditionInvalidEvidenceClaim
  | AttemptConditionUnrepairableEvidence
  | AttemptConditionSemanticContradiction
  | AttemptConditionProviderUnavailable
  | AttemptConditionProviderTurnFailed
  | AttemptConditionProviderSpawnFailed
  | AttemptConditionTimeout
  | AttemptConditionAuthentication
  | AttemptConditionLoginRequired
  | AttemptConditionQuota
  | AttemptConditionRateLimit
  | AttemptConditionSecurityViolation
  | AttemptConditionMutationViolation
  | AttemptConditionConfigurationViolation
  | AttemptConditionArtifactFailure
  | AttemptConditionCancelled
  | AttemptConditionInternalInvariant
  | AttemptConditionProviderPermissionDenied
  | AttemptConditionProviderTimeout
  | AttemptConditionProviderOutputMissing
  | AttemptConditionProviderOutputDecodeFailed
  | AttemptConditionProtocolEventDecodeFailed
  | AttemptConditionOther string

fun AttemptCondition_string :: "AttemptCondition \<Rightarrow> string" where
  "AttemptCondition_string AttemptConditionValidReview = ''valid_review''"
| "AttemptCondition_string AttemptConditionInvalidProviderOutput = ''invalid_provider_output''"
| "AttemptCondition_string AttemptConditionUnrepairableProviderOutput = ''unrepairable_provider_output''"
| "AttemptCondition_string AttemptConditionInvalidEvidenceClaim = ''invalid_evidence_claim''"
| "AttemptCondition_string AttemptConditionUnrepairableEvidence = ''unrepairable_evidence_claim''"
| "AttemptCondition_string AttemptConditionSemanticContradiction = ''semantic_contradiction''"
| "AttemptCondition_string AttemptConditionProviderUnavailable = ''provider_unavailable''"
| "AttemptCondition_string AttemptConditionProviderTurnFailed = ''provider_turn_failed''"
| "AttemptCondition_string AttemptConditionProviderSpawnFailed = ''provider_spawn_failed''"
| "AttemptCondition_string AttemptConditionTimeout = ''timeout''"
| "AttemptCondition_string AttemptConditionAuthentication = ''auth''"
| "AttemptCondition_string AttemptConditionLoginRequired = ''login_required''"
| "AttemptCondition_string AttemptConditionQuota = ''quota''"
| "AttemptCondition_string AttemptConditionRateLimit = ''rate_limit''"
| "AttemptCondition_string AttemptConditionSecurityViolation = ''security_violation''"
| "AttemptCondition_string AttemptConditionMutationViolation = ''mutation_violation''"
| "AttemptCondition_string AttemptConditionConfigurationViolation = ''configuration_violation''"
| "AttemptCondition_string AttemptConditionArtifactFailure = ''artifact_failure''"
| "AttemptCondition_string AttemptConditionCancelled = ''cancelled''"
| "AttemptCondition_string AttemptConditionInternalInvariant = ''internal_invariant''"
| "AttemptCondition_string AttemptConditionProviderPermissionDenied = ''provider_permission_denied''"
| "AttemptCondition_string AttemptConditionProviderTimeout = ''provider_timeout''"
| "AttemptCondition_string AttemptConditionProviderOutputMissing = ''provider_output_missing''"
| "AttemptCondition_string AttemptConditionProviderOutputDecodeFailed = ''provider_output_decode_failed''"
| "AttemptCondition_string AttemptConditionProtocolEventDecodeFailed = ''provider_protocol_event_decode_failed''"
| "AttemptCondition_string (AttemptConditionOther s) = s"

datatype TerminalProjection =
    TerminalProjectionNone
  | TerminalProjectionSucceeded
  | TerminalProjectionFailed
  | TerminalProjectionCancelled
  | TerminalProjectionOther string

definition TerminalProjection_Valid :: "TerminalProjection \<Rightarrow> bool" where
  "TerminalProjection_Valid p \<longleftrightarrow>
     p = TerminalProjectionNone \<or> p = TerminalProjectionSucceeded \<or>
     p = TerminalProjectionFailed \<or> p = TerminalProjectionCancelled"

datatype TransitionAction =
    TransitionActionValid
  | TransitionActionRepairOnly
  | TransitionActionRetryOnly
  | TransitionActionFailClosed
  | TransitionActionCancelRun

datatype ConditionPrecedence =
    ConditionPrecedenceInternal
  | ConditionPrecedenceArtifact
  | ConditionPrecedenceSecurity
  | ConditionPrecedenceCancellation
  | ConditionPrecedenceConfiguration
  | ConditionPrecedenceLoginRequired
  | ConditionPrecedenceInvalidOutput
  | ConditionPrecedenceProviderFailure
  | ConditionPrecedenceValid

text \<open>The source numbers the precedences with \<open>iota\<close>; smaller is stronger.\<close>

fun precedence_nat :: "ConditionPrecedence \<Rightarrow> nat" where
  "precedence_nat ConditionPrecedenceInternal = 0"
| "precedence_nat ConditionPrecedenceArtifact = 1"
| "precedence_nat ConditionPrecedenceSecurity = 2"
| "precedence_nat ConditionPrecedenceCancellation = 3"
| "precedence_nat ConditionPrecedenceConfiguration = 4"
| "precedence_nat ConditionPrecedenceLoginRequired = 5"
| "precedence_nat ConditionPrecedenceInvalidOutput = 6"
| "precedence_nat ConditionPrecedenceProviderFailure = 7"
| "precedence_nat ConditionPrecedenceValid = 8"

instantiation ConditionPrecedence :: linorder
begin

definition less_eq_ConditionPrecedence :: "ConditionPrecedence \<Rightarrow> ConditionPrecedence \<Rightarrow> bool" where
  "less_eq_ConditionPrecedence a b \<longleftrightarrow> precedence_nat a \<le> precedence_nat b"

definition less_ConditionPrecedence :: "ConditionPrecedence \<Rightarrow> ConditionPrecedence \<Rightarrow> bool" where
  "less_ConditionPrecedence a b \<longleftrightarrow> precedence_nat a < precedence_nat b"

instance
proof
  fix a b c :: ConditionPrecedence
  show "a < b \<longleftrightarrow> a \<le> b \<and> \<not> b \<le> a" "a \<le> a" "a \<le> b \<or> b \<le> a"
    by (auto simp: less_eq_ConditionPrecedence_def less_ConditionPrecedence_def)
  show "a \<le> b \<Longrightarrow> b \<le> c \<Longrightarrow> a \<le> c"
    by (simp add: less_eq_ConditionPrecedence_def)
  show "a \<le> b \<Longrightarrow> b \<le> a \<Longrightarrow> a = b"
    by (cases a; cases b) (simp_all add: less_eq_ConditionPrecedence_def)
qed

end

record TransitionPolicyRow =
  row_condition :: AttemptCondition
  row_terminalClass :: FailureClass
  row_terminalProjection :: TerminalProjection
  row_action :: TransitionAction
  row_reasonCode :: string
  row_precedence :: ConditionPrecedence
  row_providerUnusable :: bool

definition policy_row ::
    "AttemptCondition \<Rightarrow> FailureClass \<Rightarrow> TerminalProjection \<Rightarrow> TransitionAction \<Rightarrow> string
      \<Rightarrow> ConditionPrecedence \<Rightarrow> bool \<Rightarrow> TransitionPolicyRow" where
  "policy_row c f p a r q u =
     \<lparr>row_condition = c, row_terminalClass = f, row_terminalProjection = p, row_action = a,
      row_reasonCode = r, row_precedence = q, row_providerUnusable = u\<rparr>"

definition transitionPolicyRows :: "TransitionPolicyRow list" where
  "transitionPolicyRows =
     [policy_row AttemptConditionValidReview (FailureClassOther '''') TerminalProjectionSucceeded
       TransitionActionValid (AttemptCondition_string AttemptConditionValidReview) ConditionPrecedenceValid False,
     policy_row AttemptConditionInvalidProviderOutput FailureInvalidOutput TerminalProjectionFailed
       TransitionActionRepairOnly (AttemptCondition_string AttemptConditionInvalidProviderOutput) ConditionPrecedenceInvalidOutput False,
     policy_row AttemptConditionUnrepairableProviderOutput FailureInvalidOutput TerminalProjectionFailed
       TransitionActionFailClosed (AttemptCondition_string AttemptConditionUnrepairableProviderOutput) ConditionPrecedenceInvalidOutput False,
     policy_row AttemptConditionProviderOutputMissing FailureInvalidOutput TerminalProjectionFailed
       TransitionActionFailClosed (AttemptCondition_string AttemptConditionProviderOutputMissing) ConditionPrecedenceInvalidOutput False,
     policy_row AttemptConditionProviderOutputDecodeFailed FailureInvalidOutput TerminalProjectionFailed
       TransitionActionFailClosed (AttemptCondition_string AttemptConditionProviderOutputDecodeFailed) ConditionPrecedenceInvalidOutput False,
     policy_row AttemptConditionProtocolEventDecodeFailed FailureInvalidOutput TerminalProjectionFailed
       TransitionActionFailClosed (AttemptCondition_string AttemptConditionProtocolEventDecodeFailed) ConditionPrecedenceInvalidOutput False,
     policy_row AttemptConditionInvalidEvidenceClaim FailureInvalidOutput TerminalProjectionFailed
       TransitionActionRepairOnly (AttemptCondition_string AttemptConditionInvalidEvidenceClaim) ConditionPrecedenceInvalidOutput False,
     policy_row AttemptConditionUnrepairableEvidence FailureInvalidOutput TerminalProjectionFailed
       TransitionActionFailClosed (AttemptCondition_string AttemptConditionUnrepairableEvidence) ConditionPrecedenceInvalidOutput False,
     policy_row AttemptConditionSemanticContradiction FailureInvalidOutput TerminalProjectionFailed
       TransitionActionFailClosed (AttemptCondition_string AttemptConditionSemanticContradiction) ConditionPrecedenceInvalidOutput False,
     policy_row AttemptConditionProviderUnavailable FailureProviderUnavailable TerminalProjectionFailed
       TransitionActionRetryOnly (AttemptCondition_string AttemptConditionProviderUnavailable) ConditionPrecedenceProviderFailure False,
     policy_row AttemptConditionProviderTurnFailed FailureProviderUnavailable TerminalProjectionFailed
       TransitionActionRetryOnly (AttemptCondition_string AttemptConditionProviderTurnFailed) ConditionPrecedenceProviderFailure False,
     policy_row AttemptConditionProviderSpawnFailed FailureProviderUnavailable TerminalProjectionFailed
       TransitionActionFailClosed (AttemptCondition_string AttemptConditionProviderSpawnFailed) ConditionPrecedenceProviderFailure True,
     policy_row AttemptConditionTimeout FailureTimeout TerminalProjectionFailed
       TransitionActionFailClosed (AttemptCondition_string AttemptConditionTimeout) ConditionPrecedenceProviderFailure False,
     policy_row AttemptConditionProviderTimeout FailureTimeout TerminalProjectionFailed
       TransitionActionFailClosed (AttemptCondition_string AttemptConditionProviderTimeout) ConditionPrecedenceProviderFailure False,
     policy_row AttemptConditionAuthentication FailureAuthentication TerminalProjectionFailed
       TransitionActionFailClosed (AttemptCondition_string AttemptConditionAuthentication) ConditionPrecedenceProviderFailure True,
     policy_row AttemptConditionProviderPermissionDenied FailureAuthentication TerminalProjectionFailed
       TransitionActionFailClosed (AttemptCondition_string AttemptConditionProviderPermissionDenied) ConditionPrecedenceProviderFailure True,
     policy_row AttemptConditionLoginRequired FailureAuthentication TerminalProjectionFailed
       TransitionActionFailClosed (AttemptCondition_string AttemptConditionLoginRequired) ConditionPrecedenceLoginRequired True,
     policy_row AttemptConditionQuota FailureQuota TerminalProjectionFailed
       TransitionActionFailClosed (AttemptCondition_string AttemptConditionQuota) ConditionPrecedenceProviderFailure True,
     policy_row AttemptConditionRateLimit FailureRateLimit TerminalProjectionFailed
       TransitionActionFailClosed (AttemptCondition_string AttemptConditionRateLimit) ConditionPrecedenceProviderFailure False,
     policy_row AttemptConditionSecurityViolation FailureSecurityPolicy TerminalProjectionCancelled
       TransitionActionCancelRun (AttemptCondition_string AttemptConditionSecurityViolation) ConditionPrecedenceSecurity False,
     policy_row AttemptConditionMutationViolation FailureSecurityPolicy TerminalProjectionCancelled
       TransitionActionCancelRun (AttemptCondition_string AttemptConditionMutationViolation) ConditionPrecedenceSecurity False,
     policy_row AttemptConditionConfigurationViolation FailureConfiguration TerminalProjectionFailed
       TransitionActionFailClosed (AttemptCondition_string AttemptConditionConfigurationViolation) ConditionPrecedenceConfiguration False,
     policy_row AttemptConditionArtifactFailure FailureArtifact TerminalProjectionFailed
       TransitionActionFailClosed (AttemptCondition_string AttemptConditionArtifactFailure) ConditionPrecedenceArtifact False,
     policy_row AttemptConditionCancelled FailureCancelled TerminalProjectionCancelled
       TransitionActionCancelRun (AttemptCondition_string AttemptConditionCancelled) ConditionPrecedenceCancellation False,
     policy_row AttemptConditionInternalInvariant FailureInternal TerminalProjectionFailed
       TransitionActionFailClosed (AttemptCondition_string AttemptConditionInternalInvariant) ConditionPrecedenceInternal False]"

definition lookupTransitionPolicy :: "AttemptCondition \<Rightarrow> TransitionPolicyRow option" where
  "lookupTransitionPolicy c = List.find (\<lambda>row. row_condition row = c) transitionPolicyRows"

definition AttemptCondition_Valid :: "AttemptCondition \<Rightarrow> bool" where
  "AttemptCondition_Valid c \<longleftrightarrow> lookupTransitionPolicy c \<noteq> None"

definition AttemptConditions :: "AttemptCondition list" where
  "AttemptConditions = map row_condition transitionPolicyRows"

definition ConditionProviderUnusable :: "AttemptCondition \<Rightarrow> bool" where
  "ConditionProviderUnusable c =
     (case lookupTransitionPolicy c of None \<Rightarrow> False | Some row \<Rightarrow> row_providerUnusable row)"

definition ConditionProviderFault :: "AttemptCondition \<Rightarrow> bool" where
  "ConditionProviderFault c =
     (case lookupTransitionPolicy c of
        None \<Rightarrow> False
      | Some row \<Rightarrow> FailureClass_ProviderFault (row_terminalClass row))"

section \<open>Reduction\<close>

datatype policy_error =
    PolicyUnknownCondition string
  | PolicyNoConditions
  | PolicyReducedUnknown string
  | PolicyScheduledTerminal
  | PolicyCancelledSchedules
  | PolicyUnusableClass
  | PolicyUnusableRepair
  | PolicyRepairAndRetry
  | PolicyProjectionInvalid
  | PolicySuccessFacts
  | PolicyFailureClass
  | PolicyReasonRequired

definition AttemptCondition_Validate :: "AttemptCondition \<Rightarrow> policy_error option" where
  "AttemptCondition_Validate c =
     (if AttemptCondition_Valid c then None
      else Some (PolicyUnknownCondition (AttemptCondition_string c)))"

text \<open>
  The exit of the source on an unknown condition, \<open>return "", condition.Validate()\<close>, and the
  loop over the remaining conditions.
\<close>

definition reject_condition :: "AttemptCondition \<Rightarrow> policy_error + AttemptCondition" where
  "reject_condition c =
     (case AttemptCondition_Validate c of
        Some e \<Rightarrow> Inl e | None \<Rightarrow> Inr (AttemptConditionOther ''''))"

fun reduce_rows ::
    "TransitionPolicyRow \<Rightarrow> AttemptCondition list \<Rightarrow> policy_error + AttemptCondition" where
  "reduce_rows selected [] = Inr (row_condition selected)"
| "reduce_rows selected (c # cs) =
     (case lookupTransitionPolicy c of
        None \<Rightarrow> reject_condition c
      | Some candidate \<Rightarrow>
          reduce_rows (if row_precedence candidate < row_precedence selected then candidate
                       else selected) cs)"

definition ReduceAttemptConditions :: "AttemptCondition list \<Rightarrow> policy_error + AttemptCondition" where
  "ReduceAttemptConditions conditions =
     (case conditions of
        [] \<Rightarrow> Inl PolicyNoConditions
      | c # cs \<Rightarrow>
          (case lookupTransitionPolicy c of
             None \<Rightarrow> reject_condition c
           | Some selected \<Rightarrow> reduce_rows selected cs))"

section \<open>Decision\<close>

record TransitionInput =
  ti_Condition :: AttemptCondition
  ti_RepairUsed :: bool
  ti_RetryUsed :: bool
  ti_CancellationObserved :: bool

record TransitionDecision =
  td_condition :: AttemptCondition
  td_scheduleRepair :: bool
  td_scheduleRetry :: bool
  td_providerUnusable :: bool
  td_cancelRun :: bool
  td_terminalClass :: FailureClass
  td_terminalProjection :: TerminalProjection
  td_reasonCode :: string

definition TransitionDecision_validate :: "TransitionDecision \<Rightarrow> policy_error option" where
  "TransitionDecision_validate d =
     (if (td_scheduleRepair d \<or> td_scheduleRetry d) \<and>
         td_terminalProjection d \<noteq> TerminalProjectionNone then Some PolicyScheduledTerminal
      else if td_cancelRun d \<and> (td_scheduleRepair d \<or> td_scheduleRetry d)
        then Some PolicyCancelledSchedules
      else if td_providerUnusable d \<and> \<not> FailureClass_ProviderFault (td_terminalClass d)
        then Some PolicyUnusableClass
      else if td_providerUnusable d \<and> td_scheduleRepair d then Some PolicyUnusableRepair
      else if td_scheduleRepair d \<and> td_scheduleRetry d then Some PolicyRepairAndRetry
      else if \<not> TerminalProjection_Valid (td_terminalProjection d) then Some PolicyProjectionInvalid
      else if td_terminalProjection d = TerminalProjectionSucceeded then
        (if td_terminalClass d \<noteq> FailureClassOther '''' \<or>
            td_reasonCode d \<noteq> AttemptCondition_string AttemptConditionValidReview
         then Some PolicySuccessFacts else None)
      else if td_terminalClass d = FailureClassOther '''' \<or> \<not> FailureClass_Valid (td_terminalClass d)
        then Some PolicyFailureClass
      else if td_reasonCode d = '''' then Some PolicyReasonRequired
      else None)"

definition TransitionDecision_Terminal :: "TransitionDecision \<Rightarrow> bool" where
  "TransitionDecision_Terminal d \<longleftrightarrow> td_terminalProjection d \<noteq> TerminalProjectionNone"

definition row_decision :: "TransitionPolicyRow \<Rightarrow> TransitionInput \<Rightarrow> TransitionDecision" where
  "row_decision row inp =
     (let decision = \<lparr>td_condition = row_condition row, td_scheduleRepair = False,
            td_scheduleRetry = False, td_providerUnusable = row_providerUnusable row,
            td_cancelRun = False, td_terminalClass = row_terminalClass row,
            td_terminalProjection = row_terminalProjection row,
            td_reasonCode = row_reasonCode row\<rparr>
      in case row_action row of
           TransitionActionValid \<Rightarrow> decision
         | TransitionActionFailClosed \<Rightarrow> decision
         | TransitionActionRepairOnly \<Rightarrow>
             (if \<not> ti_RepairUsed inp \<and> \<not> ti_RetryUsed inp
              then decision\<lparr>td_scheduleRepair := True,
                            td_terminalProjection := TerminalProjectionNone\<rparr>
              else decision)
         | TransitionActionRetryOnly \<Rightarrow>
             (if \<not> ti_RepairUsed inp \<and> \<not> ti_RetryUsed inp
              then decision\<lparr>td_scheduleRetry := True,
                            td_terminalProjection := TerminalProjectionNone\<rparr>
              else decision)
         | TransitionActionCancelRun \<Rightarrow> decision\<lparr>td_cancelRun := True\<rparr>)"

definition DecideTransition :: "TransitionInput \<Rightarrow> policy_error + TransitionDecision" where
  "DecideTransition inp =
     (case ReduceAttemptConditions
             ([ti_Condition inp] @
              (if ti_CancellationObserved inp then [AttemptConditionCancelled] else [])) of
        Inl e \<Rightarrow> Inl e
      | Inr condition \<Rightarrow>
          (case lookupTransitionPolicy condition of
             None \<Rightarrow> Inl (PolicyReducedUnknown (AttemptCondition_string condition))
           | Some row \<Rightarrow>
               (let decision = row_decision row inp
                in case TransitionDecision_validate decision of
                     Some e \<Rightarrow> Inl e
                   | None \<Rightarrow> Inr decision)))"

section \<open>The reduction is the earliest strongest condition\<close>

definition condition_precedence :: "AttemptCondition \<Rightarrow> ConditionPrecedence" where
  "condition_precedence c = row_precedence (the (lookupTransitionPolicy c))"

definition condition_precedes :: "AttemptCondition \<Rightarrow> AttemptCondition \<Rightarrow> bool" where
  "condition_precedes a b \<longleftrightarrow> condition_precedence a < condition_precedence b"

interpretation condition_order: sort_order condition_precedes
  using sort_order_key [of condition_precedence] by (simp add: condition_precedes_def [abs_def])

lemma lookup_Some:
  "lookupTransitionPolicy c = Some row \<Longrightarrow> row \<in> set transitionPolicyRows \<and> row_condition row = c"
  by (auto simp: lookupTransitionPolicy_def dest: find_SomeD)

lemma reject_invalid: "\<not> AttemptCondition_Valid c \<Longrightarrow>
    reject_condition c = Inl (PolicyUnknownCondition (AttemptCondition_string c))"
  by (simp add: reject_condition_def AttemptCondition_Validate_def)

lemma reduce_rows_pick:
  assumes "\<forall>d \<in> set cs. AttemptCondition_Valid d" "lookupTransitionPolicy c = Some row"
  shows "reduce_rows row cs = Inr (pick_best condition_precedes c cs)"
  using assms
proof (induction cs arbitrary: c row)
  case Nil
  then show ?case using lookup_Some by simp
next
  case (Cons d ds)
  then obtain cand where cand: "lookupTransitionPolicy d = Some cand"
    by (auto simp: AttemptCondition_Valid_def)
  show ?case
  proof (cases "row_precedence cand < row_precedence row")
    case True
    then show ?thesis
      using Cons.IH [of d cand] Cons.prems cand
      by (simp add: condition_precedes_def condition_precedence_def)
  next
    case False
    then show ?thesis
      using Cons.IH [of c row] Cons.prems cand
      by (simp add: condition_precedes_def condition_precedence_def)
  qed
qed

lemma reduce_rows_invalid:
  "\<exists>d \<in> set cs. \<not> AttemptCondition_Valid d \<Longrightarrow> \<not> is_ok (reduce_rows row cs)"
proof (induction cs arbitrary: row)
  case (Cons d ds)
  show ?case
  proof (cases "lookupTransitionPolicy d")
    case None
    then show ?thesis using reject_invalid [of d] by (simp add: AttemptCondition_Valid_def)
  next
    case (Some cand)
    then show ?thesis using Cons by (auto simp: AttemptCondition_Valid_def)
  qed
qed simp

lemma ReduceAttemptConditions_ok:
  "is_ok (ReduceAttemptConditions cs) \<longleftrightarrow> cs \<noteq> [] \<and> (\<forall>c \<in> set cs. AttemptCondition_Valid c)"
proof (cases cs)
  case Nil
  then show ?thesis by (simp add: ReduceAttemptConditions_def)
next
  case (Cons c ds)
  show ?thesis
  proof (cases "lookupTransitionPolicy c")
    case None
    then show ?thesis
      using Cons reject_invalid [of c] by (simp add: ReduceAttemptConditions_def AttemptCondition_Valid_def)
  next
    case (Some row)
    then have "AttemptCondition_Valid c" by (simp add: AttemptCondition_Valid_def)
    then show ?thesis
      using Cons Some reduce_rows_pick [OF _ Some, of ds] reduce_rows_invalid [of ds row]
      by (auto simp: ReduceAttemptConditions_def)
  qed
qed

lemma ReduceAttemptConditions_pick:
  assumes "\<forall>d \<in> set (c # cs). AttemptCondition_Valid d"
  shows "ReduceAttemptConditions (c # cs) = Inr (pick_best condition_precedes c cs)"
proof -
  obtain row where "lookupTransitionPolicy c = Some row"
    using assms by (auto simp: AttemptCondition_Valid_def)
  then show ?thesis
    using reduce_rows_pick [of cs c row] assms by (simp add: ReduceAttemptConditions_def)
qed

lemma ReduceAttemptConditions_Inr:
  assumes "ReduceAttemptConditions cs = Inr c"
  shows "\<exists>pre post. cs = pre @ c # post \<and>
    (\<forall>d \<in> set pre. condition_precedence c < condition_precedence d) \<and>
    (\<forall>d \<in> set cs. condition_precedence c \<le> condition_precedence d)"
proof -
  have ok: "is_ok (ReduceAttemptConditions cs)" using assms by simp
  then obtain d ds where cs: "cs = d # ds" using ReduceAttemptConditions_ok by (cases cs) auto
  have c: "c = pick_best condition_precedes d ds"
    using ok ReduceAttemptConditions_ok [of cs] ReduceAttemptConditions_pick [of d ds] assms cs by simp
  obtain pre post where "d # ds = pre @ c # post" "\<forall>p \<in> set pre. condition_precedes c p"
    using condition_order.pick_best_earliest [of d ds] c by blast
  moreover have "condition_precedence c \<le> condition_precedence e" if "e \<in> set cs" for e
    using condition_order.pick_best_least [of e d ds] that cs c
    by (simp add: condition_precedes_def)
  ultimately show ?thesis using cs by (auto simp: condition_precedes_def)
qed

section \<open>Every decision of the table is coherent\<close>

text \<open>
  A decision reads only the two flags of the input, so that the table is checked row by row for
  the four flag settings.
\<close>

definition cancelling :: "AttemptCondition \<Rightarrow> bool" where
  "cancelling c \<longleftrightarrow> c \<in> set [AttemptConditionSecurityViolation, AttemptConditionMutationViolation,
     AttemptConditionCancelled]"

definition flags :: "bool \<Rightarrow> bool \<Rightarrow> TransitionInput" where
  "flags repair retry =
     \<lparr>ti_Condition = AttemptConditionValidReview, ti_RepairUsed = repair, ti_RetryUsed = retry,
      ti_CancellationObserved = False\<rparr>"

lemma row_decision_flags:
  "row_decision row inp = row_decision row (flags (ti_RepairUsed inp) (ti_RetryUsed inp))"
  by (simp add: row_decision_def flags_def cong: TransitionAction.case_cong)

definition decision_sound :: "TransitionPolicyRow \<Rightarrow> bool \<Rightarrow> bool \<Rightarrow> TransitionDecision \<Rightarrow> bool" where
  "decision_sound row repair retry d \<longleftrightarrow>
     TransitionDecision_validate d = None \<and>
     td_condition d = row_condition row \<and>
     td_reasonCode d = AttemptCondition_string (row_condition row) \<and>
     (td_cancelRun d \<longleftrightarrow> cancelling (row_condition row)) \<and>
     (TransitionDecision_Terminal d \<longleftrightarrow> \<not> (td_scheduleRepair d \<or> td_scheduleRetry d)) \<and>
     (td_scheduleRepair d \<longleftrightarrow>
        row_action row = TransitionActionRepairOnly \<and> \<not> repair \<and> \<not> retry) \<and>
     (td_scheduleRetry d \<longleftrightarrow>
        row_action row = TransitionActionRetryOnly \<and> \<not> repair \<and> \<not> retry) \<and>
     (td_providerUnusable d \<longrightarrow> FailureClass_ProviderFault (td_terminalClass d)) \<and>
     (td_terminalProjection d = TerminalProjectionSucceeded \<longleftrightarrow>
        row_condition row = AttemptConditionValidReview)"

lemma table_checked:
  "list_all (\<lambda>row. list_all (\<lambda>(p, q). decision_sound row p q (row_decision row (flags p q)))
     [(False, False), (False, True), (True, False), (True, True)]) transitionPolicyRows"
  by code_simp

lemma table_sound:
  assumes "row \<in> set transitionPolicyRows"
  shows "decision_sound row (ti_RepairUsed inp) (ti_RetryUsed inp) (row_decision row inp)"
proof -
  have "\<forall>p q. decision_sound row p q (row_decision row (flags p q))"
    using table_checked assms unfolding list_all_iff by (simp add: all_bool_eq)
  then show ?thesis by (simp add: row_decision_flags [of row inp])
qed

lemma table_valid:
  "row \<in> set transitionPolicyRows \<Longrightarrow> TransitionDecision_validate (row_decision row inp) = None"
  using table_sound by (simp add: decision_sound_def)

lemma cancelled_valid [simp]: "AttemptCondition_Valid AttemptConditionCancelled"
  by code_simp

lemma cancelled_precedence [simp]:
  "condition_precedence AttemptConditionCancelled = ConditionPrecedenceCancellation"
  by code_simp

definition effective_condition :: "TransitionInput \<Rightarrow> AttemptCondition" where
  "effective_condition inp =
     (if ti_CancellationObserved inp \<and>
         ConditionPrecedenceCancellation < condition_precedence (ti_Condition inp)
      then AttemptConditionCancelled else ti_Condition inp)"

lemma effective_condition_valid:
  "AttemptCondition_Valid (ti_Condition inp) \<Longrightarrow> AttemptCondition_Valid (effective_condition inp)"
  by (simp add: effective_condition_def)

lemma DecideTransition_total:
  assumes "AttemptCondition_Valid (ti_Condition inp)"
  obtains row where "lookupTransitionPolicy (effective_condition inp) = Some row"
    "DecideTransition inp = Inr (row_decision row inp)"
proof -
  obtain row where row: "lookupTransitionPolicy (effective_condition inp) = Some row"
    using effective_condition_valid [OF assms] by (auto simp: AttemptCondition_Valid_def)
  have "ReduceAttemptConditions ([ti_Condition inp] @
      (if ti_CancellationObserved inp then [AttemptConditionCancelled] else [])) =
      Inr (effective_condition inp)"
    using assms ReduceAttemptConditions_pick [of "ti_Condition inp" "[]"]
      ReduceAttemptConditions_pick [of "ti_Condition inp" "[AttemptConditionCancelled]"]
    by (simp add: effective_condition_def condition_precedes_def)
  then have "DecideTransition inp = Inr (row_decision row inp)"
    using row table_valid lookup_Some [OF row] by (simp add: DecideTransition_def)
  with row show ?thesis by (rule that)
qed

lemma DecideTransition_rejects:
  "\<not> AttemptCondition_Valid (ti_Condition inp) \<Longrightarrow> \<not> is_ok (DecideTransition inp)"
  using ReduceAttemptConditions_ok [of "[ti_Condition inp] @
      (if ti_CancellationObserved inp then [AttemptConditionCancelled] else [])"]
  by (auto simp: DecideTransition_def is_ok_iff split: sum.splits)

lemma DecideTransition_sound:
  assumes "DecideTransition inp = Inr d"
  shows "\<exists>row. lookupTransitionPolicy (effective_condition inp) = Some row \<and>
    decision_sound row (ti_RepairUsed inp) (ti_RetryUsed inp) d"
proof -
  have "AttemptCondition_Valid (ti_Condition inp)"
    using assms DecideTransition_rejects [of inp] by auto
  then obtain row where "lookupTransitionPolicy (effective_condition inp) = Some row"
    "DecideTransition inp = Inr (row_decision row inp)"
    by (rule DecideTransition_total)
  then show ?thesis using assms table_sound lookup_Some by auto
qed

text \<open>A cancellation that was observed leaves no condition that could schedule more work.\<close>

definition schedules :: "TransitionAction \<Rightarrow> bool" where
  "schedules a \<longleftrightarrow> a \<in> set [TransitionActionRepairOnly, TransitionActionRetryOnly]"

lemma cancellation_rows:
  "list_all (\<lambda>row. row_precedence row \<le> ConditionPrecedenceCancellation \<longrightarrow>
     \<not> schedules (row_action row)) transitionPolicyRows"
  by code_simp

lemma cancellation_dominates:
  assumes "lookupTransitionPolicy (effective_condition inp) = Some row" "ti_CancellationObserved inp"
  shows "\<not> schedules (row_action row)"
proof -
  note row = lookup_Some [OF assms(1)]
  have "row_precedence row = condition_precedence (effective_condition inp)"
    using assms(1) by (simp add: condition_precedence_def)
  also have "\<dots> \<le> ConditionPrecedenceCancellation"
    using assms(2) by (simp add: effective_condition_def not_less)
  finally show ?thesis using cancellation_rows row unfolding list_all_iff by metis
qed

end
