(* ===== verification/Budget.thy ===== *)
theory Budget
  imports RoleTasks
begin

text \<open>
  The run budget preflight (\<open>internal/app/review/budget.go\<close>): every possible invocation of every
  selected role is charged before anything starts, against trusted ceilings. Durations are
  \<open>int64\<close> nanoseconds with the source's saturating additions and multiplications; provider
  routes are those of \<open>internal/ports/scheduling.go\<close>. Two operands that the comparison of the
  canonical order does not separate differ at most in an unknown role, which is then rejected.
\<close>

section \<open>Saturating durations\<close>

definition addDuration :: "int64 \<Rightarrow> int64 \<Rightarrow> int64 \<times> bool" where
  "addDuration left right =
     (if right > 0 \<and> left > wrap64 (max_int64 - right) then (max_int64, True)
      else (wrap64 (left + right), False))"

definition multiplyDuration :: "int64 \<Rightarrow> int64 \<Rightarrow> int64 \<times> bool" where
  "multiplyDuration v factor =
     (if factor \<le> 0 \<or> v = 0 then (0, False)
      else if v > quot64 max_int64 factor then (max_int64, True)
      else (wrap64 (v * factor), False))"

definition maxDuration :: "int64 \<Rightarrow> int64 \<Rightarrow> int64" where
  "maxDuration left right = (if left > right then left else right)"

definition second :: int64 where
  "second = 1000000000"

definition maxBudgetInvocationsPerRole :: int64 where
  "maxBudgetInvocationsPerRole = 2"

definition maxBudgetInvocationsPerRun :: int64 where
  "maxBudgetInvocationsPerRun = 14"

definition maxBudgetProviderTimeout :: int64 where
  "maxBudgetProviderTimeout = 60 * (60 * second)"

definition budgetTransitionGrace :: int64 where
  "budgetTransitionGrace = 2 * second"

definition budgetRunGrace :: int64 where
  "budgetRunGrace = 5 * second"

section \<open>Routes, operands and ceilings\<close>

definition validProviderInstanceID :: "string \<Rightarrow> bool" where
  "validProviderInstanceID v =
     (case v of
        [] \<Rightarrow> False
      | c # cs \<Rightarrow>
          if length v > 64 \<or> c < CHR ''a'' \<or> c > CHR ''z'' then False
          else list_all (\<lambda>d. is_lower_byte d \<or> is_digit_byte d \<or> d = CHR ''.'' \<or> d = CHR ''_'' \<or>
                 d = CHR ''-'') cs)"

record ProviderRoute =
  route_providerInstance :: string

definition NewProviderRoute :: "string \<Rightarrow> string + ProviderRoute" where
  "NewProviderRoute v =
     (if \<not> validProviderInstanceID v then Inl v else Inr \<lparr>route_providerInstance = v\<rparr>)"

definition ProviderRoute_Valid :: "ProviderRoute \<Rightarrow> bool" where
  "ProviderRoute_Valid r = validProviderInstanceID (route_providerInstance r)"

datatype budget_error =
    BudgetTimeoutNotPositive
  | BudgetRouteInvalid
  | BudgetRoleInvalid string
  | BudgetPrimary budget_error
  | BudgetMaxTimeoutNotPositive
  | BudgetMaxRolePathNotPositive
  | BudgetMaxRunNotPositive
  | BudgetRoleInvocationsNotPositive
  | BudgetRunInvocationsNotPositive
  | BudgetMaxTimeoutExceeds
  | BudgetRoleInvocationsExceed
  | BudgetRunInvocationsExceed
  | BudgetRolePathExceeds int64
  | BudgetRunExceeds int64

record InvocationLimits =
  il_timeout :: int64

record RouteBudget =
  rb_route :: ProviderRoute
  rb_limits :: InvocationLimits

record RoleBudget =
  ro_role :: Role
  ro_primary :: RouteBudget

definition validateInvocationLimits :: "InvocationLimits \<Rightarrow> budget_error option" where
  "validateInvocationLimits l = (if il_timeout l \<le> 0 then Some BudgetTimeoutNotPositive else None)"

definition NewInvocationLimits :: "int64 \<Rightarrow> budget_error + InvocationLimits" where
  "NewInvocationLimits timeout =
     (let l = \<lparr>il_timeout = timeout\<rparr>
      in case validateInvocationLimits l of Some e \<Rightarrow> Inl e | None \<Rightarrow> Inr l)"

definition validateRouteBudget :: "RouteBudget \<Rightarrow> budget_error option" where
  "validateRouteBudget b =
     (if \<not> ProviderRoute_Valid (rb_route b) then Some BudgetRouteInvalid
      else case validateInvocationLimits (rb_limits b) of Some e \<Rightarrow> Some e | None \<Rightarrow> None)"

definition NewRouteBudget :: "ProviderRoute \<Rightarrow> InvocationLimits \<Rightarrow> budget_error + RouteBudget" where
  "NewRouteBudget route limits =
     (let b = \<lparr>rb_route = route, rb_limits = limits\<rparr>
      in case validateRouteBudget b of Some e \<Rightarrow> Inl e | None \<Rightarrow> Inr b)"

definition validateRoleBudget :: "RoleBudget \<Rightarrow> budget_error option" where
  "validateRoleBudget b =
     (if \<not> Role_Valid (ro_role b) then Some (BudgetRoleInvalid (Role_string (ro_role b)))
      else case validateRouteBudget (ro_primary b) of
        Some e \<Rightarrow> Some (BudgetPrimary e) | None \<Rightarrow> None)"

definition NewRoleBudget :: "Role \<Rightarrow> RouteBudget \<Rightarrow> budget_error + RoleBudget" where
  "NewRoleBudget role primary =
     (let b = \<lparr>ro_role = role, ro_primary = primary\<rparr>
      in case validateRoleBudget b of Some e \<Rightarrow> Inl e | None \<Rightarrow> Inr b)"

record HarnessCeilings =
  hc_maxTimeout :: int64
  hc_maxRolePathDeadline :: int64
  hc_maxRunDeadline :: int64
  hc_maxInvocationsPerRole :: int64
  hc_maxInvocationsPerRun :: int64

definition topologyDeadlineCeiling :: "int64 \<Rightarrow> int64 \<Rightarrow> int64 \<times> bool" where
  "topologyDeadlineCeiling timeout invocations =
     (let (invocationBudget, o1) = multiplyDuration timeout invocations;
          maxTransitions = quot64 invocations maxBudgetInvocationsPerRole;
          (transitionBudget, o2) = multiplyDuration budgetTransitionGrace maxTransitions;
          (deadline, o3) = addDuration invocationBudget transitionBudget
      in (deadline, o1 \<or> o2 \<or> o3))"

definition validateHarnessCeilings :: "HarnessCeilings \<Rightarrow> budget_error option" where
  "validateHarnessCeilings c =
     (if hc_maxTimeout c \<le> 0 then Some BudgetMaxTimeoutNotPositive
      else if hc_maxRolePathDeadline c \<le> 0 then Some BudgetMaxRolePathNotPositive
      else if hc_maxRunDeadline c \<le> 0 then Some BudgetMaxRunNotPositive
      else if hc_maxInvocationsPerRole c \<le> 0 then Some BudgetRoleInvocationsNotPositive
      else if hc_maxInvocationsPerRun c \<le> 0 then Some BudgetRunInvocationsNotPositive
      else if hc_maxTimeout c > maxBudgetProviderTimeout then Some BudgetMaxTimeoutExceeds
      else if hc_maxInvocationsPerRole c > maxBudgetInvocationsPerRole
        then Some BudgetRoleInvocationsExceed
      else if hc_maxInvocationsPerRun c > maxBudgetInvocationsPerRun
        then Some BudgetRunInvocationsExceed
      else let (rolePath, o1) =
             topologyDeadlineCeiling maxBudgetProviderTimeout maxBudgetInvocationsPerRun
        in if o1 \<or> hc_maxRolePathDeadline c > rolePath then Some (BudgetRolePathExceeds rolePath)
           else let (run, o2) = addDuration rolePath budgetRunGrace
             in if o2 \<or> hc_maxRunDeadline c > run then Some (BudgetRunExceeds run) else None)"

definition NewHarnessCeilings ::
    "int64 \<Rightarrow> int64 \<Rightarrow> int64 \<Rightarrow> int64 \<Rightarrow> int64 \<Rightarrow> budget_error + HarnessCeilings" where
  "NewHarnessCeilings timeout rolePath run perRole perRun =
     (let c = \<lparr>hc_maxTimeout = timeout, hc_maxRolePathDeadline = rolePath,
               hc_maxRunDeadline = run, hc_maxInvocationsPerRole = perRole,
               hc_maxInvocationsPerRun = perRun\<rparr>
      in case validateHarnessCeilings c of Some e \<Rightarrow> Inl e | None \<Rightarrow> Inr c)"

definition DefaultHarnessCeilings :: HarnessCeilings where
  "DefaultHarnessCeilings =
     (let (rolePath, _) =
            topologyDeadlineCeiling maxBudgetProviderTimeout maxBudgetInvocationsPerRun;
          (run, _) = addDuration rolePath budgetRunGrace
      in \<lparr>hc_maxTimeout = maxBudgetProviderTimeout, hc_maxRolePathDeadline = rolePath,
          hc_maxRunDeadline = run, hc_maxInvocationsPerRole = maxBudgetInvocationsPerRole,
          hc_maxInvocationsPerRun = maxBudgetInvocationsPerRun\<rparr>)"

datatype BudgetReasonCode =
    BudgetReasonEligible
  | BudgetReasonInvalidCeilings
  | BudgetReasonInvalidRole
  | BudgetReasonDuplicateRole
  | BudgetReasonInvalidPrimaryRoute
  | BudgetReasonDuplicateRoleRoute
  | BudgetReasonInvocationCapExceeded
  | BudgetReasonRoleInvocationLimit
  | BudgetReasonRunInvocationLimit
  | BudgetReasonRolePathDeadlineLimit
  | BudgetReasonRunDeadlineLimit
  | BudgetReasonCodeOther string

fun BudgetReasonCode_string :: "BudgetReasonCode \<Rightarrow> string" where
  "BudgetReasonCode_string BudgetReasonEligible = ''eligible''"
| "BudgetReasonCode_string BudgetReasonInvalidCeilings = ''invalid_ceilings''"
| "BudgetReasonCode_string BudgetReasonInvalidRole = ''invalid_role''"
| "BudgetReasonCode_string BudgetReasonDuplicateRole = ''duplicate_role''"
| "BudgetReasonCode_string BudgetReasonInvalidPrimaryRoute = ''invalid_primary_route''"
| "BudgetReasonCode_string BudgetReasonDuplicateRoleRoute = ''duplicate_role_route''"
| "BudgetReasonCode_string BudgetReasonInvocationCapExceeded = ''invocation_cap_exceeded''"
| "BudgetReasonCode_string BudgetReasonRoleInvocationLimit = ''role_invocation_limit''"
| "BudgetReasonCode_string BudgetReasonRunInvocationLimit = ''run_invocation_limit''"
| "BudgetReasonCode_string BudgetReasonRolePathDeadlineLimit = ''role_path_deadline_limit''"
| "BudgetReasonCode_string BudgetReasonRunDeadlineLimit = ''run_deadline_limit''"
| "BudgetReasonCode_string (BudgetReasonCodeOther s) = s"

definition BudgetReasonCode_Valid :: "BudgetReasonCode \<Rightarrow> bool" where
  "BudgetReasonCode_Valid v = oneOf v
     [BudgetReasonEligible, BudgetReasonInvalidCeilings, BudgetReasonInvalidRole,
      BudgetReasonDuplicateRole, BudgetReasonInvalidPrimaryRoute,
      BudgetReasonDuplicateRoleRoute, BudgetReasonInvocationCapExceeded,
      BudgetReasonRoleInvocationLimit, BudgetReasonRunInvocationLimit,
      BudgetReasonRolePathDeadlineLimit, BudgetReasonRunDeadlineLimit]"

definition BudgetReasonCode_of :: "string \<Rightarrow> BudgetReasonCode" where
  "BudgetReasonCode_of = from_wire BudgetReasonCode_string
     [BudgetReasonEligible, BudgetReasonInvalidCeilings, BudgetReasonInvalidRole,
      BudgetReasonDuplicateRole, BudgetReasonInvalidPrimaryRoute,
      BudgetReasonDuplicateRoleRoute, BudgetReasonInvocationCapExceeded,
      BudgetReasonRoleInvocationLimit, BudgetReasonRunInvocationLimit,
      BudgetReasonRolePathDeadlineLimit, BudgetReasonRunDeadlineLimit]
     BudgetReasonCodeOther"

interpretation BudgetReasonCode_enum: string_enum BudgetReasonCode_string
    "[BudgetReasonEligible, BudgetReasonInvalidCeilings, BudgetReasonInvalidRole,
      BudgetReasonDuplicateRole, BudgetReasonInvalidPrimaryRoute,
      BudgetReasonDuplicateRoleRoute, BudgetReasonInvocationCapExceeded,
      BudgetReasonRoleInvocationLimit, BudgetReasonRunInvocationLimit,
      BudgetReasonRolePathDeadlineLimit, BudgetReasonRunDeadlineLimit]"
    BudgetReasonCodeOther BudgetReasonCode_Valid
  by unfold_locales (auto simp: BudgetReasonCode_Valid_def)

record RolePathDeadline =
  rp_role :: Role
  rp_providerInstance :: string
  rp_invocationCount :: int64
  rp_transitionCount :: int64
  rp_invocationTimeouts :: int64
  rp_deadline :: int64

record RunBudgetReceipt =
  rc_ceilings :: HarnessCeilings
  rc_roles :: "RoleBudget list"
  rc_rolePaths :: "RolePathDeadline list"
  rc_totalInvocations :: int64
  rc_runDeadline :: int64
  rc_criticalPath :: int64
  rc_maxActiveLanes :: int64
  rc_eligible :: bool
  rc_reasonCode :: BudgetReasonCode

section \<open>The preflight\<close>

definition compareStrings :: "string \<Rightarrow> string \<Rightarrow> int64" where
  "compareStrings l r = (if l < r then -1 else if l > r then 1 else 0)"

definition compareRouteBudgets :: "RouteBudget \<Rightarrow> RouteBudget \<Rightarrow> int64" where
  "compareRouteBudgets l r =
     (let compared = compareStrings (route_providerInstance (rb_route l))
                       (route_providerInstance (rb_route r))
      in if compared \<noteq> 0 then compared
         else if il_timeout (rb_limits l) \<noteq> il_timeout (rb_limits r) then
           (if il_timeout (rb_limits l) < il_timeout (rb_limits r) then -1 else 1)
         else 0)"

definition roleRank :: "Role \<Rightarrow> nat" where
  "roleRank role = role_index role 0 FixedRoleOrder"

definition compareRoleBudgets :: "RoleBudget \<Rightarrow> RoleBudget \<Rightarrow> int64" where
  "compareRoleBudgets l r =
     (let leftRank = roleRank (ro_role l); rightRank = roleRank (ro_role r)
      in if leftRank \<noteq> rightRank then int leftRank - int rightRank
         else compareRouteBudgets (ro_primary l) (ro_primary r))"

definition budget_less :: "RoleBudget \<Rightarrow> RoleBudget \<Rightarrow> bool" where
  "budget_less l r \<longleftrightarrow> compareRoleBudgets l r < 0"

definition canonicalRoleBudgets :: "RoleBudget list \<Rightarrow> RoleBudget list" where
  "canonicalRoleBudgets roles = sort_slice budget_less roles"

text \<open>The counting map of \<open>validateRoleSelection\<close> is read as a count of the prefix.\<close>

fun count_roles :: "(Role \<Rightarrow> int64) \<Rightarrow> RoleBudget list \<Rightarrow> (Role \<Rightarrow> int64) option" where
  "count_roles counts [] = Some counts"
| "count_roles counts (b # bs) =
     (if \<not> Role_Valid (ro_role b) then None
      else count_roles (counts(ro_role b := counts (ro_role b) + 1)) bs)"

definition validateRoleSelection :: "RoleBudget list \<Rightarrow> BudgetReasonCode" where
  "validateRoleSelection roles =
     (case count_roles (\<lambda>_. 0) roles of
        None \<Rightarrow> BudgetReasonInvalidRole
      | Some counts \<Rightarrow>
          if list_ex (\<lambda>role. counts role > 1) FixedRoleOrder then BudgetReasonDuplicateRole
          else if list_ex (\<lambda>b. \<not> ProviderRoute_Valid (rb_route (ro_primary b)) \<or>
                 validateInvocationLimits (rb_limits (ro_primary b)) \<noteq> None) roles
            then BudgetReasonInvalidPrimaryRoute
          else BudgetReasonEligible)"

fun accumulate_from ::
    "RolePathDeadline list \<Rightarrow> int64 \<Rightarrow> bool \<Rightarrow> RoleBudget list
      \<Rightarrow> RolePathDeadline list \<times> int64 \<times> bool" where
  "accumulate_from paths invocations overflow [] = (paths, invocations, overflow)"
| "accumulate_from paths invocations overflow (b # bs) =
     (let (timeouts, o1) = multiplyDuration (il_timeout (rb_limits (ro_primary b))) 2;
          (deadline, o2) = addDuration timeouts budgetTransitionGrace;
          path = \<lparr>rp_role = ro_role b,
                  rp_providerInstance = route_providerInstance (rb_route (ro_primary b)),
                  rp_invocationCount = 2, rp_transitionCount = 1,
                  rp_invocationTimeouts = timeouts, rp_deadline = deadline\<rparr>
      in accumulate_from (paths @ [path]) (wrap64 (invocations + 2)) (overflow \<or> o1 \<or> o2) bs)"

definition accumulateRunBudget ::
    "RoleBudget list \<Rightarrow> RolePathDeadline list \<times> int64 \<times> bool" where
  "accumulateRunBudget roles = accumulate_from [] 0 False roles"

definition routeCapsExceed :: "RouteBudget \<Rightarrow> HarnessCeilings \<Rightarrow> bool" where
  "routeCapsExceed b c \<longleftrightarrow> il_timeout (rb_limits b) > hc_maxTimeout c"

fun validateRouteCaps :: "RoleBudget list \<Rightarrow> HarnessCeilings \<Rightarrow> BudgetReasonCode" where
  "validateRouteCaps [] c = BudgetReasonEligible"
| "validateRouteCaps (b # bs) c =
     (if routeCapsExceed (ro_primary b) c then BudgetReasonInvocationCapExceeded
      else if 2 > hc_maxInvocationsPerRole c then BudgetReasonRoleInvocationLimit
      else validateRouteCaps bs c)"

definition capacityDeadline :: "int64 \<Rightarrow> int64 \<Rightarrow> int64 \<Rightarrow> int64 \<Rightarrow> int64 \<times> bool" where
  "capacityDeadline totalWork criticalPath capacity pathCount =
     (if capacity < 1 \<or> pathCount < 1 then (0, False)
      else if capacity \<ge> pathCount then (criticalPath, False)
      else let (weightedCritical, o1) = multiplyDuration criticalPath (capacity - 1);
               (numerator, o2) = addDuration totalWork weightedCritical
        in if o1 \<or> o2 then (max_int64, True)
           else let q = quot64 numerator capacity;
                    quotient = (if rem64 numerator capacity \<noteq> 0 then wrap64 (q + 1) else q)
             in (maxDuration quotient criticalPath, False))"

text \<open>The loop that takes the longest path and the total work, threading the overflow flag.\<close>

fun path_totals ::
    "int64 \<Rightarrow> int64 \<Rightarrow> bool \<Rightarrow> RolePathDeadline list \<Rightarrow> int64 \<times> int64 \<times> bool" where
  "path_totals longest work overflow [] = (longest, work, overflow)"
| "path_totals longest work overflow (p # ps) =
     (let (work', o1) = addDuration work (rp_deadline p)
      in path_totals (if rp_deadline p > longest then rp_deadline p else longest) work'
           (overflow \<or> o1) ps)"

definition rejectBudget ::
    "RunBudgetReceipt \<Rightarrow> BudgetReasonCode \<Rightarrow> RunBudgetReceipt \<times> BudgetReasonCode option" where
  "rejectBudget receipt reason =
     (receipt\<lparr>rc_eligible := False, rc_reasonCode := reason\<rparr>, Some reason)"

text \<open>
  The result is the receipt and the error; a rejected input still has a receipt. The error of
  the source wraps the invariant sentinel and the reason, which is all that varies.
\<close>

definition PreflightRunBudgetWithCapacity ::
    "RoleBudget list \<Rightarrow> HarnessCeilings \<Rightarrow> int64 \<Rightarrow> RunBudgetReceipt \<times> BudgetReasonCode option" where
  "PreflightRunBudgetWithCapacity roles ceilings lanes =
     (let receipt0 = \<lparr>rc_ceilings = ceilings, rc_roles = canonicalRoleBudgets roles,
            rc_rolePaths = [], rc_totalInvocations = 0, rc_runDeadline = 0, rc_criticalPath = 0,
            rc_maxActiveLanes = lanes, rc_eligible = False, rc_reasonCode = BudgetReasonEligible\<rparr>
      in if validateHarnessCeilings ceilings \<noteq> None
           then rejectBudget receipt0 BudgetReasonInvalidCeilings
         else if lanes < 1 then rejectBudget receipt0 BudgetReasonInvalidCeilings
         else if validateRoleSelection (rc_roles receipt0) \<noteq> BudgetReasonEligible
           then rejectBudget receipt0 (validateRoleSelection (rc_roles receipt0))
         else let (paths, invocations, o0) = accumulateRunBudget (rc_roles receipt0);
                  (longest, work, o1) = path_totals 0 0 o0 paths;
                  (capacity, o2) = capacityDeadline work longest lanes (int (length paths));
                  (runDeadline, o3) = addDuration capacity budgetRunGrace;
                  receipt = receipt0\<lparr>rc_rolePaths := paths, rc_totalInvocations := invocations,
                    rc_criticalPath := longest, rc_runDeadline := runDeadline\<rparr>
           in if o1 \<or> o2 then rejectBudget receipt BudgetReasonInvocationCapExceeded
              else if validateRouteCaps (rc_roles receipt) ceilings \<noteq> BudgetReasonEligible
                then rejectBudget receipt (validateRouteCaps (rc_roles receipt) ceilings)
              else if invocations > hc_maxInvocationsPerRun ceilings
                then rejectBudget receipt BudgetReasonRunInvocationLimit
              else if list_ex (\<lambda>p. rp_deadline p > hc_maxRolePathDeadline ceilings) paths
                then rejectBudget receipt BudgetReasonRolePathDeadlineLimit
              else if o3 \<or> runDeadline > hc_maxRunDeadline ceilings
                then rejectBudget receipt BudgetReasonRunDeadlineLimit
              else (receipt\<lparr>rc_eligible := True\<rparr>, None))"

definition PreflightRunBudget ::
    "RoleBudget list \<Rightarrow> HarnessCeilings \<Rightarrow> RunBudgetReceipt \<times> BudgetReasonCode option" where
  "PreflightRunBudget roles ceilings =
     (let canonical = canonicalRoleBudgets roles;
          (rolePaths, _, _) = accumulateRunBudget canonical;
          capacity = (if length rolePaths < 1 then 1 else int (length rolePaths))
      in PreflightRunBudgetWithCapacity canonical ceilings capacity)"

section \<open>Exact arithmetic inside the ceilings\<close>

lemmas budget_constants = second_def maxBudgetInvocationsPerRole_def maxBudgetInvocationsPerRun_def
  maxBudgetProviderTimeout_def budgetTransitionGrace_def budgetRunGrace_def max_int64_def
  min_int64_def

lemma addDuration_exact:
  "0 \<le> a \<Longrightarrow> 0 \<le> b \<Longrightarrow> a + b \<le> max_int64 \<Longrightarrow> addDuration a b = (a + b, False)"
  by (simp add: addDuration_def in_int64_def budget_constants)

lemma multiplyDuration_exact:
  assumes "0 \<le> a" "0 \<le> k" "a * k \<le> max_int64" "k \<le> max_int64"
  shows "multiplyDuration a k = (a * k, False)"
proof (cases "k = 0 \<or> a = 0")
  case True
  then show ?thesis using assms by (auto simp: multiplyDuration_def)
next
  case False
  then have k: "0 < k" using assms by simp
  have "a \<le> max_int64 div k" using zdiv_mono1 [OF assms(3) k] k by simp
  moreover have "quot64 max_int64 k = max_int64 div k"
    using k by (simp add: budget_constants)
  moreover have "in_int64 (a * k)" using assms by (simp add: in_int64_def budget_constants order_trans [of _ 0])
  ultimately show ?thesis using False k by (simp add: multiplyDuration_def)
qed

text \<open>The exact deadline of one path, and of a list of paths on a number of lanes.\<close>

definition path_deadline :: "RoleBudget \<Rightarrow> int" where
  "path_deadline b = 2 * il_timeout (rb_limits (ro_primary b)) + 2 * second"

definition path_of :: "RoleBudget \<Rightarrow> RolePathDeadline" where
  "path_of b =
     \<lparr>rp_role = ro_role b,
      rp_providerInstance = route_providerInstance (rb_route (ro_primary b)),
      rp_invocationCount = 2, rp_transitionCount = 1,
      rp_invocationTimeouts = 2 * il_timeout (rb_limits (ro_primary b)),
      rp_deadline = path_deadline b\<rparr>"

definition max_of :: "int list \<Rightarrow> int" where
  "max_of ds = foldr max ds 0"

definition list_bound :: "int list \<Rightarrow> int \<Rightarrow> int" where
  "list_bound ds lanes =
     (if ds = [] then 0
      else if int (length ds) \<le> lanes then max_of ds
      else max (- ((- (sum_list ds + (lanes - 1) * max_of ds)) div lanes)) (max_of ds))"

definition timeouts_bounded :: "RoleBudget list \<Rightarrow> bool" where
  "timeouts_bounded bs \<longleftrightarrow>
     (\<forall>b \<in> set bs. 0 < il_timeout (rb_limits (ro_primary b)) \<and>
        il_timeout (rb_limits (ro_primary b)) \<le> maxBudgetProviderTimeout)"

lemma path_deadline_bounds:
  "timeouts_bounded bs \<Longrightarrow> b \<in> set bs \<Longrightarrow> 0 < path_deadline b \<and> path_deadline b \<le> 7202000000000"
  by (auto simp: timeouts_bounded_def path_deadline_def budget_constants)

lemma accumulate_exact:
  "timeouts_bounded bs \<Longrightarrow> 0 \<le> n \<Longrightarrow> n + 2 * int (length bs) \<le> 1000 \<Longrightarrow>
    accumulate_from ps n ov bs = (ps @ map path_of bs, n + 2 * int (length bs), ov)"
proof (induction bs arbitrary: ps n)
  case (Cons b bs)
  let ?t = "il_timeout (rb_limits (ro_primary b))"
  have t: "0 < ?t" "?t \<le> 3600000000000"
    using Cons.prems(1) by (simp_all add: timeouts_bounded_def budget_constants)
  have m: "multiplyDuration ?t 2 = (2 * ?t, False)"
    using multiplyDuration_exact [of ?t 2] t by (simp add: budget_constants mult.commute)
  have a: "addDuration (2 * ?t) budgetTransitionGrace = (path_deadline b, False)"
    using addDuration_exact [of "2 * ?t" budgetTransitionGrace] t
    by (simp add: path_deadline_def budget_constants)
  have w: "wrap64 (n + 2) = n + 2"
    using Cons.prems by (intro wrap64_id) (simp add: in_int64_def budget_constants)
  have "timeouts_bounded bs" using Cons.prems(1) by (simp add: timeouts_bounded_def)
  then show ?case
    using Cons.IH [of "n + 2" "ps @ [path_of b]"] Cons.prems
    by (simp add: m a w flip: path_of_def)
qed simp

lemma max_of_ge: "d \<in> set ds \<Longrightarrow> d \<le> max_of ds"
  by (induction ds) (auto simp: max_of_def)

lemma max_of_bounds: "0 \<le> max_of ds" "(\<forall>d \<in> set ds. d \<le> m) \<Longrightarrow> 0 \<le> m \<Longrightarrow> max_of ds \<le> m"
  by (induction ds) (auto simp: max_of_def)

lemma sum_list_upper: "\<forall>d \<in> set ds. d \<le> m \<Longrightarrow> sum_list ds \<le> int (length ds) * m" for ds :: "int list"
  by (induction ds) (auto simp: algebra_simps)

lemma sum_list_lower: "\<forall>d \<in> set ds. 0 \<le> d \<Longrightarrow> 0 \<le> sum_list ds" for ds :: "int list"
  by (induction ds) auto

lemma path_totals_exact:
  "\<forall>p \<in> set ps. 0 \<le> rp_deadline p \<Longrightarrow> 0 \<le> t \<Longrightarrow>
    t + sum_list (map rp_deadline ps) \<le> max_int64 \<Longrightarrow>
    path_totals l t ov ps = (foldl max l (map rp_deadline ps), t + sum_list (map rp_deadline ps), ov)"
proof (induction ps arbitrary: l t)
  case (Cons p ps)
  have "0 \<le> sum_list (map rp_deadline ps)" using Cons.prems by (intro sum_list_lower) auto
  then have "addDuration t (rp_deadline p) = (t + rp_deadline p, False)"
    using Cons.prems by (intro addDuration_exact) auto
  then show ?case
    using Cons.IH [of "t + rp_deadline p"] Cons.prems by (simp add: max_def)
qed simp

lemma foldl_max: "foldl max l ds = max l (max_of ds)" if "0 \<le> l" for l :: int
  using that by (induction ds arbitrary: l) (auto simp: max_of_def)

text \<open>Rounding up with Go's truncating division.\<close>

lemma round_up:
  assumes "0 \<le> n" "0 < (c :: int)"
  shows "(if n mod c \<noteq> 0 then n div c + 1 else n div c) = - ((- n) div c)"
  using assms by (simp add: zdiv_zminus1_eq_if)

lemma capacity_exact:
  assumes "\<forall>d \<in> set ds. 0 < d \<and> d \<le> 7202000000000" "length ds \<le> 7" "1 \<le> lanes"
  shows "capacityDeadline (sum_list ds) (max_of ds) lanes (int (length ds)) = (list_bound ds lanes, False)"
proof (cases "ds = [] \<or> int (length ds) \<le> lanes")
  case True
  then show ?thesis using assms(3) by (auto simp: capacityDeadline_def list_bound_def)
next
  case False
  then have lanes: "1 \<le> lanes" "lanes \<le> 6" using assms(2,3) by auto
  have L: "0 \<le> max_of ds" "max_of ds \<le> 7202000000000"
    using max_of_bounds(1) max_of_bounds(2) [of ds 7202000000000] assms(1) by auto
  have W: "0 \<le> sum_list ds" "sum_list ds \<le> 7 * 7202000000000"
  proof -
    show "0 \<le> sum_list ds" by (rule sum_list_lower) (use assms(1) in force)
    have "sum_list ds \<le> int (length ds) * 7202000000000"
      by (rule sum_list_upper) (use assms(1) in auto)
    then show "sum_list ds \<le> 7 * 7202000000000" using assms(2) by simp
  qed
  have LC: "0 \<le> max_of ds * (lanes - 1)" "max_of ds * (lanes - 1) \<le> 7202000000000 * 5"
    using L lanes by (simp, intro mult_mono) auto
  have m: "multiplyDuration (max_of ds) (lanes - 1) = (max_of ds * (lanes - 1), False)"
    by (rule multiplyDuration_exact) (use L lanes LC in \<open>simp_all add: budget_constants\<close>)
  let ?n = "sum_list ds + max_of ds * (lanes - 1)"
  have a: "addDuration (sum_list ds) (max_of ds * (lanes - 1)) = (?n, False)"
    by (rule addDuration_exact) (use W LC in \<open>simp_all add: budget_constants\<close>)
  have n: "0 \<le> ?n" "?n \<le> 12 * 7202000000000" using W LC by linarith+
  have "?n div lanes \<le> ?n" using zdiv_mono2 [of ?n 1 lanes] n lanes by simp
  then have "wrap64 (?n div lanes + 1) = ?n div lanes + 1"
    using n lanes by (intro wrap64_id) (simp add: in_int64_def budget_constants pos_imp_zdiv_nonneg_iff order_trans [of _ 0])
  note wr = this
  have rq: "rem64 ?n lanes = ?n mod lanes" "quot64 ?n lanes = ?n div lanes"
    using n lanes by simp_all
  have q: "(if rem64 ?n lanes \<noteq> 0 then wrap64 (quot64 ?n lanes + 1) else quot64 ?n lanes) =
      - ((- ?n) div lanes)"
    unfolding rq wr by (rule round_up [OF n(1)]) (use lanes in simp)
  show ?thesis
    using False lanes
    by (simp add: capacityDeadline_def m a q Let_def list_bound_def maxDuration_def max_def mult.commute
        del: if_cancel)
qed

section \<open>The order and the selection\<close>

definition budget_key :: "RoleBudget \<Rightarrow> nat \<times> string \<times> int64" where
  "budget_key b = (roleRank (ro_role b), route_providerInstance (rb_route (ro_primary b)),
     il_timeout (rb_limits (ro_primary b)))"

lemma budget_less_key: "budget_less a b \<longleftrightarrow> budget_key a < budget_key b"
  by (auto simp: budget_less_def compareRoleBudgets_def compareRouteBudgets_def compareStrings_def
      budget_key_def Let_def split: if_splits)

interpretation budget_order: sort_order budget_less
  using sort_order_key [of budget_key] by (simp add: budget_less_key [abs_def])

lemma count_roles_Some:
  "count_roles c bs = Some c' \<longleftrightarrow>
     (\<forall>b \<in> set bs. Role_Valid (ro_role b)) \<and>
     c' = (\<lambda>r. c r + int (count_list (map ro_role bs) r))"
proof (induction bs arbitrary: c)
  case (Cons b bs)
  have "(\<lambda>r. (c(ro_role b := c (ro_role b) + 1)) r + int (count_list (map ro_role bs) r)) =
      (\<lambda>r. c r + int (count_list (map ro_role (b # bs)) r))"
    by (simp add: fun_eq_iff)
  then show ?case by (simp add: Cons.IH del: fun_upd_apply)
qed auto

lemma count_list_distinct: "(\<forall>x. count_list xs x \<le> 1) \<longleftrightarrow> distinct xs"
proof (induction xs)
  case (Cons y ys)
  have "(\<forall>x. count_list (y # ys) x \<le> 1) \<longleftrightarrow> count_list ys y = 0 \<and> (\<forall>x. count_list ys x \<le> 1)"
    (is "?L \<longleftrightarrow> ?R")
  proof
    assume L: ?L
    have "count_list ys y = 0" using L [rule_format, of y] by simp
    moreover have "count_list ys x \<le> 1" for x
      using L [rule_format, of x] by (cases "y = x") simp_all
    ultimately show ?R by blast
  next
    assume ?R
    then show ?L by simp
  qed
  then show ?case using Cons by (simp add: count_list_0_iff)
qed simp

lemma validateRoleSelection_eligible:
  "validateRoleSelection bs = BudgetReasonEligible \<longleftrightarrow>
     (\<forall>b \<in> set bs. Role_Valid (ro_role b)) \<and> distinct (map ro_role bs) \<and>
     (\<forall>b \<in> set bs. ProviderRoute_Valid (rb_route (ro_primary b)) \<and>
        0 < il_timeout (rb_limits (ro_primary b)))"
proof (cases "\<forall>b \<in> set bs. Role_Valid (ro_role b)")
  case False
  then have "count_roles (\<lambda>_. 0) bs = None"
    using count_roles_Some [of "\<lambda>_. 0" bs] by (cases "count_roles (\<lambda>_. 0) bs") auto
  with False show ?thesis by (simp add: validateRoleSelection_def)
next
  case True
  then have c: "count_roles (\<lambda>_. 0) bs = Some (\<lambda>r. int (count_list (map ro_role bs) r))"
    by (simp add: count_roles_Some)
  have zero: "count_list (map ro_role bs) r = 0" if "r \<notin> set FixedRoleOrder" for r
    using that True by (auto simp: count_list_0_iff Role_Valid_iff)
  have "(\<forall>r \<in> set FixedRoleOrder. count_list (map ro_role bs) r \<le> 1) \<longleftrightarrow>
      (\<forall>r. count_list (map ro_role bs) r \<le> 1)"
    using zero by (metis zero_le_one)
  then have d: "list_ex (\<lambda>r. int (count_list (map ro_role bs) r) > 1) FixedRoleOrder \<longleftrightarrow>
      \<not> distinct (map ro_role bs)"
    using count_list_distinct [of "map ro_role bs"] by (auto simp: list_ex_iff not_le [symmetric])
  have v: "validateRoleSelection bs =
      (if \<not> distinct (map ro_role bs) then BudgetReasonDuplicateRole
       else if list_ex (\<lambda>b. \<not> ProviderRoute_Valid (rb_route (ro_primary b)) \<or>
              validateInvocationLimits (rb_limits (ro_primary b)) \<noteq> None) bs
         then BudgetReasonInvalidPrimaryRoute
       else BudgetReasonEligible)"
    unfolding validateRoleSelection_def c option.case d by (rule refl)
  show ?thesis
    unfolding v using True
    by (auto simp: list_ex_iff validateInvocationLimits_def not_le split: if_splits)
qed

lemma validateRouteCaps_eligible:
  "validateRouteCaps bs c = BudgetReasonEligible \<longleftrightarrow>
     (\<forall>b \<in> set bs. il_timeout (rb_limits (ro_primary b)) \<le> hc_maxTimeout c \<and>
        2 \<le> hc_maxInvocationsPerRole c)"
  by (induction bs) (auto simp: routeCapsExceed_def)

lemma valid_ceilings:
  assumes "validateHarnessCeilings c = None"
  shows "hc_maxTimeout c \<le> maxBudgetProviderTimeout" "hc_maxInvocationsPerRun c \<le> 14"
    "hc_maxInvocationsPerRole c \<le> 2"
  using assms
  by (auto simp: validateHarnessCeilings_def maxBudgetInvocationsPerRun_def
      maxBudgetInvocationsPerRole_def split: if_splits prod.splits)

lemma default_ceilings_valid: "validateHarnessCeilings DefaultHarnessCeilings = None"
  by code_simp

lemma distinct_roles_bounded:
  assumes "\<forall>b \<in> set bs. Role_Valid (ro_role b)" "distinct (map ro_role bs)"
  shows "length bs \<le> 7"
proof -
  have "card (set (map ro_role bs)) \<le> card (set FixedRoleOrder)"
    using assms(1) by (intro card_mono) (auto simp: Role_Valid_iff)
  then show ?thesis
    using distinct_card [OF assms(2)] by (simp add: FixedRoleOrder_def)
qed

section \<open>What an eligible receipt certifies\<close>

definition receipt_exact :: "RunBudgetReceipt \<Rightarrow> bool" where
  "receipt_exact r \<longleftrightarrow>
     (let ds = map path_deadline (rc_roles r)
      in rc_rolePaths r = map path_of (rc_roles r) \<and>
         rc_totalInvocations r = 2 * int (length (rc_roles r)) \<and>
         rc_criticalPath r = max_of ds \<and>
         rc_runDeadline r = list_bound ds (rc_maxActiveLanes r) + budgetRunGrace)"

definition receipt_bounded :: "RunBudgetReceipt \<Rightarrow> bool" where
  "receipt_bounded r \<longleftrightarrow>
     (let c = rc_ceilings r
      in validateHarnessCeilings c = None \<and> 1 \<le> rc_maxActiveLanes r \<and>
         rc_totalInvocations r \<le> hc_maxInvocationsPerRun c \<and>
         (\<forall>b \<in> set (rc_roles r). il_timeout (rb_limits (ro_primary b)) \<le> hc_maxTimeout c \<and>
            path_deadline b \<le> hc_maxRolePathDeadline c) \<and>
         rc_runDeadline r \<le> hc_maxRunDeadline c)"

lemma list_bound_range:
  assumes "\<forall>d \<in> set ds. 0 < d \<and> d \<le> 7202000000000" "length ds \<le> 7" "1 \<le> lanes"
  shows "0 \<le> list_bound ds lanes \<and> list_bound ds lanes \<le> 100000000000000"
proof -
  have L: "0 \<le> max_of ds" "max_of ds \<le> 7202000000000"
    using max_of_bounds(1) max_of_bounds(2) [of ds 7202000000000] assms(1) by auto
  show ?thesis
  proof (cases "ds = [] \<or> int (length ds) \<le> lanes")
    case True
    then show ?thesis using L by (auto simp: list_bound_def)
  next
    case False
    then have lanes: "1 \<le> lanes" "lanes \<le> 6" using assms(2,3) by auto
    have W: "0 \<le> sum_list ds" by (rule sum_list_lower) (use assms(1) in force)
    have "sum_list ds \<le> int (length ds) * 7202000000000"
      by (rule sum_list_upper) (use assms(1) in auto)
    then have W2: "sum_list ds \<le> 7 * 7202000000000" using assms(2) by simp
    have LC: "0 \<le> (lanes - 1) * max_of ds" "(lanes - 1) * max_of ds \<le> 5 * 7202000000000"
      using L lanes by (simp, intro mult_mono) auto
    let ?n = "sum_list ds + (lanes - 1) * max_of ds"
    have n: "0 \<le> ?n" "?n \<le> 12 * 7202000000000" using W W2 LC by linarith+
    have "?n div lanes \<le> ?n" using zdiv_mono2 [of ?n 1 lanes] n lanes by simp
    then have "- ((- ?n) div lanes) \<le> ?n + 1"
      using round_up [of ?n lanes] n lanes by (simp split: if_splits)
    then show ?thesis using False L n by (simp add: list_bound_def)
  qed
qed

lemma eligible_receipt:
  assumes "PreflightRunBudgetWithCapacity roles c lanes = (r, None)"
  shows "rc_roles r = canonicalRoleBudgets roles" "rc_ceilings r = c" "rc_maxActiveLanes r = lanes"
    "rc_eligible r" "rc_reasonCode r = BudgetReasonEligible"
    "receipt_exact r" "receipt_bounded r"
    "validateRoleSelection (rc_roles r) = BudgetReasonEligible" "timeouts_bounded (rc_roles r)"
proof -
  let ?bs = "canonicalRoleBudgets roles"
  have c: "validateHarnessCeilings c = None" and lanes: "1 \<le> lanes"
    and sel: "validateRoleSelection ?bs = BudgetReasonEligible"
    and caps: "validateRouteCaps ?bs c = BudgetReasonEligible"
    using assms
    by (auto simp: PreflightRunBudgetWithCapacity_def rejectBudget_def Let_def
        split: if_splits prod.splits)
  have bounded: "timeouts_bounded ?bs"
    using sel caps valid_ceilings(1) [OF c]
    unfolding validateRoleSelection_eligible validateRouteCaps_eligible timeouts_bounded_def by force
  have seven: "length ?bs \<le> 7"
    using sel distinct_roles_bounded unfolding validateRoleSelection_eligible by blast
  let ?ds = "map path_deadline ?bs"
  have ds: "\<forall>d \<in> set ?ds. 0 < d \<and> d \<le> 7202000000000" "length ?ds \<le> 7"
    using path_deadline_bounds [OF bounded] seven by auto
  have acc: "accumulateRunBudget ?bs = (map path_of ?bs, 2 * int (length ?bs), False)"
    using accumulate_exact [OF bounded, of 0 "[]" False] seven by (simp add: accumulateRunBudget_def)
  have deadlines: "map rp_deadline (map path_of ?bs) = ?ds"
    by (simp add: path_of_def)
  have "sum_list ?ds \<le> int (length ?ds) * 7202000000000"
    by (rule sum_list_upper) (use ds in auto)
  then have "0 + sum_list ?ds \<le> max_int64" using ds(2) by (simp add: max_int64_def)
  then have totals: "path_totals 0 0 False (map path_of ?bs) = (max_of ?ds, sum_list ?ds, False)"
    using path_totals_exact [of "map path_of ?bs" 0 0 False] ds(1)
    unfolding deadlines by (force simp: foldl_max max_def max_of_bounds path_of_def)
  have cap: "capacityDeadline (sum_list ?ds) (max_of ?ds) lanes (int (length ?bs)) =
      (list_bound ?ds lanes, False)"
    using capacity_exact [OF ds lanes] by simp
  have add: "addDuration (list_bound ?ds lanes) budgetRunGrace = (list_bound ?ds lanes + budgetRunGrace, False)"
    using list_bound_range [OF ds lanes] by (intro addDuration_exact) (simp_all add: budget_constants)
  define full where "full = \<lparr>rc_ceilings = c, rc_roles = ?bs, rc_rolePaths = map path_of ?bs,
    rc_totalInvocations = 2 * int (length ?bs), rc_runDeadline = list_bound ?ds lanes + budgetRunGrace,
    rc_criticalPath = max_of ?ds, rc_maxActiveLanes = lanes, rc_eligible = True,
    rc_reasonCode = BudgetReasonEligible\<rparr>"
  have run: "PreflightRunBudgetWithCapacity roles c lanes =
      (if 2 * int (length ?bs) > hc_maxInvocationsPerRun c
         then rejectBudget (full\<lparr>rc_eligible := False\<rparr>) BudgetReasonRunInvocationLimit
       else if list_ex (\<lambda>p. rp_deadline p > hc_maxRolePathDeadline c) (map path_of ?bs)
         then rejectBudget (full\<lparr>rc_eligible := False\<rparr>) BudgetReasonRolePathDeadlineLimit
       else if list_bound ?ds lanes + budgetRunGrace > hc_maxRunDeadline c
         then rejectBudget (full\<lparr>rc_eligible := False\<rparr>) BudgetReasonRunDeadlineLimit
       else (full, None))"
    using c lanes sel caps
    by (simp add: PreflightRunBudgetWithCapacity_def Let_def acc totals cap add full_def
        cong: if_cong split del: if_split)
  then have r: "r = full" and lim: "2 * int (length ?bs) \<le> hc_maxInvocationsPerRun c"
    "\<not> list_ex (\<lambda>p. rp_deadline p > hc_maxRolePathDeadline c) (map path_of ?bs)"
    "list_bound ?ds lanes + budgetRunGrace \<le> hc_maxRunDeadline c"
    using assms by (auto simp: rejectBudget_def split: if_splits)
  show "rc_roles r = ?bs" "rc_ceilings r = c" "rc_maxActiveLanes r = lanes"
    "rc_eligible r" "rc_reasonCode r = BudgetReasonEligible"
    by (simp_all add: r full_def)
  then show "validateRoleSelection (rc_roles r) = BudgetReasonEligible" "timeouts_bounded (rc_roles r)"
    using sel bounded by simp_all
  show "receipt_exact r"
    by (simp add: receipt_exact_def r full_def)
  show "receipt_bounded r"
    using lim lanes c caps unfolding validateRouteCaps_eligible
    by (simp add: receipt_bounded_def r full_def list_ex_iff path_of_def not_less)
qed

section \<open>The run deadline covers any greedy schedule\<close>

text \<open>
  Lanes as a sorted list of the times at which they become free; a path starts on the lane that
  is free first. This is the list scheduling that the comment of \<open>capacityDeadline\<close> refers to:
  whenever a lane is free and a path is waiting, a path starts, in any order of the paths.
\<close>

fun greedy_lanes :: "int list \<Rightarrow> int list \<Rightarrow> int list" where
  "greedy_lanes lanes [] = lanes"
| "greedy_lanes [] (d # ds) = []"
| "greedy_lanes (l # ls) (d # ds) = greedy_lanes (insort (l + d) ls) ds"

definition greedy_makespan :: "nat \<Rightarrow> int list \<Rightarrow> int" where
  "greedy_makespan n ds = max_of (greedy_lanes (replicate n 0) ds)"

lemma greedy_lanes_length: "length (greedy_lanes ls ds) = length ls"
  by (induction ls ds rule: greedy_lanes.induct) simp_all

lemma sum_insort: "sum_list (insort x xs) = x + sum_list xs" for x :: int
  by (induction xs) auto

lemma sum_list_at_least: "\<forall>x \<in> set xs. l \<le> x \<Longrightarrow> int (length xs) * l \<le> sum_list xs" for l :: int
  by (induction xs) (auto simp: algebra_simps)

lemma sorted_min_sum: "sorted (l # ls) \<Longrightarrow> int (length (l # ls)) * l \<le> sum_list (l # ls)" for l :: int
  by (rule sum_list_at_least) auto

lemma count_list_replicate: "count_list (replicate n x) x = n"
  by (induction n) simp_all

text \<open>Graham's bound: with \<open>m\<close> lanes, no lane ends later than \<open>(W + (m - 1) L) / m\<close>.\<close>

definition lanes_bounded :: "int \<Rightarrow> int list \<Rightarrow> bool" where
  "lanes_bounded L ls \<longleftrightarrow>
     (\<forall>x \<in> set ls. int (length ls) * x \<le> sum_list ls + (int (length ls) - 1) * L)"

lemma greedy_step:
  assumes "sorted (l # ls)" "lanes_bounded L (l # ls)" "0 \<le> d" "d \<le> L"
  shows "lanes_bounded L (insort (l + d) ls)"
proof -
  let ?m = "int (length (l # ls))"
  have sum: "sum_list (insort (l + d) ls) = sum_list (l # ls) + d"
    by (simp add: sum_insort)
  have "?m * (l + d) \<le> sum_list (l # ls) + d + (?m - 1) * L"
  proof -
    have "?m * l \<le> sum_list (l # ls)" by (rule sorted_min_sum [OF assms(1)])
    moreover have "(?m - 1) * d \<le> (?m - 1) * L" by (intro mult_left_mono) (use assms in simp_all)
    ultimately show ?thesis by (simp add: algebra_simps)
  qed
  moreover have "?m * x \<le> sum_list (l # ls) + d + (?m - 1) * L" if "x \<in> set ls" for x
  proof -
    have "?m * x \<le> sum_list (l # ls) + (?m - 1) * L"
      using assms(2) that unfolding lanes_bounded_def by simp
    then show ?thesis using assms(3) by linarith
  qed
  ultimately show ?thesis
    unfolding lanes_bounded_def sum by (auto simp: set_insort_key)
qed

lemma greedy_bounded:
  "sorted ls \<Longrightarrow> lanes_bounded L ls \<Longrightarrow> \<forall>d \<in> set ds. 0 \<le> d \<and> d \<le> L \<Longrightarrow>
    lanes_bounded L (greedy_lanes ls ds) \<and>
    (ls \<noteq> [] \<longrightarrow> sum_list (greedy_lanes ls ds) = sum_list ls + sum_list ds)"
proof (induction ls ds rule: greedy_lanes.induct)
  case (3 l ls d ds)
  have "lanes_bounded L (insort (l + d) ls)" using greedy_step 3 by simp
  moreover have "sorted (insort (l + d) ls)" using 3 by (simp add: sorted_insort)
  moreover have "insort (l + d) ls \<noteq> []" by (cases ls) simp_all
  ultimately show ?case using 3 by (simp add: sum_insort)
qed (simp_all add: lanes_bounded_def)

text \<open>With as many lanes as paths every path starts at once.\<close>

lemma greedy_parallel:
  "sorted ls \<Longrightarrow> \<forall>x \<in> set ls. 0 \<le> x \<and> x \<le> L \<Longrightarrow> length ds \<le> count_list ls 0 \<Longrightarrow>
    \<forall>d \<in> set ds. 0 \<le> d \<and> d \<le> L \<Longrightarrow> \<forall>x \<in> set (greedy_lanes ls ds). x \<le> L"
proof (induction ls ds rule: greedy_lanes.induct)
  case (3 l ls d ds)
  have "0 \<in> set (l # ls)"
    using 3(4) by (metis count_list_0_iff length_Cons not_one_le_zero le_trans Suc_le_eq zero_less_Suc not_less)
  then have "l = 0" using 3(2,3) by auto
  moreover have "count_list ls 0 \<le> count_list (insort d ls) 0"
    by (induction ls) auto
  ultimately show ?case using 3 by (auto simp: sorted_insort set_insort_key)
qed simp_all

lemma greedy_makespan_bound:
  assumes "1 \<le> n" "\<forall>d \<in> set ds. 0 \<le> d"
  shows "greedy_makespan n ds \<le> list_bound ds (int n)"
proof (cases "int (length ds) \<le> int n")
  case True
  have "\<forall>x \<in> set (greedy_lanes (replicate n 0) ds). x \<le> max_of ds"
  proof (rule greedy_parallel)
    show "length ds \<le> count_list (replicate n 0) (0 :: int)" using True by (simp add: count_list_replicate)
  qed (use assms(2) max_of_ge max_of_bounds(1) in auto)
  then have "greedy_makespan n ds \<le> max_of ds"
    unfolding greedy_makespan_def by (intro max_of_bounds(2)) (simp_all add: max_of_bounds(1))
  moreover have "max_of ds = 0" if "ds = []" using that by (simp add: max_of_def)
  ultimately show ?thesis using True by (auto simp: list_bound_def)
next
  case False
  let ?L = "max_of ds" and ?ls = "greedy_lanes (replicate n 0) ds"
  have "lanes_bounded ?L ?ls \<and> sum_list ?ls = sum_list ds"
    using greedy_bounded [of "replicate n 0" ?L ds] assms max_of_ge max_of_bounds(1) [of ds]
    by (auto simp: lanes_bounded_def sum_list_replicate)
  then have "int n * x \<le> sum_list ds + (int n - 1) * ?L" if "x \<in> set ?ls" for x
    using that unfolding lanes_bounded_def by (auto simp: greedy_lanes_length)
  then have "x \<le> - ((- (sum_list ds + (int n - 1) * ?L)) div int n)" if "x \<in> set ?ls" for x
  proof -
    have "- (sum_list ds + (int n - 1) * ?L) \<le> int n * (- x)"
      using \<open>\<And>x. x \<in> set ?ls \<Longrightarrow> int n * x \<le> sum_list ds + (int n - 1) * ?L\<close> [OF that]
      by (simp add: algebra_simps)
    then have "(- (sum_list ds + (int n - 1) * ?L)) div int n \<le> int n * (- x) div int n"
      using assms(1) by (intro zdiv_mono1) simp_all
    also have "int n * (- x) div int n = - x"
      using assms(1) by (subst nonzero_mult_div_cancel_left) simp_all
    finally show ?thesis by linarith
  qed
  then have "greedy_makespan n ds \<le> max (- ((- (sum_list ds + (int n - 1) * ?L)) div int n)) ?L"
    unfolding greedy_makespan_def
    by (intro max_of_bounds(2)) (auto simp: le_max_iff_disj max_of_bounds(1))
  then show ?thesis using False by (auto simp: list_bound_def)
qed

lemma list_bound_perm: "mset ds = mset ds' \<Longrightarrow> list_bound ds n = list_bound ds' n"
proof -
  assume perm: "mset ds = mset ds'"
  have mono: "max_of xs \<le> max_of ys" if "set xs \<subseteq> set ys" for xs ys
    using that max_of_ge max_of_bounds(1) by (intro max_of_bounds(2)) blast+
  have "max_of ds = max_of ds'"
    using mset_eq_setD [OF perm] by (intro antisym mono) simp_all
  moreover have "sum_list ds = sum_list ds'" using perm by (metis sum_mset_sum_list)
  moreover have "length ds = length ds'" using perm by (rule mset_eq_length)
  moreover have "ds = [] \<longleftrightarrow> ds' = []" using perm by auto
  ultimately show ?thesis by (simp add: list_bound_def)
qed

lemma eligible_schedule:
  assumes "PreflightRunBudgetWithCapacity roles c (int n) = (r, None)"
    and "mset ds = mset (map rp_deadline (rc_rolePaths r))"
  shows "greedy_makespan n ds + budgetRunGrace \<le> rc_runDeadline r"
proof -
  note E = eligible_receipt [OF assms(1)]
  let ?ds = "map path_deadline (rc_roles r)"
  have paths: "map rp_deadline (rc_rolePaths r) = ?ds"
    using E(6) by (simp add: receipt_exact_def Let_def path_of_def comp_def)
  have "\<forall>d \<in> set ds. 0 \<le> d"
    using mset_eq_setD [OF assms(2)] path_deadline_bounds [OF E(9)] paths by fastforce
  moreover have "1 \<le> n" using E(3,7) by (simp add: receipt_bounded_def Let_def)
  ultimately have "greedy_makespan n ds \<le> list_bound ds (int n)"
    by (intro greedy_makespan_bound) simp_all
  also have "\<dots> = list_bound ?ds (int n)"
    using assms(2) paths by (intro list_bound_perm) simp
  finally show ?thesis
    using E(3,6) by (simp add: receipt_exact_def Let_def)
qed

end
