(* ===== verification/Clean_Model.thy ===== *)
theory Clean_Model
  imports Identifiers Targets
begin

text \<open>
  The values of the cleanup planner (\<open>internal/app/clean/model.go\<close>): retention snapshots, plans,
  their failures and the checks of their identities, with the text form of times in a plan
  (\<open>time.Format\<close> with \<open>RFC3339Nano\<close>) and the small list functions of \<open>planner.go\<close>. A nil slice
  and an empty one are the same list; \<open>Clone\<close> normalises the former to the latter before a plan is
  hashed or returned, and copies are values here.
\<close>

section \<open>Times as text\<close>

text \<open>
  The civil date of a number of days since the first of January of year one, in the proleptic
  Gregorian calendar. Years start in March, so that the leap day is the last one.
\<close>

definition civil_date :: "int \<Rightarrow> int \<times> int \<times> int" where
  "civil_date days =
     (let z = days + 306; era = z div 146097; doe = z mod 146097;
          yoe = (doe - doe div 1460 + doe div 36524 - doe div 146096) div 365;
          doy = doe - (365 * yoe + yoe div 4 - yoe div 100);
          mp = (5 * doy + 2) div 153;
          d = doy - (153 * mp + 2) div 5 + 1;
          m = (if mp < 10 then mp + 3 else mp - 9)
      in (yoe + era * 400 + (if m \<le> 2 then 1 else 0), m, d))"

definition pad_int :: "nat \<Rightarrow> int \<Rightarrow> string" where
  "pad_int width x =
     (let digits = dec (nat \<bar>x\<bar>)
      in (if x < 0 then ''-'' else []) @ replicate (width - length digits) (CHR ''0'') @ digits)"

text \<open>The fraction of a second: nine digits without the trailing zeros.\<close>

definition fraction_text :: "int \<Rightarrow> string" where
  "fraction_text nanos =
     (let digits = rev (dropWhile (\<lambda>c. c = CHR ''0'') (rev (pad_int 9 nanos)))
      in if digits = [] then [] else CHR ''.'' # digits)"

definition nanos_per_second :: int where
  "nanos_per_second = 1000000000"

definition FormatRFC3339Nano :: "go_time \<Rightarrow> string" where
  "FormatRFC3339Nano t =
     (let seconds = time_nanos t div nanos_per_second;
          nanos = time_nanos t mod nanos_per_second;
          (y, m, d) = civil_date (seconds div 86400);
          s = seconds mod 86400
      in pad_int 4 y @ ''-'' @ pad_int 2 m @ ''-'' @ pad_int 2 d @ ''T'' @
         pad_int 2 (s div 3600) @ '':'' @ pad_int 2 (s div 60 mod 60) @ '':'' @ pad_int 2 (s mod 60) @
         fraction_text nanos @ ''Z'')"

section \<open>Failures and reasons\<close>

datatype FailureKind =
    FailureInvalidSnapshot
  | FailureInvalidGraph
  | FailureInvalidPath
  | FailureStalePlan
  | FailureTombstone

text \<open>One constructor for each place that builds a failure; \<open>clean_kind\<close> is its kind.\<close>

datatype clean_error =
    CleanNowRequired
  | CleanIdentityInvalid
  | CleanPolicyNegative
  | CleanPolicyRange
  | CleanRunIDs
  | CleanNegativeBytes string
  | CleanRunKind string
  | CleanDuplicateRun string
  | CleanKeepNotCanonical
  | CleanKeepUnknown
  | CleanEdgeIdentity
  | CleanEdgePath
  | CleanProtectedBytes
  | CleanTotalOverflow
  | CleanAgeOverflow
  | CleanProjectedUnderflow
  | CleanSizeOverflow
  | CleanPlannedOverflow
  | CleanSchemaVersion string
  | CleanNotDryRun
  | CleanHashMismatch
  | CleanSelection
  | CleanFuel

fun clean_kind :: "clean_error \<Rightarrow> FailureKind option" where
  "clean_kind CleanEdgeIdentity = Some FailureInvalidGraph"
| "clean_kind CleanEdgePath = Some FailureInvalidPath"
| "clean_kind CleanHashMismatch = Some FailureStalePlan"
| "clean_kind (CleanSchemaVersion v) = None"
| "clean_kind CleanFuel = None"
| "clean_kind _ = Some FailureInvalidSnapshot"

datatype Reason =
    ReasonProtectedExplicit
  | ReasonActive
  | ReasonUncommitted
  | ReasonCorrupt
  | ReasonAncestor
  | ReasonGraphAnomaly
  | ReasonMissingTime
  | ReasonYoung
  | ReasonEligibleAge
  | ReasonEligibleSize
  | ReasonDeletedAge
  | ReasonDeletedSize
  | ReasonTargetProtected
  | ReasonStaleEpoch
  | ReasonPartialResume
  | ReasonOther string

fun Reason_string :: "Reason \<Rightarrow> string" where
  "Reason_string ReasonProtectedExplicit = ''protected_explicit''"
| "Reason_string ReasonActive = ''active''"
| "Reason_string ReasonUncommitted = ''uncommitted''"
| "Reason_string ReasonCorrupt = ''corrupt''"
| "Reason_string ReasonAncestor = ''ancestor''"
| "Reason_string ReasonGraphAnomaly = ''graph_anomaly''"
| "Reason_string ReasonMissingTime = ''missing_time''"
| "Reason_string ReasonYoung = ''young''"
| "Reason_string ReasonEligibleAge = ''eligible_age''"
| "Reason_string ReasonEligibleSize = ''eligible_size''"
| "Reason_string ReasonDeletedAge = ''deleted_age''"
| "Reason_string ReasonDeletedSize = ''deleted_size''"
| "Reason_string ReasonTargetProtected = ''target_not_reached_protected''"
| "Reason_string ReasonStaleEpoch = ''stale_epoch''"
| "Reason_string ReasonPartialResume = ''partial_delete_resume''"
| "Reason_string (ReasonOther s) = s"

text \<open>The order map of \<open>sortReasons\<close>; a missing key reads as zero.\<close>

fun reason_order :: "Reason \<Rightarrow> nat" where
  "reason_order ReasonProtectedExplicit = 0"
| "reason_order ReasonActive = 1"
| "reason_order ReasonUncommitted = 2"
| "reason_order ReasonCorrupt = 3"
| "reason_order ReasonAncestor = 4"
| "reason_order ReasonGraphAnomaly = 5"
| "reason_order ReasonMissingTime = 6"
| "reason_order ReasonYoung = 7"
| "reason_order ReasonEligibleAge = 8"
| "reason_order ReasonEligibleSize = 9"
| "reason_order ReasonDeletedAge = 10"
| "reason_order ReasonDeletedSize = 11"
| "reason_order ReasonTargetProtected = 12"
| "reason_order ReasonStaleEpoch = 13"
| "reason_order ReasonPartialResume = 14"
| "reason_order (ReasonOther s) = 0"

definition addReason :: "Reason list \<Rightarrow> Reason \<Rightarrow> Reason list" where
  "addReason rs r = (if r \<in> set rs then rs else rs @ [r])"

definition sortReasons :: "Reason list \<Rightarrow> Reason list" where
  "sortReasons rs = sort_slice (\<lambda>a b. reason_order a < reason_order b) rs"

section \<open>Snapshots\<close>

record Policy =
  po_RetentionAgeSeconds :: int64
  po_MinAgeForSizeSeconds :: int64
  po_TargetBytes :: int64
  po_ExplicitKeepRunIDs :: "string list"

record StoreEpoch =
  ep_Value :: int64
  ep_SHA256 :: string

datatype RunKind = RunKindPublication | RunKindDiagnosticOnly | RunKindOther string

record RunObservation =
  ob_RunID :: string
  ob_SessionID :: string
  ob_Kind :: RunKind
  ob_Completed :: bool
  ob_CompletedAt :: "go_time option"
  ob_Active :: bool
  ob_Committed :: bool
  ob_Corrupt :: bool
  ob_DiagnosticProtected :: bool
  ob_RegularFileBytes :: int64

definition RunObservation_kind :: "RunObservation \<Rightarrow> RunKind" where
  "RunObservation_kind r = (if ob_Kind r = RunKindOther '''' then RunKindPublication else ob_Kind r)"

text \<open>\<open>None\<close> is \<open>(time.Time{}, false)\<close>.\<close>

definition RunObservation_completion :: "RunObservation \<Rightarrow> go_time option" where
  "RunObservation_completion r =
     (if \<not> ob_Completed r then None
      else case ob_CompletedAt r of
        None \<Rightarrow> None
      | Some t \<Rightarrow> if time_IsZero t then None else Some (time_UTC t))"

definition completion_time :: "RunObservation \<Rightarrow> go_time" where
  "completion_time r =
     (case RunObservation_completion r of
        None \<Rightarrow> \<lparr>time_nanos = 0, time_utc = True\<rparr> | Some t \<Rightarrow> t)"

record LineageEdgeRef =
  le_ParentRunID :: string
  le_ChildRunID :: string
  le_EdgePath :: string
  le_SHA256 :: string

record LineageEdgeObservation = LineageEdgeRef +
  le_Valid :: bool

abbreviation edge_ref :: "LineageEdgeObservation \<Rightarrow> LineageEdgeRef" where
  "edge_ref \<equiv> LineageEdgeRef.truncate"

record RetentionSnapshot =
  sn_Now :: go_time
  sn_StoreEpoch :: StoreEpoch
  sn_InputPolicySHA256 :: string
  sn_Policy :: Policy
  sn_Runs :: "RunObservation list"
  sn_Edges :: "LineageEdgeObservation list"
  sn_ProtectedRegularFileBytes :: int64

definition canonicalRunID :: "string \<Rightarrow> bool" where
  "canonicalRunID v = is_ok (ParseRunID v)"

definition canonicalSessionID :: "string \<Rightarrow> bool" where
  "canonicalSessionID v = is_ok (ParseSessionID v)"

definition canonicalSHA256 :: "string \<Rightarrow> bool" where
  "canonicalSHA256 v \<longleftrightarrow>
     HasPrefix v ''sha256:'' \<and> length v = length ''sha256:'' + 64 \<and>
     list_all is_lower_hex_byte (drop (length ''sha256:'') v)"

definition validateSnapshotIdentity :: "StoreEpoch \<Rightarrow> string \<Rightarrow> clean_error option" where
  "validateSnapshotIdentity epoch policy =
     (if ep_Value epoch < 0 \<or> \<not> canonicalSHA256 (ep_SHA256 epoch) \<or> \<not> canonicalSHA256 policy
      then Some CleanIdentityInvalid else None)"

text \<open>\<open>canonicalEdgePath\<close>: the flag \<open>start\<close> marks the first byte of a component.\<close>

definition alnum_byte :: "char \<Rightarrow> bool" where
  "alnum_byte c \<longleftrightarrow> is_lower_byte c \<or> is_upper_byte c \<or> is_digit_byte c"

fun edge_path_scan :: "bool \<Rightarrow> string \<Rightarrow> bool" where
  "edge_path_scan start [] = (\<not> start)"
| "edge_path_scan start (c # cs) =
     (if c = CHR ''/'' then (if start then False else edge_path_scan True cs)
      else if \<not> (alnum_byte c \<or> c \<in> set ''_.-'') \<or> start \<and> \<not> alnum_byte c then False
      else edge_path_scan False cs)"

definition canonicalEdgePath :: "string \<Rightarrow> bool" where
  "canonicalEdgePath v = (if v = '''' \<or> length v > 4096 then False else edge_path_scan True v)"

section \<open>Plans\<close>

record AncestorProtection =
  ap_AncestorRunID :: string
  ap_RetainedDescendantRunID :: string
  ap_LineageEdgeRefs :: "LineageEdgeRef list"

record GraphAnomalyComponent =
  ga_AffectedRunIDs :: "string list"
  ga_LineageEdgeRefs :: "LineageEdgeRef list"

record RetentionProtection =
  rp_RetainedSeedRunIDs :: "string list"
  rp_TransitiveAncestorProtection :: "AncestorProtection list"
  rp_GraphAnomalyComponents :: "GraphAnomalyComponent list"

record RunDecision =
  rd_RunID :: string
  rd_Decision :: string
  rd_Reasons :: "Reason list"

record DeleteSetEntry =
  en_RunID :: string
  en_CompletedAt :: string
  en_RegularFileBytes :: int64
  en_Reason :: Reason

record DeleteSets =
  ds_AgeDeleteSet :: "DeleteSetEntry list"
  ds_SizeDeleteSet :: "DeleteSetEntry list"

record OrderedAction =
  ac_Sequence :: int64
  ac_Phase :: string
  ac_Action :: string
  ac_RunID :: string
  ac_Reason :: Reason
  ac_BytesReleased :: int64

record ByteAccounting =
  ba_InitialRegularFileBytes :: int64
  ba_AgeDeleteBytes :: int64
  ba_SizeDeleteBytes :: int64
  ba_PlannedDeleteBytes :: int64
  ba_ProjectedRegularFileBytes :: int64
  ba_TargetBytes :: int64
  ba_TargetReached :: bool

record ApplyIdentity =
  ai_DryRunPlanHash :: string
  ai_ExpectedStoreEpoch :: StoreEpoch
  ai_ExpectedInputPolicySHA256 :: string

record CleanPlan =
  cp_SchemaVersion :: string
  cp_Mode :: string
  cp_Now :: string
  cp_StoreEpoch :: StoreEpoch
  cp_InputPolicySHA256 :: string
  cp_Policy :: Policy
  cp_RetentionProtection :: RetentionProtection
  cp_RunDecisions :: "RunDecision list"
  cp_DeleteSets :: DeleteSets
  cp_OrderedActions :: "OrderedAction list"
  cp_ByteAccounting :: ByteAccounting
  cp_OutcomeReasons :: "Reason list"
  cp_PlanHash :: string
  cp_ApplyIdentity :: "ApplyIdentity option"

definition SchemaVersion :: string where
  "SchemaVersion = ''mulgae-clean-plan.v1''"

section \<open>Facts about the checks\<close>

lemma canonicalRunID_not_Nil: "canonicalRunID v \<Longrightarrow> v \<noteq> ''''"
  by (auto simp: canonicalRunID_def wellformed_kinds)

lemma addReason_set [simp]: "set (addReason rs r) = insert r (set rs)"
  by (auto simp: addReason_def)

lemma addReason_not_Nil [simp]: "addReason rs r \<noteq> []"
  by (auto simp: addReason_def)

text \<open>The path check accepts relative paths of proper names only, a stricter set than cleaning does.\<close>

lemma edge_path_scan_components:
  "edge_path_scan start v \<Longrightarrow>
    (case split_on (CHR ''/'') v of [] \<Rightarrow> False | w # ws \<Rightarrow>
       (w \<noteq> [] \<or> \<not> start) \<and> (start \<longrightarrow> proper_component w) \<and> list_all proper_component ws)"
proof (induction start v rule: edge_path_scan.induct)
  case (2 start c cs)
  have dots: "alnum_byte c \<Longrightarrow> c \<noteq> CHR ''.''"
    by (auto simp: alnum_byte_def go_defs less_eq_char_def)
  obtain w ws where s: "split_on (CHR ''/'') cs = w # ws"
    by (cases "split_on (CHR ''/'') cs") simp_all
  from 2 s dots show ?case
    by (auto simp: proper_component_def split: if_splits)
qed simp

lemma canonicalEdgePath_proper:
  "canonicalEdgePath v \<Longrightarrow> list_all proper_component (split_on (CHR ''/'') v)"
  using edge_path_scan_components [of True v]
  by (auto simp: canonicalEdgePath_def split: if_splits list.splits)

end
