(* ===== verification/Clean_Graph.thy ===== *)
theory Clean_Graph
  imports Clean_Model
begin

text \<open>
  The lineage graph of the cleanup planner (\<open>internal/app/clean/planner.go\<close>): the order and the keys
  of edges, the loop that checks every edge and invalidates those that would give a run two parents
  or close a cycle, the connected component of a run, and the walk from a retained run to its
  ancestors. The edges that remain valid form a forest, the component search visits exactly the
  connected runs, and the ancestor search exactly the ancestors.
\<close>

type_synonym edges = "LineageEdgeObservation list"

section \<open>Keys and order\<close>

definition edgeKey :: "'a LineageEdgeRef_scheme \<Rightarrow> string" where
  "edgeKey e = le_ChildRunID e @ CHR 0x00 # le_ParentRunID e @ CHR 0x00 # le_EdgePath e @
     CHR 0x00 # le_SHA256 e"

definition sortEdges :: "edges \<Rightarrow> edges" where
  "sortEdges es = sort_slice (\<lambda>a b. edgeKey (edge_ref a) < edgeKey (edge_ref b)) es"

definition sortRefs :: "LineageEdgeRef list \<Rightarrow> LineageEdgeRef list" where
  "sortRefs rs = sort_slice (\<lambda>a b. edgeKey a < edgeKey b) rs"

definition appendEdgeRef :: "LineageEdgeRef list \<Rightarrow> LineageEdgeRef \<Rightarrow> LineageEdgeRef list" where
  "appendEdgeRef refs added =
     (if \<exists>r \<in> set refs. edgeKey r = edgeKey added then refs else sortRefs (refs @ [added]))"

text \<open>The assignment \<open>refs[key] = ref\<close> of \<open>component\<close>, on the list of the map's values.\<close>

fun put_ref :: "LineageEdgeRef list \<Rightarrow> LineageEdgeRef \<Rightarrow> LineageEdgeRef list" where
  "put_ref [] r = [r]"
| "put_ref (q # qs) r = (if edgeKey q = edgeKey r then r # qs else q # put_ref qs r)"

lemma edge_ref_simps [simp]:
  "le_ParentRunID (edge_ref e) = le_ParentRunID e"
  "le_ChildRunID (edge_ref e) = le_ChildRunID e"
  "le_EdgePath (edge_ref e) = le_EdgePath e"
  "le_SHA256 (edge_ref e) = le_SHA256 e"
  by (simp_all add: LineageEdgeRef.defs)

lemma edgeKey_ref [simp]: "edgeKey (edge_ref e) = edgeKey e"
  by (simp add: edgeKey_def)

lemma edge_ref_update [simp]: "edge_ref (e\<lparr>le_Valid := b\<rparr>) = edge_ref e"
  by (simp add: LineageEdgeRef.defs)

lemma set_sortEdges [simp]: "set (sortEdges es) = set es"
  by (simp add: sortEdges_def)

lemma set_sortRefs [simp]: "set (sortRefs rs) = set rs"
  by (simp add: sortRefs_def)

interpretation edge_order: sort_order "\<lambda>a b :: LineageEdgeRef. edgeKey a < edgeKey b"
  by (rule sort_order_key)

section \<open>The edge loop\<close>

text \<open>
  \<open>parentByChild\<close> is a map. The inner loop of the source follows it from a run upwards and reads
  a missing key as the empty string; \<open>closes_cycle\<close> counts its rounds down from a bound, and
  \<open>None\<close> says that the bound was too small.
\<close>

type_synonym parents = "string \<Rightarrow> string option"

definition parent_or_empty :: "parents \<Rightarrow> string \<Rightarrow> string" where
  "parent_or_empty par a = (case par a of None \<Rightarrow> '''' | Some p \<Rightarrow> p)"

fun closes_cycle :: "nat \<Rightarrow> parents \<Rightarrow> string \<Rightarrow> string \<Rightarrow> bool option" where
  "closes_cycle 0 par child a = None"
| "closes_cycle (Suc n) par child a =
     (if a = '''' then Some False
      else if a = child then Some True
      else closes_cycle n par child (parent_or_empty par a))"

definition edge_identity_ok :: "LineageEdgeObservation \<Rightarrow> bool" where
  "edge_identity_ok e \<longleftrightarrow>
     canonicalRunID (le_ParentRunID e) \<and> canonicalRunID (le_ChildRunID e) \<and>
     canonicalSHA256 (le_SHA256 e)"

definition invalidate_child :: "string \<Rightarrow> edges \<Rightarrow> edges" where
  "invalidate_child c es =
     map (\<lambda>e. if le_ChildRunID e = c then e\<lparr>le_Valid := False\<rparr> else e) es"

lemma length_invalidate_child [simp]: "length (invalidate_child c es) = length es"
  by (simp add: invalidate_child_def)

text \<open>
  The loop over the sorted edges: those already seen, the map, those to come. A second parent of a
  run invalidates every edge of that run, before and after, and the map keeps the first parent.
\<close>

function check_edges :: "nat \<Rightarrow> parents \<Rightarrow> edges \<Rightarrow> edges \<Rightarrow> clean_error + edges" where
  "check_edges n par seen [] = Inr seen"
| "check_edges n par seen (e # es) =
     (if \<not> edge_identity_ok e then Inl CleanEdgeIdentity
      else if \<not> canonicalEdgePath (le_EdgePath e) then Inl CleanEdgePath
      else if \<not> le_Valid e then check_edges n par (seen @ [e]) es
      else if le_ParentRunID e = le_ChildRunID e then
        check_edges n par (seen @ [e\<lparr>le_Valid := False\<rparr>]) es
      else if par (le_ChildRunID e) \<noteq> None \<and> par (le_ChildRunID e) \<noteq> Some (le_ParentRunID e) then
        check_edges n par (invalidate_child (le_ChildRunID e) (seen @ [e]))
          (invalidate_child (le_ChildRunID e) es)
      else case closes_cycle n par (le_ChildRunID e) (le_ParentRunID e) of
        None \<Rightarrow> Inl CleanFuel
      | Some True \<Rightarrow> check_edges n par (seen @ [e\<lparr>le_Valid := False\<rparr>]) es
      | Some False \<Rightarrow> check_edges n (par(le_ChildRunID e \<mapsto> le_ParentRunID e)) (seen @ [e]) es)"
  by pat_completeness auto
termination by (relation "measure (\<lambda>(n, par, seen, es). length es)") auto

definition checked_edges :: "edges \<Rightarrow> clean_error + edges" where
  "checked_edges es = check_edges (length es + 2) Map.empty [] (sortEdges es)"

subsection \<open>The bound is enough\<close>

definition up :: "parents \<Rightarrow> (string \<times> string) set" where
  "up par = {(c, p). par c = Some p}"

definition parents_ok :: "parents \<Rightarrow> bool" where
  "parents_ok par \<longleftrightarrow>
     finite (dom par) \<and> acyclic (up par) \<and> '''' \<notin> dom par \<and> '''' \<notin> ran par"

lemma up_insert: "par c = None \<or> par c = Some p \<Longrightarrow> up (par(c \<mapsto> p)) = insert (c, p) (up par)"
  by (auto simp: up_def split: if_splits)

lemma ancestors_step:
  assumes "par a = Some p"
  shows "{b. (a, b) \<in> (up par)\<^sup>*} = insert a {b. (p, b) \<in> (up par)\<^sup>*}"
proof -
  have step: "(a, p) \<in> up par" using assms by (simp add: up_def)
  have "b = a \<or> (p, b) \<in> (up par)\<^sup>*" if "(a, b) \<in> (up par)\<^sup>*" for b
    using that assms by (cases rule: converse_rtranclE) (auto simp: up_def)
  with step show ?thesis by (auto intro: converse_rtrancl_into_rtrancl)
qed

lemma ancestors_none: "par a = None \<Longrightarrow> {b. (a, b) \<in> (up par)\<^sup>*} = {a}"
  by (auto simp: up_def elim: converse_rtranclE)

lemma ancestors_finite:
  assumes "finite (dom par)"
  shows "finite {b. (a, b) \<in> (up par)\<^sup>*} \<and> card {b. (a, b) \<in> (up par)\<^sup>*} \<le> card (dom par) + 1"
proof -
  have ran: "ran par = (\<lambda>c. the (par c)) ` dom par" by (force simp: ran_def)
  have "{b. (a, b) \<in> (up par)\<^sup>*} \<subseteq> insert a (ran par)"
    by (auto simp: up_def ran_def elim: rtranclE)
  moreover have "finite (insert a (ran par))" using assms ran by simp
  moreover have "card (insert a (ran par)) \<le> card (dom par) + 1"
    using assms ran card_image_le [of "dom par" "\<lambda>c. the (par c)"] by (simp add: card_insert_if)
  ultimately show ?thesis by (meson card_mono finite_subset le_trans)
qed

text \<open>With the bound above the number of ancestors, the walk decides whether \<open>child\<close> is one.\<close>

lemma closes_cycle_decides:
  assumes "parents_ok par" "child \<noteq> ''''"
  shows "card {b. (a, b) \<in> (up par)\<^sup>*} < n \<Longrightarrow>
    closes_cycle n par child a = Some ((a, child) \<in> (up par)\<^sup>*)"
proof (induction n arbitrary: a)
  case (Suc n)
  have fin: "finite {b. (x, b) \<in> (up par)\<^sup>*}" for x
    using assms ancestors_finite by (simp add: parents_ok_def)
  show ?case
  proof (cases "par a")
    case None
    with Suc.prems have "0 < n" by (simp add: ancestors_none)
    then have stop: "closes_cycle n par child '''' = Some False" by (cases n) simp_all
    have "(a, child) \<in> (up par)\<^sup>* \<longleftrightarrow> child = a" using ancestors_none [of par a] None by auto
    with None stop assms(2) show ?thesis by (auto simp: parent_or_empty_def)
  next
    case (Some p)
    have "(a, p) \<in> up par" using Some by (simp add: up_def)
    then have "a \<notin> {b. (p, b) \<in> (up par)\<^sup>*}"
      using assms(1) unfolding parents_ok_def acyclic_def by (metis mem_Collect_eq rtrancl_into_trancl2)
    with Suc.prems fin [of p] have "card {b. (p, b) \<in> (up par)\<^sup>*} < n"
      by (simp add: ancestors_step [of par a p, OF Some])
    from Suc.IH [OF this] have "closes_cycle n par child p = Some ((p, child) \<in> (up par)\<^sup>*)" .
    moreover have "a \<noteq> ''''" using assms(1) Some by (auto simp: parents_ok_def)
    moreover have "(a, child) \<in> (up par)\<^sup>* \<longleftrightarrow> child = a \<or> (p, child) \<in> (up par)\<^sup>*"
      using ancestors_step [of par a p, OF Some] by blast
    ultimately show ?thesis using Some by (auto simp: parent_or_empty_def)
  qed
qed simp

section \<open>What the loop establishes\<close>

text \<open>The edges that are valid, as a relation from child to parent.\<close>

definition lineage :: "edges \<Rightarrow> (string \<times> string) set" where
  "lineage es = {(le_ChildRunID e, le_ParentRunID e) | e. e \<in> set es \<and> le_Valid e}"

lemma lineage_simps [simp]:
  "lineage [] = {}"
  "lineage (e # es) = (if le_Valid e then {(le_ChildRunID e, le_ParentRunID e)} else {}) \<union> lineage es"
  "lineage (es @ fs) = lineage es \<union> lineage fs"
  by (auto simp: lineage_def)

lemma lineage_cong: "set es = set fs \<Longrightarrow> lineage es = lineage fs"
  by (simp add: lineage_def)

lemma lineage_invalidate: "lineage (invalidate_child c es) \<subseteq> lineage es"
  by (auto simp: lineage_def invalidate_child_def)

text \<open>A forest: no run has two parents and no run is its own ancestor.\<close>

definition forest :: "(string \<times> string) set \<Rightarrow> bool" where
  "forest r \<longleftrightarrow> single_valued r \<and> acyclic r"

lemma forest_subset: "forest r \<Longrightarrow> s \<subseteq> r \<Longrightarrow> forest s"
  by (auto simp: forest_def intro: acyclic_subset single_valued_subset)

lemma forest_up: "parents_ok par \<Longrightarrow> forest (up par)"
  by (simp add: forest_def parents_ok_def up_def single_valued_def)

text \<open>An edge only loses its validity: identity, order and number of the edges are kept.\<close>

definition weakens :: "edges \<Rightarrow> edges \<Rightarrow> bool" where
  "weakens es fs \<longleftrightarrow> list_all2 (\<lambda>e f. edge_ref e = edge_ref f \<and> (le_Valid e \<longrightarrow> le_Valid f)) es fs"

lemma weakens_refl [simp]: "weakens es es"
  by (simp add: weakens_def list_all2_refl)

lemma weakens_trans: "weakens es fs \<Longrightarrow> weakens fs gs \<Longrightarrow> weakens es gs"
  unfolding weakens_def by (erule (1) list_all2_trans [rotated]) auto

lemma weakens_append: "weakens es es' \<Longrightarrow> weakens fs fs' \<Longrightarrow> weakens (es @ fs) (es' @ fs')"
  unfolding weakens_def by (rule list_all2_appendI)

lemma weakens_drop: "weakens [e\<lparr>le_Valid := False\<rparr>] [e]"
  by (simp add: weakens_def)

lemma weakens_invalidate: "weakens (invalidate_child c es) es"
  by (induction es) (auto simp: weakens_def invalidate_child_def)

lemma weakens_lineage: "weakens es fs \<Longrightarrow> lineage es \<subseteq> lineage fs"
  unfolding weakens_def
proof (induction rule: list_all2_induct)
  case (Cons e es f fs)
  have "le_ChildRunID e = le_ChildRunID f \<and> le_ParentRunID e = le_ParentRunID f"
    using Cons.hyps(1) by (metis edge_ref_simps(1,2))
  with Cons show ?case by auto
qed simp

lemma weakens_refs: "weakens es fs \<Longrightarrow> map edge_ref es = map edge_ref fs"
  unfolding weakens_def by (induction rule: list_all2_induct) auto

definition loop_inv :: "nat \<Rightarrow> parents \<Rightarrow> edges \<Rightarrow> edges \<Rightarrow> bool" where
  "loop_inv n par seen es \<longleftrightarrow>
     parents_ok par \<and> card (dom par) \<le> length seen \<and> length seen + length es + 2 \<le> n \<and>
     lineage seen \<subseteq> up par"

lemma loop_inv_cycle:
  assumes "loop_inv n par seen (e # es)" "edge_identity_ok e"
  shows "closes_cycle n par (le_ChildRunID e) (le_ParentRunID e) =
    Some ((le_ParentRunID e, le_ChildRunID e) \<in> (up par)\<^sup>*)"
proof (rule closes_cycle_decides)
  show "parents_ok par" using assms(1) by (simp add: loop_inv_def)
  then have "card {b. (le_ParentRunID e, b) \<in> (up par)\<^sup>*} \<le> card (dom par) + 1"
    using ancestors_finite by (simp add: parents_ok_def)
  then show "card {b. (le_ParentRunID e, b) \<in> (up par)\<^sup>*} < n"
    using assms(1) by (simp add: loop_inv_def)
  show "le_ChildRunID e \<noteq> ''''"
    using assms(2) canonicalRunID_not_Nil by (auto simp: edge_identity_ok_def)
qed

lemma loop_inv_insert:
  assumes inv: "loop_inv n par seen (e # es)" and ids: "edge_identity_ok e"
    and free: "par (le_ChildRunID e) = None \<or> par (le_ChildRunID e) = Some (le_ParentRunID e)"
    and no_cycle: "(le_ParentRunID e, le_ChildRunID e) \<notin> (up par)\<^sup>*"
  shows "loop_inv n (par(le_ChildRunID e \<mapsto> le_ParentRunID e)) (seen @ [e]) es"
proof -
  have "le_ChildRunID e \<noteq> ''''" "le_ParentRunID e \<noteq> ''''"
    using ids canonicalRunID_not_Nil by (auto simp: edge_identity_ok_def)
  moreover have "'''' \<notin> ran (par(le_ChildRunID e \<mapsto> le_ParentRunID e))"
    using inv calculation by (auto simp: loop_inv_def parents_ok_def ran_def)
  moreover have "finite (dom par)" using inv by (simp add: loop_inv_def parents_ok_def)
  moreover have "card (insert (le_ChildRunID e) (dom par)) \<le> Suc (card (dom par))"
    using calculation(4) by (simp add: card_insert_if)
  moreover have "up (par(le_ChildRunID e \<mapsto> le_ParentRunID e)) =
      insert (le_ChildRunID e, le_ParentRunID e) (up par)"
    using free by (rule up_insert)
  ultimately show ?thesis
    using inv no_cycle by (auto simp: loop_inv_def parents_ok_def)
qed

lemma loop_inv_keep:
  "loop_inv n par seen (e # es) \<Longrightarrow> lineage [f] \<subseteq> up par \<Longrightarrow> loop_inv n par (seen @ [f]) es"
  by (auto simp: loop_inv_def)

lemma loop_inv_invalidate:
  assumes "loop_inv n par seen (e # es)"
  shows "loop_inv n par (invalidate_child (le_ChildRunID e) (seen @ [e]))
    (invalidate_child (le_ChildRunID e) es)"
proof -
  have "lineage (invalidate_child (le_ChildRunID e) [e]) = {}" by (simp add: invalidate_child_def)
  then show ?thesis
    using assms lineage_invalidate [of "le_ChildRunID e" seen]
    by (auto simp: loop_inv_def invalidate_child_def)
qed

text \<open>
  From a good state the loop does not run out of its bound; what it returns is the input with some
  edges made invalid, the valid ones lie below an acyclic parent map, and every edge has passed the
  identity and path checks.
\<close>

lemma check_edges_result:
  "loop_inv n par seen es \<Longrightarrow>
   (case check_edges n par seen es of
      Inl err \<Rightarrow> (err = CleanEdgeIdentity \<or> err = CleanEdgePath) \<and>
        \<not> (\<forall>e \<in> set es. edge_identity_ok e \<and> canonicalEdgePath (le_EdgePath e))
    | Inr fs \<Rightarrow> weakens fs (seen @ es) \<and> (\<exists>par'. parents_ok par' \<and> lineage fs \<subseteq> up par') \<and>
        (\<forall>e \<in> set es. edge_identity_ok e \<and> canonicalEdgePath (le_EdgePath e)))"
proof (induction n par seen es rule: check_edges.induct)
  case (1 n par seen)
  then show ?case by (auto simp: loop_inv_def)
next
  case (2 n par seen e es)
  have drop: "lineage [e\<lparr>le_Valid := False\<rparr>] \<subseteq> up par" by simp
  have tail: "weakens (invalidate_child c (seen @ [e]) @ invalidate_child c es) (seen @ e # es)" for c
    using weakens_append [OF weakens_invalidate [of c "seen @ [e]"] weakens_invalidate [of c es]] by simp
  have off: "weakens ((seen @ [e\<lparr>le_Valid := False\<rparr>]) @ es) (seen @ e # es)"
    using weakens_append [OF weakens_append [OF weakens_refl [of seen] weakens_drop [of e]] weakens_refl [of es]]
    by simp
  have ids: "(\<forall>f \<in> set (invalidate_child c es). edge_identity_ok f \<and> canonicalEdgePath (le_EdgePath f)) \<longleftrightarrow>
      (\<forall>f \<in> set es. edge_identity_ok f \<and> canonicalEdgePath (le_EdgePath f))" for c
    unfolding invalidate_child_def set_map ball_simps
    by (rule ball_cong) (auto simp: edge_identity_ok_def)
  consider "\<not> edge_identity_ok e \<or> \<not> canonicalEdgePath (le_EdgePath e)"
    | (skip) "edge_identity_ok e" "canonicalEdgePath (le_EdgePath e)" "\<not> le_Valid e"
    | (self) "edge_identity_ok e" "canonicalEdgePath (le_EdgePath e)" "le_Valid e"
        "le_ParentRunID e = le_ChildRunID e"
    | (conflict) "edge_identity_ok e" "canonicalEdgePath (le_EdgePath e)" "le_Valid e"
        "le_ParentRunID e \<noteq> le_ChildRunID e"
        "par (le_ChildRunID e) \<noteq> None \<and> par (le_ChildRunID e) \<noteq> Some (le_ParentRunID e)"
    | (fresh) "edge_identity_ok e" "canonicalEdgePath (le_EdgePath e)" "le_Valid e"
        "le_ParentRunID e \<noteq> le_ChildRunID e"
        "par (le_ChildRunID e) = None \<or> par (le_ChildRunID e) = Some (le_ParentRunID e)"
    by satx
  then show ?case
  proof cases
    case 1
    then show ?thesis by auto
  next
    case skip
    have "loop_inv n par (seen @ [e]) es" using "2.prems" skip by (intro loop_inv_keep) auto
    from "2.IH"(1) [OF _ _ _ this] skip show ?thesis by (auto split: sum.splits)
  next
    case self
    from "2.IH"(2) [OF _ _ _ _ loop_inv_keep [OF "2.prems" drop]] self show ?thesis
      using off by (auto split: sum.splits dest: weakens_trans)
  next
    case conflict
    from "2.IH"(3) [OF _ _ _ _ _ loop_inv_invalidate [OF "2.prems"]] conflict show ?thesis
      using tail [of "le_ChildRunID e"] ids [of "le_ChildRunID e"]
      by (auto split: sum.splits dest: weakens_trans)
  next
    case fresh
    note walk = loop_inv_cycle [OF "2.prems" fresh(1)]
    show ?thesis
    proof (cases "(le_ParentRunID e, le_ChildRunID e) \<in> (up par)\<^sup>*")
      case True
      with loop_inv_keep [OF "2.prems" drop] walk "2.IH"(4) [of True] fresh off show ?thesis
        by (auto split: sum.splits dest: weakens_trans)
    next
      case False
      from loop_inv_insert [OF "2.prems" fresh(1,5) False]
        walk False "2.IH"(5) [of False] fresh show ?thesis
        by (auto simp: fun_upd_def split: sum.splits)
    qed
  qed
qed

text \<open>Edges that already form a forest are all kept: the loop invalidates nothing without a reason.\<close>

lemma check_edges_forest:
  assumes "forest r"
  shows "loop_inv n par seen es \<Longrightarrow> up par \<subseteq> r \<Longrightarrow> lineage es \<subseteq> r \<Longrightarrow>
    \<forall>e \<in> set es. edge_identity_ok e \<and> canonicalEdgePath (le_EdgePath e) \<Longrightarrow>
    check_edges n par seen es = Inr (seen @ es)"
proof (induction es arbitrary: par seen)
  case (Cons e es)
  have ids: "edge_identity_ok e" "canonicalEdgePath (le_EdgePath e)" using Cons.prems by auto
  show ?case
  proof (cases "le_Valid e")
    case False
    with Cons.prems have "loop_inv n par (seen @ [e]) es" by (intro loop_inv_keep) auto
    from Cons.IH [OF this] Cons.prems False ids show ?thesis by simp
  next
    case True
    then have edge: "(le_ChildRunID e, le_ParentRunID e) \<in> r" using Cons.prems(3) by auto
    have self: "le_ParentRunID e \<noteq> le_ChildRunID e"
      using edge assms by (metis acyclic_def forest_def r_into_trancl)
    have free: "par (le_ChildRunID e) = None \<or> par (le_ChildRunID e) = Some (le_ParentRunID e)"
      using edge assms Cons.prems(2) by (cases "par (le_ChildRunID e)")
        (auto simp: forest_def up_def single_valued_def)
    have "(up par)\<^sup>* \<subseteq> r\<^sup>*" using Cons.prems(2) by (rule rtrancl_mono)
    then have open_end: "(le_ParentRunID e, le_ChildRunID e) \<notin> (up par)\<^sup>*"
      using edge assms by (auto simp: forest_def acyclic_def dest: rtrancl_into_trancl2)
    let ?par = "par(le_ChildRunID e \<mapsto> le_ParentRunID e)"
    have "up ?par \<subseteq> r" using up_insert [of par, OF free] edge Cons.prems(2) by simp
    with Cons.IH [OF loop_inv_insert [OF Cons.prems(1) ids(1) free open_end]] Cons.prems
    have "check_edges n ?par (seen @ [e]) es = Inr (seen @ e # es)"
      by (simp add: fun_upd_def)
    with loop_inv_cycle [OF Cons.prems(1) ids(1)] open_end free ids self True show ?thesis
      by auto
  qed
qed simp

lemma checked_edges_start: "loop_inv (length es + 2) Map.empty [] (sortEdges es)"
  by (simp add: loop_inv_def parents_ok_def up_def sortEdges_def acyclic_def)

lemma checked_edges_Inr:
  assumes "checked_edges es = Inr fs"
  shows "weakens fs (sortEdges es) \<and> forest (lineage fs) \<and>
    (\<forall>e \<in> set es. edge_identity_ok e \<and> canonicalEdgePath (le_EdgePath e))"
  using check_edges_result [OF checked_edges_start [of es]] assms
  by (auto simp: checked_edges_def intro: forest_subset forest_up)

lemma checked_edges_Inl:
  "checked_edges es = Inl err \<Longrightarrow> (err = CleanEdgeIdentity \<or> err = CleanEdgePath) \<and>
     \<not> (\<forall>e \<in> set es. edge_identity_ok e \<and> canonicalEdgePath (le_EdgePath e))"
  using check_edges_result [OF checked_edges_start [of es]] by (simp add: checked_edges_def)

lemma checked_edges_forest:
  assumes "forest (lineage es)"
    and "\<forall>e \<in> set es. edge_identity_ok e \<and> canonicalEdgePath (le_EdgePath e)"
  shows "checked_edges es = Inr (sortEdges es)"
proof -
  have "lineage (sortEdges es) = lineage es" by (rule lineage_cong) simp
  moreover have "up Map.empty = {}" by (simp add: up_def)
  ultimately show ?thesis
    using check_edges_forest [OF assms(1) checked_edges_start] assms(2)
    by (simp add: checked_edges_def)
qed

section \<open>Breadth-first search\<close>

definition linked :: "string list \<Rightarrow> edges \<Rightarrow> edges" where
  "linked known es =
     filter (\<lambda>e. le_ParentRunID e \<in> set known \<and> le_ChildRunID e \<in> set known) es"

definition undirected :: "edges \<Rightarrow> string \<Rightarrow> edges" where
  "undirected es x =
     concat (map (\<lambda>e. (if le_ParentRunID e = x then [e] else []) @
                      (if le_ChildRunID e = x then [e] else [])) es)"

definition children :: "edges \<Rightarrow> string \<Rightarrow> edges" where
  "children es x = filter (\<lambda>e. le_ChildRunID e = x \<and> le_Valid e) es"

definition other_end :: "string \<Rightarrow> LineageEdgeObservation \<Rightarrow> string" where
  "other_end x e = (if le_ParentRunID e = x then le_ChildRunID e else le_ParentRunID e)"

text \<open>The common step of both searches: nodes whose key is new are marked and queued.\<close>

fun visit_all :: "('n \<Rightarrow> string) \<Rightarrow> 'n list \<Rightarrow> string list \<Rightarrow> 'n list \<Rightarrow> string list \<times> 'n list" where
  "visit_all key [] visited queue = (visited, queue)"
| "visit_all key (n # ns) visited queue =
     (if key n \<in> set visited then visit_all key ns visited queue
      else visit_all key ns (key n # visited) (queue @ [n]))"

lemma visit_all_new:
  "visit_all key ns visited queue = (visited', queue') \<Longrightarrow>
   \<exists>new. queue' = queue @ new \<and> set new \<subseteq> set ns \<and>
     visited' = rev (map key new) @ visited \<and> set visited' = set visited \<union> key ` set ns \<and>
     (distinct visited \<longrightarrow> distinct visited')"
proof (induction key ns visited queue rule: visit_all.induct)
  case (2 key n ns visited queue)
  show ?case
  proof (cases "key n \<in> set visited")
    case True
    with 2 show ?thesis by auto
  next
    case False
    with 2 obtain new where "queue' = (queue @ [n]) @ new" "set new \<subseteq> set ns"
      "visited' = rev (map key new) @ key n # visited"
      "set visited' = set (key n # visited) \<union> key ` set ns"
      "distinct (key n # visited) \<longrightarrow> distinct visited'"
      by auto
    with False show ?thesis by (intro exI [of _ "n # new"]) auto
  qed
qed simp

definition ends :: "edges \<Rightarrow> string set" where
  "ends es = le_ParentRunID ` set es \<union> le_ChildRunID ` set es"

lemma finite_ends [simp]: "finite (ends es)"
  by (simp add: ends_def)

text \<open>A step marks as many nodes as it queues, so that the search ends.\<close>

definition search_size :: "edges \<Rightarrow> string list \<Rightarrow> 'n list \<Rightarrow> nat" where
  "search_size es visited queue = card (ends es - set visited) + length queue"

lemma visit_all_size:
  assumes "visit_all key ns visited queue = (visited', queue')" "key ` set ns \<subseteq> ends es"
  shows "search_size es visited' queue' \<le> search_size es visited queue"
  using assms
proof (induction key ns visited queue rule: visit_all.induct)
  case (2 key n ns visited queue)
  have "card (ends es - set (key n # visited)) < card (ends es - set visited)" if "key n \<notin> set visited"
    using that 2(4) by (intro psubset_card_mono) auto
  with 2 show ?case by (fastforce simp: search_size_def split: if_splits)
qed simp

function component_loop ::
  "edges \<Rightarrow> string list \<Rightarrow> LineageEdgeRef list \<Rightarrow> string list \<Rightarrow> string list \<times> LineageEdgeRef list" where
  "component_loop es visited refs [] = (visited, refs)"
| "component_loop es visited refs (x # queue) =
     (let incident = undirected es x;
          moved = visit_all (\<lambda>k. k) (map (other_end x) incident) visited queue
      in component_loop es (fst moved) (fold (\<lambda>e rs. put_ref rs (edge_ref e)) incident refs) (snd moved))"
  by pat_completeness auto

lemma undirected_ends: "other_end x ` set (undirected es x) \<subseteq> ends es"
  by (auto simp: undirected_def other_end_def ends_def)

termination component_loop
proof (relation "measure (\<lambda>(es, visited, refs, queue). search_size es visited queue)")
  fix es :: edges and visited :: "string list" and refs :: "LineageEdgeRef list"
    and x :: string and queue :: "string list" and incident moved
  assume "incident = undirected es x"
    and "moved = visit_all (\<lambda>k. k) (map (other_end x) incident) visited queue"
  then show "((es, fst moved, fold (\<lambda>e rs. put_ref rs (edge_ref e)) incident refs, snd moved),
      es, visited, refs, x # queue) \<in> measure (\<lambda>(es, visited, refs, queue). search_size es visited queue)"
    using visit_all_size [of "\<lambda>k. k" "map (other_end x) incident" visited queue "fst moved" "snd moved" es]
      undirected_ends [of x es]
    by (simp add: search_size_def)
qed simp

definition sortedKeys :: "string list \<Rightarrow> string list" where
  "sortedKeys keys = sort_slice (<) keys"

definition component :: "string \<Rightarrow> edges \<Rightarrow> string list \<times> LineageEdgeRef list" where
  "component start es =
     (let r = component_loop es [start] [] [start] in (sortedKeys (fst r), sortRefs (snd r)))"

text \<open>The queue of the ancestor search holds runs with the path that led to them.\<close>

definition ancestor_steps ::
  "edges \<Rightarrow> string \<times> LineageEdgeRef list \<Rightarrow> (string \<times> LineageEdgeRef list) list" where
  "ancestor_steps es node =
     map (\<lambda>e. (le_ParentRunID e, snd node @ [edge_ref e])) (sortEdges (children es (fst node)))"

definition ancestor_entries ::
  "string \<Rightarrow> (string \<times> LineageEdgeRef list) list \<Rightarrow> AncestorProtection list" where
  "ancestor_entries descendant steps =
     map (\<lambda>(parent, path). \<lparr>ap_AncestorRunID = parent, ap_RetainedDescendantRunID = descendant,
            ap_LineageEdgeRefs = path\<rparr>)
       (filter (\<lambda>(parent, path). parent \<noteq> descendant) steps)"

function ancestor_loop ::
  "edges \<Rightarrow> string \<Rightarrow> string list \<Rightarrow> AncestorProtection list \<Rightarrow>
   (string \<times> LineageEdgeRef list) list \<Rightarrow> AncestorProtection list" where
  "ancestor_loop es descendant visited found [] = found"
| "ancestor_loop es descendant visited found (node # queue) =
     (let steps = ancestor_steps es node;
          moved = visit_all fst steps visited queue
      in ancestor_loop es descendant (fst moved) (found @ ancestor_entries descendant steps) (snd moved))"
  by pat_completeness auto

lemma ancestor_steps_ends: "fst ` set (ancestor_steps es node) \<subseteq> ends es"
  by (auto simp: ancestor_steps_def children_def ends_def)

termination ancestor_loop
proof (relation "measure (\<lambda>(es, descendant, visited, found, queue). search_size es visited queue)")
  fix es :: edges and descendant :: string and visited :: "string list"
    and found :: "AncestorProtection list" and node :: "string \<times> LineageEdgeRef list"
    and queue :: "(string \<times> LineageEdgeRef list) list" and steps moved
  assume "steps = ancestor_steps es node" and "moved = visit_all fst steps visited queue"
  then show "((es, descendant, fst moved, found @ ancestor_entries descendant steps, snd moved),
      es, descendant, visited, found, node # queue)
      \<in> measure (\<lambda>(es, descendant, visited, found, queue). search_size es visited queue)"
    using visit_all_size [of fst steps visited queue "fst moved" "snd moved" es] ancestor_steps_ends [of es node]
    by (simp add: search_size_def)
qed simp

definition ancestors_of :: "edges \<Rightarrow> string \<Rightarrow> AncestorProtection list" where
  "ancestors_of es descendant = ancestor_loop es descendant [descendant] [] [(descendant, [])]"

section \<open>The searches are complete and sound\<close>

lemma closed_rtrancl: "r `` A \<subseteq> A \<Longrightarrow> a \<in> A \<Longrightarrow> (a, b) \<in> r\<^sup>* \<Longrightarrow> b \<in> A"
  by (erule rtrancl_induct) auto

subsection \<open>Components\<close>

definition touching :: "edges \<Rightarrow> (string \<times> string) set" where
  "touching es = {(a, b). \<exists>e \<in> set es.
     a = le_ParentRunID e \<and> b = le_ChildRunID e \<or> a = le_ChildRunID e \<and> b = le_ParentRunID e}"

lemma undirected_touching: "other_end x ` set (undirected es x) = touching es `` {x}"
proof -
  have "set (undirected es x) = {e \<in> set es. le_ParentRunID e = x \<or> le_ChildRunID e = x}"
    by (auto simp: undirected_def)
  then show ?thesis by (fastforce simp: touching_def other_end_def image_iff)
qed

lemma component_loop_closed:
  "set queue \<subseteq> set visited \<Longrightarrow> touching es `` (set visited - set queue) \<subseteq> set visited \<Longrightarrow>
   fst (component_loop es visited refs queue) = seen \<Longrightarrow>
   set visited \<subseteq> set seen \<and> touching es `` set seen \<subseteq> set seen \<and>
   set seen \<subseteq> (touching es)\<^sup>* `` set visited \<and> (distinct visited \<longrightarrow> distinct seen)"
proof (induction es visited refs queue arbitrary: seen rule: component_loop.induct)
  case (1 es visited refs)
  then show ?case by auto
next
  case (2 es visited refs x queue)
  let ?incident = "undirected es x"
  obtain visited' queue' where moved:
    "visit_all (\<lambda>k. k) (map (other_end x) ?incident) visited queue = (visited', queue')" by fastforce
  from visit_all_new [OF moved] obtain new where new:
    "queue' = queue @ new" "set new \<subseteq> touching es `` {x}" "visited' = rev new @ visited"
    "set visited' = set visited \<union> touching es `` {x}" "distinct visited \<longrightarrow> distinct visited'"
    by (auto simp: undirected_touching)
  have closed: "touching es `` (set visited' - set queue') \<subseteq> set visited'"
    using "2.prems"(2) new by (auto simp: Image_iff)
  have "set queue' \<subseteq> set visited'" using "2.prems"(1) new by auto
  with "2.IH" [OF refl refl] closed moved "2.prems"(3)
  have ih: "set visited' \<subseteq> set seen" "touching es `` set seen \<subseteq> set seen"
    "set seen \<subseteq> (touching es)\<^sup>* `` set visited'" "distinct visited' \<longrightarrow> distinct seen"
    by (simp_all add: Let_def)
  have "x \<in> set visited" using "2.prems"(1) by simp
  then have "set visited' \<subseteq> (touching es)\<^sup>* `` set visited"
    using new(4) by (auto simp: Image_iff)
  then have "(touching es)\<^sup>* `` set visited' \<subseteq> (touching es)\<^sup>* `` set visited"
    by (auto simp: Image_iff subset_iff) (meson rtrancl_trans)
  with ih new show ?case by auto
qed

lemma component_connected:
  "set (fst (component start es)) = (touching es)\<^sup>* `` {start} \<and> distinct (fst (component start es))"
proof -
  obtain seen where seen: "fst (component_loop es [start] [] [start]) = seen" by blast
  from component_loop_closed [OF _ _ seen] have c:
    "start \<in> set seen" "touching es `` set seen \<subseteq> set seen" "set seen \<subseteq> (touching es)\<^sup>* `` {start}"
    "distinct seen" by auto
  then have "(touching es)\<^sup>* `` {start} \<subseteq> set seen" by (auto dest: closed_rtrancl)
  with c seen show ?thesis by (auto simp: component_def Let_def sortedKeys_def)
qed

subsection \<open>Ancestors\<close>

text \<open>A path of valid edges, from a run up to another.\<close>

fun lineage_path :: "edges \<Rightarrow> string \<Rightarrow> LineageEdgeRef list \<Rightarrow> string \<Rightarrow> bool" where
  "lineage_path es a [] b \<longleftrightarrow> a = b"
| "lineage_path es a (r # rs) b \<longleftrightarrow>
     (\<exists>e \<in> set es. le_Valid e \<and> edge_ref e = r \<and> le_ChildRunID r = a) \<and>
     lineage_path es (le_ParentRunID r) rs b"

lemma lineage_path_append:
  "lineage_path es a (rs @ ss) b \<longleftrightarrow> (\<exists>m. lineage_path es a rs m \<and> lineage_path es m ss b)"
  by (induction rs arbitrary: a) auto

lemma lineage_path_reaches: "lineage_path es a rs b \<Longrightarrow> (a, b) \<in> (lineage es)\<^sup>*"
proof (induction rs arbitrary: a)
  case (Cons r rs)
  then obtain e where "e \<in> set es" "le_Valid e" "edge_ref e = r" "le_ChildRunID r = a" by auto
  then have "(a, le_ParentRunID r) \<in> lineage es" by (auto simp: lineage_def)
  with Cons show ?case by (meson converse_rtrancl_into_rtrancl lineage_path.simps(2))
qed simp

lemma ancestor_steps_path:
  assumes "(p, ps) \<in> set (ancestor_steps es (v, path))" "lineage_path es d path v"
  shows "lineage_path es d ps p"
proof -
  from assms(1) obtain e where "e \<in> set es" "le_Valid e" "le_ChildRunID e = v"
    "p = le_ParentRunID e" "ps = path @ [edge_ref e]"
    by (auto simp: ancestor_steps_def children_def)
  with assms(2) show ?thesis by (auto simp: lineage_path_append)
qed

lemma ancestor_steps_lineage: "fst ` set (ancestor_steps es node) = lineage es `` {fst node}"
  by (force simp: ancestor_steps_def children_def lineage_def image_iff)

definition entry_ok :: "edges \<Rightarrow> string \<Rightarrow> AncestorProtection \<Rightarrow> bool" where
  "entry_ok es d a \<longleftrightarrow> ap_RetainedDescendantRunID a = d \<and> ap_AncestorRunID a \<noteq> d \<and>
     ap_LineageEdgeRefs a \<noteq> [] \<and> lineage_path es d (ap_LineageEdgeRefs a) (ap_AncestorRunID a)"

lemma ancestor_entries_ok:
  assumes "lineage_path es d (snd node) (fst node)"
  shows "\<forall>a \<in> set (ancestor_entries d (ancestor_steps es node)). entry_ok es d a"
proof -
  have "ps \<noteq> [] \<and> lineage_path es d ps p" if "(p, ps) \<in> set (ancestor_steps es node)" for p ps
    using that ancestor_steps_path [of p ps es "fst node" "snd node"] assms
    by (auto simp: ancestor_steps_def)
  then show ?thesis by (auto simp: ancestor_entries_def entry_ok_def)
qed

lemma ancestor_entries_set:
  "ap_AncestorRunID ` set (ancestor_entries d steps) = fst ` set steps - {d}"
  by (force simp: ancestor_entries_def image_iff)

lemma ancestor_loop_sound:
  "\<forall>node \<in> set queue. lineage_path es d (snd node) (fst node) \<Longrightarrow> \<forall>a \<in> set found. entry_ok es d a \<Longrightarrow>
   \<forall>a \<in> set (ancestor_loop es d visited found queue). entry_ok es d a"
proof (induction es d visited found queue rule: ancestor_loop.induct)
  case (2 es d visited found node queue)
  let ?steps = "ancestor_steps es node"
  obtain visited' queue' where moved: "visit_all fst ?steps visited queue = (visited', queue')"
    by fastforce
  have node: "lineage_path es d (snd node) (fst node)" using "2.prems"(1) by simp
  have "lineage_path es d ps p" if "(p, ps) \<in> set ?steps" for p ps
    using that ancestor_steps_path [of p ps es "fst node" "snd node"] node by simp
  with visit_all_new [OF moved] "2.prems"(1)
  have "\<forall>n \<in> set queue'. lineage_path es d (snd n) (fst n)" by fastforce
  with "2.IH" [OF refl refl] moved ancestor_entries_ok [OF node] "2.prems"(2) show ?case
    by (simp add: Let_def ball_Un)
qed simp

text \<open>What the search has recorded for a set of runs: each of their parents, but for the start.\<close>

definition recorded :: "edges \<Rightarrow> string \<Rightarrow> AncestorProtection list \<Rightarrow> string set \<Rightarrow> bool" where
  "recorded es d found vs \<longleftrightarrow> lineage es `` vs - {d} \<subseteq> ap_AncestorRunID ` set found"

lemma recorded_mono:
  "recorded es d found vs \<Longrightarrow> ws \<subseteq> vs \<Longrightarrow> set found \<subseteq> set found' \<Longrightarrow> recorded es d found' ws"
  unfolding recorded_def by blast

lemma ancestor_loop_complete:
  "fst ` set queue \<subseteq> set visited \<Longrightarrow>
   lineage es `` (set visited - fst ` set queue) \<subseteq> set visited \<Longrightarrow>
   recorded es d found (set visited - fst ` set queue) \<Longrightarrow>
   \<exists>vs. set visited \<subseteq> vs \<and> lineage es `` vs \<subseteq> vs \<and>
     recorded es d (ancestor_loop es d visited found queue) vs"
proof (induction es d visited found queue rule: ancestor_loop.induct)
  case (1 es d visited found)
  then show ?case by auto
next
  case (2 es d visited found node queue)
  let ?steps = "ancestor_steps es node"
  obtain visited' queue' where moved: "visit_all fst ?steps visited queue = (visited', queue')"
    by fastforce
  from visit_all_new [OF moved] obtain new where new:
    "queue' = queue @ new" "set visited' = set visited \<union> lineage es `` {fst node}"
    "set visited' = set visited \<union> fst ` set new"
    by (auto simp: ancestor_steps_lineage Un_commute)
  have old: "set visited' - fst ` set queue' \<subseteq> insert (fst node) (set visited - fst ` set (node # queue))"
    using new(1,3) by auto
  have "lineage es `` {fst node} - {d} = ap_AncestorRunID ` set (ancestor_entries d ?steps)"
    by (simp add: ancestor_entries_set ancestor_steps_lineage)
  with "2.prems"(3) have "recorded es d (found @ ancestor_entries d ?steps)
      (insert (fst node) (set visited - fst ` set (node # queue)))"
    unfolding recorded_def by (auto simp: image_Un)
  then have rec: "recorded es d (found @ ancestor_entries d ?steps) (set visited' - fst ` set queue')"
    by (rule recorded_mono) (rule old, rule subset_refl)
  have closed: "lineage es `` (set visited' - fst ` set queue') \<subseteq> set visited'"
  proof -
    have "lineage es `` (set visited' - fst ` set queue') \<subseteq>
        lineage es `` insert (fst node) (set visited - fst ` set (node # queue))"
      by (rule Image_mono) (rule subset_refl, rule old)
    also have "\<dots> = lineage es `` {fst node} \<union> lineage es `` (set visited - fst ` set (node # queue))"
      by blast
    also have "\<dots> \<subseteq> set visited'"
      unfolding new(2) using "2.prems"(2) by (intro Un_least) (rule Un_upper2, rule le_supI1)
    finally show ?thesis .
  qed
  have "fst ` set queue' \<subseteq> set visited'" using "2.prems"(1) new by auto
  with "2.IH" [OF refl refl] moved closed rec
  have "\<exists>vs. set visited' \<subseteq> vs \<and> lineage es `` vs \<subseteq> vs \<and>
      recorded es d (ancestor_loop es d visited found (node # queue)) vs"
    by (simp add: Let_def)
  with new(3) show ?case by auto
qed

lemma ancestors_of_sound: "a \<in> set (ancestors_of es d) \<Longrightarrow> entry_ok es d a"
  using ancestor_loop_sound [of "[(d, [])]" es d "[]" "[d]"] by (auto simp: ancestors_of_def)

lemma ancestors_of_complete:
  assumes "(d, a) \<in> (lineage es)\<^sup>+" "a \<noteq> d"
  shows "a \<in> ap_AncestorRunID ` set (ancestors_of es d)"
proof -
  have "recorded es d [] ({d} - {d})" by (simp add: recorded_def)
  with ancestor_loop_complete [of "[(d, [])]" "[d]" es d "[]"] obtain vs where vs:
    "d \<in> vs" "lineage es `` vs \<subseteq> vs" "recorded es d (ancestors_of es d) vs"
    by (auto simp: ancestors_of_def)
  from assms(1) obtain v where "(d, v) \<in> (lineage es)\<^sup>*" "(v, a) \<in> lineage es"
    by (auto dest: tranclD2)
  with vs assms(2) show ?thesis by (auto simp: recorded_def dest: closed_rtrancl)
qed

text \<open>The runs recorded are exactly the proper ancestors, when the valid edges are acyclic.\<close>

lemma ancestors_of_exact:
  assumes "acyclic (lineage es)"
  shows "ap_AncestorRunID ` set (ancestors_of es d) = (lineage es)\<^sup>+ `` {d}"
proof -
  have "(d, ap_AncestorRunID a) \<in> (lineage es)\<^sup>+" if "a \<in> set (ancestors_of es d)" for a
    using ancestors_of_sound [OF that] lineage_path_reaches [of es d]
    unfolding entry_ok_def by (metis rtranclD)
  moreover have "a \<noteq> d" if "(d, a) \<in> (lineage es)\<^sup>+" for a
    using that assms by (auto simp: acyclic_def)
  ultimately show ?thesis using ancestors_of_complete by blast
qed

end
