(* ===== verification/Go_Text.thy ===== *)
theory Go_Text
  imports Go_Strings
begin

text \<open>
  More of the Go library on byte strings: \<open>unicode/utf8\<close>, \<open>bytes.IndexByte\<close>, the lines of a text,
  numbers as text and as bytes.
\<close>

section \<open>UTF-8\<close>

definition in_bytes :: "nat \<Rightarrow> nat \<Rightarrow> char \<Rightarrow> bool" where
  "in_bytes lo hi c \<longleftrightarrow> lo \<le> of_char c \<and> of_char c \<le> hi"

definition continues :: "(char \<Rightarrow> bool) list \<Rightarrow> string \<Rightarrow> bool" where
  "continues ps s \<longleftrightarrow> length ps \<le> length s \<and> list_all2 (\<lambda>p c. p c) ps (take (length ps) s)"

text \<open>The number of bytes of the valid encoding that starts a text; \<open>None\<close> if there is none.\<close>

definition rune_width :: "string \<Rightarrow> nat option" where
  "rune_width s =
     (case s of
        [] \<Rightarrow> None
      | a # r \<Rightarrow>
          (let tail = in_bytes 0x80 0xBF
           in if in_bytes 0 0x7F a then Some 1
              else if in_bytes 0xC2 0xDF a then (if continues [tail] r then Some 2 else None)
              else if in_bytes 0xE0 0xE0 a
                then (if continues [in_bytes 0xA0 0xBF, tail] r then Some 3 else None)
              else if in_bytes 0xED 0xED a
                then (if continues [in_bytes 0x80 0x9F, tail] r then Some 3 else None)
              else if in_bytes 0xE1 0xEF a then (if continues [tail, tail] r then Some 3 else None)
              else if in_bytes 0xF0 0xF0 a
                then (if continues [in_bytes 0x90 0xBF, tail, tail] r then Some 4 else None)
              else if in_bytes 0xF1 0xF3 a then (if continues [tail, tail, tail] r then Some 4 else None)
              else if in_bytes 0xF4 0xF4 a
                then (if continues [in_bytes 0x80 0x8F, tail, tail] r then Some 4 else None)
              else None))"

lemma rune_width_bounds: "rune_width s = Some n \<Longrightarrow> 0 < n \<and> n \<le> length s"
  by (auto simp: rune_width_def continues_def Let_def split: list.splits if_splits)

lemma rune_width_Nil [simp]: "rune_width [] = None"
  by (simp add: rune_width_def)

function utf8_valid :: "string \<Rightarrow> bool" where
  "utf8_valid s =
     (if s = [] then True
      else case rune_width s of None \<Rightarrow> False | Some n \<Rightarrow> utf8_valid (drop n s))"
  by pat_completeness auto
termination
  by (relation "measure length") (auto dest: rune_width_bounds)

declare utf8_valid.simps [simp del]

text \<open>\<open>utf8.RuneCountInString\<close>: a byte that starts no valid encoding counts as one.\<close>

function rune_count :: "string \<Rightarrow> nat" where
  "rune_count s =
     (if s = [] then 0
      else Suc (rune_count (drop (case rune_width s of None \<Rightarrow> 1 | Some n \<Rightarrow> n) s)))"
  by pat_completeness auto
termination
  by (relation "measure length") (auto dest: rune_width_bounds split: option.split)

declare rune_count.simps [simp del]

lemma ascii_width: "s \<noteq> [] \<Longrightarrow> ascii s \<Longrightarrow> rune_width s = Some 1"
  by (cases s) (auto simp: rune_width_def in_bytes_def go_defs less_char_def)

lemma utf8_valid_ascii: "ascii s \<Longrightarrow> utf8_valid s"
proof (induction s)
  case (Cons c s)
  then show ?case
    using ascii_width [of "c # s"] by (subst utf8_valid.simps) (simp add: ascii_def)
qed (simp add: utf8_valid.simps)

lemma rune_count_ascii: "ascii s \<Longrightarrow> rune_count s = length s"
proof (induction s)
  case (Cons c s)
  then show ?case
    using ascii_width [of "c # s"] by (subst rune_count.simps) (simp add: ascii_def)
qed (simp add: rune_count.simps)

section \<open>Positions and lines\<close>

fun IndexByte :: "string \<Rightarrow> char \<Rightarrow> nat option" where
  "IndexByte [] b = None"
| "IndexByte (c # s) b = (if c = b then Some 0 else map_option Suc (IndexByte s b))"

lemma IndexByte_bound: "IndexByte s b = Some k \<Longrightarrow> k < length s"
  by (induction s arbitrary: k) (auto split: if_splits)

lemma IndexByte_None: "IndexByte s b = None \<longleftrightarrow> b \<notin> set s"
  by (induction s) auto

text \<open>The lines of a text, each with its line end.\<close>

function lines :: "string \<Rightarrow> string list" where
  "lines s =
     (if s = [] then []
      else case IndexByte s (CHR 0x0A) of
        None \<Rightarrow> [s]
      | Some k \<Rightarrow> take (Suc k) s # lines (drop (Suc k) s))"
  by pat_completeness auto
termination
  by (relation "measure length") (auto dest: IndexByte_bound)

declare lines.simps [simp del]

lemma lines_Nil [simp]: "lines [] = []"
  by (simp add: lines.simps)

lemma lines_not_Nil: "s \<noteq> [] \<Longrightarrow> lines s \<noteq> []"
  by (subst lines.simps) (simp split: option.split)

lemma lines_last: "s \<noteq> [] \<Longrightarrow> IndexByte s (CHR 0x0A) = None \<Longrightarrow> lines s = [s]"
  by (subst lines.simps) simp

lemma lines_step:
  "s \<noteq> [] \<Longrightarrow> IndexByte s (CHR 0x0A) = Some k \<Longrightarrow> lines s = take (Suc k) s # lines (drop (Suc k) s)"
  by (subst lines.simps) simp

lemma concat_lines: "concat (lines s) = s"
proof (induction s rule: lines.induct)
  case (1 s)
  show ?case
  proof (cases "s = []")
    case False
    show ?thesis
    proof (cases "IndexByte s (CHR 0x0A)")
      case None
      with False show ?thesis by (simp add: lines_last)
    next
      case (Some k)
      from 1 [OF False Some] show ?thesis by (simp add: lines_step [OF False Some])
    qed
  qed simp
qed

section \<open>Numbers\<close>

text \<open>\<open>strconv.FormatInt\<close> and \<open>strconv.Itoa\<close>.\<close>

definition FormatInt :: "int64 \<Rightarrow> string" where
  "FormatInt x = (if x < 0 then CHR ''-'' # dec (nat (- x)) else dec (nat x))"


text \<open>\<open>binary.BigEndian.PutUint64\<close> of a signed value converted to unsigned.\<close>

definition be64 :: "int \<Rightarrow> string" where
  "be64 n = map (\<lambda>k. char_of (nat (n div 256 ^ (7 - k) mod 256))) [0 ..< 8]"

lemma length_be64 [simp]: "length (be64 n) = 8"
  by (simp add: be64_def)

lemma be64_inject:
  assumes "0 \<le> m" "m \<le> max_int64" "0 \<le> n" "n \<le> max_int64"
  shows "be64 m = be64 n \<longleftrightarrow> m = n"
proof
  assume eq: "be64 m = be64 n"
  have digit: "m div 256 ^ j mod 256 = n div 256 ^ j mod 256" if "j < 8" for j
  proof -
    from eq have same: "\<forall>k \<in> {0 ..< 8}. char_of (nat (m div 256 ^ (7 - k) mod 256)) =
        (char_of (nat (n div 256 ^ (7 - k) mod 256)) :: char)"
      unfolding be64_def map_eq_conv by simp
    have "nat (x mod 256) < 256" for x :: int by simp
    moreover have "7 - (7 - j) = j" "7 - j \<in> {0 ..< 8}" using that by simp_all
    ultimately have "nat (m div 256 ^ j mod 256) = nat (n div 256 ^ j mod 256)"
      using bspec [OF same, of "7 - j"] by simp
    then show ?thesis by simp
  qed
  have "m div 256 ^ (8 - k) = n div 256 ^ (8 - k)" if "k \<le> 8" for k
    using that
  proof (induction k)
    case 0
    with assms show ?case by (simp add: max_int64_def div_pos_pos_trivial)
  next
    case (Suc k)
    define j where "j = 8 - Suc k"
    have j: "8 - k = Suc j" "j < 8" using Suc.prems by (simp_all add: j_def)
    have split: "x div 256 ^ j = 256 * (x div 256 ^ Suc j) + x div 256 ^ j mod 256" for x :: int
      using zdiv_zmult2_eq [of 256 x "256 ^ j"] mult_div_mod_eq [of 256 "x div 256 ^ j"]
      by (simp add: mult.commute)
    have same: "m div 256 ^ Suc j = n div 256 ^ Suc j" using Suc j by simp
    have "m div 256 ^ j = 256 * (m div 256 ^ Suc j) + m div 256 ^ j mod 256" by (rule split)
    also have "\<dots> = 256 * (n div 256 ^ Suc j) + n div 256 ^ j mod 256"
      unfolding same digit [OF j(2)] by (rule refl)
    also have "\<dots> = n div 256 ^ j" by (rule split [symmetric])
    finally show ?case by (simp add: j_def)
  qed
  from this [of 8] show "m = n" by simp
qed simp

end
