(* ===== verification/Clean_Hash.thy ===== *)
theory Clean_Hash
  imports Clean_Model Sha256 Go_Text
begin

text \<open>
  The identity of a cleanup plan (\<open>internal/app/clean/hash.go\<close>): its JSON value, the canonical text of
  a JSON value and the hash of the text. \<open>encoding/json\<close> writes the plan and reads it back before
  the canonical text is made; on the values of a plan (strings, integers, lists, structures) that
  gives the same value, with the fields of a structure as the keys of an object. The argument
  \<open>uq\<close> is \<open>strconv.Quote\<close> on text that is not ASCII; on ASCII text it is written out. The canonical
  text determines the value, so two plans with the same text have the same content.
\<close>

section \<open>Canonical JSON\<close>

datatype json =
    JNum int64
  | JBool bool
  | JStr string
  | JArr "json list"
  | JObj "(string \<times> json) list"

text \<open>\<open>strconv.Quote\<close>, byte by byte on ASCII text.\<close>

definition control_byte :: "char \<Rightarrow> bool" where
  "control_byte c \<longleftrightarrow> c < CHR '' '' \<or> c = CHR 0x7F"

definition quote_byte :: "char \<Rightarrow> string" where
  "quote_byte c =
     (if c = CHR 0x22 then [CHR 0x5C, CHR 0x22]
      else if c = CHR 0x5C then [CHR 0x5C, CHR 0x5C]
      else if c = CHR 0x07 then [CHR 0x5C, CHR ''a'']
      else if c = CHR 0x08 then [CHR 0x5C, CHR ''b'']
      else if c = CHR 0x0C then [CHR 0x5C, CHR ''f'']
      else if c = CHR 0x0A then [CHR 0x5C, CHR ''n'']
      else if c = CHR 0x0D then [CHR 0x5C, CHR ''r'']
      else if c = CHR 0x09 then [CHR 0x5C, CHR ''t'']
      else if c = CHR 0x0B then [CHR 0x5C, CHR ''v'']
      else if control_byte c then CHR 0x5C # CHR ''x'' # hex_byte (of_char c)
      else [c])"

definition Quote :: "(string \<Rightarrow> string) \<Rightarrow> string \<Rightarrow> string" where
  "Quote uq s =
     (if ascii s then CHR 0x22 # concat (map quote_byte s) @ [CHR 0x22] else uq s)"

text \<open>\<open>appendCanonicalJSON\<close>: the keys of an object are sorted; every number here is an integer.\<close>

fun canonical_json :: "(string \<Rightarrow> string) \<Rightarrow> json \<Rightarrow> string" where
  "canonical_json uq (JNum x) = FormatInt x"
| "canonical_json uq (JBool b) = (if b then ''true'' else ''false'')"
| "canonical_json uq (JStr s) = Quote uq s"
| "canonical_json uq (JArr items) =
     CHR ''['' # Join (map (canonical_json uq) items) '','' @ '']''"
| "canonical_json uq (JObj kvs) =
     CHR ''{'' # Join (map (\<lambda>kv. Quote uq (fst kv) @ CHR '':'' # snd kv)
         (sort_slice (\<lambda>a b. fst a < fst b) (map (\<lambda>kv. (fst kv, canonical_json uq (snd kv))) kvs)))
       '','' @ ''}''"

section \<open>The JSON value of a plan\<close>

definition strings_json :: "string list \<Rightarrow> json" where
  "strings_json ss = JArr (map JStr ss)"

definition reasons_json :: "Reason list \<Rightarrow> json" where
  "reasons_json rs = JArr (map (\<lambda>r. JStr (Reason_string r)) rs)"

definition epoch_json :: "StoreEpoch \<Rightarrow> json" where
  "epoch_json e = JObj [(''value'', JNum (ep_Value e)), (''sha256'', JStr (ep_SHA256 e))]"

definition policy_json :: "Policy \<Rightarrow> json" where
  "policy_json p = JObj
     [(''retention_age_seconds'', JNum (po_RetentionAgeSeconds p)),
      (''min_age_for_size_seconds'', JNum (po_MinAgeForSizeSeconds p)),
      (''target_bytes'', JNum (po_TargetBytes p)),
      (''explicit_keep_run_ids'', strings_json (po_ExplicitKeepRunIDs p))]"

definition ref_json :: "LineageEdgeRef \<Rightarrow> json" where
  "ref_json r = JObj
     [(''parent_run_id'', JStr (le_ParentRunID r)), (''child_run_id'', JStr (le_ChildRunID r)),
      (''edge_path'', JStr (le_EdgePath r)), (''sha256'', JStr (le_SHA256 r))]"

definition ancestor_json :: "AncestorProtection \<Rightarrow> json" where
  "ancestor_json a = JObj
     [(''ancestor_run_id'', JStr (ap_AncestorRunID a)),
      (''retained_descendant_run_id'', JStr (ap_RetainedDescendantRunID a)),
      (''lineage_edge_refs'', JArr (map ref_json (ap_LineageEdgeRefs a)))]"

definition anomaly_json :: "GraphAnomalyComponent \<Rightarrow> json" where
  "anomaly_json g = JObj
     [(''affected_run_ids'', strings_json (ga_AffectedRunIDs g)),
      (''lineage_edge_refs'', JArr (map ref_json (ga_LineageEdgeRefs g)))]"

definition protection_json :: "RetentionProtection \<Rightarrow> json" where
  "protection_json p = JObj
     [(''retained_seed_run_ids'', strings_json (rp_RetainedSeedRunIDs p)),
      (''transitive_ancestor_protection'', JArr (map ancestor_json (rp_TransitiveAncestorProtection p))),
      (''graph_anomaly_components'', JArr (map anomaly_json (rp_GraphAnomalyComponents p)))]"

definition decision_json :: "RunDecision \<Rightarrow> json" where
  "decision_json d = JObj
     [(''run_id'', JStr (rd_RunID d)), (''decision'', JStr (rd_Decision d)),
      (''reasons'', reasons_json (rd_Reasons d))]"

definition entry_json :: "DeleteSetEntry \<Rightarrow> json" where
  "entry_json e = JObj
     [(''run_id'', JStr (en_RunID e)), (''completed_at'', JStr (en_CompletedAt e)),
      (''regular_file_bytes'', JNum (en_RegularFileBytes e)),
      (''reason'', JStr (Reason_string (en_Reason e)))]"

definition delete_sets_json :: "DeleteSets \<Rightarrow> json" where
  "delete_sets_json d = JObj
     [(''age_delete_set'', JArr (map entry_json (ds_AgeDeleteSet d))),
      (''size_delete_set'', JArr (map entry_json (ds_SizeDeleteSet d)))]"

definition action_json :: "OrderedAction \<Rightarrow> json" where
  "action_json a = JObj
     [(''sequence'', JNum (ac_Sequence a)), (''phase'', JStr (ac_Phase a)),
      (''action'', JStr (ac_Action a)), (''run_id'', JStr (ac_RunID a)),
      (''reason'', JStr (Reason_string (ac_Reason a))),
      (''bytes_released'', JNum (ac_BytesReleased a))]"

definition accounting_json :: "ByteAccounting \<Rightarrow> json" where
  "accounting_json b = JObj
     [(''initial_regular_file_bytes'', JNum (ba_InitialRegularFileBytes b)),
      (''age_delete_bytes'', JNum (ba_AgeDeleteBytes b)),
      (''size_delete_bytes'', JNum (ba_SizeDeleteBytes b)),
      (''planned_delete_bytes'', JNum (ba_PlannedDeleteBytes b)),
      (''projected_regular_file_bytes'', JNum (ba_ProjectedRegularFileBytes b)),
      (''target_bytes'', JNum (ba_TargetBytes b)),
      (''target_reached'', JBool (ba_TargetReached b))]"

definition plan_json :: "CleanPlan \<Rightarrow> json" where
  "plan_json p = JObj
     [(''schema_version'', JStr (cp_SchemaVersion p)), (''now'', JStr (cp_Now p)),
      (''store_epoch'', epoch_json (cp_StoreEpoch p)),
      (''input_policy_sha256'', JStr (cp_InputPolicySHA256 p)),
      (''policy'', policy_json (cp_Policy p)),
      (''retention_protection'', protection_json (cp_RetentionProtection p)),
      (''run_decisions'', JArr (map decision_json (cp_RunDecisions p))),
      (''delete_sets'', delete_sets_json (cp_DeleteSets p)),
      (''ordered_actions'', JArr (map action_json (cp_OrderedActions p))),
      (''byte_accounting'', accounting_json (cp_ByteAccounting p)),
      (''outcome_reasons'', reasons_json (cp_OutcomeReasons p))]"

definition CanonicalPlanBytes :: "(string \<Rightarrow> string) \<Rightarrow> CleanPlan \<Rightarrow> clean_error + string" where
  "CanonicalPlanBytes uq p =
     (if cp_SchemaVersion p \<noteq> SchemaVersion then Inl (CleanSchemaVersion (cp_SchemaVersion p))
      else Inr (canonical_json uq (plan_json p)))"

definition PlanHash :: "(string \<Rightarrow> string) \<Rightarrow> CleanPlan \<Rightarrow> clean_error + string" where
  "PlanHash uq p =
     (case CanonicalPlanBytes uq p of
        Inl e \<Rightarrow> Inl e
      | Inr bytes \<Rightarrow>
          Inr (''sha256:'' @ sha256_hex (''Mulgae-CLEAN-PLAN/1'' @ CHR 0x00 # bytes)))"

section \<open>The text determines the value\<close>

text \<open>
  Each printer is shown to be readable: if its text, followed by anything, is the text of another
  value followed by anything, the values and the rests are the same. Numbers need a rest that
  does not go on with a digit.
\<close>

lemma hex_byte_inject: "hex_byte (of_char a) = hex_byte (of_char b) \<longleftrightarrow> a = b"
proof
  assume eq: "hex_byte (of_char a) = hex_byte (of_char b)"
  have "of_char a div 16 < (16 :: nat)" "of_char b div 16 < (16 :: nat)"
    using nat_of_char_less_256 [of a] nat_of_char_less_256 [of b] by linarith+
  with eq have d: "of_char a div 16 = (of_char b div 16 :: nat)"
    and m: "of_char a mod 16 = (of_char b mod 16 :: nat)"
    by (simp_all add: hex_byte_def nibble_char_inject)
  have "of_char a = (of_char b :: nat)"
    using div_mult_mod_eq [of "of_char a :: nat" 16] div_mult_mod_eq [of "of_char b :: nat" 16]
    unfolding d m by (rule trans [OF sym])
  then show "a = b" by simp
qed simp

definition escaped :: "char \<Rightarrow> char option" where
  "escaped c = map_of [(CHR 0x22, CHR 0x22), (CHR 0x5C, CHR 0x5C), (CHR 0x07, CHR ''a''),
     (CHR 0x08, CHR ''b''), (CHR 0x0C, CHR ''f''), (CHR 0x0A, CHR ''n''), (CHR 0x0D, CHR ''r''),
     (CHR 0x09, CHR ''t''), (CHR 0x0B, CHR ''v'')] c"

lemma quote_byte_escaped:
  "quote_byte c =
     (case escaped c of Some e \<Rightarrow> [CHR 0x5C, e]
      | None \<Rightarrow> if control_byte c then CHR 0x5C # CHR ''x'' # hex_byte (of_char c)
          else [c])"
  by (simp add: quote_byte_def escaped_def)

lemma escaped_inject: "escaped a = Some e \<Longrightarrow> escaped b = Some e \<Longrightarrow> a = b"
  by (auto simp: escaped_def split: if_splits)

lemma escaped_range: "escaped a = Some e \<Longrightarrow> e \<noteq> CHR ''x''"
  by (auto simp: escaped_def split: if_splits)

lemma escaped_simps [simp]:
  "escaped (CHR 0x5C) = Some (CHR 0x5C)" "escaped (CHR 0x22) = Some (CHR 0x22)"
  by (simp_all add: escaped_def)

lemma quote_byte_readable:
  assumes "quote_byte a @ r = quote_byte b @ s"
  shows "a = b \<and> r = s"
proof -
  have two: "hex_byte x @ u = hex_byte y @ v \<longleftrightarrow> hex_byte x = hex_byte y \<and> u = v" for x y u v
    by (simp add: hex_byte_def)
  from assms show ?thesis
    by (auto dest: escaped_inject escaped_range simp: quote_byte_escaped two hex_byte_inject split: option.splits if_splits)
qed

lemma quote_byte_head: "\<exists>h t. quote_byte c = h # t \<and> h \<noteq> CHR 0x22"
  by (cases "c = CHR 0x22") (auto simp: quote_byte_escaped split: option.split)

lemma quote_byte_end: "quote_byte c @ x \<noteq> CHR 0x22 # y" "CHR 0x22 # y \<noteq> quote_byte c @ x"
  using quote_byte_head [of c] by auto

lemma quote_bytes_readable:
  "concat (map quote_byte s) @ CHR 0x22 # r = concat (map quote_byte t) @ CHR 0x22 # q \<Longrightarrow>
   s = t \<and> r = q"
proof (induction s arbitrary: t)
  case Nil
  then show ?case by (cases t) (simp_all add: quote_byte_end)
next
  case (Cons a s)
  then obtain b t' where t: "t = b # t'" by (cases t) (simp_all add: quote_byte_end)
  with Cons.prems have "quote_byte a @ concat (map quote_byte s) @ CHR 0x22 # r =
      quote_byte b @ concat (map quote_byte t') @ CHR 0x22 # q" by simp
  from quote_byte_readable [OF this] Cons.IH [of t'] t show ?case by simp
qed

lemma Quote_readable:
  "ascii s \<Longrightarrow> ascii t \<Longrightarrow> Quote uq s @ r = Quote uq t @ q \<Longrightarrow> s = t \<and> r = q"
  by (rule quote_bytes_readable) (simp add: Quote_def)

definition no_digit :: "string \<Rightarrow> bool" where
  "no_digit r \<longleftrightarrow> (case r of [] \<Rightarrow> True | c # _ \<Rightarrow> \<not> is_digit_byte c)"

lemma digits_readable:
  assumes "dec m @ r = dec n @ q" "no_digit r" "no_digit q"
  shows "m = n \<and> r = q"
proof -
  have take: "takeWhile is_digit_byte (dec k @ x) = dec k" if "no_digit x" for k x
    using that dec_digits [of k]
    by (cases x) (simp_all add: no_digit_def takeWhile_append2 list_all_iff)
  have "dec m = dec n" using take [OF assms(2), of m] take [OF assms(3), of n] assms(1) by simp
  with assms(1) show ?thesis by (simp add: dec_inject)
qed

lemma FormatInt_readable:
  assumes "FormatInt x @ r = FormatInt y @ q" "no_digit r" "no_digit q"
  shows "x = y \<and> r = q"
proof -
  have minus: "dec m @ a \<noteq> CHR ''-'' # b" for m a b
    using dec_digits [of m] by (cases "dec m") (auto simp: is_digit_byte_def)
  consider "x < 0" "y < 0" | "x < 0" "\<not> y < 0" | "\<not> x < 0" "y < 0" | "\<not> x < 0" "\<not> y < 0"
    by blast
  then show ?thesis
  proof cases
    case 1
    with assms have "nat (- x) = nat (- y) \<and> r = q"
      by (intro digits_readable) (simp_all add: FormatInt_def)
    with 1 show ?thesis by (simp add: nat_eq_iff)
  next
    case 4
    with assms have "nat x = nat y \<and> r = q"
      by (intro digits_readable) (simp_all add: FormatInt_def)
    with 4 show ?thesis by (simp add: eq_nat_nat_iff)
  qed (use assms(1) minus minus [symmetric] in \<open>simp_all add: FormatInt_def\<close>)
qed

subsection \<open>Lists and values\<close>

text \<open>The canonical text is the plain text of the value with its keys sorted.\<close>

fun print_json :: "(string \<Rightarrow> string) \<Rightarrow> json \<Rightarrow> string" where
  "print_json uq (JNum x) = FormatInt x"
| "print_json uq (JBool b) = (if b then ''true'' else ''false'')"
| "print_json uq (JStr s) = Quote uq s"
| "print_json uq (JArr items) = CHR ''['' # Join (map (print_json uq) items) '','' @ '']''"
| "print_json uq (JObj kvs) =
     CHR ''{'' # Join (map (\<lambda>kv. Quote uq (fst kv) @ CHR '':'' # print_json uq (snd kv)) kvs) '','' @ ''}''"

fun norm_json :: "json \<Rightarrow> json" where
  "norm_json (JArr items) = JArr (map norm_json items)"
| "norm_json (JObj kvs) =
     JObj (sort_slice (\<lambda>a b. fst a < fst b) (map (\<lambda>kv. (fst kv, norm_json (snd kv))) kvs))"
| "norm_json j = j"

lemma insert_by_map:
  "(\<And>x y. lt' (f x) (f y) = lt x y) \<Longrightarrow> insert_by lt' (f x) (map f xs) = map f (insert_by lt x xs)"
  by (induction xs) auto

lemma sort_slice_map:
  "(\<And>x y. lt' (f x) (f y) = lt x y) \<Longrightarrow> sort_slice lt' (map f xs) = map f (sort_slice lt xs)"
  by (induction xs) (simp_all add: insert_by_map [of lt' f lt])

lemma sort_fields_map:
  "sort_slice (\<lambda>a b. fst a < fst b) (map (\<lambda>kv. (fst kv, f (snd kv))) kvs) =
   map (\<lambda>kv. (fst kv, f (snd kv))) (sort_slice (\<lambda>a b. fst a < (fst b :: string)) kvs)"
  by (rule sort_slice_map) simp

lemma canonical_json_print: "canonical_json uq j = print_json uq (norm_json j)"
proof (induction j)
  case (JObj kvs)
  have "map (\<lambda>kv. Quote uq (fst kv) @ CHR '':'' # canonical_json uq (snd kv))
        (sort_slice (\<lambda>a b. fst a < fst b) kvs) =
      map (\<lambda>kv. Quote uq (fst kv) @ CHR '':'' # print_json uq (norm_json (snd kv)))
        (sort_slice (\<lambda>a b. fst a < fst b) kvs)"
    using JObj by (intro map_cong) (auto simp: snds.simps)
  then show ?case
    by (simp only: canonical_json.simps norm_json.simps print_json.simps sort_fields_map map_map
        o_def fst_conv snd_conv)
qed (simp_all cong: map_cong)

fun ascii_json :: "json \<Rightarrow> bool" where
  "ascii_json (JNum x) = True"
| "ascii_json (JBool b) = True"
| "ascii_json (JStr s) = ascii s"
| "ascii_json (JArr items) = list_all ascii_json items"
| "ascii_json (JObj kvs) = list_all (\<lambda>kv. ascii (fst kv) \<and> ascii_json (snd kv)) kvs"

lemma ascii_norm_json: "ascii_json (norm_json j) \<longleftrightarrow> ascii_json j"
  by (induction j) (auto simp: list_all_iff snds.simps)

text \<open>The first byte of a text tells the kind of its value.\<close>

definition kind_of_byte :: "char \<Rightarrow> nat" where
  "kind_of_byte c =
     (if c = CHR 0x22 then 3 else if c = CHR ''['' then 4 else if c = CHR ''{'' then 5
      else if c = CHR ''t'' \<or> c = CHR ''f'' then 2 else if is_digit_byte c \<or> c = CHR ''-'' then 1
      else 0)"

fun json_kind :: "json \<Rightarrow> nat" where
  "json_kind (JNum x) = 1"
| "json_kind (JBool b) = 2"
| "json_kind (JStr s) = 3"
| "json_kind (JArr items) = 4"
| "json_kind (JObj kvs) = 5"

lemma print_json_kind:
  assumes "ascii_json j"
  shows "\<exists>h t. print_json uq j = h # t \<and> kind_of_byte h = json_kind j"
proof (cases j)
  case (JNum x)
  have digit: "kind_of_byte c = 1" if "is_digit_byte c" for c
    using that by (auto simp: kind_of_byte_def is_digit_byte_def)
  have "\<exists>h t. dec n = h # t \<and> kind_of_byte h = 1" for n
    using dec_digits [of n] digit by (cases "dec n") auto
  then show ?thesis using JNum by (auto simp: FormatInt_def kind_of_byte_def is_digit_byte_def)
qed (use assms in \<open>auto simp: kind_of_byte_def Quote_def is_digit_byte_def\<close>)

lemma Join_concat: "Join (w # ws) '','' = w @ concat (map (\<lambda>v. CHR '','' # v) ws)"
  by (induction ws arbitrary: w) (simp_all add: Join_Cons)

definition reads :: "('a \<Rightarrow> string) \<Rightarrow> 'a \<Rightarrow> 'a \<Rightarrow> bool" where
  "reads p x y \<longleftrightarrow>
     (\<forall>r q. p x @ r = p y @ q \<longrightarrow> no_digit r \<longrightarrow> no_digit q \<longrightarrow> x = y \<and> r = q)"

lemma no_digit_ends [simp]:
  "no_digit (CHR '','' # r)" "no_digit (CHR '']'' # r)" "no_digit (CHR ''}'' # r)" "no_digit []"
  by (simp_all add: no_digit_def is_digit_byte_def)

lemma items_readable:
  assumes "\<forall>x \<in> set xs. \<forall>y \<in> set ys. reads p x y" "stop \<noteq> CHR '',''" "no_digit [stop]"
  shows "concat (map (\<lambda>x. CHR '','' # p x) xs) @ stop # r = concat (map (\<lambda>x. CHR '','' # p x) ys) @ stop # q
    \<Longrightarrow> xs = ys \<and> r = q"
  using assms(1)
proof (induction xs arbitrary: ys)
  case Nil
  then show ?case using assms(2) by (cases ys) simp_all
next
  case (Cons x xs)
  then obtain y ys' where ys: "ys = y # ys'" using assms(2) by (cases ys) simp_all
  have nd: "no_digit (concat (map (\<lambda>x. CHR '','' # p x) zs) @ stop # t)" for zs t
    using assms(3) by (cases zs) (simp_all add: no_digit_def is_digit_byte_def)
  have "reads p x y" using Cons.prems(2) ys by simp
  with Cons.prems(1) ys nd have "x = y" and
    "concat (map (\<lambda>x. CHR '','' # p x) xs) @ stop # r = concat (map (\<lambda>x. CHR '','' # p x) ys') @ stop # q"
    by (auto simp: reads_def)
  with Cons.IH [of ys'] Cons.prems(2) ys show ?case by simp
qed

lemma list_readable:
  assumes "Join (map p xs) '','' @ stop # r = Join (map p ys) '','' @ stop # q"
    and reads: "\<forall>x \<in> set xs. \<forall>y \<in> set ys. reads p x y"
    and heads: "\<forall>x \<in> set xs \<union> set ys. \<exists>h t. p x = h # t \<and> h \<noteq> stop"
    and "stop \<noteq> CHR '',''" "no_digit [stop]"
  shows "xs = ys \<and> r = q"
proof -
  have empty: "(xs = [] \<longleftrightarrow> ys = [])"
    using assms(1) heads by (cases xs; cases ys) (auto simp: Join_concat)
  have "concat (map (\<lambda>x. CHR '','' # p x) xs) @ stop # r =
      concat (map (\<lambda>x. CHR '','' # p x) ys) @ stop # q"
    using assms(1) empty by (cases xs; cases ys) (simp_all add: Join_concat o_def)
  from items_readable [OF reads assms(4,5) this] show ?thesis .
qed

lemma reads_field:
  assumes "ascii (fst x)" "ascii (fst y)" "reads (print_json uq) (snd x) (snd y)"
  shows "reads (\<lambda>kv. Quote uq (fst kv) @ CHR '':'' # print_json uq (snd kv)) x y"
  unfolding reads_def
proof (intro allI impI)
  fix r q
  assume eq: "(Quote uq (fst x) @ CHR '':'' # print_json uq (snd x)) @ r =
      (Quote uq (fst y) @ CHR '':'' # print_json uq (snd y)) @ q" and nd: "no_digit r" "no_digit q"
  from eq Quote_readable [OF assms(1,2)] have "fst x = fst y"
    and "print_json uq (snd x) @ r = print_json uq (snd y) @ q" by (auto simp del: append_assoc simp: append_assoc)
  with assms(3) nd show "x = y \<and> r = q" by (auto simp: reads_def prod_eq_iff)
qed

lemma same_kind:
  assumes "print_json uq a @ r = print_json uq b @ q" "ascii_json a" "ascii_json b"
  shows "json_kind a = json_kind b"
  using assms(1) print_json_kind [OF assms(2), of uq] print_json_kind [OF assms(3), of uq]
  by (metis append_Cons list.inject)

lemma readsI:
  assumes "\<And>r q. p x @ r = p y @ q \<Longrightarrow> no_digit r \<Longrightarrow> no_digit q \<Longrightarrow> x = y \<and> r = q"
  shows "reads p x y"
  unfolding reads_def using assms by blast

lemma value_head: "ascii_json j \<Longrightarrow> \<exists>h t. print_json uq j = h # t \<and> h \<noteq> CHR '']''"
proof -
  assume "ascii_json j"
  then obtain h t where h: "print_json uq j = h # t" "kind_of_byte h = json_kind j"
    using print_json_kind by blast
  have "json_kind j \<noteq> 0" by (cases j) simp_all
  moreover have "kind_of_byte (CHR '']'') = 0" by (simp add: kind_of_byte_def is_digit_byte_def)
  ultimately have "h \<noteq> CHR '']''" using h by metis
  with h show ?thesis by blast
qed

lemma print_json_reads: "ascii_json a \<Longrightarrow> ascii_json b \<Longrightarrow> reads (print_json uq) a b"
proof (induction a arbitrary: b)
  case (JNum x)
  show ?case
  proof (rule readsI)
    fix r q
    assume eq: "print_json uq (JNum x) @ r = print_json uq b @ q" and nd: "no_digit r" "no_digit q"
    from same_kind [OF eq JNum] obtain y where "b = JNum y" by (cases b) simp_all
    with eq FormatInt_readable [OF _ nd, of x y] show "JNum x = b \<and> r = q" by simp
  qed
next
  case (JBool x)
  show ?case
  proof (rule readsI)
    fix r q
    assume eq: "print_json uq (JBool x) @ r = print_json uq b @ q"
    from same_kind [OF eq JBool] obtain y where "b = JBool y" by (cases b) simp_all
    with eq show "JBool x = b \<and> r = q" by (simp split: if_splits)
  qed
next
  case (JStr x)
  show ?case
  proof (rule readsI)
    fix r q
    assume eq: "print_json uq (JStr x) @ r = print_json uq b @ q"
    from same_kind [OF eq JStr] obtain y where b: "b = JStr y" by (cases b) simp_all
    with JStr have "ascii x" "ascii y" by simp_all
    from Quote_readable [OF this, of uq r q] eq b show "JStr x = b \<and> r = q" by simp
  qed
next
  case (JArr xs)
  show ?case
  proof (rule readsI)
    fix r q
    assume eq: "print_json uq (JArr xs) @ r = print_json uq b @ q"
    from same_kind [OF eq JArr.prems] obtain ys where b: "b = JArr ys" by (cases b) simp_all
    have asc: "\<forall>j \<in> set xs \<union> set ys. ascii_json j"
      using JArr.prems b by (auto simp: list_all_iff)
    have "xs = ys \<and> r = q"
    proof (rule list_readable [where p = "print_json uq" and stop = "CHR '']''"])
      show "Join (map (print_json uq) xs) '','' @ CHR '']'' # r =
          Join (map (print_json uq) ys) '','' @ CHR '']'' # q" using eq b by simp
    qed (use asc JArr.IH value_head in \<open>auto simp: no_digit_def is_digit_byte_def\<close>)
    with b show "JArr xs = b \<and> r = q" by simp
  qed
next
  case (JObj xs)
  let ?field = "\<lambda>kv. Quote uq (fst kv) @ CHR '':'' # print_json uq (snd kv)"
  show ?case
  proof (rule readsI)
    fix r q
    assume eq: "print_json uq (JObj xs) @ r = print_json uq b @ q"
    from same_kind [OF eq JObj.prems] obtain ys where b: "b = JObj ys" by (cases b) simp_all
    have asc: "\<forall>kv \<in> set xs \<union> set ys. ascii (fst kv) \<and> ascii_json (snd kv)"
      using JObj.prems b by (auto simp: list_all_iff)
    have "reads ?field x y" if "x \<in> set xs" "y \<in> set ys" for x y
      using asc that JObj.IH [of x "snd x" "snd y"] by (intro reads_field) (auto simp: snds.simps)
    moreover have "\<exists>h t. ?field kv = h # t \<and> h \<noteq> CHR ''}''" if "kv \<in> set xs \<union> set ys" for kv
      using asc that by (simp add: Quote_def)
    ultimately have "xs = ys \<and> r = q"
      using eq b by (intro list_readable [where p = ?field and stop = "CHR ''}''"])
        (simp_all add: no_digit_def is_digit_byte_def)
    with b show "JObj xs = b \<and> r = q" by simp
  qed
qed

text \<open>Values with the same canonical text are the same value, up to the order of the keys.\<close>

lemma canonical_json_inject:
  assumes "ascii_json a" "ascii_json b" "canonical_json uq a = canonical_json uq b"
  shows "norm_json a = norm_json b"
proof -
  have "reads (print_json uq) (norm_json a) (norm_json b)"
    using assms by (intro print_json_reads) (simp_all add: ascii_norm_json)
  moreover have "print_json uq (norm_json a) @ [] = print_json uq (norm_json b) @ []"
    using assms(3) by (simp add: canonical_json_print)
  ultimately show ?thesis unfolding reads_def by (meson no_digit_ends(4))
qed

section \<open>The text determines the plan\<close>

lemma same_keys_unique:
  assumes "mset xs = mset ys" "map fst xs = map fst ys" "distinct (map fst xs)"
  shows "xs = ys"
proof (rule nth_equalityI)
  show len: "length xs = length ys" using assms(1) by (rule mset_eq_length)
  fix i
  assume i: "i < length xs"
  have "xs ! i \<in> set ys" using i assms(1) by (metis nth_mem set_mset_mset)
  then obtain j where j: "j < length ys" "xs ! i = ys ! j" by (auto simp: in_set_conv_nth)
  have "map fst ys ! i = map fst ys ! j"
    using i j len by (metis assms(2) nth_map)
  then have "i = j"
    using assms(2,3) i j(1) len nth_eq_iff_index_eq [of "map fst ys" i j] by simp
  with j show "xs ! i = ys ! i" by simp
qed

lemma norm_object_inject:
  assumes "map fst xs = map fst ys" "distinct (map fst xs)"
  shows "norm_json (JObj xs) = norm_json (JObj ys) \<longleftrightarrow>
    map (\<lambda>kv. norm_json (snd kv)) xs = map (\<lambda>kv. norm_json (snd kv)) ys"
proof
  let ?f = "\<lambda>kv :: string \<times> json. (fst kv, norm_json (snd kv))"
  assume "norm_json (JObj xs) = norm_json (JObj ys)"
  then have "sort_slice (\<lambda>a b. fst a < fst b) (map ?f xs) = sort_slice (\<lambda>a b. fst a < fst b) (map ?f ys)"
    by (simp only: norm_json.simps json.inject)
  then have "mset (sort_slice (\<lambda>a b. fst a < fst b) (map ?f xs)) =
      mset (sort_slice (\<lambda>a b. fst a < fst b) (map ?f ys))"
    by (rule arg_cong)
  then have "mset (map ?f xs) = mset (map ?f ys)" by (simp only: mset_sort_slice)
  then have "map ?f xs = map ?f ys"
    using assms by (intro same_keys_unique) (simp_all add: o_def)
  then have "map snd (map ?f xs) = map snd (map ?f ys)" by (rule arg_cong)
  then show "map (\<lambda>kv. norm_json (snd kv)) xs = map (\<lambda>kv. norm_json (snd kv)) ys"
    by (simp add: o_def)
next
  let ?f = "\<lambda>kv :: string \<times> json. (fst kv, norm_json (snd kv))"
  assume "map (\<lambda>kv. norm_json (snd kv)) xs = map (\<lambda>kv. norm_json (snd kv)) ys"
  moreover have "map ?f zs = zip (map fst zs) (map (\<lambda>kv. norm_json (snd kv)) zs)" for zs
    by (induction zs) simp_all
  ultimately have "map ?f xs = map ?f ys" using assms(1) by metis
  then show "norm_json (JObj xs) = norm_json (JObj ys)" by (simp only: norm_json.simps)
qed

lemma norm_array_inject:
  assumes "\<And>x y. x \<in> set xs \<Longrightarrow> y \<in> set ys \<Longrightarrow> norm_json (f x) = norm_json (f y) \<Longrightarrow> x = y"
  shows "norm_json (JArr (map f xs)) = norm_json (JArr (map f ys)) \<longleftrightarrow> xs = ys"
proof
  assume "norm_json (JArr (map f xs)) = norm_json (JArr (map f ys))"
  then have "map (\<lambda>x. norm_json (f x)) xs = map (\<lambda>x. norm_json (f x)) ys" by (simp add: o_def)
  then show "xs = ys" using assms
  proof (induction xs arbitrary: ys)
    case (Cons x xs)
    then obtain y ys' where "ys = y # ys'" by (cases ys) simp_all
    with Cons show ?case by auto
  qed simp
qed simp

fun known_reason :: "Reason \<Rightarrow> bool" where
  "known_reason (ReasonOther s) = False"
| "known_reason _ = True"

lemma Reason_string_inject:
  "known_reason a \<Longrightarrow> known_reason b \<Longrightarrow> Reason_string a = Reason_string b \<longleftrightarrow> a = b"
  by (cases a; cases b) simp_all

text \<open>The texts of a plan are ASCII and its reasons are the ones of the vocabulary.\<close>

definition plan_known :: "CleanPlan \<Rightarrow> bool" where
  "plan_known p \<longleftrightarrow> ascii_json (plan_json p) \<and>
     (\<forall>d \<in> set (cp_RunDecisions p). list_all known_reason (rd_Reasons d)) \<and>
     (\<forall>e \<in> set (ds_AgeDeleteSet (cp_DeleteSets p)) \<union> set (ds_SizeDeleteSet (cp_DeleteSets p)).
        known_reason (en_Reason e)) \<and>
     (\<forall>a \<in> set (cp_OrderedActions p). known_reason (ac_Reason a)) \<and>
     list_all known_reason (cp_OutcomeReasons p)"

lemma norm_strings: "norm_json (strings_json a) = norm_json (strings_json b) \<longleftrightarrow> a = b"
  unfolding strings_json_def by (rule norm_array_inject) simp

lemma norm_reasons:
  "list_all known_reason a \<Longrightarrow> list_all known_reason b \<Longrightarrow>
   norm_json (reasons_json a) = norm_json (reasons_json b) \<longleftrightarrow> a = b"
  unfolding reasons_json_def
  by (rule norm_array_inject) (simp add: Reason_string_inject list_all_iff)

lemma norm_epoch: "norm_json (epoch_json a) = norm_json (epoch_json b) \<longleftrightarrow> a = b"
  by (cases a; cases b) (simp add: epoch_json_def norm_object_inject del: norm_json.simps(2))

lemma norm_policy: "norm_json (policy_json a) = norm_json (policy_json b) \<longleftrightarrow> a = b"
  by (cases a; cases b) (simp add: policy_json_def norm_object_inject norm_strings del: norm_json.simps(2))

lemma norm_ref: "norm_json (ref_json a) = norm_json (ref_json b) \<longleftrightarrow> a = b"
  by (cases a; cases b) (auto simp add: ref_json_def norm_object_inject simp del: norm_json.simps(2))

lemma norm_refs: "norm_json (JArr (map ref_json a)) = norm_json (JArr (map ref_json b)) \<longleftrightarrow> a = b"
  by (rule norm_array_inject) (simp add: norm_ref)

lemma norm_ancestor: "norm_json (ancestor_json a) = norm_json (ancestor_json b) \<longleftrightarrow> a = b"
  by (cases a; cases b)
    (simp add: ancestor_json_def norm_object_inject norm_refs del: norm_json.simps(1,2))

lemma norm_anomaly: "norm_json (anomaly_json a) = norm_json (anomaly_json b) \<longleftrightarrow> a = b"
  by (cases a; cases b)
    (simp add: anomaly_json_def norm_object_inject norm_refs norm_strings del: norm_json.simps(1,2))

lemma norm_protection: "norm_json (protection_json a) = norm_json (protection_json b) \<longleftrightarrow> a = b"
proof -
  have "norm_json (JArr (map ancestor_json x)) = norm_json (JArr (map ancestor_json y)) \<longleftrightarrow> x = y" for x y
    by (rule norm_array_inject) (simp add: norm_ancestor)
  moreover have "norm_json (JArr (map anomaly_json x)) = norm_json (JArr (map anomaly_json y)) \<longleftrightarrow> x = y"
    for x y by (rule norm_array_inject) (simp add: norm_anomaly)
  ultimately show ?thesis
    by (cases a; cases b)
      (simp add: protection_json_def norm_object_inject norm_strings del: norm_json.simps(1,2))
qed

lemma norm_decision:
  "list_all known_reason (rd_Reasons a) \<Longrightarrow> list_all known_reason (rd_Reasons b) \<Longrightarrow>
   norm_json (decision_json a) = norm_json (decision_json b) \<longleftrightarrow> a = b"
  by (cases a; cases b)
    (simp add: decision_json_def norm_object_inject norm_reasons del: norm_json.simps(2))

lemma norm_entry:
  "known_reason (en_Reason a) \<Longrightarrow> known_reason (en_Reason b) \<Longrightarrow>
   norm_json (entry_json a) = norm_json (entry_json b) \<longleftrightarrow> a = b"
  by (cases a; cases b)
    (simp add: entry_json_def norm_object_inject Reason_string_inject del: norm_json.simps(2))

lemma norm_entries:
  "\<forall>e \<in> set a. known_reason (en_Reason e) \<Longrightarrow> \<forall>e \<in> set b. known_reason (en_Reason e) \<Longrightarrow>
   norm_json (JArr (map entry_json a)) = norm_json (JArr (map entry_json b)) \<longleftrightarrow> a = b"
  by (rule norm_array_inject) (simp add: norm_entry)

lemma norm_action:
  "known_reason (ac_Reason a) \<Longrightarrow> known_reason (ac_Reason b) \<Longrightarrow>
   norm_json (action_json a) = norm_json (action_json b) \<longleftrightarrow> a = b"
  by (cases a; cases b)
    (auto simp add: action_json_def norm_object_inject Reason_string_inject simp del: norm_json.simps(2))

lemma norm_accounting: "norm_json (accounting_json a) = norm_json (accounting_json b) \<longleftrightarrow> a = b"
  by (cases a; cases b) (simp add: accounting_json_def norm_object_inject del: norm_json.simps(2))

text \<open>What the hash covers: everything but the mode, the hash itself and the apply identity.\<close>

definition plan_content :: "CleanPlan \<Rightarrow> CleanPlan" where
  "plan_content p = p\<lparr>cp_Mode := [], cp_PlanHash := [], cp_ApplyIdentity := None\<rparr>"

lemma plan_json_content: "plan_json (plan_content p) = plan_json p"
  by (simp add: plan_json_def plan_content_def)

lemma norm_plan:
  assumes "plan_known p" "plan_known q" "norm_json (plan_json p) = norm_json (plan_json q)"
  shows "plan_content p = plan_content q"
proof -
  have decisions: "norm_json (JArr (map decision_json (cp_RunDecisions p))) =
      norm_json (JArr (map decision_json (cp_RunDecisions q))) \<longleftrightarrow> cp_RunDecisions p = cp_RunDecisions q"
    using assms(1,2) by (intro norm_array_inject) (simp add: norm_decision plan_known_def)
  have actions: "norm_json (JArr (map action_json (cp_OrderedActions p))) =
      norm_json (JArr (map action_json (cp_OrderedActions q))) \<longleftrightarrow> cp_OrderedActions p = cp_OrderedActions q"
    using assms(1,2) by (intro norm_array_inject) (simp add: norm_action plan_known_def)
  have sets: "norm_json (delete_sets_json (cp_DeleteSets p)) = norm_json (delete_sets_json (cp_DeleteSets q))
      \<longleftrightarrow> cp_DeleteSets p = cp_DeleteSets q"
    using assms(1,2) norm_entries
    by (cases "cp_DeleteSets p"; cases "cp_DeleteSets q")
      (simp add: delete_sets_json_def norm_object_inject plan_known_def ball_Un del: norm_json.simps(1,2))
  have outcomes: "norm_json (reasons_json (cp_OutcomeReasons p)) =
      norm_json (reasons_json (cp_OutcomeReasons q)) \<longleftrightarrow> cp_OutcomeReasons p = cp_OutcomeReasons q"
    using assms(1,2) by (intro norm_reasons) (simp_all add: plan_known_def)
  note fields = norm_epoch norm_policy norm_protection norm_accounting decisions actions sets outcomes
  from assms(3) show ?thesis
    unfolding plan_json_def
    by (cases p; cases q)
      (use fields in \<open>simp add: norm_object_inject plan_content_def del: norm_json.simps(1,2)\<close>)
qed

text \<open>Two known plans with the same canonical bytes have the same content.\<close>

lemma CanonicalPlanBytes_inject:
  assumes "plan_known p" "plan_known q"
    and "CanonicalPlanBytes uq p = Inr bytes" "CanonicalPlanBytes uq q = Inr bytes"
  shows "plan_content p = plan_content q"
proof (rule norm_plan [OF assms(1,2)])
  have "canonical_json uq (plan_json p) = canonical_json uq (plan_json q)"
    using assms(3,4) by (auto simp: CanonicalPlanBytes_def split: if_splits)
  then show "norm_json (plan_json p) = norm_json (plan_json q)"
    using assms(1,2) by (intro canonical_json_inject) (simp_all add: plan_known_def)
qed

lemma CanonicalPlanBytes_content: "CanonicalPlanBytes uq (plan_content p) = CanonicalPlanBytes uq p"
  unfolding CanonicalPlanBytes_def plan_json_content by (simp add: plan_content_def)

text \<open>The hash is a function of the content, and has the canonical form of a digest.\<close>

lemma PlanHash_content: "plan_content p = plan_content q \<Longrightarrow> PlanHash uq p = PlanHash uq q"
  by (metis CanonicalPlanBytes_content PlanHash_def)

lemma PlanHash_canonical: "PlanHash uq p = Inr h \<Longrightarrow> canonicalSHA256 h"
  using sha256_hex_shape
  by (auto simp: PlanHash_def canonicalSHA256_def HasPrefix_def split: sum.splits)

end
