(* ===== verification/Clean_Plan.thy ===== *)
theory Clean_Plan
  imports Clean_Graph Clean_Hash
begin

text \<open>
  The cleanup planner (\<open>Plan\<close> in \<open>internal/app/clean/planner.go\<close>), in the phases of the source:
  the checks of the snapshot, the reasons that protect runs, the anomalies of the lineage graph, the
  ancestors of retained runs, the runs that are old enough, the selection by size, the decisions,
  the actions and the accounts. A Go map from run identities is read in the order of the snapshot's
  runs; what the planner takes from a map it sorts, or sums up.
\<close>

section \<open>Checks of the snapshot\<close>

definition known_ids :: "RetentionSnapshot \<Rightarrow> string list" where
  "known_ids s = map ob_RunID (sn_Runs s)"

definition max_policy_seconds :: int64 where
  "max_policy_seconds = max_int64 div nanos_per_second"

fun check_runs :: "string list \<Rightarrow> RunObservation list \<Rightarrow> clean_error option" where
  "check_runs seen [] = None"
| "check_runs seen (r # rs) =
     (if \<not> canonicalRunID (ob_RunID r) \<or> \<not> canonicalSessionID (ob_SessionID r) then Some CleanRunIDs
      else if ob_RegularFileBytes r < 0 then Some (CleanNegativeBytes (ob_RunID r))
      else if RunObservation_kind r \<noteq> RunKindPublication \<and> RunObservation_kind r \<noteq> RunKindDiagnosticOnly
        then Some (CleanRunKind (ob_RunID r))
      else if ob_RunID r \<in> set seen then Some (CleanDuplicateRun (ob_RunID r))
      else check_runs (ob_RunID r # seen) rs)"

definition check_snapshot :: "RetentionSnapshot \<Rightarrow> clean_error option" where
  "check_snapshot s =
     (if time_IsZero (sn_Now s) then Some CleanNowRequired
      else case validateSnapshotIdentity (sn_StoreEpoch s) (sn_InputPolicySHA256 s) of
        Some e \<Rightarrow> Some e
      | None \<Rightarrow>
          if po_RetentionAgeSeconds (sn_Policy s) < 0 \<or> po_MinAgeForSizeSeconds (sn_Policy s) < 0 \<or>
             po_TargetBytes (sn_Policy s) < 0 then Some CleanPolicyNegative
          else if po_RetentionAgeSeconds (sn_Policy s) > max_policy_seconds \<or>
             po_MinAgeForSizeSeconds (sn_Policy s) > max_policy_seconds then Some CleanPolicyRange
          else check_runs [] (sn_Runs s))"

section \<open>Protection\<close>

text \<open>The maps \<open>protected\<close> and \<open>seed\<close> of the source; the closure \<open>add\<close> ignores unknown runs.\<close>

record retention =
  rt_Protected :: "string \<Rightarrow> Reason list"
  rt_Seed :: "string list"

definition no_retention :: retention where
  "no_retention = \<lparr>rt_Protected = (\<lambda>i. []), rt_Seed = []\<rparr>"

definition protect :: "string list \<Rightarrow> string \<Rightarrow> Reason \<Rightarrow> retention \<Rightarrow> retention" where
  "protect known i reason st =
     (if i \<in> set known
      then st\<lparr>rt_Protected := (rt_Protected st)(i := addReason (rt_Protected st i) reason)\<rparr>
      else st)"

definition retain :: "string list \<Rightarrow> string \<Rightarrow> Reason \<Rightarrow> retention \<Rightarrow> retention" where
  "retain known i reason st =
     (let st' = protect known i reason st in st'\<lparr>rt_Seed := List.insert i (rt_Seed st')\<rparr>)"

fun keep_runs :: "string list \<Rightarrow> string list \<Rightarrow> retention \<Rightarrow> clean_error + retention" where
  "keep_runs known [] st = Inr st"
| "keep_runs known (i # is) st =
     (if \<not> canonicalRunID i then Inl CleanKeepNotCanonical
      else if i \<notin> set known then Inl CleanKeepUnknown
      else keep_runs known is (retain known i ReasonProtectedExplicit st))"

definition uncommitted :: "RunObservation \<Rightarrow> bool" where
  "uncommitted r \<longleftrightarrow>
     RunObservation_kind r = RunKindPublication \<and> \<not> ob_Committed r \<or>
     RunObservation_kind r = RunKindDiagnosticOnly \<and> ob_DiagnosticProtected r"

definition observe_run :: "string list \<Rightarrow> RunObservation \<Rightarrow> retention \<Rightarrow> retention" where
  "observe_run known r st =
     (let st1 = if ob_Active r then retain known (ob_RunID r) ReasonActive st else st;
          st2 = if uncommitted r then retain known (ob_RunID r) ReasonUncommitted st1 else st1
      in if ob_Corrupt r then retain known (ob_RunID r) ReasonCorrupt st2 else st2)"

definition observe_runs :: "string list \<Rightarrow> RunObservation list \<Rightarrow> retention \<Rightarrow> retention" where
  "observe_runs known runs st = fold (observe_run known) runs st"

section \<open>Anomalies of the graph\<close>

definition both_known :: "string list \<Rightarrow> LineageEdgeObservation \<Rightarrow> bool" where
  "both_known known e \<longleftrightarrow> le_ParentRunID e \<in> set known \<and> le_ChildRunID e \<in> set known"

definition dangling_refs :: "string list \<Rightarrow> edges \<Rightarrow> LineageEdgeRef list" where
  "dangling_refs known es =
     fold (\<lambda>e refs. if both_known known e then refs else appendEdgeRef refs (edge_ref e)) es []"

fun extend_component ::
  "string \<Rightarrow> LineageEdgeRef \<Rightarrow> GraphAnomalyComponent list \<Rightarrow> GraphAnomalyComponent list" where
  "extend_component start r [] = []"
| "extend_component start r (c # cs) =
     (if start \<in> set (ga_AffectedRunIDs c)
      then c\<lparr>ga_LineageEdgeRefs := appendEdgeRef (ga_LineageEdgeRefs c) r\<rparr> # cs
      else c # extend_component start r cs)"

record anomalies =
  an_Retention :: retention
  an_Components :: "GraphAnomalyComponent list"
  an_Seen :: "string list"

definition anomaly_edge ::
  "string list \<Rightarrow> edges \<Rightarrow> LineageEdgeObservation \<Rightarrow> anomalies \<Rightarrow> anomalies" where
  "anomaly_edge known graph e st =
     (if le_Valid e \<and> both_known known e then st
      else
        let start = if le_ParentRunID e \<in> set known then le_ParentRunID e
                    else if le_ChildRunID e \<in> set known then le_ChildRunID e else ''''
        in if start = '''' then st
           else if start \<in> set (an_Seen st) then
             st\<lparr>an_Components := extend_component start (edge_ref e) (an_Components st)\<rparr>
           else
             let found = component start graph;
                 ids = fst found;
                 refs = appendEdgeRef (snd found) (edge_ref e)
             in \<lparr>an_Retention = fold (\<lambda>i. retain known i ReasonGraphAnomaly) ids (an_Retention st),
                 an_Components = an_Components st @ [\<lparr>ga_AffectedRunIDs = ids, ga_LineageEdgeRefs = refs\<rparr>],
                 an_Seen = ids @ an_Seen st\<rparr>)"

definition anomaly_components ::
  "string list \<Rightarrow> edges \<Rightarrow> retention \<Rightarrow> retention \<times> GraphAnomalyComponent list" where
  "anomaly_components known es st =
     (let refs = dangling_refs known es
      in if refs \<noteq> [] then
           let ids = sortedKeys known
           in (fold (\<lambda>i. retain known i ReasonGraphAnomaly) ids st,
               [\<lparr>ga_AffectedRunIDs = ids, ga_LineageEdgeRefs = refs\<rparr>])
         else
           let done_st = fold (anomaly_edge known (linked known es)) es
                 \<lparr>an_Retention = st, an_Components = [], an_Seen = []\<rparr>
           in (an_Retention done_st, an_Components done_st))"

section \<open>Ancestors and missing times\<close>

definition protect_ancestors ::
  "string list \<Rightarrow> edges \<Rightarrow> string list \<Rightarrow> retention \<times> AncestorProtection list \<Rightarrow>
   retention \<times> AncestorProtection list" where
  "protect_ancestors known graph seeds st =
     fold (\<lambda>d acc. let found = ancestors_of graph d
             in (fold (\<lambda>a. protect known (ap_AncestorRunID a) ReasonAncestor) found (fst acc),
                 snd acc @ found)) seeds st"

definition missing_times :: "string list \<Rightarrow> RunObservation list \<Rightarrow> retention \<Rightarrow> retention" where
  "missing_times known runs st =
     fold (\<lambda>r st. if RunObservation_completion r = None
                  then protect known (ob_RunID r) ReasonMissingTime st else st) runs st"

definition ancestor_less :: "AncestorProtection \<Rightarrow> AncestorProtection \<Rightarrow> bool" where
  "ancestor_less a b =
     (if ap_RetainedDescendantRunID a \<noteq> ap_RetainedDescendantRunID b
      then ap_RetainedDescendantRunID a < ap_RetainedDescendantRunID b
      else ap_AncestorRunID a < ap_AncestorRunID b)"

definition component_less :: "GraphAnomalyComponent \<Rightarrow> GraphAnomalyComponent \<Rightarrow> bool" where
  "component_less a b =
     (if ga_AffectedRunIDs a = [] \<or> ga_AffectedRunIDs b = []
      then length (ga_AffectedRunIDs a) < length (ga_AffectedRunIDs b)
      else hd (ga_AffectedRunIDs a) < hd (ga_AffectedRunIDs b))"

text \<open>From the explicit keeps to the end of the protection phase.\<close>

definition protect_runs ::
  "RetentionSnapshot \<Rightarrow> clean_error + retention \<times> RetentionProtection" where
  "protect_runs s =
     (let known = known_ids s
      in case keep_runs known (po_ExplicitKeepRunIDs (sn_Policy s)) no_retention of
           Inl e \<Rightarrow> Inl e
         | Inr kept \<Rightarrow>
             (case checked_edges (sn_Edges s) of
                Inl e \<Rightarrow> Inl e
              | Inr es \<Rightarrow>
                  if \<not> list_all (\<lambda>e. canonicalEdgePath (le_EdgePath e)) es then Inl CleanEdgePath
                  else
                    let graph = linked known es;
                        (marked, components) =
                          anomaly_components known es (observe_runs known (sn_Runs s) kept);
                        (aged, ancestors) =
                          protect_ancestors known graph (sortedKeys (rt_Seed marked)) (marked, []);
                        final = missing_times known (sn_Runs s) aged
                    in Inr (final,
                         \<lparr>rp_RetainedSeedRunIDs = sortedKeys (rt_Seed final),
                          rp_TransitiveAncestorProtection = sort_slice ancestor_less ancestors,
                          rp_GraphAnomalyComponents = sort_slice component_less components\<rparr>)))"

section \<open>Selection\<close>

definition cutoff :: "go_time \<Rightarrow> int64 \<Rightarrow> go_time" where
  "cutoff now seconds = time_Add now (wrap64 (wrap64 (- seconds) * nanos_per_second))"

text \<open>\<open>sum\<close>, and the same loop from another start; \<open>None\<close> when a partial sum would overflow.\<close>

fun sum_bytes :: "int64 \<Rightarrow> RunObservation list \<Rightarrow> int64 option" where
  "sum_bytes n [] = Some n"
| "sum_bytes n (r # rs) =
     (if ob_RegularFileBytes r > wrap64 (max_int64 - n) then None
      else sum_bytes (wrap64 (n + ob_RegularFileBytes r)) rs)"

definition checkedAdd :: "int64 \<Rightarrow> int64 \<Rightarrow> int64 option" where
  "checkedAdd l r =
     (if r > 0 \<and> l > wrap64 (max_int64 - r) then None else Some (wrap64 (l + r)))"

fun classify_runs ::
  "go_time \<Rightarrow> go_time \<Rightarrow> RunObservation list \<Rightarrow> retention \<Rightarrow>
   RunObservation list \<times> RunObservation list \<times> retention" where
  "classify_runs age_cut size_cut [] st = ([], [], st)"
| "classify_runs age_cut size_cut (r # rs) st =
     (case RunObservation_completion r of
        None \<Rightarrow> classify_runs age_cut size_cut rs st
      | Some t \<Rightarrow>
          if rt_Protected st (ob_RunID r) \<noteq> [] then classify_runs age_cut size_cut rs st
          else if time_Before t age_cut then
            (let (age, size, st') = classify_runs age_cut size_cut rs st in (r # age, size, st'))
          else if time_After t size_cut then
            classify_runs age_cut size_cut rs
              (st\<lparr>rt_Protected := (rt_Protected st)
                   (ob_RunID r := addReason (rt_Protected st (ob_RunID r)) ReasonYoung)\<rparr>)
          else
            (let (age, size, st') = classify_runs age_cut size_cut rs st in (age, r # size, st')))"

definition run_less :: "RunObservation \<Rightarrow> RunObservation \<Rightarrow> bool" where
  "run_less a b \<longleftrightarrow>
     time_Before (completion_time a) (completion_time b) \<or>
     time_Equal (completion_time a) (completion_time b) \<and> ob_RunID a < ob_RunID b"

definition sortRuns :: "RunObservation list \<Rightarrow> RunObservation list" where
  "sortRuns rs = sort_slice run_less rs"

fun select_size ::
  "int64 \<Rightarrow> int64 \<Rightarrow> RunObservation list \<Rightarrow> clean_error + RunObservation list \<times> int64" where
  "select_size target projected [] = Inr ([], projected)"
| "select_size target projected (r # rs) =
     (if projected \<le> target then Inr ([], projected)
      else if ob_RegularFileBytes r > projected then Inl CleanProjectedUnderflow
      else case select_size target (wrap64 (projected - ob_RegularFileBytes r)) rs of
        Inl e \<Rightarrow> Inl e
      | Inr (picked, rest) \<Rightarrow> Inr (r # picked, rest))"

record selection =
  sl_Retention :: retention
  sl_Age :: "RunObservation list"
  sl_SizeCandidates :: "RunObservation list"
  sl_Size :: "RunObservation list"
  sl_Initial :: int64
  sl_AgeBytes :: int64
  sl_SizeBytes :: int64
  sl_Projected :: int64
  sl_Planned :: int64

definition select_runs :: "RetentionSnapshot \<Rightarrow> retention \<Rightarrow> clean_error + selection" where
  "select_runs s st =
     (let now = time_UTC (sn_Now s);
          target = po_TargetBytes (sn_Policy s)
      in if sn_ProtectedRegularFileBytes s < 0 then Inl CleanProtectedBytes
         else case sum_bytes (sn_ProtectedRegularFileBytes s) (sn_Runs s) of
           None \<Rightarrow> Inl CleanTotalOverflow
         | Some initial \<Rightarrow>
             let (age0, size0, marked) =
                   classify_runs (cutoff now (po_RetentionAgeSeconds (sn_Policy s)))
                     (cutoff now (po_MinAgeForSizeSeconds (sn_Policy s))) (sn_Runs s) st;
                 age = sortRuns age0; size = sortRuns size0
             in case sum_bytes 0 age of
                  None \<Rightarrow> Inl CleanAgeOverflow
                | Some ageBytes \<Rightarrow>
                    (case select_size target (wrap64 (initial - ageBytes)) size of
                       Inl e \<Rightarrow> Inl e
                     | Inr (picked, projected) \<Rightarrow>
                         (case sum_bytes 0 picked of
                            None \<Rightarrow> Inl CleanSizeOverflow
                          | Some sizeBytes \<Rightarrow>
                              (case checkedAdd ageBytes sizeBytes of
                                 None \<Rightarrow> Inl CleanPlannedOverflow
                               | Some planned \<Rightarrow>
                                   Inr \<lparr>sl_Retention = marked, sl_Age = age,
                                        sl_SizeCandidates = size, sl_Size = picked,
                                        sl_Initial = initial, sl_AgeBytes = ageBytes,
                                        sl_SizeBytes = sizeBytes, sl_Projected = projected,
                                        sl_Planned = planned\<rparr>))))"

section \<open>The plan\<close>

definition selected :: "selection \<Rightarrow> string \<Rightarrow> Reason option" where
  "selected sl i =
     (if i \<in> ob_RunID ` set (sl_Size sl) then Some ReasonDeletedSize
      else if i \<in> ob_RunID ` set (sl_Age sl) then Some ReasonDeletedAge else None)"

definition decide_run :: "selection \<Rightarrow> string \<Rightarrow> RunDecision" where
  "decide_run sl i =
     (let reasons = rt_Protected (sl_Retention sl) i;
          (decision, because) =
            (case selected sl i of
               Some reason \<Rightarrow>
                 if reason = ReasonDeletedAge
                 then (''selected_age'', addReason (addReason reasons ReasonEligibleAge) ReasonDeletedAge)
                 else (''selected_size'', addReason (addReason reasons ReasonEligibleSize) ReasonDeletedSize)
             | None \<Rightarrow>
                 if reasons \<noteq> [] then (''protected'', reasons)
                 else if i \<in> ob_RunID ` set (sl_Age sl) then (''eligible_age'', [ReasonEligibleAge])
                 else if i \<in> ob_RunID ` set (sl_SizeCandidates sl) then
                   (''eligible_size'', [ReasonEligibleSize])
                 else (''not_selected'', [ReasonYoung]))
      in \<lparr>rd_RunID = i, rd_Decision = decision, rd_Reasons = sortReasons because\<rparr>)"

definition entries :: "RunObservation list \<Rightarrow> Reason \<Rightarrow> DeleteSetEntry list" where
  "entries runs reason =
     map (\<lambda>r. \<lparr>en_RunID = ob_RunID r, en_CompletedAt = FormatRFC3339Nano (completion_time r),
            en_RegularFileBytes = ob_RegularFileBytes r, en_Reason = reason\<rparr>) runs"

fun number_actions :: "string \<Rightarrow> Reason \<Rightarrow> int64 \<Rightarrow> RunObservation list \<Rightarrow> OrderedAction list" where
  "number_actions phase reason n [] = []"
| "number_actions phase reason n (r # rs) =
     \<lparr>ac_Sequence = n, ac_Phase = phase, ac_Action = ''tombstone'', ac_RunID = ob_RunID r,
      ac_Reason = reason, ac_BytesReleased = 0\<rparr> #
     \<lparr>ac_Sequence = n + 1, ac_Phase = phase, ac_Action = ''delete'', ac_RunID = ob_RunID r,
      ac_Reason = reason, ac_BytesReleased = ob_RegularFileBytes r\<rparr> #
     number_actions phase reason (n + 2) rs"

definition actionsFor :: "RunObservation list \<Rightarrow> RunObservation list \<Rightarrow> OrderedAction list" where
  "actionsFor age bulk =
     number_actions ''age'' ReasonDeletedAge 1 age @
     number_actions ''size'' ReasonDeletedSize (1 + 2 * int (length age)) bulk"

definition build_plan :: "RetentionSnapshot \<Rightarrow> RetentionProtection \<Rightarrow> selection \<Rightarrow> CleanPlan" where
  "build_plan s protection sl =
     (let target = po_TargetBytes (sn_Policy s)
      in \<lparr>cp_SchemaVersion = SchemaVersion, cp_Mode = ''dry_run'',
          cp_Now = FormatRFC3339Nano (time_UTC (sn_Now s)), cp_StoreEpoch = sn_StoreEpoch s,
          cp_InputPolicySHA256 = sn_InputPolicySHA256 s, cp_Policy = sn_Policy s,
          cp_RetentionProtection = protection,
          cp_RunDecisions = map (decide_run sl) (sortedKeys (known_ids s)),
          cp_DeleteSets = \<lparr>ds_AgeDeleteSet = entries (sl_Age sl) ReasonEligibleAge,
                           ds_SizeDeleteSet = entries (sl_Size sl) ReasonEligibleSize\<rparr>,
          cp_OrderedActions = actionsFor (sl_Age sl) (sl_Size sl),
          cp_ByteAccounting =
            \<lparr>ba_InitialRegularFileBytes = sl_Initial sl, ba_AgeDeleteBytes = sl_AgeBytes sl,
             ba_SizeDeleteBytes = sl_SizeBytes sl, ba_PlannedDeleteBytes = sl_Planned sl,
             ba_ProjectedRegularFileBytes = sl_Projected sl, ba_TargetBytes = target,
             ba_TargetReached = (sl_Projected sl \<le> target)\<rparr>,
          cp_OutcomeReasons = (if sl_Projected sl > target then [ReasonTargetProtected] else []),
          cp_PlanHash = '''', cp_ApplyIdentity = None\<rparr>)"

definition Plan :: "(string \<Rightarrow> string) \<Rightarrow> RetentionSnapshot \<Rightarrow> clean_error + CleanPlan" where
  "Plan uq s =
     (case check_snapshot s of
        Some e \<Rightarrow> Inl e
      | None \<Rightarrow>
          (case protect_runs s of
             Inl e \<Rightarrow> Inl e
           | Inr (st, protection) \<Rightarrow>
               (case select_runs s st of
                  Inl e \<Rightarrow> Inl e
                | Inr sl \<Rightarrow>
                    let plan = build_plan s protection sl
                    in case PlanHash uq plan of
                         Inl e \<Rightarrow> Inl e
                       | Inr h \<Rightarrow> Inr (plan\<lparr>cp_PlanHash := h\<rparr>))))"

end
