(* ===== verification/Clean_Safety.thy ===== *)
theory Clean_Safety
  imports Clean_Plan
begin

text \<open>
  Which runs the cleanup planner may delete. A retention state only grows; every phase protects the
  runs it is about, and a run is selected only when nothing protects it. Together: a run that is
  kept, active, uncommitted, corrupt or without a completion time is never deleted, no run is
  deleted that a retained run descends from, and an edge to an unknown run stops every deletion.
\<close>

section \<open>Retention states grow\<close>

definition grows :: "retention \<Rightarrow> retention \<Rightarrow> bool" where
  "grows st st' \<longleftrightarrow>
     (\<forall>i. set (rt_Protected st i) \<subseteq> set (rt_Protected st' i)) \<and> set (rt_Seed st) \<subseteq> set (rt_Seed st')"

definition guarded :: "retention \<Rightarrow> string \<Rightarrow> bool" where
  "guarded st i \<longleftrightarrow> rt_Protected st i \<noteq> []"

definition retained :: "retention \<Rightarrow> string \<Rightarrow> bool" where
  "retained st i \<longleftrightarrow> guarded st i \<and> i \<in> set (rt_Seed st)"

lemma grows_refl [simp]: "grows st st"
  by (simp add: grows_def)

lemma grows_trans: "grows a b \<Longrightarrow> grows b c \<Longrightarrow> grows a c"
  unfolding grows_def by blast

lemma grows_guarded: "guarded st i \<Longrightarrow> grows st st' \<Longrightarrow> guarded st' i"
  by (metis grows_def guarded_def set_empty subset_empty)

lemma grows_retained: "retained st i \<Longrightarrow> grows st st' \<Longrightarrow> retained st' i"
  using grows_guarded by (auto simp: retained_def grows_def)

lemma protect_grows [simp]: "grows st (protect known i reason st)"
  by (auto simp: grows_def protect_def)

lemma retain_grows [simp]: "grows st (retain known i reason st)"
  using protect_grows [of st known i reason] by (auto simp: grows_def retain_def Let_def)

lemma grows_retain: "grows a b \<Longrightarrow> grows a (retain known i reason b)"
  by (erule grows_trans) (rule retain_grows)

lemma protect_guards: "i \<in> set known \<Longrightarrow> guarded (protect known i reason st) i"
  by (simp add: guarded_def protect_def)

lemma retain_retains: "i \<in> set known \<Longrightarrow> retained (retain known i reason st) i"
  using protect_guards [of i known reason st] by (simp add: retained_def retain_def Let_def guarded_def)

text \<open>The two rules for the loops of the planner.\<close>

lemma fold_grows: "(\<And>x st. grows st (f x st)) \<Longrightarrow> grows st (fold f xs st)"
  by (induction xs arbitrary: st) (auto intro: grows_trans)

lemma fold_establishes:
  assumes "\<And>x st. grows st (f x st)" "\<And>st. P (f x st)" "\<And>st st'. P st \<Longrightarrow> grows st st' \<Longrightarrow> P st'"
  shows "x \<in> set xs \<Longrightarrow> P (fold f xs st)"
proof (induction xs arbitrary: st)
  case (Cons y ys)
  have "P (f x st')" "grows (f x st') (fold f ys (f x st'))" for st'
    using assms(1,2) by (auto intro: fold_grows)
  then have "P (fold f ys (f x st))" by (rule assms(3))
  with Cons show ?case by auto
qed simp

lemma retain_all:
  "i \<in> set is \<Longrightarrow> i \<in> set known \<Longrightarrow> retained (fold (\<lambda>i. retain known i reason) is st) i"
  by (rule fold_establishes [where P = "\<lambda>st. retained st i" and x = i])
    (auto intro: retain_retains grows_retained)

section \<open>The phases\<close>

lemma keep_runs_result:
  "keep_runs known is st = Inr st' \<Longrightarrow> grows st st' \<and> (\<forall>i \<in> set is. i \<in> set known \<and> retained st' i)"
proof (induction known "is" st rule: keep_runs.induct)
  case (2 known i "is" st)
  then have rest: "grows (retain known i ReasonProtectedExplicit st) st'" "i \<in> set known"
    "\<forall>j \<in> set is. j \<in> set known \<and> retained st' j" by (auto split: if_splits)
  have "retained st' i" using rest(1,2) retain_retains grows_retained by blast
  moreover have "grows st st'" by (rule grows_trans [OF retain_grows rest(1)])
  ultimately show ?case using rest by simp
qed simp

definition seed_reason :: "RunObservation \<Rightarrow> bool" where
  "seed_reason r \<longleftrightarrow>
     ob_Active r \<or> ob_Corrupt r \<or>
     (if RunObservation_kind r = RunKindPublication then \<not> ob_Committed r
      else RunObservation_kind r = RunKindDiagnosticOnly \<and> ob_DiagnosticProtected r)"

lemma observe_run_grows: "grows st (observe_run known r st)"
  unfolding observe_run_def Let_def by (auto intro!: grows_retain)

lemma observe_run_retains:
  assumes "seed_reason r" "ob_RunID r \<in> set known"
  shows "retained (observe_run known r st) (ob_RunID r)"
proof -
  let ?keep = "retain known (ob_RunID r)"
  have now: "retained (?keep reason x) (ob_RunID r)" for reason x
    using assms(2) by (rule retain_retains)
  have later: "retained (?keep reason x) (ob_RunID r)" if "retained x (ob_RunID r)" for reason x
    using that by (rule grows_retained) simp
  show ?thesis using assms(1) now later 
    by (auto simp: observe_run_def Let_def seed_reason_def uncommitted_def split: if_splits)
qed

lemma observe_runs_result:
  "grows st (observe_runs known runs st)"
  "r \<in> set runs \<Longrightarrow> seed_reason r \<Longrightarrow> ob_RunID r \<in> set known \<Longrightarrow>
     retained (observe_runs known runs st) (ob_RunID r)"
  unfolding observe_runs_def
  by (rule fold_grows, rule observe_run_grows)
    (rule fold_establishes [where P = "\<lambda>st. retained st (ob_RunID r)"],
      auto intro: observe_run_grows observe_run_retains grows_retained)

lemma missing_times_result:
  "grows st (missing_times known runs st)"
  "r \<in> set runs \<Longrightarrow> RunObservation_completion r = None \<Longrightarrow> ob_RunID r \<in> set known \<Longrightarrow>
     guarded (missing_times known runs st) (ob_RunID r)"
  unfolding missing_times_def
  by (rule fold_grows, simp)
    (rule fold_establishes [where P = "\<lambda>st. guarded st (ob_RunID r)"],
      auto intro: protect_guards grows_guarded)

lemma protect_ancestors_acc:
  "fst (protect_ancestors known graph seeds acc) =
   fold (\<lambda>d st. fold (\<lambda>a. protect known (ap_AncestorRunID a) ReasonAncestor) (ancestors_of graph d) st)
     seeds (fst acc)"
  unfolding protect_ancestors_def by (induction seeds arbitrary: acc) (simp_all add: Let_def)

lemma protect_found_grows:
  "grows st (fold (\<lambda>a. protect known (ap_AncestorRunID a) ReasonAncestor) found st)"
  by (rule fold_grows) simp

lemma protect_ancestors_result:
  "grows (fst acc) (fst (protect_ancestors known graph seeds acc))"
  "d \<in> set seeds \<Longrightarrow> a \<in> ap_AncestorRunID ` set (ancestors_of graph d) \<Longrightarrow> a \<in> set known \<Longrightarrow>
     guarded (fst (protect_ancestors known graph seeds acc)) a"
proof -
  show "grows (fst acc) (fst (protect_ancestors known graph seeds acc))"
    unfolding protect_ancestors_acc by (rule fold_grows) (rule protect_found_grows)
  assume d: "d \<in> set seeds" and a: "a \<in> ap_AncestorRunID ` set (ancestors_of graph d)" "a \<in> set known"
  from a obtain x where x: "x \<in> set (ancestors_of graph d)" "a = ap_AncestorRunID x" by blast
  have "guarded (fold (\<lambda>a. protect known (ap_AncestorRunID a) ReasonAncestor) (ancestors_of graph d) st) a" for st
    using x a(2) by (intro fold_establishes [where P = "\<lambda>st. guarded st a" and x = x])
      (auto intro: protect_guards grows_guarded)
  then show "guarded (fst (protect_ancestors known graph seeds acc)) a"
    unfolding protect_ancestors_acc using d
    by (intro fold_establishes [where P = "\<lambda>st. guarded st a" and x = d])
      (auto intro: protect_found_grows grows_guarded)
qed

section \<open>Anomalies\<close>

lemma appendEdgeRef_not_Nil [simp]: "appendEdgeRef refs r \<noteq> []"
proof -
  have "sortRefs (refs @ [r]) \<noteq> []" by (metis set_empty set_sortRefs snoc_eq_iff_butlast)
  then show ?thesis by (auto simp: appendEdgeRef_def)
qed

lemma dangling_refs_Nil: "dangling_refs known es = [] \<longleftrightarrow> (\<forall>e \<in> set es. both_known known e)"
proof -
  have "fold (\<lambda>e refs. if both_known known e then refs else appendEdgeRef refs (edge_ref e)) es refs = []
      \<longleftrightarrow> refs = [] \<and> (\<forall>e \<in> set es. both_known known e)" for refs
    by (induction es arbitrary: refs) auto
  then show ?thesis by (simp add: dangling_refs_def)
qed

lemma touching_known:
  assumes "\<forall>e \<in> set es. both_known known e" "x \<in> set known" "(x, y) \<in> (touching es)\<^sup>*"
  shows "y \<in> set known"
  using assms(3,2) by induction (use assms(1) in \<open>auto simp: touching_def both_known_def\<close>)

text \<open>The runs seen so far are retained and closed under the edges.\<close>

definition anomaly_inv :: "string list \<Rightarrow> edges \<Rightarrow> anomalies \<Rightarrow> bool" where
  "anomaly_inv known es st \<longleftrightarrow>
     (\<forall>i \<in> set (an_Seen st). retained (an_Retention st) i) \<and> touching es `` set (an_Seen st) \<subseteq> set (an_Seen st)"

lemma anomaly_edge_step:
  assumes inv: "anomaly_inv known es st" and both: "\<forall>e \<in> set es. both_known known e"
    and e: "e \<in> set es" and ids: "le_ParentRunID e \<noteq> ''''"
  shows "anomaly_inv known es (anomaly_edge known es e st) \<and>
    grows (an_Retention st) (an_Retention (anomaly_edge known es e st)) \<and>
    set (an_Seen st) \<subseteq> set (an_Seen (anomaly_edge known es e st)) \<and>
    (le_Valid e \<or> le_ParentRunID e \<in> set (an_Seen (anomaly_edge known es e st)))"
proof (cases "le_Valid e \<or> le_ParentRunID e \<in> set (an_Seen st)")
  case True
  have "both_known known e" using both e by blast
  with True inv ids show ?thesis
    by (auto simp: anomaly_edge_def anomaly_inv_def both_known_def Let_def)
next
  case False
  let ?p = "le_ParentRunID e"
  let ?ids = "fst (component ?p es)"
  let ?st = "fold (\<lambda>i. retain known i ReasonGraphAnomaly) ?ids (an_Retention st)"
  have known: "?p \<in> set known" using both e by (simp add: both_known_def)
  have comp: "set ?ids = (touching es)\<^sup>* `` {?p}" using component_connected by blast
  have st': "anomaly_edge known es e st =
      \<lparr>an_Retention = ?st, an_Components = an_Components st @
         [\<lparr>ga_AffectedRunIDs = ?ids, ga_LineageEdgeRefs = appendEdgeRef (snd (component ?p es)) (edge_ref e)\<rparr>],
       an_Seen = ?ids @ an_Seen st\<rparr>"
    using False known ids by (simp add: anomaly_edge_def Let_def)
  have grows: "grows (an_Retention st) ?st" by (rule fold_grows) simp
  have "retained ?st i" if "i \<in> set ?ids" for i
    using that comp touching_known [OF both known] by (intro retain_all) auto
  moreover have "retained ?st i" if "i \<in> set (an_Seen st)" for i
    using that inv grows by (auto simp: anomaly_inv_def intro: grows_retained)
  moreover have "touching es `` set ?ids \<subseteq> set ?ids"
    unfolding comp by (auto intro: rtrancl_into_rtrancl)
  ultimately have "anomaly_inv known es (anomaly_edge known es e st)"
    using inv unfolding st' anomaly_inv_def by auto
  moreover have "?p \<in> set ?ids" unfolding comp by simp
  ultimately show ?thesis using grows unfolding st' by auto
qed

lemma anomaly_fold:
  assumes both: "\<forall>e \<in> set es. both_known known e" and ids: "\<forall>e \<in> set es. le_ParentRunID e \<noteq> ''''"
  shows "set fs \<subseteq> set es \<Longrightarrow> anomaly_inv known es st \<Longrightarrow>
    let st' = fold (anomaly_edge known es) fs st in
      anomaly_inv known es st' \<and> grows (an_Retention st) (an_Retention st') \<and>
      set (an_Seen st) \<subseteq> set (an_Seen st') \<and>
      (\<forall>e \<in> set fs. le_Valid e \<or> le_ParentRunID e \<in> set (an_Seen st'))"
proof (induction fs arbitrary: st)
  case (Cons f fs)
  from Cons.prems(1) have f: "f \<in> set es" "le_ParentRunID f \<noteq> ''''" using ids by auto
  note step = anomaly_edge_step [OF Cons.prems(2) both f]
  from Cons.IH [of "anomaly_edge known es f st"] Cons.prems(1) step show ?case
    by (auto simp: Let_def intro: grows_trans)
qed (simp add: Let_def)

text \<open>
  After the anomaly phase: with an edge to an unknown run every run is retained; otherwise every run
  connected to the parent of an invalid edge is.
\<close>

lemma anomaly_components_result:
  assumes res: "anomaly_components known es st = (st', comps)"
    and ids: "\<forall>e \<in> set es. le_ParentRunID e \<noteq> ''''"
  shows "grows st st' \<and>
    ((\<exists>e \<in> set es. \<not> both_known known e) \<longrightarrow> (\<forall>i \<in> set known. retained st' i)) \<and>
    ((\<forall>e \<in> set es. both_known known e) \<longrightarrow>
       (\<forall>e \<in> set es. \<not> le_Valid e \<longrightarrow> (\<forall>i. (le_ParentRunID e, i) \<in> (touching es)\<^sup>* \<longrightarrow> retained st' i)))"
proof (cases "dangling_refs known es = []")
  case False
  then have "st' = fold (\<lambda>i. retain known i ReasonGraphAnomaly) (sortedKeys known) st"
    using res by (simp add: anomaly_components_def Let_def)
  with False show ?thesis
    using retain_all [of _ "sortedKeys known" known ReasonGraphAnomaly st]
    by (auto simp: dangling_refs_Nil sortedKeys_def intro: fold_grows)
next
  case True
  then have both: "\<forall>e \<in> set es. both_known known e" by (simp add: dangling_refs_Nil)
  then have "linked known es = es" by (simp add: linked_def both_known_def)
  let ?start = "\<lparr>an_Retention = st, an_Components = [], an_Seen = []\<rparr>"
  have "anomaly_inv known es ?start" by (simp add: anomaly_inv_def)
  from anomaly_fold [OF both ids subset_refl this] \<open>linked known es = es\<close> res True
  obtain done_st where d: "anomaly_inv known es done_st" "grows st st'" "st' = an_Retention done_st"
    "\<forall>e \<in> set es. le_Valid e \<or> le_ParentRunID e \<in> set (an_Seen done_st)"
    by (auto simp: anomaly_components_def Let_def)
  have "retained st' i" if "e \<in> set es" "\<not> le_Valid e" "(le_ParentRunID e, i) \<in> (touching es)\<^sup>*" for e i
  proof -
    have "i \<in> set (an_Seen done_st)"
      using d(1,4) that closed_rtrancl [of "touching es"] unfolding anomaly_inv_def by blast
    with d(1,3) show ?thesis by (simp add: anomaly_inv_def)
  qed
  with d both show ?thesis by blast
qed

section \<open>The protection phase as a whole\<close>

text \<open>The runs that the planner retains for what was observed of them, or by request.\<close>

definition seed_run :: "RetentionSnapshot \<Rightarrow> string \<Rightarrow> bool" where
  "seed_run s i \<longleftrightarrow> i \<in> set (po_ExplicitKeepRunIDs (sn_Policy s)) \<or>
     (\<exists>r \<in> set (sn_Runs s). ob_RunID r = i \<and> seed_reason r)"

lemma path_split:
  assumes "(d, a) \<in> r\<^sup>*"
  shows "(d, a) \<in> q\<^sup>* \<or> (\<exists>x y. (x, y) \<in> r - q \<and> (y, a) \<in> r\<^sup>*)"
  using assms
proof (induction rule: converse_rtrancl_induct)
  case (step x y)
  then show ?case by (cases "(x, y) \<in> q") (auto intro: converse_rtrancl_into_rtrancl)
qed simp

text \<open>A valid edge of the snapshot is still there after the checks, valid or not.\<close>

lemma checked_edge:
  assumes "weakens es (sortEdges es0)" "(x, y) \<in> lineage es0"
  shows "\<exists>f \<in> set es. le_ChildRunID f = x \<and> le_ParentRunID f = y"
proof -
  from assms(2) obtain e where e: "e \<in> set es0" "x = le_ChildRunID e" "y = le_ParentRunID e"
    by (auto simp: lineage_def)
  then have "edge_ref e \<in> set (map edge_ref (sortEdges es0))" by simp
  then have "edge_ref e \<in> set (map edge_ref es)" using weakens_refs [OF assms(1)] by simp
  then obtain f where "f \<in> set es" "edge_ref e = edge_ref f" by auto
  with e show ?thesis by (metis edge_ref_simps(1,2))
qed

lemma lineage_touching:
  assumes "weakens es (sortEdges es0)"
  shows "(x, y) \<in> (lineage es0)\<^sup>* \<Longrightarrow> (x, y) \<in> (touching es)\<^sup>*"
proof -
  have "lineage es0 \<subseteq> touching es"
    using checked_edge [OF assms] by (fastforce simp: touching_def)
  then show "(x, y) \<in> (lineage es0)\<^sup>* \<Longrightarrow> (x, y) \<in> (touching es)\<^sup>*" using rtrancl_mono by blast
qed

lemma checked_edges_known:
  assumes "weakens es (sortEdges es0)"
  shows "(\<forall>e \<in> set es. both_known known e) \<longleftrightarrow> (\<forall>e \<in> set es0. both_known known e)"
proof -
  have refs: "(\<forall>e \<in> set fs. both_known known e) \<longleftrightarrow>
      (\<forall>r \<in> set (map edge_ref fs). le_ParentRunID r \<in> set known \<and> le_ChildRunID r \<in> set known)" for fs
    by (simp add: both_known_def)
  have "(\<forall>e \<in> set es. both_known known e) \<longleftrightarrow> (\<forall>e \<in> set (sortEdges es0). both_known known e)"
    unfolding refs [of es] refs [of "sortEdges es0"] weakens_refs [OF assms] ..
  then show ?thesis by simp
qed

lemma protect_runs_parts:
  assumes "protect_runs s = Inr (final, protection)"
  obtains kept es marked comps aged ancestors where
    "keep_runs (known_ids s) (po_ExplicitKeepRunIDs (sn_Policy s)) no_retention = Inr kept"
    "checked_edges (sn_Edges s) = Inr es"
    "anomaly_components (known_ids s) es (observe_runs (known_ids s) (sn_Runs s) kept) = (marked, comps)"
    "protect_ancestors (known_ids s) (linked (known_ids s) es) (sortedKeys (rt_Seed marked)) (marked, []) =
       (aged, ancestors)"
    "final = missing_times (known_ids s) (sn_Runs s) aged"
  using assms by (auto simp: protect_runs_def Let_def split: sum.splits if_splits prod.splits)

lemma protect_runs_guards:
  assumes "protect_runs s = Inr (final, protection)"
  shows "(\<forall>r \<in> set (sn_Runs s). RunObservation_completion r = None \<longrightarrow> guarded final (ob_RunID r)) \<and>
    (\<forall>d. seed_run s d \<longrightarrow> retained final d) \<and>
    ((\<exists>e \<in> set (sn_Edges s). \<not> both_known (known_ids s) e) \<longrightarrow> (\<forall>i \<in> set (known_ids s). guarded final i)) \<and>
    (\<forall>d a. seed_run s d \<longrightarrow> (d, a) \<in> (lineage (sn_Edges s))\<^sup>* \<longrightarrow> a \<in> set (known_ids s) \<longrightarrow> guarded final a)"
proof -
  let ?known = "known_ids s" and ?keep = "po_ExplicitKeepRunIDs (sn_Policy s)"
  from protect_runs_parts [OF assms] obtain kept es marked comps aged ancestors where
    kept: "keep_runs ?known ?keep no_retention = Inr kept"
    and es: "checked_edges (sn_Edges s) = Inr es"
    and marked: "anomaly_components ?known es (observe_runs ?known (sn_Runs s) kept) = (marked, comps)"
    and aged: "protect_ancestors ?known (linked ?known es) (sortedKeys (rt_Seed marked)) (marked, []) = (aged, ancestors)"
    and final: "final = missing_times ?known (sn_Runs s) aged" .
  note edges = checked_edges_Inr [OF es]
  have weak: "weakens es (sortEdges (sn_Edges s))" using edges by blast
  have parent: "le_ParentRunID f \<noteq> ''''" if "f \<in> set es" for f
  proof -
    have "edge_ref f \<in> set (map edge_ref (sortEdges (sn_Edges s)))"
      using that weakens_refs [OF weak] by (metis image_eqI set_map)
    then obtain e where "e \<in> set (sn_Edges s)" "edge_ref f = edge_ref e" by auto
    then show ?thesis
      using edges canonicalRunID_not_Nil edge_ref_simps(1) unfolding edge_identity_ok_def by metis
  qed
  note anom = anomaly_components_result [OF marked]
  have grow: "grows kept final" "grows marked final"
    using observe_runs_result(1) [of kept ?known "sn_Runs s"] anom parent
      protect_ancestors_result(1) [of "(marked, [])" ?known "linked ?known es" "sortedKeys (rt_Seed marked)"]
      missing_times_result(1) [of aged ?known "sn_Runs s"] aged
    unfolding final by (auto intro: grows_trans)
  have run_known: "ob_RunID r \<in> set ?known" if "r \<in> set (sn_Runs s)" for r
    using that by (simp add: known_ids_def)
  have seeds: "retained marked d" if "seed_run s d" for d
  proof (cases "d \<in> set ?keep")
    case True
    then show ?thesis
      using keep_runs_result [OF kept] observe_runs_result(1) [of kept ?known "sn_Runs s"] anom parent
      by (meson grows_retained)
  next
    case False
    with that obtain r where "r \<in> set (sn_Runs s)" "ob_RunID r = d" "seed_reason r"
      by (auto simp: seed_run_def)
    then show ?thesis
      using observe_runs_result(2) [of r "sn_Runs s" ?known kept] run_known anom parent
      by (meson grows_retained)
  qed
  have lost: "\<forall>i \<in> set ?known. guarded final i" if "\<exists>e \<in> set (sn_Edges s). \<not> both_known ?known e"
    using that anom parent grow(2) checked_edges_known [OF weak, of ?known]
    by (metis grows_guarded retained_def)
  have ancestor: "guarded final a"
    if d: "seed_run s d" and path: "(d, a) \<in> (lineage (sn_Edges s))\<^sup>*" and a: "a \<in> set ?known" for d a
  proof (cases "\<exists>e \<in> set (sn_Edges s). \<not> both_known ?known e")
    case True
    with lost a show ?thesis by blast
  next
    case False
    then have both: "\<forall>e \<in> set es. both_known ?known e" using checked_edges_known [OF weak] by blast
    then have link: "linked ?known es = es" by (simp add: linked_def both_known_def)
    from path_split [OF path, of "lineage es"] show ?thesis
    proof
      assume up: "(d, a) \<in> (lineage es)\<^sup>*"
      show ?thesis
      proof (cases "a = d")
        case True
        with seeds [OF d] grow(2) show ?thesis by (auto simp: retained_def intro: grows_guarded)
      next
        case False
        with up have "a \<in> ap_AncestorRunID ` set (ancestors_of es d)"
          by (intro ancestors_of_complete) (auto dest: rtranclD)
        moreover have "d \<in> set (sortedKeys (rt_Seed marked))"
          using seeds [OF d] by (simp add: retained_def sortedKeys_def)
        ultimately have "guarded (fst (aged, ancestors)) a"
          using protect_ancestors_result(2) [of d _ a es ?known "(marked, [])"] aged a
          unfolding link by metis
        then show ?thesis
          using missing_times_result(1) unfolding final by (auto intro: grows_guarded)
      qed
    next
      assume "\<exists>x y. (x, y) \<in> lineage (sn_Edges s) - lineage es \<and> (y, a) \<in> (lineage (sn_Edges s))\<^sup>*"
      then obtain x y where xy: "(x, y) \<in> lineage (sn_Edges s)" "(x, y) \<notin> lineage es"
        and ya: "(y, a) \<in> (lineage (sn_Edges s))\<^sup>*" by blast
      from checked_edge [OF weak xy(1)] obtain f where f: "f \<in> set es" "le_ChildRunID f = x" "le_ParentRunID f = y"
        by blast
      with xy(2) have "\<not> le_Valid f" by (auto simp: lineage_def)
      moreover have "(le_ParentRunID f, a) \<in> (touching es)\<^sup>*" using lineage_touching [OF weak ya] f by simp
      ultimately have "retained marked a" using anom parent both f(1) by blast
      with grow(2) show ?thesis by (auto simp: retained_def intro: grows_guarded)
    qed
  qed
  have "guarded final (ob_RunID r)" if "r \<in> set (sn_Runs s)" "RunObservation_completion r = None" for r
    using missing_times_result(2) [OF that run_known [OF that(1)]] final by simp
  moreover have "retained final d" if "seed_run s d" for d
    using seeds [OF that] grow(2) by (rule grows_retained)
  ultimately show ?thesis using lost ancestor by blast
qed

section \<open>Only unguarded runs are selected\<close>

lemma classify_runs_result:
  "classify_runs age_cut size_cut runs st = (age, bulk, st') \<Longrightarrow>
   (\<forall>r \<in> set age. r \<in> set runs \<and> \<not> guarded st (ob_RunID r) \<and>
      (\<exists>t. RunObservation_completion r = Some t \<and> time_Before t age_cut)) \<and>
   (\<forall>r \<in> set bulk. r \<in> set runs \<and> \<not> guarded st (ob_RunID r) \<and>
      (\<exists>t. RunObservation_completion r = Some t \<and> \<not> time_Before t age_cut \<and> \<not> time_After t size_cut)) \<and>
   grows st st' \<and> mset age + mset bulk \<subseteq># mset runs"
proof (induction runs arbitrary: st age bulk st')
  case (Cons r runs)
  note IH = Cons.IH and res = Cons.prems
  show ?case
  proof (cases "RunObservation_completion r = None \<or> guarded st (ob_RunID r)")
    case True
    with res have "classify_runs age_cut size_cut runs st = (age, bulk, st')"
      by (auto simp: guarded_def split: option.splits)
    from IH [OF this] show ?thesis by (auto intro: subset_mset.order_trans)
  next
    case False
    then obtain t where t: "RunObservation_completion r = Some t" "\<not> guarded st (ob_RunID r)" by auto
    show ?thesis
    proof (cases "\<not> time_Before t age_cut \<and> time_After t size_cut")
      case True
      let ?st = "st\<lparr>rt_Protected := (rt_Protected st)
        (ob_RunID r := addReason (rt_Protected st (ob_RunID r)) ReasonYoung)\<rparr>"
      have "classify_runs age_cut size_cut runs ?st = (age, bulk, st')"
        using res t True by (simp add: guarded_def)
      note sub = IH [OF this]
      have "grows st ?st" by (auto simp: grows_def)
      with sub show ?thesis by (auto intro: grows_trans grows_guarded subset_mset.order_trans)
    next
      case old: False
      obtain a b st1 where rest: "classify_runs age_cut size_cut runs st = (a, b, st1)"
        by (cases "classify_runs age_cut size_cut runs st")
      from IH [OF rest] show ?thesis
        using res t old rest by (auto simp: guarded_def split: if_splits)
    qed
  qed
qed simp

end
