(* ===== verification/Clean_Accounts.thy ===== *)
theory Clean_Accounts
  imports Clean_Safety
begin

text \<open>
  What a plan says: which snapshots are accepted, that the accounts are exact and nothing wraps
  around, that the runs chosen by size are the shortest prefix that reaches the target, and how
  decisions, delete sets and actions correspond.
\<close>

section \<open>Sums without overflow\<close>

definition total_bytes :: "RunObservation list \<Rightarrow> int" where
  "total_bytes rs = sum_list (map ob_RegularFileBytes rs)"

definition counted :: "RunObservation list \<Rightarrow> bool" where
  "counted rs \<longleftrightarrow> (\<forall>r \<in> set rs. 0 \<le> ob_RegularFileBytes r)"

lemma total_bytes_simps [simp]:
  "total_bytes [] = 0" "total_bytes (r # rs) = ob_RegularFileBytes r + total_bytes rs"
  "total_bytes (rs @ qs) = total_bytes rs + total_bytes qs"
  by (simp_all add: total_bytes_def)

lemma counted_simps [simp]:
  "counted []" "counted (r # rs) \<longleftrightarrow> 0 \<le> ob_RegularFileBytes r \<and> counted rs"
  "counted (rs @ qs) \<longleftrightarrow> counted rs \<and> counted qs"
  by (auto simp: counted_def)

lemma total_bytes_nonneg: "counted rs \<Longrightarrow> 0 \<le> total_bytes rs"
  by (induction rs) simp_all

lemma counted_subset: "counted rs \<Longrightarrow> set qs \<subseteq> set rs \<Longrightarrow> counted qs"
  by (auto simp: counted_def)

lemma total_bytes_sub:
  assumes "mset qs \<subseteq># mset rs" "counted rs"
  shows "total_bytes qs \<le> total_bytes rs"
proof -
  obtain ds where "mset rs = mset (qs @ ds)"
    using assms(1) by (metis ex_mset mset_append mset_subset_eq_exists_conv)
  then have "total_bytes rs = total_bytes qs + total_bytes ds" "set ds \<subseteq> set rs"
    by (metis mset_map sum_mset_sum_list total_bytes_def total_bytes_simps(3),
        metis Un_upper2 set_append set_mset_mset)
  then show ?thesis using counted_subset [OF assms(2)] total_bytes_nonneg [of ds] by simp
qed

lemma wrap64_between: "0 \<le> x \<Longrightarrow> x \<le> max_int64 \<Longrightarrow> wrap64 x = x"
  by (simp add: in_int64_nonneg)

lemma sum_bytes_exact:
  "counted rs \<Longrightarrow> 0 \<le> n \<Longrightarrow> n \<le> max_int64 \<Longrightarrow>
   sum_bytes n rs = (if n + total_bytes rs \<le> max_int64 then Some (n + total_bytes rs) else None)"
proof (induction rs arbitrary: n)
  case (Cons r rs)
  have w: "wrap64 (max_int64 - n) = max_int64 - n"
    using Cons.prems by (intro wrap64_between) simp_all
  have "0 \<le> total_bytes rs" using Cons.prems by (simp add: total_bytes_nonneg)
  moreover have "wrap64 (n + ob_RegularFileBytes r) = n + ob_RegularFileBytes r"
    if "n + ob_RegularFileBytes r \<le> max_int64"
    using that Cons.prems by (intro wrap64_between) simp_all
  ultimately show ?case
    using Cons.IH [of "n + ob_RegularFileBytes r"] Cons.prems unfolding sum_bytes.simps w by auto
qed simp

lemma checkedAdd_exact:
  assumes "0 \<le> l" "0 \<le> r" "l \<le> max_int64" "r \<le> max_int64"
  shows "checkedAdd l r = (if l + r \<le> max_int64 then Some (l + r) else None)"
proof -
  have "wrap64 (max_int64 - r) = max_int64 - r"
    using assms by (intro wrap64_between) simp_all
  moreover have "wrap64 (l + r) = l + r" if "l + r \<le> max_int64"
    using that assms by (intro wrap64_between) simp_all
  ultimately show ?thesis using assms by (auto simp: checkedAdd_def)
qed

section \<open>Selection by size\<close>

text \<open>
  The loop takes the shortest prefix of the candidates that brings the total down to the target, or
  all of them; it cannot underflow when the total covers the candidates.
\<close>

lemma select_size_exact:
  "counted rs \<Longrightarrow> total_bytes rs \<le> projected \<Longrightarrow> projected \<le> max_int64 \<Longrightarrow>
   \<exists>k \<le> length rs. select_size target projected rs =
       Inr (take k rs, projected - total_bytes (take k rs)) \<and>
     (projected - total_bytes (take k rs) \<le> target \<or> k = length rs) \<and>
     (\<forall>j < k. target < projected - total_bytes (take j rs))"
proof (induction rs arbitrary: projected)
  case (Cons r rs)
  show ?case
  proof (cases "projected \<le> target")
    case True
    then show ?thesis by (intro exI [of _ 0]) simp
  next
    case False
    have w: "wrap64 (projected - ob_RegularFileBytes r) = projected - ob_RegularFileBytes r"
      using Cons.prems total_bytes_nonneg [of rs] by (intro wrap64_between) simp_all
    have "total_bytes rs \<le> projected - ob_RegularFileBytes r" "projected - ob_RegularFileBytes r \<le> max_int64"
      using Cons.prems by simp_all
    from Cons.IH [OF _ this] Cons.prems(1) obtain k where k: "k \<le> length rs"
      "select_size target (projected - ob_RegularFileBytes r) rs =
         Inr (take k rs, projected - ob_RegularFileBytes r - total_bytes (take k rs))"
      "projected - ob_RegularFileBytes r - total_bytes (take k rs) \<le> target \<or> k = length rs"
      "\<forall>j < k. target < projected - ob_RegularFileBytes r - total_bytes (take j rs)" by auto
    have "\<not> projected < ob_RegularFileBytes r"
      using Cons.prems total_bytes_nonneg [of rs] by simp
    moreover have "target < projected - total_bytes (take j (r # rs))" if "j < Suc k" for j
      using that k(4) False by (cases j) (auto simp: algebra_simps)
    moreover have "select_size target projected (r # rs) =
        Inr (take (Suc k) (r # rs), projected - total_bytes (take (Suc k) (r # rs)))"
      using calculation(1) k(2) False unfolding select_size.simps w by simp
    ultimately show ?thesis
      using k(1,3) by (intro exI [of _ "Suc k"]) (auto simp: algebra_simps)
  qed
qed simp

section \<open>The selection as a whole\<close>

lemma check_runs_None:
  "check_runs seen rs = None \<longleftrightarrow>
     (\<forall>r \<in> set rs. canonicalRunID (ob_RunID r) \<and> canonicalSessionID (ob_SessionID r) \<and>
        0 \<le> ob_RegularFileBytes r \<and> RunObservation_kind r \<in> {RunKindPublication, RunKindDiagnosticOnly}) \<and>
     distinct (map ob_RunID rs) \<and> set (map ob_RunID rs) \<inter> set seen = {}"
  by (induction seen rs rule: check_runs.induct) (auto split: if_splits)

lemma check_runs_Some:
  "check_runs seen rs = Some e \<Longrightarrow>
     e \<in> {CleanRunIDs} \<union> range CleanNegativeBytes \<union> range CleanRunKind \<union> range CleanDuplicateRun"
  by (induction seen rs rule: check_runs.induct) (auto split: if_splits)

interpretation run_order: sort_order run_less
  by unfold_locales (auto simp: run_less_def time_Before_def time_Equal_def)

text \<open>The facts about a selection, once the snapshot has passed its checks.\<close>

definition selection_ok :: "RetentionSnapshot \<Rightarrow> retention \<Rightarrow> selection \<Rightarrow> bool" where
  "selection_ok s st sl \<longleftrightarrow>
     mset (sl_Age sl) + mset (sl_SizeCandidates sl) \<subseteq># mset (sn_Runs s) \<and>
     (\<forall>r \<in> set (sl_Age sl) \<union> set (sl_SizeCandidates sl).
        \<not> guarded st (ob_RunID r) \<and> RunObservation_completion r \<noteq> None) \<and>
     (\<forall>r \<in> set (sl_Age sl). time_Before (completion_time r)
        (cutoff (time_UTC (sn_Now s)) (po_RetentionAgeSeconds (sn_Policy s)))) \<and>
     (\<forall>r \<in> set (sl_SizeCandidates sl). \<not> time_After (completion_time r)
        (cutoff (time_UTC (sn_Now s)) (po_MinAgeForSizeSeconds (sn_Policy s)))) \<and>
     run_order.sorted_by (sl_Age sl) \<and> run_order.sorted_by (sl_SizeCandidates sl) \<and>
     sl_Initial sl = sn_ProtectedRegularFileBytes s + total_bytes (sn_Runs s) \<and>
     sl_Initial sl \<le> max_int64 \<and>
     sl_AgeBytes sl = total_bytes (sl_Age sl) \<and> sl_SizeBytes sl = total_bytes (sl_Size sl) \<and>
     sl_Planned sl = sl_AgeBytes sl + sl_SizeBytes sl \<and>
     sl_Projected sl = sl_Initial sl - sl_Planned sl \<and> 0 \<le> sl_Projected sl \<and>
     grows st (sl_Retention sl) \<and>
     (\<exists>k \<le> length (sl_SizeCandidates sl). sl_Size sl = take k (sl_SizeCandidates sl) \<and>
        (sl_Projected sl \<le> po_TargetBytes (sn_Policy s) \<or> k = length (sl_SizeCandidates sl)) \<and>
        (\<forall>j < k. po_TargetBytes (sn_Policy s) <
           sl_Initial sl - sl_AgeBytes sl - total_bytes (take j (sl_SizeCandidates sl))))"

lemma select_runs_result:
  assumes runs: "counted (sn_Runs s)" and protected: "0 \<le> sn_ProtectedRegularFileBytes s"
    and protected_max: "sn_ProtectedRegularFileBytes s \<le> max_int64"
  shows "if sn_ProtectedRegularFileBytes s + total_bytes (sn_Runs s) \<le> max_int64
    then \<exists>sl. select_runs s st = Inr sl \<and> selection_ok s st sl
    else select_runs s st = Inl CleanTotalOverflow"
proof (cases "sn_ProtectedRegularFileBytes s + total_bytes (sn_Runs s) \<le> max_int64")
  case False
  with sum_bytes_exact [OF runs protected protected_max] protected show ?thesis
    by (simp add: select_runs_def Let_def)
next
  case True
  let ?initial = "sn_ProtectedRegularFileBytes s + total_bytes (sn_Runs s)"
  let ?now = "time_UTC (sn_Now s)" and ?target = "po_TargetBytes (sn_Policy s)"
  let ?age_cut = "cutoff ?now (po_RetentionAgeSeconds (sn_Policy s))"
  let ?size_cut = "cutoff ?now (po_MinAgeForSizeSeconds (sn_Policy s))"
  obtain age0 size0 marked where cls:
    "classify_runs ?age_cut ?size_cut (sn_Runs s) st = (age0, size0, marked)"
    by (cases "classify_runs ?age_cut ?size_cut (sn_Runs s) st")
  note facts = classify_runs_result [OF cls]
  let ?age = "sortRuns age0" and ?size = "sortRuns size0"
  have sub: "mset ?age + mset ?size \<subseteq># mset (sn_Runs s)" using facts by (simp add: sortRuns_def)
  have both: "total_bytes ?age + total_bytes ?size \<le> total_bytes (sn_Runs s)"
    using total_bytes_sub [of "?age @ ?size" "sn_Runs s"] sub runs by simp
  have cnt: "counted ?age" "counted ?size"
    using counted_subset [OF runs] facts by (auto simp: sortRuns_def subset_iff)
  have nonneg: "0 \<le> total_bytes ?age" "0 \<le> total_bytes ?size" using cnt by (simp_all add: total_bytes_nonneg)
  have age: "sum_bytes 0 ?age = Some (total_bytes ?age)"
    using sum_bytes_exact [OF cnt(1), of 0] both nonneg protected True by (simp add: max_int64_def)
  have rest: "wrap64 (?initial - total_bytes ?age) = ?initial - total_bytes ?age"
    using both nonneg protected True by (intro wrap64_between) simp_all
  have "total_bytes ?size \<le> ?initial - total_bytes ?age" "?initial - total_bytes ?age \<le> max_int64"
    using both nonneg protected True by simp_all
  from select_size_exact [OF cnt(2) this, of ?target] obtain k where k: "k \<le> length ?size"
    "select_size ?target (?initial - total_bytes ?age) ?size =
       Inr (take k ?size, ?initial - total_bytes ?age - total_bytes (take k ?size))"
    "?initial - total_bytes ?age - total_bytes (take k ?size) \<le> ?target \<or> k = length ?size"
    "\<forall>j < k. ?target < ?initial - total_bytes ?age - total_bytes (take j ?size)" by blast
  have split: "total_bytes (take k ?size) + total_bytes (drop k ?size) = total_bytes ?size"
    by (metis append_take_drop_id total_bytes_simps(3))
  have cut: "counted (take k ?size)" "counted (drop k ?size)"
    using counted_subset [OF cnt(2)] set_take_subset set_drop_subset by metis+
  have parts: "0 \<le> total_bytes (take k ?size)" "0 \<le> total_bytes (drop k ?size)" using cut by (simp_all add: total_bytes_nonneg)
  have size: "sum_bytes 0 (take k ?size) = Some (total_bytes (take k ?size))"
    using sum_bytes_exact [OF cut(1), of 0] both nonneg parts split protected True
    by (simp add: max_int64_def)
  have planned: "checkedAdd (total_bytes ?age) (total_bytes (take k ?size)) =
      Some (total_bytes ?age + total_bytes (take k ?size))"
    using checkedAdd_exact [of "total_bytes ?age" "total_bytes (take k ?size)"] both nonneg parts split protected True
    by simp
  let ?sl = "\<lparr>sl_Retention = marked, sl_Age = ?age, sl_SizeCandidates = ?size, sl_Size = take k ?size,
    sl_Initial = ?initial, sl_AgeBytes = total_bytes ?age, sl_SizeBytes = total_bytes (take k ?size),
    sl_Projected = ?initial - total_bytes ?age - total_bytes (take k ?size),
    sl_Planned = total_bytes ?age + total_bytes (take k ?size)\<rparr>"
  have "select_runs s st = Inr ?sl"
    using sum_bytes_exact [OF runs protected protected_max] True protected cls age rest k(2) size planned
    by (simp add: select_runs_def Let_def)
  moreover have "selection_ok s st ?sl"
  proof -
    have "0 \<le> ?initial - total_bytes ?age - total_bytes (take k ?size)"
      using both parts split protected by simp
    moreover have "run_order.sorted_by ?age" "run_order.sorted_by ?size"
      unfolding sortRuns_def by (rule run_order.sorted_sort_slice)+
    ultimately show ?thesis
      using sub facts k True by (auto simp: selection_ok_def sortRuns_def completion_time_def)
  qed
  ultimately show ?thesis using True by auto
qed

section \<open>Which snapshots are accepted\<close>

definition run_ok :: "RunObservation \<Rightarrow> bool" where
  "run_ok r \<longleftrightarrow> canonicalRunID (ob_RunID r) \<and> canonicalSessionID (ob_SessionID r) \<and>
     0 \<le> ob_RegularFileBytes r \<and> RunObservation_kind r \<in> {RunKindPublication, RunKindDiagnosticOnly}"

definition seconds_ok :: "int64 \<Rightarrow> bool" where
  "seconds_ok x \<longleftrightarrow> 0 \<le> x \<and> x \<le> max_policy_seconds"

definition inputs_ok :: "RetentionSnapshot \<Rightarrow> bool" where
  "inputs_ok s \<longleftrightarrow> \<not> time_IsZero (sn_Now s) \<and>
     validateSnapshotIdentity (sn_StoreEpoch s) (sn_InputPolicySHA256 s) = None \<and>
     seconds_ok (po_RetentionAgeSeconds (sn_Policy s)) \<and>
     seconds_ok (po_MinAgeForSizeSeconds (sn_Policy s)) \<and> 0 \<le> po_TargetBytes (sn_Policy s) \<and>
     (\<forall>r \<in> set (sn_Runs s). run_ok r) \<and> distinct (known_ids s)"

definition snapshot_ok :: "RetentionSnapshot \<Rightarrow> bool" where
  "snapshot_ok s \<longleftrightarrow> inputs_ok s \<and>
     set (po_ExplicitKeepRunIDs (sn_Policy s)) \<subseteq> set (known_ids s) \<and>
     (\<forall>e \<in> set (sn_Edges s). edge_identity_ok e \<and> canonicalEdgePath (le_EdgePath e)) \<and>
     0 \<le> sn_ProtectedRegularFileBytes s \<and>
     sn_ProtectedRegularFileBytes s + total_bytes (sn_Runs s) \<le> max_int64"

text \<open>The errors that say what is wrong with the input; the others report a fault of the planner.\<close>

fun input_error :: "clean_error \<Rightarrow> bool" where
  "input_error CleanAgeOverflow = False"
| "input_error CleanProjectedUnderflow = False"
| "input_error CleanSizeOverflow = False"
| "input_error CleanPlannedOverflow = False"
| "input_error (CleanSchemaVersion v) = False"
| "input_error CleanNotDryRun = False"
| "input_error CleanHashMismatch = False"
| "input_error CleanFuel = False"
| "input_error e = True"

lemma check_snapshot_None: "check_snapshot s = None \<longleftrightarrow> inputs_ok s"
  by (auto simp: check_snapshot_def inputs_ok_def seconds_ok_def check_runs_None known_ids_def run_ok_def
      split: option.splits if_splits)

lemma check_snapshot_input_error: "check_snapshot s = Some e \<Longrightarrow> input_error e"
  using check_runs_Some [of "[]" "sn_Runs s" e]
  by (auto simp: check_snapshot_def validateSnapshotIdentity_def split: option.splits if_splits)

lemma keep_runs_Inr:
  "(\<exists>st'. keep_runs known is st = Inr st') \<longleftrightarrow> (\<forall>i \<in> set is. canonicalRunID i \<and> i \<in> set known)"
  by (induction known "is" st rule: keep_runs.induct) auto

lemma keep_runs_input_error: "keep_runs known is st = Inl e \<Longrightarrow> input_error e"
  by (induction known "is" st rule: keep_runs.induct) (auto split: if_splits)

lemma checked_edges_accepts:
  "(\<exists>es. checked_edges fs = Inr es) \<longleftrightarrow>
   (\<forall>e \<in> set fs. edge_identity_ok e \<and> canonicalEdgePath (le_EdgePath e))"
  using checked_edges_Inl [of fs] checked_edges_Inr [of fs] by (cases "checked_edges fs") blast+

lemma protect_runs_accepts:
  assumes "inputs_ok s"
  shows "(\<exists>st protection. protect_runs s = Inr (st, protection)) \<longleftrightarrow>
     set (po_ExplicitKeepRunIDs (sn_Policy s)) \<subseteq> set (known_ids s) \<and>
     (\<forall>e \<in> set (sn_Edges s). edge_identity_ok e \<and> canonicalEdgePath (le_EdgePath e))" (is "?l \<longleftrightarrow> ?r")
proof
  assume ?l
  then obtain st protection where "protect_runs s = Inr (st, protection)" by blast
  from protect_runs_parts [OF this] show ?r
    using keep_runs_result checked_edges_accepts by (metis subsetI)
next
  assume r: ?r
  have canonical: "canonicalRunID i" if "i \<in> set (known_ids s)" for i
    using that assms by (auto simp: inputs_ok_def known_ids_def run_ok_def)
  obtain kept where kept:
    "keep_runs (known_ids s) (po_ExplicitKeepRunIDs (sn_Policy s)) no_retention = Inr kept"
    using keep_runs_Inr r canonical by (metis subset_eq)
  obtain es where es: "checked_edges (sn_Edges s) = Inr es" using checked_edges_accepts r by blast
  have "list_all (\<lambda>e. canonicalEdgePath (le_EdgePath e)) es"
  proof -
    have "edge_ref f \<in> set (map edge_ref (sortEdges (sn_Edges s)))" if "f \<in> set es" for f
      using that checked_edges_Inr [OF es] weakens_refs by (metis image_eqI set_map)
    then have "\<exists>e \<in> set (sn_Edges s). le_EdgePath f = le_EdgePath e" if "f \<in> set es" for f
      using that edge_ref_simps(3) by (fastforce dest: arg_cong [of _ _ le_EdgePath])
    with r show ?thesis by (fastforce simp: list_all_iff)
  qed
  with kept es show ?l by (auto simp: protect_runs_def Let_def split: prod.split)
qed

lemma protect_runs_input_error: "protect_runs s = Inl e \<Longrightarrow> input_error e"
  by (auto simp: protect_runs_def Let_def dest: keep_runs_input_error checked_edges_Inl
      split: sum.splits if_splits prod.splits)

lemma select_runs_input_error:
  assumes "inputs_ok s" "in_int64 (sn_ProtectedRegularFileBytes s)" "select_runs s st = Inl e"
  shows "input_error e \<and> \<not> (0 \<le> sn_ProtectedRegularFileBytes s \<and>
    sn_ProtectedRegularFileBytes s + total_bytes (sn_Runs s) \<le> max_int64)"
proof (cases "0 \<le> sn_ProtectedRegularFileBytes s")
  case True
  have "counted (sn_Runs s)" using assms(1) by (auto simp: inputs_ok_def counted_def run_ok_def)
  from select_runs_result [OF this True, of st] assms(2,3) show ?thesis
    by (auto simp: in_int64_def split: if_splits)
next
  case False
  with assms(3) show ?thesis by (simp add: select_runs_def Let_def)
qed

lemma PlanHash_build: "\<exists>h. PlanHash uq (build_plan s protection sl) = Inr h"
  by (simp add: PlanHash_def CanonicalPlanBytes_def build_plan_def Let_def)

lemma PlanHash_build_ok: "PlanHash uq (build_plan s protection sl) \<noteq> Inl e"
  using PlanHash_build [of uq s protection sl] by auto

lemma Plan_result:
  assumes "Plan uq s = Inr p" "in_int64 (sn_ProtectedRegularFileBytes s)"
  obtains st protection sl h where
    "snapshot_ok s" "protect_runs s = Inr (st, protection)" "select_runs s st = Inr sl"
    "selection_ok s st sl" "PlanHash uq (build_plan s protection sl) = Inr h"
    "p = (build_plan s protection sl)\<lparr>cp_PlanHash := h\<rparr>"
proof -
  from assms(1) obtain st protection sl h where parts:
    "check_snapshot s = None" "protect_runs s = Inr (st, protection)" "select_runs s st = Inr sl"
    "PlanHash uq (build_plan s protection sl) = Inr h"
    "p = (build_plan s protection sl)\<lparr>cp_PlanHash := h\<rparr>"
    by (auto simp: Plan_def Let_def split: option.splits sum.splits prod.splits)
  have inp: "inputs_ok s" using parts(1) by (simp add: check_snapshot_None)
  have nonneg: "0 \<le> sn_ProtectedRegularFileBytes s"
    using parts(3) by (auto simp: select_runs_def Let_def split: if_splits)
  have "counted (sn_Runs s)" using inp by (auto simp: inputs_ok_def counted_def run_ok_def)
  from select_runs_result [OF this nonneg, of st] assms(2) parts(3)
  have "selection_ok s st sl"
    "sn_ProtectedRegularFileBytes s + total_bytes (sn_Runs s) \<le> max_int64"
    by (auto simp: in_int64_def split: if_splits)
  with parts inp nonneg protect_runs_accepts [OF inp] show ?thesis
    by (intro that [of st protection sl h]) (auto simp: snapshot_ok_def)
qed

lemma Plan_accepts:
  assumes "in_int64 (sn_ProtectedRegularFileBytes s)"
  shows "case Plan uq s of Inr p \<Rightarrow> snapshot_ok s | Inl e \<Rightarrow> \<not> snapshot_ok s \<and> input_error e"
proof (cases "Plan uq s")
  case (Inr p)
  with assms show ?thesis by (auto elim: Plan_result)
next
  case (Inl e)
  consider "check_snapshot s = Some e"
    | "check_snapshot s = None" "protect_runs s = Inl e"
    | st protection where "check_snapshot s = None" "protect_runs s = Inr (st, protection)" "select_runs s st = Inl e"
    using Inl PlanHash_build_ok by (auto simp: Plan_def Let_def split: option.splits sum.splits prod.splits)
  then show ?thesis
  proof cases
    case 1
    then have "\<not> inputs_ok s" by (simp flip: check_snapshot_None)
    with 1 Inl show ?thesis by (simp add: snapshot_ok_def check_snapshot_input_error)
  next
    case 2
    then show ?thesis
      using Inl protect_runs_accepts [of s] protect_runs_input_error
      by (auto simp: snapshot_ok_def check_snapshot_None)
  next
    case 3
    then show ?thesis
      using Inl select_runs_input_error [OF _ assms] by (auto simp: snapshot_ok_def check_snapshot_None)
  qed
qed

section \<open>Delete sets, actions, decisions\<close>

definition age_ids :: "CleanPlan \<Rightarrow> string list" where
  "age_ids p = map en_RunID (ds_AgeDeleteSet (cp_DeleteSets p))"

definition size_ids :: "CleanPlan \<Rightarrow> string list" where
  "size_ids p = map en_RunID (ds_SizeDeleteSet (cp_DeleteSets p))"

definition deleted_ids :: "CleanPlan \<Rightarrow> string list" where
  "deleted_ids p = age_ids p @ size_ids p"

lemma entries_simps [simp]:
  "map en_RunID (entries rs reason) = map ob_RunID rs"
  "length (entries rs reason) = length rs"
  "sum_list (map en_RegularFileBytes (entries rs reason)) = total_bytes rs"
  by (simp_all add: entries_def total_bytes_def o_def)

lemma build_ids [simp]:
  "age_ids ((build_plan s protection sl)\<lparr>cp_PlanHash := h\<rparr>) = map ob_RunID (sl_Age sl)"
  "size_ids ((build_plan s protection sl)\<lparr>cp_PlanHash := h\<rparr>) = map ob_RunID (sl_Size sl)"
  by (simp_all add: age_ids_def size_ids_def build_plan_def Let_def)

lemma selection_distinct:
  assumes "selection_ok s st sl" "distinct (known_ids s)"
  shows "distinct (map ob_RunID (sl_Age sl @ sl_SizeCandidates sl))"
    and "distinct (map ob_RunID (sl_Age sl @ sl_Size sl))"
    and "set (sl_Age sl) \<union> set (sl_SizeCandidates sl) \<subseteq> set (sn_Runs s)"
    and "set (sl_Size sl) \<subseteq> set (sl_SizeCandidates sl)"
proof -
  have sub: "mset (sl_Age sl @ sl_SizeCandidates sl) \<subseteq># mset (sn_Runs s)"
    using assms(1) by (simp add: selection_ok_def)
  have "image_mset ob_RunID (mset (sl_Age sl @ sl_SizeCandidates sl)) \<subseteq># image_mset ob_RunID (mset (sn_Runs s))"
    using sub by (rule image_mset_subseteq_mono)
  then have "mset (map ob_RunID (sl_Age sl @ sl_SizeCandidates sl)) \<subseteq># mset (known_ids s)"
    by (simp add: known_ids_def)
  then show d: "distinct (map ob_RunID (sl_Age sl @ sl_SizeCandidates sl))"
    using assms(2) by (metis distinct_append ex_mset mset_append mset_eq_imp_distinct_iff mset_subset_eq_exists_conv)
  obtain k where k: "sl_Size sl = take k (sl_SizeCandidates sl)"
    using assms(1) by (auto simp: selection_ok_def)
  show "set (sl_Size sl) \<subseteq> set (sl_SizeCandidates sl)" unfolding k by (rule set_take_subset)
  have "map ob_RunID (sl_Size sl) = take k (map ob_RunID (sl_SizeCandidates sl))"
    by (simp only: k take_map)
  with d show "distinct (map ob_RunID (sl_Age sl @ sl_Size sl))"
    by (auto simp only: map_append distinct_append distinct_take dest: in_set_takeD)
  show "set (sl_Age sl) \<union> set (sl_SizeCandidates sl) \<subseteq> set (sn_Runs s)"
    using set_mset_mono [OF sub] by simp
qed

lemma length_number_actions [simp]: "length (number_actions phase reason n rs) = 2 * length rs"
  by (induction phase reason n rs rule: number_actions.induct) simp_all

lemma nth_number_actions:
  "k < length rs \<Longrightarrow>
   number_actions phase reason n rs ! (2 * k) =
     \<lparr>ac_Sequence = n + 2 * int k, ac_Phase = phase, ac_Action = ''tombstone'',
      ac_RunID = ob_RunID (rs ! k), ac_Reason = reason, ac_BytesReleased = 0\<rparr> \<and>
   number_actions phase reason n rs ! Suc (2 * k) =
     \<lparr>ac_Sequence = n + 2 * int k + 1, ac_Phase = phase, ac_Action = ''delete'',
      ac_RunID = ob_RunID (rs ! k), ac_Reason = reason,
      ac_BytesReleased = ob_RegularFileBytes (rs ! k)\<rparr>"
proof (induction phase reason n rs arbitrary: k rule: number_actions.induct)
  case (2 phase reason n r rs)
  then show ?case by (cases k) (auto simp: algebra_simps)
qed simp

text \<open>The pair of actions of one run, and the pairs of a selection in their order.\<close>

definition action_pair ::
  "string \<Rightarrow> Reason \<Rightarrow> int \<Rightarrow> RunObservation \<Rightarrow> OrderedAction \<times> OrderedAction" where
  "action_pair phase reason n r =
     (\<lparr>ac_Sequence = n, ac_Phase = phase, ac_Action = ''tombstone'', ac_RunID = ob_RunID r,
       ac_Reason = reason, ac_BytesReleased = 0\<rparr>,
      \<lparr>ac_Sequence = n + 1, ac_Phase = phase, ac_Action = ''delete'', ac_RunID = ob_RunID r,
       ac_Reason = reason, ac_BytesReleased = ob_RegularFileBytes r\<rparr>)"

lemma nth_actionsFor:
  assumes "k < length age + length bulk"
  shows "(actionsFor age bulk ! (2 * k), actionsFor age bulk ! Suc (2 * k)) =
    (if k < length age then action_pair ''age'' ReasonDeletedAge (2 * int k + 1) (age ! k)
     else action_pair ''size'' ReasonDeletedSize (2 * int k + 1) (bulk ! (k - length age)))"
proof (cases "k < length age")
  case True
  then show ?thesis
    using nth_number_actions [of k age "''age''" ReasonDeletedAge 1]
    by (simp add: actionsFor_def nth_append action_pair_def)
next
  case False
  then have idx: "2 * k - 2 * length age = 2 * (k - length age)"
    "Suc (2 * k) - 2 * length age = Suc (2 * (k - length age))" by simp_all
  from False assms have "k - length age < length bulk" by simp
  from nth_number_actions [OF this, of "''size''" ReasonDeletedSize "1 + 2 * int (length age)"] False idx
  show ?thesis by (simp add: actionsFor_def nth_append action_pair_def of_nat_diff algebra_simps)
qed

lemma length_actionsFor [simp]: "length (actionsFor age bulk) = 2 * (length age + length bulk)"
  by (simp add: actionsFor_def)

text \<open>The order of deletion: oldest first.\<close>

definition oldest_first :: "RetentionSnapshot \<Rightarrow> string \<Rightarrow> string \<Rightarrow> bool" where
  "oldest_first s a b \<longleftrightarrow>
     (\<forall>r \<in> set (sn_Runs s). \<forall>q \<in> set (sn_Runs s). ob_RunID r = a \<longrightarrow> ob_RunID q = b \<longrightarrow> run_less r q)"

lemma sorted_oldest_first:
  assumes "run_order.sorted_by rs" "distinct (map ob_RunID rs)" "set rs \<subseteq> set (sn_Runs s)"
    and runs: "distinct (known_ids s)"
  shows "sorted_wrt (oldest_first s) (map ob_RunID rs)"
proof -
  have same: "r = q" if "r \<in> set (sn_Runs s)" "q \<in> set (sn_Runs s)" "ob_RunID r = ob_RunID q" for r q
    using that runs by (auto simp: known_ids_def distinct_map inj_on_def)
  have total: "run_less r q" if "\<not> run_less q r" "ob_RunID r \<noteq> ob_RunID q" for r q
    using that by (auto simp: run_less_def time_Before_def time_Equal_def)
  show ?thesis using assms(1-3)
  proof (induction rs)
    case (Cons r rs)
    have "oldest_first s (ob_RunID r) (ob_RunID q)" if "q \<in> set rs" for q
      unfolding oldest_first_def
    proof (intro ballI impI)
      fix r' q'
      assume "r' \<in> set (sn_Runs s)" "q' \<in> set (sn_Runs s)" "ob_RunID r' = ob_RunID r" "ob_RunID q' = ob_RunID q"
      then have "r' = r" "q' = q" using same Cons.prems(3) that by auto
      moreover have "\<not> run_less q r" "ob_RunID r \<noteq> ob_RunID q"
        using Cons.prems(1,2) that by (auto simp: run_order.sorted_by_def)
      ultimately show "run_less r' q'" using total by simp
    qed
    with Cons show ?case by (auto simp: run_order.sorted_by_def)
  qed simp
qed

lemma decide_run_facts:
  "rd_RunID (decide_run sl i) = i \<and> rd_Reasons (decide_run sl i) \<noteq> [] \<and>
   (rd_Decision (decide_run sl i) = ''selected_size'' \<longleftrightarrow> i \<in> ob_RunID ` set (sl_Size sl)) \<and>
   (rd_Decision (decide_run sl i) = ''selected_age'' \<longleftrightarrow>
      i \<in> ob_RunID ` set (sl_Age sl) \<and> i \<notin> ob_RunID ` set (sl_Size sl)) \<and>
   (rd_Decision (decide_run sl i) = ''protected'' \<longrightarrow> guarded (sl_Retention sl) i)"
proof -
  have ne: "sortReasons rs \<noteq> [] \<longleftrightarrow> rs \<noteq> []" for rs
    by (metis length_0_conv length_sort_slice sortReasons_def)
  show ?thesis by (simp add: decide_run_def selected_def Let_def ne guarded_def)
qed

lemma strictly_sorted:
  "sorted_wrt (\<lambda>x y :: 'a :: linorder. \<not> y < x) xs \<Longrightarrow> distinct xs \<Longrightarrow> sorted_wrt (<) xs"
  by (induction xs) (auto simp: not_less order_less_le)

lemma sortedKeys_sorted: "distinct ks \<Longrightarrow> sorted_wrt (<) (sortedKeys ks) \<and> set (sortedKeys ks) = set ks"
  using string_order.sorted_sort_slice [of ks]
  by (simp add: sortedKeys_def string_order.sorted_by_def strictly_sorted)

section \<open>What is deleted\<close>

lemma deleted_unguarded:
  assumes "selection_ok s st sl" "distinct (known_ids s)"
    and "i \<in> ob_RunID ` set (sl_Age sl) \<union> ob_RunID ` set (sl_Size sl)"
  shows "\<not> guarded st i \<and> i \<in> set (known_ids s)"
proof -
  note d = selection_distinct [OF assms(1,2)]
  from assms(3) d(4) obtain r where r: "r \<in> set (sl_Age sl) \<union> set (sl_SizeCandidates sl)" "i = ob_RunID r"
    by blast
  with d(3) have "r \<in> set (sn_Runs s)" by blast
  with r assms(1) show ?thesis by (auto simp: selection_ok_def known_ids_def)
qed

lemma Plan_deleted:
  assumes "Plan uq s = Inr p" "in_int64 (sn_ProtectedRegularFileBytes s)"
  obtains st protection where "protect_runs s = Inr (st, protection)"
    "\<forall>i \<in> set (deleted_ids p). \<not> guarded st i \<and> i \<in> set (known_ids s)"
proof -
  from Plan_result [OF assms] obtain st protection sl h where
    ok: "snapshot_ok s" and st: "protect_runs s = Inr (st, protection)" and "select_runs s st = Inr sl"
    and sel: "selection_ok s st sl" and "PlanHash uq (build_plan s protection sl) = Inr h"
    and p: "p = (build_plan s protection sl)\<lparr>cp_PlanHash := h\<rparr>" .
  have "distinct (known_ids s)" using ok by (simp add: snapshot_ok_def inputs_ok_def)
  then have "\<forall>i \<in> set (deleted_ids p). \<not> guarded st i \<and> i \<in> set (known_ids s)"
    using deleted_unguarded [OF sel] unfolding p deleted_ids_def by simp
  with st show ?thesis by (rule that)
qed

text \<open>The fields of a plan that come from the selection.\<close>

lemma build_fields [simp]:
  "cp_ByteAccounting (build_plan s protection sl) =
     \<lparr>ba_InitialRegularFileBytes = sl_Initial sl, ba_AgeDeleteBytes = sl_AgeBytes sl,
      ba_SizeDeleteBytes = sl_SizeBytes sl, ba_PlannedDeleteBytes = sl_Planned sl,
      ba_ProjectedRegularFileBytes = sl_Projected sl, ba_TargetBytes = po_TargetBytes (sn_Policy s),
      ba_TargetReached = (sl_Projected sl \<le> po_TargetBytes (sn_Policy s))\<rparr>"
  "cp_DeleteSets (build_plan s protection sl) =
     \<lparr>ds_AgeDeleteSet = entries (sl_Age sl) ReasonEligibleAge,
      ds_SizeDeleteSet = entries (sl_Size sl) ReasonEligibleSize\<rparr>"
  "cp_OutcomeReasons (build_plan s protection sl) =
     (if sl_Projected sl > po_TargetBytes (sn_Policy s) then [ReasonTargetProtected] else [])"
  "cp_RunDecisions (build_plan s protection sl) = map (decide_run sl) (sortedKeys (known_ids s))"
  by (simp_all add: build_plan_def Let_def)

definition entry_bytes :: "DeleteSetEntry list \<Rightarrow> int" where
  "entry_bytes es = sum_list (map en_RegularFileBytes es)"

lemma entry_bytes_entries: "entry_bytes (take j (entries rs reason)) = total_bytes (take j rs)"
  by (simp add: entry_bytes_def entries_def total_bytes_def o_def flip: take_map)

lemma Plan_accounts:
  assumes "Plan uq s = Inr p" "in_int64 (sn_ProtectedRegularFileBytes s)"
  shows "let b = cp_ByteAccounting p; target = po_TargetBytes (sn_Policy s) in
    ba_InitialRegularFileBytes b = sn_ProtectedRegularFileBytes s + total_bytes (sn_Runs s) \<and>
    ba_InitialRegularFileBytes b \<le> max_int64 \<and>
    ba_AgeDeleteBytes b = entry_bytes (ds_AgeDeleteSet (cp_DeleteSets p)) \<and>
    ba_SizeDeleteBytes b = entry_bytes (ds_SizeDeleteSet (cp_DeleteSets p)) \<and>
    ba_PlannedDeleteBytes b = ba_AgeDeleteBytes b + ba_SizeDeleteBytes b \<and>
    ba_ProjectedRegularFileBytes b = ba_InitialRegularFileBytes b - ba_PlannedDeleteBytes b \<and>
    0 \<le> ba_ProjectedRegularFileBytes b \<and> ba_TargetBytes b = target \<and>
    (ba_TargetReached b \<longleftrightarrow> ba_ProjectedRegularFileBytes b \<le> target) \<and>
    cp_OutcomeReasons p = (if ba_TargetReached b then [] else [ReasonTargetProtected]) \<and>
    (\<forall>j < length (ds_SizeDeleteSet (cp_DeleteSets p)).
       target < ba_InitialRegularFileBytes b - ba_AgeDeleteBytes b -
         entry_bytes (take j (ds_SizeDeleteSet (cp_DeleteSets p))))"
proof -
  from Plan_result [OF assms] obtain st protection sl h where
    ok: "snapshot_ok s" and st: "protect_runs s = Inr (st, protection)" and "select_runs s st = Inr sl"
    and sel: "selection_ok s st sl" and "PlanHash uq (build_plan s protection sl) = Inr h"
    and p: "p = (build_plan s protection sl)\<lparr>cp_PlanHash := h\<rparr>" .
  obtain k where k: "k \<le> length (sl_SizeCandidates sl)" "sl_Size sl = take k (sl_SizeCandidates sl)"
    "\<forall>j < k. po_TargetBytes (sn_Policy s) < sl_Initial sl - sl_AgeBytes sl - total_bytes (take j (sl_SizeCandidates sl))"
    using sel unfolding selection_ok_def by blast
  have short: "po_TargetBytes (sn_Policy s) < sl_Initial sl - sl_AgeBytes sl - total_bytes (take j (sl_Size sl))"
    if "j < length (sl_Size sl)" for j
  proof -
    have "j < k" using that k(1,2) by simp
    then have "take j (sl_Size sl) = take j (sl_SizeCandidates sl)" using k(2) by (simp add: min_absorb1)
    with \<open>j < k\<close> k(3) show ?thesis by simp
  qed
  have whole: "entry_bytes (entries rs reason) = total_bytes rs" for rs reason
    by (simp add: entry_bytes_def)
  show ?thesis
    using sel short unfolding p Let_def
    by (simp add: selection_ok_def whole entry_bytes_entries not_less)
qed

text \<open>Actions and decisions of a plan, for the run that stands at a place of the delete sets.\<close>

definition all_entries :: "CleanPlan \<Rightarrow> DeleteSetEntry list" where
  "all_entries p = ds_AgeDeleteSet (cp_DeleteSets p) @ ds_SizeDeleteSet (cp_DeleteSets p)"

lemma Plan_actions:
  assumes "Plan uq s = Inr p" "in_int64 (sn_ProtectedRegularFileBytes s)"
  shows "length (cp_OrderedActions p) = 2 * length (all_entries p) \<and>
    (\<forall>k < length (all_entries p). \<exists>phase reason.
       cp_OrderedActions p ! (2 * k) =
         \<lparr>ac_Sequence = 2 * int k + 1, ac_Phase = phase, ac_Action = ''tombstone'',
          ac_RunID = en_RunID (all_entries p ! k), ac_Reason = reason, ac_BytesReleased = 0\<rparr> \<and>
       cp_OrderedActions p ! Suc (2 * k) =
         \<lparr>ac_Sequence = 2 * int k + 2, ac_Phase = phase, ac_Action = ''delete'',
          ac_RunID = en_RunID (all_entries p ! k), ac_Reason = reason,
          ac_BytesReleased = en_RegularFileBytes (all_entries p ! k)\<rparr>) \<and>
    distinct (deleted_ids p) \<and>
    sorted_wrt (oldest_first s) (age_ids p) \<and> sorted_wrt (oldest_first s) (size_ids p) \<and>
    sorted_wrt (<) (map rd_RunID (cp_RunDecisions p)) \<and>
    set (map rd_RunID (cp_RunDecisions p)) = set (known_ids s) \<and>
    (\<forall>d \<in> set (cp_RunDecisions p).
       (rd_Decision d = ''selected_age'' \<longleftrightarrow> rd_RunID d \<in> set (age_ids p)) \<and>
       (rd_Decision d = ''selected_size'' \<longleftrightarrow> rd_RunID d \<in> set (size_ids p)))"
proof -
  from Plan_result [OF assms] obtain st protection sl h where
    ok: "snapshot_ok s" and st: "protect_runs s = Inr (st, protection)" and "select_runs s st = Inr sl"
    and sel: "selection_ok s st sl" and "PlanHash uq (build_plan s protection sl) = Inr h"
    and p: "p = (build_plan s protection sl)\<lparr>cp_PlanHash := h\<rparr>" .
  have d: "distinct (known_ids s)" using ok by (simp add: snapshot_ok_def inputs_ok_def)
  note dist = selection_distinct [OF sel d]
  let ?age = "sl_Age sl" and ?bulk = "sl_Size sl"
  have actions: "cp_OrderedActions p = actionsFor ?age ?bulk" unfolding p by (simp add: build_plan_def Let_def)
  have all: "all_entries p = entries ?age ReasonEligibleAge @ entries ?bulk ReasonEligibleSize"
    unfolding p by (simp add: all_entries_def)
  have pairs: "\<exists>phase reason. (actionsFor ?age ?bulk ! (2 * k), actionsFor ?age ?bulk ! Suc (2 * k)) =
      action_pair phase reason (2 * int k + 1) ((?age @ ?bulk) ! k)" if "k < length (?age @ ?bulk)" for k
    using nth_actionsFor [of k ?age ?bulk] that by (cases "k < length ?age") (auto simp: nth_append)
  have nth: "en_RunID (all_entries p ! k) = ob_RunID ((?age @ ?bulk) ! k) \<and>
      en_RegularFileBytes (all_entries p ! k) = ob_RegularFileBytes ((?age @ ?bulk) ! k)"
    if "k < length (?age @ ?bulk)" for k
    using that by (cases "k < length ?age") (auto simp: all entries_def nth_append)
  have sorted: "sorted_wrt (oldest_first s) (map ob_RunID ?age)" "sorted_wrt (oldest_first s) (map ob_RunID ?bulk)"
  proof -
    obtain k where k: "?bulk = take k (sl_SizeCandidates sl)" using sel unfolding selection_ok_def by blast
    have "run_order.sorted_by ?bulk"
      using sel unfolding k by (auto simp: selection_ok_def run_order.sorted_by_def intro: sorted_wrt_take)
    with sel dist show "sorted_wrt (oldest_first s) (map ob_RunID ?age)" "sorted_wrt (oldest_first s) (map ob_RunID ?bulk)"
      by (auto simp: selection_ok_def intro!: sorted_oldest_first d)
  qed
  have keys: "map rd_RunID (map (decide_run sl) ks) = ks" for ks
    using decide_run_facts by (simp add: map_idI)
  have dec: "(rd_Decision x = ''selected_age'' \<longleftrightarrow> rd_RunID x \<in> ob_RunID ` set ?age) \<and>
      (rd_Decision x = ''selected_size'' \<longleftrightarrow> rd_RunID x \<in> ob_RunID ` set ?bulk)"
    if "x \<in> set (map (decide_run sl) ks)" for x ks
    using that dist(2) decide_run_facts [of sl] by (auto simp: distinct_map)
  have "length (cp_OrderedActions p) = 2 * length (all_entries p)" unfolding actions all by simp
  moreover have "\<exists>phase reason.
       cp_OrderedActions p ! (2 * k) =
         \<lparr>ac_Sequence = 2 * int k + 1, ac_Phase = phase, ac_Action = ''tombstone'',
          ac_RunID = en_RunID (all_entries p ! k), ac_Reason = reason, ac_BytesReleased = 0\<rparr> \<and>
       cp_OrderedActions p ! Suc (2 * k) =
         \<lparr>ac_Sequence = 2 * int k + 2, ac_Phase = phase, ac_Action = ''delete'',
          ac_RunID = en_RunID (all_entries p ! k), ac_Reason = reason,
          ac_BytesReleased = en_RegularFileBytes (all_entries p ! k)\<rparr>"
    if "k < length (all_entries p)" for k
  proof -
    have k: "k < length (?age @ ?bulk)" using that by (simp add: all)
    from pairs [OF k] nth [OF k] show ?thesis unfolding actions action_pair_def by (auto simp: add.assoc)
  qed
  moreover have "distinct (deleted_ids p)" using dist(2) unfolding p deleted_ids_def by simp
  moreover have "sorted_wrt (oldest_first s) (age_ids p)" "sorted_wrt (oldest_first s) (size_ids p)"
    using sorted unfolding p by simp_all
  moreover have "sorted_wrt (<) (map rd_RunID (cp_RunDecisions p))"
    "set (map rd_RunID (cp_RunDecisions p)) = set (known_ids s)"
    using sortedKeys_sorted [OF d] unfolding p by (simp_all add: keys del: map_map)
  moreover have "\<forall>x \<in> set (cp_RunDecisions p).
       (rd_Decision x = ''selected_age'' \<longleftrightarrow> rd_RunID x \<in> set (age_ids p)) \<and>
       (rd_Decision x = ''selected_size'' \<longleftrightarrow> rd_RunID x \<in> set (size_ids p))"
    using dec [of _ "sortedKeys (known_ids s)"] unfolding p by simp
  ultimately show ?thesis by blast
qed

end
