(* ===== verification/Clean_Apply.thy ===== *)
theory Clean_Apply
  imports Clean_Accounts
begin

text \<open>
  Applying a cleanup plan (\<open>ApplyPlan\<close> in \<open>internal/app/clean/planner.go\<close> and
  \<open>internal/app/clean/service.go\<close>): the apply plan of a dry run, the validators of receipts and apply
  plans, the execution of the listed actions, the resumption of interrupted deletions and the service
  around them.

  The store is the record \<open>store\<close> of the operations of \<open>ApplyStore\<close> and \<open>CleanupTransaction\<close> on a
  state of any type, with errors of any type; \<open>so_Lock\<close> is the failure of \<open>WithCleanupTransaction\<close> to
  start, after which the callback's result is the result. \<open>so_CtxErr\<close> is \<open>ctx.Err()\<close>, read from the
  same state. A slice is never nil here, so that \<open>validatePlanCollections\<close> has nothing to reject.
\<close>

section \<open>Errors\<close>

datatype 'e apply_error =
    ApplyFail FailureKind string
  | ApplyCause FailureKind string 'e
  | ApplyPlanner clean_error
  | ApplyStoreError 'e

section \<open>The apply plan\<close>

definition ApplyPlan :: "(string \<Rightarrow> string) \<Rightarrow> CleanPlan \<Rightarrow> clean_error + CleanPlan" where
  "ApplyPlan uq dry =
     (if cp_Mode dry \<noteq> ''dry_run'' \<or> cp_ApplyIdentity dry \<noteq> None then Inl CleanNotDryRun
      else case PlanHash uq dry of
        Inl e \<Rightarrow> Inl e
      | Inr h \<Rightarrow>
          if cp_PlanHash dry \<noteq> '''' \<and> cp_PlanHash dry \<noteq> h then Inl CleanHashMismatch
          else
            let a = dry\<lparr>cp_Mode := ''apply'',
                  cp_ApplyIdentity := Some \<lparr>ai_DryRunPlanHash = h, ai_ExpectedStoreEpoch = cp_StoreEpoch dry,
                    ai_ExpectedInputPolicySHA256 = cp_InputPolicySHA256 dry\<rparr>\<rparr>
            in case PlanHash uq a of Inl e \<Rightarrow> Inl e | Inr h' \<Rightarrow> Inr (a\<lparr>cp_PlanHash := h'\<rparr>))"

section \<open>Validation of a receipt\<close>

definition invalid :: "string \<Rightarrow> 'e apply_error" where
  "invalid message = ApplyFail FailureInvalidSnapshot message"

definition stale :: "string \<Rightarrow> 'e apply_error" where
  "stale message = ApplyFail FailureStalePlan message"

text \<open>The delete sets: a map by run identity and a byte total for each set.\<close>

fun collect_entries ::
  "Reason \<Rightarrow> DeleteSetEntry list \<Rightarrow> DeleteSetEntry list \<Rightarrow> int64 \<Rightarrow>
   'e apply_error + DeleteSetEntry list \<times> int64" where
  "collect_entries reason [] found bytes = Inr (found, bytes)"
| "collect_entries reason (e # es) found bytes =
     (if \<not> canonicalRunID (en_RunID e) \<or> en_Reason e \<noteq> reason \<or> en_RegularFileBytes e < 0
      then Inl (invalid ''invalid dry-run delete set'')
      else if en_RunID e \<in> en_RunID ` set found then Inl (invalid ''duplicate dry-run delete entry'')
      else case checkedAdd bytes (en_RegularFileBytes e) of
        None \<Rightarrow> Inl (invalid ''dry-run delete set byte total overflows int64'')
      | Some tally \<Rightarrow> collect_entries reason es (found @ [e]) tally)"

fun collect_decisions :: "RunDecision list \<Rightarrow> string list \<Rightarrow> 'e apply_error option" where
  "collect_decisions [] seen = None"
| "collect_decisions (d # ds) seen =
     (if \<not> canonicalRunID (rd_RunID d) \<or> rd_Reasons d = [] then Some (invalid ''invalid dry-run decision'')
      else if rd_RunID d \<in> set seen then Some (invalid ''duplicate dry-run decision'')
      else collect_decisions ds (rd_RunID d # seen))"

definition decision_of :: "RunDecision list \<Rightarrow> string \<Rightarrow> string" where
  "decision_of ds i = (case find (\<lambda>d. rd_RunID d = i) ds of Some d \<Rightarrow> rd_Decision d | None \<Rightarrow> '''')"

definition expected_reason :: "DeleteSetEntry \<Rightarrow> Reason" where
  "expected_reason e = (if en_Reason e = ReasonEligibleSize then ReasonDeletedSize else ReasonDeletedAge)"

definition expected_decision :: "DeleteSetEntry \<Rightarrow> string" where
  "expected_decision e = (if en_Reason e = ReasonEligibleSize then ''selected_size'' else ''selected_age'')"

definition expected_phase :: "DeleteSetEntry \<Rightarrow> string" where
  "expected_phase e = (if en_Reason e = ReasonEligibleSize then ''size'' else ''age'')"

definition pair_ok ::
  "RunDecision list \<Rightarrow> int \<Rightarrow> DeleteSetEntry \<Rightarrow> OrderedAction \<Rightarrow> OrderedAction \<Rightarrow> bool" where
  "pair_ok ds index e t d \<longleftrightarrow>
     ac_Sequence t = index + 1 \<and> ac_Sequence d = index + 2 \<and>
     ac_Action t = ''tombstone'' \<and> ac_Action d = ''delete'' \<and> ac_RunID t = ac_RunID d \<and>
     ac_Phase t = expected_phase e \<and> ac_Phase d = expected_phase e \<and>
     ac_Reason t = expected_reason e \<and> ac_Reason d = expected_reason e \<and>
     ac_BytesReleased d = en_RegularFileBytes e \<and>
     decision_of ds (ac_RunID t) = expected_decision e"

text \<open>The loop over the action pairs removes each entry it meets and collects the selected runs.\<close>

fun check_pairs ::
  "RunDecision list \<Rightarrow> int \<Rightarrow> DeleteSetEntry list \<Rightarrow> string list \<Rightarrow> OrderedAction list \<Rightarrow>
   'e apply_error + string list" where
  "check_pairs ds index found chosen [] =
     (if found \<noteq> [] then Inl (invalid ''delete set missing action'') else Inr chosen)"
| "check_pairs ds index found chosen [t] = Inl (invalid ''index out of range'')"
| "check_pairs ds index found chosen (t # d # rest) =
     (case find (\<lambda>e. en_RunID e = ac_RunID t) found of
        None \<Rightarrow> Inl (invalid (''invalid dry-run action pair at sequence '' @ FormatInt (ac_Sequence t)))
      | Some e \<Rightarrow>
          if \<not> pair_ok ds index e t d
          then Inl (invalid (''invalid dry-run action pair at sequence '' @ FormatInt (ac_Sequence t)))
          else check_pairs ds (index + 2) (filter (\<lambda>x. en_RunID x \<noteq> ac_RunID t) found)
                 (ac_RunID t # chosen) rest)"

definition accounting_negative :: "ByteAccounting \<Rightarrow> bool" where
  "accounting_negative b \<longleftrightarrow>
     ba_InitialRegularFileBytes b < 0 \<or> ba_AgeDeleteBytes b < 0 \<or> ba_SizeDeleteBytes b < 0 \<or>
     ba_PlannedDeleteBytes b < 0 \<or> ba_ProjectedRegularFileBytes b < 0 \<or> ba_TargetBytes b < 0"

definition accounting_invalid :: "Policy \<Rightarrow> ByteAccounting \<Rightarrow> bool" where
  "accounting_invalid policy b \<longleftrightarrow>
     (case checkedAdd (ba_AgeDeleteBytes b) (ba_SizeDeleteBytes b) of
        None \<Rightarrow> True
      | Some planned \<Rightarrow>
          ba_PlannedDeleteBytes b \<noteq> planned \<or>
          ba_PlannedDeleteBytes b > ba_InitialRegularFileBytes b \<or>
          po_TargetBytes policy \<noteq> ba_TargetBytes b \<or>
          ba_ProjectedRegularFileBytes b \<noteq>
            wrap64 (ba_InitialRegularFileBytes b - ba_PlannedDeleteBytes b) \<or>
          ba_TargetReached b \<noteq> (ba_ProjectedRegularFileBytes b \<le> ba_TargetBytes b))"

definition check_receipt_sets :: "CleanPlan \<Rightarrow> 'e apply_error option" where
  "check_receipt_sets p =
     (case collect_entries ReasonEligibleAge (ds_AgeDeleteSet (cp_DeleteSets p)) [] 0 of
        Inl e \<Rightarrow> Some e
      | Inr (found, ageBytes) \<Rightarrow>
          (case collect_entries ReasonEligibleSize (ds_SizeDeleteSet (cp_DeleteSets p)) found 0 of
             Inl e \<Rightarrow> Some e
           | Inr (both, sizeBytes) \<Rightarrow>
               if ageBytes \<noteq> ba_AgeDeleteBytes (cp_ByteAccounting p) \<or>
                  sizeBytes \<noteq> ba_SizeDeleteBytes (cp_ByteAccounting p)
               then Some (invalid ''delete sets do not match byte accounting'')
               else case collect_decisions (cp_RunDecisions p) [] of
                 Some e \<Rightarrow> Some e
               | None \<Rightarrow>
                   if length (cp_OrderedActions p) \<noteq> length both * 2
                   then Some (invalid ''actions do not match delete sets'')
                   else case check_pairs (cp_RunDecisions p) 0 both [] (cp_OrderedActions p) of
                     Inl e \<Rightarrow> Some e
                   | Inr chosen \<Rightarrow>
                       if \<exists>d \<in> set (cp_RunDecisions p).
                            (rd_Decision d = ''selected_age'' \<or> rd_Decision d = ''selected_size'') \<noteq>
                            (rd_RunID d \<in> set chosen)
                       then Some (invalid ''decisions do not match delete sets'') else None))"

definition validateDryRunReceipt ::
  "(string \<Rightarrow> string) \<Rightarrow> CleanPlan \<Rightarrow> string \<Rightarrow> 'e apply_error option" where
  "validateDryRunReceipt uq p expected =
     (if cp_SchemaVersion p \<noteq> SchemaVersion \<or> cp_Mode p \<noteq> ''dry_run'' \<or> cp_ApplyIdentity p \<noteq> None
      then Some (invalid ''invalid immutable dry-run receipt'')
      else case validateSnapshotIdentity (cp_StoreEpoch p) (cp_InputPolicySHA256 p) of
        Some e \<Rightarrow> Some (ApplyPlanner e)
      | None \<Rightarrow>
          if (case PlanHash uq p of Inl e \<Rightarrow> True | Inr h \<Rightarrow> cp_PlanHash p \<noteq> expected \<or> h \<noteq> expected)
          then Some (stale ''immutable dry-run receipt hash does not match'')
          else if accounting_negative (cp_ByteAccounting p)
          then Some (invalid ''negative dry-run byte accounting'')
          else if accounting_invalid (cp_Policy p) (cp_ByteAccounting p)
          then Some (invalid ''invalid dry-run byte accounting'')
          else check_receipt_sets p)"

section \<open>Validation of an apply plan\<close>

fun check_apply_pairs :: "OrderedAction list \<Rightarrow> 'e apply_error option" where
  "check_apply_pairs [] = None"
| "check_apply_pairs [t] = Some (invalid ''ordered actions must be tombstone/delete pairs'')"
| "check_apply_pairs (t # d # rest) =
     (if ac_Action t \<noteq> ''tombstone'' \<or> ac_Action d \<noteq> ''delete'' \<or> \<not> canonicalRunID (ac_RunID t) \<or>
         ac_RunID t \<noteq> ac_RunID d \<or> wrap64 (ac_Sequence t + 1) \<noteq> ac_Sequence d \<or>
         ac_Phase t \<noteq> ac_Phase d \<or> ac_Reason t \<noteq> ac_Reason d
      then Some (invalid (''invalid action pair at sequence '' @ FormatInt (ac_Sequence t)))
      else check_apply_pairs rest)"

definition epoch_invalid :: "StoreEpoch \<Rightarrow> bool" where
  "epoch_invalid e \<longleftrightarrow> ep_Value e < 0 \<or> \<not> canonicalSHA256 (ep_SHA256 e)"

definition validateApplyPlan :: "(string \<Rightarrow> string) \<Rightarrow> CleanPlan \<Rightarrow> 'e apply_error option" where
  "validateApplyPlan uq a =
     (case cp_ApplyIdentity a of
        None \<Rightarrow> Some (invalid ''apply identity is required'')
      | Some ident \<Rightarrow>
          if cp_Mode a \<noteq> ''apply'' then Some (invalid ''apply identity is required'')
          else if \<not> canonicalSHA256 (ai_DryRunPlanHash ident)
          then Some (invalid ''dry-run plan hash is required and canonical'')
          else case validateSnapshotIdentity (cp_StoreEpoch a) (cp_InputPolicySHA256 a) of
            Some e \<Rightarrow> Some (ApplyPlanner e)
          | None \<Rightarrow>
              if epoch_invalid (ai_ExpectedStoreEpoch ident) \<or>
                 \<not> canonicalSHA256 (ai_ExpectedInputPolicySHA256 ident)
              then Some (invalid ''apply identity epoch or policy hash is invalid'')
              else case PlanHash uq a of
                Inl e \<Rightarrow> Some (invalid ''canonicalize apply plan'')
              | Inr h \<Rightarrow>
                  if cp_PlanHash a \<noteq> h \<or> ai_DryRunPlanHash ident \<noteq> h
                  then Some (stale ''apply plan hash does not match content'')
                  else if cp_StoreEpoch a \<noteq> ai_ExpectedStoreEpoch ident \<or>
                     cp_InputPolicySHA256 a \<noteq> ai_ExpectedInputPolicySHA256 ident
                  then Some (stale ''apply identity does not match plan inputs'')
                  else if odd (length (cp_OrderedActions a))
                  then Some (invalid ''ordered actions must be tombstone/delete pairs'')
                  else check_apply_pairs (cp_OrderedActions a))"

section \<open>The store\<close>

record Tombstone =
  tb_RunID :: string
  tb_PlanHash :: string

record ('s, 'e) store =
  so_Lock :: "'s \<Rightarrow> 'e option"
  so_CtxErr :: "'s \<Rightarrow> 'e option"
  so_Observe :: "'s \<Rightarrow> 'e + RetentionSnapshot"
  so_Snapshot :: "'s \<Rightarrow> 'e + RetentionSnapshot"
  so_DryRunPlan :: "string \<Rightarrow> 's \<Rightarrow> 'e + CleanPlan"
  so_Persist :: "CleanPlan \<Rightarrow> 's \<Rightarrow> 'e option \<times> 's"
  so_Clear :: "'s \<Rightarrow> 'e option \<times> 's"
  so_Tombstones :: "'s \<Rightarrow> 'e + Tombstone list"
  so_Tombstone :: "Tombstone \<Rightarrow> 's \<Rightarrow> 'e option \<times> 's"
  so_Delete :: "Tombstone \<Rightarrow> 's \<Rightarrow> 'e option \<times> 's"

definition in_transaction ::
  "('s, 'e) store \<Rightarrow> ('s \<Rightarrow> 'e apply_error option \<times> 's) \<Rightarrow> 's \<Rightarrow> 'e apply_error option \<times> 's" where
  "in_transaction ops body st =
     (case so_Lock ops st of Some e \<Rightarrow> (Some (ApplyStoreError e), st) | None \<Rightarrow> body st)"

section \<open>Execution\<close>

fun run_actions ::
  "('s, 'e) store \<Rightarrow> string \<Rightarrow> OrderedAction list \<Rightarrow> 's \<Rightarrow> 'e apply_error option \<times> 's" where
  "run_actions ops hash [] st = (None, st)"
| "run_actions ops hash (a # as) st =
     (case so_CtxErr ops st of
        Some e \<Rightarrow> (Some (ApplyStoreError e), st)
      | None \<Rightarrow>
          let tombstone = \<lparr>tb_RunID = ac_RunID a, tb_PlanHash = hash\<rparr>
          in if ac_Action a = ''tombstone'' then
               (case so_Tombstone ops tombstone st of
                  (Some e, st') \<Rightarrow>
                    (Some (ApplyCause FailureTombstone (''commit tombstone for '' @ ac_RunID a) e), st')
                | (None, st') \<Rightarrow> run_actions ops hash as st')
             else if ac_Action a = ''delete'' then
               (case so_Delete ops tombstone st of
                  (Some e, st') \<Rightarrow>
                    (Some (ApplyCause FailureTombstone (''delete tombstoned run '' @ ac_RunID a) e), st')
                | (None, st') \<Rightarrow> run_actions ops hash as st')
             else (Some (invalid ''unsupported apply action''), st))"

definition check_receipt ::
  "(string \<Rightarrow> string) \<Rightarrow> ('s, 'e) store \<Rightarrow> CleanPlan \<Rightarrow> ApplyIdentity \<Rightarrow> 's \<Rightarrow> 'e apply_error option" where
  "check_receipt uq ops a ident st =
     (case so_DryRunPlan ops (ai_DryRunPlanHash ident) st of
        Inl e \<Rightarrow> Some (ApplyCause FailureStalePlan ''load immutable dry-run receipt'' e)
      | Inr receipt \<Rightarrow>
          (case validateDryRunReceipt uq receipt (ai_DryRunPlanHash ident) of
             Some e \<Rightarrow> Some e
           | None \<Rightarrow>
               (case ApplyPlan uq receipt of
                  Inl e \<Rightarrow> Some (ApplyPlanner e)
                | Inr expected \<Rightarrow>
                    if a \<noteq> expected
                    then Some (stale ''apply plan does not match immutable dry-run receipt'')
                    else case so_Snapshot ops st of
                      Inl e \<Rightarrow> Some (ApplyCause FailureInvalidSnapshot ''observe store for apply'' e)
                    | Inr current \<Rightarrow>
                        if epoch_invalid (sn_StoreEpoch current)
                        then Some (invalid ''invalid current store epoch'')
                        else if sn_StoreEpoch current \<noteq> ai_ExpectedStoreEpoch ident
                        then Some (stale ''store epoch changed'')
                        else None)))"

definition ExecuteApply ::
  "(string \<Rightarrow> string) \<Rightarrow> ('s, 'e) store \<Rightarrow> CleanPlan \<Rightarrow> 's \<Rightarrow> 'e apply_error option \<times> 's" where
  "ExecuteApply uq ops a st =
     (case validateApplyPlan uq a of
        Some e \<Rightarrow> (Some e, st)
      | None \<Rightarrow>
          let ident = the (cp_ApplyIdentity a)
          in in_transaction ops
               (\<lambda>st. case check_receipt uq ops a ident st of
                  Some e \<Rightarrow> (Some e, st)
                | None \<Rightarrow> run_actions ops (ai_DryRunPlanHash ident) (cp_OrderedActions a) st) st)"

section \<open>Resumption\<close>

fun tombstone_pairs :: "OrderedAction list \<Rightarrow> string \<Rightarrow> bool" where
  "tombstone_pairs (t # d # rest) i =
     (if ac_RunID t = i \<and> ac_Action t = ''tombstone'' \<and> ac_Action d = ''delete'' \<and> ac_RunID d = i \<and>
         wrap64 (ac_Sequence t + 1) = ac_Sequence d \<and> ac_Phase t = ac_Phase d \<and> ac_Reason t = ac_Reason d
      then True else tombstone_pairs rest i)"
| "tombstone_pairs as i = False"

definition tombstoneSelectsRun :: "CleanPlan \<Rightarrow> string \<Rightarrow> bool" where
  "tombstoneSelectsRun p i = tombstone_pairs (cp_OrderedActions p) i"

definition tombstone_less :: "Tombstone \<Rightarrow> Tombstone \<Rightarrow> bool" where
  "tombstone_less a b =
     (if tb_PlanHash a \<noteq> tb_PlanHash b then tb_PlanHash a < tb_PlanHash b else tb_RunID a < tb_RunID b)"

definition check_tombstone ::
  "(string \<Rightarrow> string) \<Rightarrow> ('s, 'e) store \<Rightarrow> Tombstone list \<Rightarrow> Tombstone \<Rightarrow> 's \<Rightarrow> 'e apply_error option" where
  "check_tombstone uq ops seen t st =
     (if \<not> canonicalRunID (tb_RunID t) \<or> \<not> canonicalSHA256 (tb_PlanHash t)
      then Some (invalid ''invalid durable tombstone'')
      else if t \<in> set seen then Some (invalid ''duplicate durable tombstone'')
      else case so_CtxErr ops st of
        Some e \<Rightarrow> Some (ApplyStoreError e)
      | None \<Rightarrow>
          (case so_DryRunPlan ops (tb_PlanHash t) st of
             Inl e \<Rightarrow> Some (ApplyCause FailureInvalidSnapshot ''load tombstone dry-run receipt'' e)
           | Inr receipt \<Rightarrow>
               (case validateDryRunReceipt uq receipt (tb_PlanHash t) of
                  Some e \<Rightarrow> Some e
                | None \<Rightarrow>
                    if \<not> tombstoneSelectsRun receipt (tb_RunID t)
                    then Some (invalid ''durable tombstone does not select run for deletion'')
                    else None)))"

fun resume_loop ::
  "(string \<Rightarrow> string) \<Rightarrow> ('s, 'e) store \<Rightarrow> Tombstone list \<Rightarrow> Tombstone list \<Rightarrow> 's \<Rightarrow>
   'e apply_error option \<times> 's" where
  "resume_loop uq ops seen [] st =
     (case so_Clear ops st of
        (Some e, st') \<Rightarrow> (Some (ApplyCause FailureTombstone ''remove recovered cleanup journals'' e), st')
      | (None, st') \<Rightarrow> (None, st'))"
| "resume_loop uq ops seen (t # ts) st =
     (case check_tombstone uq ops seen t st of
        Some e \<Rightarrow> (Some e, st)
      | None \<Rightarrow>
          (case so_Delete ops t st of
             (Some e, st') \<Rightarrow>
               (Some (ApplyCause FailureTombstone (''resume tombstoned run '' @ tb_RunID t) e), st')
           | (None, st') \<Rightarrow> resume_loop uq ops (t # seen) ts st'))"

definition ResumeTombstones ::
  "(string \<Rightarrow> string) \<Rightarrow> ('s, 'e) store \<Rightarrow> 's \<Rightarrow> 'e apply_error option \<times> 's" where
  "ResumeTombstones uq ops st =
     in_transaction ops
       (\<lambda>st. case so_Tombstones ops st of
          Inl e \<Rightarrow> (Some (ApplyCause FailureInvalidSnapshot ''observe tombstones'' e), st)
        | Inr ts \<Rightarrow> resume_loop uq ops [] (sort_slice tombstone_less ts) st) st"

section \<open>The service\<close>

record Request =
  rq_OlderThanDays :: int64
  rq_All :: bool
  rq_DryRun :: bool

record Result =
  rs_Plan :: CleanPlan
  rs_DryRun :: bool
  rs_AffectedRunCount :: int64
  rs_AffectedBytes :: int64

definition max_days :: int64 where
  "max_days = max_int64 div (24 * 3600 * nanos_per_second)"

definition requestPolicy :: "Request \<Rightarrow> clean_error + Policy \<times> string" where
  "requestPolicy rq =
     (if rq_All rq = (rq_OlderThanDays rq > 0) \<or> rq_OlderThanDays rq < 0 \<or> rq_OlderThanDays rq > max_days
      then Inl CleanSelection
      else
        let age = if rq_All rq then 0 else wrap64 (rq_OlderThanDays rq * 24 * 60 * 60);
            identity = if rq_All rq then ''all''
                       else ''older-than-days:'' @ FormatInt (rq_OlderThanDays rq)
        in Inr (\<lparr>po_RetentionAgeSeconds = age, po_MinAgeForSizeSeconds = 0,
                 po_TargetBytes = max_int64, po_ExplicitKeepRunIDs = []\<rparr>,
              ''sha256:'' @ sha256_hex (''mulgae-clean-selection-v1'' @ CHR 0x00 # identity)))"

text \<open>
  The closure \<open>build\<close> of \<open>Service.plan\<close>: the clock and the request replace what the store observed,
  and the schema validator sees the plan. \<open>validate\<close> is \<open>SchemaValidator.Validate\<close> on the JSON of
  the plan.
\<close>

definition build_result ::
  "(string \<Rightarrow> string) \<Rightarrow> (CleanPlan \<Rightarrow> 'e option) \<Rightarrow> go_time \<Rightarrow> Policy \<Rightarrow> string \<Rightarrow> bool \<Rightarrow>
   RetentionSnapshot \<Rightarrow> 'e apply_error + Result" where
  "build_result uq validate now policy hash dry snapshot =
     (case Plan uq (snapshot\<lparr>sn_Now := time_UTC now, sn_Policy := policy, sn_InputPolicySHA256 := hash\<rparr>) of
        Inl e \<Rightarrow> Inl (ApplyPlanner e)
      | Inr p \<Rightarrow>
          (case validate p of
             Some e \<Rightarrow> Inl (ApplyCause FailureInvalidSnapshot ''validate clean plan schema'' e)
           | None \<Rightarrow>
               Inr \<lparr>rs_Plan = p, rs_DryRun = dry,
                 rs_AffectedRunCount = int (length (ds_AgeDeleteSet (cp_DeleteSets p))) +
                   int (length (ds_SizeDeleteSet (cp_DeleteSets p))),
                 rs_AffectedBytes = ba_PlannedDeleteBytes (cp_ByteAccounting p)\<rparr>))"

definition Service_plan_dry ::
  "(string \<Rightarrow> string) \<Rightarrow> ('s, 'e) store \<Rightarrow> (CleanPlan \<Rightarrow> 'e option) \<Rightarrow> go_time \<Rightarrow> Policy \<Rightarrow> string \<Rightarrow> 's \<Rightarrow>
   'e apply_error + Result" where
  "Service_plan_dry uq ops validate now policy hash st =
     (case so_Observe ops st of
        Inl e \<Rightarrow> Inl (ApplyCause FailureInvalidSnapshot ''observe cleanup store'' e)
      | Inr snapshot \<Rightarrow> build_result uq validate now policy hash True snapshot)"

definition Service_plan_persist ::
  "(string \<Rightarrow> string) \<Rightarrow> ('s, 'e) store \<Rightarrow> (CleanPlan \<Rightarrow> 'e option) \<Rightarrow> go_time \<Rightarrow> Policy \<Rightarrow> string \<Rightarrow> 's \<Rightarrow>
   ('e apply_error + Result) \<times> 's" where
  "Service_plan_persist uq ops validate now policy hash st =
     (case so_Lock ops st of
        Some e \<Rightarrow> (Inl (ApplyStoreError e), st)
      | None \<Rightarrow>
          (case so_Snapshot ops st of
             Inl e \<Rightarrow> (Inl (ApplyCause FailureInvalidSnapshot ''observe cleanup store'' e), st)
           | Inr snapshot \<Rightarrow>
               (case build_result uq validate now policy hash False snapshot of
                  Inl e \<Rightarrow> (Inl e, st)
                | Inr r \<Rightarrow>
                    if cp_OrderedActions (rs_Plan r) = [] then (Inr r, st)
                    else case so_Persist ops (rs_Plan r) st of
                      (Some e, st') \<Rightarrow>
                        (Inl (ApplyCause FailureInvalidSnapshot ''persist transient cleanup journal'' e), st')
                    | (None, st') \<Rightarrow> (Inr r, st'))))"

definition Service_Run ::
  "(string \<Rightarrow> string) \<Rightarrow> ('s, 'e) store \<Rightarrow> (CleanPlan \<Rightarrow> 'e option) \<Rightarrow> go_time \<Rightarrow> Request \<Rightarrow> 's \<Rightarrow>
   ('e apply_error + Result) \<times> 's" where
  "Service_Run uq ops validate now rq st =
     (case so_CtxErr ops st of
        Some e \<Rightarrow> (Inl (ApplyStoreError e), st)
      | None \<Rightarrow>
      (case requestPolicy rq of
         Inl e \<Rightarrow> (Inl (ApplyPlanner e), st)
       | Inr (policy, hash) \<Rightarrow>
           if rq_DryRun rq then (Service_plan_dry uq ops validate now policy hash st, st)
           else
           (case ResumeTombstones uq ops st of
              (Some e, st1) \<Rightarrow> (Inl e, st1)
            | (None, st1) \<Rightarrow>
           (case Service_plan_persist uq ops validate now policy hash st1 of
              (Inl e, st2) \<Rightarrow> (Inl e, st2)
            | (Inr r, st2) \<Rightarrow>
                if cp_OrderedActions (rs_Plan r) = [] then (Inr r, st2)
                else
                (case ApplyPlan uq (rs_Plan r) of
                   Inl e \<Rightarrow> (Inl (ApplyPlanner e), st2)
                 | Inr a \<Rightarrow>
                (case validate a of
                   Some e \<Rightarrow> (Inl (ApplyCause FailureInvalidSnapshot ''validate clean plan schema'' e), st2)
                 | None \<Rightarrow>
                (case ExecuteApply uq ops a st2 of
                   (Some e, st3) \<Rightarrow> (Inl e, st3)
                 | (None, st3) \<Rightarrow>
                (case so_Lock ops st3 of
                   Some e \<Rightarrow>
                     (Inl (ApplyCause FailureTombstone ''remove completed cleanup journal'' e), st3)
                 | None \<Rightarrow>
                (case so_Clear ops st3 of
                   (Some e, st4) \<Rightarrow>
                     (Inl (ApplyCause FailureTombstone ''remove completed cleanup journal'' e), st4)
                 | (None, st4) \<Rightarrow> (Inr (r\<lparr>rs_Plan := a\<rparr>), st4))))))))))"

section \<open>A plan of the planner passes the validators\<close>

lemma collect_entries_exact:
  "\<forall>r \<in> set rs. canonicalRunID (ob_RunID r) \<and> 0 \<le> ob_RegularFileBytes r \<Longrightarrow>
   distinct (map ob_RunID rs) \<Longrightarrow> ob_RunID ` set rs \<inter> en_RunID ` set found = {} \<Longrightarrow>
   0 \<le> bytes \<Longrightarrow> bytes + total_bytes rs \<le> max_int64 \<Longrightarrow>
   collect_entries reason (entries rs reason) found bytes =
     Inr (found @ entries rs reason, bytes + total_bytes rs)"
proof (induction rs arbitrary: found bytes)
  case (Cons r rs)
  have "0 \<le> total_bytes rs" using Cons.prems(1) by (intro total_bytes_nonneg) (simp add: counted_def)
  with Cons.prems have add: "checkedAdd bytes (ob_RegularFileBytes r) = Some (bytes + ob_RegularFileBytes r)"
    by (subst checkedAdd_exact) auto
  from Cons show ?case by (auto simp: entries_def add)
qed (simp add: entries_def)

lemma collect_decisions_None:
  "collect_decisions ds seen = None \<longleftrightarrow>
     (\<forall>d \<in> set ds. canonicalRunID (rd_RunID d) \<and> rd_Reasons d \<noteq> []) \<and>
     distinct (map rd_RunID ds) \<and> set (map rd_RunID ds) \<inter> set seen = {}"
  by (induction ds seen rule: collect_decisions.induct) (auto split: if_splits)

lemma decision_of_decide:
  "i \<in> set is \<Longrightarrow> decision_of (map (decide_run sl) is) i = rd_Decision (decide_run sl i)"
  using decide_run_facts [of sl] by (induction "is") (auto simp: decision_of_def)

lemma check_pairs_number:
  assumes shape: "\<And>r. expected_phase (entry r) = phase \<and> expected_reason (entry r) = because \<and>
      en_RunID (entry r) = ob_RunID r \<and> en_RegularFileBytes (entry r) = ob_RegularFileBytes r"
  shows "distinct (map ob_RunID rs) \<Longrightarrow> ob_RunID ` set rs \<inter> en_RunID ` set others = {} \<Longrightarrow>
    \<forall>r \<in> set rs. decision_of ds (ob_RunID r) = expected_decision (entry r) \<Longrightarrow>
    check_pairs ds n (map entry rs @ others) chosen (number_actions phase because (n + 1) rs @ rest) =
    check_pairs ds (n + 2 * int (length rs)) others (rev (map ob_RunID rs) @ chosen) rest"
proof (induction rs arbitrary: n chosen)
  case (Cons r rs)
  have "filter (\<lambda>x. en_RunID x \<noteq> ob_RunID r) (map entry rs @ others) = map entry rs @ others"
  proof (rule filter_True)
    have "en_RunID x \<noteq> ob_RunID r" if "x \<in> set (map entry rs @ others)" for x
      using that Cons.prems(1,2) shape by (auto simp: image_iff)
    then show "\<forall>x \<in> set (map entry rs @ others). en_RunID x \<noteq> ob_RunID r" by blast
  qed
  with Cons.prems shape [of r] Cons.IH [of "n + 2" "ob_RunID r # chosen"] show ?case
    by (simp add: pair_ok_def algebra_simps)
qed simp

lemma entries_ids: "en_RunID ` set (entries rs reason) = ob_RunID ` set rs"
  by (simp add: entries_def image_image)

lemma check_pairs_age:
  assumes "distinct (map ob_RunID rs)" "ob_RunID ` set rs \<inter> en_RunID ` set others = {}"
    and "\<forall>r \<in> set rs. decision_of ds (ob_RunID r) = ''selected_age''"
  shows "check_pairs ds n (entries rs ReasonEligibleAge @ others) chosen
      (number_actions ''age'' ReasonDeletedAge (n + 1) rs @ rest) =
    check_pairs ds (n + 2 * int (length rs)) others (rev (map ob_RunID rs) @ chosen) rest"
  unfolding entries_def
  by (rule check_pairs_number)
    (use assms in \<open>simp_all add: expected_phase_def expected_reason_def expected_decision_def\<close>)

lemma check_pairs_size:
  assumes "distinct (map ob_RunID rs)" "ob_RunID ` set rs \<inter> en_RunID ` set others = {}"
    and "\<forall>r \<in> set rs. decision_of ds (ob_RunID r) = ''selected_size''"
  shows "check_pairs ds n (entries rs ReasonEligibleSize @ others) chosen
      (number_actions ''size'' ReasonDeletedSize (n + 1) rs @ rest) =
    check_pairs ds (n + 2 * int (length rs)) others (rev (map ob_RunID rs) @ chosen) rest"
  unfolding entries_def
  by (rule check_pairs_number)
    (use assms in \<open>simp_all add: expected_phase_def expected_reason_def expected_decision_def\<close>)

lemma selection_size:
  assumes sel: "selection_ok s st sl" and d: "distinct (known_ids s)"
  shows "length (sl_Age sl) + length (sl_Size sl) \<le> length (sn_Runs s)"
proof -
  note dist = selection_distinct [OF sel d]
  have "length (map ob_RunID (sl_Age sl @ sl_Size sl)) = card (set (map ob_RunID (sl_Age sl @ sl_Size sl)))"
    using dist(2) by (metis distinct_card)
  also have "\<dots> \<le> card (set (known_ids s))"
    using dist(3,4) by (intro card_mono) (auto simp: known_ids_def)
  also have "\<dots> \<le> length (sn_Runs s)" using card_length [of "known_ids s"] by (simp add: known_ids_def)
  finally show ?thesis by simp
qed

lemma Plan_hash_facts:
  assumes "PlanHash uq (build_plan s protection sl) = Inr h"
  shows "PlanHash uq ((build_plan s protection sl)\<lparr>cp_PlanHash := x\<rparr>) = Inr h"
  using assms PlanHash_content [of "(build_plan s protection sl)\<lparr>cp_PlanHash := x\<rparr>" "build_plan s protection sl"]
  by (simp add: plan_content_def)

text \<open>Sizes that a Go program can have: the values are 64-bit and the list of runs fits into memory.\<close>

definition machine_sized :: "RetentionSnapshot \<Rightarrow> bool" where
  "machine_sized s \<longleftrightarrow>
     in_int64 (sn_ProtectedRegularFileBytes s) \<and> 2 * int (length (sn_Runs s)) < max_int64"

lemma receipt_sets_ok:
  assumes ok: "snapshot_ok s" and sel: "selection_ok s st sl"
  shows "check_receipt_sets ((build_plan s protection sl)\<lparr>cp_PlanHash := h\<rparr>) = None"
proof -
  let ?age = "sl_Age sl" and ?bulk = "sl_Size sl" and ?keys = "sortedKeys (known_ids s)"
  let ?ds = "map (decide_run sl) ?keys"
  have d: "distinct (known_ids s)" using ok by (simp add: snapshot_ok_def inputs_ok_def)
  note dist = selection_distinct [OF sel d]
  have runs: "\<forall>r \<in> set ?age \<union> set ?bulk. r \<in> set (sn_Runs s)" using dist by blast
  have good: "\<forall>r \<in> set ?age \<union> set ?bulk. canonicalRunID (ob_RunID r) \<and> 0 \<le> ob_RegularFileBytes r"
    using runs ok by (auto simp: snapshot_ok_def inputs_ok_def run_ok_def)
  have keys: "set ?keys = set (known_ids s)" "distinct ?keys"
    using d by (simp_all add: sortedKeys_def)
  have in_keys: "ob_RunID r \<in> set ?keys" if "r \<in> set ?age \<union> set ?bulk" for r
    using that runs keys by (simp add: known_ids_def)
  have sep: "ob_RunID ` set ?age \<inter> ob_RunID ` set ?bulk = {}" using dist(2) by auto
  have "counted ?age" "counted ?bulk" using good by (auto simp: counted_def)
  then have nonneg: "0 \<le> total_bytes ?age" "0 \<le> total_bytes ?bulk" by (simp_all add: total_bytes_nonneg)
  have top: "total_bytes ?age + total_bytes ?bulk \<le> max_int64"
    using sel by (simp add: selection_ok_def)
  have age: "(collect_entries ReasonEligibleAge (entries ?age ReasonEligibleAge) [] 0 :: 'a apply_error + _) =
      Inr (entries ?age ReasonEligibleAge, total_bytes ?age)"
    using collect_entries_exact [of ?age "[]" 0 ReasonEligibleAge] good dist(2) nonneg top by simp
  have bulk: "(collect_entries ReasonEligibleSize (entries ?bulk ReasonEligibleSize) (entries ?age ReasonEligibleAge) 0
        :: 'a apply_error + _) =
      Inr (entries ?age ReasonEligibleAge @ entries ?bulk ReasonEligibleSize, total_bytes ?bulk)"
  proof -
    have "ob_RunID ` set ?bulk \<inter> en_RunID ` set (entries ?age ReasonEligibleAge) = {}"
      using sep by (simp add: entries_ids Int_commute)
    then show ?thesis
      using collect_entries_exact [of ?bulk "entries ?age ReasonEligibleAge" 0 ReasonEligibleSize]
        good dist(2) nonneg top by simp
  qed
  have decisions: "(collect_decisions ?ds [] :: 'a apply_error option) = None"
  proof -
    have "map rd_RunID ?ds = ?keys" using decide_run_facts by (simp add: map_idI)
    moreover have "canonicalRunID i" if "i \<in> set ?keys" for i
      using that keys ok by (auto simp: known_ids_def snapshot_ok_def inputs_ok_def run_ok_def)
    ultimately show ?thesis using keys decide_run_facts by (auto simp: collect_decisions_None)
  qed
  have dec_age: "decision_of ?ds (ob_RunID r) = ''selected_age''" if "r \<in> set ?age" for r
    using that sep in_keys decide_run_facts [of sl "ob_RunID r"] by (subst decision_of_decide) auto
  have dec_bulk: "decision_of ?ds (ob_RunID r) = ''selected_size''" if "r \<in> set ?bulk" for r
    using that in_keys decide_run_facts [of sl "ob_RunID r"] by (subst decision_of_decide) auto
  have pairs: "(check_pairs ?ds 0 (entries ?age ReasonEligibleAge @ entries ?bulk ReasonEligibleSize) []
      (actionsFor ?age ?bulk) :: 'a apply_error + _) = Inr (rev (map ob_RunID ?bulk) @ rev (map ob_RunID ?age))"
  proof -
    have "check_pairs ?ds 0 (entries ?age ReasonEligibleAge @ entries ?bulk ReasonEligibleSize) []
        (actionsFor ?age ?bulk) =
      (check_pairs ?ds (2 * int (length ?age)) (entries ?bulk ReasonEligibleSize @ []) (rev (map ob_RunID ?age))
        (number_actions ''size'' ReasonDeletedSize (2 * int (length ?age) + 1) ?bulk @ []) :: 'a apply_error + _)"
      using check_pairs_age [of ?age "entries ?bulk ReasonEligibleSize" ?ds 0 "[]"] dist(2) dec_age sep
      by (simp add: actionsFor_def entries_ids add.commute)
    also have "\<dots> = check_pairs ?ds (2 * int (length ?age) + 2 * int (length ?bulk)) []
        (rev (map ob_RunID ?bulk) @ rev (map ob_RunID ?age)) []"
      using dist(2) dec_bulk by (intro check_pairs_size) simp_all
    finally show ?thesis by simp
  qed
  have match: "(rd_Decision d = ''selected_age'' \<or> rd_Decision d = ''selected_size'') =
      (rd_RunID d \<in> set (rev (map ob_RunID ?bulk) @ rev (map ob_RunID ?age)))" if "d \<in> set ?ds" for d
    using that decide_run_facts by auto
  have sums: "sl_AgeBytes sl = total_bytes ?age" "sl_SizeBytes sl = total_bytes ?bulk"
    using sel by (simp_all add: selection_ok_def)
  show ?thesis
    unfolding check_receipt_sets_def
    using age bulk decisions pairs match sums
    by (simp add: build_plan_def Let_def)
qed

lemma check_apply_pairs_number:
  "\<forall>r \<in> set rs. canonicalRunID (ob_RunID r) \<Longrightarrow> 1 \<le> n \<Longrightarrow> n + 2 * int (length rs) \<le> max_int64 \<Longrightarrow>
   check_apply_pairs (number_actions phase reason n rs @ rest) = check_apply_pairs rest"
proof (induction rs arbitrary: n)
  case (Cons r rs)
  have "wrap64 (n + 1) = n + 1" using Cons.prems by (intro wrap64_between) simp_all
  with Cons show ?case by simp
qed simp

lemma build_identity [simp]:
  "cp_SchemaVersion (build_plan s protection sl) = SchemaVersion"
  "cp_Mode (build_plan s protection sl) = ''dry_run''"
  "cp_ApplyIdentity (build_plan s protection sl) = None"
  "cp_StoreEpoch (build_plan s protection sl) = sn_StoreEpoch s"
  "cp_InputPolicySHA256 (build_plan s protection sl) = sn_InputPolicySHA256 s"
  "cp_OrderedActions (build_plan s protection sl) = actionsFor (sl_Age sl) (sl_Size sl)"
  "cp_Policy (build_plan s protection sl) = sn_Policy s"
  by (simp_all add: build_plan_def Let_def)

lemma build_accounting:
  assumes ok: "snapshot_ok s" and sel: "selection_ok s st sl"
  shows "\<not> accounting_negative (cp_ByteAccounting (build_plan s protection sl)) \<and>
    \<not> accounting_invalid (sn_Policy s) (cp_ByteAccounting (build_plan s protection sl))"
proof -
  have runs: "set (sl_Age sl) \<union> set (sl_Size sl) \<subseteq> set (sn_Runs s)" "\<forall>r \<in> set (sn_Runs s). run_ok r"
    using selection_distinct [OF sel] ok by (auto simp: snapshot_ok_def inputs_ok_def)
  then have "counted (sl_Age sl)" "counted (sl_Size sl)" "counted (sn_Runs s)"
    by (auto simp: counted_def run_ok_def)
  then have nonneg: "0 \<le> total_bytes (sl_Age sl)" "0 \<le> total_bytes (sl_Size sl)" "0 \<le> total_bytes (sn_Runs s)"
    by (simp_all add: total_bytes_nonneg)
  have facts: "sl_Initial sl \<le> max_int64" "sl_AgeBytes sl = total_bytes (sl_Age sl)"
    "sl_SizeBytes sl = total_bytes (sl_Size sl)" "sl_Planned sl = sl_AgeBytes sl + sl_SizeBytes sl"
    "sl_Projected sl = sl_Initial sl - sl_Planned sl" "0 \<le> sl_Projected sl"
    using sel by (simp_all add: selection_ok_def)
  have target: "0 \<le> po_TargetBytes (sn_Policy s)" using ok by (simp add: snapshot_ok_def inputs_ok_def)
  have add: "checkedAdd (sl_AgeBytes sl) (sl_SizeBytes sl) = Some (sl_Planned sl)"
    using facts nonneg by (subst checkedAdd_exact) simp_all
  have sub: "wrap64 (sl_Initial sl - sl_Planned sl) = sl_Projected sl"
    using facts nonneg by (subst wrap64_between) simp_all
  show ?thesis
    using facts nonneg target add sub
    by (simp add: build_plan_def Let_def accounting_negative_def accounting_invalid_def)
qed

text \<open>
  The dry-run plan of a snapshot is a valid receipt for its own hash, and its apply plan passes the
  validator of apply plans and carries the same hash.
\<close>

lemma Plan_receipt:
  assumes "Plan uq s = Inr p" "machine_sized s"
  shows "validateDryRunReceipt uq p (cp_PlanHash p) = None"
proof -
  have "in_int64 (sn_ProtectedRegularFileBytes s)" using assms(2) by (simp add: machine_sized_def)
  from Plan_result [OF assms(1) this] obtain st protection sl h where
    ok: "snapshot_ok s" and "protect_runs s = Inr (st, protection)" and "select_runs s st = Inr sl"
    and sel: "selection_ok s st sl" and h: "PlanHash uq (build_plan s protection sl) = Inr h"
    and p: "p = (build_plan s protection sl)\<lparr>cp_PlanHash := h\<rparr>" .
  have "validateSnapshotIdentity (sn_StoreEpoch s) (sn_InputPolicySHA256 s) = None"
    using ok by (simp add: snapshot_ok_def inputs_ok_def)
  with build_accounting [OF ok sel, of protection] receipt_sets_ok [OF ok sel, where protection = protection and h = h]
    Plan_hash_facts [OF h, of h] show ?thesis
    unfolding validateDryRunReceipt_def p by simp
qed

lemma ApplyPlan_hash:
  assumes "ApplyPlan uq p = Inr a"
  shows "\<exists>h. PlanHash uq p = Inr h \<and> PlanHash uq a = Inr h \<and> cp_PlanHash a = h \<and>
    a = p\<lparr>cp_Mode := ''apply'', cp_PlanHash := h,
      cp_ApplyIdentity := Some \<lparr>ai_DryRunPlanHash = h, ai_ExpectedStoreEpoch = cp_StoreEpoch p,
        ai_ExpectedInputPolicySHA256 = cp_InputPolicySHA256 p\<rparr>\<rparr>"
proof -
  from assms obtain h h' where h: "PlanHash uq p = Inr h"
    and h': "PlanHash uq (p\<lparr>cp_Mode := ''apply'',
      cp_ApplyIdentity := Some \<lparr>ai_DryRunPlanHash = h, ai_ExpectedStoreEpoch = cp_StoreEpoch p,
        ai_ExpectedInputPolicySHA256 = cp_InputPolicySHA256 p\<rparr>\<rparr>) = Inr h'"
    and a: "a = p\<lparr>cp_Mode := ''apply'', cp_PlanHash := h',
      cp_ApplyIdentity := Some \<lparr>ai_DryRunPlanHash = h, ai_ExpectedStoreEpoch = cp_StoreEpoch p,
        ai_ExpectedInputPolicySHA256 = cp_InputPolicySHA256 p\<rparr>\<rparr>"
    by (auto simp: ApplyPlan_def Let_def split: if_splits sum.splits)
  have same: "PlanHash uq (p\<lparr>cp_Mode := m, cp_PlanHash := x, cp_ApplyIdentity := i\<rparr>) = Inr h" for m x i
    using h PlanHash_content [of "p\<lparr>cp_Mode := m, cp_PlanHash := x, cp_ApplyIdentity := i\<rparr>" p uq]
    by (simp add: plan_content_def)
  have "h' = h" using h' same [where m = "''apply''" and x = "cp_PlanHash p"] by simp
  with h a same show ?thesis by simp
qed

lemma ApplyPlan_fields:
  assumes "ApplyPlan uq p = Inr a" "cp_ApplyIdentity a = Some ident"
  shows "PlanHash uq a = Inr (ai_DryRunPlanHash ident) \<and> cp_OrderedActions a = cp_OrderedActions p \<and>
    ai_ExpectedStoreEpoch ident = cp_StoreEpoch a"
  using ApplyPlan_hash [OF assms(1)]
proof (elim exE conjE)
  fix h
  assume "PlanHash uq a = Inr h" and a: "a = p\<lparr>cp_Mode := ''apply'', cp_PlanHash := h,
      cp_ApplyIdentity := Some \<lparr>ai_DryRunPlanHash = h, ai_ExpectedStoreEpoch = cp_StoreEpoch p,
        ai_ExpectedInputPolicySHA256 = cp_InputPolicySHA256 p\<rparr>\<rparr>"
  moreover have "ident = \<lparr>ai_DryRunPlanHash = h, ai_ExpectedStoreEpoch = cp_StoreEpoch p,
        ai_ExpectedInputPolicySHA256 = cp_InputPolicySHA256 p\<rparr>"
    using assms(2) unfolding a by simp
  ultimately show ?thesis by simp
qed

lemma Plan_apply:
  assumes "Plan uq s = Inr p" "machine_sized s"
  shows "\<exists>a. ApplyPlan uq p = Inr a \<and> validateApplyPlan uq a = None \<and> cp_PlanHash a = cp_PlanHash p"
proof -
  have "in_int64 (sn_ProtectedRegularFileBytes s)" using assms(2) by (simp add: machine_sized_def)
  from Plan_result [OF assms(1) this] obtain st protection sl h where
    ok: "snapshot_ok s" and "protect_runs s = Inr (st, protection)" and "select_runs s st = Inr sl"
    and sel: "selection_ok s st sl" and h: "PlanHash uq (build_plan s protection sl) = Inr h"
    and p: "p = (build_plan s protection sl)\<lparr>cp_PlanHash := h\<rparr>" .
  have hp: "PlanHash uq p = Inr h" unfolding p by (rule Plan_hash_facts [OF h])
  obtain a where a: "ApplyPlan uq p = Inr a"
  proof -
    have "PlanHash uq (p\<lparr>cp_Mode := ''apply'', cp_ApplyIdentity := i\<rparr>) = Inr h" for i
      using hp PlanHash_content [of "p\<lparr>cp_Mode := ''apply'', cp_ApplyIdentity := i\<rparr>" p uq]
      by (simp add: plan_content_def)
    then show ?thesis using that hp by (auto simp: ApplyPlan_def Let_def p)
  qed
  from ApplyPlan_hash [OF a] hp have ah: "PlanHash uq a = Inr h" and
    a_def: "a = p\<lparr>cp_Mode := ''apply'', cp_PlanHash := h,
      cp_ApplyIdentity := Some \<lparr>ai_DryRunPlanHash = h, ai_ExpectedStoreEpoch = cp_StoreEpoch p,
        ai_ExpectedInputPolicySHA256 = cp_InputPolicySHA256 p\<rparr>\<rparr>" by auto
  have ident: "validateSnapshotIdentity (sn_StoreEpoch s) (sn_InputPolicySHA256 s) = None"
    using ok by (simp add: snapshot_ok_def inputs_ok_def)
  have d: "distinct (known_ids s)" using ok by (simp add: snapshot_ok_def inputs_ok_def)
  note dist = selection_distinct [OF sel d]
  have "length (sl_Age sl) + length (sl_Size sl) \<le> length (sn_Runs s)" by (rule selection_size [OF sel d])
  then have size: "1 + 2 * int (length (sl_Age sl)) + 2 * int (length (sl_Size sl)) \<le> max_int64"
    using assms(2) by (simp add: machine_sized_def)
  have canonical: "\<forall>r \<in> set (sl_Age sl) \<union> set (sl_Size sl). canonicalRunID (ob_RunID r)"
    using dist(3,4) ok by (auto simp: snapshot_ok_def inputs_ok_def run_ok_def)
  have "check_apply_pairs (actionsFor (sl_Age sl) (sl_Size sl) @ []) = None"
    unfolding actionsFor_def append_assoc using canonical size
    by (simp add: check_apply_pairs_number check_apply_pairs_number [of _ _ _ _ "[]", simplified])
  moreover have "canonicalSHA256 h" using h by (rule PlanHash_canonical)
  ultimately have "validateApplyPlan uq a = None"
    using ident ah by (simp add: validateApplyPlan_def a_def p epoch_invalid_def validateSnapshotIdentity_def
        split: if_splits)
  with a show ?thesis by (simp add: a_def p)
qed

section \<open>What an execution does to the store\<close>

definition perform ::
  "('s, 'e) store \<Rightarrow> string \<Rightarrow> OrderedAction \<Rightarrow> 's \<Rightarrow> 'e option \<times> 's" where
  "perform ops hash a st =
     (let tombstone = \<lparr>tb_RunID = ac_RunID a, tb_PlanHash = hash\<rparr>
      in if ac_Action a = ''tombstone'' then so_Tombstone ops tombstone st
         else if ac_Action a = ''delete'' then so_Delete ops tombstone st else (None, st))"

definition performed :: "('s, 'e) store \<Rightarrow> string \<Rightarrow> OrderedAction list \<Rightarrow> 's \<Rightarrow> 's" where
  "performed ops hash as st = fold (\<lambda>a st. snd (perform ops hash a st)) as st"

text \<open>
  The first \<open>n\<close> actions are performed in their order, and each of them succeeds; an error comes from
  the action after them, which fails and is the last one to be performed, or from the context, which
  has ended by then.
\<close>

definition performed_up_to ::
  "('s, 'e) store \<Rightarrow> string \<Rightarrow> OrderedAction list \<Rightarrow> 's \<Rightarrow> nat \<Rightarrow> bool \<Rightarrow> 's \<Rightarrow> bool" where
  "performed_up_to ops hash as st n failed st' \<longleftrightarrow>
     (\<forall>k < n. fst (perform ops hash (as ! k) (performed ops hash (take k as) st)) = None) \<and>
     (if failed
      then n < length as \<and>
        (st' = performed ops hash (take n as) st \<and> (so_CtxErr ops st' \<noteq> None \<or> ac_Action (as ! n) \<notin> {''tombstone'', ''delete''}) \<or>
         st' = performed ops hash (take (Suc n) as) st \<and>
         fst (perform ops hash (as ! n) (performed ops hash (take n as) st)) \<noteq> None)
      else n = length as \<and> st' = performed ops hash as st)"

lemma performed_up_to_Cons:
  assumes "performed_up_to ops hash as (snd (perform ops hash a st)) n failed st'" "fst (perform ops hash a st) = None"
  shows "performed_up_to ops hash (a # as) st (Suc n) failed st'"
proof -
  have step: "performed ops hash (a # bs) st = performed ops hash bs (snd (perform ops hash a st))" for bs
    by (simp add: performed_def)
  have "fst (perform ops hash ((a # as) ! k) (performed ops hash (take k (a # as)) st)) = None" if "k < Suc n" for k
    using assms that step by (cases k) (auto simp: performed_up_to_def performed_def)
  then show ?thesis using assms(1) unfolding performed_up_to_def by (auto simp: step)
qed

lemma run_actions_prefix:
  "run_actions ops hash as st = (r, st') \<Longrightarrow> \<exists>n. performed_up_to ops hash as st n (r \<noteq> None) st'"
proof (induction ops hash "as" st rule: run_actions.induct)
  case (2 ops hash a as st)
  show ?case
  proof (cases "so_CtxErr ops st = None \<and> ac_Action a \<in> {''tombstone'', ''delete''}")
    case False
    with 2 have "r \<noteq> None" "st' = st" by (auto simp: Let_def split: option.splits if_splits prod.splits)
    with False show ?thesis by (intro exI [of _ 0]) (auto simp: performed_up_to_def performed_def)
  next
    case True
    obtain e st1 where call: "perform ops hash a st = (e, st1)" by fastforce
    show ?thesis
    proof (cases e)
      case (Some x)
      with True call "2.prems" have "st' = st1" "r \<noteq> None"
        by (auto simp: perform_def Let_def split: if_splits option.splits)
      with call Some show ?thesis by (intro exI [of _ 0]) (simp add: performed_up_to_def performed_def)
    next
      case None
      with True call "2.prems" have rest: "run_actions ops hash as st1 = (r, st')"
        by (auto simp: perform_def Let_def split: if_splits)
      have "\<exists>n. performed_up_to ops hash as st1 n (r \<noteq> None) st'"
        using True call None rest "2.IH"
        by (cases "ac_Action a = ''tombstone''") (auto simp: perform_def Let_def)
      with performed_up_to_Cons [of ops hash "as" a st] call None show ?thesis by auto
    qed
  qed
qed (simp add: performed_up_to_def performed_def)

lemma check_receipt_None:
  assumes "check_receipt uq ops a ident st = None"
  shows "\<exists>receipt current. so_DryRunPlan ops (ai_DryRunPlanHash ident) st = Inr receipt \<and>
    (validateDryRunReceipt uq receipt (ai_DryRunPlanHash ident) :: 'e apply_error option) = None \<and>
    ApplyPlan uq receipt = Inr a \<and> so_Snapshot (ops :: ('s, 'e) store) st = Inr current \<and>
    sn_StoreEpoch current = ai_ExpectedStoreEpoch ident"
  using assms by (auto simp: check_receipt_def split: sum.splits option.splits if_splits)

lemma ExecuteApply_authorised:
  fixes ops :: "('s, 'e) store"
  assumes "ExecuteApply uq ops a st = (r, st')" "st' \<noteq> st \<or> r = None"
  shows "\<exists>receipt current h n. so_DryRunPlan ops h st = Inr receipt \<and>
    (validateDryRunReceipt uq receipt h :: 'e apply_error option) = None \<and>
    ApplyPlan uq receipt = Inr a \<and> PlanHash uq a = Inr h \<and>
    so_Snapshot ops st = Inr current \<and> sn_StoreEpoch current = cp_StoreEpoch a \<and>
    performed_up_to ops h (cp_OrderedActions receipt) st n (r \<noteq> None) st'"
proof -
  obtain ident where ident: "cp_ApplyIdentity a = Some ident" and valid: "validateApplyPlan uq a = (None :: 'e apply_error option)"
    and chk: "check_receipt uq ops a ident st = None"
    and run: "run_actions ops (ai_DryRunPlanHash ident) (cp_OrderedActions a) st = (r, st')"
  proof -
    from assms have "validateApplyPlan uq a = (None :: 'e apply_error option)"
      by (auto simp: ExecuteApply_def split: option.splits)
    moreover from this obtain ident where "cp_ApplyIdentity a = Some ident"
      by (auto simp: validateApplyPlan_def split: option.splits)
    ultimately show ?thesis
      using assms that by (auto simp: ExecuteApply_def in_transaction_def split: option.splits)
  qed
  let ?h = "ai_DryRunPlanHash ident"
  from check_receipt_None [OF chk] obtain receipt current where rec:
    "so_DryRunPlan ops ?h st = Inr receipt" "(validateDryRunReceipt uq receipt ?h :: 'e apply_error option) = None"
    "ApplyPlan uq receipt = Inr a" "so_Snapshot ops st = Inr current"
    "sn_StoreEpoch current = ai_ExpectedStoreEpoch ident" by blast
  have hash: "PlanHash uq a = Inr ?h"
    and same: "cp_OrderedActions a = cp_OrderedActions receipt" "ai_ExpectedStoreEpoch ident = cp_StoreEpoch a"
    using ApplyPlan_fields [OF rec(3) ident] by simp_all
  from run_actions_prefix [OF run] rec hash show ?thesis unfolding same by metis
qed

section \<open>What a resumption does to the store\<close>

inductive authorised ::
  "(string \<Rightarrow> string) \<Rightarrow> ('s, 'e) store \<Rightarrow> Tombstone list \<Rightarrow> 's \<Rightarrow> 's \<Rightarrow> bool" for uq ops where
  stay: "authorised uq ops [] st st"
| delete: "so_DryRunPlan ops (tb_PlanHash t) st = Inr receipt \<Longrightarrow>
    validateDryRunReceipt uq receipt (tb_PlanHash t) = (None :: 'e apply_error option) \<Longrightarrow>
    tombstoneSelectsRun receipt (tb_RunID t) \<Longrightarrow>
    authorised uq ops ts (snd (so_Delete (ops :: ('s, 'e) store) t st)) st' \<Longrightarrow>
    authorised uq ops (t # ts) st st'"

lemma resume_loop_authorised:
  fixes ops :: "('s, 'e) store"
  shows "resume_loop uq ops seen ts st = (r, st') \<Longrightarrow>
   \<exists>done_ts st1. prefix done_ts ts \<and> authorised uq ops done_ts st st1 \<and> distinct done_ts \<and>
     set done_ts \<inter> set seen = {} \<and> (st' = st1 \<or> st' = snd (so_Clear ops st1)) \<and>
     (r = None \<longrightarrow> done_ts = ts)"
proof (induction uq ops seen ts st rule: resume_loop.induct)
  case (1 uq ops seen st)
  then have "st' = snd (so_Clear ops st)" by (auto split: prod.splits option.splits)
  with 1 show ?case by (intro exI [of _ "[]"] exI [of _ st]) (auto intro: stay split: prod.splits option.splits)
next
  case (2 uq ops seen t ts st)
  show ?case
  proof (cases "check_tombstone uq ops seen t st")
    case (Some e)
    from "2.prems" have "st' = st \<and> r \<noteq> None" by (simp add: Some) blast
    then show ?thesis by (intro exI [of _ "[]"] exI [of _ st]) (auto intro: stay)
  next
    case None
    then obtain receipt where rec: "so_DryRunPlan ops (tb_PlanHash t) st = Inr receipt"
      "validateDryRunReceipt uq receipt (tb_PlanHash t) = (None :: 'e apply_error option)"
      "tombstoneSelectsRun receipt (tb_RunID t)" "t \<notin> set seen"
      by (auto simp: check_tombstone_def split: if_splits option.splits sum.splits)
    obtain e st1 where del: "so_Delete ops t st = (e, st1)" by fastforce
    show ?thesis
    proof (cases e)
      case (Some x)
      with "2.prems" None del have "st' = st1" "r \<noteq> None" by auto
      moreover have "authorised uq ops [t] st st1" using rec(1-3) by (rule delete) (simp add: del stay)
      ultimately show ?thesis using rec(4) by (intro exI [of _ "[t]"] exI [of _ st1]) auto
    next
      case ok: None
      with "2.prems" None del have "resume_loop uq ops (t # seen) ts st1 = (r, st')" by auto
      from "2.IH" [OF None del [symmetric] ok this] obtain done_ts st2 where d: "prefix done_ts ts"
        "authorised uq ops done_ts st1 st2" "distinct done_ts" "set done_ts \<inter> set (t # seen) = {}"
        "st' = st2 \<or> st' = snd (so_Clear ops st2)" "r = None \<longrightarrow> done_ts = ts" by blast
      have "authorised uq ops (t # done_ts) st st2" using rec(1-3) by (rule delete) (simp add: del d(2))
      with d rec(4) show ?thesis by (intro exI [of _ "t # done_ts"] exI [of _ st2]) auto
    qed
  qed
qed

text \<open>A tombstone that a valid receipt selects names a run of the receipt's delete sets.\<close>

lemma collect_entries_found:
  "collect_entries reason es found bytes = Inr (found', bytes') \<Longrightarrow> found' = found @ es"
  by (induction reason es found bytes rule: collect_entries.induct) (auto split: if_splits option.splits)

lemma check_pairs_selects:
  "(check_pairs ds index found chosen as :: 'e apply_error + _) = Inr c \<Longrightarrow> tombstone_pairs as i \<Longrightarrow> i \<in> en_RunID ` set found"
proof (induction ds index found chosen "as" rule: check_pairs.induct)
  case (3 ds index found chosen t d rest)
  from "3.prems"(1) obtain e where e: "find (\<lambda>e. en_RunID e = ac_RunID t) found = Some e"
    "(check_pairs ds (index + 2) (filter (\<lambda>x. en_RunID x \<noteq> ac_RunID t) found) (ac_RunID t # chosen) rest
       :: 'e apply_error + _) = Inr c"
    "pair_ok ds index e t d"
    by (auto split: option.splits if_splits)
  have "ac_RunID t \<in> en_RunID ` set found" using find_SomeD [OF e(1)] by (metis image_eqI)
  moreover have "i \<in> en_RunID ` set found" if "tombstone_pairs rest i"
    using "3.IH" [OF e(1) _ e(2) that] e(3) by auto
  ultimately show ?case using "3.prems"(2) by (auto split: if_splits)
qed simp_all

lemma receipt_selects:
  assumes "validateDryRunReceipt uq p h = (None :: 'e apply_error option)" "tombstoneSelectsRun p i"
  shows "i \<in> set (deleted_ids p) \<and> PlanHash uq p = Inr h \<and> cp_PlanHash p = h"
proof -
  from assms(1) have "PlanHash uq p = Inr h \<and> cp_PlanHash p = h"
    and sets: "check_receipt_sets p = (None :: 'e apply_error option)"
    by (auto simp: validateDryRunReceipt_def split: if_splits option.splits sum.splits)
  moreover from sets obtain found ageBytes both sizeBytes chosen where
    "collect_entries ReasonEligibleAge (ds_AgeDeleteSet (cp_DeleteSets p)) [] 0 = (Inr (found, ageBytes) :: 'e apply_error + _)"
    "collect_entries ReasonEligibleSize (ds_SizeDeleteSet (cp_DeleteSets p)) found 0 = (Inr (both, sizeBytes) :: 'e apply_error + _)"
    "check_pairs (cp_RunDecisions p) 0 both [] (cp_OrderedActions p) = (Inr chosen :: 'e apply_error + _)"
    by (auto simp: check_receipt_sets_def split: if_splits option.splits sum.splits prod.splits)
  with collect_entries_found check_pairs_selects assms(2)
  have "i \<in> en_RunID ` set (ds_AgeDeleteSet (cp_DeleteSets p) @ ds_SizeDeleteSet (cp_DeleteSets p))"
    unfolding tombstoneSelectsRun_def by (metis append_Nil)
  ultimately show ?thesis by (auto simp: deleted_ids_def age_ids_def size_ids_def)
qed

lemma authorised_selects:
  fixes ops :: "('s, 'e) store"
  shows "authorised uq ops ts st st' \<Longrightarrow>
    \<forall>t \<in> set ts. \<exists>receipt. PlanHash uq receipt = Inr (tb_PlanHash t) \<and> tb_RunID t \<in> set (deleted_ids receipt)"
proof (induction rule: authorised.induct)
  case (delete t st receipt ts st')
  from receipt_selects [OF delete.hyps(2,3)] delete.IH show ?case by auto
qed simp

text \<open>A resumption is a sequence of authorised deletions, and perhaps the removal of the journals.\<close>

lemma ResumeTombstones_authorised:
  fixes ops :: "('s, 'e) store"
  assumes "ResumeTombstones uq ops st = (r, st')"
  shows "\<exists>ts st1. authorised uq ops ts st st1 \<and> distinct ts \<and>
    (st' = st1 \<or> st' = snd (so_Clear ops st1)) \<and>
    (r = None \<longrightarrow> (\<exists>all. so_Tombstones ops st = Inr all \<and> set ts = set all))"
proof (cases "so_Lock ops st")
  case (Some e)
  with assms have "st' = st" "r \<noteq> None" by (auto simp: ResumeTombstones_def in_transaction_def)
  then show ?thesis by (intro exI [of _ "[]"] exI [of _ st]) (auto intro: authorised.stay)
next
  case None
  show ?thesis
  proof (cases "so_Tombstones ops st")
    case (Inl e)
    with None assms have "st' = st" "r \<noteq> None" by (auto simp: ResumeTombstones_def in_transaction_def)
    then show ?thesis by (intro exI [of _ "[]"] exI [of _ st]) (auto intro: authorised.stay)
  next
    case (Inr all)
    with None assms have "resume_loop uq ops [] (sort_slice tombstone_less all) st = (r, st')"
      by (simp add: ResumeTombstones_def in_transaction_def)
    from resume_loop_authorised [OF this] obtain ts st1 where ts: "authorised uq ops ts st st1" "distinct ts"
      "st' = st1 \<or> st' = snd (so_Clear ops st1)" "r = None \<longrightarrow> ts = sort_slice tombstone_less all" by blast
    have "set (sort_slice tombstone_less all) = set all" by simp
    with ts Inr show ?thesis by (intro exI [of _ ts] exI [of _ st1]) auto
  qed
qed

section \<open>What a plan deletes, without its hash\<close>

definition planned_deletions :: "RetentionSnapshot \<Rightarrow> clean_error + string list" where
  "planned_deletions s =
     (case protect_runs s of
        Inl e \<Rightarrow> Inl e
      | Inr (st, protection) \<Rightarrow>
          (case select_runs s st of
             Inl e \<Rightarrow> Inl e
           | Inr sl \<Rightarrow> Inr (map ob_RunID (sl_Age sl @ sl_Size sl))))"

lemma planned_deletions_Plan: "Plan uq s = Inr p \<Longrightarrow> planned_deletions s = Inr (deleted_ids p)"
  by (auto simp: Plan_def planned_deletions_def Let_def deleted_ids_def
      split: option.splits sum.splits prod.splits)

section \<open>Executions complete\<close>

text \<open>A store on which no operation of an execution fails.\<close>

definition reliable :: "('s, 'e) store \<Rightarrow> bool" where
  "reliable ops \<longleftrightarrow>
     (\<forall>st. so_Lock ops st = None \<and> so_CtxErr ops st = None \<and> fst (so_Clear ops st) = None) \<and>
     (\<forall>t st. fst (so_Tombstone ops t st) = None \<and> fst (so_Delete ops t st) = None)"

lemma run_actions_reliable:
  assumes "reliable ops"
  shows "\<forall>a \<in> set as. ac_Action a \<in> {''tombstone'', ''delete''} \<Longrightarrow>
    run_actions ops hash as st = (None, performed ops hash as st)"
proof (induction "as" arbitrary: st)
  case (Cons a as)
  have ok: "fst (so_Tombstone ops t x) = None" "fst (so_Delete ops t x) = None" "so_CtxErr ops x = None" for t x
    using assms by (simp_all add: reliable_def)
  obtain st1 where st1: "perform ops hash a st = (None, st1)"
    using ok by (cases "perform ops hash a st") (auto simp: perform_def Let_def dest: arg_cong [of _ _ fst] split: if_splits)
  have "run_actions ops hash (a # as) st = run_actions ops hash as st1"
    using st1 Cons.prems ok by (auto simp: perform_def Let_def)
  with Cons st1 show ?case by (simp add: performed_def)
qed (simp add: performed_def)

lemma number_actions_kinds:
  "a \<in> set (number_actions phase reason n rs) \<Longrightarrow> ac_Action a \<in> {''tombstone'', ''delete''}"
  by (induction phase reason n rs rule: number_actions.induct) auto

lemma actionsFor_kinds: "\<forall>a \<in> set (actionsFor age bulk). ac_Action a \<in> {''tombstone'', ''delete''}"
  unfolding actionsFor_def using number_actions_kinds by (metis UnE set_append)

text \<open>
  The apply plan of a fresh plan executes to the end on a reliable store that still holds its
  receipt and its epoch.
\<close>

lemma ExecuteApply_completes:
  fixes ops :: "('s, 'e) store"
  assumes plan: "Plan uq s = Inr p" "machine_sized s" and a: "ApplyPlan uq p = Inr a"
    and store: "reliable ops" "so_DryRunPlan ops (cp_PlanHash p) st = Inr p"
      "so_Snapshot ops st = Inr current" "sn_StoreEpoch current = sn_StoreEpoch s"
  shows "ExecuteApply uq ops a st = (None, performed ops (cp_PlanHash p) (cp_OrderedActions p) st)"
proof -
  have "in_int64 (sn_ProtectedRegularFileBytes s)" using plan(2) by (simp add: machine_sized_def)
  from Plan_result [OF plan(1) this] obtain st0 protection sl h where
    ok: "snapshot_ok s" and "protect_runs s = Inr (st0, protection)" and "select_runs s st0 = Inr sl"
    and sel: "selection_ok s st0 sl" and h: "PlanHash uq (build_plan s protection sl) = Inr h"
    and p: "p = (build_plan s protection sl)\<lparr>cp_PlanHash := h\<rparr>" .
  have hash: "cp_PlanHash p = h" and epoch: "cp_StoreEpoch p = sn_StoreEpoch s"
    and actions: "cp_OrderedActions p = actionsFor (sl_Age sl) (sl_Size sl)" unfolding p by simp_all
  have valid: "validateApplyPlan uq a = (None :: 'e apply_error option)"
    using Plan_apply [OF plan] a by auto
  then obtain ident where ident: "cp_ApplyIdentity a = Some ident"
    by (auto simp: validateApplyPlan_def split: option.splits)
  note fields = ApplyPlan_fields [OF a ident]
  have ih: "ai_DryRunPlanHash ident = h"
    using ApplyPlan_hash [OF a] fields h Plan_hash_facts [OF h, of h] unfolding p by auto
  have "cp_StoreEpoch a = sn_StoreEpoch s"
    using ApplyPlan_hash [OF a] epoch
  proof (elim exE conjE)
    fix x
    assume "a = p\<lparr>cp_Mode := ''apply'', cp_PlanHash := x,
      cp_ApplyIdentity := Some \<lparr>ai_DryRunPlanHash = x, ai_ExpectedStoreEpoch = cp_StoreEpoch p,
        ai_ExpectedInputPolicySHA256 = cp_InputPolicySHA256 p\<rparr>\<rparr>"
    then show ?thesis using epoch by simp
  qed
  then have expected: "ai_ExpectedStoreEpoch ident = sn_StoreEpoch s" using fields by simp
  have good: "\<not> epoch_invalid (sn_StoreEpoch s)"
    using ok by (auto simp: snapshot_ok_def inputs_ok_def validateSnapshotIdentity_def epoch_invalid_def split: if_splits)
  have receipt: "validateDryRunReceipt uq p h = (None :: 'e apply_error option)"
    using Plan_receipt [OF plan] hash by simp
  have "check_receipt uq ops a ident st = None"
    using store hash receipt a expected good by (simp add: check_receipt_def ih)
  moreover have "run_actions ops h (cp_OrderedActions a) st = (None, performed ops h (cp_OrderedActions p) st)"
    using fields run_actions_reliable [OF store(1)] actionsFor_kinds by (simp add: actions)
  ultimately show ?thesis
    using valid ident store(1) hash
    by (simp add: ExecuteApply_def in_transaction_def reliable_def ih)
qed

lemma tombstone_pairs_number:
  "1 \<le> n \<Longrightarrow> n + 2 * int (length rs) \<le> max_int64 \<Longrightarrow>
   tombstone_pairs (number_actions phase reason n rs @ rest) i \<longleftrightarrow>
     i \<in> ob_RunID ` set rs \<or> tombstone_pairs rest i"
proof (induction rs arbitrary: n)
  case (Cons r rs)
  have "wrap64 (n + 1) = n + 1" using Cons.prems by (intro wrap64_between) simp_all
  with Cons show ?case by auto
qed simp

text \<open>Every run that a plan deletes can be resumed from its tombstone.\<close>

lemma Plan_selects:
  assumes "Plan uq s = Inr p" "machine_sized s"
  shows "tombstoneSelectsRun p i \<longleftrightarrow> i \<in> set (deleted_ids p)"
proof -
  have "in_int64 (sn_ProtectedRegularFileBytes s)" using assms(2) by (simp add: machine_sized_def)
  from Plan_result [OF assms(1) this] obtain st protection sl h where
    ok: "snapshot_ok s" and "protect_runs s = Inr (st, protection)" and "select_runs s st = Inr sl"
    and sel: "selection_ok s st sl" and "PlanHash uq (build_plan s protection sl) = Inr h"
    and p: "p = (build_plan s protection sl)\<lparr>cp_PlanHash := h\<rparr>" .
  have "distinct (known_ids s)" using ok by (simp add: snapshot_ok_def inputs_ok_def)
  from selection_size [OF sel this] assms(2)
  have bound: "1 + 2 * int (length (sl_Age sl)) + 2 * int (length (sl_Size sl)) \<le> max_int64"
    by (simp add: machine_sized_def)
  have "tombstone_pairs (actionsFor (sl_Age sl) (sl_Size sl) @ []) i \<longleftrightarrow>
      i \<in> ob_RunID ` set (sl_Age sl) \<or> i \<in> ob_RunID ` set (sl_Size sl)"
    unfolding actionsFor_def append_assoc using bound
    by (subst tombstone_pairs_number, simp, simp, subst tombstone_pairs_number) simp_all
  then show ?thesis unfolding p tombstoneSelectsRun_def deleted_ids_def by simp
qed

end
