(* ===== verification/Sources.thy ===== *)
theory Sources
  imports Targets Go_Text Sha256
begin

text \<open>
  Paths, Git operands and live sources at the boundary (\<open>internal/ports/foundation.go\<close>,
  \<open>internal/ports/live_source.go\<close>, \<open>internal/app/evidence/live_source.go\<close>): the safe relative path,
  the selector of a live source, the target it resolves to, the files read from it and the identity
  of the selection. A \<open>SafeRelativePath\<close> or \<open>GitObjectID\<close> is its text, the zero value the empty one.
  The argument \<open>js\<close> is the text \<open>encoding/json\<close> writes for a string.
\<close>

section \<open>Safe relative paths and Git texts\<close>

datatype path_error =
    PathEmpty
  | PathNUL
  | PathBackslash
  | PathAbsolute
  | PathDots
  | PathNotCanonical
  | PathDotComponent

definition validateSafeRelativePath :: "string \<Rightarrow> path_error option" where
  "validateSafeRelativePath v =
     (if v = '''' then Some PathEmpty
      else if CHR 0x00 \<in> set v then Some PathNUL
      else if CHR 0x5C \<in> set v then Some PathBackslash
      else if HasPrefix v ''/'' then Some PathAbsolute
      else if v = ''.'' \<or> v = ''..'' then Some PathDots
      else if PathClean v \<noteq> v then Some PathNotCanonical
      else if \<exists>c \<in> set (split_on (CHR ''/'') v). c = ''.'' \<or> c = ''..'' then Some PathDotComponent
      else None)"

definition SafeRelativePath_Valid :: "string \<Rightarrow> bool" where
  "SafeRelativePath_Valid v \<longleftrightarrow> validateSafeRelativePath v = None"

definition NewSafeRelativePath :: "string \<Rightarrow> path_error + string" where
  "NewSafeRelativePath v =
     (case validateSafeRelativePath v of Some e \<Rightarrow> Inl e | None \<Rightarrow> Inr v)"

lemma SafeRelativePath_Valid_iff:
  "SafeRelativePath_Valid v \<longleftrightarrow>
     list_all proper_component (split_on (CHR ''/'') v) \<and> CHR 0x00 \<notin> set v \<and> CHR 0x5C \<notin> set v"
proof
  assume valid: "SafeRelativePath_Valid v"
  then have clean: "PathClean v = v" and rel: "\<not> HasPrefix v ''/''"
    and dots: "v \<noteq> ''.''" "v \<noteq> ''..''" and comps: "''..'' \<notin> set (split_on (CHR ''/'') v)"
    and bytes: "CHR 0x00 \<notin> set v" "CHR 0x5C \<notin> set v"
    by (auto simp: SafeRelativePath_Valid_def validateSafeRelativePath_def split: if_splits)
  have "\<not> HasPrefix v ''../''"
    using comps split_on_append [of "CHR ''/''" "''..''"] by (auto simp: HasPrefix_def prefix_def)
  from PathClean_fixed_components [OF clean rel dots this] bytes
  show "list_all proper_component (split_on (CHR ''/'') v) \<and> CHR 0x00 \<notin> set v \<and> CHR 0x5C \<notin> set v"
    by simp
next
  assume v: "list_all proper_component (split_on (CHR ''/'') v) \<and> CHR 0x00 \<notin> set v \<and> CHR 0x5C \<notin> set v"
  then have "\<not> (\<exists>c \<in> set (split_on (CHR ''/'') v). c = ''.'' \<or> c = ''..'')"
    by (auto simp: list_all_iff proper_component_def)
  with v proper_components_path [of v] show "SafeRelativePath_Valid v"
    by (simp add: SafeRelativePath_Valid_def validateSafeRelativePath_def)
qed

definition validateRedactedText :: "string \<Rightarrow> nat \<Rightarrow> bool" where
  "validateRedactedText v limit \<longleftrightarrow>
     length v \<le> limit \<and> \<not> ContainsAny v [CHR 0x00, CHR 0x0D, CHR 0x0A]"

definition validateGitReference :: "string \<Rightarrow> bool" where
  "validateGitReference v \<longleftrightarrow>
     validateRedactedText v 4096 \<and> v \<noteq> '''' \<and> TrimSpace v = v \<and> CHR 0x5C \<notin> set v"

definition validateGitObjectID :: "string \<Rightarrow> bool" where
  "validateGitObjectID v \<longleftrightarrow> (length v = 40 \<or> length v = 64) \<and> list_all is_lower_hex_byte v"

section \<open>Selectors\<close>

record LiveSourceSelector =
  ls_scope :: LiveSourceScope
  ls_value :: string

text \<open>\<open>strings.Cut\<close>: the text before and after the first separator.\<close>

fun Cut :: "string \<Rightarrow> string \<Rightarrow> (string \<times> string) option" where
  "Cut [] sep = (if sep = [] then Some ([], []) else None)"
| "Cut (c # s) sep =
     (if prefix sep (c # s) then Some ([], drop (length sep) (c # s))
      else map_option (\<lambda>(a, b). (c # a, b)) (Cut s sep))"

lemma Cut_append: "Cut s sep = Some (a, b) \<Longrightarrow> s = a @ sep @ b"
proof (induction s arbitrary: a)
  case (Cons c s)
  then show ?case by (auto simp: prefix_def split: if_splits)
qed (simp split: if_splits)

definition liveRangeOperands :: "string \<Rightarrow> string \<times> string \<times> string" where
  "liveRangeOperands v =
     (let operator = if Contains v ''...'' then ''...'' else ''..''
      in case Cut v operator of
           None \<Rightarrow> ('''', '''', '''')
         | Some (left, right) \<Rightarrow>
             if Contains left ''..'' \<or> Contains right ''..'' \<or> HasSuffix left ''.'' \<or> HasPrefix right ''.''
             then ('''', '''', '''') else (left, right, operator))"

datatype live_source_error =
    LiveSelectorInvalid
  | LiveSelectorOperand
  | LiveSelectorRevision
  | LiveSelectorRange
  | LiveTargetSelector
  | LiveTargetOperands
  | LiveTargetHead
  | LiveTargetIndexBase
  | LiveTargetTransition
  | LiveTargetChange
  | LiveFileContent

definition NewLiveSourceSelector ::
    "LiveSourceScope \<Rightarrow> string \<Rightarrow> live_source_error + LiveSourceSelector" where
  "NewLiveSourceSelector scope v =
     (if \<not> LiveSourceScope_Valid scope \<or> length v > 4096 then Inl LiveSelectorInvalid
      else let selector = \<lparr>ls_scope = scope, ls_value = v\<rparr> in
        if scope \<in> {LiveSourceWorkspace, LiveSourceStage, LiveSourceHead}
          then (if v \<noteq> '''' then Inl LiveSelectorOperand else Inr selector)
        else if scope = LiveSourceCommit
          then (if \<not> validateGitReference v \<or> \<not> utf8_valid v then Inl LiveSelectorRevision
                else Inr selector)
        else if scope = LiveSourceDiff
          then (let (left, right, operator) = liveRangeOperands v
                in if \<not> validateGitReference left \<or> \<not> validateGitReference right \<or> \<not> utf8_valid v
                   then Inl LiveSelectorRange else Inr selector)
        else Inr selector)"

definition LiveSourceSelector_Valid :: "LiveSourceSelector \<Rightarrow> bool" where
  "LiveSourceSelector_Valid s = is_ok (NewLiveSourceSelector (ls_scope s) (ls_value s))"

section \<open>Targets\<close>

record LiveSourceChange =
  lc_Kind :: string
  lc_Before :: string
  lc_After :: string

definition LiveSourceChange_Valid :: "LiveSourceChange \<Rightarrow> bool" where
  "LiveSourceChange_Valid c =
     (let before = SafeRelativePath_Valid (lc_Before c); after = SafeRelativePath_Valid (lc_After c)
      in if lc_Kind c = ''included'' \<or> lc_Kind c = ''added'' then \<not> before \<and> after
         else if lc_Kind c = ''deleted'' then before \<and> \<not> after
         else if lc_Kind c = ''modified'' then before \<and> lc_After c = lc_Before c
         else if lc_Kind c = ''renamed'' then before \<and> after \<and> lc_Before c \<noteq> lc_After c
         else False)"

record LiveSourceTarget =
  lt_selector :: LiveSourceSelector
  lt_base :: string
  lt_head :: string
  lt_emptyBase :: bool
  lt_changes :: "LiveSourceChange list"

definition live_operands_error :: "LiveSourceScope \<Rightarrow> bool \<Rightarrow> bool \<Rightarrow> bool \<Rightarrow> live_source_error option" where
  "live_operands_error scope base head emptyBase =
     (if scope = LiveSourceWorkspace
        then (if base \<or> head \<or> emptyBase then Some LiveTargetOperands else None)
      else if scope = LiveSourceHead
        then (if \<not> head \<or> base \<or> emptyBase then Some LiveTargetHead else None)
      else if scope = LiveSourceStage
        then (if head \<or> base = emptyBase then Some LiveTargetIndexBase else None)
      else if scope = LiveSourceCommit \<or> scope = LiveSourceDiff
        then (if \<not> head \<or> base = emptyBase \<or> scope = LiveSourceDiff \<and> emptyBase
              then Some LiveTargetTransition else None)
      else None)"

definition NewLiveSourceTarget ::
    "LiveSourceSelector \<Rightarrow> string \<Rightarrow> string \<Rightarrow> bool \<Rightarrow> LiveSourceChange list \<Rightarrow>
     live_source_error + LiveSourceTarget" where
  "NewLiveSourceTarget selector base head emptyBase changes =
     (if \<not> LiveSourceSelector_Valid selector then Inl LiveTargetSelector
      else case live_operands_error (ls_scope selector) (validateGitObjectID base)
                  (validateGitObjectID head) emptyBase of
        Some e \<Rightarrow> Inl e
      | None \<Rightarrow>
          let wholeTree = (ls_scope selector = LiveSourceWorkspace \<or> ls_scope selector = LiveSourceHead)
          in if \<exists>c \<in> set changes.
                  \<not> LiveSourceChange_Valid c \<or> (lc_Kind c = ''included'') \<noteq> wholeTree
             then Inl LiveTargetChange
             else Inr \<lparr>lt_selector = selector, lt_base = base, lt_head = head,
                        lt_emptyBase = emptyBase, lt_changes = changes\<rparr>)"

section \<open>Files\<close>

record LiveSourceFile =
  lf_path :: string
  lf_bytes :: string
  lf_mediaType :: string
  lf_sha256 :: string

definition validRasterBytes :: "string \<Rightarrow> string \<Rightarrow> bool" where
  "validRasterBytes bytes mediaType =
     (if bytes = [] then False
      else if mediaType = ''image/png''
        then prefix [CHR 0x89, CHR ''P'', CHR ''N'', CHR ''G'', CHR 0x0D, CHR 0x0A, CHR 0x1A, CHR 0x0A] bytes
      else if mediaType = ''image/jpeg'' then prefix [CHR 0xFF, CHR 0xD8, CHR 0xFF] bytes
      else if mediaType = ''image/webp''
        then length bytes \<ge> 12 \<and> prefix ''RIFF'' bytes \<and> take 4 (drop 8 bytes) = ''WEBP''
      else False)"

definition NewLiveSourceFile ::
    "string \<Rightarrow> string \<Rightarrow> string \<Rightarrow> live_source_error + LiveSourceFile" where
  "NewLiveSourceFile path data mediaType =
     (if \<not> SafeRelativePath_Valid path \<or>
         mediaType \<noteq> ''text/plain'' \<and> mediaType \<noteq> ''application/octet-stream'' \<and>
           \<not> validRasterBytes data mediaType \<or>
         mediaType = ''text/plain'' \<and> (\<not> utf8_valid data \<or> CHR 0x00 \<in> set data)
      then Inl LiveFileContent
      else Inr \<lparr>lf_path = path, lf_bytes = data, lf_mediaType = mediaType,
                 lf_sha256 = ''sha256:'' @ sha256_hex data\<rparr>)"

section \<open>The identity of a selection\<close>

record LiveSourceIdentity =
  li_target :: LiveSourceTarget
  li_bytes :: string
  li_sha256 :: string

definition LiveSourceIdentityVersion :: string where
  "LiveSourceIdentityVersion = ''mulgae-live-source.v1''"

text \<open>\<open>json.Marshal\<close> of the wire structure: its fields in their order.\<close>

definition live_wire :: "(string \<Rightarrow> string) \<Rightarrow> LiveSourceTarget \<Rightarrow> string" where
  "live_wire js t =
     (let member = (\<lambda>key txt. CHR 0x22 # key @ CHR 0x22 # CHR '':'' # txt) in
      CHR ''{'' # Join
        [member ''schema_version'' (js LiveSourceIdentityVersion),
         member ''scope'' (js (LiveSourceScope_string (ls_scope (lt_selector t)))),
         member ''operand'' (js (ls_value (lt_selector t))),
         member ''base_oid'' (js (lt_base t)),
         member ''head_oid'' (js (lt_head t)),
         member ''empty_base'' (if lt_emptyBase t then ''true'' else ''false'')] '','' @ ''}'')"

definition NewLiveSourceIdentity ::
    "(string \<Rightarrow> string) \<Rightarrow> LiveSourceTarget \<Rightarrow> live_source_error + LiveSourceIdentity" where
  "NewLiveSourceIdentity js target =
     (case NewLiveSourceTarget (lt_selector target) (lt_base target) (lt_head target)
             (lt_emptyBase target) [] of
        Inl e \<Rightarrow> Inl e
      | Inr t \<Rightarrow>
          Inr \<lparr>li_target = t, li_bytes = live_wire js target,
               li_sha256 = ''sha256:'' @ sha256_hex (live_wire js target)\<rparr>)"

definition LiveSourceIdentity_Valid :: "LiveSourceIdentity \<Rightarrow> bool" where
  "LiveSourceIdentity_Valid i \<longleftrightarrow> li_sha256 i \<noteq> '''' \<and> li_bytes i \<noteq> ''''"

text \<open>The claim of no live source: the zero value.\<close>

definition no_live_source :: LiveSourceIdentity where
  "no_live_source =
     \<lparr>li_target = \<lparr>lt_selector = \<lparr>ls_scope = LiveSourceScopeOther '''', ls_value = ''''\<rparr>, lt_base = '''',
        lt_head = '''', lt_emptyBase = False, lt_changes = []\<rparr>, li_bytes = '''', li_sha256 = ''''\<rparr>"

end
