(* ===== verification/Evidence_Claims.thy ===== *)
theory Evidence_Claims
  imports Sources Compositions
begin

text \<open>
  The evidence verifier (\<open>internal/app/evidence/verifier.go\<close>, \<open>live_source.go\<close>): a claim quotes a
  range of lines of one file of the reviewed target; the verifier reads the file, selects the
  lines and compares them byte by byte with the quote. The result is a receipt with a closed status
  and a digest of the selected lines that binds them to the claim. \<open>nfc\<close> is
  \<open>norm.NFC.String\<close> of \<open>golang.org/x/text\<close>; readers are functions, their errors and the errors of the
  context of any type.
\<close>

section \<open>Sides, statuses, reasons\<close>

datatype Side = SideBase | SideHead | SideWorktree | SideIndex | SideOther string

fun Side_string :: "Side \<Rightarrow> string" where
  "Side_string SideBase = ''base''"
| "Side_string SideHead = ''head''"
| "Side_string SideWorktree = ''worktree''"
| "Side_string SideIndex = ''index''"
| "Side_string (SideOther s) = s"

definition Side_Valid :: "Side \<Rightarrow> bool" where
  "Side_Valid s = oneOf s [SideBase, SideHead, SideWorktree, SideIndex]"

datatype ImmutableTargetAvailability =
    ImmutableTargetAvailable
  | ImmutableTargetStale
  | ImmutableTargetUnavailable
  | ImmutableTargetOther string

datatype ReceiptStatus = ReceiptVerified | ReceiptStale | ReceiptInvalid | ReceiptUnverifiable

datatype ReasonCode =
    ReasonVerified
  | ReasonStaleTarget
  | ReasonInvalidClaim
  | ReasonInvalidPath
  | ReasonInvalidLineRange
  | ReasonLineRangeOutOfBounds
  | ReasonQuoteMismatch
  | ReasonTargetUnavailable
  | ReasonReaderFailure
  | ReasonInvalidReaderAvailability
  | ReasonNilReader
  | ReasonNilContext
  | ReasonContextCanceled

section \<open>Claims\<close>

datatype claim_error =
    ClaimTargetDigest
  | ClaimSide
  | ClaimPathUTF8
  | ClaimPathNFC
  | ClaimPathBreaks
  | ClaimPath path_error
  | ClaimRangePositive
  | ClaimRangeOrder
  | ClaimQuote
  | ClaimLiveIdentity

record CurrentClaimInput =
  ci_TargetSHA256 :: string
  ci_Side :: Side
  ci_Path :: string
  ci_LineStart :: int64
  ci_LineEnd :: int64
  ci_Quote :: string

record CurrentClaim =
  cc_targetSHA256 :: string
  cc_liveSource :: bool
  cc_targetDigest :: "nat list"
  cc_side :: Side
  cc_path :: string
  cc_lineStart :: int64
  cc_lineEnd :: int64
  cc_quote :: string

definition canonicalTargetSHA256 :: "string \<Rightarrow> claim_error + string \<times> nat list" where
  "canonicalTargetSHA256 v =
     (let digest = TrimPrefix v ''sha256:''
      in if length digest \<noteq> 64 \<or> \<not> list_all is_lower_hex_byte digest then Inl ClaimTargetDigest
         else case hex_decode digest of
           None \<Rightarrow> Inl ClaimTargetDigest
         | Some raw \<Rightarrow> Inr (''sha256:'' @ digest, raw))"

definition canonicalCurrentPath :: "(string \<Rightarrow> string) \<Rightarrow> string \<Rightarrow> claim_error + string" where
  "canonicalCurrentPath nfc v =
     (if \<not> utf8_valid v then Inl ClaimPathUTF8
      else if nfc v \<noteq> v then Inl ClaimPathNFC
      else if ContainsAny v [CHR 0x00, CHR 0x0D, CHR 0x0A] then Inl ClaimPathBreaks
      else case NewSafeRelativePath v of Inl e \<Rightarrow> Inl (ClaimPath e) | Inr p \<Rightarrow> Inr p)"

definition NewCurrentClaim ::
    "(string \<Rightarrow> string) \<Rightarrow> CurrentClaimInput \<Rightarrow> claim_error + CurrentClaim" where
  "NewCurrentClaim nfc inp =
     (case canonicalTargetSHA256 (ci_TargetSHA256 inp) of
        Inl e \<Rightarrow> Inl e
      | Inr (target, digest) \<Rightarrow>
          if \<not> Side_Valid (ci_Side inp) then Inl ClaimSide
          else case canonicalCurrentPath nfc (ci_Path inp) of
            Inl e \<Rightarrow> Inl e
          | Inr path \<Rightarrow>
              if ci_LineStart inp \<le> 0 \<or> ci_LineEnd inp \<le> 0 then Inl ClaimRangePositive
              else if ci_LineEnd inp < ci_LineStart inp then Inl ClaimRangeOrder
              else if ci_Quote inp = '''' \<or> \<not> utf8_valid (ci_Quote inp) then Inl ClaimQuote
              else Inr \<lparr>cc_targetSHA256 = target, cc_liveSource = False, cc_targetDigest = digest,
                         cc_side = ci_Side inp, cc_path = path, cc_lineStart = ci_LineStart inp,
                         cc_lineEnd = ci_LineEnd inp, cc_quote = ci_Quote inp\<rparr>)"

definition CurrentClaim_TargetSHA256 :: "CurrentClaim \<Rightarrow> string" where
  "CurrentClaim_TargetSHA256 c = (if cc_liveSource c then '''' else cc_targetSHA256 c)"

definition CurrentClaim_SourceIdentitySHA256 :: "CurrentClaim \<Rightarrow> string" where
  "CurrentClaim_SourceIdentitySHA256 c = (if cc_liveSource c then cc_targetSHA256 c else '''')"

definition NewLiveClaim ::
    "(string \<Rightarrow> string) \<Rightarrow> LiveSourceIdentity \<Rightarrow> Side \<Rightarrow> string \<Rightarrow> int64 \<Rightarrow> int64 \<Rightarrow> string \<Rightarrow>
     claim_error + CurrentClaim" where
  "NewLiveClaim nfc identity side path lineStart lineEnd quote =
     (if \<not> LiveSourceIdentity_Valid identity then Inl ClaimLiveIdentity
      else case NewCurrentClaim nfc
             \<lparr>ci_TargetSHA256 = li_sha256 identity, ci_Side = side, ci_Path = path,
              ci_LineStart = lineStart, ci_LineEnd = lineEnd, ci_Quote = quote\<rparr> of
        Inl e \<Rightarrow> Inl e
      | Inr c \<Rightarrow> Inr (c\<lparr>cc_liveSource := True\<rparr>))"

definition validationReason :: "(string \<Rightarrow> string) \<Rightarrow> CurrentClaim \<Rightarrow> ReasonCode" where
  "validationReason nfc c =
     (if canonicalTargetSHA256 (cc_targetSHA256 c) \<noteq> Inr (cc_targetSHA256 c, cc_targetDigest c)
        then ReasonInvalidClaim
      else if \<not> Side_Valid (cc_side c) then ReasonInvalidClaim
      else if canonicalCurrentPath nfc (cc_path c) \<noteq> Inr (cc_path c) then ReasonInvalidPath
      else if cc_lineStart c \<le> 0 \<or> cc_lineEnd c < cc_lineStart c then ReasonInvalidLineRange
      else if cc_quote c = '''' \<or> \<not> utf8_valid (cc_quote c) then ReasonInvalidClaim
      else ReasonVerified)"

section \<open>Excerpts\<close>

text \<open>
  The two loops of \<open>selectExcerpt\<close>, on the text from \<open>currentStart\<close> on: the first moves to the start
  of a line, the second takes the text up to the end of the last line.
\<close>

function skip_lines :: "string \<Rightarrow> int \<Rightarrow> int \<Rightarrow> string option" where
  "skip_lines rest line lineStart =
     (if line < lineStart then
        (case IndexByte rest (CHR 0x0A) of
           None \<Rightarrow> None
         | Some newline \<Rightarrow>
             if Suc newline = length rest then None
             else skip_lines (drop (Suc newline) rest) (line + 1) lineStart)
      else Some rest)"
  by pat_completeness auto
termination
  by (relation "measure (\<lambda>(rest, line, lineStart). length rest)") (auto dest: IndexByte_bound)

function take_lines :: "string \<Rightarrow> int \<Rightarrow> int \<Rightarrow> string option" where
  "take_lines rest line lineEnd =
     (case IndexByte rest (CHR 0x0A) of
        None \<Rightarrow> if line = lineEnd then Some rest else None
      | Some newline \<Rightarrow>
          if line = lineEnd then Some (take (Suc newline) rest)
          else if Suc newline = length rest then None
          else map_option (\<lambda>more. take (Suc newline) rest @ more)
                 (take_lines (drop (Suc newline) rest) (line + 1) lineEnd))"
  by pat_completeness auto
termination
  by (relation "measure (\<lambda>(rest, line, lineEnd). length rest)") (auto dest: IndexByte_bound)

declare skip_lines.simps [simp del] take_lines.simps [simp del]

definition selectExcerpt :: "string \<Rightarrow> int64 \<Rightarrow> int64 \<Rightarrow> string option" where
  "selectExcerpt target lineStart lineEnd =
     (if target = [] \<or> lineStart \<le> 0 \<or> lineEnd < lineStart then None
      else case skip_lines target 1 lineStart of
        None \<Rightarrow> None
      | Some rest \<Rightarrow> take_lines rest lineStart lineEnd)"

definition excerpt_preimage :: "CurrentClaim \<Rightarrow> string \<Rightarrow> string" where
  "excerpt_preimage c excerpt =
     (let domain = if cc_liveSource c then ''Mulgae-LIVE-EVIDENCE-EXCERPT/1''
                   else ''Mulgae-EVIDENCE-EXCERPT/1''
      in domain @ CHR 0x00 # map char_of (cc_targetDigest c) @ CHR 0x00 # Side_string (cc_side c) @
         CHR 0x00 # cc_path c @ CHR 0x00 # be64 (cc_lineStart c) @ be64 (cc_lineEnd c) @
         CHR 0x00 # excerpt)"

definition excerptSHA256 :: "CurrentClaim \<Rightarrow> string \<Rightarrow> string" where
  "excerptSHA256 c excerpt = ''sha256:'' @ sha256_hex (excerpt_preimage c excerpt)"

section \<open>Receipts and the verifier\<close>

record CurrentReceipt =
  re_claim :: CurrentClaim
  re_status :: ReceiptStatus
  re_reason :: ReasonCode
  re_excerptSHA256 :: string
  re_verifiedExcerpt :: string

definition newReceipt ::
    "CurrentClaim \<Rightarrow> ReceiptStatus \<Rightarrow> ReasonCode \<Rightarrow> string \<Rightarrow> string \<Rightarrow> CurrentReceipt" where
  "newReceipt c status reason digest excerpt =
     \<lparr>re_claim = c, re_status = status, re_reason = reason, re_excerptSHA256 = digest,
      re_verifiedExcerpt = (if status = ReceiptVerified then excerpt else '''')\<rparr>"

text \<open>A verifier reads captured targets, or the one live source it was opened for.\<close>

datatype 'e Verifier =
    CapturedVerifier "string \<Rightarrow> Side \<Rightarrow> string \<Rightarrow> 'e + ImmutableTargetAvailability \<times> string"
  | LiveVerifier LiveSourceIdentity "LiveSourceSide \<Rightarrow> string \<Rightarrow> 'e + LiveSourceFile"

datatype 'e evidence_error =
    EvidenceContext 'e
  | EvidenceReader 'e
  | EvidenceLiveOnImmutable
  | EvidenceIdentityMismatch
  | EvidenceSideInvalid
  | EvidenceUnsupported
  | EvidenceAvailability

definition liveEvidenceSide :: "LiveSourceScope \<Rightarrow> Side \<Rightarrow> LiveSourceSide option" where
  "liveEvidenceSide scope side =
     (if side = SideWorktree \<and> scope = LiveSourceWorkspace then Some LiveSourceWorktree
      else if side = SideIndex \<and> scope = LiveSourceStage then Some LiveSourceIndex
      else if side = SideBase \<and> scope \<in> {LiveSourceStage, LiveSourceCommit, LiveSourceDiff}
        then Some LiveSourceBefore
      else if side = SideHead \<and> scope \<in> {LiveSourceHead, LiveSourceCommit, LiveSourceDiff}
        then Some LiveSourceAfter
      else None)"

definition SupportsSide :: "LiveSourceIdentity \<Rightarrow> Side \<Rightarrow> bool" where
  "SupportsSide i side \<longleftrightarrow>
     LiveSourceIdentity_Valid i \<and> \<not> (side = SideBase \<and> lt_emptyBase (li_target i)) \<and>
     liveEvidenceSide (ls_scope (lt_selector (li_target i))) side \<noteq> None"

definition readLive ::
    "LiveSourceIdentity \<Rightarrow> (LiveSourceSide \<Rightarrow> string \<Rightarrow> 'e + LiveSourceFile) \<Rightarrow> CurrentClaim \<Rightarrow>
     'e evidence_error + string" where
  "readLive identity read c =
     (if \<not> cc_liveSource c \<or> cc_targetSHA256 c \<noteq> li_sha256 identity then Inl EvidenceIdentityMismatch
      else case liveEvidenceSide (ls_scope (lt_selector (li_target identity))) (cc_side c) of
        None \<Rightarrow> Inl EvidenceSideInvalid
      | Some side \<Rightarrow>
          (case read side (cc_path c) of
             Inl e \<Rightarrow> Inl (EvidenceReader e)
           | Inr file \<Rightarrow>
               if lf_path file \<noteq> cc_path c \<or> lf_mediaType file \<noteq> ''text/plain''
               then Inl EvidenceUnsupported else Inr (lf_bytes file)))"

definition read_source ::
    "'e Verifier \<Rightarrow> CurrentClaim \<Rightarrow> 'e evidence_error + ImmutableTargetAvailability \<times> string" where
  "read_source v c =
     (case v of
        LiveVerifier identity read \<Rightarrow>
          (case readLive identity read c of
             Inl e \<Rightarrow> Inl e | Inr bytes \<Rightarrow> Inr (ImmutableTargetAvailable, bytes))
      | CapturedVerifier read \<Rightarrow>
          if cc_liveSource c then Inl EvidenceLiveOnImmutable
          else (case read (cc_targetSHA256 c) (cc_side c) (cc_path c) of
             Inl e \<Rightarrow> Inl (EvidenceReader e) | Inr r \<Rightarrow> Inr r))"

text \<open>\<open>before\<close> and \<open>after\<close> are what \<open>ctx.Err()\<close> returns before and after the read.\<close>

definition VerifyCurrent ::
    "(string \<Rightarrow> string) \<Rightarrow> 'e Verifier \<Rightarrow> 'e option \<Rightarrow> 'e option \<Rightarrow> CurrentClaim \<Rightarrow>
     CurrentReceipt \<times> 'e evidence_error option" where
  "VerifyCurrent nfc v before after c =
     (case before of
        Some e \<Rightarrow>
          (newReceipt c ReceiptUnverifiable ReasonContextCanceled '''' '''', Some (EvidenceContext e))
      | None \<Rightarrow>
          let reason = validationReason nfc c
          in if reason \<noteq> ReasonVerified then (newReceipt c ReceiptInvalid reason '''' '''', None)
          else case read_source v c of
            Inl e \<Rightarrow> (newReceipt c ReceiptUnverifiable ReasonReaderFailure '''' '''', Some e)
          | Inr (availability, bytes) \<Rightarrow>
              (case after of
                 Some e \<Rightarrow>
                   (newReceipt c ReceiptUnverifiable ReasonContextCanceled '''' '''',
                    Some (EvidenceContext e))
               | None \<Rightarrow>
                   (case availability of
                      ImmutableTargetStale \<Rightarrow>
                        (newReceipt c ReceiptStale ReasonStaleTarget '''' '''', None)
                    | ImmutableTargetUnavailable \<Rightarrow>
                        (newReceipt c ReceiptUnverifiable ReasonTargetUnavailable '''' '''', None)
                    | ImmutableTargetOther w \<Rightarrow>
                        (newReceipt c ReceiptUnverifiable ReasonInvalidReaderAvailability '''' '''',
                         Some EvidenceAvailability)
                    | ImmutableTargetAvailable \<Rightarrow>
                        (case selectExcerpt bytes (cc_lineStart c) (cc_lineEnd c) of
                           None \<Rightarrow>
                             (newReceipt c ReceiptInvalid ReasonLineRangeOutOfBounds '''' '''', None)
                         | Some excerpt \<Rightarrow>
                             let digest = excerptSHA256 c excerpt
                             in if cc_quote c \<noteq> excerpt
                                then (newReceipt c ReceiptInvalid ReasonQuoteMismatch digest '''', None)
                                else (newReceipt c ReceiptVerified ReasonVerified digest excerpt,
                                      None)))))"

section \<open>The selected lines\<close>

text \<open>A range of lines, counted from one.\<close>

definition line_range :: "string \<Rightarrow> int \<Rightarrow> int \<Rightarrow> string list" where
  "line_range t i j = take (nat (j - i + 1)) (drop (nat (i - 1)) (lines t))"

lemma skip_lines_drop:
  "rest \<noteq> [] \<Longrightarrow> line \<le> lineStart \<Longrightarrow>
     skip_lines rest line lineStart =
       (if nat (lineStart - line) < length (lines rest)
        then Some (concat (drop (nat (lineStart - line)) (lines rest))) else None) \<and>
     (\<forall>r. skip_lines rest line lineStart = Some r \<longrightarrow>
        r \<noteq> [] \<and> lines r = drop (nat (lineStart - line)) (lines rest))"
proof (induction rest line lineStart rule: skip_lines.induct)
  case (1 rest line lineStart)
  show ?case
  proof (cases "line < lineStart")
    case False
    with "1.prems" have "lineStart = line" by simp
    with "1.prems" lines_not_Nil [of rest] show ?thesis
      by (subst (1 2) skip_lines.simps) (simp add: concat_lines)
  next
    case less: True
    show ?thesis
    proof (cases "IndexByte rest (CHR 0x0A)")
      case None
      with less "1.prems" show ?thesis
        by (subst (1 2) skip_lines.simps) (simp add: lines_last)
    next
      case (Some k)
      let ?n = "nat (lineStart - line)" and ?t = "drop (Suc k) rest"
      have n: "?n = Suc (nat (lineStart - (line + 1)))" using less by simp
      have step: "lines rest = take (Suc k) rest # lines ?t" by (rule lines_step [OF "1.prems"(1) Some])
      have bound: "k < length rest" using Some by (rule IndexByte_bound)
      show ?thesis
      proof (cases "Suc k = length rest")
        case True
        then have "?t = []" by simp
        with less Some True step n show ?thesis
          by (subst (1 2) skip_lines.simps) simp
      next
        case False
        define m where "m = nat (lineStart - (line + 1))"
        have n: "nat (lineStart - line) = Suc m" using less by (simp add: m_def)
        from False bound have "?t \<noteq> []" by simp
        moreover have "line + 1 \<le> lineStart" using less by simp
        ultimately have IH: "skip_lines ?t (line + 1) lineStart =
            (if m < length (lines ?t) then Some (concat (drop m (lines ?t))) else None) \<and>
            (\<forall>r. skip_lines ?t (line + 1) lineStart = Some r \<longrightarrow> r \<noteq> [] \<and> lines r = drop m (lines ?t))"
          unfolding m_def by (rule "1.IH" [OF less Some False])
        have eq: "skip_lines rest line lineStart = skip_lines ?t (line + 1) lineStart"
          using less Some False by (subst skip_lines.simps) simp
        show ?thesis unfolding eq n step
        proof (intro conjI allI impI)
          show "skip_lines ?t (line + 1) lineStart =
              (if Suc m < length (take (Suc k) rest # lines ?t)
               then Some (concat (drop (Suc m) (take (Suc k) rest # lines ?t))) else None)"
            unfolding conjunct1 [OF IH] by simp
        qed (use conjunct2 [OF IH] in auto)
      qed
    qed
  qed
qed

lemma take_lines_take:
  "rest \<noteq> [] \<Longrightarrow> line \<le> lineEnd \<Longrightarrow>
     take_lines rest line lineEnd =
       (if nat (lineEnd - line) < length (lines rest)
        then Some (concat (take (Suc (nat (lineEnd - line))) (lines rest))) else None)"
proof (induction rest line lineEnd rule: take_lines.induct)
  case (1 rest line lineEnd)
  show ?case
  proof (cases "IndexByte rest (CHR 0x0A)")
    case None
    with "1.prems" show ?thesis by (subst take_lines.simps) (simp add: lines_last)
  next
    case (Some k)
    let ?t = "drop (Suc k) rest"
    have step: "lines rest = take (Suc k) rest # lines ?t" by (rule lines_step [OF "1.prems"(1) Some])
    have bound: "k < length rest" using Some by (rule IndexByte_bound)
    show ?thesis
    proof (cases "line = lineEnd")
      case True
      with Some step show ?thesis by (subst take_lines.simps) simp
    next
      case less: False
      with "1.prems" have n: "nat (lineEnd - line) = Suc (nat (lineEnd - (line + 1)))" by simp
      show ?thesis
      proof (cases "Suc k = length rest")
        case True
        then have "?t = []" by simp
        with less Some True step n show ?thesis by (subst take_lines.simps) simp
      next
        case False
        with bound have "?t \<noteq> []" by simp
        note IH = "1.IH" [OF Some less False this]
        define m where "m = nat (lineEnd - (line + 1))"
        have n: "nat (lineEnd - line) = Suc m" using less "1.prems" by (simp add: m_def)
        have "line + 1 \<le> lineEnd" using less "1.prems" by simp
        from IH [OF this] have IH: "take_lines ?t (line + 1) lineEnd =
            (if m < length (lines ?t) then Some (concat (take (Suc m) (lines ?t))) else None)"
          unfolding m_def .
        have "take_lines rest line lineEnd =
            map_option (\<lambda>more. take (Suc k) rest @ more) (take_lines ?t (line + 1) lineEnd)"
          using less Some False by (subst take_lines.simps) simp
        with IH show ?thesis unfolding n step by simp
      qed
    qed
  qed
qed

lemma selectExcerpt_lines:
  "selectExcerpt t i j =
     (if 1 \<le> i \<and> i \<le> j \<and> j \<le> int (length (lines t)) then Some (concat (line_range t i j)) else None)"
proof (cases "t = [] \<or> i \<le> 0 \<or> j < i")
  case True
  then show ?thesis by (auto simp: selectExcerpt_def)
next
  case False
  then have t: "t \<noteq> []" and i: "1 \<le> i" "i \<le> j" by auto
  note skip = skip_lines_drop [OF t i(1)]
  show ?thesis
  proof (cases "skip_lines t 1 i")
    case None
    with skip i have "length (lines t) \<le> nat (i - 1)" by (auto split: if_splits)
    with None i False show ?thesis by (auto simp: selectExcerpt_def)
  next
    case (Some r)
    with skip have r: "r \<noteq> []" "lines r = drop (nat (i - 1)) (lines t)"
      and "nat (i - 1) < length (lines t)" by (auto split: if_splits)
    with i have "nat (j - i) < length (lines r) \<longleftrightarrow> j \<le> int (length (lines t))" by auto
    moreover have "Suc (nat (j - i)) = nat (j - i + 1)" using i by simp
    ultimately show ?thesis
      using False Some take_lines_take [OF r(1) i(2)] i
      by (simp add: selectExcerpt_def line_range_def r(2))
  qed
qed

lemma selectExcerpt_not_Nil: "selectExcerpt t i j = Some x \<Longrightarrow> x \<noteq> []"
proof
  assume some: "selectExcerpt t i j = Some x" and "x = []"
  then have range: "1 \<le> i" "i \<le> j" "j \<le> int (length (lines t))" and nil: "concat (line_range t i j) = []"
    by (auto simp: selectExcerpt_lines split: if_splits)
  have "[] \<notin> set (lines t)" for t
  proof (induction t rule: lines.induct)
    case (1 s)
    show ?case
    proof (cases "s = []")
      case False
      show ?thesis
      proof (cases "IndexByte s (CHR 0x0A)")
        case None
        with False show ?thesis by (simp add: lines_last)
      next
        case (Some k)
        with "1" [OF False Some] False show ?thesis by (simp add: lines_step [OF False Some])
      qed
    qed simp
  qed
  moreover have "line_range t i j \<noteq> []" using range by (simp add: line_range_def)
  moreover have "set (line_range t i j) \<subseteq> set (lines t)"
    unfolding line_range_def by (meson set_drop_subset set_take_subset subset_trans)
  ultimately show False using nil by (cases "line_range t i j") auto
qed

section \<open>What a receipt says\<close>

lemma VerifyCurrent_verified:
  assumes "VerifyCurrent nfc v before after c = (r, e)"
  shows "re_claim r = c \<and>
    (re_status r = ReceiptVerified \<longleftrightarrow>
       before = None \<and> after = None \<and> validationReason nfc c = ReasonVerified \<and>
       (\<exists>bytes. read_source v c = Inr (ImmutableTargetAvailable, bytes) \<and>
          selectExcerpt bytes (cc_lineStart c) (cc_lineEnd c) = Some (cc_quote c))) \<and>
    (re_status r = ReceiptVerified \<longrightarrow>
       e = None \<and> re_reason r = ReasonVerified \<and> re_verifiedExcerpt r = cc_quote c \<and>
       re_excerptSHA256 r = excerptSHA256 c (cc_quote c)) \<and>
    (re_status r \<noteq> ReceiptVerified \<longrightarrow> re_verifiedExcerpt r = '''')"
  using assms
  by (auto simp: VerifyCurrent_def newReceipt_def Let_def
      split: option.splits sum.splits ImmutableTargetAvailability.splits if_splits)

end
