(* ===== verification/Evidence_Groups.thy ===== *)
theory Evidence_Groups
  imports Evidence_Claims Findings
begin

text \<open>
  The evidence of findings (\<open>internal/app/validation/evidence.go\<close>,
  \<open>internal/app/review/evidence.go\<close>): the claims a validated finding rests on, their canonical order
  and the proof that a finding and its claims belong together; the verification of all claims, which
  yields a group of receipts for each finding; and the reduction of the receipts to the evidence state
  of the finding, under a policy that names the severities whose evidence must be verified.
\<close>

section \<open>Claims of a validated finding\<close>

record CurrentEvidenceClaim =
  ec_targetSHA256 :: string
  ec_liveSource :: LiveSourceIdentity
  ec_path :: string
  ec_lineStart :: int64
  ec_lineEnd :: int64
  ec_side :: Side
  ec_quote :: string

definition EvidenceClaim_TargetSHA256 :: "CurrentEvidenceClaim \<Rightarrow> string" where
  "EvidenceClaim_TargetSHA256 c =
     (if LiveSourceIdentity_Valid (ec_liveSource c) then '''' else ec_targetSHA256 c)"

definition EvidenceClaim_SourceIdentitySHA256 :: "CurrentEvidenceClaim \<Rightarrow> string" where
  "EvidenceClaim_SourceIdentitySHA256 c = li_sha256 (ec_liveSource c)"

definition normalizeContent :: "(string \<Rightarrow> string) \<Rightarrow> string \<Rightarrow> string" where
  "normalizeContent ul v = ToLower ul (Join (Fields v) '' '')"

definition compare_text :: "string \<Rightarrow> string \<Rightarrow> int" where
  "compare_text a b = (if a < b then -1 else if a = b then 0 else 1)"

definition CompareCurrentEvidenceClaims ::
    "(string \<Rightarrow> string) \<Rightarrow> CurrentEvidenceClaim \<Rightarrow> CurrentEvidenceClaim \<Rightarrow> int" where
  "CompareCurrentEvidenceClaims ul l r =
     (if compare_text (ec_path l) (ec_path r) \<noteq> 0 then compare_text (ec_path l) (ec_path r)
      else if ec_lineStart l \<noteq> ec_lineStart r then (if ec_lineStart l < ec_lineStart r then -1 else 1)
      else if ec_lineEnd l \<noteq> ec_lineEnd r then (if ec_lineEnd l < ec_lineEnd r then -1 else 1)
      else if compare_text (Side_string (ec_side l)) (Side_string (ec_side r)) \<noteq> 0
        then compare_text (Side_string (ec_side l)) (Side_string (ec_side r))
      else if compare_text (normalizeContent ul (ec_quote l)) (normalizeContent ul (ec_quote r)) \<noteq> 0
        then compare_text (normalizeContent ul (ec_quote l)) (normalizeContent ul (ec_quote r))
      else if compare_text (ec_quote l) (ec_quote r) \<noteq> 0 then compare_text (ec_quote l) (ec_quote r)
      else if compare_text (ec_targetSHA256 l) (ec_targetSHA256 r) \<noteq> 0
        then compare_text (ec_targetSHA256 l) (ec_targetSHA256 r)
      else compare_text (EvidenceClaim_SourceIdentitySHA256 l) (EvidenceClaim_SourceIdentitySHA256 r))"

definition evidenceKey :: "(string \<Rightarrow> string) \<Rightarrow> CurrentEvidenceClaim \<Rightarrow> string" where
  "evidenceKey ul c =
     Join [ec_path c, FormatInt (ec_lineStart c), FormatInt (ec_lineEnd c), Side_string (ec_side c),
           normalizeContent ul (ec_quote c)] [CHR 0x00]"

text \<open>\<open>canonicalTargetSHA256\<close> of \<open>internal/app/validation/review.go\<close>, which does not decode.\<close>

definition trustedTargetSHA256 :: "string \<Rightarrow> string option" where
  "trustedTargetSHA256 v =
     (let digest = TrimPrefix v ''sha256:''
      in if length digest \<noteq> 64 \<or> \<not> list_all is_lower_hex_byte digest then None
         else Some (''sha256:'' @ digest))"

record VerifiedVisualReference =
  vv_path :: string
  vv_sha256 :: string
  vv_x :: int64
  vv_y :: int64
  vv_width :: int64
  vv_height :: int64

definition no_visual :: VerifiedVisualReference where
  "no_visual = \<lparr>vv_path = '''', vv_sha256 = '''', vv_x = 0, vv_y = 0, vv_width = 0, vv_height = 0\<rparr>"

definition VerifiedVisualReference_Valid :: "VerifiedVisualReference \<Rightarrow> bool" where
  "VerifiedVisualReference_Valid v \<longleftrightarrow>
     trustedTargetSHA256 (vv_sha256 v) = Some (vv_sha256 v) \<and> SafeRelativePath_Valid (vv_path v) \<and>
     0 \<le> vv_x v \<and> 0 \<le> vv_y v \<and> 0 < vv_width v \<and> 0 < vv_height v"

definition validCurrentEvidenceClaim :: "CurrentEvidenceClaim \<Rightarrow> bool" where
  "validCurrentEvidenceClaim c \<longleftrightarrow>
     trustedTargetSHA256 (ec_targetSHA256 c) = Some (ec_targetSHA256 c) \<and>
     (\<not> LiveSourceIdentity_Valid (ec_liveSource c) \<or>
        li_sha256 (ec_liveSource c) = ec_targetSHA256 c) \<and>
     SafeRelativePath_Valid (ec_path c) \<and> 0 < ec_lineStart c \<and> ec_lineStart c \<le> ec_lineEnd c \<and>
     Side_Valid (ec_side c) \<and> ec_quote c \<noteq> '''' \<and> utf8_valid (ec_quote c)"

record FindingEvidenceClaims =
  fe_findingID :: string
  fe_targetSHA256 :: string
  fe_finding :: Finding
  fe_claims :: "CurrentEvidenceClaim list"
  fe_visuals :: "VerifiedVisualReference list"

text \<open>The loop of \<open>valid\<close>: \<open>first\<close> is \<open>claims.claims[0]\<close>, \<open>prior\<close> the claim before, if any.\<close>

fun claims_scan ::
    "(string \<Rightarrow> string) \<Rightarrow> string \<Rightarrow> CurrentEvidenceClaim \<Rightarrow> CurrentEvidenceClaim option \<Rightarrow>
     CurrentEvidenceClaim list \<Rightarrow> VerifiedVisualReference list \<Rightarrow> bool" where
  "claims_scan ul target first prior (c # cs) (v # vs) =
     (if \<not> validCurrentEvidenceClaim c \<or> ec_targetSHA256 c \<noteq> target \<or>
         EvidenceClaim_SourceIdentitySHA256 c \<noteq> EvidenceClaim_SourceIdentitySHA256 first \<or>
         (case prior of None \<Rightarrow> False | Some p \<Rightarrow> CompareCurrentEvidenceClaims ul p c > 0)
      then False
      else if v \<noteq> no_visual \<and> \<not> VerifiedVisualReference_Valid v then False
      else claims_scan ul target first (Some c) cs vs)"
| "claims_scan ul target first prior cs vs = True"

definition sameFindingContent :: "Finding \<Rightarrow> Finding \<Rightarrow> bool" where
  "sameFindingContent a b \<longleftrightarrow> clear_id a = clear_id b"

definition reconstruction ::
    "(string \<Rightarrow> string) \<Rightarrow> Finding \<Rightarrow> CurrentEvidenceClaim list \<Rightarrow> FindingInput" where
  "reconstruction ul f cs =
     \<lparr>fi_Severity = f_severity f, fi_Path = ec_path (hd cs), fi_LineStart = ec_lineStart (hd cs),
      fi_Role = f_role f, fi_ProviderInstance = f_providerInstance f, fi_Title = f_title f,
      fi_Description = f_description f, fi_Recommendation = f_recommendation f,
      fi_Confidence = f_confidence f, fi_Lifecycle = f_lifecycle f,
      fi_EvidenceState = f_evidenceState f, fi_NormalizedRuleCategory = f_normalizedRuleCategory f,
      fi_NormalizedEvidenceRegion = Join (map (evidenceKey ul) cs) '' | ''\<rparr>"

definition FindingEvidenceClaims_valid :: "(string \<Rightarrow> string) \<Rightarrow> FindingEvidenceClaims \<Rightarrow> bool" where
  "FindingEvidenceClaims_valid ul p =
     (if fe_findingID p = '''' \<or> fe_findingID p \<noteq> f_id (fe_finding p) \<or> fe_targetSHA256 p = '''' \<or>
         f_lifecycle (fe_finding p) \<noteq> FindingOpen \<or>
         f_evidenceState (fe_finding p) \<noteq> EvidenceUnverified \<or>
         Finding_Validate ul (fe_finding p) \<noteq> None \<or> fe_claims p = [] \<or>
         length (fe_visuals p) \<noteq> length (fe_claims p)
      then False
      else if \<not> claims_scan ul (fe_targetSHA256 p) (hd (fe_claims p)) None (fe_claims p) (fe_visuals p)
      then False
      else case NewFinding ul (reconstruction ul (fe_finding p) (fe_claims p)) of
        Inl e \<Rightarrow> False
      | Inr g \<Rightarrow> sameFindingContent g (fe_finding p))"

definition MatchesFinding :: "(string \<Rightarrow> string) \<Rightarrow> FindingEvidenceClaims \<Rightarrow> Finding \<Rightarrow> bool" where
  "MatchesFinding ul p f \<longleftrightarrow> fe_finding p = f \<and> FindingEvidenceClaims_valid ul p"

section \<open>The policy\<close>

record EvidencePolicy =
  pol_required :: "Severity list"
  pol_structural :: bool

definition minimumEvidenceSeverities :: "Severity list" where
  "minimumEvidenceSeverities = [SeverityHigh, SeverityCritical, SeverityBlocker]"

definition Requires :: "EvidencePolicy \<Rightarrow> Severity \<Rightarrow> bool" where
  "Requires p s \<longleftrightarrow> s \<in> set (pol_required p)"

fun ranks_ascend :: "Severity list \<Rightarrow> bool" where
  "ranks_ascend (s # t # ss) \<longleftrightarrow> Severity_Rank s < Severity_Rank t \<and> ranks_ascend (t # ss)"
| "ranks_ascend ss \<longleftrightarrow> True"

definition EvidencePolicy_valid :: "EvidencePolicy \<Rightarrow> bool" where
  "EvidencePolicy_valid p =
     (if pol_structural p then pol_required p = []
      else if length (pol_required p) < length minimumEvidenceSeverities then False
      else if \<not> list_all Severity_Valid (pol_required p) \<or> \<not> ranks_ascend (pol_required p) then False
      else list_all (Requires p) minimumEvidenceSeverities)"

datatype evidence_policy_error = PolicySeverityInvalid Severity | PolicyMinimum

definition NewEvidencePolicy :: "Severity list \<Rightarrow> evidence_policy_error + EvidencePolicy" where
  "NewEvidencePolicy required =
     (case find (\<lambda>s. \<not> Severity_Valid s) required of
        Some s \<Rightarrow> Inl (PolicySeverityInvalid s)
      | None \<Rightarrow>
          if \<not> list_all (\<lambda>s. s \<in> set required) minimumEvidenceSeverities then Inl PolicyMinimum
          else Inr \<lparr>pol_required =
                     sort_slice (\<lambda>a b. Severity_Rank a < Severity_Rank b) (remdups required),
                   pol_structural = False\<rparr>)"

definition structuralEvidencePolicy :: EvidencePolicy where
  "structuralEvidencePolicy = \<lparr>pol_required = [], pol_structural = True\<rparr>"

section \<open>Verified groups\<close>

record VerifiedFindingEvidence =
  ve_findingID :: string
  ve_finding :: Finding
  ve_validationProof :: FindingEvidenceClaims
  ve_claims :: "CurrentEvidenceClaim list"
  ve_receipts :: "CurrentReceipt list"

definition sameFindingIdentity :: "Finding \<Rightarrow> Finding \<Rightarrow> bool" where
  "sameFindingIdentity a b \<longleftrightarrow> clear_id a = clear_id b"

definition matchesFinding :: "(string \<Rightarrow> string) \<Rightarrow> VerifiedFindingEvidence \<Rightarrow> Finding \<Rightarrow> bool" where
  "matchesFinding ul g f =
     (case Finding_WithEvidenceState ul f (f_evidenceState (ve_finding g)) of
        Inl e \<Rightarrow> False
      | Inr st \<Rightarrow>
          ve_findingID g = f_id f \<and> sameFindingIdentity (ve_finding g) st \<and>
          MatchesFinding ul (ve_validationProof g) (ve_finding g))"

definition receiptMatchesValidationClaim :: "CurrentReceipt \<Rightarrow> CurrentEvidenceClaim \<Rightarrow> bool" where
  "receiptMatchesValidationClaim r c \<longleftrightarrow>
     CurrentClaim_TargetSHA256 (re_claim r) = EvidenceClaim_TargetSHA256 c \<and>
     CurrentClaim_SourceIdentitySHA256 (re_claim r) = EvidenceClaim_SourceIdentitySHA256 c \<and>
     cc_path (re_claim r) = ec_path c \<and> cc_side (re_claim r) = ec_side c \<and>
     cc_lineStart (re_claim r) = ec_lineStart c \<and> cc_lineEnd (re_claim r) = ec_lineEnd c \<and>
     cc_quote (re_claim r) = ec_quote c"

definition currentEvidenceClaimsEqual :: "CurrentEvidenceClaim \<Rightarrow> CurrentEvidenceClaim \<Rightarrow> bool" where
  "currentEvidenceClaimsEqual a b \<longleftrightarrow>
     EvidenceClaim_TargetSHA256 a = EvidenceClaim_TargetSHA256 b \<and>
     EvidenceClaim_SourceIdentitySHA256 a = EvidenceClaim_SourceIdentitySHA256 b \<and>
     ec_path a = ec_path b \<and> ec_side a = ec_side b \<and> ec_lineStart a = ec_lineStart b \<and>
     ec_lineEnd a = ec_lineEnd b \<and> ec_quote a = ec_quote b"

section \<open>From receipts to the state of a finding\<close>

definition receiptClosedEvidenceState :: "CurrentReceipt \<Rightarrow> EvidenceState \<times> bool" where
  "receiptClosedEvidenceState r =
     (if re_reason r = ReasonInvalidPath then (EvidenceInvalidPath, re_status r = ReceiptInvalid)
      else if re_reason r = ReasonInvalidLineRange \<or> re_reason r = ReasonLineRangeOutOfBounds
        then (EvidenceInvalidLine, re_status r = ReceiptInvalid)
      else if re_reason r = ReasonQuoteMismatch
        then (EvidenceQuoteMismatch, re_status r = ReceiptInvalid)
      else if re_reason r = ReasonStaleTarget
        then (EvidenceOutsideScope, re_status r = ReceiptStale)
      else (EvidenceUnverified, False))"

fun closed_scan :: "EvidenceState \<Rightarrow> CurrentReceipt list \<Rightarrow> EvidenceState" where
  "closed_scan state [] = state"
| "closed_scan state (r # rs) =
     (let (other, exact) = receiptClosedEvidenceState r
      in if \<not> exact \<or> other \<noteq> state then EvidenceUnverified else closed_scan state rs)"

definition closedUnverifiedEvidenceState :: "CurrentReceipt list \<Rightarrow> EvidenceState" where
  "closedUnverifiedEvidenceState rs =
     (let (state, exact) = receiptClosedEvidenceState (hd rs)
      in if \<not> exact then EvidenceUnverified else closed_scan state (tl rs))"

definition reducedEvidenceState :: "CurrentReceipt list \<Rightarrow> EvidenceState" where
  "reducedEvidenceState rs =
     (let verified = length (filter (\<lambda>r. re_status r = ReceiptVerified) rs)
      in if verified = length rs then EvidenceVerified
         else if verified \<noteq> 0 then EvidencePartiallyVerified
         else closedUnverifiedEvidenceState rs)"

datatype reduction_error =
    ReductionPolicy
  | ReductionCounts
  | ReductionFindingID nat
  | ReductionGroup nat
  | ReductionNoClaims nat
  | ReductionClaimCounts nat
  | ReductionClaim nat nat
  | ReductionReceipt nat nat
  | ReductionFinding nat finding_error
  | EvidencePolicyRejected string Severity EvidenceState

fun check_group_claims ::
    "nat \<Rightarrow> nat \<Rightarrow> CurrentReceipt list \<Rightarrow> CurrentEvidenceClaim list \<Rightarrow> CurrentEvidenceClaim list \<Rightarrow>
     reduction_error option" where
  "check_group_claims i k (r # rs) (c # cs) (p # ps) =
     (if \<not> currentEvidenceClaimsEqual c p then Some (ReductionClaim i k)
      else if \<not> receiptMatchesValidationClaim r c then Some (ReductionReceipt i k)
      else check_group_claims i (Suc k) rs cs ps)"
| "check_group_claims i k rs cs ps = None"

definition reduce_finding ::
    "(string \<Rightarrow> string) \<Rightarrow> EvidencePolicy \<Rightarrow> nat \<Rightarrow> Finding \<Rightarrow> VerifiedFindingEvidence \<Rightarrow>
     reduction_error + Finding" where
  "reduce_finding ul policy i f g =
     (if f_id f \<noteq> final_id i then Inl (ReductionFindingID i)
      else if \<not> matchesFinding ul g f then Inl (ReductionGroup i)
      else let proofs = fe_claims (ve_validationProof g) in
        if proofs = [] \<or> ve_claims g = [] \<or> ve_receipts g = [] then Inl (ReductionNoClaims i)
        else if length (ve_receipts g) \<noteq> length (ve_claims g) \<or> length (ve_claims g) \<noteq> length proofs
          then Inl (ReductionClaimCounts i)
        else case check_group_claims i 0 (ve_receipts g) (ve_claims g) proofs of
          Some e \<Rightarrow> Inl e
        | None \<Rightarrow>
            let state = reducedEvidenceState (ve_receipts g)
            in case Finding_WithEvidenceState ul f state of
              Inl e \<Rightarrow> Inl (ReductionFinding i e)
            | Inr updated \<Rightarrow>
                if Requires policy (f_severity updated) \<and> state \<noteq> EvidenceVerified
                then Inl (EvidencePolicyRejected (f_id updated) (f_severity updated) state)
                else Inr updated)"

fun reduce_findings ::
    "(string \<Rightarrow> string) \<Rightarrow> EvidencePolicy \<Rightarrow> nat \<Rightarrow> Finding list \<Rightarrow> VerifiedFindingEvidence list \<Rightarrow>
     reduction_error + Finding list" where
  "reduce_findings ul policy i (f # fs) (g # gs) =
     (case reduce_finding ul policy i f g of
        Inl e \<Rightarrow> Inl e
      | Inr updated \<Rightarrow>
          (case reduce_findings ul policy (Suc i) fs gs of
             Inl e \<Rightarrow> Inl e | Inr rest \<Rightarrow> Inr (updated # rest)))"
| "reduce_findings ul policy i fs gs = Inr []"

definition ReduceVerifiedFindingEvidence ::
    "(string \<Rightarrow> string) \<Rightarrow> Finding list \<Rightarrow> VerifiedFindingEvidence list \<Rightarrow> EvidencePolicy \<Rightarrow>
     reduction_error + Finding list" where
  "ReduceVerifiedFindingEvidence ul fs gs policy =
     (if \<not> EvidencePolicy_valid policy then Inl ReductionPolicy
      else if length fs \<noteq> length gs then Inl ReductionCounts
      else reduce_findings ul policy 0 fs gs)"

section \<open>Verification of all claims\<close>

text \<open>
  Each look at the context happens at its own place: \<open>ctx\<close> says what it returns there. The verifier
  is asked anew for each claim; \<open>reader i k\<close> is how it reads at that moment.
\<close>

datatype look =
    LookStart
  | LookGroup nat
  | LookPrepare nat nat
  | LookVerify nat nat
  | LookBeforeRead nat nat
  | LookAfterRead nat nat
  | LookReceipt nat nat

datatype 'e verification_error =
    VerifyContext 'e
  | VerifyGroupID nat
  | VerifyGroupProof nat
  | VerifyGroupFindingID nat
  | VerifyNoClaims nat
  | VerifyClaimInvalid nat nat claim_error
  | VerifyClaimSide nat nat
  | VerifyClaimOrder nat
  | VerifyFailed nat nat "'e evidence_error"
  | VerifyReceipt nat nat

definition newVerifiedCurrentClaim ::
    "(string \<Rightarrow> string) \<Rightarrow> CurrentEvidenceClaim \<Rightarrow> claim_error + CurrentClaim" where
  "newVerifiedCurrentClaim nfc c =
     (if \<not> Side_Valid (ec_side c) then Inl ClaimSide
      else if LiveSourceIdentity_Valid (ec_liveSource c)
        then NewLiveClaim nfc (ec_liveSource c) (ec_side c) (ec_path c) (ec_lineStart c) (ec_lineEnd c)
               (ec_quote c)
      else NewCurrentClaim nfc
             \<lparr>ci_TargetSHA256 = EvidenceClaim_TargetSHA256 c, ci_Side = ec_side c, ci_Path = ec_path c,
              ci_LineStart = ec_lineStart c, ci_LineEnd = ec_lineEnd c, ci_Quote = ec_quote c\<rparr>)"

fun prepare_claims ::
    "(string \<Rightarrow> string) \<Rightarrow> (string \<Rightarrow> string) \<Rightarrow> (look \<Rightarrow> 'e option) \<Rightarrow> nat \<Rightarrow> nat \<Rightarrow>
     CurrentEvidenceClaim option \<Rightarrow> CurrentEvidenceClaim list \<Rightarrow>
     'e verification_error + CurrentClaim list" where
  "prepare_claims ul nfc ctx i k prior [] = Inr []"
| "prepare_claims ul nfc ctx i k prior (c # cs) =
     (case ctx (LookPrepare i k) of
        Some e \<Rightarrow> Inl (VerifyContext e)
      | None \<Rightarrow>
          (case newVerifiedCurrentClaim nfc c of
             Inl e \<Rightarrow> Inl (VerifyClaimInvalid i k e)
           | Inr converted \<Rightarrow>
               if (case prior of None \<Rightarrow> False | Some p \<Rightarrow> CompareCurrentEvidenceClaims ul p c > 0)
               then Inl (VerifyClaimOrder i)
               else (case prepare_claims ul nfc ctx i (Suc k) (Some c) cs of
                  Inl e \<Rightarrow> Inl e | Inr rest \<Rightarrow> Inr (converted # rest))))"

definition prepare_group ::
    "(string \<Rightarrow> string) \<Rightarrow> (string \<Rightarrow> string) \<Rightarrow> (look \<Rightarrow> 'e option) \<Rightarrow> nat \<Rightarrow>
     FindingEvidenceClaims \<Rightarrow> 'e verification_error + CurrentClaim list" where
  "prepare_group ul nfc ctx i g =
     (case ctx (LookGroup i) of
        Some e \<Rightarrow> Inl (VerifyContext e)
      | None \<Rightarrow>
          if fe_findingID g \<noteq> final_id i then Inl (VerifyGroupID i)
          else if \<not> MatchesFinding ul g (fe_finding g) then Inl (VerifyGroupProof i)
          else if f_id (fe_finding g) \<noteq> fe_findingID g then Inl (VerifyGroupFindingID i)
          else if fe_claims g = [] then Inl (VerifyNoClaims i)
          else prepare_claims ul nfc ctx i 0 None (fe_claims g))"

fun prepare_groups ::
    "(string \<Rightarrow> string) \<Rightarrow> (string \<Rightarrow> string) \<Rightarrow> (look \<Rightarrow> 'e option) \<Rightarrow> nat \<Rightarrow>
     FindingEvidenceClaims list \<Rightarrow>
     'e verification_error + (FindingEvidenceClaims \<times> CurrentClaim list) list" where
  "prepare_groups ul nfc ctx i [] = Inr []"
| "prepare_groups ul nfc ctx i (g # gs) =
     (case prepare_group ul nfc ctx i g of
        Inl e \<Rightarrow> Inl e
      | Inr cs \<Rightarrow>
          (case prepare_groups ul nfc ctx (Suc i) gs of
             Inl e \<Rightarrow> Inl e | Inr rest \<Rightarrow> Inr ((g, cs) # rest)))"

fun verify_claims ::
    "(string \<Rightarrow> string) \<Rightarrow> (nat \<Rightarrow> nat \<Rightarrow> 'e Verifier) \<Rightarrow> (look \<Rightarrow> 'e option) \<Rightarrow> nat \<Rightarrow> nat \<Rightarrow>
     CurrentClaim list \<Rightarrow> CurrentEvidenceClaim list \<Rightarrow> 'e verification_error + CurrentReceipt list" where
  "verify_claims nfc reader ctx i k (c # cs) (v # vs) =
     (case ctx (LookVerify i k) of
        Some e \<Rightarrow> Inl (VerifyContext e)
      | None \<Rightarrow>
          (case VerifyCurrent nfc (reader i k) (ctx (LookBeforeRead i k)) (ctx (LookAfterRead i k)) c of
             (r, Some e) \<Rightarrow> Inl (VerifyFailed i k e)
           | (r, None) \<Rightarrow>
               (case ctx (LookReceipt i k) of
                  Some e \<Rightarrow> Inl (VerifyContext e)
                | None \<Rightarrow>
                    if \<not> receiptMatchesValidationClaim r v then Inl (VerifyReceipt i k)
                    else (case verify_claims nfc reader ctx i (Suc k) cs vs of
                       Inl e \<Rightarrow> Inl e | Inr rest \<Rightarrow> Inr (r # rest)))))"
| "verify_claims nfc reader ctx i k cs vs = Inr []"

fun verify_groups ::
    "(string \<Rightarrow> string) \<Rightarrow> (nat \<Rightarrow> nat \<Rightarrow> 'e Verifier) \<Rightarrow> (look \<Rightarrow> 'e option) \<Rightarrow> nat \<Rightarrow>
     (FindingEvidenceClaims \<times> CurrentClaim list) list \<Rightarrow>
     'e verification_error + VerifiedFindingEvidence list" where
  "verify_groups nfc reader ctx i [] = Inr []"
| "verify_groups nfc reader ctx i ((g, cs) # rest) =
     (case verify_claims nfc reader ctx i 0 cs (fe_claims g) of
        Inl e \<Rightarrow> Inl e
      | Inr rs \<Rightarrow>
          (case verify_groups nfc reader ctx (Suc i) rest of
             Inl e \<Rightarrow> Inl e
           | Inr others \<Rightarrow>
               Inr (\<lparr>ve_findingID = fe_findingID g, ve_finding = fe_finding g, ve_validationProof = g,
                     ve_claims = fe_claims g, ve_receipts = rs\<rparr> # others)))"

definition VerifyValidatedEvidence ::
    "(string \<Rightarrow> string) \<Rightarrow> (string \<Rightarrow> string) \<Rightarrow> (nat \<Rightarrow> nat \<Rightarrow> 'e Verifier) \<Rightarrow> (look \<Rightarrow> 'e option) \<Rightarrow>
     FindingEvidenceClaims list \<Rightarrow> 'e verification_error + VerifiedFindingEvidence list" where
  "VerifyValidatedEvidence ul nfc reader ctx gs =
     (case ctx LookStart of
        Some e \<Rightarrow> Inl (VerifyContext e)
      | None \<Rightarrow>
          (case prepare_groups ul nfc ctx 0 gs of
             Inl e \<Rightarrow> Inl e | Inr prepared \<Rightarrow> verify_groups nfc reader ctx 0 prepared))"

end
