(* ===== verification/Evidence_Facts.thy ===== *)
theory Evidence_Facts
  imports Evidence_Groups
begin

text \<open>
  What the evidence pipeline establishes: the order of claims is total, the reduction of receipts says
  what it should, every policy covers the three highest severities, and a finding that is accepted as
  verified quotes the source that was read.
\<close>

section \<open>The order of claims\<close>

definition claim_key ::
    "(string \<Rightarrow> string) \<Rightarrow> CurrentEvidenceClaim \<Rightarrow> string \<times> int64 \<times> int64 \<times> string list" where
  "claim_key ul c =
     (ec_path c, ec_lineStart c, ec_lineEnd c,
      [Side_string (ec_side c), normalizeContent ul (ec_quote c), ec_quote c, ec_targetSHA256 c,
       li_sha256 (ec_liveSource c)])"

definition three_way :: "'a :: linorder \<Rightarrow> 'a \<Rightarrow> int" where
  "three_way a b = (if a < b then -1 else if a = b then 0 else 1)"

lemma three_way_pair:
  "three_way (a, b) (c, d) = (if three_way a c \<noteq> 0 then three_way a c else three_way b d)"
  by (auto simp: three_way_def)

lemma three_way_list:
  "three_way [a] [b] = three_way a b"
  "three_way (a # b # x) (c # d # y) = (if three_way a c \<noteq> 0 then three_way a c else three_way (b # x) (d # y))"
  by (auto simp: three_way_def)

lemma three_way_cascade:
  "(if a \<noteq> b then (if a < b then -1 else 1) else k) = (if three_way a b \<noteq> 0 then three_way a b else k)"
  by (auto simp: three_way_def)

lemma compare_text_three_way: "compare_text a b = three_way a b"
  by (simp add: compare_text_def three_way_def)

lemma Compare_key: "CompareCurrentEvidenceClaims ul l r = three_way (claim_key ul l) (claim_key ul r)"
  by (simp only: CompareCurrentEvidenceClaims_def claim_key_def three_way_pair three_way_list
      compare_text_three_way three_way_cascade EvidenceClaim_SourceIdentitySHA256_def)

lemma three_way_less: "three_way a b < 0 \<longleftrightarrow> a < b" "three_way a b > 0 \<longleftrightarrow> b < a"
  by (auto simp: three_way_def)

interpretation claim_order: sort_order "\<lambda>a b. CompareCurrentEvidenceClaims ul a b < 0" for ul
  using sort_order_key [of "claim_key ul"] by (simp add: Compare_key three_way_less)

section \<open>The policy\<close>

lemma ranks_ascend_sorted: "ranks_ascend ss \<longleftrightarrow> sorted_wrt (<) (map Severity_Rank ss)"
proof (induction ss rule: ranks_ascend.induct)
  case (1 s t ss)
  then show ?case by (auto intro: less_trans)
qed simp_all

interpretation severity_order: sort_order "\<lambda>a b. Severity_Rank a < Severity_Rank b"
  by (rule sort_order_key)

lemma sorted_ranks_strict:
  "sorted_wrt (\<lambda>x y. \<not> Severity_Rank y < Severity_Rank x) ss \<Longrightarrow> distinct ss \<Longrightarrow>
   list_all Severity_Valid ss \<Longrightarrow> sorted_wrt (<) (map Severity_Rank ss)"
proof (induction ss)
  case (Cons s ss)
  have "Severity_Rank s \<noteq> Severity_Rank t" if "t \<in> set ss" for t
    using that Cons.prems Severity_Rank_inject [of s t] by (auto simp: list_all_iff)
  with Cons show ?case by fastforce
qed simp

lemma NewEvidencePolicy_valid:
  assumes "NewEvidencePolicy required = Inr p"
  shows "EvidencePolicy_valid p \<and> \<not> pol_structural p \<and> set (pol_required p) = set required"
proof -
  have none: "find (\<lambda>s. \<not> Severity_Valid s) required = None"
    and least: "list_all (\<lambda>s. s \<in> set required) minimumEvidenceSeverities"
    and p: "p = \<lparr>pol_required = sort_slice (\<lambda>a b. Severity_Rank a < Severity_Rank b) (remdups required),
      pol_structural = False\<rparr>"
    using assms by (auto simp: NewEvidencePolicy_def split: option.splits if_splits)
  have valid: "list_all Severity_Valid (pol_required p)"
    using none by (auto simp: p find_None_iff list_all_iff)
  have "ranks_ascend (pol_required p)"
    unfolding ranks_ascend_sorted
    using severity_order.sorted_sort_slice [of "remdups required"] valid
    by (intro sorted_ranks_strict) (simp_all add: p severity_order.sorted_by_def)
  moreover have "set minimumEvidenceSeverities \<subseteq> set (pol_required p)"
    using least by (auto simp: p list_all_iff)
  moreover from this have "length minimumEvidenceSeverities \<le> length (pol_required p)"
    using card_mono [of "set (pol_required p)" "set minimumEvidenceSeverities"]
      card_length [of "pol_required p"]
    by (simp add: minimumEvidenceSeverities_def)
  ultimately show ?thesis
    using valid by (auto simp: EvidencePolicy_valid_def Requires_def list_all_iff p)
qed

lemma EvidencePolicy_minimum:
  "EvidencePolicy_valid p \<Longrightarrow> \<not> pol_structural p \<Longrightarrow>
     s \<in> {SeverityHigh, SeverityCritical, SeverityBlocker} \<Longrightarrow> Requires p s"
  by (auto simp: EvidencePolicy_valid_def minimumEvidenceSeverities_def split: if_splits)

section \<open>The state of a finding\<close>

definition closed_as :: "EvidenceState \<Rightarrow> CurrentReceipt \<Rightarrow> bool" where
  "closed_as s r \<longleftrightarrow> receiptClosedEvidenceState r = (s, True)"

lemma closed_as_reason:
  "closed_as s r \<longleftrightarrow>
     (case s of
        EvidenceInvalidPath \<Rightarrow> re_status r = ReceiptInvalid \<and> re_reason r = ReasonInvalidPath
      | EvidenceInvalidLine \<Rightarrow> re_status r = ReceiptInvalid \<and>
          (re_reason r = ReasonInvalidLineRange \<or> re_reason r = ReasonLineRangeOutOfBounds)
      | EvidenceQuoteMismatch \<Rightarrow> re_status r = ReceiptInvalid \<and> re_reason r = ReasonQuoteMismatch
      | EvidenceOutsideScope \<Rightarrow> re_status r = ReceiptStale \<and> re_reason r = ReasonStaleTarget
      | _ \<Rightarrow> False)"
  by (auto simp: closed_as_def receiptClosedEvidenceState_def split: if_splits EvidenceState.splits)

lemma closed_scan_result:
  "closed_scan s rs = (if \<forall>r \<in> set rs. closed_as s r then s else EvidenceUnverified)"
  by (induction rs) (auto simp: closed_as_def split: prod.splits)

lemma closed_as_state: "closed_as s r \<Longrightarrow> s \<noteq> EvidenceUnverified \<and> s \<noteq> EvidenceVerified \<and> s \<noteq> EvidencePartiallyVerified"
  by (auto simp: closed_as_def receiptClosedEvidenceState_def split: if_splits)

lemma closed_result:
  assumes "rs \<noteq> []"
  shows "s \<noteq> EvidenceUnverified \<Longrightarrow>
      closedUnverifiedEvidenceState rs = s \<longleftrightarrow> (\<forall>r \<in> set rs. closed_as s r)"
    and "closedUnverifiedEvidenceState rs \<notin> {EvidenceVerified, EvidencePartiallyVerified}"
proof -
  obtain r ts where rs: "rs = r # ts" using assms by (cases rs) auto
  obtain c e where c: "receiptClosedEvidenceState r = (c, e)" by (cases "receiptClosedEvidenceState r")
  have "e \<Longrightarrow> closed_as c r" using c by (simp add: closed_as_def)
  then have kind: "e \<Longrightarrow> c \<notin> {EvidenceUnverified, EvidenceVerified, EvidencePartiallyVerified}"
    using closed_as_state by blast
  show "closedUnverifiedEvidenceState rs = s \<longleftrightarrow> (\<forall>r \<in> set rs. closed_as s r)" if "s \<noteq> EvidenceUnverified"
    using that c by (auto simp: rs closedUnverifiedEvidenceState_def closed_scan_result closed_as_def)
  show "closedUnverifiedEvidenceState rs \<notin> {EvidenceVerified, EvidencePartiallyVerified}"
    using kind c by (auto simp: rs closedUnverifiedEvidenceState_def closed_scan_result)
qed

lemma reducedEvidenceState_exact:
  assumes "rs \<noteq> []"
  shows "reducedEvidenceState rs = EvidenceVerified \<longleftrightarrow> (\<forall>r \<in> set rs. re_status r = ReceiptVerified)"
    and "reducedEvidenceState rs = EvidencePartiallyVerified \<longleftrightarrow>
      (\<exists>r \<in> set rs. re_status r = ReceiptVerified) \<and> (\<exists>r \<in> set rs. re_status r \<noteq> ReceiptVerified)"
    and "s \<notin> {EvidenceVerified, EvidencePartiallyVerified, EvidenceUnverified} \<Longrightarrow>
      reducedEvidenceState rs = s \<longleftrightarrow>
        (\<forall>r \<in> set rs. re_status r \<noteq> ReceiptVerified) \<and> (\<forall>r \<in> set rs. closed_as s r)"
proof -
  let ?ok = "\<lambda>r. re_status r = ReceiptVerified"
  have all: "length (filter ?ok rs) = length rs \<longleftrightarrow> (\<forall>r \<in> set rs. ?ok r)"
    using length_filter_less [of _ rs ?ok] filter_True [of rs ?ok] by (metis less_irrefl)
  have none: "length (filter ?ok rs) = 0 \<longleftrightarrow> (\<forall>r \<in> set rs. \<not> ?ok r)"
    by (simp add: filter_empty_conv)
  note facts = reducedEvidenceState_def Let_def all none
  show "reducedEvidenceState rs = EvidenceVerified \<longleftrightarrow> (\<forall>r \<in> set rs. ?ok r)"
    using closed_result(2) [OF assms] by (auto simp: facts)
  show "reducedEvidenceState rs = EvidencePartiallyVerified \<longleftrightarrow>
      (\<exists>r \<in> set rs. ?ok r) \<and> (\<exists>r \<in> set rs. \<not> ?ok r)"
    using closed_result(2) [OF assms] assms by (auto simp: facts filter_empty_conv)
  show "reducedEvidenceState rs = s \<longleftrightarrow> (\<forall>r \<in> set rs. \<not> ?ok r) \<and> (\<forall>r \<in> set rs. closed_as s r)"
    if "s \<notin> {EvidenceVerified, EvidencePartiallyVerified, EvidenceUnverified}"
    using that closed_result(1) [OF assms, of s] assms by (cases rs) (auto simp: facts filter_empty_conv)
qed

text \<open>With the reasons written out.\<close>

lemma reducedEvidenceState_reason:
  assumes "rs \<noteq> []"
  shows "reducedEvidenceState rs = EvidenceInvalidPath \<longleftrightarrow>
      (\<forall>r \<in> set rs. re_status r = ReceiptInvalid \<and> re_reason r = ReasonInvalidPath)"
    and "reducedEvidenceState rs = EvidenceInvalidLine \<longleftrightarrow>
      (\<forall>r \<in> set rs. re_status r = ReceiptInvalid \<and>
         (re_reason r = ReasonInvalidLineRange \<or> re_reason r = ReasonLineRangeOutOfBounds))"
    and "reducedEvidenceState rs = EvidenceQuoteMismatch \<longleftrightarrow>
      (\<forall>r \<in> set rs. re_status r = ReceiptInvalid \<and> re_reason r = ReasonQuoteMismatch)"
    and "reducedEvidenceState rs = EvidenceOutsideScope \<longleftrightarrow>
      (\<forall>r \<in> set rs. re_status r = ReceiptStale \<and> re_reason r = ReasonStaleTarget)"
    and "reducedEvidenceState rs \<in> {EvidenceVerified, EvidencePartiallyVerified, EvidenceInvalidPath,
      EvidenceInvalidLine, EvidenceQuoteMismatch, EvidenceOutsideScope, EvidenceUnverified}"
proof -
  note exact = reducedEvidenceState_exact(3) [OF assms]
  show "reducedEvidenceState rs = EvidenceInvalidPath \<longleftrightarrow>
      (\<forall>r \<in> set rs. re_status r = ReceiptInvalid \<and> re_reason r = ReasonInvalidPath)"
    using exact [of EvidenceInvalidPath] by (auto simp: closed_as_reason)
  show "reducedEvidenceState rs = EvidenceInvalidLine \<longleftrightarrow>
      (\<forall>r \<in> set rs. re_status r = ReceiptInvalid \<and>
         (re_reason r = ReasonInvalidLineRange \<or> re_reason r = ReasonLineRangeOutOfBounds))"
    using exact [of EvidenceInvalidLine] by (auto simp: closed_as_reason)
  show "reducedEvidenceState rs = EvidenceQuoteMismatch \<longleftrightarrow>
      (\<forall>r \<in> set rs. re_status r = ReceiptInvalid \<and> re_reason r = ReasonQuoteMismatch)"
    using exact [of EvidenceQuoteMismatch] by (auto simp: closed_as_reason)
  show "reducedEvidenceState rs = EvidenceOutsideScope \<longleftrightarrow>
      (\<forall>r \<in> set rs. re_status r = ReceiptStale \<and> re_reason r = ReasonStaleTarget)"
    using exact [of EvidenceOutsideScope] by (auto simp: closed_as_reason)
  obtain r where "r \<in> set rs" using assms by (cases rs) auto
  with exact [of "reducedEvidenceState rs"] have "reducedEvidenceState rs \<notin>
      {EvidenceVerified, EvidencePartiallyVerified, EvidenceUnverified} \<Longrightarrow> closed_as (reducedEvidenceState rs) r" by blast
  then show "reducedEvidenceState rs \<in> {EvidenceVerified, EvidencePartiallyVerified, EvidenceInvalidPath,
      EvidenceInvalidLine, EvidenceQuoteMismatch, EvidenceOutsideScope, EvidenceUnverified}"
    unfolding closed_as_reason by (auto split: EvidenceState.splits)
qed

lemma check_group_claims_None:
  "check_group_claims i k rs cs ps = None \<Longrightarrow> length rs = length cs \<Longrightarrow> length cs = length ps \<Longrightarrow>
   \<forall>j < length rs. receiptMatchesValidationClaim (rs ! j) (cs ! j) \<and> currentEvidenceClaimsEqual (cs ! j) (ps ! j)"
proof (induction i k rs cs ps rule: check_group_claims.induct)
  case (1 i k r rs c cs p ps)
  then show ?case by (auto simp: nth_Cons split: if_splits nat.splits)
qed auto

lemma reduce_finding_Inr:
  assumes "reduce_finding ul policy i f g = Inr u"
  shows "u = f\<lparr>f_evidenceState := reducedEvidenceState (ve_receipts g)\<rparr> \<and> f_id f = final_id i \<and>
    matchesFinding ul g f \<and> ve_receipts g \<noteq> [] \<and>
    length (ve_receipts g) = length (ve_claims g) \<and>
    length (ve_claims g) = length (fe_claims (ve_validationProof g)) \<and>
    (Requires policy (f_severity f) \<longrightarrow> f_evidenceState u = EvidenceVerified)"
  using assms unfolding reduce_finding_def Let_def Finding_WithEvidenceState_def
  by (auto split: if_splits option.splits sum.splits)

lemma reduce_findings_Inr:
  "reduce_findings ul policy i fs gs = Inr out \<Longrightarrow> length fs = length gs \<Longrightarrow>
   length out = length fs \<and>
   (\<forall>j < length fs. reduce_finding ul policy (i + j) (fs ! j) (gs ! j) = Inr (out ! j))"
proof (induction ul policy i fs gs arbitrary: out rule: reduce_findings.induct)
  case (1 ul policy i f fs g gs)
  then obtain u rest where u: "reduce_finding ul policy i f g = Inr u"
    and rest: "reduce_findings ul policy (Suc i) fs gs = Inr rest" and out: "out = u # rest"
    by (auto split: sum.splits)
  from "1.IH" [OF u rest] "1.prems" u out show ?case by (auto simp: nth_Cons split: nat.splits)
qed auto

lemma Reduce_result:
  assumes "ReduceVerifiedFindingEvidence ul fs gs policy = Inr out"
  shows "length out = length fs \<and> length gs = length fs \<and> EvidencePolicy_valid policy \<and>
    (\<forall>j < length fs. reduce_finding ul policy j (fs ! j) (gs ! j) = Inr (out ! j))"
proof -
  have "EvidencePolicy_valid policy" "length fs = length gs" "reduce_findings ul policy 0 fs gs = Inr out"
    using assms by (auto simp: ReduceVerifiedFindingEvidence_def split: if_splits)
  with reduce_findings_Inr [OF this(3,2)] show ?thesis by simp
qed

section \<open>From the quotes to the source\<close>

text \<open>The text of a claim is what the verifier reads at the place the claim names.\<close>

definition quotes_source :: "'e Verifier \<Rightarrow> CurrentEvidenceClaim \<Rightarrow> bool" where
  "quotes_source v c \<longleftrightarrow>
     (\<exists>bytes.
        (case v of
           CapturedVerifier read \<Rightarrow>
             read (ec_targetSHA256 c) (ec_side c) (ec_path c) = Inr (ImmutableTargetAvailable, bytes)
         | LiveVerifier identity read \<Rightarrow>
             li_sha256 (ec_liveSource c) = li_sha256 identity \<and>
             (\<exists>side file. liveEvidenceSide (ls_scope (lt_selector (li_target identity))) (ec_side c) = Some side \<and>
                read side (ec_path c) = Inr file \<and> lf_path file = ec_path c \<and> lf_bytes file = bytes)) \<and>
        1 \<le> ec_lineStart c \<and> ec_lineStart c \<le> ec_lineEnd c \<and>
        ec_lineEnd c \<le> int (length (lines bytes)) \<and>
        ec_quote c = concat (line_range bytes (ec_lineStart c) (ec_lineEnd c)))"

lemma trusted_prefix: "trustedTargetSHA256 v = Some v \<Longrightarrow> canonicalTargetSHA256 v = Inr (t, d) \<Longrightarrow> t = v"
  by (auto simp: trustedTargetSHA256_def canonicalTargetSHA256_def Let_def split: if_splits option.splits)

lemma canonicalCurrentPath_id: "canonicalCurrentPath nfc v = Inr p \<Longrightarrow> p = v"
  by (auto simp: canonicalCurrentPath_def NewSafeRelativePath_def split: if_splits option.splits)

lemma NewCurrentClaim_Inr:
  assumes "NewCurrentClaim nfc inp = Inr c"
  shows "\<not> cc_liveSource c \<and> cc_side c = ci_Side inp \<and> cc_path c = ci_Path inp \<and>
    cc_lineStart c = ci_LineStart inp \<and> cc_lineEnd c = ci_LineEnd inp \<and> cc_quote c = ci_Quote inp \<and>
    canonicalTargetSHA256 (ci_TargetSHA256 inp) = Inr (cc_targetSHA256 c, cc_targetDigest c)"
  using assms canonicalCurrentPath_id unfolding NewCurrentClaim_def
  by (auto split: sum.splits if_splits)

lemma newVerifiedCurrentClaim_Inr:
  assumes "newVerifiedCurrentClaim nfc c = Inr d" "validCurrentEvidenceClaim c"
  shows "cc_liveSource d = LiveSourceIdentity_Valid (ec_liveSource c) \<and>
    cc_targetSHA256 d = ec_targetSHA256 c \<and> cc_side d = ec_side c \<and> cc_path d = ec_path c \<and>
    cc_lineStart d = ec_lineStart c \<and> cc_lineEnd d = ec_lineEnd c \<and> cc_quote d = ec_quote c"
proof -
  have target: "trustedTargetSHA256 (ec_targetSHA256 c) = Some (ec_targetSHA256 c)"
    using assms(2) by (simp add: validCurrentEvidenceClaim_def)
  show ?thesis
  proof (cases "LiveSourceIdentity_Valid (ec_liveSource c)")
    case True
    with assms(2) have id: "li_sha256 (ec_liveSource c) = ec_targetSHA256 c"
      by (simp add: validCurrentEvidenceClaim_def)
    from assms(1) True obtain e where
      e: "NewCurrentClaim nfc \<lparr>ci_TargetSHA256 = li_sha256 (ec_liveSource c), ci_Side = ec_side c,
           ci_Path = ec_path c, ci_LineStart = ec_lineStart c, ci_LineEnd = ec_lineEnd c,
           ci_Quote = ec_quote c\<rparr> = Inr e" and d: "d = e\<lparr>cc_liveSource := True\<rparr>"
      by (auto simp: newVerifiedCurrentClaim_def NewLiveClaim_def split: if_splits sum.splits)
    from NewCurrentClaim_Inr [OF e] True d id trusted_prefix [OF target] show ?thesis by auto
  next
    case False
    with assms(1) have e: "NewCurrentClaim nfc \<lparr>ci_TargetSHA256 = ec_targetSHA256 c, ci_Side = ec_side c,
           ci_Path = ec_path c, ci_LineStart = ec_lineStart c, ci_LineEnd = ec_lineEnd c,
           ci_Quote = ec_quote c\<rparr> = Inr d"
      by (auto simp: newVerifiedCurrentClaim_def EvidenceClaim_TargetSHA256_def split: if_splits)
    from NewCurrentClaim_Inr [OF e] False trusted_prefix [OF target] show ?thesis by auto
  qed
qed

lemma verified_quotes_source:
  assumes c: "newVerifiedCurrentClaim nfc c = Inr d" "validCurrentEvidenceClaim c"
    and r: "VerifyCurrent nfc v before after d = (r, e)" "re_status r = ReceiptVerified"
  shows "quotes_source v c"
proof -
  note same = newVerifiedCurrentClaim_Inr [OF c]
  from VerifyCurrent_verified [OF r(1)] r(2) obtain bytes where
    read: "read_source v d = Inr (ImmutableTargetAvailable, bytes)"
    and "selectExcerpt bytes (cc_lineStart d) (cc_lineEnd d) = Some (cc_quote d)" by auto
  then have sel: "1 \<le> ec_lineStart c" "ec_lineStart c \<le> ec_lineEnd c" "ec_lineEnd c \<le> int (length (lines bytes))"
    "ec_quote c = concat (line_range bytes (ec_lineStart c) (ec_lineEnd c))"
    using same by (auto simp: selectExcerpt_lines split: if_splits)
  have live: "LiveSourceIdentity_Valid (ec_liveSource c) \<Longrightarrow> li_sha256 (ec_liveSource c) = ec_targetSHA256 c"
    using c(2) by (simp add: validCurrentEvidenceClaim_def)
  show ?thesis
  proof (cases v)
    case (CapturedVerifier f)
    with read same sel show ?thesis
      by (auto simp: quotes_source_def read_source_def split: if_splits sum.splits)
  next
    case (LiveVerifier i f)
    with read same sel live show ?thesis
      by (auto simp: quotes_source_def read_source_def readLive_def split: if_splits sum.splits option.splits)
  qed
qed

lemma claims_scan_valid:
  "claims_scan ul target first prior cs vs \<Longrightarrow> length vs = length cs \<Longrightarrow>
   \<forall>c \<in> set cs. validCurrentEvidenceClaim c"
  by (induction ul target first prior cs vs rule: claims_scan.induct) (auto split: if_splits)

lemma FindingEvidenceClaims_valid_claims:
  "FindingEvidenceClaims_valid ul p \<Longrightarrow> \<forall>c \<in> set (fe_claims p). validCurrentEvidenceClaim c"
  using claims_scan_valid unfolding FindingEvidenceClaims_valid_def by (fastforce split: if_splits)

lemma prepare_claims_Inr:
  "prepare_claims ul nfc ctx i k prior cs = Inr ds \<Longrightarrow>
   length ds = length cs \<and> (\<forall>j < length cs. newVerifiedCurrentClaim nfc (cs ! j) = Inr (ds ! j))"
proof (induction ul nfc ctx i k prior cs arbitrary: ds rule: prepare_claims.induct)
  case (2 ul nfc ctx i k prior c cs)
  then show ?case by (auto simp: nth_Cons split: option.splits sum.splits if_splits nat.splits)
qed simp

lemma prepare_groups_Inr:
  "prepare_groups ul nfc ctx i gs = Inr ps \<Longrightarrow>
   map fst ps = gs \<and> (\<forall>(g, ds) \<in> set ps. FindingEvidenceClaims_valid ul g \<and>
     length ds = length (fe_claims g) \<and>
     (\<forall>j < length ds. newVerifiedCurrentClaim nfc (fe_claims g ! j) = Inr (ds ! j)))"
proof (induction ul nfc ctx i gs arbitrary: ps rule: prepare_groups.induct)
  case (2 ul nfc ctx i g gs)
  then obtain cs rest where cs: "prepare_group ul nfc ctx i g = Inr cs"
    and rest: "prepare_groups ul nfc ctx (Suc i) gs = Inr rest" and ps: "ps = (g, cs) # rest"
    by (auto split: sum.splits)
  from cs have "FindingEvidenceClaims_valid ul g" "prepare_claims ul nfc ctx i 0 None (fe_claims g) = Inr cs"
    by (auto simp: prepare_group_def MatchesFinding_def split: option.splits if_splits)
  with "2.IH" [OF cs rest] ps prepare_claims_Inr [of ul nfc ctx i 0 None "fe_claims g" cs]
  show ?case by auto
qed simp

lemma verify_claims_Inr:
  "verify_claims nfc reader ctx i k cs vs = Inr rs \<Longrightarrow> length cs = length vs \<Longrightarrow>
   length rs = length vs \<and>
   (\<forall>j < length vs. \<exists>before after.
      VerifyCurrent nfc (reader i (k + j)) before after (cs ! j) = (rs ! j, None) \<and>
      receiptMatchesValidationClaim (rs ! j) (vs ! j))"
proof (induction nfc reader ctx i k cs vs arbitrary: rs rule: verify_claims.induct)
  case (1 nfc reader ctx i k c cs v vs)
  then obtain r rest where r: "VerifyCurrent nfc (reader i k) (ctx (LookBeforeRead i k)) (ctx (LookAfterRead i k)) c = (r, None)"
    and m: "receiptMatchesValidationClaim r v" and looks: "ctx (LookVerify i k) = None" "ctx (LookReceipt i k) = None"
    and rest: "verify_claims nfc reader ctx i (Suc k) cs vs = Inr rest" and rs: "rs = r # rest"
    by (auto split: option.splits sum.splits if_splits prod.splits)
  have "length rest = length vs \<and> (\<forall>j < length vs. \<exists>before after.
      VerifyCurrent nfc (reader i (Suc k + j)) before after (cs ! j) = (rest ! j, None) \<and>
      receiptMatchesValidationClaim (rest ! j) (vs ! j))"
    using "1.IH" looks r m rest "1.prems"(2) by auto
  with r m rs show ?case by (auto simp: nth_Cons split: nat.splits)
qed auto

lemma verify_groups_Inr:
  "verify_groups nfc reader ctx i ps = Inr out \<Longrightarrow>
   (\<forall>(g, ds) \<in> set ps. length ds = length (fe_claims g)) \<Longrightarrow>
   length out = length ps \<and>
   (\<forall>j < length ps. ve_validationProof (out ! j) = fst (ps ! j) \<and>
      ve_claims (out ! j) = fe_claims (fst (ps ! j)) \<and>
      verify_claims nfc reader ctx (i + j) 0 (snd (ps ! j)) (fe_claims (fst (ps ! j))) = Inr (ve_receipts (out ! j)))"
proof (induction nfc reader ctx i ps arbitrary: out rule: verify_groups.induct)
  case (2 nfc reader ctx i g cs rest)
  then obtain rs others where rs: "verify_claims nfc reader ctx i 0 cs (fe_claims g) = Inr rs"
    and others: "verify_groups nfc reader ctx (Suc i) rest = Inr others"
    and out: "out = \<lparr>ve_findingID = fe_findingID g, ve_finding = fe_finding g, ve_validationProof = g,
                     ve_claims = fe_claims g, ve_receipts = rs\<rparr> # others"
    by (auto split: sum.splits)
  from "2.IH" [OF rs others] "2.prems"(2) rs out show ?case
    by (auto simp: nth_Cons split: nat.splits)
qed simp

text \<open>All receipts of a verified group: each claim of a finding was verified against its source.\<close>

lemma VerifyValidatedEvidence_receipts:
  assumes out: "VerifyValidatedEvidence ul nfc reader ctx gs = Inr out"
  shows "length out = length gs \<and>
    (\<forall>i < length gs. ve_claims (out ! i) = fe_claims (gs ! i) \<and>
       length (ve_receipts (out ! i)) = length (fe_claims (gs ! i)) \<and>
       (\<forall>k < length (fe_claims (gs ! i)).
          re_status (ve_receipts (out ! i) ! k) = ReceiptVerified \<longrightarrow>
          quotes_source (reader i k) (fe_claims (gs ! i) ! k)))"
proof -
  from out obtain ps where ps: "prepare_groups ul nfc ctx 0 gs = Inr ps"
    and vs: "verify_groups nfc reader ctx 0 ps = Inr out"
    by (auto simp: VerifyValidatedEvidence_def split: option.splits sum.splits)
  from prepare_groups_Inr [OF ps] have gs: "map fst ps = gs"
    and valid: "\<forall>(g, ds) \<in> set ps. FindingEvidenceClaims_valid ul g \<and> length ds = length (fe_claims g) \<and>
     (\<forall>j < length ds. newVerifiedCurrentClaim nfc (fe_claims g ! j) = Inr (ds ! j))" by blast+
  then have len: "\<forall>(g, ds) \<in> set ps. length ds = length (fe_claims g)" by blast
  note groups = verify_groups_Inr [OF vs len]
  have n: "length ps = length gs" using gs by (metis length_map)
  have "ve_claims (out ! i) = fe_claims (gs ! i) \<and> length (ve_receipts (out ! i)) = length (fe_claims (gs ! i)) \<and>
       (\<forall>k < length (fe_claims (gs ! i)). re_status (ve_receipts (out ! i) ! k) = ReceiptVerified \<longrightarrow>
          quotes_source (reader i k) (fe_claims (gs ! i) ! k))" if i: "i < length gs" for i
  proof -
    obtain g ds where p: "ps ! i = (g, ds)" by (cases "ps ! i")
    have "map fst ps ! i = g" using p i n by simp
    then have g: "gs ! i = g" by (simp only: gs)
    have "(g, ds) \<in> set ps" using p i n nth_mem [of i ps] by simp
    with valid have v: "FindingEvidenceClaims_valid ul g" "length ds = length (fe_claims g)"
      "\<forall>j < length ds. newVerifiedCurrentClaim nfc (fe_claims g ! j) = Inr (ds ! j)" by blast+
    from groups i n p have claims: "ve_claims (out ! i) = fe_claims g"
      and rs: "verify_claims nfc reader ctx i 0 ds (fe_claims g) = Inr (ve_receipts (out ! i))" by auto
    from verify_claims_Inr [OF rs v(2)] have len': "length (ve_receipts (out ! i)) = length (fe_claims g)"
      and looks: "\<forall>j < length (fe_claims g). \<exists>before after.
        VerifyCurrent nfc (reader i j) before after (ds ! j) = (ve_receipts (out ! i) ! j, None)" by auto
    have "quotes_source (reader i k) (fe_claims g ! k)"
      if k: "k < length (fe_claims g)" "re_status (ve_receipts (out ! i) ! k) = ReceiptVerified" for k
    proof -
      from looks k(1) obtain before after where
        look: "VerifyCurrent nfc (reader i k) before after (ds ! k) = (ve_receipts (out ! i) ! k, None)" by blast
      have new: "newVerifiedCurrentClaim nfc (fe_claims g ! k) = Inr (ds ! k)" using v(2,3) k(1) by simp
      have "validCurrentEvidenceClaim (fe_claims g ! k)"
        using FindingEvidenceClaims_valid_claims [OF v(1)] k(1) by simp
      from verified_quotes_source [OF new this look k(2)] show ?thesis .
    qed
    with claims len' g show ?thesis by blast
  qed
  with groups n show ?thesis by simp
qed

lemma accepted_quotes_source:
  assumes verified: "VerifyValidatedEvidence ul nfc reader ctx gs = Inr groups"
    and reduced: "ReduceVerifiedFindingEvidence ul fs groups policy = Inr out"
    and i: "i < length out" and state: "f_evidenceState (out ! i) = EvidenceVerified"
    and k: "k < length (fe_claims (gs ! i))"
  shows "quotes_source (reader i k) (fe_claims (gs ! i) ! k)"
proof -
  note R = Reduce_result [OF reduced] and V = VerifyValidatedEvidence_receipts [OF verified]
  with i have "reduce_finding ul policy i (fs ! i) (groups ! i) = Inr (out ! i)" by simp
  note u = reduce_finding_Inr [OF this]
  then have "ve_receipts (groups ! i) \<noteq> []" by blast
  moreover from u have "out ! i = (fs ! i)\<lparr>f_evidenceState := reducedEvidenceState (ve_receipts (groups ! i))\<rparr>"
    by blast
  with state have "reducedEvidenceState (ve_receipts (groups ! i)) = EvidenceVerified" by simp
  ultimately have "ve_receipts (groups ! i) \<noteq> []"
    "reducedEvidenceState (ve_receipts (groups ! i)) = EvidenceVerified" .
  then have "\<forall>r \<in> set (ve_receipts (groups ! i)). re_status r = ReceiptVerified"
    by (simp add: reducedEvidenceState_exact(1))
  with V R i k show ?thesis by simp
qed

section \<open>The digest of an excerpt binds it to its claim\<close>

lemma lower_hex_value: "is_lower_hex_byte c \<Longrightarrow> hex_value c = Some v \<Longrightarrow> v < 16 \<and> nibble_char v = c"
  by (auto simp: is_lower_hex_byte_def is_digit_byte_def hex_value_def nibble_char_def less_eq_char_def
      split: if_splits)

lemma hex_encode_decode:
  "hex_decode s = Some bs \<Longrightarrow> list_all is_lower_hex_byte s \<Longrightarrow>
     hex_encode bs = s \<and> list_all (\<lambda>b. b < 256) bs"
proof (induction s arbitrary: bs rule: hex_decode.induct)
  case (3 c d s)
  then obtain h l ds where v: "hex_value c = Some h" "hex_value d = Some l" "hex_decode s = Some ds"
    and bs: "bs = (16 * h + l) # ds" by (auto split: option.splits)
  from "3.prems" v lower_hex_value have "h < 16 \<and> nibble_char h = c" "l < 16 \<and> nibble_char l = d" by auto
  with "3.IH" [OF v(3)] "3.prems"(2) bs show ?case by (simp add: hex_byte_def)
qed simp_all

lemma target_digest:
  assumes "canonicalTargetSHA256 t = Inr (u, d)"
  shows "length d = 32 \<and> list_all (\<lambda>b. b < 256) d \<and> u = ''sha256:'' @ hex_encode d"
proof -
  let ?h = "TrimPrefix t ''sha256:''"
  have "length ?h = 64" "list_all is_lower_hex_byte ?h" "hex_decode ?h = Some d" "u = ''sha256:'' @ ?h"
    using assms by (auto simp: canonicalTargetSHA256_def Let_def split: if_splits option.splits)
  with hex_encode_decode [OF this(3,2)] have "hex_encode d = ?h \<and> list_all (\<lambda>b. b < 256) d" by simp
  moreover from this \<open>length ?h = 64\<close> have "length (hex_encode d) = 64" by simp
  then have "length d = 32" unfolding length_hex_encode by simp
  ultimately show ?thesis using \<open>u = _\<close> by simp
qed

lemma map_char_of_inject:
  "list_all (\<lambda>b. b < 256) xs \<Longrightarrow> list_all (\<lambda>b. b < 256) ys \<Longrightarrow>
     map char_of xs = (map char_of ys :: string) \<Longrightarrow> xs = (ys :: nat list)"
proof (induction xs arbitrary: ys)
  case (Cons x xs)
  then obtain y zs where ys: "ys = y # zs" by (cases ys) auto
  with Cons.prems have "of_char (char_of x :: char) = (of_char (char_of y :: char) :: nat)" "x < 256" "y < 256"
    by simp_all
  then have "x = y" by simp
  with Cons ys show ?case by auto
qed simp

text \<open>The fields of the preimage are separated by zero bytes or have a fixed length, so it can be taken apart.\<close>

lemma cut_zero:
  assumes "a @ CHR 0x00 # b = c @ CHR 0x00 # d" "CHR 0x00 \<notin> set a" "CHR 0x00 \<notin> set c"
  shows "a = c \<and> b = d"
  using assms by (blast dest: split_at_byte)

lemma cut_length: "a @ b = c @ d \<Longrightarrow> length a = length c \<Longrightarrow> a = c \<and> b = d"
  by simp

lemma verified_claim_parts:
  assumes "validationReason nfc c = ReasonVerified"
  shows "canonicalTargetSHA256 (cc_targetSHA256 c) = Inr (cc_targetSHA256 c, cc_targetDigest c)"
    and "Side_Valid (cc_side c)" and "CHR 0x00 \<notin> set (cc_path c)"
    and "0 < cc_lineStart c \<and> cc_lineStart c \<le> cc_lineEnd c"
  using assms
  by (auto simp: validationReason_def canonicalCurrentPath_def ContainsAny_def list_ex_iff split: if_splits)

lemma Side_text: "Side_Valid s \<Longrightarrow> CHR 0x00 \<notin> set (Side_string s)"
  "Side_Valid s \<Longrightarrow> Side_Valid t \<Longrightarrow> Side_string s = Side_string t \<Longrightarrow> s = t"
  by (auto simp: Side_Valid_def)

definition excerpt_domain :: "bool \<Rightarrow> string" where
  "excerpt_domain live = (if live then ''Mulgae-LIVE-EVIDENCE-EXCERPT/1'' else ''Mulgae-EVIDENCE-EXCERPT/1'')"

lemma excerpt_domain_facts: "CHR 0x00 \<notin> set (excerpt_domain v)"
  "excerpt_domain v = excerpt_domain w \<longleftrightarrow> v = w"
  by (simp_all add: excerpt_domain_def)

lemma excerpt_preimage_parts:
  "excerpt_preimage c x = excerpt_domain (cc_liveSource c) @ CHR 0x00 #
     (map char_of (cc_targetDigest c) @ CHR 0x00 # (Side_string (cc_side c) @ CHR 0x00 #
       (cc_path c @ CHR 0x00 # (be64 (cc_lineStart c) @ (be64 (cc_lineEnd c) @ CHR 0x00 # x)))))"
  by (simp add: excerpt_preimage_def excerpt_domain_def)

lemma excerpt_preimage_inject:
  assumes c: "validationReason nfc c = ReasonVerified" "cc_lineEnd c \<le> max_int64"
    and d: "validationReason nfc d = ReasonVerified" "cc_lineEnd d \<le> max_int64"
    and eq: "excerpt_preimage c x = excerpt_preimage d y"
  shows "cc_liveSource c = cc_liveSource d \<and> cc_targetSHA256 c = cc_targetSHA256 d \<and>
    cc_side c = cc_side d \<and> cc_path c = cc_path d \<and> cc_lineStart c = cc_lineStart d \<and>
    cc_lineEnd c = cc_lineEnd d \<and> x = y"
proof -
  note C = verified_claim_parts [OF c(1)] and D = verified_claim_parts [OF d(1)]
  note tc = target_digest [OF C(1)] and td = target_digest [OF D(1)]
  note e1 = cut_zero [OF eq [unfolded excerpt_preimage_parts] excerpt_domain_facts(1) excerpt_domain_facts(1)]
  have "length (map char_of (cc_targetDigest c) :: string) = length (map char_of (cc_targetDigest d) :: string)"
    using tc td by simp
  note e2 = cut_length [OF conjunct2 [OF e1] this]
  from e2 have "Side_string (cc_side c) @ CHR 0x00 # (cc_path c @ CHR 0x00 #
      (be64 (cc_lineStart c) @ (be64 (cc_lineEnd c) @ CHR 0x00 # x))) =
    Side_string (cc_side d) @ CHR 0x00 # (cc_path d @ CHR 0x00 #
      (be64 (cc_lineStart d) @ (be64 (cc_lineEnd d) @ CHR 0x00 # y)))"
    unfolding list.inject by blast
  note e3 = cut_zero [OF this Side_text(1) [OF C(2)] Side_text(1) [OF D(2)]]
  note e4 = cut_zero [OF conjunct2 [OF e3] C(3) D(3)]
  note e5 = cut_length [OF conjunct2 [OF e4], unfolded length_be64, OF refl]
  note e6 = cut_length [OF conjunct2 [OF e5], unfolded length_be64, OF refl]
  have digest: "cc_targetDigest c = cc_targetDigest d"
    using tc td conjunct1 [OF e2] by (intro map_char_of_inject) blast+
  have "cc_targetSHA256 c = cc_targetSHA256 d" using tc td unfolding digest by simp
  moreover have "cc_lineStart c = cc_lineStart d" using C(4) D(4) c(2) d(2) conjunct1 [OF e5]
    by (intro iffD1 [OF be64_inject]) auto
  moreover have "cc_lineEnd c = cc_lineEnd d" using C(4) D(4) c(2) d(2) conjunct1 [OF e6]
    by (intro iffD1 [OF be64_inject]) auto
  moreover have "x = y" using conjunct2 [OF e6] by simp
  moreover have "cc_side c = cc_side d" using Side_text(2) [OF C(2) D(2) conjunct1 [OF e3]] .
  ultimately show ?thesis using conjunct1 [OF e1] conjunct1 [OF e4] by (simp add: excerpt_domain_facts)
qed

end
