(* ===== verification/Role_Outputs.thy ===== *)
theory Role_Outputs
  imports Budget Transition_Policy Attempts Evidence_Groups
begin

text \<open>
  The values that pass between the coordinator and its workers
  (\<open>internal/app/review/coordinator_types.go\<close>, \<open>internal/app/review/role_report.go\<close>): invocation
  jobs, validated role outputs and attempt outcomes, with the check of the completeness a review
  declares (\<open>ValidateReviewCompleteness\<close> of \<open>internal/app/validation/review.go\<close>). The argument
  \<open>ul\<close> is the lower-case table of Unicode, \<open>letter\<close> tells which runes beyond ASCII are letters.
\<close>

section \<open>The words of a limitation\<close>

function runes :: "string \<Rightarrow> string list" where
  "runes s =
     (if s = [] then []
      else let n = (case rune_width s of None \<Rightarrow> 1 | Some n \<Rightarrow> n)
           in take n s # runes (drop n s))"
  by pat_completeness auto
termination
  by (relation "measure length") (auto dest: rune_width_bounds split: option.splits)

declare runes.simps [simp del]

definition IsLetter :: "(string \<Rightarrow> bool) \<Rightarrow> string \<Rightarrow> bool" where
  "IsLetter letter r =
     (case r of
        [c] \<Rightarrow> is_lower_byte c \<or> is_upper_byte c
      | _ \<Rightarrow> letter r)"

text \<open>\<open>strings.FieldsFunc\<close> on the runes of a text.\<close>

fun FieldsFunc :: "(string \<Rightarrow> bool) \<Rightarrow> string \<Rightarrow> string list \<Rightarrow> string list" where
  "FieldsFunc inside word [] = (if word = [] then [] else [word])"
| "FieldsFunc inside word (r # rs) =
     (if inside r then FieldsFunc inside (word @ r) rs
      else if word = [] then FieldsFunc inside [] rs
      else word # FieldsFunc inside [] rs)"

definition scope_nouns :: "string list" where
  "scope_nouns = [''material'', ''scope'', ''target'', ''file'', ''files'']"

definition negations :: "string list" where
  "negations = [''not'', ''cannot'', ''unable'', ''failed'']"

definition followedByScopeNoun :: "string list \<Rightarrow> nat \<Rightarrow> bool" where
  "followedByScopeNoun ws i \<longleftrightarrow> Suc i < length ws \<and> ws ! Suc i \<in> set scope_nouns"

definition nearbyPrecedingWordIndex :: "nat list \<Rightarrow> nat \<Rightarrow> nat \<Rightarrow> bool" where
  "nearbyPrecedingWordIndex indexes target maximumDistance \<longleftrightarrow>
     list_ex (\<lambda>i. i < target \<and> target - i \<le> maximumDistance) indexes"

definition nearbyWordIndex :: "nat list \<Rightarrow> nat \<Rightarrow> nat \<Rightarrow> bool" where
  "nearbyWordIndex indexes target maximumDistance \<longleftrightarrow>
     list_ex (\<lambda>i. \<bar>int i - int target\<bar> \<le> int maximumDistance) indexes"

definition reviewAccessVerb :: "string \<Rightarrow> bool" where
  "reviewAccessVerb w \<longleftrightarrow>
     HasPrefix w ''read'' \<or> HasPrefix w ''access'' \<or> HasPrefix w ''inspect'' \<or>
     w \<noteq> ''review'' \<and> HasPrefix w ''review'' \<or> HasPrefix w ''load''"

definition indexes_of :: "string list \<Rightarrow> string list \<Rightarrow> nat list" where
  "indexes_of vocabulary ws = filter (\<lambda>i. ws ! i \<in> set vocabulary) [0 ..< length ws]"

definition unreadable_at :: "string list \<Rightarrow> nat \<Rightarrow> bool" where
  "unreadable_at ws i =
     (let word = ws ! i; scopeIndexes = indexes_of scope_nouns ws;
          negationIndexes = indexes_of negations ws in
      (word = ''unreadable'' \<or> word = ''inaccessible'') \<and> nearbyWordIndex scopeIndexes i 5 \<or>
      word = ''review'' \<and> \<not> followedByScopeNoun ws i \<and> nearbyWordIndex scopeIndexes i 5 \<and>
        nearbyPrecedingWordIndex negationIndexes i 5 \<or>
      reviewAccessVerb word \<and> nearbyWordIndex scopeIndexes i 5 \<and>
        nearbyWordIndex negationIndexes i 5)"

definition materialScopeUnreadable ::
    "(string \<Rightarrow> string) \<Rightarrow> (string \<Rightarrow> bool) \<Rightarrow> string \<Rightarrow> bool" where
  "materialScopeUnreadable ul letter limitation =
     (let ws = FieldsFunc (IsLetter letter) [] (runes (ToLower ul limitation))
      in list_ex (unreadable_at ws) [0 ..< length ws])"

section \<open>Completeness\<close>

datatype reviewCompletenessIssue =
    CompletenessInvalidValue string
  | CompletenessTooManyLimitations
  | CompletenessMeaninglessLimitation nat
  | CompletenessLimitationTooLong nat
  | CompletenessDuplicateLimitation
  | CompletenessIncompleteWithoutLimitation
  | CompletenessMaterialScopeUnreadable

definition meaningfulText :: "(string \<Rightarrow> string) \<Rightarrow> string \<Rightarrow> bool" where
  "meaningfulText ul v =
     (let trimmed = TrimSpace v
      in if trimmed = '''' then False
         else ToLower ul trimmed \<notin> set [''n/a'', ''tbd'', ''todo'', ''unknown'', ''none'', ''-''])"

text \<open>The loop over the limitations: the issues found and the limitations accepted.\<close>

fun scan_limitations ::
    "(string \<Rightarrow> string) \<Rightarrow> nat \<Rightarrow> string list \<Rightarrow> string list \<Rightarrow>
     reviewCompletenessIssue list \<times> string list" where
  "scan_limitations ul i accepted [] = ([], accepted)"
| "scan_limitations ul i accepted (l # ls) =
     (if \<not> meaningfulText ul l then
        (let (issues, others) = scan_limitations ul (Suc i) accepted ls
         in (CompletenessMeaninglessLimitation i # issues, others))
      else if rune_count l > 2000 then
        (let (issues, others) = scan_limitations ul (Suc i) accepted ls
         in (CompletenessLimitationTooLong i # issues, others))
      else if l \<in> set accepted then
        (let (issues, others) = scan_limitations ul (Suc i) accepted ls
         in (CompletenessDuplicateLimitation # issues, others))
      else scan_limitations ul (Suc i) (accepted @ [l]) ls)"

definition ValidateReviewCompleteness ::
    "(string \<Rightarrow> string) \<Rightarrow> (string \<Rightarrow> bool) \<Rightarrow> string \<Rightarrow> string list \<Rightarrow>
     reviewCompletenessIssue list" where
  "ValidateReviewCompleteness ul letter completeness limitations =
     (let (issues, accepted) = scan_limitations ul 0 [] limitations in
      (if completeness = ''complete'' \<or> completeness = ''incomplete'' then []
       else [CompletenessInvalidValue completeness]) @
      (if length limitations > 20 then [CompletenessTooManyLimitations] else []) @ issues @
      (if completeness = ''incomplete'' \<and> accepted = []
       then [CompletenessIncompleteWithoutLimitation] else []) @
      (if completeness = ''complete'' \<and> list_ex (materialScopeUnreadable ul letter) accepted
       then [CompletenessMaterialScopeUnreadable] else []))"

section \<open>Invocation jobs\<close>

definition canonicalCoordinatorRoute :: "ProviderRoute \<Rightarrow> string + ProviderRoute" where
  "canonicalCoordinatorRoute r =
     (if \<not> ProviderRoute_Valid r then Inl (route_providerInstance r)
      else NewProviderRoute (route_providerInstance r))"

definition canonicalCoordinatorTarget :: "TargetIdentity \<Rightarrow> target_error + TargetIdentity" where
  "canonicalCoordinatorTarget t =
     (if target_kind t = TargetLiveSource
      then NewLiveTargetIdentity (target_sourceIdentitySHA256 t) (target_baseObjectID t)
             (target_headObjectID t)
      else NewTargetIdentity
             \<lparr>tin_Kind = target_kind t, tin_SHA256 = target_sha256 t,
              tin_RepositoryID = target_repositoryID t, tin_BaseObjectID = target_baseObjectID t,
              tin_HeadObjectID = target_headObjectID t,
              tin_HeadTreeObjectID = target_headTreeObjectID t,
              tin_IndexTreeObjectID = target_indexTreeObjectID t,
              tin_GitMode = target_gitMode t\<rparr>)"

record InvocationJob =
  ij_sessionID :: SessionID
  ij_runID :: RunID
  ij_role :: Role
  ij_route :: ProviderRoute
  ij_target :: TargetIdentity
  ij_limits :: InvocationLimits
  ij_attemptID :: AttemptID
  ij_purpose :: InvocationPurpose
  ij_ordinal :: uint64

datatype job_error =
    JobRoute string
  | JobTarget target_error
  | JobIDsMixed
  | JobSessionID id_error
  | JobRunID id_error
  | JobRole Role
  | JobLimits
  | JobAttemptID id_error
  | JobPurpose InvocationPurpose
  | JobOrdinal

definition check_attempt_id :: "InvocationJob \<Rightarrow> job_error option" where
  "check_attempt_id j =
     (case ParseAttemptID (AttemptID_String (ij_attemptID j)) of
        Inl e \<Rightarrow> Some (JobAttemptID e)
      | Inr _ \<Rightarrow>
          if \<not> InvocationPurpose_Valid (ij_purpose j) then Some (JobPurpose (ij_purpose j))
          else if ij_ordinal j = 0 then Some JobOrdinal
          else None)"

definition check_job_content :: "InvocationJob \<Rightarrow> job_error option" where
  "check_job_content j =
     (if \<not> Role_Valid (ij_role j) then Some (JobRole (ij_role j))
      else case canonicalCoordinatorRoute (ij_route j) of
        Inl e \<Rightarrow> Some (JobRoute e)
      | Inr _ \<Rightarrow>
          (case canonicalCoordinatorTarget (ij_target j) of
             Inl e \<Rightarrow> Some (JobTarget e)
           | Inr _ \<Rightarrow>
               if validateInvocationLimits (ij_limits j) \<noteq> None then Some JobLimits
               else check_attempt_id j))"

definition InvocationJob_validate :: "InvocationJob \<Rightarrow> job_error option" where
  "InvocationJob_validate j =
     (if (SessionID_String (ij_sessionID j) = '''') \<noteq> (RunID_String (ij_runID j) = '''')
        then Some JobIDsMixed
      else if SessionID_String (ij_sessionID j) = '''' then check_job_content j
      else case ParseSessionID (SessionID_String (ij_sessionID j)) of
        Inl e \<Rightarrow> Some (JobSessionID e)
      | Inr _ \<Rightarrow>
          (case ParseRunID (RunID_String (ij_runID j)) of
             Inl e \<Rightarrow> Some (JobRunID e)
           | Inr _ \<Rightarrow> check_job_content j))"

definition newInvocationJob ::
    "SessionID \<Rightarrow> RunID \<Rightarrow> Role \<Rightarrow> ProviderRoute \<Rightarrow> TargetIdentity \<Rightarrow> InvocationLimits \<Rightarrow>
     AttemptID \<Rightarrow> InvocationPurpose \<Rightarrow> uint64 \<Rightarrow> job_error + InvocationJob" where
  "newInvocationJob sessionID runID role route target limits attemptID purpose ordinal =
     (case canonicalCoordinatorRoute route of
        Inl e \<Rightarrow> Inl (JobRoute e)
      | Inr canonicalRoute \<Rightarrow>
          (case canonicalCoordinatorTarget target of
             Inl e \<Rightarrow> Inl (JobTarget e)
           | Inr canonicalTarget \<Rightarrow>
               (let job = \<lparr>ij_sessionID = sessionID, ij_runID = runID, ij_role = role,
                           ij_route = canonicalRoute, ij_target = canonicalTarget,
                           ij_limits = limits, ij_attemptID = attemptID, ij_purpose = purpose,
                           ij_ordinal = ordinal\<rparr>
                in case InvocationJob_validate job of Some e \<Rightarrow> Inl e | None \<Rightarrow> Inr job)))"

definition NewInvocationJob ::
    "Role \<Rightarrow> ProviderRoute \<Rightarrow> TargetIdentity \<Rightarrow> InvocationLimits \<Rightarrow> AttemptID \<Rightarrow>
     InvocationPurpose \<Rightarrow> uint64 \<Rightarrow> job_error + InvocationJob" where
  "NewInvocationJob = newInvocationJob (SessionID '''') (RunID '''')"

definition no_target :: TargetIdentity where
  "no_target = \<lparr>target_kind = TargetKindOther '''', target_sha256 = '''',
     target_sourceIdentitySHA256 = '''', target_repositoryID = '''', target_baseObjectID = '''',
     target_headObjectID = '''', target_headTreeObjectID = '''', target_indexTreeObjectID = '''',
     target_gitMode = GitTargetModeOther ''''\<rparr>"

definition no_job :: InvocationJob where
  "no_job = \<lparr>ij_sessionID = SessionID '''', ij_runID = RunID '''', ij_role = RoleOther '''',
     ij_route = \<lparr>route_providerInstance = ''''\<rparr>, ij_target = no_target,
     ij_limits = \<lparr>il_timeout = 0\<rparr>, ij_attemptID = AttemptID '''',
     ij_purpose = InvocationPurposeOther '''', ij_ordinal = 0\<rparr>"

definition InvocationJob_Route :: "InvocationJob \<Rightarrow> ProviderRoute" where
  "InvocationJob_Route j =
     (case canonicalCoordinatorRoute (ij_route j) of
        Inl _ \<Rightarrow> \<lparr>route_providerInstance = ''''\<rparr> | Inr r \<Rightarrow> r)"

definition InvocationJob_Target :: "InvocationJob \<Rightarrow> TargetIdentity" where
  "InvocationJob_Target j =
     (case canonicalCoordinatorTarget (ij_target j) of Inl _ \<Rightarrow> no_target | Inr t \<Rightarrow> t)"

definition InvocationJob_clone :: "InvocationJob \<Rightarrow> InvocationJob" where
  "InvocationJob_clone j = j\<lparr>ij_route := InvocationJob_Route j, ij_target := InvocationJob_Target j\<rparr>"

section \<open>Validated role outputs\<close>

datatype ProviderOutputTransport =
    ProviderOutputTransportStdout
  | ProviderOutputTransportStagedFile
  | ProviderOutputTransportOther string

definition ProviderOutputTransport_Valid :: "ProviderOutputTransport \<Rightarrow> bool" where
  "ProviderOutputTransport_Valid t \<longleftrightarrow>
     t = ProviderOutputTransportStdout \<or> t = ProviderOutputTransportStagedFile"

record ValidatedRoleOutput =
  vo_role :: Role
  vo_providerInstance :: string
  vo_target :: TargetIdentity
  vo_findings :: "Finding list"
  vo_evidence :: "VerifiedFindingEvidence list"
  vo_completeness :: string
  vo_limitations :: "string list"
  vo_reportMarkdown :: string
  vo_reportsOnly :: bool
  vo_parseState :: ParseState
  vo_validationState :: ValidationState
  vo_outputTransport :: ProviderOutputTransport

datatype report_error = ReportEmpty | ReportNotUTF8 | ReportBlank

definition normalizeRoleReportMarkdown :: "string \<Rightarrow> report_error + string" where
  "normalizeRoleReportMarkdown report =
     (if report = [] then Inl ReportEmpty
      else if \<not> utf8_valid report then Inl ReportNotUTF8
      else if TrimSpace report = '''' then Inl ReportBlank
      else Inr report)"

text \<open>An output without an explicit transport, the empty text, was carried by standard output.\<close>

definition OutputTransport :: "ValidatedRoleOutput \<Rightarrow> ProviderOutputTransport" where
  "OutputTransport out =
     (if vo_outputTransport out = ProviderOutputTransportOther '''' then ProviderOutputTransportStdout
      else vo_outputTransport out)"

definition bindOutputTransport ::
    "ProviderOutputTransport \<Rightarrow> ValidatedRoleOutput \<Rightarrow> ValidatedRoleOutput option" where
  "bindOutputTransport t out =
     (let transport = (if t = ProviderOutputTransportOther '''' then ProviderOutputTransportStdout else t)
      in if \<not> ProviderOutputTransport_Valid transport then None
         else Some (out\<lparr>vo_outputTransport := transport\<rparr>))"

definition bindExtractionStates ::
    "ParseState \<Rightarrow> ValidationState \<Rightarrow> ValidatedRoleOutput \<Rightarrow> ValidatedRoleOutput option" where
  "bindExtractionStates parse validation out =
     (if \<not> ParseState_Valid parse \<or> \<not> ValidationState_Valid validation then None
      else Some (out\<lparr>vo_parseState := parse, vo_validationState := validation\<rparr>))"

definition validCoordinatorProviderInstance :: "string \<Rightarrow> bool" where
  "validCoordinatorProviderInstance v = is_ok (NewProviderRoute v)"

text \<open>The identity of a finding: everything but its number.\<close>

definition coordinatorFindingIdentityFor :: "Finding \<Rightarrow> Finding" where
  "coordinatorFindingIdentityFor f = clear_id f"

definition sameCoordinatorFinding :: "Finding \<Rightarrow> Finding \<Rightarrow> bool" where
  "sameCoordinatorFinding a b \<longleftrightarrow>
     f_id a = f_id b \<and> coordinatorFindingIdentityFor a = coordinatorFindingIdentityFor b"

definition duplicateCoordinatorFinding :: "Finding list \<Rightarrow> bool" where
  "duplicateCoordinatorFinding fs \<longleftrightarrow> \<not> distinct (map coordinatorFindingIdentityFor fs)"

datatype output_error =
    OutputRole Role
  | OutputProvider string
  | OutputTarget target_error
  | OutputCompleteness "reviewCompletenessIssue list"
  | OutputFindings finding_error
  | OutputFindingRole nat
  | OutputFindingProvider nat
  | OutputFindingOrder
  | OutputDuplicate
  | OutputReport report_error
  | OutputStates
  | OutputTransportInvalid
  | OutputReportsOnly
  | OutputEvidenceWithoutFindings
  | OutputEvidence reduction_error
  | OutputEvidenceStates
  | OutputUnexpectedFindings

fun check_output_findings ::
    "ValidatedRoleOutput \<Rightarrow> nat \<Rightarrow> Finding list \<Rightarrow> Finding list \<Rightarrow> output_error option" where
  "check_output_findings out i (f # fs) (g # gs) =
     (if f_role f \<noteq> vo_role out then Some (OutputFindingRole i)
      else if f_providerInstance f \<noteq> vo_providerInstance out then Some (OutputFindingProvider i)
      else if \<not> sameCoordinatorFinding f g then Some OutputFindingOrder
      else check_output_findings out (Suc i) fs gs)"
| "check_output_findings out i fs gs = None"

definition check_output_evidence ::
    "(string \<Rightarrow> string) \<Rightarrow> ValidatedRoleOutput \<Rightarrow> output_error option" where
  "check_output_evidence ul out =
     (if vo_reportsOnly out
        then (if vo_findings out \<noteq> [] \<or> vo_evidence out \<noteq> [] then Some OutputReportsOnly else None)
      else if vo_findings out = []
        then (if vo_evidence out \<noteq> [] then Some OutputEvidenceWithoutFindings else None)
      else case ReduceVerifiedFindingEvidence ul (vo_findings out) (vo_evidence out)
                  structuralEvidencePolicy of
        Inl e \<Rightarrow> Some (OutputEvidence e)
      | Inr reduced \<Rightarrow>
          if list_all2 sameCoordinatorFinding (vo_findings out) reduced then None
          else Some OutputEvidenceStates)"

definition check_output_content ::
    "(string \<Rightarrow> string) \<Rightarrow> ValidatedRoleOutput \<Rightarrow> output_error option" where
  "check_output_content ul out =
     (if duplicateCoordinatorFinding (vo_findings out) then Some OutputDuplicate
      else case normalizeRoleReportMarkdown (vo_reportMarkdown out) of
        Inl e \<Rightarrow> Some (OutputReport e)
      | Inr _ \<Rightarrow>
          if \<not> ParseState_Valid (vo_parseState out) \<or> \<not> ValidationState_Valid (vo_validationState out)
            then Some OutputStates
          else if \<not> ProviderOutputTransport_Valid (OutputTransport out) then Some OutputTransportInvalid
          else check_output_evidence ul out)"

definition ValidatedRoleOutput_validate ::
    "(string \<Rightarrow> string) \<Rightarrow> (string \<Rightarrow> bool) \<Rightarrow> ValidatedRoleOutput \<Rightarrow> output_error option" where
  "ValidatedRoleOutput_validate ul letter out =
     (if \<not> Role_Valid (vo_role out) then Some (OutputRole (vo_role out))
      else if \<not> validCoordinatorProviderInstance (vo_providerInstance out)
        then Some (OutputProvider (vo_providerInstance out))
      else case canonicalCoordinatorTarget (vo_target out) of
        Inl e \<Rightarrow> Some (OutputTarget e)
      | Inr _ \<Rightarrow>
          (case ValidateReviewCompleteness ul letter (vo_completeness out) (vo_limitations out) of
             i # is \<Rightarrow> Some (OutputCompleteness (i # is))
           | [] \<Rightarrow>
               (case OrderAndAssignFindings ul (vo_findings out) of
                  Inl e \<Rightarrow> Some (OutputFindings e)
                | Inr ordered \<Rightarrow>
                    (case check_output_findings out 0 (vo_findings out) ordered of
                       Some e \<Rightarrow> Some e
                     | None \<Rightarrow> check_output_content ul out))))"

definition ValidatedRoleOutput_clone :: "ValidatedRoleOutput \<Rightarrow> ValidatedRoleOutput" where
  "ValidatedRoleOutput_clone out =
     out\<lparr>vo_target :=
       (case canonicalCoordinatorTarget (vo_target out) of Inl _ \<Rightarrow> no_target | Inr t \<Rightarrow> t)\<rparr>"

definition structured_report :: "Role \<Rightarrow> string" where
  "structured_report role =
     ''# '' @ Role_string role @ '' review'' @ [CHR 0x0A, CHR 0x0A] @
     ''Structured provider review accepted.'' @ [CHR 0x0A]"

definition role_output ::
    "Role \<Rightarrow> string \<Rightarrow> TargetIdentity \<Rightarrow> Finding list \<Rightarrow> VerifiedFindingEvidence list \<Rightarrow> string \<Rightarrow>
     string list \<Rightarrow> string \<Rightarrow> bool \<Rightarrow> ParseState \<Rightarrow> ValidationState \<Rightarrow> ValidatedRoleOutput" where
  "role_output role provider target fs evidence completeness limitations report reportsOnly parse validation =
     \<lparr>vo_role = role, vo_providerInstance = provider, vo_target = target, vo_findings = fs,
      vo_evidence = evidence, vo_completeness = completeness, vo_limitations = limitations,
      vo_reportMarkdown = report, vo_reportsOnly = reportsOnly, vo_parseState = parse,
      vo_validationState = validation, vo_outputTransport = ProviderOutputTransportStdout\<rparr>"

definition checked_output ::
    "(string \<Rightarrow> string) \<Rightarrow> (string \<Rightarrow> bool) \<Rightarrow> ValidatedRoleOutput \<Rightarrow> output_error + ValidatedRoleOutput" where
  "checked_output ul letter out =
     (case normalizeRoleReportMarkdown (vo_reportMarkdown out) of
        Inl e \<Rightarrow> Inl (OutputReport e)
      | Inr _ \<Rightarrow>
          (case ValidatedRoleOutput_validate ul letter out of Some e \<Rightarrow> Inl e | None \<Rightarrow> Inr out))"

definition NewValidatedRoleOutput ::
    "(string \<Rightarrow> string) \<Rightarrow> (string \<Rightarrow> bool) \<Rightarrow> Role \<Rightarrow> string \<Rightarrow> TargetIdentity \<Rightarrow> Finding list \<Rightarrow>
     string \<Rightarrow> string list \<Rightarrow> output_error + ValidatedRoleOutput" where
  "NewValidatedRoleOutput ul letter role provider target fs completeness limitations =
     (case canonicalCoordinatorTarget target of
        Inl e \<Rightarrow> Inl (OutputTarget e)
      | Inr t \<Rightarrow>
          if fs \<noteq> [] then Inl OutputUnexpectedFindings
          else checked_output ul letter
                 (role_output role provider t [] [] completeness limitations (structured_report role)
                    False ParseValid ValidationValid))"

definition NewEvidenceValidatedRoleOutput ::
    "(string \<Rightarrow> string) \<Rightarrow> (string \<Rightarrow> bool) \<Rightarrow> Role \<Rightarrow> string \<Rightarrow> TargetIdentity \<Rightarrow> Finding list \<Rightarrow>
     string \<Rightarrow> string list \<Rightarrow> VerifiedFindingEvidence list \<Rightarrow> output_error + ValidatedRoleOutput" where
  "NewEvidenceValidatedRoleOutput ul letter role provider target fs completeness limitations groups =
     (case canonicalCoordinatorTarget target of
        Inl e \<Rightarrow> Inl (OutputTarget e)
      | Inr t \<Rightarrow>
          (case ReduceVerifiedFindingEvidence ul fs groups structuralEvidencePolicy of
             Inl e \<Rightarrow> Inl (OutputEvidence e)
           | Inr reduced \<Rightarrow>
               checked_output ul letter
                 (role_output role provider t reduced groups completeness limitations
                    (structured_report role) False ParseValid ValidationValid)))"

definition NewReportsOnlyValidatedRoleOutput ::
    "(string \<Rightarrow> string) \<Rightarrow> (string \<Rightarrow> bool) \<Rightarrow> Role \<Rightarrow> string \<Rightarrow> TargetIdentity \<Rightarrow> string \<Rightarrow>
     output_error + ValidatedRoleOutput" where
  "NewReportsOnlyValidatedRoleOutput ul letter role provider target report =
     (case canonicalCoordinatorTarget target of
        Inl e \<Rightarrow> Inl (OutputTarget e)
      | Inr t \<Rightarrow>
          checked_output ul letter
            (role_output role provider t [] [] ''complete'' [] report True ParseNotStarted
               ValidationNotStarted))"

section \<open>Attempt outcomes\<close>

record ProviderTimeoutFacts =
  tf_configured :: int64
  tf_elapsed :: int64

definition ProviderTimeoutFacts_Valid :: "ProviderTimeoutFacts \<Rightarrow> bool" where
  "ProviderTimeoutFacts_Valid f \<longleftrightarrow> 0 < tf_configured f \<and> 0 \<le> tf_elapsed f"

definition NewProviderTimeoutFacts :: "int64 \<Rightarrow> int64 \<Rightarrow> ProviderTimeoutFacts option" where
  "NewProviderTimeoutFacts configured elapsed =
     (let facts = \<lparr>tf_configured = configured, tf_elapsed = elapsed\<rparr>
      in if ProviderTimeoutFacts_Valid facts then Some facts else None)"

record AttemptOutcome =
  ao_job :: InvocationJob
  ao_output :: "ValidatedRoleOutput option"
  ao_condition :: "AttemptCondition option"
  ao_timeoutFacts :: "ProviderTimeoutFacts option"
  ao_runtimeArtifactsExpected :: bool

definition no_outcome :: AttemptOutcome where
  "no_outcome = \<lparr>ao_job = no_job, ao_output = None, ao_condition = None, ao_timeoutFacts = None,
     ao_runtimeArtifactsExpected = False\<rparr>"

datatype outcome_error =
    OutcomeJob job_error
  | OutcomeChoice
  | OutcomeOutput output_error
  | OutcomeMismatch
  | OutcomeCondition AttemptCondition
  | OutcomeTimeoutFacts

definition output_matches :: "ValidatedRoleOutput \<Rightarrow> InvocationJob \<Rightarrow> bool" where
  "output_matches out j \<longleftrightarrow>
     vo_role out = ij_role j \<and>
     vo_providerInstance out = route_providerInstance (ij_route j) \<and> vo_target out = ij_target j"

definition NewAttemptOutcome ::
    "(string \<Rightarrow> string) \<Rightarrow> (string \<Rightarrow> bool) \<Rightarrow> InvocationJob \<Rightarrow> ValidatedRoleOutput option \<Rightarrow>
     AttemptCondition option \<Rightarrow> outcome_error + AttemptOutcome" where
  "NewAttemptOutcome ul letter j out condition =
     (case InvocationJob_validate j of
        Some e \<Rightarrow> Inl (OutcomeJob e)
      | None \<Rightarrow>
          (case (out, condition) of
             (Some v, None) \<Rightarrow>
               (case ValidatedRoleOutput_validate ul letter v of
                  Some e \<Rightarrow> Inl (OutcomeOutput e)
                | None \<Rightarrow>
                    if \<not> output_matches v j then Inl OutcomeMismatch
                    else Inr (no_outcome\<lparr>ao_job := InvocationJob_clone j, ao_output := Some (ValidatedRoleOutput_clone v)\<rparr>))
           | (None, Some c) \<Rightarrow>
               if \<not> AttemptCondition_Valid c \<or> c = AttemptConditionValidReview
               then Inl (OutcomeCondition c)
               else Inr (no_outcome\<lparr>ao_job := InvocationJob_clone j, ao_condition := Some c\<rparr>)
           | _ \<Rightarrow> Inl OutcomeChoice))"

definition NewProviderTimeoutAttemptOutcome ::
    "(string \<Rightarrow> string) \<Rightarrow> (string \<Rightarrow> bool) \<Rightarrow> InvocationJob \<Rightarrow> int64 \<Rightarrow> outcome_error + AttemptOutcome" where
  "NewProviderTimeoutAttemptOutcome ul letter j elapsed =
     (case NewAttemptOutcome ul letter j None (Some AttemptConditionProviderTimeout) of
        Inl e \<Rightarrow> Inl e
      | Inr outcome \<Rightarrow>
          (case NewProviderTimeoutFacts (il_timeout (ij_limits j)) elapsed of
             None \<Rightarrow> Inl OutcomeTimeoutFacts
           | Some facts \<Rightarrow> Inr (outcome\<lparr>ao_timeoutFacts := Some facts\<rparr>)))"

definition validFor ::
    "(string \<Rightarrow> string) \<Rightarrow> (string \<Rightarrow> bool) \<Rightarrow> AttemptOutcome \<Rightarrow> InvocationJob \<Rightarrow> bool" where
  "validFor ul letter outcome j =
     (if InvocationJob_validate j \<noteq> None \<or> ao_job outcome \<noteq> j then False
      else if (ao_output outcome \<noteq> None) = (ao_condition outcome \<noteq> None) then False
      else if (case ao_timeoutFacts outcome of
                 None \<Rightarrow> False
               | Some facts \<Rightarrow>
                   \<not> ProviderTimeoutFacts_Valid facts \<or>
                   ao_condition outcome \<noteq> Some AttemptConditionProviderTimeout \<or>
                   tf_configured facts \<noteq> il_timeout (ij_limits j)) then False
      else case ao_output outcome of
        Some out \<Rightarrow> ValidatedRoleOutput_validate ul letter out = None \<and> output_matches out j
      | None \<Rightarrow>
          (case ao_condition outcome of
             None \<Rightarrow> False
           | Some c \<Rightarrow> AttemptCondition_Valid c \<and> c \<noteq> AttemptConditionValidReview))"

section \<open>Jobs and outcomes fit together\<close>

lemma canonicalCoordinatorTarget_ok: "canonicalCoordinatorTarget t = Inr u \<Longrightarrow> TargetIdentity_ok u"
  unfolding canonicalCoordinatorTarget_def
  by (auto split: if_splits intro: NewLiveTargetIdentity_ok NewTargetIdentity_ok)

lemma TargetIdentity_ok_canonical:
  assumes "TargetIdentity_ok u"
  shows "canonicalCoordinatorTarget u = Inr u"
proof (cases "target_kind u = TargetLiveSource")
  case True
  with assms show ?thesis
    by (simp add: canonicalCoordinatorTarget_def NewLiveTargetIdentity_def TargetIdentity_ok_def
        good_digest_def)
next
  case captured: False
  with assms have digest: "lowerSHA256Pattern (target_sha256 u)" "\<not> allZeroHex (target_sha256 u)"
    and none: "target_sourceIdentitySHA256 u = ''''"
    by (simp_all add: TargetIdentity_ok_def good_digest_def)
  show ?thesis
  proof (cases "target_kind u = TargetGit")
    case True
    have "GitTargetMode_Valid (target_gitMode u)" using assms True by (simp add: TargetIdentity_ok_def)
    moreover from this have "target_gitMode u \<noteq> GitTargetModeOther ''''"
      by (auto simp: GitTargetMode_Valid_def)
    ultimately show ?thesis using assms True digest none
      by (simp add: canonicalCoordinatorTarget_def NewTargetIdentity_def checked_git_target_def
          target_identity_of_def TargetIdentity_ok_def Let_def)
  next
    case False
    with assms captured digest none show ?thesis
      by (simp add: canonicalCoordinatorTarget_def NewTargetIdentity_def target_identity_of_def
          TargetIdentity_ok_def)
  qed
qed

lemmas canonicalCoordinatorTarget_again = TargetIdentity_ok_canonical [OF canonicalCoordinatorTarget_ok]

lemma canonicalCoordinatorRoute_Inr: "canonicalCoordinatorRoute r = Inr q \<Longrightarrow> q = r"
  by (auto simp: canonicalCoordinatorRoute_def NewProviderRoute_def split: if_splits)

text \<open>A job that was built by the constructor: it is valid and its own copy.\<close>

definition job_ok :: "InvocationJob \<Rightarrow> bool" where
  "job_ok j \<longleftrightarrow> InvocationJob_validate j = None \<and> InvocationJob_clone j = j"

lemma newInvocationJob_ok:
  assumes "newInvocationJob s r role route target limits a purpose n = Inr j"
  shows "job_ok j \<and> ij_sessionID j = s \<and> ij_runID j = r \<and> ij_role j = role \<and> ij_route j = route \<and>
    ij_limits j = limits \<and> ij_attemptID j = a \<and> ij_purpose j = purpose \<and> ij_ordinal j = n"
proof -
  from assms obtain q u where q: "canonicalCoordinatorRoute route = Inr q"
    and u: "canonicalCoordinatorTarget target = Inr u"
    and j: "j = \<lparr>ij_sessionID = s, ij_runID = r, ij_role = role, ij_route = q, ij_target = u,
      ij_limits = limits, ij_attemptID = a, ij_purpose = purpose, ij_ordinal = n\<rparr>"
    and valid: "InvocationJob_validate j = None"
    by (auto simp: newInvocationJob_def Let_def split: sum.splits option.splits)
  from canonicalCoordinatorRoute_Inr [OF q] have "q = route" .
  moreover from canonicalCoordinatorTarget_again [OF u] q this have "InvocationJob_clone j = j"
    by (simp add: j InvocationJob_clone_def InvocationJob_Route_def InvocationJob_Target_def)
  ultimately show ?thesis using valid by (simp add: job_ok_def j)
qed

lemma NewAttemptOutcome_condition:
  assumes "job_ok j" "AttemptCondition_Valid c" "c \<noteq> AttemptConditionValidReview"
  shows "\<exists>out. NewAttemptOutcome ul letter j None (Some c) = Inr out \<and> validFor ul letter out j \<and>
    ao_job out = j \<and> ao_output out = None \<and> ao_condition out = Some c \<and> ao_timeoutFacts out = None \<and>
    \<not> ao_runtimeArtifactsExpected out"
  using assms by (simp add: NewAttemptOutcome_def job_ok_def validFor_def no_outcome_def)

lemma NewAttemptOutcome_output:
  assumes "NewAttemptOutcome ul letter j (Some v) None = Inr out" "job_ok j"
  shows "validFor ul letter out j \<and> ao_job out = j \<and> ao_condition out = None \<and> ao_output out = Some v \<and>
    ao_timeoutFacts out = None \<and> \<not> ao_runtimeArtifactsExpected out"
proof -
  from assms have valid: "ValidatedRoleOutput_validate ul letter v = None" and match: "output_matches v j"
    and out: "out = no_outcome\<lparr>ao_job := j, ao_output := Some (ValidatedRoleOutput_clone v)\<rparr>"
    by (auto simp: NewAttemptOutcome_def job_ok_def split: option.splits if_splits)
  from assms(2) have job: "InvocationJob_validate j = None" "InvocationJob_clone j = j" by (simp_all add: job_ok_def)
  have "canonicalCoordinatorTarget (ij_target j) = Inr (ij_target j)"
  proof (cases "canonicalCoordinatorTarget (ij_target j)")
    case (Inl e)
    with job(1) show ?thesis
      by (auto simp: InvocationJob_validate_def check_job_content_def split: if_splits sum.splits)
  next
    case (Inr t)
    with arg_cong [OF job(2), of ij_target] show ?thesis
      by (simp add: InvocationJob_clone_def InvocationJob_Target_def)
  qed
  with match have "ValidatedRoleOutput_clone v = v"
    by (simp add: ValidatedRoleOutput_clone_def output_matches_def)
  with valid match job(1) show ?thesis by (simp add: out validFor_def no_outcome_def)
qed

end
