(* ===== verification/Scheduler.thy ===== *)
theory Scheduler
  imports Role_Outputs "HOL-Library.AList" "HOL-Library.Multiset"
begin

text \<open>
  The workers of a run (\<open>internal/app/review/invocation_scheduler.go\<close>). Every run has a scheduler
  with its own workers, job queue and result queue; all schedulers of the process share one capacity
  authority, which bounds the number of active invocations by the smallest limit of the open runs.
  The goroutines are a step relation: a step is one critical section, one channel operation or one
  call of the runtime. The channel \<open>changed\<close>, which every change of the authority closes and replaces,
  is a number: a waiter that holds an older number is woken.
\<close>

section \<open>The capacity authority\<close>

record processWorkerCapacityAuthority =
  ca_active :: int
  ca_limits :: "(int64 \<times> int) list"
  ca_changed :: nat

record processWorkerCapacityRegistration =
  cr_limit :: int64
  cr_closed :: bool

definition coordinatorProcessWorkerCapacity :: processWorkerCapacityAuthority where
  "coordinatorProcessWorkerCapacity = \<lparr>ca_active = 0, ca_limits = [], ca_changed = 0\<rparr>"

definition limit_count :: "(int64 \<times> int) list \<Rightarrow> int64 \<Rightarrow> int" where
  "limit_count limits k = (case map_of limits k of None \<Rightarrow> 0 | Some n \<Rightarrow> n)"

definition signalLocked :: "processWorkerCapacityAuthority \<Rightarrow> processWorkerCapacityAuthority" where
  "signalLocked a = a\<lparr>ca_changed := Suc (ca_changed a)\<rparr>"

definition register ::
    "int64 \<Rightarrow> processWorkerCapacityAuthority \<Rightarrow>
     processWorkerCapacityAuthority \<times> processWorkerCapacityRegistration" where
  "register maxActiveLanes a =
     (signalLocked (a\<lparr>ca_limits :=
        AList.update maxActiveLanes (limit_count (ca_limits a) maxActiveLanes + 1) (ca_limits a)\<rparr>),
      \<lparr>cr_limit = maxActiveLanes, cr_closed = False\<rparr>)"

definition effectiveLimitLocked :: "processWorkerCapacityAuthority \<Rightarrow> int64" where
  "effectiveLimitLocked a =
     foldl (\<lambda>limit candidate. if limit = 0 \<or> candidate < limit then candidate else limit) 0
       (map fst (ca_limits a))"

datatype acquire_result =
    AcquireClosed
  | Acquired processWorkerCapacityAuthority
  | AcquireWait nat

text \<open>One round of the loop of \<open>acquire\<close>: the critical section.\<close>

definition acquire ::
    "processWorkerCapacityRegistration \<Rightarrow> processWorkerCapacityAuthority \<Rightarrow> acquire_result" where
  "acquire r a =
     (if cr_closed r then AcquireClosed
      else if ca_active a < effectiveLimitLocked a then Acquired (a\<lparr>ca_active := ca_active a + 1\<rparr>)
      else AcquireWait (ca_changed a))"

definition releaseSlot :: "processWorkerCapacityAuthority \<Rightarrow> processWorkerCapacityAuthority" where
  "releaseSlot a = signalLocked (a\<lparr>ca_active := ca_active a - 1\<rparr>)"

definition unregister ::
    "processWorkerCapacityRegistration \<Rightarrow> processWorkerCapacityAuthority \<Rightarrow>
     processWorkerCapacityAuthority \<times> processWorkerCapacityRegistration" where
  "unregister r a =
     (if cr_closed r then (a, r)
      else let n = limit_count (ca_limits a) (cr_limit r) - 1
           in (signalLocked (a\<lparr>ca_limits :=
                 (if n = 0 then AList.delete (cr_limit r) (ca_limits a)
                  else AList.update (cr_limit r) n (ca_limits a))\<rparr>),
               r\<lparr>cr_closed := True\<rparr>))"

section \<open>Outcomes\<close>

text \<open>What \<open>ctx.Err()\<close> returns. A context that ended stays ended with the same error.\<close>

datatype context_error = ContextCanceled | ContextDeadlineExceeded

definition coordinatorOutcomeCondition :: "AttemptOutcome \<Rightarrow> AttemptCondition" where
  "coordinatorOutcomeCondition out =
     (if ao_output out \<noteq> None then AttemptConditionValidReview
      else case ao_condition out of Some c \<Rightarrow> c | None \<Rightarrow> AttemptConditionInternalInvariant)"

definition conditionRetainsAuthorityAfterContext :: "AttemptCondition \<Rightarrow> AttemptCondition \<Rightarrow> bool" where
  "conditionRetainsAuthorityAfterContext condition contextCondition =
     (if contextCondition = AttemptConditionCancelled then
        condition = AttemptConditionInternalInvariant \<or> condition = AttemptConditionArtifactFailure \<or>
        condition = AttemptConditionLoginRequired \<or> condition = AttemptConditionSecurityViolation \<or>
        condition = AttemptConditionMutationViolation
      else if contextCondition = AttemptConditionTimeout then
        condition = AttemptConditionInternalInvariant \<or> condition = AttemptConditionArtifactFailure \<or>
        condition = AttemptConditionLoginRequired \<or> condition = AttemptConditionSecurityViolation \<or>
        condition = AttemptConditionMutationViolation \<or>
        condition = AttemptConditionConfigurationViolation \<or>
        condition = AttemptConditionProviderTimeout
      else False)"

definition invocationContextCondition :: "context_error \<Rightarrow> AttemptCondition" where
  "invocationContextCondition e =
     (if e = ContextDeadlineExceeded then AttemptConditionTimeout else AttemptConditionCancelled)"

definition conditionOutcome ::
    "(string \<Rightarrow> string) \<Rightarrow> (string \<Rightarrow> bool) \<Rightarrow> InvocationJob \<Rightarrow> AttemptCondition \<Rightarrow> AttemptOutcome" where
  "conditionOutcome ul letter j condition =
     (case NewAttemptOutcome ul letter j None (Some condition) of Inl _ \<Rightarrow> no_outcome | Inr out \<Rightarrow> out)"

text \<open>
  \<open>reduceOutcome\<close> looks at the context twice: \<open>early\<close> and \<open>late\<close> are what it sees.
\<close>

definition settle ::
    "(string \<Rightarrow> string) \<Rightarrow> (string \<Rightarrow> bool) \<Rightarrow> InvocationJob \<Rightarrow> AttemptOutcome \<Rightarrow> context_error option \<Rightarrow>
     context_error option \<Rightarrow> AttemptCondition \<Rightarrow> AttemptOutcome" where
  "settle ul letter j out early late condition =
     (let condition = (if condition = AttemptConditionProviderTimeout \<and>
                          late = Some ContextDeadlineExceeded
                       then AttemptConditionTimeout else condition);
          condition = (case early of
              None \<Rightarrow> condition
            | Some e \<Rightarrow>
                if conditionRetainsAuthorityAfterContext condition (invocationContextCondition e)
                then condition else invocationContextCondition e)
      in if validFor ul letter out j \<and> coordinatorOutcomeCondition out = condition then out
         else conditionOutcome ul letter j condition)"

definition reduceOutcome ::
    "(string \<Rightarrow> string) \<Rightarrow> (string \<Rightarrow> bool) \<Rightarrow> InvocationJob \<Rightarrow> AttemptOutcome \<Rightarrow> context_error option \<Rightarrow>
     context_error option \<Rightarrow> AttemptCondition list \<Rightarrow> AttemptOutcome" where
  "reduceOutcome ul letter j out early late conditions =
     (let facts = filter (\<lambda>c. \<not> (early = Some ContextDeadlineExceeded \<and> c = AttemptConditionCancelled))
                    conditions
      in case (facts, early) of
           ([], Some e) \<Rightarrow> conditionOutcome ul letter j (invocationContextCondition e)
         | _ \<Rightarrow>
             (case ReduceAttemptConditions
                     (if facts = [] then [AttemptConditionInternalInvariant] else facts) of
                Inl _ \<Rightarrow> conditionOutcome ul letter j AttemptConditionInternalInvariant
              | Inr condition \<Rightarrow> settle ul letter j out early late condition))"

definition contextOutcome ::
    "(string \<Rightarrow> string) \<Rightarrow> (string \<Rightarrow> bool) \<Rightarrow> InvocationJob \<Rightarrow> context_error option \<Rightarrow> AttemptOutcome" where
  "contextOutcome ul letter j ctx = reduceOutcome ul letter j no_outcome ctx ctx []"

definition invokedOutcome ::
    "(string \<Rightarrow> string) \<Rightarrow> (string \<Rightarrow> bool) \<Rightarrow> InvocationJob \<Rightarrow> AttemptOutcome \<Rightarrow> context_error option \<Rightarrow>
     context_error option \<Rightarrow> AttemptOutcome" where
  "invokedOutcome ul letter j out early late =
     reduceOutcome ul letter j out early late
       [if validFor ul letter out j then coordinatorOutcomeCondition out
        else AttemptConditionInternalInvariant]"

section \<open>Workers\<close>

text \<open>
  A worker waits for a job; has a job and waits for its gate; is about to enter the critical section
  of \<open>acquire\<close>; waits there for a change; holds a slot; is inside the runtime; is about to send a
  result, with or without a slot to give back; has sent and is about to give the slot back; is done.
\<close>

datatype worker =
    WorkerIdle
  | WorkerGated InvocationJob nat
  | WorkerAcquiring InvocationJob
  | WorkerWaiting InvocationJob nat
  | WorkerHolding InvocationJob
  | WorkerInvoking InvocationJob
  | WorkerSending InvocationJob AttemptOutcome bool
  | WorkerReleasing
  | WorkerExited

record invocationScheduler =
  sc_ctx :: "context_error option"
  sc_capacity :: processWorkerCapacityRegistration
  sc_maxJobs :: nat
  sc_jobs :: "(InvocationJob \<times> nat) list"
  sc_results :: "(InvocationJob \<times> AttemptOutcome) list"
  sc_gates :: "nat list"
  sc_closed :: bool
  sc_workers :: "worker list"

definition newInvocationScheduler ::
    "context_error option \<Rightarrow> int64 \<Rightarrow> int64 \<Rightarrow> processWorkerCapacityAuthority \<Rightarrow>
     processWorkerCapacityAuthority \<times> invocationScheduler" where
  "newInvocationScheduler ctx maxActiveLanes maxJobs a =
     (let (a', registration) = register maxActiveLanes a
      in (a', \<lparr>sc_ctx = ctx, sc_capacity = registration,
               sc_maxJobs = nat (if maxJobs < 1 then 1 else maxJobs), sc_jobs = [], sc_results = [],
               sc_gates = [], sc_closed = False,
               sc_workers = replicate (nat maxActiveLanes) WorkerIdle\<rparr>))"

text \<open>
  \<open>admitWithGate\<close>, with the gate by its number. When the queue is full it blocks until there is room
  or the context ends, and so does not answer.
\<close>

definition admitWithGate ::
    "InvocationJob \<Rightarrow> nat \<Rightarrow> invocationScheduler \<Rightarrow> (invocationScheduler \<times> bool) option" where
  "admitWithGate j gate s =
     (if sc_closed s \<or> sc_ctx s \<noteq> None then Some (s, False)
      else if length (sc_jobs s) < sc_maxJobs s
        then Some (s\<lparr>sc_jobs := sc_jobs s @ [(j, gate)]\<rparr>, True)
      else None)"

definition open_gate :: "nat \<Rightarrow> invocationScheduler \<Rightarrow> invocationScheduler" where
  "open_gate gate s = s\<lparr>sc_gates := gate # sc_gates s\<rparr>"

definition end_context :: "context_error \<Rightarrow> invocationScheduler \<Rightarrow> invocationScheduler" where
  "end_context e s = (if sc_ctx s = None then s\<lparr>sc_ctx := Some e\<rparr> else s)"

definition cancelDispatch :: "invocationScheduler \<Rightarrow> invocationScheduler" where
  "cancelDispatch = end_context ContextCanceled"

text \<open>The first half of \<open>close\<close>, and the second, once the workers are done.\<close>

definition close_jobs :: "invocationScheduler \<Rightarrow> invocationScheduler" where
  "close_jobs s = s\<lparr>sc_closed := True\<rparr>"

definition close_capacity ::
    "processWorkerCapacityAuthority \<times> invocationScheduler \<Rightarrow>
     processWorkerCapacityAuthority \<times> invocationScheduler" where
  "close_capacity =
     (\<lambda>(a, s). let (a', r) = unregister (sc_capacity s) a
               in (a', cancelDispatch (s\<lparr>sc_capacity := r\<rparr>)))"

text \<open>The checks of \<open>runJob\<close> before it asks for capacity, and those after.\<close>

definition begin_job ::
    "(string \<Rightarrow> string) \<Rightarrow> (string \<Rightarrow> bool) \<Rightarrow> InvocationJob \<Rightarrow> context_error option \<Rightarrow> worker" where
  "begin_job ul letter j ctx =
     (if validateInvocationLimits (ij_limits j) \<noteq> None
        then WorkerSending j (conditionOutcome ul letter j AttemptConditionInternalInvariant) False
      else if ctx \<noteq> None then WorkerSending j (contextOutcome ul letter j ctx) False
      else WorkerAcquiring j)"

definition enter_runtime ::
    "(string \<Rightarrow> string) \<Rightarrow> (string \<Rightarrow> bool) \<Rightarrow> InvocationJob \<Rightarrow> context_error option \<Rightarrow> bool \<Rightarrow> worker" where
  "enter_runtime ul letter j ctx timeLeft =
     (if ctx \<noteq> None then WorkerSending j (contextOutcome ul letter j ctx) True
      else if \<not> timeLeft then WorkerSending j (conditionOutcome ul letter j AttemptConditionTimeout) True
      else WorkerInvoking j)"

definition after_send :: "bool \<Rightarrow> worker" where
  "after_send slot = (if slot then WorkerReleasing else WorkerIdle)"

inductive worker_step ::
    "(string \<Rightarrow> string) \<Rightarrow> (string \<Rightarrow> bool) \<Rightarrow> processWorkerCapacityAuthority \<times> invocationScheduler \<Rightarrow> worker \<Rightarrow>
     processWorkerCapacityAuthority \<times> invocationScheduler \<Rightarrow> worker \<Rightarrow> bool" for ul letter where
  take_job: "sc_jobs s = (j, gate) # rest \<Longrightarrow>
    worker_step ul letter (a, s) WorkerIdle (a, s\<lparr>sc_jobs := rest\<rparr>) (WorkerGated j gate)"
| leave: "sc_jobs s = [] \<Longrightarrow> sc_closed s \<Longrightarrow>
    worker_step ul letter (a, s) WorkerIdle (a, s) WorkerExited"
| start: "gate \<in> set (sc_gates s) \<Longrightarrow>
    worker_step ul letter (a, s) (WorkerGated j gate) (a, s) (begin_job ul letter j (sc_ctx s))"
| drop: "sc_ctx s \<noteq> None \<Longrightarrow>
    worker_step ul letter (a, s) (WorkerGated j gate) (a, s)
      (WorkerSending j (contextOutcome ul letter j (sc_ctx s)) False)"
| refused: "acquire (sc_capacity s) a = AcquireClosed \<Longrightarrow>
    worker_step ul letter (a, s) (WorkerAcquiring j) (a, s)
      (WorkerSending j (contextOutcome ul letter j (sc_ctx s)) False)"
| granted: "acquire (sc_capacity s) a = Acquired a' \<Longrightarrow>
    worker_step ul letter (a, s) (WorkerAcquiring j) (a', s) (WorkerHolding j)"
| must_wait: "acquire (sc_capacity s) a = AcquireWait g \<Longrightarrow>
    worker_step ul letter (a, s) (WorkerAcquiring j) (a, s) (WorkerWaiting j g)"
| wake: "g < ca_changed a \<Longrightarrow>
    worker_step ul letter (a, s) (WorkerWaiting j g) (a, s) (WorkerAcquiring j)"
| give_up: "sc_ctx s \<noteq> None \<Longrightarrow>
    worker_step ul letter (a, s) (WorkerWaiting j g) (a, s)
      (WorkerSending j (contextOutcome ul letter j (sc_ctx s)) False)"
| enter: "worker_step ul letter (a, s) (WorkerHolding j) (a, s)
      (enter_runtime ul letter j (sc_ctx s) timeLeft)"
| return: "early = None \<or> early = sc_ctx s \<Longrightarrow>
    worker_step ul letter (a, s) (WorkerInvoking j) (a, s)
      (WorkerSending j (invokedOutcome ul letter j out early (sc_ctx s)) True)"
| send: "length (sc_results s) < sc_maxJobs s \<Longrightarrow>
    worker_step ul letter (a, s) (WorkerSending j out slot)
      (a, s\<lparr>sc_results := sc_results s @ [(j, out)]\<rparr>) (after_send slot)"
| release: "worker_step ul letter (a, s) WorkerReleasing (releaseSlot a, s) WorkerIdle"

section \<open>Schedulers and the process\<close>

datatype scheduler_event =
    EventAdmit InvocationJob
  | EventCollect InvocationJob AttemptOutcome
  | EventGate nat
  | EventContext context_error
  | EventWork
  | EventClose
  | EventUnregister

inductive scheduler_step ::
    "(string \<Rightarrow> string) \<Rightarrow> (string \<Rightarrow> bool) \<Rightarrow> processWorkerCapacityAuthority \<times> invocationScheduler \<Rightarrow>
     scheduler_event \<Rightarrow> processWorkerCapacityAuthority \<times> invocationScheduler \<Rightarrow> bool" for ul letter where
  admit: "admitWithGate j gate s = Some (s', True) \<Longrightarrow>
    scheduler_step ul letter (a, s) (EventAdmit j) (a, s')"
| gate: "scheduler_step ul letter (a, s) (EventGate gate) (a, open_gate gate s)"
| context_end: "scheduler_step ul letter (a, s) (EventContext e) (a, end_context e s)"
| collect: "sc_results s = (j, out) # rest \<Longrightarrow>
    scheduler_step ul letter (a, s) (EventCollect j out) (a, s\<lparr>sc_results := rest\<rparr>)"
| work: "w < length (sc_workers s) \<Longrightarrow> worker_step ul letter (a, s) (sc_workers s ! w) (a', s') p \<Longrightarrow>
    scheduler_step ul letter (a, s) EventWork (a', s'\<lparr>sc_workers := (sc_workers s)[w := p]\<rparr>)"
| close: "\<not> sc_closed s \<Longrightarrow> scheduler_step ul letter (a, s) EventClose (a, close_jobs s)"
| unregister: "sc_closed s \<Longrightarrow> \<forall>w \<in> set (sc_workers s). w = WorkerExited \<Longrightarrow>
    \<not> cr_closed (sc_capacity s) \<Longrightarrow>
    scheduler_step ul letter (a, s) EventUnregister (close_capacity (a, s))"

type_synonym scheduler_process = "processWorkerCapacityAuthority \<times> invocationScheduler list"

inductive process_step ::
    "(string \<Rightarrow> string) \<Rightarrow> (string \<Rightarrow> bool) \<Rightarrow> scheduler_process \<Rightarrow> (nat \<times> scheduler_event) option \<Rightarrow>
     scheduler_process \<Rightarrow> bool" for ul letter where
  create: "1 \<le> maxActiveLanes \<Longrightarrow> newInvocationScheduler ctx maxActiveLanes maxJobs a = (a', s) \<Longrightarrow>
    process_step ul letter (a, ss) None (a', ss @ [s])"
| local: "i < length ss \<Longrightarrow> scheduler_step ul letter (a, ss ! i) e (a', s') \<Longrightarrow>
    process_step ul letter (a, ss) (Some (i, e)) (a', ss[i := s'])"

inductive process_reachable ::
    "(string \<Rightarrow> string) \<Rightarrow> (string \<Rightarrow> bool) \<Rightarrow> (nat \<times> scheduler_event) option list \<Rightarrow> scheduler_process \<Rightarrow> bool"
  for ul letter where
  initial: "process_reachable ul letter [] (coordinatorProcessWorkerCapacity, [])"
| step: "process_reachable ul letter es p \<Longrightarrow> process_step ul letter p e q \<Longrightarrow>
    process_reachable ul letter (es @ [e]) q"

section \<open>Capacity\<close>

fun holds_slot :: "worker \<Rightarrow> bool" where
  "holds_slot (WorkerHolding j) = True"
| "holds_slot (WorkerInvoking j) = True"
| "holds_slot (WorkerSending j out slot) = slot"
| "holds_slot WorkerReleasing = True"
| "holds_slot w = False"

definition slots :: "invocationScheduler \<Rightarrow> nat" where
  "slots s = length (filter holds_slot (sc_workers s))"

definition open_limits :: "invocationScheduler list \<Rightarrow> int64 list" where
  "open_limits ss = map (cr_limit \<circ> sc_capacity) (filter (\<lambda>s. \<not> cr_closed (sc_capacity s)) ss)"

definition limits_match :: "(int64 \<times> int) list \<Rightarrow> int64 list \<Rightarrow> bool" where
  "limits_match limits open \<longleftrightarrow>
     distinct (map fst limits) \<and>
     (\<forall>k. map_of limits k = (let n = count_list open k in if n = 0 then None else Some (int n)))"

definition waits_soundly :: "processWorkerCapacityAuthority \<Rightarrow> worker \<Rightarrow> bool" where
  "waits_soundly a w \<longleftrightarrow>
     (\<forall>j g. w = WorkerWaiting j g \<longrightarrow>
        g \<le> ca_changed a \<and> (g = ca_changed a \<longrightarrow> effectiveLimitLocked a \<le> ca_active a))"

definition process_inv :: "scheduler_process \<Rightarrow> bool" where
  "process_inv =
     (\<lambda>(a, ss).
        ca_active a = int (sum_list (map slots ss)) \<and>
        limits_match (ca_limits a) (open_limits ss) \<and> (\<forall>k \<in> set (open_limits ss). 1 \<le> k) \<and>
        (\<forall>s \<in> set ss. (\<forall>w \<in> set (sc_workers s). waits_soundly a w) \<and>
           (cr_closed (sc_capacity s) \<longrightarrow> (\<forall>w \<in> set (sc_workers s). w = WorkerExited))))"

lemma limits_match_keys: "limits_match limits open \<Longrightarrow> set (map fst limits) = set open"
proof -
  assume m: "limits_match limits open"
  have "k \<in> set (map fst limits) \<longleftrightarrow> k \<in> set open" for k
    using m map_of_eq_None_iff [of limits k] by (auto simp: limits_match_def Let_def count_list_0_iff split: if_splits)
  then show ?thesis by blast
qed

lemma smallest_limit:
  fixes ks :: "int64 list"
  assumes "\<forall>k \<in> set ks. 1 \<le> k" "0 \<le> m"
  shows "foldl (\<lambda>limit candidate. if limit = 0 \<or> candidate < limit then candidate else limit) m ks =
    (if m = 0 then (if ks = [] then 0 else Min (set ks)) else Min (insert m (set ks)))" (is "foldl ?f m ks = _")
  using assms
proof (induction ks arbitrary: m)
  case (Cons k ks)
  define n where "n = ?f m k"
  have "n = (if m = 0 \<or> k < m then k else m)" by (simp add: n_def)
  moreover have "1 \<le> k" "0 \<le> m" using Cons.prems by simp_all
  then have "1 \<le> n" unfolding n_def by (auto; linarith)
  moreover have "foldl ?f m (k # ks) = foldl ?f n ks" by (simp add: n_def)
  moreover have "foldl ?f n ks = Min (insert n (set ks))" using Cons.IH [of n] Cons.prems \<open>1 \<le> n\<close> by simp
  ultimately show ?case
    using Cons.prems by (cases "ks = []") (auto simp: min_def Min_insert2)

qed simp

lemma effective_limit:
  assumes "limits_match (ca_limits a) open" "\<forall>k \<in> set open. 1 \<le> k"
  shows "effectiveLimitLocked a = (if open = [] then 0 else Min (set open))"
proof -
  note keys = limits_match_keys [OF assms(1)]
  with assms(2) have "\<forall>k \<in> set (map fst (ca_limits a)). 1 \<le> k" by simp
  from smallest_limit [OF this, of 0] keys show ?thesis
    unfolding effectiveLimitLocked_def by (cases "open") (auto simp del: set_map)
qed

lemma limits_match_register:
  "limits_match limits open \<Longrightarrow> limits_match (AList.update k (limit_count limits k + 1) limits) (open @ [k])"
  unfolding limits_match_def limit_count_def
  by (auto simp: distinct_update update_conv' Let_def)

lemma limits_match_unregister:
  assumes "limits_match limits open" "k \<in> set open" "n = limit_count limits k - 1"
    and count: "\<And>q. count_list open' q = (if q = k then count_list open q - 1 else count_list open q)"
  shows "limits_match (if n = 0 then AList.delete k limits else AList.update k n limits) open'"
proof -
  have pos: "count_list open k \<noteq> 0" using assms(2) by (simp add: count_list_0_iff)
  with assms(1,3) have n: "n = int (count_list open k) - 1"
    by (simp add: limits_match_def limit_count_def Let_def)
  show ?thesis
  proof (cases "n = 0")
    case True
    with n pos have "count_list open k = 1" by simp
    with assms(1) True show ?thesis
      by (auto simp: limits_match_def distinct_delete delete_conv' count Let_def)
  next
    case False
    with n pos have "1 < count_list open k" by linarith
    with assms(1) False show ?thesis
      by (auto simp: limits_match_def distinct_update update_conv' count Let_def n)
  qed
qed

definition weight :: "worker \<Rightarrow> int" where
  "weight w = (if holds_slot w then 1 else 0)"

lemma filter_update:
  "i < length xs \<Longrightarrow>
   int (length (filter P (xs[i := x]))) =
     int (length (filter P xs)) + (if P x then 1 else 0) - (if P (xs ! i) then 1 else 0)"
proof (induction xs arbitrary: i)
  case (Cons y ys)
  show ?case
  proof (cases i)
    case (Suc m)
    with Cons.IH [of m] Cons.prems show ?thesis by (simp split: if_splits)
  qed simp
qed simp

lemma slots_update:
  "i < length (sc_workers s) \<Longrightarrow> sc_workers s' = sc_workers s \<Longrightarrow>
   int (slots (s'\<lparr>sc_workers := (sc_workers s)[i := p]\<rparr>)) = int (slots s) + weight p - weight (sc_workers s ! i)"
  by (simp add: slots_def filter_update weight_def)

lemma sum_slots_update:
  "i < length ss \<Longrightarrow>
   int (sum_list (map slots (ss[i := s]))) = int (sum_list (map slots ss)) + int (slots s) - int (slots (ss ! i))"
proof (induction ss arbitrary: i)
  case (Cons t ss)
  then show ?case by (cases i) auto
qed simp

text \<open>What one step of a worker does to the authority, and to itself.\<close>

definition authority_moves :: "processWorkerCapacityAuthority \<Rightarrow> processWorkerCapacityAuthority \<Rightarrow> bool" where
  "authority_moves a b \<longleftrightarrow>
     ca_changed b = Suc (ca_changed a) \<or>
     ca_changed b = ca_changed a \<and> ca_limits b = ca_limits a \<and> ca_active a \<le> ca_active b"

lemma moves_sound: "authority_moves a b \<Longrightarrow> waits_soundly a w \<Longrightarrow> waits_soundly b w"
  by (auto simp: authority_moves_def waits_soundly_def effectiveLimitLocked_def)

lemmas not_waiting = begin_job_def enter_runtime_def after_send_def

lemma worker_step_effect:
  assumes "worker_step ul letter (a, s) w (b, t) p"
  shows "ca_limits b = ca_limits a" and "sc_capacity t = sc_capacity s" and "sc_workers t = sc_workers s"
    and "w \<noteq> WorkerExited" and "ca_active b = ca_active a + weight p - weight w"
    and "authority_moves a b" and "waits_soundly a w \<Longrightarrow> waits_soundly b p"
  using assms
  by (cases rule: worker_step.cases;
      auto simp: acquire_def releaseSlot_def signalLocked_def weight_def authority_moves_def waits_soundly_def
        not_waiting split: if_splits)+

lemma acquire_granted:
  "acquire r a = Acquired b \<longleftrightarrow>
     \<not> cr_closed r \<and> ca_active a < effectiveLimitLocked a \<and> b = a\<lparr>ca_active := ca_active a + 1\<rparr>"
  by (auto simp: acquire_def)

lemma open_limits_update:
  "i < length ss \<Longrightarrow> sc_capacity s = sc_capacity (ss ! i) \<Longrightarrow> open_limits (ss[i := s]) = open_limits ss"
proof (induction ss arbitrary: i)
  case (Cons t ss)
  then show ?case by (cases i) (auto simp: open_limits_def)
qed simp

lemma open_limits_closed:
  "i < length ss \<Longrightarrow> cr_closed (sc_capacity s) \<Longrightarrow> \<not> cr_closed (sc_capacity (ss ! i)) \<Longrightarrow>
   count_list (open_limits (ss[i := s])) k =
     (if k = cr_limit (sc_capacity (ss ! i)) then count_list (open_limits ss) k - 1
      else count_list (open_limits ss) k) \<and>
   cr_limit (sc_capacity (ss ! i)) \<in> set (open_limits ss) \<and> set (open_limits (ss[i := s])) \<subseteq> set (open_limits ss)"
proof (induction ss arbitrary: i)
  case (Cons t ss)
  show ?case
  proof (cases i)
    case 0
    with Cons.prems show ?thesis by (auto simp: open_limits_def)
  next
    case (Suc m)
    have "cr_limit (sc_capacity (ss ! m)) \<in> set (open_limits ss)" using Cons Suc by simp
    then have "count_list (open_limits ss) (cr_limit (sc_capacity (ss ! m))) \<noteq> 0"
      by (simp add: count_list_0_iff)
    with Cons Suc show ?thesis by (auto simp: open_limits_def)
  qed
qed simp

lemma scheduler_step_frame:
  assumes "scheduler_step ul letter (a, s) e (b, t)" "e \<noteq> EventWork" "e \<noteq> EventUnregister"
  shows "b = a \<and> sc_capacity t = sc_capacity s \<and> sc_workers t = sc_workers s"
  using assms
  by (cases rule: scheduler_step.cases)
     (auto simp: admitWithGate_def open_gate_def end_context_def close_jobs_def split: if_splits)

inductive_cases work_stepE: "scheduler_step ul letter (a, s) EventWork (b, t)"
inductive_cases unregister_stepE: "scheduler_step ul letter (a, s) EventUnregister (b, t)"

lemma process_inv_same:
  assumes inv: "process_inv (a, ss)" and i: "i < length ss"
    and same: "sc_capacity t = sc_capacity (ss ! i)" "sc_workers t = sc_workers (ss ! i)"
  shows "process_inv (a, ss[i := t])"
proof -
  have "int (sum_list (map slots (ss[i := t]))) = int (sum_list (map slots ss))"
    unfolding sum_slots_update [OF i] by (simp add: slots_def same)
  moreover have "set (ss[i := t]) \<subseteq> insert t (set ss)" by (rule set_update_subset_insert)
  moreover have "ss ! i \<in> set ss" using i by simp
  ultimately show ?thesis
    using inv open_limits_update [OF i same(1)] same by (auto simp: process_inv_def)
qed

lemma process_inv_work:
  assumes inv: "process_inv (a, ss)" and i: "i < length ss" and w: "w < length (sc_workers (ss ! i))"
    and step: "worker_step ul letter (a, ss ! i) (sc_workers (ss ! i) ! w) (b, s) p"
  shows "process_inv (b, ss[i := s\<lparr>sc_workers := (sc_workers (ss ! i))[w := p]\<rparr>])" (is "process_inv (b, ss[i := ?t])")
proof -
  note effect = worker_step_effect [OF step]
  have mem: "ss ! i \<in> set ss" "sc_workers (ss ! i) ! w \<in> set (sc_workers (ss ! i))" using i w by simp_all
  with inv have sound: "waits_soundly a (sc_workers (ss ! i) ! w)"
    and opened: "\<not> cr_closed (sc_capacity (ss ! i))" using effect(4) by (auto simp: process_inv_def)
  have "int (slots ?t) = int (slots (ss ! i)) + weight p - weight (sc_workers (ss ! i) ! w)"
    by (rule slots_update [OF w effect(3)])
  then have "int (sum_list (map slots (ss[i := ?t]))) = ca_active b"
    using inv effect(5) by (simp add: sum_slots_update [OF i] process_inv_def)
  moreover have "open_limits (ss[i := ?t]) = open_limits ss"
    by (rule open_limits_update [OF i]) (simp add: effect(2))
  moreover have "\<forall>v \<in> set (sc_workers t). waits_soundly b v" if "t \<in> set (ss[i := ?t])" for t
  proof (cases "t \<in> set ss")
    case True
    with inv moves_sound [OF effect(6)] show ?thesis by (auto simp: process_inv_def)
  next
    case False
    with that have "t = ?t" using set_update_subset_insert [of ss i ?t] by blast
    moreover have "set ((sc_workers (ss ! i))[w := p]) \<subseteq> insert p (set (sc_workers (ss ! i)))"
      by (rule set_update_subset_insert)
    ultimately show ?thesis
      using inv mem(1) moves_sound [OF effect(6)] effect(7) [OF sound] by (auto simp: process_inv_def)
  qed
  moreover have "cr_closed (sc_capacity t) \<longrightarrow> (\<forall>v \<in> set (sc_workers t). v = WorkerExited)"
    if "t \<in> set (ss[i := ?t])" for t
    using that inv opened effect(2) set_update_subset_insert [of ss i ?t] by (auto simp: process_inv_def)
  ultimately show ?thesis using inv effect(1) unfolding process_inv_def by (simp only: prod.case) blast
qed

lemma process_inv_unregister:
  assumes inv: "process_inv (a, ss)" and i: "i < length ss"
    and done_: "\<forall>w \<in> set (sc_workers (ss ! i)). w = WorkerExited" and opened: "\<not> cr_closed (sc_capacity (ss ! i))"
    and b: "close_capacity (a, ss ! i) = (b, t)"
  shows "process_inv (b, ss[i := t])"
proof -
  define n where "n = limit_count (ca_limits a) (cr_limit (sc_capacity (ss ! i))) - 1"
  have limits: "ca_limits b = (if n = 0 then AList.delete (cr_limit (sc_capacity (ss ! i))) (ca_limits a)
      else AList.update (cr_limit (sc_capacity (ss ! i))) n (ca_limits a))"
    and active: "ca_active b = ca_active a" and changed: "ca_changed b = Suc (ca_changed a)"
    and closed: "cr_closed (sc_capacity t)" and workers: "sc_workers t = sc_workers (ss ! i)"
    using b opened
    by (auto simp: close_capacity_def unregister_def cancelDispatch_def end_context_def signalLocked_def Let_def
        n_def split: if_splits)
  note closed_limits = open_limits_closed [OF i closed opened]
  have "int (sum_list (map slots (ss[i := t]))) = int (sum_list (map slots ss))"
    unfolding sum_slots_update [OF i] by (simp add: slots_def workers)
  moreover have "limits_match (ca_limits b) (open_limits (ss[i := t]))"
    unfolding limits
    by (rule limits_match_unregister [OF _ _ n_def]) (use inv closed_limits in \<open>auto simp: process_inv_def\<close>)
  moreover have moved: "authority_moves a b" by (simp add: authority_moves_def changed)
  moreover have "ss ! i \<in> set ss" using i by simp
  moreover note set_update_subset_insert [of ss i t]
  moreover have "set (open_limits (ss[i := t])) \<subseteq> set (open_limits ss)" using closed_limits by blast
  ultimately show ?thesis
    using inv active workers done_ moves_sound [OF moved] by (auto simp: process_inv_def)
qed

lemma process_inv_step:
  assumes "process_inv p" "process_step ul letter p e q"
  shows "process_inv q"
  using assms(2,1)
proof cases
  case (create maxActiveLanes ctx maxJobs a b s ss)
  then have s: "sc_capacity s = \<lparr>cr_limit = maxActiveLanes, cr_closed = False\<rparr>"
      "sc_workers s = replicate (nat maxActiveLanes) WorkerIdle"
    and b: "ca_active b = ca_active a" "ca_changed b = Suc (ca_changed a)"
      "ca_limits b = AList.update maxActiveLanes (limit_count (ca_limits a) maxActiveLanes + 1) (ca_limits a)"
    by (auto simp: newInvocationScheduler_def register_def signalLocked_def)
  have "slots s = 0" by (simp add: slots_def s)
  moreover have "open_limits (ss @ [s]) = open_limits ss @ [maxActiveLanes]" by (simp add: open_limits_def s)
  moreover have moved: "authority_moves a b" by (simp add: authority_moves_def b)
  moreover have "waits_soundly b WorkerIdle" by (simp add: waits_soundly_def)
  ultimately show ?thesis
    using create assms(1) limits_match_register moves_sound [OF moved]
    by (auto simp: process_inv_def b s)
next
  case (local i ss a e' b s)
  show ?thesis
  proof (cases "e' = EventWork \<or> e' = EventUnregister")
    case False
    with scheduler_step_frame [OF local(5)] process_inv_same [of a ss i s] local assms(1) show ?thesis by simp
  next
    case True
    then show ?thesis
    proof
      assume "e' = EventWork"
      with local(5) have "scheduler_step ul letter (a, ss ! i) EventWork (b, s)" by simp
      then show ?thesis
        by (rule work_stepE) (use process_inv_work [OF _ local(4)] local assms(1) in auto)
    next
      assume "e' = EventUnregister"
      with local(5) have "scheduler_step ul letter (a, ss ! i) EventUnregister (b, s)" by simp
      then show ?thesis
        by (rule unregister_stepE) (use process_inv_unregister [OF _ local(4)] local assms(1) in auto)
    qed
  qed
qed

theorem process_reachable_inv: "process_reachable ul letter es p \<Longrightarrow> process_inv p"
proof (induction rule: process_reachable.induct)
  case initial
  then show ?case
    by (simp add: process_inv_def coordinatorProcessWorkerCapacity_def limits_match_def open_limits_def)
next
  case (step es p e q)
  then show ?case by (blast intro: process_inv_step)
qed

section \<open>What the authority guarantees\<close>

text \<open>
  A slot is granted exactly to an open registration while fewer slots are held, in the whole
  process, than every open run allows.
\<close>

lemma granted_exactly:
  assumes "process_reachable ul letter es (a, ss)" "s \<in> set ss"
  shows "(\<exists>b. acquire (sc_capacity s) a = Acquired b) \<longleftrightarrow>
     \<not> cr_closed (sc_capacity s) \<and> (\<forall>k \<in> set (open_limits ss). int (sum_list (map slots ss)) < k)"
proof -
  from process_reachable_inv [OF assms(1)] have inv: "process_inv (a, ss)" .
  then have limit: "effectiveLimitLocked a = (if open_limits ss = [] then 0 else Min (set (open_limits ss)))"
    and active: "ca_active a = int (sum_list (map slots ss))"
    using effective_limit by (auto simp: process_inv_def)
  have "\<not> cr_closed (sc_capacity s) \<Longrightarrow> open_limits ss \<noteq> []"
    using assms(2) by (auto simp: open_limits_def filter_empty_conv)
  then show ?thesis by (auto simp: acquire_granted limit active)
qed

text \<open>The slots that are held only become more by a grant, which changes no limit.\<close>

lemma worker_growth:
  assumes "worker_step ul letter (a, s) v (b, t) p" "ca_active a < ca_active b"
  shows "acquire (sc_capacity s) a = Acquired b \<and> sc_capacity t = sc_capacity s"
  using assms by cases (auto simp: releaseSlot_def signalLocked_def split: if_splits)

lemma step_growth:
  assumes "process_step ul letter (a, ss) e (b, ts)" "ca_active a < ca_active b"
  shows "\<exists>s \<in> set ss. acquire (sc_capacity s) a = Acquired b \<and> open_limits ts = open_limits ss"
  using assms(1)
proof cases
  case (create maxActiveLanes ctx maxJobs s)
  then show ?thesis using assms(2) by (auto simp: newInvocationScheduler_def register_def signalLocked_def)
next
  case (local i e' s)
  from local(4) show ?thesis
  proof cases
    case (work w t p)
    from worker_growth [OF work(4) assms(2)] have "acquire (sc_capacity (ss ! i)) a = Acquired b"
      "sc_capacity s = sc_capacity (ss ! i)" using work(2) by simp_all
    with local(2,3) open_limits_update [OF local(3), of s] show ?thesis by (intro bexI [of _ "ss ! i"]) simp_all
  next
    case unregister
    then show ?thesis using assms(2)
      by (auto simp: close_capacity_def unregister_def signalLocked_def Let_def split: if_splits prod.splits)
  qed (use assms(2) in auto)
qed

lemma growth_within_limits:
  assumes "process_reachable ul letter es (a, ss)" "process_step ul letter (a, ss) e (b, ts)" "ca_active a < ca_active b"
    "k \<in> set (open_limits ts)"
  shows "ca_active b \<le> k"
proof -
  from step_growth [OF assms(2,3)] obtain s where s: "s \<in> set ss" "acquire (sc_capacity s) a = Acquired b"
    "open_limits ts = open_limits ss" by blast
  have active: "ca_active a = int (sum_list (map slots ss))"
    using process_reachable_inv [OF assms(1)] by (simp add: process_inv_def)
  from granted_exactly [OF assms(1) s(1)] s assms(4) have "int (sum_list (map slots ss)) < k" by simp
  with acquire_granted [of "sc_capacity s" a b] s(2) active show ?thesis by simp
qed

lemma waiting_is_justified:
  assumes "process_reachable ul letter es (a, ss)" "s \<in> set ss" "WorkerWaiting j g \<in> set (sc_workers s)"
  shows "g < ca_changed a \<or> g = ca_changed a \<and> acquire (sc_capacity s) a = AcquireWait g"
proof -
  from process_reachable_inv [OF assms(1)] assms(2,3)
  have "waits_soundly a (WorkerWaiting j g)" "\<not> cr_closed (sc_capacity s)" by (auto simp: process_inv_def)
  then show ?thesis by (auto simp: waits_soundly_def acquire_def)
qed

section \<open>Every job has one result\<close>

fun job_of :: "worker \<Rightarrow> InvocationJob multiset" where
  "job_of (WorkerGated j gate) = {#j#}"
| "job_of (WorkerAcquiring j) = {#j#}"
| "job_of (WorkerWaiting j g) = {#j#}"
| "job_of (WorkerHolding j) = {#j#}"
| "job_of (WorkerInvoking j) = {#j#}"
| "job_of (WorkerSending j out slot) = {#j#}"
| "job_of w = {#}"

definition jobs_in :: "invocationScheduler \<Rightarrow> InvocationJob multiset" where
  "jobs_in s = mset (map fst (sc_jobs s)) + sum_list (map job_of (sc_workers s)) + mset (map fst (sc_results s))"

fun admitted_by :: "scheduler_event \<Rightarrow> InvocationJob multiset" where
  "admitted_by (EventAdmit j) = {#j#}"
| "admitted_by e = {#}"

fun collected_by :: "scheduler_event \<Rightarrow> InvocationJob multiset" where
  "collected_by (EventCollect j out) = {#j#}"
| "collected_by e = {#}"

lemma job_of_phases [simp]:
  "job_of (begin_job ul letter j ctx) = {#j#}" "job_of (enter_runtime ul letter j ctx timeLeft) = {#j#}"
  "job_of (after_send slot) = {#}"
  by (simp_all add: not_waiting)

lemma sum_jobs_update:
  "i < length ws \<Longrightarrow> sum_list (map job_of (ws[i := p])) + job_of (ws ! i) = sum_list (map job_of ws) + job_of p"
proof (induction ws arbitrary: i)
  case (Cons w ws)
  show ?case
  proof (cases i)
    case (Suc m)
    with Cons.IH [of m] Cons.prems show ?thesis by (simp add: add.assoc add.left_commute)
  qed (simp add: ac_simps)
qed simp

lemma exchange_jobs:
  fixes n w q p j j' r r' :: "'a multiset"
  assumes "n + w = q + p" "j' + p + r' = j + w + r"
  shows "j' + n + r' = j + q + r"
proof -
  have "(j' + n + r') + w = j' + (n + w) + r'" by (simp add: ac_simps)
  also have "\<dots> = q + (j' + p + r')" unfolding assms(1) by (simp add: ac_simps)
  also have "\<dots> = (j + q + r) + w" unfolding assms(2) by (simp add: ac_simps)
  finally show ?thesis by simp
qed

lemma no_jobs: "sum_list (replicate n ({#} :: 'a multiset)) = {#}"
  by (induction n) auto

lemma worker_step_jobs:
  assumes "worker_step ul letter (a, s) w (b, t) p"
  shows "mset (map fst (sc_jobs t)) + job_of p + mset (map fst (sc_results t)) =
    mset (map fst (sc_jobs s)) + job_of w + mset (map fst (sc_results s))"
  using assms by (cases rule: worker_step.cases) (auto simp: ac_simps)

lemma scheduler_step_jobs:
  assumes "scheduler_step ul letter (a, s) e (b, t)"
  shows "jobs_in t + collected_by e = jobs_in s + admitted_by e"
  using assms
proof cases
  case (work w s' p)
  from exchange_jobs [OF sum_jobs_update [OF work(3), of p] worker_step_jobs [OF work(4)]]
  show ?thesis by (simp add: jobs_in_def work(1,2))
qed (auto simp: jobs_in_def admitWithGate_def open_gate_def end_context_def close_jobs_def close_capacity_def
    unregister_def cancelDispatch_def ac_simps split: if_splits)

definition events_of :: "nat \<Rightarrow> (nat \<times> scheduler_event) option list \<Rightarrow> scheduler_event list" where
  "events_of i es = map snd (filter (\<lambda>(k, e). k = i) (map the (filter (\<lambda>e. e \<noteq> None) es)))"

lemma events_of_snoc [simp]:
  "events_of i (es @ [None]) = events_of i es"
  "events_of i (es @ [Some (k, e)]) = events_of i es @ (if k = i then [e] else [])"
  by (simp_all add: events_of_def)

lemma jobs_accounted:
  assumes "process_reachable ul letter es p"
  shows "(\<forall>i < length (snd p). sum_list (map admitted_by (events_of i es)) =
     jobs_in (snd p ! i) + sum_list (map collected_by (events_of i es))) \<and>
   (\<forall>i \<ge> length (snd p). events_of i es = [])"
  using assms
proof (induction rule: process_reachable.induct)
  case initial
  then show ?case by (simp add: events_of_def)
next
  case (step es p e q)
  from step(2) show ?case
  proof cases
    case (create maxActiveLanes ctx maxJobs a b s ss)
    then have "jobs_in s = {#}"
      by (auto simp: newInvocationScheduler_def register_def jobs_in_def no_jobs)
    with create step(3) show ?thesis by (auto simp: nth_append less_Suc_eq)
  next
    case (local i ss a e' b s)
    from scheduler_step_jobs [OF local(5)] local step(3) show ?thesis
      by (auto simp: nth_list_update ac_simps)
  qed
qed

section \<open>What the result of a job says\<close>

definition settled_condition ::
    "AttemptCondition \<Rightarrow> context_error option \<Rightarrow> context_error option \<Rightarrow> AttemptCondition" where
  "settled_condition condition early late =
     (let c = (if condition = AttemptConditionProviderTimeout \<and> late = Some ContextDeadlineExceeded
               then AttemptConditionTimeout else condition)
      in case early of
           None \<Rightarrow> c
         | Some e \<Rightarrow> if conditionRetainsAuthorityAfterContext c (invocationContextCondition e) then c
                     else invocationContextCondition e)"

lemma reduce_single: "AttemptCondition_Valid c \<Longrightarrow> ReduceAttemptConditions [c] = Inr c"
proof -
  assume "AttemptCondition_Valid c"
  then obtain row where row: "lookupTransitionPolicy c = Some row" by (auto simp: AttemptCondition_Valid_def)
  then have "row_condition row = c" by (auto simp: lookupTransitionPolicy_def find_Some_iff)
  with row show ?thesis by (simp add: ReduceAttemptConditions_def)
qed

lemma context_conditions_valid:
  "AttemptCondition_Valid AttemptConditionInternalInvariant" "AttemptCondition_Valid AttemptConditionTimeout"
  "AttemptCondition_Valid AttemptConditionCancelled"
  by code_simp+

lemma invocationContextCondition_valid:
  "AttemptCondition_Valid (invocationContextCondition e)"
  "invocationContextCondition e \<noteq> AttemptConditionValidReview"
  by (simp_all add: invocationContextCondition_def context_conditions_valid)

lemma outcome_condition_valid:
  "validFor ul letter out j \<Longrightarrow> AttemptCondition_Valid (coordinatorOutcomeCondition out) \<and>
     (coordinatorOutcomeCondition out = AttemptConditionValidReview \<longleftrightarrow> ao_output out \<noteq> None)"
proof -
  have "AttemptCondition_Valid AttemptConditionValidReview" by code_simp
  moreover assume "validFor ul letter out j"
  ultimately show ?thesis
    by (auto simp: validFor_def coordinatorOutcomeCondition_def split: if_splits option.splits)
qed

lemma conditionOutcome_valid:
  assumes "job_ok j" "AttemptCondition_Valid c" "c \<noteq> AttemptConditionValidReview"
  shows "validFor ul letter (conditionOutcome ul letter j c) j \<and>
    coordinatorOutcomeCondition (conditionOutcome ul letter j c) = c \<and>
    ao_output (conditionOutcome ul letter j c) = None"
  using NewAttemptOutcome_condition [OF assms, of ul letter]
  by (auto simp: conditionOutcome_def coordinatorOutcomeCondition_def)

lemma settle_exact:
  assumes "job_ok j" "AttemptCondition_Valid c"
    and accepted: "c = AttemptConditionValidReview \<Longrightarrow>
      validFor ul letter out j \<and> coordinatorOutcomeCondition out = AttemptConditionValidReview"
  shows "let r = settle ul letter j out early late c in validFor ul letter r j \<and>
    coordinatorOutcomeCondition r = settled_condition c early late \<and>
    (r = out \<or> r = conditionOutcome ul letter j (settled_condition c early late)) \<and>
    (validFor ul letter out j \<and> coordinatorOutcomeCondition out = settled_condition c early late \<longrightarrow> r = out)"
proof -
  have "settle ul letter j out early late c =
      (if validFor ul letter out j \<and> coordinatorOutcomeCondition out = settled_condition c early late then out
       else conditionOutcome ul letter j (settled_condition c early late))"
    by (simp add: settle_def settled_condition_def Let_def)
  moreover have "AttemptCondition_Valid (settled_condition c early late)"
    using assms(2) context_conditions_valid invocationContextCondition_valid by (simp add: settled_condition_def Let_def split: option.split)
  moreover have "settled_condition c early late = AttemptConditionValidReview \<Longrightarrow> c = AttemptConditionValidReview"
    using invocationContextCondition_valid(2)
    by (auto simp: settled_condition_def Let_def split: option.splits if_splits)
  ultimately show ?thesis
    using conditionOutcome_valid [OF assms(1), of "settled_condition c early late" ul letter] accepted
    by (cases "settled_condition c early late = AttemptConditionValidReview") (simp_all add: Let_def)
qed

lemma contextOutcome_exact:
  assumes "job_ok j"
  shows "validFor ul letter (contextOutcome ul letter j ctx) j \<and>
    coordinatorOutcomeCondition (contextOutcome ul letter j ctx) =
      (case ctx of None \<Rightarrow> AttemptConditionInternalInvariant | Some e \<Rightarrow> invocationContextCondition e)"
proof (cases ctx)
  case None
  have "settled_condition AttemptConditionInternalInvariant None None = AttemptConditionInternalInvariant"
    by (simp add: settled_condition_def)
  with settle_exact [OF assms context_conditions_valid(1), of ul letter no_outcome None None] None
  show ?thesis
    by (simp add: contextOutcome_def reduceOutcome_def reduce_single context_conditions_valid Let_def)
next
  case (Some e)
  with conditionOutcome_valid [OF assms invocationContextCondition_valid] show ?thesis
    by (simp add: contextOutcome_def reduceOutcome_def)
qed

text \<open>
  The result of an invocation that reached the runtime. Dropping a cancellation under an expired
  deadline makes no difference, since a cancellation does not outrank the timeout.
\<close>

lemma invokedOutcome_exact:
  fixes ul letter out
  assumes "job_ok j"
  defines "c \<equiv> (if validFor ul letter out j then coordinatorOutcomeCondition out
                else AttemptConditionInternalInvariant)"
  shows "let r = invokedOutcome ul letter j out early late in validFor ul letter r j \<and>
    coordinatorOutcomeCondition r = settled_condition c early late \<and>
    (r = out \<or> r = conditionOutcome ul letter j (settled_condition c early late)) \<and>
    (validFor ul letter out j \<and> c = settled_condition c early late \<longrightarrow> r = out)"
proof (cases "early = Some ContextDeadlineExceeded \<and> c = AttemptConditionCancelled")
  case True
  then have valid: "validFor ul letter out j" by (auto simp: c_def split: if_splits)
  have "invokedOutcome ul letter j out early late = conditionOutcome ul letter j AttemptConditionTimeout"
    using True by (simp add: invokedOutcome_def reduceOutcome_def c_def [symmetric] invocationContextCondition_def)
  moreover have "settled_condition c early late = AttemptConditionTimeout"
    using True by (simp add: settled_condition_def invocationContextCondition_def
        conditionRetainsAuthorityAfterContext_def)
  ultimately show ?thesis
    using conditionOutcome_valid [OF assms(1) context_conditions_valid(2), of ul letter] True
    by (simp add: Let_def)
next
  case False
  have valid: "AttemptCondition_Valid c" using outcome_condition_valid context_conditions_valid(1) by (simp add: c_def)
  then have eq: "invokedOutcome ul letter j out early late = settle ul letter j out early late c"
    using False by (auto simp: invokedOutcome_def reduceOutcome_def c_def [symmetric] reduce_single
        split: option.split)
  have "c = AttemptConditionValidReview \<Longrightarrow>
      validFor ul letter out j \<and> coordinatorOutcomeCondition out = AttemptConditionValidReview"
    unfolding c_def by (cases "validFor ul letter out j") simp_all
  note exact = settle_exact [OF assms(1) valid this, of early late]
  have "validFor ul letter out j \<Longrightarrow> coordinatorOutcomeCondition out = c" by (simp add: c_def)
  with exact show ?thesis unfolding eq Let_def by blast
qed

text \<open>A property of one scheduler that holds at its start and is kept by its steps holds of all.\<close>

lemma all_schedulers:
  assumes "process_reachable ul letter es p"
    and fresh: "\<And>ctx m n a b s. 1 \<le> m \<Longrightarrow> newInvocationScheduler ctx m n a = (b, s) \<Longrightarrow> P s"
    and kept: "\<And>a s e b t. P s \<Longrightarrow> scheduler_step ul letter (a, s) e (b, t) \<Longrightarrow> P t"
  shows "\<forall>s \<in> set (snd p). P s"
  using assms(1)
proof (induction rule: process_reachable.induct)
  case (step es p e q)
  from step(2) show ?case
  proof cases
    case (create maxActiveLanes ctx maxJobs a b s ss)
    with fresh [of maxActiveLanes ctx maxJobs a b s] step(3) show ?thesis by auto
  next
    case (local i ss a e' b s)
    then have "ss ! i \<in> set (snd p)" by simp
    with step(3) local(5) kept have "P s" by blast
    with step(3) local(1,3) set_update_subset_insert [of ss i s] show ?thesis by auto
  qed
qed simp

definition sends_valid :: "(string \<Rightarrow> string) \<Rightarrow> (string \<Rightarrow> bool) \<Rightarrow> worker \<Rightarrow> bool" where
  "sends_valid ul letter w \<longleftrightarrow>
     (\<forall>j out slot. w = WorkerSending j out slot \<longrightarrow> job_ok j \<longrightarrow> validFor ul letter out j)"

definition scheduler_inv :: "(string \<Rightarrow> string) \<Rightarrow> (string \<Rightarrow> bool) \<Rightarrow> invocationScheduler \<Rightarrow> bool" where
  "scheduler_inv ul letter s \<longleftrightarrow>
     sc_workers s \<noteq> [] \<and>
     (WorkerExited \<in> set (sc_workers s) \<longrightarrow> sc_closed s \<and> sc_jobs s = []) \<and>
     (\<forall>w \<in> set (sc_workers s). sends_valid ul letter w) \<and>
     (\<forall>(j, out) \<in> set (sc_results s). job_ok j \<longrightarrow> validFor ul letter out j)"

lemma sends_valid_phases:
  "sends_valid ul letter (begin_job ul letter j ctx)"
  "sends_valid ul letter (enter_runtime ul letter j ctx timeLeft)" "sends_valid ul letter (after_send slot)"
  "sends_valid ul letter (WorkerSending j (contextOutcome ul letter j ctx) slot)"
  "sends_valid ul letter (WorkerSending j (invokedOutcome ul letter j out early late) slot)"
  using contextOutcome_exact [of j ul letter ctx] invokedOutcome_exact [of j ul letter out early late]
    conditionOutcome_valid [of j AttemptConditionInternalInvariant ul letter]
    conditionOutcome_valid [of j AttemptConditionTimeout ul letter] context_conditions_valid
  by (auto simp: sends_valid_def not_waiting Let_def split: if_splits)

lemma worker_step_valid:
  assumes "worker_step ul letter (a, s) w (b, t) p"
  shows "sc_closed t = sc_closed s \<and> (sc_jobs s = [] \<longrightarrow> sc_jobs t = []) \<and> sc_workers t = sc_workers s \<and>
    (p = WorkerExited \<longrightarrow> sc_closed s \<and> sc_jobs t = []) \<and> sends_valid ul letter p \<and>
    (sends_valid ul letter w \<longrightarrow> (\<forall>(j, out) \<in> set (sc_results t). job_ok j \<longrightarrow> validFor ul letter out j) =
      (\<forall>(j, out) \<in> set (sc_results s). job_ok j \<longrightarrow> validFor ul letter out j))"
  using assms
  by (cases rule: worker_step.cases) (auto simp: sends_valid_phases, auto simp: sends_valid_def not_waiting split: if_splits)

lemma scheduler_inv_step:
  assumes inv: "scheduler_inv ul letter s" and step: "scheduler_step ul letter (a, s) e (b, t)"
  shows "scheduler_inv ul letter t"
  using step
proof cases
  case (work w s' p)
  have mem: "sc_workers s ! w \<in> set (sc_workers s)" using work(3) by simp
  have "set ((sc_workers s)[w := p]) \<subseteq> insert p (set (sc_workers s))" by (rule set_update_subset_insert)
  with worker_step_valid [OF work(4)] inv mem show ?thesis
    unfolding work(2) scheduler_inv_def by simp blast
qed (use inv in \<open>auto simp: scheduler_inv_def admitWithGate_def open_gate_def end_context_def close_jobs_def
    close_capacity_def unregister_def cancelDispatch_def split: if_splits\<close>)

lemma reachable_scheduler_inv:
  assumes "process_reachable ul letter es (a, ss)" "s \<in> set ss"
  shows "scheduler_inv ul letter s"
proof -
  have "scheduler_inv ul letter s" if "1 \<le> m" "newInvocationScheduler ctx m n a = (b, s)" for ctx m n a b s
    using that by (auto simp: newInvocationScheduler_def scheduler_inv_def sends_valid_def split: prod.splits)
  then have "\<forall>s \<in> set (snd (a, ss)). scheduler_inv ul letter s"
    by (intro all_schedulers [OF assms(1)]) (blast intro: scheduler_inv_step)+
  with assms(2) show ?thesis by simp
qed

section \<open>The workers never get stuck\<close>

text \<open>
  A job whose gate is open, or whose context ended, gets its result without help from outside, as
  long as the result queue has room for every job of the run, as the coordinator makes it.
\<close>

definition can_work :: "(string \<Rightarrow> string) \<Rightarrow> (string \<Rightarrow> bool) \<Rightarrow> scheduler_process \<Rightarrow> bool" where
  "can_work ul letter p \<longleftrightarrow> (\<exists>i q. process_step ul letter p (Some (i, EventWork)) q)"

definition released :: "invocationScheduler \<Rightarrow> bool" where
  "released s \<longleftrightarrow> sc_ctx s \<noteq> None \<or>
     (\<forall>j gate. (j, gate) \<in> set (sc_jobs s) \<or> WorkerGated j gate \<in> set (sc_workers s) \<longrightarrow> gate \<in> set (sc_gates s))"

definition unfinished :: "invocationScheduler \<Rightarrow> bool" where
  "unfinished s \<longleftrightarrow> sc_jobs s \<noteq> [] \<or> (\<exists>w \<in> set (sc_workers s). job_of w \<noteq> {#})"

lemma can_work_worker:
  assumes "s \<in> set ss" "w \<in> set (sc_workers s)" "\<exists>b t p. worker_step ul letter (a, s) w (b, t) p"
  shows "can_work ul letter (a, ss)"
proof -
  from assms(1,2) obtain i k where i: "i < length ss" "ss ! i = s"
    and k: "k < length (sc_workers s)" "sc_workers s ! k = w" by (auto simp: in_set_conv_nth)
  from assms(3) obtain b t p where step: "worker_step ul letter (a, s) w (b, t) p" by blast
  with k have "worker_step ul letter (a, s) (sc_workers s ! k) (b, t) p" by simp
  from scheduler_step.work [OF k(1) this] i show ?thesis
    unfolding can_work_def by (blast intro: process_step.local)
qed

lemma jobs_in_worker:
  assumes "w \<in> set (sc_workers s)"
  shows "size (job_of w) + length (sc_results s) \<le> size (jobs_in s)"
proof -
  from assms obtain xs ys where "sc_workers s = xs @ w # ys" by (auto simp: in_set_conv_decomp)
  then show ?thesis by (simp add: jobs_in_def)
qed

lemma slot_holder_steps:
  assumes "holds_slot w" "w \<in> set (sc_workers s)" "size (jobs_in s) \<le> sc_maxJobs s"
  shows "\<exists>b t p. worker_step ul letter (a, s) w (b, t) p"
proof (cases w)
  case (WorkerSending j out slot)
  with jobs_in_worker [OF assms(2)] assms(3) have "length (sc_results s) < sc_maxJobs s" by simp
  with WorkerSending show ?thesis by (blast intro: worker_step.send)
qed (use assms in \<open>auto intro: worker_step.intros\<close>)

lemma waiting_process_works:
  assumes inv: "process_inv (a, ss)" and s: "s \<in> set ss" and w: "WorkerWaiting j g \<in> set (sc_workers s)"
    and room: "\<forall>s \<in> set ss. size (jobs_in s) \<le> sc_maxJobs s"
  shows "can_work ul letter (a, ss)"
proof (cases "g < ca_changed a")
  case True
  then have "\<exists>b t p. worker_step ul letter (a, s) (WorkerWaiting j g) (b, t) p"
    by (blast intro: worker_step.wake)
  then show ?thesis by (rule can_work_worker [OF s w])
next
  case False
  from inv s w have sound: "waits_soundly a (WorkerWaiting j g)"
    and opened: "\<not> cr_closed (sc_capacity s)" by (auto simp: process_inv_def)
  with False have full: "effectiveLimitLocked a \<le> ca_active a" by (auto simp: waits_soundly_def)
  have "open_limits ss \<noteq> []" using s opened by (auto simp: open_limits_def filter_empty_conv)
  with inv effective_limit [of a "open_limits ss"] have "1 \<le> effectiveLimitLocked a"
    by (auto simp: process_inv_def)
  with full inv have "0 < sum_list (map slots ss)" by (simp add: process_inv_def)
  then obtain t where t: "t \<in> set ss" "slots t \<noteq> 0" by (auto simp: sum_list_eq_0_iff neq0_conv [symmetric] simp del: neq0_conv)
  then obtain v where v: "v \<in> set (sc_workers t)" "holds_slot v" by (auto simp: slots_def filter_empty_conv)
  from can_work_worker [OF t(1) v(1)] slot_holder_steps [OF v(2,1)] room t(1) show ?thesis by blast
qed

lemma busy_worker_works:
  assumes inv: "process_inv (a, ss)" and s: "s \<in> set ss" and w: "w \<in> set (sc_workers s)" "job_of w \<noteq> {#}"
    and room: "\<forall>s \<in> set ss. size (jobs_in s) \<le> sc_maxJobs s" and free: "released s"
  shows "can_work ul letter (a, ss)"
proof (cases "holds_slot w")
  case True
  with slot_holder_steps [OF True w(1)] room s show ?thesis by (blast intro: can_work_worker [OF s w(1)])
next
  case False
  show ?thesis
  proof (cases w)
    case (WorkerGated j gate)
    with free w(1) have "sc_ctx s \<noteq> None \<or> gate \<in> set (sc_gates s)" by (auto simp: released_def)
    then have "\<exists>b t p. worker_step ul letter (a, s) w (b, t) p"
      unfolding WorkerGated by (elim disjE) (blast intro: worker_step.start worker_step.drop)+
    then show ?thesis by (rule can_work_worker [OF s w(1)])
  next
    case (WorkerAcquiring j)
    have "\<exists>b t p. worker_step ul letter (a, s) w (b, t) p"
      unfolding WorkerAcquiring
      by (cases "acquire (sc_capacity s) a")
        (blast intro: worker_step.refused worker_step.granted worker_step.must_wait)+
    then show ?thesis by (rule can_work_worker [OF s w(1)])
  next
    case (WorkerWaiting j g)
    with waiting_process_works [OF inv s _ room] w(1) show ?thesis by blast
  next
    case (WorkerSending j out slot)
    with jobs_in_worker [OF w(1)] room s have "length (sc_results s) < sc_maxJobs s" by fastforce
    then have "\<exists>b t p. worker_step ul letter (a, s) w (b, t) p"
      unfolding WorkerSending by (blast intro: worker_step.send)
    then show ?thesis by (rule can_work_worker [OF s w(1)])
  qed (use w False in auto)
qed

lemma process_progress:
  assumes reach: "process_reachable ul letter es (a, ss)" and s: "s \<in> set ss" "unfinished s" "released s"
    and room: "\<forall>s \<in> set ss. size (jobs_in s) \<le> sc_maxJobs s"
  shows "can_work ul letter (a, ss)"
proof (cases "\<exists>w \<in> set (sc_workers s). job_of w \<noteq> {#}")
  case True
  with busy_worker_works [OF process_reachable_inv [OF reach] s(1) _ _ room s(3)] show ?thesis by blast
next
  case False
  with s(2) have jobs: "sc_jobs s \<noteq> []" by (simp add: unfinished_def)
  from reachable_scheduler_inv [OF reach s(1)] jobs have "sc_workers s \<noteq> []" "WorkerExited \<notin> set (sc_workers s)"
    by (auto simp: scheduler_inv_def)
  then obtain w where w: "w \<in> set (sc_workers s)" "w \<noteq> WorkerExited" by (cases "sc_workers s") auto
  with False have "w = WorkerIdle \<or> w = WorkerReleasing" by (cases w) auto
  moreover obtain j gate rest where "sc_jobs s = (j, gate) # rest" using jobs by (cases "sc_jobs s") auto
  ultimately have "\<exists>b t p. worker_step ul letter (a, s) w (b, t) p"
    by (elim disjE) (simp_all, (blast intro: worker_step.take_job worker_step.release)+)
  then show ?thesis by (rule can_work_worker [OF s(1) w(1)])
qed

end
