(* ===== verification/Go_Effects.thy ===== *)
theory Go_Effects
  imports Prelude
begin

text \<open>
  Code that changes a state and may fail on the way. A method of Go that mutates its receiver and
  returns \<open>(T, error)\<close> is a function from the state to a result and a state; an error does not undo
  what was written before it. The operations are composed by \<open>seq\<close>, which stops at the first error.

  Proofs use triples: from a state with the precondition, the operation ends in a result and a state
  with the postcondition, or in an error and a state with the error condition.
\<close>

section \<open>Operations\<close>

type_synonym ('s, 'e, 'a) effect = "'s \<Rightarrow> ('e + 'a) \<times> 's"

definition give :: "'a \<Rightarrow> ('s, 'e, 'a) effect" where
  "give x s = (Inr x, s)"

definition fail :: "'e \<Rightarrow> ('s, 'e, 'a) effect" where
  "fail e s = (Inl e, s)"

definition seq :: "('s, 'e, 'a) effect \<Rightarrow> ('a \<Rightarrow> ('s, 'e, 'b) effect) \<Rightarrow> ('s, 'e, 'b) effect" where
  "seq m f s = (case m s of (Inl e, t) \<Rightarrow> (Inl e, t) | (Inr x, t) \<Rightarrow> f x t)"

definition read :: "('s \<Rightarrow> 'a) \<Rightarrow> ('s, 'e, 'a) effect" where
  "read f s = (Inr (f s), s)"

definition change :: "('s \<Rightarrow> 's) \<Rightarrow> ('s, 'e, unit) effect" where
  "change f s = (Inr (), f s)"

definition guard :: "bool \<Rightarrow> 'e \<Rightarrow> ('s, 'e, unit) effect" where
  "guard b e = (if b then give () else fail e)"

definition result :: "('d \<Rightarrow> 'e) \<Rightarrow> 'd + 'a \<Rightarrow> ('s, 'e, 'a) effect" where
  "result k r = (case r of Inl d \<Rightarrow> fail (k d) | Inr x \<Rightarrow> give x)"

definition unless :: "bool \<Rightarrow> ('s, 'e, unit) effect \<Rightarrow> ('s, 'e, unit) effect" where
  "unless b m = (if b then give () else m)"

fun for_each :: "('a \<Rightarrow> ('s, 'e, unit) effect) \<Rightarrow> 'a list \<Rightarrow> ('s, 'e, unit) effect" where
  "for_each f [] = give ()"
| "for_each f (x # xs) = seq (f x) (\<lambda>_. for_each f xs)"

fun for_collect :: "('a \<Rightarrow> ('s, 'e, 'b list) effect) \<Rightarrow> 'a list \<Rightarrow> ('s, 'e, 'b list) effect" where
  "for_collect f [] = give []"
| "for_collect f (x # xs) = seq (f x) (\<lambda>ys. seq (for_collect f xs) (\<lambda>zs. give (ys @ zs)))"

named_theorems effect_defs \<open>definitions of the basic operations\<close>

lemmas [effect_defs] = give_def fail_def seq_def read_def change_def guard_def result_def unless_def

lemma seq_simps [simp]:
  "seq (give x) f = f x"
  "seq (fail e) f = fail e"
  "seq (seq m f) g = seq m (\<lambda>x. seq (f x) g)"
  "seq m give = m"
  by (auto simp: effect_defs fun_eq_iff split: prod.splits sum.splits)

section \<open>Triples\<close>

definition triple ::
    "('s \<Rightarrow> bool) \<Rightarrow> ('s, 'e, 'a) effect \<Rightarrow> ('a \<Rightarrow> 's \<Rightarrow> bool) \<Rightarrow> ('e \<Rightarrow> 's \<Rightarrow> bool) \<Rightarrow> bool" where
  "triple P m Q E \<longleftrightarrow>
     (\<forall>s. P s \<longrightarrow> (case m s of (Inl e, t) \<Rightarrow> E e t | (Inr x, t) \<Rightarrow> Q x t))"

lemma triple_seq:
  assumes "triple P m R E" "\<And>x. triple (R x) (f x) Q E"
  shows "triple P (seq m f) Q E"
  using assms unfolding triple_def seq_def
  by (fastforce split: prod.splits sum.splits)

lemma triple_give [simp]: "triple P (give x) Q E \<longleftrightarrow> (\<forall>s. P s \<longrightarrow> Q x s)"
  by (simp add: triple_def give_def)

lemma triple_fail [simp]: "triple P (fail e) Q E \<longleftrightarrow> (\<forall>s. P s \<longrightarrow> E e s)"
  by (simp add: triple_def fail_def)

lemma triple_read [simp]: "triple P (read f) Q E \<longleftrightarrow> (\<forall>s. P s \<longrightarrow> Q (f s) s)"
  by (simp add: triple_def read_def)

lemma triple_change [simp]: "triple P (change f) Q E \<longleftrightarrow> (\<forall>s. P s \<longrightarrow> Q () (f s))"
  by (simp add: triple_def change_def)

lemma triple_guard [simp]:
  "triple P (guard b e) Q E \<longleftrightarrow> (\<forall>s. P s \<longrightarrow> (if b then Q () s else E e s))"
  by (simp add: guard_def)

lemma triple_result [simp]:
  "triple P (result k r) Q E \<longleftrightarrow>
     (\<forall>s. P s \<longrightarrow> (case r of Inl d \<Rightarrow> E (k d) s | Inr x \<Rightarrow> Q x s))"
  by (cases r) (simp_all add: result_def)

lemma triple_weaken:
  "triple P m Q E \<Longrightarrow> (\<And>s. P' s \<Longrightarrow> P s) \<Longrightarrow> (\<And>x s. Q x s \<Longrightarrow> Q' x s) \<Longrightarrow> (\<And>e s. E e s \<Longrightarrow> E' e s) \<Longrightarrow>
    triple P' m Q' E'"
  unfolding triple_def by (fastforce split: prod.splits sum.splits)

lemma triple_if:
  "(b \<Longrightarrow> triple P m Q E) \<Longrightarrow> (\<not> b \<Longrightarrow> triple P n Q E) \<Longrightarrow> triple P (if b then m else n) Q E"
  by simp

lemma triple_at:
  "(\<And>s. P s \<Longrightarrow> triple (\<lambda>t. t = s) m Q E) \<Longrightarrow> triple P m Q E"
  by (auto simp: triple_def)

lemma triple_for_each:
  assumes "\<And>x. x \<in> set xs \<Longrightarrow> triple I (f x) (\<lambda>_. I) E"
  shows "triple I (for_each f xs) (\<lambda>_. I) E"
  using assms by (induction xs) (auto intro: triple_seq)

lemma tripleD:
  assumes "triple P m Q E" "P s"
  shows "m s = (Inr x, t) \<Longrightarrow> Q x t" "m s = (Inl e, t) \<Longrightarrow> E e t"
  using assms by (auto simp: triple_def split: prod.splits sum.splits)

text \<open>An operation that keeps a property, whether it fails or not.\<close>

definition keeps :: "('s \<Rightarrow> bool) \<Rightarrow> ('s, 'e, 'a) effect \<Rightarrow> bool" where
  "keeps I m \<longleftrightarrow> (\<forall>s. I s \<longrightarrow> I (snd (m s)))"

lemma keeps_triple:
  fixes m :: "('s, 'e, 'a) effect"
  shows "keeps I m \<longleftrightarrow> triple I m (\<lambda>_. I) (\<lambda>_. I)"
proof -
  have "(case r of (Inl e, t) \<Rightarrow> I t | (Inr x, t) \<Rightarrow> I t) \<longleftrightarrow> I (snd r)" for r :: "('e + 'a) \<times> 's"
    by (cases r; cases "fst r") auto
  then show ?thesis by (simp add: keeps_def triple_def)
qed

lemma keeps_basic [intro, simp]:
  "keeps I (give x)" "keeps I (fail e)" "keeps I (read f)" "keeps I (guard b e)" "keeps I (result k r)"
  by (auto simp: keeps_def effect_defs split: sum.splits)

lemma keeps_seq [intro]: "keeps I m \<Longrightarrow> (\<And>x. keeps I (f x)) \<Longrightarrow> keeps I (seq m f)"
  unfolding keeps_triple by (rule triple_seq)

lemma keeps_change: "(\<And>s. I s \<Longrightarrow> I (f s)) \<Longrightarrow> keeps I (change f)"
  by (simp add: keeps_def change_def)

lemma keeps_unless [intro]: "(\<not> b \<Longrightarrow> keeps I m) \<Longrightarrow> keeps I (unless b m)"
  by (simp add: unless_def)

lemma keeps_if [intro]: "(b \<Longrightarrow> keeps I m) \<Longrightarrow> (\<not> b \<Longrightarrow> keeps I n) \<Longrightarrow> keeps I (if b then m else n)"
  by simp

lemma keeps_for_each [intro]: "(\<And>x. x \<in> set xs \<Longrightarrow> keeps I (f x)) \<Longrightarrow> keeps I (for_each f xs)"
  by (induction xs) auto

lemma keeps_for_collect [intro]: "(\<And>x. x \<in> set xs \<Longrightarrow> keeps I (f x)) \<Longrightarrow> keeps I (for_collect f xs)"
  by (induction xs) auto

section \<open>Returning\<close>

text \<open>
  From a state, the operation returns, and its result and the state it leaves satisfy the
  postcondition: the weakest precondition of total correctness.
\<close>

definition returns :: "('s, 'e, 'a) effect \<Rightarrow> 's \<Rightarrow> ('a \<Rightarrow> 's \<Rightarrow> bool) \<Rightarrow> bool" where
  "returns m s Q \<longleftrightarrow> (case m s of (Inl e, t) \<Rightarrow> False | (Inr x, t) \<Rightarrow> Q x t)"

lemma returns_give [simp]: "returns (give x) s Q \<longleftrightarrow> Q x s"
  by (auto simp: returns_def effect_defs split: prod.split sum.split)

lemma returns_fail [simp]: "\<not> returns (fail e) s Q"
  by (auto simp: returns_def effect_defs split: prod.split sum.split)

lemma returns_seq [simp]: "returns (seq m f) s Q \<longleftrightarrow> returns m s (\<lambda>x t. returns (f x) t Q)"
  by (auto simp: returns_def effect_defs split: prod.split sum.split)

lemma returns_read [simp]: "returns (read g) s Q \<longleftrightarrow> Q (g s) s"
  by (auto simp: returns_def effect_defs split: prod.split sum.split)

lemma returns_change [simp]: "returns (change h) s Q \<longleftrightarrow> Q () (h s)"
  by (auto simp: returns_def effect_defs split: prod.split sum.split)

lemma returns_guard [simp]: "returns (guard b e) s Q \<longleftrightarrow> b \<and> Q () s"
  by (auto simp: returns_def effect_defs split: prod.split sum.split)

lemma returns_result [simp]: "returns (result k r) s Q \<longleftrightarrow> (\<exists>x. r = Inr x \<and> Q x s)"
  by (cases r) (simp_all add: result_def)

lemma returns_eq: "m s = (Inr x, t) \<Longrightarrow> returns m s Q \<longleftrightarrow> Q x t"
  by (simp add: returns_def)

lemma returns_iff: "returns m s Q \<longleftrightarrow> (\<exists>x t. m s = (Inr x, t) \<and> Q x t)"
  by (auto simp: returns_def split: prod.split sum.split)

lemma returns_mono: "returns m s Q \<Longrightarrow> (\<And>x t. Q x t \<Longrightarrow> Q' x t) \<Longrightarrow> returns m s Q'"
  by (auto simp: returns_iff)

lemma returns_keeps: "returns m s Q \<Longrightarrow> keeps I m \<Longrightarrow> I s \<Longrightarrow> returns m s (\<lambda>x t. Q x t \<and> I t)"
  unfolding returns_iff keeps_def by (metis snd_conv)

text \<open>An invariant that the operation keeps is at hand after it.\<close>

lemma returns_with: "keeps I m \<Longrightarrow> I s \<Longrightarrow> returns m s (\<lambda>x t. I t \<longrightarrow> Q x t) \<Longrightarrow> returns m s Q"
  by (drule (2) returns_keeps, erule returns_mono) blast

lemma returns_for_each:
  assumes "I [] s"
    and "\<And>ys x zs t. xs = ys @ x # zs \<Longrightarrow> I ys t \<Longrightarrow> returns (f x) t (\<lambda>_. I (ys @ [x]))"
  shows "returns (for_each f xs) s (\<lambda>_. I xs)"
proof -
  have "returns (for_each f zs) t (\<lambda>_. I (ys @ zs))" if "xs = ys @ zs" "I ys t" for ys zs t
    using that
  proof (induction zs arbitrary: ys t)
    case (Cons z zs)
    have "returns (for_each f zs) u (\<lambda>_. I (ys @ z # zs))" if "I (ys @ [z]) u" for u
      using Cons.IH [of "ys @ [z]" u] Cons.prems(1) that by simp
    with assms(2) [OF Cons.prems] show ?case by (auto intro: returns_mono)
  qed simp
  from this [of "[]"] assms(1) show ?thesis by simp
qed

end
