(* ===== verification/Coordinator_State.thy ===== *)
theory Coordinator_State
  imports Go_Effects Scheduler Runs
begin

text \<open>
  The state of one execution of the coordinator (\<open>internal/app/review/coordinator.go\<close>) and its
  trace (\<open>internal/app/review/trace.go\<close>): the events with their validator, the records of attempts,
  roles and the execution, and \<open>record\<close>, through which every event passes.

  The coordinator is the only writer of this state. What it asks of the outside is a \<open>world\<close>: the
  contexts, asked again and again and so indexed by the number of questions asked before; the issuer
  of identities; the sink of diagnostics, of which only matters whether it fails; the scheduler's
  answers to admissions; and the results of the jobs of a wave, in the order of their arrival.
\<close>

section \<open>Trace events\<close>

datatype CoordinatorEventKind =
    CoordinatorEventRunStarted
  | CoordinatorEventAttemptQueued
  | CoordinatorEventInvocationDispatched
  | CoordinatorEventInvocationCommitted
  | CoordinatorEventRepairQueued
  | CoordinatorEventRetryQueued
  | CoordinatorEventExtractionQueued
  | CoordinatorEventRoleTerminal
  | CoordinatorEventCancellationRequested
  | CoordinatorEventWorkersCloseAuthorized
  | CoordinatorEventRunTerminal
  | CoordinatorEventOther string

definition CoordinatorEventKind_Valid :: "CoordinatorEventKind \<Rightarrow> bool" where
  "CoordinatorEventKind_Valid k \<longleftrightarrow>
     k \<in> set [CoordinatorEventRunStarted, CoordinatorEventAttemptQueued,
       CoordinatorEventInvocationDispatched, CoordinatorEventInvocationCommitted,
       CoordinatorEventRepairQueued, CoordinatorEventRetryQueued, CoordinatorEventExtractionQueued,
       CoordinatorEventRoleTerminal, CoordinatorEventCancellationRequested,
       CoordinatorEventWorkersCloseAuthorized, CoordinatorEventRunTerminal]"

record CoordinatorTraceEvent =
  te_ordinal :: uint64
  te_kind :: CoordinatorEventKind
  te_role :: Role
  te_attemptID :: AttemptID
  te_hasAttempt :: bool
  te_purpose :: InvocationPurpose
  te_hasPurpose :: bool
  te_condition :: AttemptCondition
  te_hasCondition :: bool
  te_reason :: string
  te_runState :: RunState

datatype trace_error =
    TraceOrdinalOrKind
  | TraceRole
  | TraceAttempt id_error
  | TraceHiddenAttempt
  | TracePurpose
  | TraceHiddenPurpose
  | TraceCondition
  | TraceHiddenCondition
  | TraceShape CoordinatorEventKind
  | TraceReason CoordinatorEventKind
  | TraceReasonCondition
  | TraceUnexpectedReason CoordinatorEventKind
  | TraceRunState
  | TraceUnexpectedRunState CoordinatorEventKind
  | TraceAlreadyTerminal
  | TraceStartNotFirst
  | TraceNotStarted
  | TraceCloseAuthorized
  | TraceRoleInvalid
  | TraceRoleAlreadyTerminal Role
  | TraceGlobalRole Role
  | TraceAlreadyAuthorized
  | TraceRolesNotTerminal
  | TraceNotAuthorized
  | TraceRunNotTerminal
  | TraceDiagnostics

definition no_role :: Role where "no_role = RoleOther ''''"
definition no_purpose :: InvocationPurpose where "no_purpose = InvocationPurposeOther ''''"
definition no_condition :: AttemptCondition where "no_condition = AttemptConditionOther ''''"
definition no_run_state :: RunState where "no_run_state = RunStateOther ''''"

definition coordinatorTerminalRunState :: "RunState \<Rightarrow> bool" where
  "coordinatorTerminalRunState s \<longleftrightarrow>
     s = RunCompleted \<or> s = RunDegraded \<or> s = RunFailed \<or> s = RunCancelled"

text \<open>Which fields an event of each kind must have: role, attempt, purpose, condition, reason, run state.\<close>

record event_wants =
  want_role :: bool
  want_attempt :: bool
  want_purpose :: bool
  want_condition :: bool
  want_reason :: bool
  want_runState :: bool

definition wants :: "bool \<Rightarrow> bool \<Rightarrow> bool \<Rightarrow> bool \<Rightarrow> bool \<Rightarrow> bool \<Rightarrow> event_wants" where
  "wants role attempt purpose condition reason runState =
     \<lparr>want_role = role, want_attempt = attempt, want_purpose = purpose, want_condition = condition,
      want_reason = reason, want_runState = runState\<rparr>"

definition event_shape :: "CoordinatorTraceEvent \<Rightarrow> event_wants" where
  "event_shape e =
     (case te_kind e of
        CoordinatorEventAttemptQueued \<Rightarrow> wants True True False False False False
      | CoordinatorEventInvocationDispatched \<Rightarrow> wants True True True False False False
      | CoordinatorEventInvocationCommitted \<Rightarrow> wants True True True True False False
      | CoordinatorEventRepairQueued \<Rightarrow> wants True True True False True False
      | CoordinatorEventRetryQueued \<Rightarrow> wants True True True False True False
      | CoordinatorEventExtractionQueued \<Rightarrow> wants True True True False False False
      | CoordinatorEventRoleTerminal \<Rightarrow> wants True (te_hasAttempt e) False True True False
      | CoordinatorEventCancellationRequested \<Rightarrow> wants False False False True True False
      | CoordinatorEventRunTerminal \<Rightarrow> wants False False False False False True
      | _ \<Rightarrow> wants False False False False False False)"

definition check_event_payload :: "CoordinatorTraceEvent \<Rightarrow> trace_error option" where
  "check_event_payload e =
     (let w = event_shape e
      in if Role_Valid (te_role e) \<noteq> want_role w \<or> te_hasAttempt e \<noteq> want_attempt w \<or>
            te_hasPurpose e \<noteq> want_purpose w \<or> te_hasCondition e \<noteq> want_condition w
           then Some (TraceShape (te_kind e))
         else if want_reason w \<and>
                 te_reason e \<notin> set (map AttemptCondition_string AttemptConditions)
           then Some (TraceReason (te_kind e))
         else if want_reason w \<and> te_hasCondition e \<and>
                 te_reason e \<noteq> AttemptCondition_string (te_condition e)
           then Some TraceReasonCondition
         else if \<not> want_reason w \<and> te_reason e \<noteq> '''' then Some (TraceUnexpectedReason (te_kind e))
         else if want_runState w
           then (if \<not> coordinatorTerminalRunState (te_runState e) then Some TraceRunState else None)
         else if te_runState e \<noteq> no_run_state then Some (TraceUnexpectedRunState (te_kind e))
         else None)"

definition CoordinatorTraceEvent_validate :: "CoordinatorTraceEvent \<Rightarrow> trace_error option" where
  "CoordinatorTraceEvent_validate e =
     (if te_ordinal e = 0 \<or> \<not> CoordinatorEventKind_Valid (te_kind e) then Some TraceOrdinalOrKind
      else if te_role e \<noteq> no_role \<and> \<not> Role_Valid (te_role e) then Some TraceRole
      else case (if te_hasAttempt e
                 then (case ParseAttemptID (AttemptID_String (te_attemptID e)) of
                         Inl f \<Rightarrow> Some (TraceAttempt f) | Inr _ \<Rightarrow> None)
                 else if AttemptID_String (te_attemptID e) \<noteq> '''' then Some TraceHiddenAttempt
                 else None) of
        Some f \<Rightarrow> Some f
      | None \<Rightarrow>
          if te_hasPurpose e \<and> \<not> InvocationPurpose_Valid (te_purpose e) then Some TracePurpose
          else if \<not> te_hasPurpose e \<and> te_purpose e \<noteq> no_purpose then Some TraceHiddenPurpose
          else if te_hasCondition e \<and> \<not> AttemptCondition_Valid (te_condition e) then Some TraceCondition
          else if \<not> te_hasCondition e \<and> te_condition e \<noteq> no_condition then Some TraceHiddenCondition
          else check_event_payload e)"

section \<open>Attempts, roles and the execution\<close>

record Assignment =
  as_role :: Role
  as_required :: bool
  as_providerInstance :: string
  as_primaryRoute :: ProviderRoute

definition newScheduledAssignment :: "RoleTask \<Rightarrow> ProviderRoute \<Rightarrow> Assignment" where
  "newScheduledAssignment task primary =
     \<lparr>as_role = task_role task, as_required = task_required task,
      as_providerInstance = task_primaryProvider task, as_primaryRoute = primary\<rparr>"

datatype assignment_error = AssignmentTask role_task_error | AssignmentRoute

definition NewScheduledAssignment :: "Role \<Rightarrow> bool \<Rightarrow> ProviderRoute \<Rightarrow> assignment_error + Assignment" where
  "NewScheduledAssignment role required primary =
     (case NewRoleTask role required (route_providerInstance primary) of
        Inl e \<Rightarrow> Inl (AssignmentTask e)
      | Inr task \<Rightarrow>
          if \<not> ProviderRoute_Valid primary then Inl AssignmentRoute
          else Inr (newScheduledAssignment task primary))"

record coordinatorAttempt =
  cat_route :: ProviderRoute
  cat_attempt :: Attempt
  cat_repairUsed :: bool
  cat_retryUsed :: bool
  cat_extractUsed :: bool
  cat_acceptedOutput :: "ValidatedRoleOutput option"
  cat_failureClass :: FailureClass
  cat_reasonCode :: string
  cat_timeoutFacts :: "ProviderTimeoutFacts option"
  cat_parseState :: ParseState
  cat_validationState :: ValidationState

record coordinatorRole =
  rol_assignment :: Assignment
  rol_attempts :: "coordinatorAttempt list"
  rol_currentAttempt :: int
  rol_output :: "ValidatedRoleOutput option"
  rol_repaired :: bool
  rol_providerUnusable :: bool
  rol_failureClass :: FailureClass
  rol_reasonCode :: string

record coordinatorExecution =
  ex_extractionAdmitted :: bool
  ex_run :: Run
  ex_used :: "string list"
  ex_roles :: "Role \<rightharpoonup> coordinatorRole"
  ex_trace :: "CoordinatorTraceEvent list"
  ex_nextEvent :: uint64
  ex_nextJob :: uint64
  ex_stopping :: bool
  ex_cancelled :: bool
  ex_runStarted :: bool
  ex_workersCloseAuthorized :: bool
  ex_runTerminalRecorded :: bool
  ex_terminalRoles :: "Role list"
  ex_dispatchStopRecorded :: bool
  ex_stopCondition :: AttemptCondition
  ex_dispatchStopCondition :: AttemptCondition
  ex_looks :: nat
  ex_issued :: nat

record Coordinator =
  co_maxActiveLanes :: int64
  co_receipt :: RunBudgetReceipt
  co_policy :: EvidencePolicy

datatype prepared = Prepared | PrepareFailed | PrepareContextEnded

record world =
  w_coordinator :: Coordinator
  w_lower :: "string \<Rightarrow> string"
  w_letter :: "string \<Rightarrow> bool"
  w_callerEnded :: "nat \<Rightarrow> bool"
  w_runEnded :: "nat \<Rightarrow> context_error option"
  w_attemptID :: "nat \<Rightarrow> AttemptID option"
  w_emit :: "CoordinatorTraceEvent \<Rightarrow> bool"
  w_persist :: "InvocationJob \<Rightarrow> AttemptOutcome \<Rightarrow> bool"
  w_admit :: "nat \<Rightarrow> bool"
  w_prepare :: "InvocationJob list \<Rightarrow> prepared"
  w_results :: "InvocationJob list \<Rightarrow> (InvocationJob \<times> AttemptOutcome) list"

datatype coordinator_error =
    CoMissingRole Role
  | CoIssuer
  | CoIdentity id_error
  | CoReused string
  | CoRun run_error
  | CoAttempt attempt_error
  | CoNoBudget Role
  | CoJob job_error
  | CoPolicy policy_error
  | CoUnknownAttempt AttemptID
  | CoTrace trace_error
  | CoPersist
  | CoUnknownOrdinal uint64
  | CoDuplicateOrdinal uint64
  | CoMissingOrdinal uint64
  | CoOutcome Role_Outputs.outcome_error
  | CoNoAcceptedOutput
  | CoNoProjection
  | CoNoInvocation
  | CoNoEnding
  | CoPrepare
  | CoFuel

type_synonym 'a coordination = "(coordinatorExecution, coordinator_error, 'a) effect"

section \<open>The run and its roles\<close>

definition coordinatorRoleTerminal :: "Run \<Rightarrow> Role \<Rightarrow> bool" where
  "coordinatorRoleTerminal run role =
     (case List.find (\<lambda>t. task_role t = role) (run_roles run) of
        None \<Rightarrow> False | Some t \<Rightarrow> roleTaskTerminal (task_state t))"

definition allRolesTerminal :: "coordinatorExecution \<Rightarrow> bool" where
  "allRolesTerminal x \<longleftrightarrow>
     list_all (\<lambda>t. coordinatorRoleTerminal (ex_run x) (task_role t)) (run_roles (ex_run x))"

definition move_run :: "RunState \<Rightarrow> unit coordination" where
  "move_run n x =
     (case Run_Transition (Some (ex_run x)) n of
        Inl e \<Rightarrow> (Inl (CoRun e), x) | Inr run \<Rightarrow> (Inr (), x\<lparr>ex_run := run\<rparr>))"

definition move_role :: "Role \<Rightarrow> RoleTaskState \<Rightarrow> unit coordination" where
  "move_role role n x =
     (case Run_TransitionRole (Some (ex_run x)) role n of
        Inl e \<Rightarrow> (Inl (CoRun e), x) | Inr run \<Rightarrow> (Inr (), x\<lparr>ex_run := run\<rparr>))"

definition role_state :: "Role \<Rightarrow> coordinatorExecution \<Rightarrow> coordinatorRole" where
  "role_state role x = the (ex_roles x role)"

definition change_role :: "Role \<Rightarrow> (coordinatorRole \<Rightarrow> coordinatorRole) \<Rightarrow> unit coordination" where
  "change_role role f =
     change (\<lambda>x. x\<lparr>ex_roles := (ex_roles x)(role := map_option f (ex_roles x role))\<rparr>)"

definition attempt_at :: "Role \<Rightarrow> nat \<Rightarrow> coordinatorExecution \<Rightarrow> coordinatorAttempt" where
  "attempt_at role i x = rol_attempts (role_state role x) ! i"

definition change_attempt ::
    "Role \<Rightarrow> nat \<Rightarrow> (coordinatorAttempt \<Rightarrow> coordinatorAttempt) \<Rightarrow> unit coordination" where
  "change_attempt role i f =
     change_role role (\<lambda>st. st\<lparr>rol_attempts := (rol_attempts st)[i := f (rol_attempts st ! i)]\<rparr>)"

text \<open>A mutator of the domain's attempt, applied in place.\<close>

definition move_attempt ::
    "Role \<Rightarrow> nat \<Rightarrow> (Attempt option \<Rightarrow> attempt_error + Attempt) \<Rightarrow> unit coordination" where
  "move_attempt role i f x =
     (case f (Some (cat_attempt (attempt_at role i x))) of
        Inl e \<Rightarrow> (Inl (CoAttempt e), x)
      | Inr a \<Rightarrow> change_attempt role i (\<lambda>c. c\<lparr>cat_attempt := a\<rparr>) x)"

section \<open>Recording an event\<close>

definition roleEvent :: "CoordinatorEventKind \<Rightarrow> bool" where
  "roleEvent k \<longleftrightarrow>
     k \<in> set [CoordinatorEventAttemptQueued, CoordinatorEventInvocationDispatched,
       CoordinatorEventInvocationCommitted, CoordinatorEventRepairQueued, CoordinatorEventRetryQueued,
       CoordinatorEventExtractionQueued, CoordinatorEventRoleTerminal]"

definition check_record ::
    "CoordinatorEventKind \<Rightarrow> Role \<Rightarrow> RunState \<Rightarrow> coordinatorExecution \<Rightarrow> trace_error option" where
  "check_record kind role runState x =
     (if ex_runTerminalRecorded x then Some TraceAlreadyTerminal
      else if kind = CoordinatorEventRunStarted \<and>
              (ex_runStarted x \<or> ex_nextEvent x \<noteq> 0 \<or> ex_trace x \<noteq> [])
        then Some TraceStartNotFirst
      else if kind \<noteq> CoordinatorEventRunStarted \<and> \<not> ex_runStarted x then Some TraceNotStarted
      else if ex_workersCloseAuthorized x \<and> kind \<noteq> CoordinatorEventRunTerminal
        then Some TraceCloseAuthorized
      else if roleEvent kind \<and> \<not> Role_Valid role then Some TraceRoleInvalid
      else if roleEvent kind \<and> role \<in> set (ex_terminalRoles x)
        then Some (TraceRoleAlreadyTerminal role)
      else if \<not> roleEvent kind \<and> Role_Valid role then Some (TraceGlobalRole role)
      else if kind = CoordinatorEventWorkersCloseAuthorized \<and> ex_workersCloseAuthorized x
        then Some TraceAlreadyAuthorized
      else if kind = CoordinatorEventWorkersCloseAuthorized \<and> \<not> allRolesTerminal x
        then Some TraceRolesNotTerminal
      else if kind = CoordinatorEventRunTerminal \<and> \<not> ex_workersCloseAuthorized x
        then Some TraceNotAuthorized
      else if kind = CoordinatorEventRunTerminal \<and>
              (\<not> coordinatorTerminalRunState runState \<or> run_state (ex_run x) \<noteq> runState)
        then Some TraceRunNotTerminal
      else None)"

definition trace_event ::
    "CoordinatorEventKind \<Rightarrow> Role \<Rightarrow> AttemptID option \<Rightarrow> InvocationPurpose option \<Rightarrow>
     AttemptCondition option \<Rightarrow> string \<Rightarrow> RunState \<Rightarrow> coordinatorExecution \<Rightarrow> CoordinatorTraceEvent" where
  "trace_event kind role attempt purpose condition reason runState x =
     \<lparr>te_ordinal = ex_nextEvent x + 1, te_kind = kind, te_role = role,
      te_attemptID = (case attempt of None \<Rightarrow> AttemptID '''' | Some i \<Rightarrow> i),
      te_hasAttempt = (attempt \<noteq> None),
      te_purpose = (case purpose of None \<Rightarrow> no_purpose | Some p \<Rightarrow> p),
      te_hasPurpose = (purpose \<noteq> None),
      te_condition = (case condition of None \<Rightarrow> no_condition | Some c \<Rightarrow> c),
      te_hasCondition = (condition \<noteq> None), te_reason = reason, te_runState = runState\<rparr>"

definition note_event :: "CoordinatorTraceEvent \<Rightarrow> coordinatorExecution \<Rightarrow> coordinatorExecution" where
  "note_event e x =
     x\<lparr>ex_trace := ex_trace x @ [e], ex_nextEvent := ex_nextEvent x + 1,
       ex_runStarted := (te_kind e = CoordinatorEventRunStarted \<or> ex_runStarted x),
       ex_terminalRoles := (if te_kind e = CoordinatorEventRoleTerminal
          then te_role e # ex_terminalRoles x else ex_terminalRoles x),
       ex_workersCloseAuthorized :=
         (te_kind e = CoordinatorEventWorkersCloseAuthorized \<or> ex_workersCloseAuthorized x),
       ex_runTerminalRecorded := (te_kind e = CoordinatorEventRunTerminal \<or> ex_runTerminalRecorded x)\<rparr>"

definition record_event ::
    "world \<Rightarrow> CoordinatorEventKind \<Rightarrow> Role \<Rightarrow> AttemptID option \<Rightarrow> InvocationPurpose option \<Rightarrow>
     AttemptCondition option \<Rightarrow> string \<Rightarrow> RunState \<Rightarrow> unit coordination" where
  "record_event w kind role attempt purpose condition reason runState x =
     (case check_record kind role runState x of
        Some e \<Rightarrow> (Inl (CoTrace e), x)
      | None \<Rightarrow>
          (let event = trace_event kind role attempt purpose condition reason runState x
           in case CoordinatorTraceEvent_validate event of
                Some e \<Rightarrow> (Inl (CoTrace e), x)
              | None \<Rightarrow>
                  if \<not> w_emit w event then (Inl (CoTrace TraceDiagnostics), x)
                  else (Inr (), note_event event x)))"

section \<open>Contexts and identities\<close>

text \<open>Each look at a context is a question to the world.\<close>

definition callerEnded :: "world \<Rightarrow> bool coordination" where
  "callerEnded w x = (Inr (w_callerEnded w (ex_looks x)), x\<lparr>ex_looks := Suc (ex_looks x)\<rparr>)"

definition runEnded :: "world \<Rightarrow> context_error option coordination" where
  "runEnded w x = (Inr (w_runEnded w (ex_looks x)), x\<lparr>ex_looks := Suc (ex_looks x)\<rparr>)"

definition admitted :: "world \<Rightarrow> bool coordination" where
  "admitted w x = (Inr (w_admit w (ex_looks x)), x\<lparr>ex_looks := Suc (ex_looks x)\<rparr>)"

definition reserve :: "string \<Rightarrow> unit coordination" where
  "reserve uuid x =
     (if uuid \<in> set (ex_used x) then (Inl (CoReused uuid), x)
      else (Inr (), x\<lparr>ex_used := uuid # ex_used x\<rparr>))"

definition newAttemptID :: "world \<Rightarrow> AttemptID coordination" where
  "newAttemptID w x =
     (let y = x\<lparr>ex_issued := Suc (ex_issued x)\<rparr>
      in case w_attemptID w (ex_issued x) of
           None \<Rightarrow> (Inl CoIssuer, y)
         | Some issued \<Rightarrow>
             (case ParseAttemptID (AttemptID_String issued) of
                Inl e \<Rightarrow> (Inl (CoIdentity e), y)
              | Inr i \<Rightarrow> seq (reserve (drop 2 (AttemptID_String i))) (\<lambda>_. give i) y))"

end
