(* ===== verification/Coordinator_Steps.thy ===== *)
theory Coordinator_Steps
  imports Coordinator_State
begin

text \<open>
  What the coordinator (\<open>internal/app/review/coordinator.go\<close>) does with its roles: starting attempts,
  dispatching a wave of jobs, collecting their results, committing each outcome, and stopping
  everything. The theory follows the order of the source's functions.
\<close>

section \<open>Conditions\<close>

definition conditionCancelsCoordinatorRun :: "AttemptCondition \<Rightarrow> bool" where
  "conditionCancelsCoordinatorRun c \<longleftrightarrow>
     c = AttemptConditionSecurityViolation \<or> c = AttemptConditionMutationViolation \<or>
     c = AttemptConditionCancelled"

definition conditionStopsCoordinatorRun :: "AttemptCondition \<Rightarrow> bool" where
  "conditionStopsCoordinatorRun c \<longleftrightarrow>
     c = AttemptConditionInternalInvariant \<or> c = AttemptConditionArtifactFailure \<or>
     c = AttemptConditionSecurityViolation \<or> c = AttemptConditionMutationViolation \<or>
     c = AttemptConditionCancelled"

definition FailurePrecedence :: "FailureClass \<Rightarrow> int" where
  "FailurePrecedence k =
     (case k of
        FailureInternal \<Rightarrow> 7
      | FailureSecurityPolicy \<Rightarrow> 6
      | FailureArtifact \<Rightarrow> 5
      | FailureCancelled \<Rightarrow> 4
      | FailureConfiguration \<Rightarrow> 3
      | FailureProviderUnavailable \<Rightarrow> 2
      | FailureTimeout \<Rightarrow> 2
      | FailureAuthentication \<Rightarrow> 2
      | FailureQuota \<Rightarrow> 2
      | FailureRateLimit \<Rightarrow> 2
      | FailureInvalidOutput \<Rightarrow> 1
      | _ \<Rightarrow> 0)"

definition conditionFailureClass :: "AttemptCondition \<Rightarrow> FailureClass" where
  "conditionFailureClass c =
     (case DecideTransition \<lparr>ti_Condition = c, ti_RepairUsed = False, ti_RetryUsed = False,
              ti_CancellationObserved = False\<rparr> of
        Inl _ \<Rightarrow> FailureInternal | Inr d \<Rightarrow> td_terminalClass d)"

definition extractionBoundedFailureCeiling :: int where
  "extractionBoundedFailureCeiling = 2"

definition extractionOutcomeIsBounded :: "InvocationJob \<Rightarrow> AttemptCondition \<Rightarrow> bool" where
  "extractionOutcomeIsBounded j c \<longleftrightarrow>
     ij_purpose j = InvocationExtract \<and>
     FailurePrecedence (conditionFailureClass c) \<le> extractionBoundedFailureCeiling"

definition conditionRequiresValidation :: "AttemptCondition \<Rightarrow> bool" where
  "conditionRequiresValidation c \<longleftrightarrow>
     c = AttemptConditionValidReview \<or> c = AttemptConditionInvalidProviderOutput \<or>
     c = AttemptConditionInvalidEvidenceClaim \<or> c = AttemptConditionSemanticContradiction"

definition invocationSequence :: "InvocationPurpose \<Rightarrow> uint64" where
  "invocationSequence p =
     (if p = InvocationRepair \<or> p = InvocationRetry \<or> p = InvocationExtract then 2 else 1)"

section \<open>Starting attempts\<close>

definition sameCoordinatorRoute :: "ProviderRoute \<Rightarrow> ProviderRoute \<Rightarrow> bool" where
  "sameCoordinatorRoute l r \<longleftrightarrow> route_providerInstance l = route_providerInstance r"

definition invocationLimits ::
    "world \<Rightarrow> Role \<Rightarrow> ProviderRoute \<Rightarrow> coordinator_error + InvocationLimits" where
  "invocationLimits w role route =
     (case List.find (\<lambda>b. ro_role b = role \<and> sameCoordinatorRoute (rb_route (ro_primary b)) route)
             (rc_roles (co_receipt (w_coordinator w))) of
        None \<Rightarrow> Inl (CoNoBudget role)
      | Some b \<Rightarrow> Inr (rb_limits (ro_primary b)))"

definition newJob ::
    "world \<Rightarrow> Role \<Rightarrow> nat \<Rightarrow> InvocationPurpose \<Rightarrow> InvocationJob coordination" where
  "newJob w role i purpose =
     seq (read (attempt_at role i)) (\<lambda>c.
     seq (result (\<lambda>e. e) (invocationLimits w role (cat_route c))) (\<lambda>limits.
     seq (change (\<lambda>x. x\<lparr>ex_nextJob := ex_nextJob x + 1\<rparr>)) (\<lambda>_.
     seq (read ex_run) (\<lambda>run.
     seq (read ex_nextJob) (\<lambda>ordinal.
       result CoJob (newInvocationJob (run_sessionID run) (run_id run) role (cat_route c)
         (run_target run) limits (att_id (cat_attempt c)) purpose ordinal))))))"

definition fresh_attempt :: "ProviderRoute \<Rightarrow> Attempt \<Rightarrow> coordinatorAttempt" where
  "fresh_attempt route a =
     \<lparr>cat_route = route, cat_attempt = a, cat_repairUsed = False, cat_retryUsed = False,
      cat_extractUsed = False, cat_acceptedOutput = None, cat_failureClass = FailureClassOther '''',
      cat_reasonCode = '''', cat_timeoutFacts = None, cat_parseState = ParseStateOther '''',
      cat_validationState = ValidationStateOther ''''\<rparr>"

definition startAttempt ::
    "world \<Rightarrow> Role \<Rightarrow> ProviderRoute \<Rightarrow> CoordinatorEventKind \<Rightarrow> InvocationJob coordination" where
  "startAttempt w role route event =
     seq (newAttemptID w) (\<lambda>attemptID.
     seq (result CoAttempt (NewInvocation 1 InvocationInitial)) (\<lambda>initial.
     seq (result CoAttempt (NewAttempt attemptID (route_providerInstance route) initial)) (\<lambda>attempt.
     seq (result CoAttempt (Attempt_Transition (Some attempt) AttemptRunning)) (\<lambda>running.
     seq (change_role role (\<lambda>st. st\<lparr>rol_attempts := rol_attempts st @ [fresh_attempt route running],
            rol_currentAttempt := int (length (rol_attempts st))\<rparr>)) (\<lambda>_.
     seq (read (\<lambda>x. length (rol_attempts (role_state role x)) - 1)) (\<lambda>current.
     seq (move_role role RoleTaskPrimaryRunning) (\<lambda>_.
     seq (record_event w event role (Some (att_id running)) None None '''' no_run_state) (\<lambda>_.
       newJob w role current InvocationInitial))))))))"

definition startPrimary :: "world \<Rightarrow> Role \<Rightarrow> InvocationJob coordination" where
  "startPrimary w role =
     seq (read (\<lambda>x. ex_roles x role)) (\<lambda>state.
       case state of
         None \<Rightarrow> fail (CoMissingRole role)
       | Some st \<Rightarrow>
           seq (move_role role RoleTaskPrimaryQueued) (\<lambda>_.
             startAttempt w role (as_primaryRoute (rol_assignment st)) CoordinatorEventAttemptQueued))"

section \<open>The attempt of a job\<close>

definition attempt_matches ::
    "InvocationJob \<Rightarrow> InvocationLimits \<Rightarrow> coordinatorAttempt \<Rightarrow> bool" where
  "attempt_matches j limits c \<longleftrightarrow>
     att_id (cat_attempt c) = ij_attemptID j \<and>
     sameCoordinatorRoute (cat_route c) (InvocationJob_Route j) \<and> ij_limits j = limits"

fun index_of :: "('a \<Rightarrow> bool) \<Rightarrow> nat \<Rightarrow> 'a list \<Rightarrow> nat option" where
  "index_of p i [] = None"
| "index_of p i (x # xs) = (if p x then Some i else index_of p (Suc i) xs)"

definition attemptFor :: "world \<Rightarrow> InvocationJob \<Rightarrow> nat coordination" where
  "attemptFor w j =
     seq (read (\<lambda>x. ex_roles x (ij_role j))) (\<lambda>state.
       case state of
         None \<Rightarrow> fail (CoMissingRole (ij_role j))
       | Some st \<Rightarrow>
           seq (result (\<lambda>e. e) (invocationLimits w (ij_role j) (InvocationJob_Route j))) (\<lambda>limits.
             case index_of (attempt_matches j limits) 0 (rol_attempts st) of
               None \<Rightarrow> fail (CoUnknownAttempt (ij_attemptID j))
             | Some i \<Rightarrow> give i))"

definition record_attempt ::
    "world \<Rightarrow> CoordinatorEventKind \<Rightarrow> Role \<Rightarrow> nat \<Rightarrow> InvocationPurpose option \<Rightarrow>
     AttemptCondition option \<Rightarrow> string \<Rightarrow> unit coordination" where
  "record_attempt w kind role i purpose condition reason =
     seq (read (attempt_at role i)) (\<lambda>c.
       record_event w kind role (Some (att_id (cat_attempt c))) purpose condition reason no_run_state)"

section \<open>Dispatching a wave\<close>

text \<open>
  The jobs that were dispatched. The wave is cut short when the run's context has ended or the
  scheduler does not admit a job; both cancel the dispatch, an effect on the scheduler.
\<close>

fun dispatch_jobs :: "world \<Rightarrow> InvocationJob list \<Rightarrow> InvocationJob list \<Rightarrow> InvocationJob list coordination" where
  "dispatch_jobs w dispatched [] = give dispatched"
| "dispatch_jobs w dispatched (j # js) =
     seq (runEnded w) (\<lambda>ended.
       if ended \<noteq> None then give dispatched
       else seq (attemptFor w j) (\<lambda>i.
         seq (admitted w) (\<lambda>accepted.
           if \<not> accepted then give dispatched
           else seq (move_attempt (ij_role j) i
                       (\<lambda>a. TransitionInvocation a (invocationSequence (ij_purpose j)) InvocationRunning)) (\<lambda>_.
             seq (record_attempt w CoordinatorEventInvocationDispatched (ij_role j) i
                       (Some (ij_purpose j)) None '''') (\<lambda>_.
               dispatch_jobs w (dispatched @ [j]) js)))))"

definition dispatchWave :: "world \<Rightarrow> InvocationJob list \<Rightarrow> InvocationJob list coordination" where
  "dispatchWave w wave = dispatch_jobs w [] wave"

section \<open>Evidence of an outcome\<close>

definition expected_identity :: "bool \<Rightarrow> string \<Rightarrow> string \<Rightarrow> string \<Rightarrow> bool" where
  "expected_identity live expected target source \<longleftrightarrow>
     (if live then target = '''' \<and> source = expected else target = expected)"

fun bound_receipts ::
    "bool \<Rightarrow> string \<Rightarrow> CurrentReceipt list \<Rightarrow> CurrentEvidenceClaim list \<Rightarrow> CurrentEvidenceClaim list \<Rightarrow> bool" where
  "bound_receipts live expected (r # rs) (c # cs) (p # ps) \<longleftrightarrow>
     expected_identity live expected (EvidenceClaim_TargetSHA256 p) (EvidenceClaim_SourceIdentitySHA256 p) \<and>
     expected_identity live expected (EvidenceClaim_TargetSHA256 c) (EvidenceClaim_SourceIdentitySHA256 c) \<and>
     expected_identity live expected (CurrentClaim_TargetSHA256 (re_claim r))
       (CurrentClaim_SourceIdentitySHA256 (re_claim r)) \<and>
     currentEvidenceClaimsEqual c p \<and> receiptMatchesValidationClaim r c \<and>
     bound_receipts live expected rs cs ps"
| "bound_receipts live expected _ _ _ \<longleftrightarrow> True"

definition bound_group ::
    "(string \<Rightarrow> string) \<Rightarrow> bool \<Rightarrow> string \<Rightarrow> nat \<Rightarrow> Finding \<Rightarrow> VerifiedFindingEvidence \<Rightarrow> bool" where
  "bound_group ul live expected i f g \<longleftrightarrow>
     (let proofs = fe_claims (ve_validationProof g)
      in f_id f = final_id i \<and> ve_findingID g = final_id i \<and> f_id (ve_finding g) = final_id i \<and>
         fe_findingID (ve_validationProof g) = final_id i \<and>
         MatchesFinding ul (ve_validationProof g) (ve_finding g) \<and> proofs \<noteq> [] \<and>
         length proofs = length (ve_claims g) \<and> length (ve_claims g) = length (ve_receipts g) \<and>
         bound_receipts live expected (ve_receipts g) (ve_claims g) proofs \<and>
         matchesFinding ul g f)"

fun bound_groups ::
    "(string \<Rightarrow> string) \<Rightarrow> bool \<Rightarrow> string \<Rightarrow> nat \<Rightarrow> Finding list \<Rightarrow> VerifiedFindingEvidence list \<Rightarrow> bool" where
  "bound_groups ul live expected i (f # fs) (g # gs) \<longleftrightarrow>
     bound_group ul live expected i f g \<and> bound_groups ul live expected (Suc i) fs gs"
| "bound_groups ul live expected i _ _ \<longleftrightarrow> True"

definition coordinatorEvidenceIdentityBindingCondition ::
    "(string \<Rightarrow> string) \<Rightarrow> Finding list \<Rightarrow> VerifiedFindingEvidence list \<Rightarrow> string \<Rightarrow> bool \<Rightarrow> AttemptCondition" where
  "coordinatorEvidenceIdentityBindingCondition ul fs gs identity live =
     (if identity = '''' \<or> length fs \<noteq> length gs then AttemptConditionInternalInvariant
      else if bound_groups ul live (''sha256:'' @ identity) 0 fs gs then AttemptConditionValidReview
      else AttemptConditionInternalInvariant)"

definition coordinatorTargetEvidenceBindingCondition ::
    "(string \<Rightarrow> string) \<Rightarrow> Finding list \<Rightarrow> VerifiedFindingEvidence list \<Rightarrow> TargetIdentity \<Rightarrow> AttemptCondition" where
  "coordinatorTargetEvidenceBindingCondition ul fs gs t =
     (if target_kind t = TargetLiveSource
      then coordinatorEvidenceIdentityBindingCondition ul fs gs (target_sourceIdentitySHA256 t) True
      else coordinatorEvidenceIdentityBindingCondition ul fs gs (target_sha256 t) False)"

definition reduceOutputEvidence ::
    "world \<Rightarrow> TargetIdentity \<Rightarrow> ValidatedRoleOutput \<Rightarrow> AttemptCondition + ValidatedRoleOutput" where
  "reduceOutputEvidence w target out =
     (let c = coordinatorTargetEvidenceBindingCondition (w_lower w) (vo_findings out) (vo_evidence out) target
      in if c \<noteq> AttemptConditionValidReview then Inl c
         else case ReduceVerifiedFindingEvidence (w_lower w) (vo_findings out) (vo_evidence out)
                     (co_policy (w_coordinator w)) of
                Inl (EvidencePolicyRejected _ _ _) \<Rightarrow> Inl AttemptConditionInvalidEvidenceClaim
              | Inl _ \<Rightarrow> Inl AttemptConditionInternalInvariant
              | Inr reduced \<Rightarrow> Inr (out\<lparr>vo_findings := reduced\<rparr>))"

definition normalizedOutcome ::
    "world \<Rightarrow> TargetIdentity \<Rightarrow> InvocationJob \<Rightarrow> AttemptOutcome \<Rightarrow> Role_Outputs.outcome_error + AttemptOutcome" where
  "normalizedOutcome w target j out =
     (if \<not> validFor (w_lower w) (w_letter w) out j
        then NewAttemptOutcome (w_lower w) (w_letter w) j None (Some AttemptConditionInternalInvariant)
      else case ao_output out of
        None \<Rightarrow> Inr out
      | Some output \<Rightarrow>
          (case reduceOutputEvidence w target (ValidatedRoleOutput_clone output) of
             Inl c \<Rightarrow> NewAttemptOutcome (w_lower w) (w_letter w) j None (Some c)
           | Inr reduced \<Rightarrow> NewAttemptOutcome (w_lower w) (w_letter w) j (Some reduced) None))"

section \<open>Collecting a wave\<close>

text \<open>
  The results in the order of their arrival. The first one that stops the run is persisted as the
  initiating failure and cancels the dispatch; a bounded failure of an extraction trailer never does.
\<close>

fun collect_results ::
    "world \<Rightarrow> InvocationJob list \<Rightarrow> bool \<Rightarrow> (uint64 \<rightharpoonup> AttemptOutcome) \<Rightarrow>
     (InvocationJob \<times> AttemptOutcome) list \<Rightarrow> (uint64 \<rightharpoonup> AttemptOutcome) coordination" where
  "collect_results w wave stopping outcomes [] = give outcomes"
| "collect_results w wave stopping outcomes ((answered, out) # rest) =
     (case List.find (\<lambda>j. ij_ordinal j = ij_ordinal answered) (rev wave) of
        None \<Rightarrow> fail (CoUnknownOrdinal (ij_ordinal answered))
      | Some j \<Rightarrow>
          if outcomes (ij_ordinal answered) \<noteq> None then fail (CoDuplicateOrdinal (ij_ordinal answered))
          else seq (read (\<lambda>x. run_target (ex_run x))) (\<lambda>target.
            seq (result CoOutcome (normalizedOutcome w target j out)) (\<lambda>normalized.
            let c = coordinatorOutcomeCondition normalized;
                known = outcomes(ij_ordinal answered \<mapsto> normalized);
                stops = (\<not> extractionOutcomeIsBounded j c \<and> \<not> stopping \<and> conditionStopsCoordinatorRun c)
            in seq (guard (stops \<longrightarrow> w_persist w j normalized) CoPersist) (\<lambda>_.
                 collect_results w wave (stopping \<or> stops) known rest))))"

definition collectWave ::
    "world \<Rightarrow> InvocationJob list \<Rightarrow> (uint64 \<rightharpoonup> AttemptOutcome) coordination" where
  "collectWave w wave = collect_results w wave False Map.empty (take (length wave) (w_results w wave))"

definition wave_less :: "InvocationJob \<Rightarrow> InvocationJob \<Rightarrow> bool" where
  "wave_less l r \<longleftrightarrow>
     (if roleRank (ij_role l) \<noteq> roleRank (ij_role r) then roleRank (ij_role l) < roleRank (ij_role r)
      else ij_ordinal l < ij_ordinal r)"

definition orderedCoordinatorWave :: "InvocationJob list \<Rightarrow> InvocationJob list" where
  "orderedCoordinatorWave wave = sort_slice wave_less wave"

section \<open>Moving attempts to their ends\<close>

definition attempt_over :: "AttemptState \<Rightarrow> bool" where
  "attempt_over s \<longleftrightarrow>
     s = AttemptSucceeded \<or> s = AttemptFailed \<or> s = AttemptTimedOut \<or> s = AttemptCancelled \<or>
     s = AttemptBlocked"

definition transitionFailedExtractionInvocation ::
    "Role \<Rightarrow> nat \<Rightarrow> uint64 \<Rightarrow> AttemptCondition \<Rightarrow> unit coordination" where
  "transitionFailedExtractionInvocation role i sequence c =
     move_attempt role i (\<lambda>a. TransitionInvocation a sequence
       (if c = AttemptConditionTimeout \<or> c = AttemptConditionProviderTimeout then InvocationTimedOut
        else if c = AttemptConditionCancelled then InvocationCancelled
        else InvocationFailed))"

definition transitionFailedInvocation ::
    "Role \<Rightarrow> nat \<Rightarrow> InvocationPurpose \<Rightarrow> AttemptCondition \<Rightarrow> unit coordination" where
  "transitionFailedInvocation role i purpose c =
     (let ends = (if c = AttemptConditionTimeout then (InvocationTimedOut, AttemptTimedOut)
                  else if c = AttemptConditionCancelled then (InvocationCancelled, AttemptCancelled)
                  else (InvocationFailed, AttemptFailed))
      in seq (move_attempt role i (\<lambda>a. TransitionInvocation a (invocationSequence purpose) (fst ends))) (\<lambda>_.
           move_attempt role i (\<lambda>a. Attempt_Transition a (snd ends))))"

definition terminalizeAttempt :: "Role \<Rightarrow> nat \<Rightarrow> AttemptCondition \<Rightarrow> unit coordination" where
  "terminalizeAttempt role i c =
     seq (read (\<lambda>x. att_state (cat_attempt (attempt_at role i x)))) (\<lambda>state.
       if attempt_over state then give ()
       else move_attempt role i (\<lambda>a. Attempt_Transition a
         (if c = AttemptConditionValidReview then AttemptSucceeded
          else if c = AttemptConditionTimeout then AttemptTimedOut
          else if c = AttemptConditionCancelled then AttemptCancelled
          else AttemptFailed)))"

definition stopCoordinatorAttempt :: "Role \<Rightarrow> nat \<Rightarrow> AttemptCondition \<Rightarrow> unit coordination" where
  "stopCoordinatorAttempt role i c =
     seq (read (\<lambda>x. cat_attempt (attempt_at role i x))) (\<lambda>a.
       if attempt_over (att_state a) then give ()
       else if att_invocations a = [] then fail CoNoInvocation
       else let current = last (att_invocations a) in
         seq (if inv_state current = InvocationQueued \<or> inv_state current = InvocationRunning
              then move_attempt role i (\<lambda>a. TransitionInvocation a (inv_sequence current)
                (if c = AttemptConditionCancelled then InvocationCancelled
                 else if c = AttemptConditionTimeout
                   then (if inv_state current = InvocationRunning then InvocationTimedOut
                         else InvocationCancelled)
                 else InvocationFailed))
              else give ()) (\<lambda>_.
         seq (read (\<lambda>x. att_state (cat_attempt (attempt_at role i x)))) (\<lambda>state.
           move_attempt role i (\<lambda>a. Attempt_Transition a
             (if c = AttemptConditionCancelled then AttemptCancelled
              else if c = AttemptConditionTimeout \<and>
                      (state = AttemptRunning \<or> state = AttemptRepairing)
                then AttemptTimedOut
              else AttemptFailed)))))"

section \<open>Committing an outcome\<close>

text \<open>Success of a role: its output, whether it was repaired, and the states of its extraction.\<close>

definition accept_output :: "Role \<Rightarrow> nat \<Rightarrow> ValidatedRoleOutput \<Rightarrow> unit coordination" where
  "accept_output role i out =
     seq (move_role role RoleTaskSucceeded) (\<lambda>_.
     seq (change_role role (\<lambda>st. st\<lparr>rol_output := Some (ValidatedRoleOutput_clone out),
            rol_repaired := (vo_validationState out = ValidationRepairedValid)\<rparr>)) (\<lambda>_.
       change_attempt role i (\<lambda>c. c\<lparr>cat_parseState := vo_parseState out,
         cat_validationState := vo_validationState out\<rparr>)))"

definition mark_artifacts :: "Role \<Rightarrow> nat \<Rightarrow> InvocationJob \<Rightarrow> AttemptOutcome \<Rightarrow> unit coordination" where
  "mark_artifacts role i j out =
     (if ao_runtimeArtifactsExpected out
      then move_attempt role i (\<lambda>a.
        MarkInvocationRuntimeArtifactsExpected a (invocationSequence (ij_purpose j)))
      else give ())"

definition commitExtractionOutcome ::
    "world \<Rightarrow> InvocationJob \<Rightarrow> AttemptOutcome \<Rightarrow> AttemptCondition \<Rightarrow> InvocationJob list coordination" where
  "commitExtractionOutcome w j out c =
     (let role = ij_role j
      in seq (attemptFor w j) (\<lambda>i.
         seq (read (\<lambda>x. cat_acceptedOutput (attempt_at role i x))) (\<lambda>accepted.
         case accepted of
           None \<Rightarrow> fail CoNoAcceptedOutput
         | Some kept \<Rightarrow>
             seq (record_attempt w CoordinatorEventInvocationCommitted role i (Some (ij_purpose j))
                    (Some c) '''') (\<lambda>_.
             seq (mark_artifacts role i j out) (\<lambda>_.
             seq (case (ao_output out, c = AttemptConditionValidReview) of
                    (Some extracted, True) \<Rightarrow>
                      seq (move_attempt role i (\<lambda>a. TransitionInvocation a
                             (invocationSequence (ij_purpose j)) InvocationSucceeded)) (\<lambda>_.
                        give (ValidatedRoleOutput_clone extracted))
                  | _ \<Rightarrow>
                      seq (transitionFailedExtractionInvocation role i
                             (invocationSequence (ij_purpose j)) c) (\<lambda>_.
                        give kept)) (\<lambda>output.
             seq (terminalizeAttempt role i AttemptConditionValidReview) (\<lambda>_.
             seq (accept_output role i output) (\<lambda>_.
             seq (record_attempt w CoordinatorEventRoleTerminal role i None
                    (Some AttemptConditionValidReview)
                    (AttemptCondition_string AttemptConditionValidReview)) (\<lambda>_.
               give [])))))))))"

definition queue_followup ::
    "world \<Rightarrow> Role \<Rightarrow> nat \<Rightarrow> InvocationPurpose \<Rightarrow> CoordinatorEventKind \<Rightarrow> string \<Rightarrow>
     InvocationJob list coordination" where
  "queue_followup w role i purpose kind reason =
     seq (newJob w role i purpose) (\<lambda>j.
     seq (record_attempt w kind role i (Some (ij_purpose j)) None reason) (\<lambda>_.
       give [j]))"

definition scheduleExtraction ::
    "world \<Rightarrow> InvocationJob \<Rightarrow> nat \<Rightarrow> ValidatedRoleOutput \<Rightarrow> TransitionDecision \<Rightarrow> bool \<Rightarrow>
     InvocationJob list option coordination" where
  "scheduleExtraction w j i out d suppressFollowup =
     (let role = ij_role j
      in seq (read (\<lambda>x. (x, attempt_at role i x))) (\<lambda>(x, c).
             if \<not> ex_extractionAdmitted x \<or> suppressFollowup \<or> ex_stopping x then give None
             else if td_terminalProjection d \<noteq> TerminalProjectionSucceeded then give None
             else if ij_purpose j \<noteq> InvocationInitial \<or> cat_extractUsed c \<or> \<not> vo_reportsOnly out
               then give None
             else if length (att_invocations (cat_attempt c)) \<noteq> 1 then give None
             else
               seq (result CoAttempt (NewInvocation 2 InvocationExtract)) (\<lambda>extract.
               seq (move_attempt role i (\<lambda>a. AppendExtractInvocation a extract)) (\<lambda>_.
               seq (change_attempt role i (\<lambda>c. c\<lparr>cat_extractUsed := True,
                      cat_acceptedOutput := Some (ValidatedRoleOutput_clone out)\<rparr>)) (\<lambda>_.
               seq (queue_followup w role i InvocationExtract CoordinatorEventExtractionQueued '''') (\<lambda>js.
                 give (Some js)))))))"

text \<open>The end of a role after its last invocation, by the projection of the decision.\<close>

definition project_role ::
    "Role \<Rightarrow> nat \<Rightarrow> ValidatedRoleOutput \<Rightarrow> TransitionDecision \<Rightarrow> unit coordination" where
  "project_role role i out d =
     (case td_terminalProjection d of
        TerminalProjectionSucceeded \<Rightarrow> accept_output role i out
      | TerminalProjectionFailed \<Rightarrow>
          seq (move_role role RoleTaskFailed) (\<lambda>_.
            change_role role (\<lambda>st. st\<lparr>rol_failureClass := td_terminalClass d,
              rol_reasonCode := td_reasonCode d\<rparr>))
      | TerminalProjectionCancelled \<Rightarrow>
          seq (move_role role RoleTaskCancelled) (\<lambda>_.
            change_role role (\<lambda>st. st\<lparr>rol_failureClass := td_terminalClass d,
              rol_reasonCode := td_reasonCode d\<rparr>))
      | _ \<Rightarrow> fail CoNoProjection)"

definition no_output :: ValidatedRoleOutput where
  "no_output = \<lparr>vo_role = no_role, vo_providerInstance = '''', vo_target = no_target, vo_findings = [],
     vo_evidence = [], vo_completeness = '''', vo_limitations = [], vo_reportMarkdown = '''',
     vo_reportsOnly = False, vo_parseState = ParseStateOther '''',
     vo_validationState = ValidationStateOther '''',
     vo_outputTransport = ProviderOutputTransportOther ''''\<rparr>"

definition outcome_output :: "AttemptOutcome \<Rightarrow> ValidatedRoleOutput" where
  "outcome_output out =
     (case ao_output out of None \<Rightarrow> no_output | Some v \<Rightarrow> ValidatedRoleOutput_clone v)"

text \<open>The decision about an outcome, and what follows from it once the invocation is over.\<close>

definition end_role ::
    "world \<Rightarrow> InvocationJob \<Rightarrow> nat \<Rightarrow> ValidatedRoleOutput \<Rightarrow> AttemptCondition \<Rightarrow> TransitionDecision \<Rightarrow>
     InvocationJob list coordination" where
  "end_role w j i out c d =
     (let role = ij_role j
      in seq (terminalizeAttempt role i (td_condition d)) (\<lambda>_.
         seq (read (\<lambda>x. att_state (cat_attempt (attempt_at role i x)))) (\<lambda>state.
         seq (if state \<noteq> AttemptSucceeded
              then change_attempt role i (\<lambda>c. c\<lparr>cat_failureClass := td_terminalClass d,
                     cat_reasonCode := td_reasonCode d\<rparr>)
              else give ()) (\<lambda>_.
         seq (project_role role i out d) (\<lambda>_.
         seq (record_attempt w CoordinatorEventRoleTerminal role i None (Some c) (td_reasonCode d)) (\<lambda>_.
           give []))))))"

definition follow_decision ::
    "world \<Rightarrow> InvocationJob \<Rightarrow> nat \<Rightarrow> AttemptOutcome \<Rightarrow> AttemptCondition \<Rightarrow> bool \<Rightarrow> TransitionDecision \<Rightarrow>
     InvocationJob list coordination" where
  "follow_decision w j i outcome c suppressFollowup d =
     (let role = ij_role j; out = outcome_output outcome
      in if td_scheduleRetry d then
           seq (move_attempt role i (\<lambda>a. TransitionInvocation a (invocationSequence (ij_purpose j))
                  InvocationFailed)) (\<lambda>_.
           seq (result CoAttempt (NewInvocation 2 InvocationRetry)) (\<lambda>retry.
           seq (move_attempt role i (\<lambda>a. AppendRetryInvocation a retry)) (\<lambda>_.
           seq (change_attempt role i (\<lambda>c. c\<lparr>cat_retryUsed := True\<rparr>)) (\<lambda>_.
             queue_followup w role i InvocationRetry CoordinatorEventRetryQueued (td_reasonCode d)))))
         else
           seq (if conditionRequiresValidation c then give ()
                else transitionFailedInvocation role i (ij_purpose j) c) (\<lambda>_.
             if td_scheduleRepair d then
               seq (move_attempt role i (\<lambda>a. Attempt_Transition a AttemptRepairing)) (\<lambda>_.
               seq (result CoAttempt (NewInvocation 2 InvocationRepair)) (\<lambda>repair.
               seq (move_attempt role i (\<lambda>a. AppendRepairInvocation a repair)) (\<lambda>_.
               seq (change_attempt role i (\<lambda>c. c\<lparr>cat_repairUsed := True\<rparr>)) (\<lambda>_.
                 queue_followup w role i InvocationRepair CoordinatorEventRepairQueued (td_reasonCode d)))))
             else
               seq (if td_providerUnusable d
                    then change_role role (\<lambda>st. st\<lparr>rol_providerUnusable := True\<rparr>)
                    else give ()) (\<lambda>_.
               seq (scheduleExtraction w j i out d suppressFollowup) (\<lambda>scheduled.
                 case scheduled of
                   Some js \<Rightarrow> give js
                 | None \<Rightarrow> end_role w j i out c d))))"

definition commitOutcome ::
    "world \<Rightarrow> InvocationJob \<Rightarrow> AttemptOutcome \<Rightarrow> AttemptCondition \<Rightarrow> bool \<Rightarrow> bool \<Rightarrow>
     InvocationJob list coordination" where
  "commitOutcome w j outcome c cancellationObserved suppressFollowup =
     (if extractionOutcomeIsBounded j c then commitExtractionOutcome w j outcome c
      else let role = ij_role j; sequence = invocationSequence (ij_purpose j) in
        seq (attemptFor w j) (\<lambda>i.
        seq (record_attempt w CoordinatorEventInvocationCommitted role i (Some (ij_purpose j)) (Some c) '''') (\<lambda>_.
        seq (case ao_timeoutFacts outcome of
               Some facts \<Rightarrow>
                 if c = AttemptConditionProviderTimeout
                 then change_attempt role i (\<lambda>a. a\<lparr>cat_timeoutFacts := Some facts\<rparr>) else give ()
             | None \<Rightarrow> give ()) (\<lambda>_.
        seq (mark_artifacts role i j outcome) (\<lambda>_.
        seq (if conditionRequiresValidation c
             then seq (move_attempt role i (\<lambda>a. TransitionInvocation a sequence InvocationSucceeded)) (\<lambda>_.
                    move_attempt role i (\<lambda>a. Attempt_Transition a AttemptValidating))
             else give ()) (\<lambda>_.
        seq (read (attempt_at role i)) (\<lambda>a.
        seq (result CoPolicy (DecideTransition
               \<lparr>ti_Condition = c, ti_RepairUsed = (suppressFollowup \<or> cat_repairUsed a),
                ti_RetryUsed = (cat_retryUsed a \<or> suppressFollowup),
                ti_CancellationObserved = cancellationObserved\<rparr>)) (\<lambda>d.
          follow_decision w j i outcome c suppressFollowup d))))))))"

section \<open>Stopping\<close>

definition contextConditions :: "world \<Rightarrow> AttemptCondition list coordination" where
  "contextConditions w =
     seq (callerEnded w) (\<lambda>caller.
     seq (runEnded w) (\<lambda>run.
       give ((if caller then [AttemptConditionCancelled] else []) @
             (if run = Some ContextDeadlineExceeded then [AttemptConditionTimeout] else []))))"

definition contextCondition :: "world \<Rightarrow> AttemptCondition coordination" where
  "contextCondition w =
     seq (callerEnded w) (\<lambda>caller.
       if caller then give AttemptConditionCancelled
       else seq (runEnded w) (\<lambda>run.
         give (if run = Some ContextDeadlineExceeded then AttemptConditionTimeout
               else AttemptConditionCancelled)))"

text \<open>The effective condition, whether a cancellation was observed, and whether a context had ended.\<close>

definition conditionForTransition ::
    "world \<Rightarrow> AttemptCondition \<Rightarrow> (AttemptCondition \<times> bool \<times> bool) coordination" where
  "conditionForTransition w c =
     seq (callerEnded w) (\<lambda>caller.
       if caller then
         seq (result CoPolicy (ReduceAttemptConditions [c, AttemptConditionCancelled])) (\<lambda>reduced.
           give (reduced, True, True))
       else seq (runEnded w) (\<lambda>run.
         give (if run = Some ContextDeadlineExceeded
               then (if c = AttemptConditionProviderTimeout then AttemptConditionTimeout
                     else if conditionRetainsAuthorityAfterContext c AttemptConditionTimeout then c
                     else AttemptConditionTimeout, False, True)
               else (c, False, False))))"

definition requestDispatchStop :: "world \<Rightarrow> AttemptCondition \<Rightarrow> unit coordination" where
  "requestDispatchStop w c =
     (let note = (\<lambda>c. seq (record_event w CoordinatorEventCancellationRequested no_role None None (Some c)
                       (AttemptCondition_string c) no_run_state) (\<lambda>_.
                  change (\<lambda>x. x\<lparr>ex_dispatchStopRecorded := True, ex_dispatchStopCondition := c\<rparr>)))
      in seq (read (\<lambda>x. (ex_dispatchStopRecorded x, ex_dispatchStopCondition x))) (\<lambda>(recorded, prior).
           if recorded
           then seq (result CoPolicy (ReduceAttemptConditions [prior, c])) (\<lambda>reduced.
                  if reduced = prior then give () else note reduced)
           else note c))"

definition prepareOutcomeCommit ::
    "world \<Rightarrow> AttemptCondition \<Rightarrow> (AttemptCondition \<times> bool \<times> bool) coordination" where
  "prepareOutcomeCommit w c =
     seq (conditionForTransition w c) (\<lambda>(effective, cancelled, observed).
     seq (if observed then requestDispatchStop w effective else give ()) (\<lambda>_.
       give (effective, cancelled, observed)))"

definition stop_role :: "world \<Rightarrow> AttemptCondition \<Rightarrow> Role \<Rightarrow> unit coordination" where
  "stop_role w c role =
     seq (read (\<lambda>x. (ex_roles x role, coordinatorRoleTerminal (ex_run x) role))) (\<lambda>(state, terminal).
       case state of
         None \<Rightarrow> give ()
       | Some st \<Rightarrow>
           if terminal then give ()
           else let i = nat (rol_currentAttempt st); started = (0 \<le> rol_currentAttempt st);
                    failure = (if c = AttemptConditionCancelled then FailureCancelled
                               else conditionFailureClass c)
             in seq (if started
                     then seq (stopCoordinatorAttempt role i c) (\<lambda>_.
                       change_attempt role i (\<lambda>a. a\<lparr>cat_failureClass := conditionFailureClass c,
                         cat_reasonCode := AttemptCondition_string c\<rparr>))
                     else give ()) (\<lambda>_.
                seq (move_role role (if c = AttemptConditionCancelled then RoleTaskCancelled
                                     else RoleTaskFailed)) (\<lambda>_.
                seq (change_role role (\<lambda>st. st\<lparr>rol_failureClass := failure,
                       rol_reasonCode := AttemptCondition_string c\<rparr>)) (\<lambda>_.
                seq (read (attempt_at role i)) (\<lambda>a.
                  record_event w CoordinatorEventRoleTerminal role
                    (if started then Some (att_id (cat_attempt a)) else None) None (Some c)
                    (AttemptCondition_string c) no_run_state)))))"

definition cancelAll :: "world \<Rightarrow> AttemptCondition \<Rightarrow> unit coordination" where
  "cancelAll w c =
     seq (read ex_stopCondition) (\<lambda>prior.
     seq (if AttemptCondition_Valid prior
          then result CoPolicy (ReduceAttemptConditions [prior, c]) else give c) (\<lambda>effective.
     seq (change (\<lambda>x. x\<lparr>ex_stopping := True, ex_stopCondition := effective,
            ex_cancelled := conditionCancelsCoordinatorRun effective\<rparr>)) (\<lambda>_.
     seq (requestDispatchStop w effective) (\<lambda>_.
     seq (contextCondition w) (\<lambda>roleCondition.
       for_each (stop_role w roleCondition) FixedRoleOrder)))))"

section \<open>Committing a wave\<close>

definition outcome_of :: "(uint64 \<rightharpoonup> AttemptOutcome) \<Rightarrow> InvocationJob \<Rightarrow> AttemptOutcome" where
  "outcome_of outcomes j = the (outcomes (ij_ordinal j))"

definition bounded_trailer :: "(uint64 \<rightharpoonup> AttemptOutcome) \<Rightarrow> InvocationJob \<Rightarrow> bool" where
  "bounded_trailer outcomes j \<longleftrightarrow>
     extractionOutcomeIsBounded j (coordinatorOutcomeCondition (outcome_of outcomes j))"

text \<open>The outcomes of the wave, normalised once more, in the order of the wave.\<close>

fun wave_outcomes ::
    "world \<Rightarrow> TargetIdentity \<Rightarrow> (uint64 \<rightharpoonup> AttemptOutcome) \<Rightarrow> (uint64 \<rightharpoonup> AttemptOutcome) \<Rightarrow>
     InvocationJob list \<Rightarrow> coordinator_error + (uint64 \<rightharpoonup> AttemptOutcome)" where
  "wave_outcomes w target collected outcomes [] = Inr outcomes"
| "wave_outcomes w target collected outcomes (j # js) =
     (case collected (ij_ordinal j) of
        None \<Rightarrow> Inl (CoMissingOrdinal (ij_ordinal j))
      | Some out \<Rightarrow>
          (case normalizedOutcome w target j out of
             Inl e \<Rightarrow> Inl (CoOutcome e)
           | Inr normalized \<Rightarrow>
               wave_outcomes w target collected (outcomes(ij_ordinal j \<mapsto> normalized)) js))"

text \<open>
  A trailer is committed on its own observed condition and schedules nothing; every other outcome on
  the condition that the contexts leave it at that moment.
\<close>

definition commit_trailer :: "world \<Rightarrow> (uint64 \<rightharpoonup> AttemptOutcome) \<Rightarrow> InvocationJob \<Rightarrow> unit coordination" where
  "commit_trailer w outcomes j =
     seq (commitOutcome w j (outcome_of outcomes j)
            (coordinatorOutcomeCondition (outcome_of outcomes j)) False True) (\<lambda>_. give ())"

definition commit_other ::
    "world \<Rightarrow> (uint64 \<rightharpoonup> AttemptOutcome) \<Rightarrow> bool \<Rightarrow> InvocationJob \<Rightarrow> InvocationJob list coordination" where
  "commit_other w outcomes stopped j =
     seq (prepareOutcomeCommit w (coordinatorOutcomeCondition (outcome_of outcomes j)))
       (\<lambda>(c, cancelled, observed).
         commitOutcome w j (outcome_of outcomes j) c cancelled (stopped \<or> observed))"

definition commit_stopped :: "world \<Rightarrow> (uint64 \<rightharpoonup> AttemptOutcome) \<Rightarrow> InvocationJob \<Rightarrow> unit coordination" where
  "commit_stopped w outcomes j =
     (if bounded_trailer outcomes j then commit_trailer w outcomes j
      else seq (commit_other w outcomes True j) (\<lambda>_. give ()))"

text \<open>The second loop of a wave that goes on. It ends at once when the execution is stopping.\<close>

fun commit_others ::
    "world \<Rightarrow> (uint64 \<rightharpoonup> AttemptOutcome) \<Rightarrow> InvocationJob list \<Rightarrow> InvocationJob list \<Rightarrow>
     InvocationJob list coordination" where
  "commit_others w outcomes next_jobs [] = give next_jobs"
| "commit_others w outcomes next_jobs (j # js) =
     seq (commit_other w outcomes False j) (\<lambda>generated.
     seq (read ex_stopping) (\<lambda>stopping.
       if stopping then give []
       else commit_others w outcomes (next_jobs @ generated) js))"

definition commitWave ::
    "world \<Rightarrow> InvocationJob list \<Rightarrow> (uint64 \<rightharpoonup> AttemptOutcome) \<Rightarrow> InvocationJob list coordination" where
  "commitWave w wave collected =
     (let ordered = orderedCoordinatorWave wave
      in seq (read (\<lambda>x. run_target (ex_run x))) (\<lambda>target.
         seq (result (\<lambda>e. e) (wave_outcomes w target collected Map.empty ordered)) (\<lambda>outcomes.
         let others = filter (\<lambda>j. \<not> bounded_trailer outcomes j) ordered;
             facts = map (\<lambda>j. coordinatorOutcomeCondition (outcome_of outcomes j)) others
         in seq (result CoPolicy (ReduceAttemptConditions
                   (if facts = [] then [AttemptConditionValidReview] else facts))) (\<lambda>c.
            seq (contextConditions w) (\<lambda>contexts.
            seq (if contexts = [] then give None
                 else seq (result CoPolicy (ReduceAttemptConditions contexts)) (\<lambda>k. give (Some k))) (\<lambda>ended.
              if (case ended of None \<Rightarrow> False | Some k \<Rightarrow> \<not> conditionRetainsAuthorityAfterContext c k)
              then seq (cancelAll w (the ended)) (\<lambda>_. give [])
              else if conditionStopsCoordinatorRun c then
                seq (requestDispatchStop w c) (\<lambda>_.
                seq (for_each (commit_stopped w outcomes) ordered) (\<lambda>_.
                seq (cancelAll w c) (\<lambda>_. give [])))
              else
                seq (for_each (commit_trailer w outcomes) (filter (bounded_trailer outcomes) ordered)) (\<lambda>_.
                  commit_others w outcomes [] others)))))))"

end
