(* ===== verification/Coordinator_Run.thy ===== *)
theory Coordinator_Run
  imports Coordinator_Steps Outcomes
begin

text \<open>
  One execution of the coordinator from end to end (\<open>internal/app/review/coordinator.go\<close>): the checks
  of its dependencies, the admission of the assignments, the waves, the end of the run, what is done
  after an error (\<open>abort\<close>), and the immutable result.
\<close>

section \<open>Dependencies\<close>

definition validCoordinatorEvidencePolicy :: "EvidencePolicy \<Rightarrow> bool" where
  "validCoordinatorEvidencePolicy p \<longleftrightarrow> \<not> pol_structural p \<and> EvidencePolicy_valid p"

definition validCoordinatorReceipt :: "RunBudgetReceipt \<Rightarrow> bool" where
  "validCoordinatorReceipt r =
     (if \<not> rc_eligible r \<or> rc_reasonCode r \<noteq> BudgetReasonEligible then False
      else case PreflightRunBudgetWithCapacity (rc_roles r) (rc_ceilings r) (rc_maxActiveLanes r) of
        (canonical, Some _) \<Rightarrow> False
      | (canonical, None) \<Rightarrow>
          rc_eligible canonical \<and> rc_totalInvocations canonical = rc_totalInvocations r \<and>
          rc_runDeadline canonical = rc_runDeadline r \<and> rc_criticalPath canonical = rc_criticalPath r \<and>
          rc_maxActiveLanes canonical = rc_maxActiveLanes r \<and> rc_roles canonical = rc_roles r \<and>
          rc_rolePaths canonical = rc_rolePaths r)"

datatype dependency_error = DependencyLanes | DependencyReceipt | DependencyCapacity | DependencyPolicy

definition NewCoordinatorWithEvidencePolicy ::
    "int64 \<Rightarrow> RunBudgetReceipt \<Rightarrow> EvidencePolicy \<Rightarrow> dependency_error + Coordinator" where
  "NewCoordinatorWithEvidencePolicy maxActiveLanes receipt policy =
     (if maxActiveLanes < 1 then Inl DependencyLanes
      else if \<not> validCoordinatorReceipt receipt then Inl DependencyReceipt
      else if rc_maxActiveLanes receipt \<noteq> maxActiveLanes then Inl DependencyCapacity
      else if \<not> validCoordinatorEvidencePolicy policy then Inl DependencyPolicy
      else Inr \<lparr>co_maxActiveLanes = maxActiveLanes, co_receipt = receipt, co_policy = policy\<rparr>)"

text \<open>The one-shot admission of the extraction trailer (\<open>coordinatorAdmission\<close>).\<close>

record coordinatorAdmission =
  adm_extractionAdmitted :: bool
  adm_executionStarted :: bool

datatype admission_error = AdmissionAfterStart | AdmissionRepeated

definition AdmitStructuredExtraction ::
    "coordinatorAdmission \<Rightarrow> admission_error + coordinatorAdmission" where
  "AdmitStructuredExtraction a =
     (if adm_executionStarted a then Inl AdmissionAfterStart
      else if adm_extractionAdmitted a then Inl AdmissionRepeated
      else Inr (a\<lparr>adm_extractionAdmitted := True\<rparr>))"

definition admitExecutionPolicy :: "coordinatorAdmission \<Rightarrow> coordinatorAdmission \<times> bool" where
  "admitExecutionPolicy a = (a\<lparr>adm_executionStarted := True\<rparr>, adm_extractionAdmitted a)"

section \<open>Assignments\<close>

datatype assignments_error =
    AssignmentInvalid
  | AssignmentDuplicate Role
  | AssignmentCount
  | AssignmentBudgetInvalid
  | AssignmentBudgetDuplicate Role
  | AssignmentMismatch Role
  | AssignmentRole role_task_error

fun assignments_by_role :: "(Role \<rightharpoonup> Assignment) \<Rightarrow> Assignment list \<Rightarrow> assignments_error + (Role \<rightharpoonup> Assignment)" where
  "assignments_by_role m [] = Inr m"
| "assignments_by_role m (a # as) =
     (if \<not> Role_Valid (as_role a) \<or> \<not> ProviderRoute_Valid (as_primaryRoute a) \<or>
         as_providerInstance a \<noteq> route_providerInstance (as_primaryRoute a) then Inl AssignmentInvalid
      else if m (as_role a) \<noteq> None then Inl (AssignmentDuplicate (as_role a))
      else assignments_by_role (m(as_role a \<mapsto> a)) as)"

fun budgets_by_role :: "(Role \<rightharpoonup> RoleBudget) \<Rightarrow> RoleBudget list \<Rightarrow> assignments_error + (Role \<rightharpoonup> RoleBudget)" where
  "budgets_by_role m [] = Inr m"
| "budgets_by_role m (b # bs) =
     (if validateRoleBudget b \<noteq> None then Inl AssignmentBudgetInvalid
      else if m (ro_role b) \<noteq> None then Inl (AssignmentBudgetDuplicate (ro_role b))
      else budgets_by_role (m(ro_role b \<mapsto> b)) bs)"

fun canonical_assignments ::
    "(Role \<rightharpoonup> Assignment) \<Rightarrow> (Role \<rightharpoonup> RoleBudget) \<Rightarrow> Role list \<Rightarrow>
     assignments_error + (Assignment list \<times> RoleTask list)" where
  "canonical_assignments byRole budgets [] = Inr ([], [])"
| "canonical_assignments byRole budgets (r # rs) =
     (case byRole r of
        None \<Rightarrow> canonical_assignments byRole budgets rs
      | Some a \<Rightarrow>
          if (case budgets r of None \<Rightarrow> True
              | Some b \<Rightarrow> \<not> sameCoordinatorRoute (as_primaryRoute a) (rb_route (ro_primary b)))
            then Inl (AssignmentMismatch r)
          else case NewRoleTask r (as_required a) (route_providerInstance (as_primaryRoute a)) of
            Inl e \<Rightarrow> Inl (AssignmentRole e)
          | Inr task \<Rightarrow>
              (case canonical_assignments byRole budgets rs of
                 Inl e \<Rightarrow> Inl e
               | Inr (as, ts) \<Rightarrow> Inr (a # as, task # ts)))"

definition coordinatorAssignments ::
    "Assignment list \<Rightarrow> RunBudgetReceipt \<Rightarrow> bool \<Rightarrow> assignments_error + (Assignment list \<times> RoleTask list)" where
  "coordinatorAssignments as receipt allowSubset =
     (case assignments_by_role Map.empty as of
        Inl e \<Rightarrow> Inl e
      | Inr byRole \<Rightarrow>
          let budgets = rc_roles receipt
          in if length as > length budgets \<or> \<not> allowSubset \<and> length as \<noteq> length budgets
               then Inl AssignmentCount
             else case budgets_by_role Map.empty budgets of
               Inl e \<Rightarrow> Inl e
             | Inr budgetByRole \<Rightarrow>
                 (case canonical_assignments byRole budgetByRole FixedRoleOrder of
                    Inl e \<Rightarrow> Inl e
                  | Inr (canonical, tasks) \<Rightarrow>
                      if length canonical \<noteq> length as \<or>
                         \<not> allowSubset \<and> length canonical \<noteq> length budgets
                      then Inl AssignmentCount
                      else Inr (canonical, tasks)))"

definition sameCoordinatorRoleTasks :: "RoleTask list \<Rightarrow> RoleTask list \<Rightarrow> bool" where
  "sameCoordinatorRoleTasks ls rs \<longleftrightarrow>
     list_all2 (\<lambda>l r. task_role l = task_role r \<and> task_required l = task_required r \<and>
       task_state l = task_state r) ls rs"

section \<open>The end of the run\<close>

definition finishRun :: "unit coordination" where
  "finishRun =
     seq (read (\<lambda>x. x)) (\<lambda>x.
       if ex_cancelled x then move_run RunCancelled
       else if AttemptCondition_Valid (ex_stopCondition x) \<and>
               ex_stopCondition x \<noteq> AttemptConditionValidReview
         then move_run RunFailed
       else if list_all (\<lambda>t. task_state t = RoleTaskSucceeded) (run_roles (ex_run x))
         then move_run RunCompleted
       else move_run RunFailed)"

section \<open>The result\<close>

record CoordinatorInvocationSummary =
  is_sequence :: uint64
  is_purpose :: InvocationPurpose
  is_state :: InvocationState
  is_runtimeArtifactsExpected :: bool

record CoordinatorAttemptSummary =
  su_id :: AttemptID
  su_route :: ProviderRoute
  su_state :: AttemptState
  su_failureClass :: FailureClass
  su_reasonCode :: string
  su_timeoutFacts :: "ProviderTimeoutFacts option"
  su_parseState :: ParseState
  su_validationState :: ValidationState
  su_invocations :: "CoordinatorInvocationSummary list"

record CoordinatorRoleSummary =
  rs_role :: Role
  rs_required :: bool
  rs_state :: RoleTaskState
  rs_valid :: bool
  rs_degraded :: bool
  rs_repaired :: bool
  rs_providerUnusable :: bool
  rs_failureClass :: FailureClass
  rs_reasonCode :: string
  rs_attempts :: "CoordinatorAttemptSummary list"
  rs_reportsOnly :: bool
  rs_reportMarkdown :: string
  rs_outputTransport :: ProviderOutputTransport

record CoordinatorResult =
  cr_sourceIdentitySHA256 :: string
  cr_sessionID :: SessionID
  cr_runID :: RunID
  cr_runState :: RunState
  cr_findings :: "Finding list"
  cr_axes :: OutcomeAxes
  cr_evidence :: "VerifiedFindingEvidence list"
  cr_roleSummaries :: "CoordinatorRoleSummary list"
  cr_trace :: "CoordinatorTraceEvent list"
  cr_providerUnusable :: bool

definition coordinatorOutputDegraded :: "ValidatedRoleOutput \<Rightarrow> bool" where
  "coordinatorOutputDegraded out =
     (if vo_reportsOnly out then False
      else if vo_completeness out = ''incomplete'' \<or> vo_limitations out \<noteq> [] then True
      else list_ex (\<lambda>f. f_evidenceState f \<noteq> EvidenceVerified) (vo_findings out))"

datatype association_error =
    AssociationCounts
  | AssociationID nat
  | AssociationNoReceipts nat
  | AssociationAmbiguous string
  | AssociationMissing string
  | AssociationReused string
  | AssociationUnused nat

fun associate :: "nat \<Rightarrow> Finding list \<Rightarrow> VerifiedFindingEvidence list \<Rightarrow> association_error option" where
  "associate i (f # fs) (g # gs) =
     (if f_id f \<noteq> final_id i \<or> ve_findingID g \<noteq> final_id i then Some (AssociationID i)
      else if ve_receipts g = [] then Some (AssociationNoReceipts i)
      else associate (Suc i) fs gs)"
| "associate i _ _ = None"

definition coordinatorEvidenceAssociations ::
    "Finding list \<Rightarrow> VerifiedFindingEvidence list \<Rightarrow>
     association_error + (Finding \<times> VerifiedFindingEvidence) list" where
  "coordinatorEvidenceAssociations fs gs =
     (if length fs \<noteq> length gs then Inl AssociationCounts
      else case associate 0 fs gs of Some e \<Rightarrow> Inl e | None \<Rightarrow> Inr (zip fs gs))"

text \<open>The positions of the associations of a finding; \<open>used\<close> holds those consumed before.\<close>

fun final_evidence ::
    "(Finding \<times> VerifiedFindingEvidence) list \<Rightarrow> nat list \<Rightarrow> Finding list \<Rightarrow>
     association_error + (nat list \<times> VerifiedFindingEvidence list)" where
  "final_evidence assocs used [] = Inr (used, [])"
| "final_evidence assocs used (f # fs) =
     (case filter (\<lambda>k. coordinatorFindingIdentityFor (fst (assocs ! k)) = coordinatorFindingIdentityFor f)
             [0..<length assocs] of
        [] \<Rightarrow> Inl (AssociationMissing (f_id f))
      | [k] \<Rightarrow>
          if k \<in> set used then Inl (AssociationReused (f_id f))
          else (case final_evidence assocs (k # used) fs of
                  Inl e \<Rightarrow> Inl e
                | Inr (us, gs) \<Rightarrow> Inr (us, (snd (assocs ! k))\<lparr>ve_findingID := f_id f\<rparr> # gs))
      | _ \<Rightarrow> Inl (AssociationAmbiguous (f_id f)))"

definition coordinatorFinalEvidence ::
    "Finding list \<Rightarrow> (Finding \<times> VerifiedFindingEvidence) list \<Rightarrow>
     association_error + VerifiedFindingEvidence list" where
  "coordinatorFinalEvidence fs assocs =
     (if length fs \<noteq> length assocs then Inl AssociationCounts
      else case final_evidence assocs [] fs of
        Inl e \<Rightarrow> Inl e
      | Inr (used, gs) \<Rightarrow>
          (case List.find (\<lambda>k. k \<notin> set used) [0..<length assocs] of
             Some k \<Rightarrow> Inl (AssociationUnused k) | None \<Rightarrow> Inr gs))"

definition coordinatorRoleState :: "Run \<Rightarrow> Role \<Rightarrow> RoleTaskState" where
  "coordinatorRoleState run role =
     (case List.find (\<lambda>t. task_role t = role) (run_roles run) of
        None \<Rightarrow> RoleTaskBlocked | Some t \<Rightarrow> task_state t)"

definition invocation_summary :: "Invocation \<Rightarrow> CoordinatorInvocationSummary" where
  "invocation_summary i =
     \<lparr>is_sequence = inv_sequence i, is_purpose = inv_purpose i, is_state = inv_state i,
      is_runtimeArtifactsExpected = inv_artifacts i\<rparr>"

definition attempt_summary :: "coordinatorAttempt \<Rightarrow> CoordinatorAttemptSummary" where
  "attempt_summary c =
     (let a = cat_attempt c; ok = (att_state a = AttemptSucceeded)
      in \<lparr>su_id = att_id a, su_route = cat_route c, su_state = att_state a,
          su_failureClass = cat_failureClass c, su_reasonCode = cat_reasonCode c,
          su_timeoutFacts = cat_timeoutFacts c,
          su_parseState = (if ok then cat_parseState c else ParseNotStarted),
          su_validationState = (if ok then cat_validationState c else ValidationNotStarted),
          su_invocations = map invocation_summary (att_invocations a)\<rparr>)"

definition coordinatorAttemptSnapshots :: "coordinatorAttempt list \<Rightarrow> CoordinatorAttemptSummary list" where
  "coordinatorAttemptSnapshots cs = map attempt_summary cs"

definition accepted_output :: "Run \<Rightarrow> Role \<Rightarrow> coordinatorRole \<Rightarrow> ValidatedRoleOutput option" where
  "accepted_output run role st =
     (if coordinatorRoleState run role = RoleTaskSucceeded then rol_output st else None)"

definition role_summary :: "Run \<Rightarrow> Role \<Rightarrow> coordinatorRole \<Rightarrow> CoordinatorRoleSummary" where
  "role_summary run role st =
     (let out = accepted_output run role st
      in \<lparr>rs_role = role, rs_required = as_required (rol_assignment st),
          rs_state = coordinatorRoleState run role, rs_valid = (out \<noteq> None),
          rs_degraded = (case out of None \<Rightarrow> False | Some v \<Rightarrow> coordinatorOutputDegraded v),
          rs_repaired = rol_repaired st, rs_providerUnusable = rol_providerUnusable st,
          rs_failureClass = rol_failureClass st, rs_reasonCode = rol_reasonCode st,
          rs_attempts = coordinatorAttemptSnapshots (rol_attempts st),
          rs_reportsOnly = (case out of None \<Rightarrow> False | Some v \<Rightarrow> vo_reportsOnly v),
          rs_reportMarkdown = (case out of None \<Rightarrow> '''' | Some v \<Rightarrow> vo_reportMarkdown v),
          rs_outputTransport =
            (case out of None \<Rightarrow> ProviderOutputTransportStdout | Some v \<Rightarrow> OutputTransport v)\<rparr>)"

definition role_result :: "CoordinatorRoleSummary \<Rightarrow> RoleResultSummary" where
  "role_result s =
     \<lparr>rr_Role = rs_role s, rr_Selected = True, rr_Required = rs_required s, rr_Valid = rs_valid s,
      rr_Degraded = rs_degraded s, rr_ReportsOnly = rs_reportsOnly s\<rparr>"

datatype snapshot_error =
    SnapshotAssociation Role association_error
  | SnapshotOrder finding_error
  | SnapshotEvidence association_error
  | SnapshotAxes Outcomes.outcome_error

fun snapshot_roles ::
    "coordinatorExecution \<Rightarrow> Role list \<Rightarrow>
     snapshot_error + ((Finding \<times> VerifiedFindingEvidence) list \<times> CoordinatorRoleSummary list)" where
  "snapshot_roles x [] = Inr ([], [])"
| "snapshot_roles x (r # rs) =
     (case ex_roles x r of
        None \<Rightarrow> snapshot_roles x rs
      | Some st \<Rightarrow>
          (case (case accepted_output (ex_run x) r st of
                   None \<Rightarrow> Inr []
                 | Some out \<Rightarrow> coordinatorEvidenceAssociations (vo_findings out) (vo_evidence out)) of
             Inl e \<Rightarrow> Inl (SnapshotAssociation r e)
           | Inr own \<Rightarrow>
               (case snapshot_roles x rs of
                  Inl e \<Rightarrow> Inl e
                | Inr (assocs, summaries) \<Rightarrow>
                    Inr (own @ assocs, role_summary (ex_run x) r st # summaries))))"

definition snapshot ::
    "world \<Rightarrow> SessionID \<Rightarrow> RunID \<Rightarrow> Severity \<Rightarrow> CIPolicy option \<Rightarrow> coordinatorExecution \<Rightarrow>
     snapshot_error + CoordinatorResult" where
  "snapshot w sessionID runID threshold policy x =
     (case snapshot_roles x FixedRoleOrder of
        Inl e \<Rightarrow> Inl e
      | Inr (assocs, summaries) \<Rightarrow>
          (case OrderAndAssignFindings (w_lower w) (map fst assocs) of
             Inl e \<Rightarrow> Inl (SnapshotOrder e)
           | Inr ordered \<Rightarrow>
               (case coordinatorFinalEvidence ordered assocs of
                  Inl e \<Rightarrow> Inl (SnapshotEvidence e)
                | Inr evidence \<Rightarrow>
                    (case ComputeOutcomeAxes (w_lower w) ordered (map role_result summaries) threshold
                            PublicationNotPublished policy of
                       Inl e \<Rightarrow> Inl (SnapshotAxes e)
                     | Inr axes \<Rightarrow>
                         Inr \<lparr>cr_sourceIdentitySHA256 = target_sourceIdentitySHA256 (run_target (ex_run x)),
                              cr_sessionID = sessionID, cr_runID = runID,
                              cr_runState = run_state (ex_run x), cr_findings = ordered,
                              cr_axes = axes, cr_evidence = evidence, cr_roleSummaries = summaries,
                              cr_trace = ex_trace x,
                              cr_providerUnusable = list_ex rs_providerUnusable summaries\<rparr>))))"

section \<open>The waves\<close>

fun start_roles :: "world \<Rightarrow> Role list \<Rightarrow> InvocationJob list coordination" where
  "start_roles w [] = give []"
| "start_roles w (r # rs) =
     seq (read (\<lambda>x. ex_roles x r)) (\<lambda>state.
       if state = None then start_roles w rs
       else seq (startPrimary w r) (\<lambda>j. seq (start_roles w rs) (\<lambda>js. give (j # js))))"

definition cancel_ended :: "world \<Rightarrow> unit coordination" where
  "cancel_ended w = seq (contextCondition w) (cancelAll w)"

definition prepare_initial :: "world \<Rightarrow> InvocationJob list \<Rightarrow> unit coordination" where
  "prepare_initial w wave =
     (case w_prepare w wave of
        Prepared \<Rightarrow> give ()
      | PrepareFailed \<Rightarrow> fail CoPrepare
      | PrepareContextEnded \<Rightarrow> seq (cancel_ended w) (\<lambda>_. fail CoPrepare))"

text \<open>The loop over the waves, with a bound on their number.\<close>

fun run_waves :: "world \<Rightarrow> nat \<Rightarrow> InvocationJob list \<Rightarrow> unit coordination" where
  "run_waves w n [] = give ()"
| "run_waves w 0 (j # js) = fail CoFuel"
| "run_waves w (Suc n) (j # js) =
     seq (runEnded w) (\<lambda>ended.
       if ended \<noteq> None then cancel_ended w
       else seq (dispatchWave w (j # js)) (\<lambda>dispatched.
         if dispatched = [] then cancel_ended w
         else seq (collectWave w dispatched) (\<lambda>collected.
           seq (commitWave w dispatched collected) (\<lambda>next_jobs.
           seq (runEnded w) (\<lambda>ended.
           seq (if ended \<noteq> None then cancel_ended w else give ()) (\<lambda>_.
           seq (read ex_stopping) (\<lambda>stopping.
             if stopping then give () else run_waves w n next_jobs)))))))"

definition record_global :: "world \<Rightarrow> CoordinatorEventKind \<Rightarrow> RunState \<Rightarrow> unit coordination" where
  "record_global w kind = record_event w kind no_role None None None ''''"

text \<open>From the start of the run to its terminal event; \<open>n\<close> bounds the waves.\<close>

definition coordinate :: "world \<Rightarrow> nat \<Rightarrow> unit coordination" where
  "coordinate w n =
     seq (record_global w CoordinatorEventRunStarted no_run_state) (\<lambda>_.
     seq (start_roles w FixedRoleOrder) (\<lambda>wave.
     seq (prepare_initial w wave) (\<lambda>_.
     seq (run_waves w n wave) (\<lambda>_.
     seq (runEnded w) (\<lambda>ended.
     seq (if ended \<noteq> None then cancel_ended w else give ()) (\<lambda>_.
     seq (read allRolesTerminal) (\<lambda>over.
     seq (if over then give () else cancelAll w AttemptConditionInternalInvariant) (\<lambda>_.
     seq (runEnded w) (\<lambda>ended.
     seq (if ended \<noteq> None then cancel_ended w else give ()) (\<lambda>_.
     seq (record_global w CoordinatorEventWorkersCloseAuthorized no_run_state) (\<lambda>_.
     seq finishRun (\<lambda>_.
     seq (read (\<lambda>x. run_state (ex_run x))) (\<lambda>state.
       record_global w CoordinatorEventRunTerminal state)))))))))))))"

text \<open>
  After an error the run is ended as far as possible: each step is tried, whatever became of the
  steps before it, and the errors are collected.
\<close>

definition attempt_step :: "unit coordination \<Rightarrow> coordinator_error list coordination" where
  "attempt_step m x = (case m x of (Inl e, y) \<Rightarrow> (Inr [e], y) | (Inr _, y) \<Rightarrow> (Inr [], y))"

definition when_state :: "(coordinatorExecution \<Rightarrow> bool) \<Rightarrow> unit coordination \<Rightarrow> unit coordination" where
  "when_state p m = seq (read p) (\<lambda>b. if b then m else give ())"

definition abort :: "world \<Rightarrow> coordinator_error list coordination" where
  "abort w =
     for_collect attempt_step
       [when_state (\<lambda>x. \<not> ex_runStarted x)
          (record_global w CoordinatorEventRunStarted no_run_state),
        when_state (\<lambda>x. \<not> allRolesTerminal x) (cancelAll w AttemptConditionInternalInvariant),
        when_state (\<lambda>x. \<not> ex_workersCloseAuthorized x)
          (record_global w CoordinatorEventWorkersCloseAuthorized no_run_state),
        when_state (\<lambda>x. \<not> coordinatorTerminalRunState (run_state (ex_run x))) finishRun,
        when_state (\<lambda>x. \<not> ex_runTerminalRecorded x \<and> coordinatorTerminalRunState (run_state (ex_run x)))
          (seq (read (\<lambda>x. run_state (ex_run x))) (record_global w CoordinatorEventRunTerminal))]"

section \<open>An execution\<close>

definition new_execution :: "bool \<Rightarrow> Run \<Rightarrow> string list \<Rightarrow> Assignment list \<Rightarrow> coordinatorExecution" where
  "new_execution extractionAdmitted run used as =
     \<lparr>ex_extractionAdmitted = extractionAdmitted, ex_run = run, ex_used = used,
      ex_roles = map_of (map (\<lambda>a. (as_role a,
        \<lparr>rol_assignment = a, rol_attempts = [], rol_currentAttempt = -1, rol_output = None,
         rol_repaired = False, rol_providerUnusable = False,
         rol_failureClass = FailureClassOther '''', rol_reasonCode = ''''\<rparr>)) as),
      ex_trace = [], ex_nextEvent = 0, ex_nextJob = 0, ex_stopping = False, ex_cancelled = False,
      ex_runStarted = False, ex_workersCloseAuthorized = False, ex_runTerminalRecorded = False,
      ex_terminalRoles = [], ex_dispatchStopRecorded = False, ex_stopCondition = no_condition,
      ex_dispatchStopCondition = no_condition, ex_looks = 2, ex_issued = 0\<rparr>"

datatype admission_failure =
    AdmissionDependencies
  | AdmissionThreshold Severity
  | AdmissionRunID id_error
  | AdmissionSessionID id_error
  | AdmissionNotPending
  | AdmissionRootLineage
  | AdmissionChildLineage
  | AdmissionTarget target_error
  | AdmissionAssignments assignments_error
  | AdmissionDeadline
  | AdmissionRoles
  | AdmissionStart run_error

definition validDependencies :: "Coordinator \<Rightarrow> bool" where
  "validDependencies co \<longleftrightarrow>
     1 \<le> co_maxActiveLanes co \<and> validCoordinatorReceipt (co_receipt co) \<and>
     validCoordinatorEvidencePolicy (co_policy co)"

definition check_supplied :: "Run \<Rightarrow> admission_failure option" where
  "check_supplied run =
     (case ParseRunID (RunID_String (run_id run)) of
        Inl e \<Rightarrow> Some (AdmissionRunID e)
      | Inr _ \<Rightarrow>
          (case ParseSessionID (SessionID_String (run_sessionID run)) of
             Inl e \<Rightarrow> Some (AdmissionSessionID e)
           | Inr _ \<Rightarrow>
               if \<not> RunType_Valid (run_runType run) \<or> run_state run \<noteq> RunPending
                 then Some AdmissionNotPending
               else if run_runType run = RunTypeReview
                 then (if run_hasParent run \<or> run_hasSource run then Some AdmissionRootLineage else None)
               else if \<not> run_hasParent run \<or> \<not> run_hasSource run then Some AdmissionChildLineage
               else None))"

text \<open>
  \<open>ExecuteRun\<close> up to the state in which the execution begins: the run is running, and every
  assigned role has its state.
\<close>

definition admit_run ::
    "world \<Rightarrow> bool \<Rightarrow> Run \<Rightarrow> Assignment list \<Rightarrow> Severity \<Rightarrow> admission_failure + coordinatorExecution" where
  "admit_run w extractionAdmitted run as threshold =
     (if \<not> validDependencies (w_coordinator w) then Inl AdmissionDependencies
      else if threshold \<noteq> SeverityOther '''' \<and> \<not> Severity_Valid threshold
        then Inl (AdmissionThreshold threshold)
      else case check_supplied run of Some e \<Rightarrow> Inl e
      | None \<Rightarrow>
      (case canonicalCoordinatorTarget (run_target run) of Inl e \<Rightarrow> Inl (AdmissionTarget e)
      | Inr _ \<Rightarrow>
      (case coordinatorAssignments as (co_receipt (w_coordinator w)) (run_runType run \<noteq> RunTypeReview) of
         Inl e \<Rightarrow> Inl (AdmissionAssignments e)
       | Inr (canonical, tasks) \<Rightarrow>
           if w_runEnded w 0 \<noteq> None then Inl AdmissionDeadline
           else if \<not> sameCoordinatorRoleTasks (run_roles run) tasks then Inl AdmissionRoles
           else if w_runEnded w 1 \<noteq> None then Inl AdmissionDeadline
           else case Run_Transition (Some run) RunRunning of
             Inl e \<Rightarrow> Inl (AdmissionStart e)
           | Inr running \<Rightarrow> Inr (new_execution extractionAdmitted running [] canonical))))"

text \<open>An error of the coordination, or of the snapshot at its end, runs the abort.\<close>

datatype execution_error = ExecutionFailed coordinator_error | ResultFailed snapshot_error

definition result_errors :: "snapshot_error + CoordinatorResult \<Rightarrow> execution_error list" where
  "result_errors snap = (case snap of Inl e \<Rightarrow> [ResultFailed e] | Inr _ \<Rightarrow> [])"

record execution_end =
  ee_errors :: "execution_error list"
  ee_execution :: coordinatorExecution
  ee_result :: "snapshot_error + CoordinatorResult"

definition ExecuteRun ::
    "world \<Rightarrow> nat \<Rightarrow> bool \<Rightarrow> Run \<Rightarrow> Assignment list \<Rightarrow> Severity \<Rightarrow> CIPolicy option \<Rightarrow>
     admission_failure + execution_end" where
  "ExecuteRun w n extractionAdmitted run as threshold policy =
     (case admit_run w extractionAdmitted run as threshold of
        Inl e \<Rightarrow> Inl e
      | Inr x \<Rightarrow>
          (case coordinate w n x of
             (outcome, y) \<Rightarrow>
               let snap = snapshot w (run_sessionID run) (run_id run) threshold policy
               in case (outcome, snap y) of
                    (Inr _, Inr res) \<Rightarrow>
                      Inr \<lparr>ee_errors = [], ee_execution = y, ee_result = Inr res\<rparr>
                  | _ \<Rightarrow>
                      (case abort w y of
                         (aborted, z) \<Rightarrow>
                           Inr \<lparr>ee_errors =
                                  (case outcome of Inl e \<Rightarrow> [ExecutionFailed e] | Inr _ \<Rightarrow> result_errors (snap y)) @
                                  map ExecutionFailed (case aborted of Inl f \<Rightarrow> [f] | Inr es \<Rightarrow> es) @
                                  result_errors (snap z),
                                ee_execution = z, ee_result = snap z\<rparr>)))"

end
