(* ===== verification/Coordinator_Keeps.thy ===== *)
theory Coordinator_Keeps
  imports Coordinator_Run
begin

text \<open>
  What every operation of the coordinator keeps. The contract \<open>kept\<close> names the few places at which an
  execution is changed: events are recorded, the run and the attempts are moved by the domain's
  mutators, an attempt is added, an accepted output is stored. A property that these places keep, under
  a condition on the outputs that are stored, is kept by the whole coordination.
\<close>

section \<open>Attempts\<close>

lemma attempt_moves_inv:
  "attempt_inv a \<Longrightarrow> Attempt_Transition (Some a) n = Inr b \<Longrightarrow> attempt_inv b"
  "attempt_inv a \<Longrightarrow> TransitionInvocation (Some a) q s = Inr b \<Longrightarrow> attempt_inv b"
  "attempt_inv a \<Longrightarrow> MarkInvocationRuntimeArtifactsExpected (Some a) q = Inr b \<Longrightarrow> attempt_inv b"
  by (auto simp del: Attempt_Transition.simps TransitionInvocation.simps
      MarkInvocationRuntimeArtifactsExpected.simps
      intro: Attempt_Transition_inv TransitionInvocation_inv MarkArtifacts_inv)

lemma attempt_appends_inv:
  assumes "attempt_inv a" "NewInvocation q p = Inr i"
  shows "AppendRetryInvocation (Some a) i = Inr b \<Longrightarrow> attempt_inv b"
    "AppendExtractInvocation (Some a) i = Inr b \<Longrightarrow> attempt_inv b"
    "AppendRepairInvocation (Some a) i = Inr b \<Longrightarrow> attempt_inv b"
proof -
  have fresh: "\<not> inv_artifacts i" using assms(2) by (auto simp: NewInvocation_def split: if_splits)
  show "AppendRetryInvocation (Some a) i = Inr b \<Longrightarrow> attempt_inv b"
    "AppendExtractInvocation (Some a) i = Inr b \<Longrightarrow> attempt_inv b"
    "AppendRepairInvocation (Some a) i = Inr b \<Longrightarrow> attempt_inv b"
    using fresh attempt_apply_inv [OF assms(1), of "OpAppendRetry i" b]
      attempt_apply_inv [OF assms(1), of "OpAppendExtract i" b]
      attempt_apply_inv [OF assms(1), of "OpAppendRepair i" b]
    by (simp_all del: AppendRetryInvocation.simps AppendExtractInvocation.simps AppendRepairInvocation.simps)
qed

lemma fresh_attempt_inv:
  assumes "NewInvocation 1 InvocationInitial = Inr i" "NewAttempt attemptID provider i = Inr a"
    "Attempt_Transition (Some a) n = Inr b"
  shows "attempt_inv b"
proof -
  have "\<not> inv_artifacts i" using assms(1) by (auto simp: NewInvocation_def split: if_splits)
  with assms(2) have "attempt_reachable a" by (rule attempt_reachable.new)
  then show ?thesis using attempt_reachable_inv Attempt_Transition_inv assms(3) by blast
qed

section \<open>Operations in sequence\<close>

text \<open>An operation with its error or its value at hand, or with what is known of its value.\<close>

lemma keeps_result_then:
  "(\<And>y. r = Inr y \<Longrightarrow> keeps I (f y)) \<Longrightarrow> keeps I (seq (result k r) f)"
  by (cases r) (simp_all add: result_def)

lemma keeps_after:
  assumes "triple I m (\<lambda>v s. I s \<and> Q v) (\<lambda>_. I)" "\<And>v. Q v \<Longrightarrow> keeps I (f v)"
  shows "keeps I (seq m f)"
  unfolding keeps_triple
proof (rule triple_seq [OF assms(1)])
  fix v
  show "triple (\<lambda>s. I s \<and> Q v) (f v) (\<lambda>_. I) (\<lambda>_. I)"
    using assms(2) [of v] by (cases "Q v") (simp_all add: keeps_triple triple_def)
qed

text \<open>The condition on which an outcome is committed is that of a review only if it was one.\<close>

definition carries :: "(ValidatedRoleOutput \<Rightarrow> bool) \<Rightarrow> AttemptOutcome \<Rightarrow> AttemptCondition \<Rightarrow> bool" where
  "carries P out c \<longleftrightarrow>
     (\<forall>v. ao_output out = Some v \<longrightarrow> P v) \<and> (c = AttemptConditionValidReview \<longrightarrow> ao_output out \<noteq> None)"

lemma normalized_carries:
  assumes "normalizedOutcome w t j out = Inr r" "\<And>v. ao_output r = Some v \<Longrightarrow> P v"
  shows "carries P r (coordinatorOutcomeCondition r)"
proof -
  have new: "ao_condition r' \<noteq> Some AttemptConditionValidReview"
    if "NewAttemptOutcome ul letter j None (Some c) = Inr r'" for ul letter c r'
    using that by (auto simp: NewAttemptOutcome_def no_outcome_def split: option.splits if_splits)
  have "ao_output r \<noteq> None \<or> ao_condition r \<noteq> Some AttemptConditionValidReview"
    using assms(1) new
    by (auto simp: normalizedOutcome_def validFor_def NewAttemptOutcome_def no_outcome_def
        split: option.splits if_splits sum.splits)
  then show ?thesis using assms(2) by (auto simp: carries_def coordinatorOutcomeCondition_def split: if_splits option.splits)
qed

lemma condition_kept:
  "triple (\<lambda>x. I x) (conditionForTransition w c) (\<lambda>(k, cancelled, observed) x. I x \<and>
     (k = AttemptConditionValidReview \<longrightarrow> c = AttemptConditionValidReview)) (\<lambda>_. I)"
  if "keeps I (callerEnded w)" "keeps I (runEnded w)" for I
proof -
  have reduced: "k = AttemptConditionValidReview \<longrightarrow> c = AttemptConditionValidReview"
    if "ReduceAttemptConditions [c, AttemptConditionCancelled] = Inr k" for k
    using ReduceAttemptConditions_Inr [OF that] by (auto simp: Cons_eq_append_conv)
  show ?thesis
    unfolding conditionForTransition_def
    apply (rule triple_seq [where R = "\<lambda>_. I"])
    using that(1) apply (simp add: keeps_triple)
    apply (rule triple_if)
    apply (rule triple_seq [where R = "\<lambda>k x. I x \<and> (k = AttemptConditionValidReview \<longrightarrow> c = AttemptConditionValidReview)"])
    using reduced apply (auto split: sum.split) [1]
    apply simp
    apply (rule triple_seq [where R = "\<lambda>_. I"])
    using that(2) apply (simp add: keeps_triple)
    apply auto
    done
qed

text \<open>The attempt of a job is only looked up.\<close>

lemma attempt_looked_up: "keeps I (attemptFor w j)"
  unfolding attemptFor_def
  by (intro keeps_seq keeps_basic) (auto intro!: keeps_seq keeps_basic split: option.split)

section \<open>The contract\<close>

locale kept =
  fixes w :: world and I :: "coordinatorExecution \<Rightarrow> bool" and P :: "Role \<Rightarrow> ValidatedRoleOutput \<Rightarrow> bool"
  assumes record_kept: "keeps I (record_event w kind role attempt purpose condition reason runState)"
    and run_kept: "keeps I (move_run n)"
    and role_kept: "keeps I (move_role role m)"
    and books_kept: "I x \<Longrightarrow> ex_run y = ex_run x \<Longrightarrow> ex_roles y = ex_roles x \<Longrightarrow> ex_trace y = ex_trace x \<Longrightarrow>
      ex_nextEvent y = ex_nextEvent x \<Longrightarrow> ex_runStarted y = ex_runStarted x \<Longrightarrow>
      ex_workersCloseAuthorized y = ex_workersCloseAuthorized x \<Longrightarrow>
      ex_runTerminalRecorded y = ex_runTerminalRecorded x \<Longrightarrow> ex_terminalRoles y = ex_terminalRoles x \<Longrightarrow> I y"
    and attempt_kept: "(\<And>a b. attempt_inv a \<Longrightarrow> mutator (Some a) = Inr b \<Longrightarrow> attempt_inv b) \<Longrightarrow>
      keeps I (move_attempt role i mutator)"
    and attempt_fields_kept: "(\<And>c. cat_attempt (f c) = cat_attempt c \<and> cat_acceptedOutput (f c) = cat_acceptedOutput c) \<Longrightarrow>
      keeps I (change_attempt role i f)"
    and role_fields_kept: "(\<And>st. rol_attempts (g st) = rol_attempts st \<and> rol_output (g st) = rol_output st) \<Longrightarrow>
      keeps I (change_role role g)"
    and fresh_kept: "attempt_inv a \<Longrightarrow> keeps I (change_role role (\<lambda>st. st\<lparr>rol_attempts := rol_attempts st @ [fresh_attempt route a],
      rol_currentAttempt := int (length (rol_attempts st))\<rparr>))"
    and output_kept: "P role v \<Longrightarrow> keeps I (change_role role (\<lambda>st. st\<lparr>rol_output := Some v, rol_repaired := b\<rparr>))"
    and accepted_kept: "P role v \<Longrightarrow>
      keeps I (change_attempt role i (\<lambda>c. c\<lparr>cat_extractUsed := True, cat_acceptedOutput := Some v\<rparr>))"
    and accepted_held: "(\<And>i accepted. (\<And>v. accepted = Some v \<Longrightarrow> P (ij_role j) v) \<Longrightarrow> keeps I (h i accepted)) \<Longrightarrow>
      keeps I (seq (attemptFor w j) (\<lambda>i. seq (read (\<lambda>x. cat_acceptedOutput (attempt_at (ij_role j) i x)))
        (\<lambda>accepted. h i accepted :: InvocationJob list coordination)))"
    and target_held: "(\<And>t. (\<And>j out r v. normalizedOutcome w t j out = Inr r \<Longrightarrow> ao_output r = Some v \<Longrightarrow> P (ij_role j) v) \<Longrightarrow>
        keeps I (k t)) \<Longrightarrow>
      keeps I (seq (read (\<lambda>x. run_target (ex_run x))) (\<lambda>t. k t :: InvocationJob list coordination))"
    and clone_sound: "P role v \<Longrightarrow> P role (ValidatedRoleOutput_clone v)"
begin

lemma books:
  assumes "\<And>x. ex_run (c x) = ex_run x \<and> ex_roles (c x) = ex_roles x \<and> ex_trace (c x) = ex_trace x \<and>
    ex_nextEvent (c x) = ex_nextEvent x \<and> ex_runStarted (c x) = ex_runStarted x \<and>
    ex_workersCloseAuthorized (c x) = ex_workersCloseAuthorized x \<and>
    ex_runTerminalRecorded (c x) = ex_runTerminalRecorded x \<and> ex_terminalRoles (c x) = ex_terminalRoles x"
  shows "keeps I (change c)"
  by (rule keeps_change, rule books_kept) (use assms in simp_all)

lemma looks:
  "keeps I (callerEnded w)" "keeps I (runEnded w)" "keeps I (admitted w)" "keeps I (newAttemptID w)"
  by (auto simp: keeps_def callerEnded_def runEnded_def admitted_def newAttemptID_def reserve_def Let_def
      effect_defs split: option.splits sum.splits elim!: books_kept)

lemmas basic = keeps_seq keeps_if keeps_for_each keeps_basic record_kept run_kept role_kept keeps_result_then looks

lemma newJob: "keeps I (newJob w role i purpose)"
  unfolding newJob_def by (intro basic books) simp_all

lemma startPrimary: "keeps I (startPrimary w role)"
proof -
  have "keeps I (startAttempt w role route event)" for route event
    unfolding startAttempt_def
    by (intro keeps_seq keeps_result_then looks fresh_kept keeps_basic role_kept record_kept newJob)
      (rule fresh_attempt_inv)
  then show ?thesis unfolding startPrimary_def by (auto intro!: basic split: option.split)
qed

lemma record_attempt: "keeps I (record_attempt w kind role i purpose condition reason)"
  unfolding record_attempt_def by (intro basic)

lemma attempt_moves:
  "keeps I (move_attempt role i (\<lambda>a. Attempt_Transition a n))"
  "keeps I (move_attempt role i (\<lambda>a. TransitionInvocation a q s))"
  "keeps I (move_attempt role i (\<lambda>a. MarkInvocationRuntimeArtifactsExpected a q))"
  by (rule attempt_kept, erule (1) attempt_moves_inv)+

lemma attempt_appends:
  assumes "NewInvocation q p = Inr invocation"
  shows "keeps I (move_attempt role i (\<lambda>a. AppendRetryInvocation a invocation))"
    "keeps I (move_attempt role i (\<lambda>a. AppendExtractInvocation a invocation))"
    "keeps I (move_attempt role i (\<lambda>a. AppendRepairInvocation a invocation))"
  by (rule attempt_kept, erule (1) attempt_appends_inv [OF _ assms])+

lemma dispatch: "keeps I (dispatch_jobs w dispatched js)"
proof (induction js arbitrary: dispatched)
  case (Cons j js)
  then show ?case
    by (auto intro!: keeps_seq keeps_if keeps_basic looks attempt_looked_up attempt_moves record_attempt)
qed simp

lemma collect: "keeps I (collect_results w wave stopping outcomes results)"
proof (induction results arbitrary: stopping outcomes)
  case (Cons r results)
  then show ?case
    by (cases r) (auto intro!: keeps_seq keeps_basic simp: Let_def split: option.split simp del: fun_upd_apply)
qed simp

lemma attempt_ends:
  "keeps I (transitionFailedExtractionInvocation role i sequence c)"
  "keeps I (transitionFailedInvocation role i purpose c)"
  "keeps I (terminalizeAttempt role i c)" "keeps I (stopCoordinatorAttempt role i c)"
  "keeps I (mark_artifacts role i j out)"
  unfolding transitionFailedExtractionInvocation_def transitionFailedInvocation_def terminalizeAttempt_def
    stopCoordinatorAttempt_def mark_artifacts_def Let_def
  by (intro keeps_seq keeps_if keeps_basic attempt_moves)+

lemma accept: "P role v \<Longrightarrow> keeps I (accept_output role i v)"
  unfolding accept_output_def
  by (intro keeps_seq role_kept output_kept clone_sound attempt_fields_kept) simp_all

lemma extraction_kept:
  assumes "carries (P (ij_role j)) out c"
  shows "keeps I (commitExtractionOutcome w j out c)"
proof -
  have clones: "P (ij_role j) (ValidatedRoleOutput_clone v)" if "ao_output out = Some v" for v
    using assms that clone_sound by (simp add: carries_def)
  have rest: "keeps I (seq (terminalizeAttempt role i k) (\<lambda>_. seq (accept_output role i v) (\<lambda>_.
      seq (record_attempt w kind role i purpose condition reason) (\<lambda>_. give []))))" if "P role v"
    for role i k v kind purpose condition reason
    by (intro keeps_seq attempt_ends accept that record_attempt keeps_basic)
  have kept: "keeps I (seq (case (ao_output out, c = AttemptConditionValidReview) of
        (Some extracted, True) \<Rightarrow>
          seq (move_attempt role i (\<lambda>a. TransitionInvocation a q InvocationSucceeded))
            (\<lambda>_. give (ValidatedRoleOutput_clone extracted))
      | _ \<Rightarrow> seq (transitionFailedExtractionInvocation role i q c) (\<lambda>_. give accepted))
      (\<lambda>output. seq (terminalizeAttempt role i k) (\<lambda>_. seq (accept_output role i output) (\<lambda>_.
        seq (record_attempt w kind role i purpose condition reason) (\<lambda>_. give [])))))" if "P role accepted" "role = ij_role j"
    for role i q accepted k kind purpose condition reason
    by (auto intro!: keeps_seq attempt_moves attempt_ends rest that(1) clones [folded that(2)] simp del: seq_simps(4)
        split: option.split bool.split)
  show ?thesis
    unfolding commitExtractionOutcome_def Let_def
  proof (rule accepted_held)
    fix i and accepted :: "ValidatedRoleOutput option"
    assume "\<And>v. accepted = Some v \<Longrightarrow> P (ij_role j) v"
    then show "keeps I (case accepted of
        None \<Rightarrow> fail CoNoAcceptedOutput
      | Some report \<Rightarrow>
          seq (record_attempt w CoordinatorEventInvocationCommitted (ij_role j) i (Some (ij_purpose j)) (Some c) '''') (\<lambda>_.
          seq (mark_artifacts (ij_role j) i j out) (\<lambda>_.
          seq (case (ao_output out, c = AttemptConditionValidReview) of
                 (Some extracted, True) \<Rightarrow>
                   seq (move_attempt (ij_role j) i (\<lambda>a. TransitionInvocation a
                          (invocationSequence (ij_purpose j)) InvocationSucceeded)) (\<lambda>_.
                     give (ValidatedRoleOutput_clone extracted))
               | _ \<Rightarrow>
                   seq (transitionFailedExtractionInvocation (ij_role j) i
                          (invocationSequence (ij_purpose j)) c) (\<lambda>_.
                     give report)) (\<lambda>output.
          seq (terminalizeAttempt (ij_role j) i AttemptConditionValidReview) (\<lambda>_.
          seq (accept_output (ij_role j) i output) (\<lambda>_.
          seq (record_attempt w CoordinatorEventRoleTerminal (ij_role j) i None
                 (Some AttemptConditionValidReview) (AttemptCondition_string AttemptConditionValidReview)) (\<lambda>_.
            give [])))))))"
      by (cases accepted) (simp_all only: option.case keeps_basic, intro keeps_seq [OF record_attempt] keeps_seq [OF attempt_ends(5)] kept, blast, rule refl)
  qed
qed


text \<open>A decision succeeds only for a valid review, so that there is an output to store.\<close>

lemma decided_output:
  assumes "DecideTransition inp = Inr d" "carries (P role) out (ti_Condition inp)"
    "td_terminalProjection d = TerminalProjectionSucceeded"
  shows "P role (outcome_output out)"
proof -
  from DecideTransition_sound [OF assms(1)] obtain row where
    "lookupTransitionPolicy (effective_condition inp) = Some row"
    "decision_sound row (ti_RepairUsed inp) (ti_RetryUsed inp) d" by blast
  with assms(3) lookup_Some have "effective_condition inp = AttemptConditionValidReview"
    unfolding decision_sound_def by metis
  then have "ti_Condition inp = AttemptConditionValidReview"
    by (simp add: effective_condition_def split: if_splits)
  with assms(2) clone_sound show ?thesis by (auto simp: carries_def outcome_output_def split: option.splits)
qed

lemma queue: "keeps I (queue_followup w role i purpose kind reason)"
  unfolding queue_followup_def by (intro keeps_seq newJob record_attempt keeps_basic)

lemma scheduleExtraction:
  assumes "td_terminalProjection d = TerminalProjectionSucceeded \<Longrightarrow> P (ij_role j) out"
  shows "keeps I (scheduleExtraction w j i out d suppressFollowup)"
proof -
  have stored: "P (ij_role j) (ValidatedRoleOutput_clone out)" if "td_terminalProjection d = TerminalProjectionSucceeded"
    using assms [OF that] by (rule clone_sound)
  show ?thesis
    unfolding scheduleExtraction_def Let_def
    by (auto intro!: keeps_seq keeps_basic keeps_result_then attempt_appends accepted_kept stored queue
        simp del: AppendExtractInvocation.simps)
qed

lemma role_marks:
  "keeps I (change_role role (\<lambda>st. st\<lparr>rol_providerUnusable := u\<rparr>))"
  "keeps I (change_role role (\<lambda>st. st\<lparr>rol_failureClass := k, rol_reasonCode := r\<rparr>))"
  by (rule role_fields_kept, simp)+

lemma attempt_marks:
  "keeps I (change_attempt role i (\<lambda>c. c\<lparr>cat_retryUsed := u\<rparr>))"
  "keeps I (change_attempt role i (\<lambda>c. c\<lparr>cat_repairUsed := u\<rparr>))"
  "keeps I (change_attempt role i (\<lambda>c. c\<lparr>cat_timeoutFacts := f\<rparr>))"
  "keeps I (change_attempt role i (\<lambda>c. c\<lparr>cat_failureClass := k, cat_reasonCode := r\<rparr>))"
  by (rule attempt_fields_kept, simp)+

lemma project:
  assumes "td_terminalProjection d = TerminalProjectionSucceeded \<Longrightarrow> P role out"
  shows "keeps I (project_role role i out d)"
  unfolding project_role_def
  by (auto intro!: keeps_seq keeps_basic accept assms role_kept role_marks split: TerminalProjection.split)

lemma end_role:
  assumes "td_terminalProjection d = TerminalProjectionSucceeded \<Longrightarrow> P (ij_role j) out"
  shows "keeps I (end_role w j i out c d)"
  unfolding end_role_def Let_def
  by (intro keeps_seq keeps_if attempt_ends keeps_basic attempt_marks project assms record_attempt)

lemma follow:
  assumes "td_terminalProjection d = TerminalProjectionSucceeded \<Longrightarrow> P (ij_role j) (outcome_output out)"
  shows "keeps I (follow_decision w j i out c suppressFollowup d)"
  unfolding follow_decision_def Let_def
  by (auto intro!: keeps_seq keeps_if keeps_basic keeps_result_then attempt_moves attempt_appends role_marks
      attempt_marks queue attempt_ends scheduleExtraction end_role assms split: option.split
      simp del: AppendRetryInvocation.simps AppendRepairInvocation.simps)

lemma outcome_kept:
  assumes "carries (P (ij_role j)) out c"
  shows "keeps I (commitOutcome w j out c cancelled suppressFollowup)"
proof -
  have decided: "keeps I (seq (result CoPolicy (DecideTransition inp))
      (\<lambda>d. follow_decision w j i out c suppressFollowup d))" if "ti_Condition inp = c" for inp :: TransitionInput and i
  proof (rule keeps_result_then, rule follow)
    fix d
    assume "DecideTransition inp = Inr d" "td_terminalProjection d = TerminalProjectionSucceeded"
    with assms that show "P (ij_role j) (outcome_output out)" using decided_output by blast
  qed
  show ?thesis
    unfolding commitOutcome_def Let_def
    by (intro keeps_if keeps_seq extraction_kept [OF assms] attempt_looked_up record_attempt attempt_ends
        attempt_moves keeps_basic decided) (auto intro!: attempt_marks split: option.split)
qed

section \<open>Stopping\<close>

lemma contexts: "keeps I (contextConditions w)" "keeps I (contextCondition w)"
  unfolding contextConditions_def contextCondition_def by (intro basic)+

lemma requestStop: "keeps I (requestDispatchStop w c)"
  unfolding requestDispatchStop_def Let_def
  by (auto intro!: keeps_seq keeps_basic record_kept books)

lemma stop_role: "keeps I (stop_role w c role)"
  unfolding stop_role_def Let_def
  by (auto intro!: keeps_seq keeps_if keeps_basic attempt_ends attempt_marks role_kept role_marks record_kept
      split: option.split)

lemma cancelAll: "keeps I (cancelAll w c)"
  unfolding cancelAll_def
  by (intro keeps_seq keeps_if keeps_basic books requestStop contexts keeps_for_each stop_role) simp_all

lemma cancel_ended: "keeps I (cancel_ended w)"
  unfolding cancel_ended_def by (intro keeps_seq contexts cancelAll)

section \<open>Waves\<close>

definition fit :: "(uint64 \<rightharpoonup> AttemptOutcome) \<Rightarrow> InvocationJob \<Rightarrow> bool" where
  "fit outcomes j \<longleftrightarrow>
     carries (P (ij_role j)) (outcome_of outcomes j) (coordinatorOutcomeCondition (outcome_of outcomes j))"

lemma commit_trailer:
  assumes "fit outcomes j"
  shows "keeps I (commit_trailer w outcomes j)"
  unfolding commit_trailer_def by (intro keeps_seq outcome_kept assms [unfolded fit_def] keeps_basic)

lemma commit_other:
  assumes "fit outcomes j"
  shows "keeps I (commit_other w outcomes stopped j)"
proof -
  let ?c = "coordinatorOutcomeCondition (outcome_of outcomes j)"
  have "triple I (prepareOutcomeCommit w ?c) (\<lambda>v x. I x \<and>
      (fst v = AttemptConditionValidReview \<longrightarrow> ?c = AttemptConditionValidReview)) (\<lambda>_. I)"
    unfolding prepareOutcomeCommit_def
  proof (rule triple_seq [OF condition_kept [OF looks(1,2)]])
    fix v :: "AttemptCondition \<times> bool \<times> bool"
    obtain k cancelled observed where v: "v = (k, cancelled, observed)" using prod_cases3 by blast
    show "triple ((case v of (k, cancelled, observed) \<Rightarrow>
          \<lambda>x. I x \<and> (k = AttemptConditionValidReview \<longrightarrow> ?c = AttemptConditionValidReview)))
      (case v of (k, cancelled, observed) \<Rightarrow>
        seq (if observed then requestDispatchStop w k else give ()) (\<lambda>_. give (k, cancelled, observed)))
      (\<lambda>v x. I x \<and> (fst v = AttemptConditionValidReview \<longrightarrow> ?c = AttemptConditionValidReview)) (\<lambda>_. I)"
      using requestStop [of k]
      by (cases observed) (auto simp: v keeps_def triple_def effect_defs split: prod.splits sum.splits)
  qed
  then show ?thesis
    unfolding commit_other_def
    by (rule keeps_after) (use assms in \<open>auto intro!: outcome_kept simp: fit_def carries_def split: prod.split\<close>)
qed

lemma commit_stopped:
  assumes "fit outcomes j"
  shows "keeps I (commit_stopped w outcomes j)"
  unfolding commit_stopped_def
  by (intro keeps_if keeps_seq keeps_basic commit_trailer commit_other assms)

lemma commit_others:
  assumes "\<forall>j \<in> set js. fit outcomes j"
  shows "keeps I (commit_others w outcomes next_jobs js)"
  using assms
  by (induction js arbitrary: next_jobs) (auto intro!: keeps_seq commit_other keeps_basic)

lemma wave_sound:
  assumes "wave_outcomes w t collected known js = Inr outcomes"
  shows "(\<forall>k. k \<notin> ij_ordinal ` set js \<longrightarrow> outcomes k = known k) \<and>
    (\<forall>j \<in> set js. \<exists>h \<in> set js. \<exists>out r. ij_ordinal h = ij_ordinal j \<and>
       normalizedOutcome w t h out = Inr r \<and> outcomes (ij_ordinal j) = Some r)"
  using assms
proof (induction js arbitrary: known)
  case (Cons j js)
  then obtain out r where r: "normalizedOutcome w t j out = Inr r"
    "wave_outcomes w t collected (known(ij_ordinal j \<mapsto> r)) js = Inr outcomes"
    by (auto split: option.splits sum.splits)
  note rest = Cons.IH [OF r(2)]
  show ?case
  proof (cases "ij_ordinal j \<in> ij_ordinal ` set js")
    case True
    with rest show ?thesis by (auto 4 4)
  next
    case False
    with rest have "outcomes (ij_ordinal j) = Some r" by simp
    with rest r(1) show ?thesis by auto
  qed
qed simp

text \<open>A result belongs to the job that has its ordinal, so the ordinals of a wave tell its roles apart.\<close>

lemma wave_kept:
  assumes "\<And>h j v. h \<in> set wave \<Longrightarrow> j \<in> set wave \<Longrightarrow> ij_ordinal h = ij_ordinal j \<Longrightarrow>
    P (ij_role h) v \<Longrightarrow> P (ij_role j) v"
  shows "keeps I (commitWave w wave collected)"
  unfolding commitWave_def Let_def
proof (rule target_held, rule keeps_result_then)
  fix t outcomes
  assume 1: "\<And>j out r v. normalizedOutcome w t j out = Inr r \<Longrightarrow> ao_output r = Some v \<Longrightarrow> P (ij_role j) v"
    "wave_outcomes w t collected Map.empty (orderedCoordinatorWave wave) = Inr outcomes"
  let ?ordered = "orderedCoordinatorWave wave"
  have carried: "fit outcomes j" if "j \<in> set ?ordered" for j
  proof -
    from wave_sound [OF 1(2)] that obtain h out r where h: "h \<in> set ?ordered" "ij_ordinal h = ij_ordinal j"
      "normalizedOutcome w t h out = Inr r" "outcomes (ij_ordinal j) = Some r" by blast
    have "h \<in> set wave" "j \<in> set wave" using h(1) that by (simp_all add: orderedCoordinatorWave_def)
    with h 1(1) [OF h(3)] have "P (ij_role j) v" if "ao_output r = Some v" for v using assms that by blast
    with h(4) normalized_carries [OF h(3)] show ?thesis by (simp add: fit_def outcome_of_def)
  qed
  then have "\<forall>j \<in> set (filter (\<lambda>j. \<not> bounded_trailer outcomes j) ?ordered). fit outcomes j" by simp
  note steps = commit_others [OF this]
  let ?facts = "map (\<lambda>j. coordinatorOutcomeCondition (outcome_of outcomes j))
    (filter (\<lambda>j. \<not> bounded_trailer outcomes j) ?ordered)"
  have stopped: "keeps I (for_each (commit_stopped w outcomes) ?ordered)"
    by (rule keeps_for_each, rule commit_stopped, rule carried)
  have trailers: "keeps I (for_each (commit_trailer w outcomes) (filter (bounded_trailer outcomes) ?ordered))"
    by (rule keeps_for_each, rule commit_trailer, rule carried) simp
  show "keeps I (seq (result CoPolicy (ReduceAttemptConditions
        (if ?facts = [] then [AttemptConditionValidReview] else ?facts))) (\<lambda>c.
      seq (contextConditions w) (\<lambda>contexts.
      seq (if contexts = [] then give None
           else seq (result CoPolicy (ReduceAttemptConditions contexts)) (\<lambda>k. give (Some k))) (\<lambda>ended.
        if (case ended of None \<Rightarrow> False | Some k \<Rightarrow> \<not> conditionRetainsAuthorityAfterContext c k)
        then seq (cancelAll w (the ended)) (\<lambda>_. give [])
        else if conditionStopsCoordinatorRun c then
          seq (requestDispatchStop w c) (\<lambda>_.
          seq (for_each (commit_stopped w outcomes) ?ordered) (\<lambda>_.
          seq (cancelAll w c) (\<lambda>_. give [])))
        else
          seq (for_each (commit_trailer w outcomes) (filter (bounded_trailer outcomes) ?ordered)) (\<lambda>_.
            commit_others w outcomes [] (filter (\<lambda>j. \<not> bounded_trailer outcomes j) ?ordered))))))"
    by (intro keeps_seq keeps_if keeps_basic contexts cancelAll requestStop stopped trailers steps)
qed

lemma start_roles: "keeps I (start_roles w rs)"
  by (induction rs) (auto intro!: keeps_seq startPrimary keeps_basic)

lemma finishRun: "keeps I finishRun"
  unfolding finishRun_def by (intro keeps_seq keeps_if keeps_basic run_kept)

text \<open>The abort after an error runs no wave.\<close>

lemma abort: "keeps I (abort w)"
proof -
  have tried: "keeps I m \<Longrightarrow> keeps I (attempt_step m)" for m
    unfolding keeps_def attempt_step_def by (auto split: prod.splits sum.splits)
  have guarded: "keeps I m \<Longrightarrow> keeps I (when_state p m)" for p m
    unfolding when_state_def by (intro keeps_seq keeps_if keeps_basic)
  show ?thesis
    unfolding abort_def record_global_def
    by (auto intro!: keeps_for_collect tried guarded record_kept cancelAll finishRun keeps_seq keeps_basic)
qed

end

section \<open>Properties without roles\<close>

text \<open>Where the condition on an output does not depend on the role, the waves keep the property too.\<close>

locale kept_uniform = kept +
  assumes uniform: "P role v \<Longrightarrow> P other v"
begin

lemma any_wave: "keeps I (commitWave w wave collected)"
  by (rule wave_kept) (rule uniform)

lemma run_waves: "keeps I (run_waves w n js)"
proof (induction n arbitrary: js)
  case 0
  then show ?case by (cases js) simp_all
next
  case (Suc n)
  then show ?case
    by (cases js) (auto intro!: keeps_seq keeps_basic looks cancel_ended dispatch collect any_wave
        simp: dispatchWave_def collectWave_def simp del: dispatch_jobs.simps)
qed

text \<open>The whole coordination, and an execution from its admission on.\<close>

lemma coordinate: "keeps I (coordinate w n)"
  unfolding coordinate_def record_global_def
  by (auto intro!: keeps_seq keeps_basic record_kept start_roles looks cancel_ended run_waves cancelAll finishRun
      simp: prepare_initial_def split: prepared.split)

lemma executed:
  assumes "ExecuteRun w n extractionAdmitted run as threshold policy = Inr e"
    "\<And>x. admit_run w extractionAdmitted run as threshold = Inr x \<Longrightarrow> I x"
  shows "I (ee_execution e)"
proof -
  from assms(1) obtain x where x: "admit_run w extractionAdmitted run as threshold = Inr x"
    by (auto simp: ExecuteRun_def Let_def split: sum.splits)
  obtain r y where y: "coordinate w n x = (r, y)" by fastforce
  with assms(2) [OF x] coordinate [of n] have "I y" unfolding keeps_def by (metis snd_conv)
  moreover obtain q z where z: "abort w y = (q, z)" by fastforce
  ultimately have "I z" using abort unfolding keeps_def by (metis snd_conv)
  with \<open>I y\<close> assms(1) x y z show ?thesis by (auto simp: ExecuteRun_def Let_def split: sum.splits)
qed

end

end
