(* ===== verification/Coordinator_Trace.thy ===== *)
theory Coordinator_Trace
  imports Coordinator_Keeps
begin

text \<open>
  What holds of every execution, whatever fails on the way: the trace is well formed, and the run and
  the attempts are only changed by the domain's own mutators, so that their invariants hold.

  Both are properties that every operation keeps. The trace is only written by \<open>record\<close>, and so the
  proof for all other operations is that they leave its fields alone.
\<close>

section \<open>A well-formed trace\<close>

definition role_over :: "Role \<Rightarrow> CoordinatorTraceEvent \<Rightarrow> bool" where
  "role_over r e \<longleftrightarrow> te_kind e = CoordinatorEventRoleTerminal \<and> te_role e = r"

text \<open>
  What may follow the events so far. They are numbered from one and valid each. The first one is the
  start of the run, and no other. Nothing happens to a role after its terminal event. After the
  workers' close only the terminal event of the run may follow, and nothing follows that.
\<close>

definition may_follow :: "CoordinatorTraceEvent list \<Rightarrow> CoordinatorTraceEvent \<Rightarrow> bool" where
  "may_follow es e \<longleftrightarrow>
     te_ordinal e = of_nat (length es) + 1 \<and> CoordinatorTraceEvent_validate e = None \<and>
     (te_kind e = CoordinatorEventRunStarted \<longleftrightarrow> es = []) \<and>
     (\<forall>d \<in> set es. te_kind d \<noteq> CoordinatorEventRunTerminal \<and>
        (roleEvent (te_kind e) \<longrightarrow> \<not> role_over (te_role e) d) \<and>
        (te_kind d = CoordinatorEventWorkersCloseAuthorized \<longrightarrow> te_kind e = CoordinatorEventRunTerminal)) \<and>
     (te_kind e = CoordinatorEventRunTerminal \<longrightarrow>
        es \<noteq> [] \<and> te_kind (last es) = CoordinatorEventWorkersCloseAuthorized)"

definition trace_ok :: "CoordinatorTraceEvent list \<Rightarrow> bool" where
  "trace_ok es \<longleftrightarrow> (\<forall>k < length es. may_follow (take k es) (es ! k))"

definition trace_inv :: "coordinatorExecution \<Rightarrow> bool" where
  "trace_inv x \<longleftrightarrow>
     trace_ok (ex_trace x) \<and> ex_nextEvent x = of_nat (length (ex_trace x)) \<and>
     (ex_runStarted x \<longleftrightarrow> ex_trace x \<noteq> []) \<and>
     (ex_workersCloseAuthorized x \<longleftrightarrow>
        (\<exists>e \<in> set (ex_trace x). te_kind e = CoordinatorEventWorkersCloseAuthorized)) \<and>
     (ex_runTerminalRecorded x \<longleftrightarrow>
        (\<exists>e \<in> set (ex_trace x). te_kind e = CoordinatorEventRunTerminal)) \<and>
     (\<forall>r. r \<in> set (ex_terminalRoles x) \<longleftrightarrow> (\<exists>e \<in> set (ex_trace x). role_over r e))"

lemma trace_ok_append: "trace_ok (es @ [e]) \<longleftrightarrow> trace_ok es \<and> may_follow es e"
  by (auto simp: trace_ok_def nth_append less_Suc_eq)

lemma trace_inv_Nil:
  "ex_trace x = [] \<Longrightarrow> trace_inv x \<longleftrightarrow> ex_nextEvent x = 0 \<and> \<not> ex_runStarted x \<and>
     \<not> ex_workersCloseAuthorized x \<and> \<not> ex_runTerminalRecorded x \<and> ex_terminalRoles x = []"
  by (auto simp: trace_inv_def trace_ok_def)

lemma trace_close_last:
  assumes "trace_ok es" "e \<in> set es" "te_kind e = CoordinatorEventWorkersCloseAuthorized"
    "\<forall>d \<in> set es. te_kind d \<noteq> CoordinatorEventRunTerminal"
  shows "te_kind (last es) = CoordinatorEventWorkersCloseAuthorized"
proof (cases es rule: rev_cases)
  case (snoc ds d)
  with assms(1) have "may_follow ds d" by (simp add: trace_ok_append)
  with assms(2-4) snoc show ?thesis by (auto simp: may_follow_def)
qed (use assms in simp)

lemma note_event_inv:
  assumes "trace_inv x" "check_record (te_kind e) (te_role e) (te_runState e) x = None"
    and "CoordinatorTraceEvent_validate e = None" "te_ordinal e = ex_nextEvent x + 1"
  shows "trace_inv (note_event e x)"
proof -
  let ?k = "te_kind e" and ?es = "ex_trace x"
  from assms(2) have checks: "\<not> ex_runTerminalRecorded x"
    "?k = CoordinatorEventRunStarted \<Longrightarrow> \<not> ex_runStarted x"
    "?k \<noteq> CoordinatorEventRunStarted \<Longrightarrow> ex_runStarted x"
    "ex_workersCloseAuthorized x \<Longrightarrow> ?k = CoordinatorEventRunTerminal"
    "roleEvent ?k \<Longrightarrow> te_role e \<notin> set (ex_terminalRoles x)"
    "?k = CoordinatorEventRunTerminal \<Longrightarrow> ex_workersCloseAuthorized x"
    by (simp_all add: check_record_def split: if_splits)
  note inv = assms(1) [unfolded trace_inv_def]
  from inv checks(1) have open_run: "\<forall>d \<in> set ?es. te_kind d \<noteq> CoordinatorEventRunTerminal" by blast
  moreover have "te_kind d = CoordinatorEventWorkersCloseAuthorized \<Longrightarrow> d \<in> set ?es \<Longrightarrow>
      ?k = CoordinatorEventRunTerminal" for d
    using inv checks(4) by blast
  moreover have "roleEvent ?k \<Longrightarrow> d \<in> set ?es \<Longrightarrow> \<not> role_over (te_role e) d" for d
    using inv checks(5) by blast
  moreover have "?es \<noteq> [] \<and> te_kind (last ?es) = CoordinatorEventWorkersCloseAuthorized"
    if "?k = CoordinatorEventRunTerminal"
  proof -
    from checks(6) [OF that] inv obtain d where
      "d \<in> set ?es" "te_kind d = CoordinatorEventWorkersCloseAuthorized" by blast
    with trace_close_last [of ?es d] inv open_run show ?thesis by auto
  qed
  moreover have "te_ordinal e = of_nat (length ?es) + 1" using inv assms(4) by simp
  moreover from inv checks(2,3) have start: "?k = CoordinatorEventRunStarted \<longleftrightarrow> ?es = []" by blast
  ultimately have "may_follow ?es e" using assms(3) unfolding may_follow_def by blast
  with inv assms(4) start show ?thesis
    by (auto simp: trace_inv_def note_event_def trace_ok_append role_over_def)
qed

lemma record_event_trace: "keeps trace_inv (record_event w kind role attempt purpose condition reason runState)"
  using note_event_inv
  by (auto simp: keeps_def record_event_def Let_def trace_event_def split: option.splits)

section \<open>Every operation keeps it\<close>

text \<open>The places at which an execution is changed keep the invariant, so that the whole coordination does.\<close>

definition execution_inv :: "coordinatorExecution \<Rightarrow> bool" where
  "execution_inv x \<longleftrightarrow>
     trace_inv x \<and> run_inv (ex_run x) \<and>
     (\<forall>r st. ex_roles x r = Some st \<longrightarrow> (\<forall>c \<in> set (rol_attempts st). attempt_inv (cat_attempt c)))"

lemma execution_inv_roles:
  assumes "execution_inv x" "\<And>st. ex_roles x r = Some st \<Longrightarrow>
    \<forall>c \<in> set (rol_attempts st). attempt_inv (cat_attempt c) \<Longrightarrow>
    \<forall>c \<in> set (rol_attempts (f st)). attempt_inv (cat_attempt c)"
  shows "execution_inv (x\<lparr>ex_roles := (ex_roles x)(r := map_option f (ex_roles x r))\<rparr>)"
  using assms by (auto simp: execution_inv_def trace_inv_def)

lemma all_update:
  "\<forall>y \<in> set ys. P y \<Longrightarrow> (i < length ys \<Longrightarrow> P z) \<Longrightarrow> \<forall>y \<in> set (ys[i := z]). P y"
  by (cases "i < length ys") (auto dest: set_update_subset_insert [THEN subsetD] simp: list_update_beyond not_less)

lemma keeps_record: "keeps execution_inv (record_event w kind role attempt purpose condition reason runState)"
proof -
  have "ex_run (snd (record_event w kind role attempt purpose condition reason runState x)) = ex_run x \<and>
      ex_roles (snd (record_event w kind role attempt purpose condition reason runState x)) = ex_roles x" for x
    by (simp add: record_event_def note_event_def Let_def split: option.splits)
  then show ?thesis
    using record_event_trace [of w kind role attempt purpose condition reason runState]
    by (simp add: keeps_def execution_inv_def)
qed

lemma keeps_moves:
  "keeps execution_inv (move_run n)" "keeps execution_inv (move_role role m)"
  by (auto simp: keeps_def move_run_def move_role_def execution_inv_def trace_inv_def
      simp del: Run_Transition.simps Run_TransitionRole.simps
      intro: Run_Transition_inv Run_TransitionRole_inv split: sum.splits)

lemma keeps_change_role:
  assumes "\<And>st. \<forall>c \<in> set (rol_attempts st). attempt_inv (cat_attempt c) \<Longrightarrow>
    \<forall>c \<in> set (rol_attempts (f st)). attempt_inv (cat_attempt c)"
  shows "keeps execution_inv (change_role role f)"
  unfolding change_role_def by (rule keeps_change, rule execution_inv_roles) (assumption, rule assms)

lemma keeps_change_attempt:
  assumes "\<And>c. attempt_inv (cat_attempt c) \<Longrightarrow> attempt_inv (cat_attempt (f c))"
  shows "keeps execution_inv (change_attempt role i f)"
  unfolding change_attempt_def
proof (rule keeps_change_role)
  fix st assume st: "\<forall>c \<in> set (rol_attempts st). attempt_inv (cat_attempt c)"
  then have "\<forall>c \<in> set ((rol_attempts st)[i := f (rol_attempts st ! i)]). attempt_inv (cat_attempt c)"
    by (rule all_update) (use st assms nth_mem in blast)
  then show "\<forall>c \<in> set (rol_attempts (st\<lparr>rol_attempts := (rol_attempts st)[i := f (rol_attempts st ! i)]\<rparr>)).
      attempt_inv (cat_attempt c)" by simp
qed

lemma keeps_move_attempt:
  assumes "\<And>a b. attempt_inv a \<Longrightarrow> f (Some a) = Inr b \<Longrightarrow> attempt_inv b"
  shows "keeps execution_inv (move_attempt role i f)"
  unfolding keeps_def
proof (intro allI impI)
  fix x assume inv: "execution_inv x"
  show "execution_inv (snd (move_attempt role i f x))"
  proof (cases "f (Some (cat_attempt (attempt_at role i x)))")
    case (Inr b)
    have "execution_inv (x\<lparr>ex_roles := (ex_roles x)(role := map_option
        (\<lambda>st. st\<lparr>rol_attempts := (rol_attempts st)[i := (rol_attempts st ! i)\<lparr>cat_attempt := b\<rparr>]\<rparr>)
        (ex_roles x role))\<rparr>)"
    proof (rule execution_inv_roles [OF inv])
      fix st assume st: "ex_roles x role = Some st" "\<forall>c \<in> set (rol_attempts st). attempt_inv (cat_attempt c)"
      have "\<forall>c \<in> set ((rol_attempts st)[i := (rol_attempts st ! i)\<lparr>cat_attempt := b\<rparr>]). attempt_inv (cat_attempt c)"
      proof (rule all_update [OF st(2)])
        assume "i < length (rol_attempts st)"
        with st have "attempt_inv b" using assms [OF _ Inr] by (simp add: attempt_at_def role_state_def)
        then show "attempt_inv (cat_attempt ((rol_attempts st ! i)\<lparr>cat_attempt := b\<rparr>))" by simp
      qed
      then show "\<forall>c \<in> set (rol_attempts (st\<lparr>rol_attempts := (rol_attempts st)[i := (rol_attempts st ! i)\<lparr>cat_attempt := b\<rparr>]\<rparr>)).
          attempt_inv (cat_attempt c)" by simp
    qed
    then show ?thesis
      using Inr by (simp add: move_attempt_def change_attempt_def change_role_def change_def)
  qed (use inv in \<open>simp add: move_attempt_def\<close>)
qed

interpretation lawful: kept_uniform w execution_inv "\<lambda>_ _. True" for w
proof (unfold_locales, goal_cases)
  case (4 x y)
  then show ?case by (simp add: execution_inv_def trace_inv_def)
next
  case (5 mutator role i)
  then show ?case by (rule keeps_move_attempt)
next
  case (6 f role i)
  then show ?case by (intro keeps_change_attempt) simp
next
  case (7 g role)
  then show ?case by (intro keeps_change_role) simp
next
  case (11 j h)
  then show ?case by (intro keeps_seq attempt_looked_up keeps_basic) simp
qed (auto intro!: keeps_record keeps_moves keeps_change_role keeps_change_attempt keeps_seq simp: fresh_attempt_def)

lemma admit_run_inv:
  assumes "admit_run w extractionAdmitted run as threshold = Inr x" "run_inv run"
  shows "execution_inv x"
proof -
  from assms(1) obtain running canonical where move: "Run_Transition (Some run) RunRunning = Inr running"
    and x: "x = new_execution extractionAdmitted running [] canonical"
    by (auto simp: admit_run_def simp del: Run_Transition.simps split: if_splits option.splits sum.splits)
  have "run_inv running" by (rule Run_Transition_inv [OF move assms(2)])
  then show ?thesis
    by (auto simp: x new_execution_def execution_inv_def trace_inv_def trace_ok_def dest!: map_of_SomeD)
qed

theorem execution_end_inv:
  assumes "ExecuteRun w n extractionAdmitted run as threshold policy = Inr e" "run_inv run"
  shows "execution_inv (ee_execution e)"
  by (rule lawful.executed [OF assms(1)], rule admit_run_inv [OF _ assms(2)])

lemma ExecuteRun_returns:
  "admit_run w extractionAdmitted run as threshold = Inr x \<Longrightarrow>
    \<exists>e. ExecuteRun w n extractionAdmitted run as threshold policy = Inr e"
  by (simp add: ExecuteRun_def Let_def split: prod.split sum.split)

lemma trace_ok_nth:
  assumes "trace_ok es" "k < length es"
  shows "te_ordinal (es ! k) = of_nat k + 1 \<and> CoordinatorTraceEvent_validate (es ! k) = None \<and>
    (te_kind (es ! k) = CoordinatorEventRunStarted \<longleftrightarrow> k = 0) \<and>
    (\<forall>i < k. te_kind (es ! i) \<noteq> CoordinatorEventRunTerminal \<and>
       \<not> (te_kind (es ! i) = CoordinatorEventRoleTerminal \<and> roleEvent (te_kind (es ! k)) \<and>
          te_role (es ! i) = te_role (es ! k)) \<and>
       (te_kind (es ! i) = CoordinatorEventWorkersCloseAuthorized \<longrightarrow>
          i + 1 = k \<and> te_kind (es ! k) = CoordinatorEventRunTerminal)) \<and>
    (te_kind (es ! k) = CoordinatorEventRunTerminal \<longrightarrow>
       0 < k \<and> te_kind (es ! (k - 1)) = CoordinatorEventWorkersCloseAuthorized)"
proof -
  have follows: "may_follow (take j es) (es ! j)" if "j < length es" for j
    using assms(1) that by (simp add: trace_ok_def)
  have earlier: "es ! i \<in> set (take j es)" if "i < j" "j < length es" for i j
    using that by (force simp: in_set_conv_nth)
  have closed: "te_kind (es ! j) = CoordinatorEventRunTerminal"
    if "te_kind (es ! i) = CoordinatorEventWorkersCloseAuthorized" "i < j" "j < length es" for i j
    using follows [OF that(3)] earlier [OF that(2,3)] that(1) unfolding may_follow_def by blast
  have before: "te_kind (es ! (j - 1)) = CoordinatorEventWorkersCloseAuthorized \<and> 0 < j"
    if "te_kind (es ! j) = CoordinatorEventRunTerminal" "j < length es" for j
  proof -
    from follows [OF that(2)] that(1) have "take j es \<noteq> []" "te_kind (last (take j es)) = CoordinatorEventWorkersCloseAuthorized"
      by (simp_all add: may_follow_def)
    then show ?thesis using that(2) by (cases j) (simp_all add: last_conv_nth min_def)
  qed
  have next_to: "i + 1 = k" if "te_kind (es ! i) = CoordinatorEventWorkersCloseAuthorized" "i < k" for i
  proof (rule ccontr)
    assume "i + 1 \<noteq> k"
    with that(2) have "i < k - 1" "k - 1 < length es" using assms(2) by auto
    from closed [OF that(1) this] before [of k] closed [OF that assms(2)] assms(2) show False by simp
  qed
  have "\<forall>i < k. te_kind (es ! i) \<noteq> CoordinatorEventRunTerminal \<and>
      \<not> (te_kind (es ! i) = CoordinatorEventRoleTerminal \<and> roleEvent (te_kind (es ! k)) \<and>
         te_role (es ! i) = te_role (es ! k))"
    using follows [OF assms(2)] earlier [OF _ assms(2)] unfolding may_follow_def role_over_def by blast
  moreover have "te_ordinal (es ! k) = of_nat k + 1" "CoordinatorTraceEvent_validate (es ! k) = None"
    "te_kind (es ! k) = CoordinatorEventRunStarted \<longleftrightarrow> k = 0"
    using follows [OF assms(2)] assms(2) by (auto simp: may_follow_def)
  ultimately show ?thesis using next_to closed [OF _ _ assms(2)] before [OF _ assms(2)] by blast
qed

end
