(* ===== verification/Coordinator_Roles.thy ===== *)
theory Coordinator_Roles
  imports Coordinator_Trace
begin

text \<open>
  One role of an execution. The operations on a role are evaluated on a normal form of the state, which
  names the role's record, its only attempt and the state of its task; on it every operation that
  succeeds is an equation. The decisions of the policy and the moves of an attempt are given first.
\<close>

section \<open>Roles of the run\<close>

definition set_task :: "Role \<Rightarrow> RoleTaskState \<Rightarrow> Run \<Rightarrow> Run" where
  "set_task r n run =
     run\<lparr>run_roles := map (\<lambda>t. if task_role t = r then t\<lparr>task_state := n\<rparr> else t) (run_roles run)\<rparr>"

lemma set_task_simps [simp]:
  "run_id (set_task r n run) = run_id run" "run_sessionID (set_task r n run) = run_sessionID run"
  "run_target (set_task r n run) = run_target run" "run_state (set_task r n run) = run_state run"
  "map task_role (run_roles (set_task r n run)) = map task_role (run_roles run)"
  by (simp_all add: set_task_def)

definition selected :: "Run \<Rightarrow> Role list" where
  "selected run = map task_role (run_roles run)"

lemma selected_set_task [simp]: "selected (set_task r n run) = selected run"
  by (simp add: selected_def)

lemma distinct_selected: "run_inv run \<Longrightarrow> distinct (selected run)"
  by (simp add: run_inv_def run_roles_ok_def canonical_roles_distinct selected_def)

lemma find_key:
  "distinct (map f ts) \<Longrightarrow> t \<in> set ts \<Longrightarrow> List.find (\<lambda>u. f u = f t) ts = Some t"
  by (induction ts) (auto simp: image_iff)

lemma role_state_set_task:
  "coordinatorRoleState (set_task r n run) q =
     (if q = r \<and> r \<in> set (selected run) then n else coordinatorRoleState run q)"
proof -
  let ?f = "\<lambda>t. if task_role t = r then t\<lparr>task_state := n\<rparr> else t"
  have found: "List.find (\<lambda>t. task_role t = q) (map ?f ts) = map_option ?f (List.find (\<lambda>t. task_role t = q) ts)"
    for ts :: "RoleTask list"
    by (induction ts) auto
  show ?thesis
  proof (cases "List.find (\<lambda>t. task_role t = q) (run_roles run)")
    case None
    then have "q \<notin> set (selected run)" by (auto simp: find_None_iff selected_def)
    with None found show ?thesis by (auto simp: coordinatorRoleState_def set_task_def)
  next
    case (Some t)
    then have "t \<in> set (run_roles run)" "task_role t = q" by (auto dest: find_SomeD)
    then have "q \<in> set (selected run)" by (auto simp: selected_def)
    with Some found \<open>task_role t = q\<close> show ?thesis by (auto simp: coordinatorRoleState_def set_task_def)
  qed
qed

lemma coordinatorRoleTerminal_state:
  "r \<in> set (selected run) \<Longrightarrow> coordinatorRoleTerminal run r \<longleftrightarrow> roleTaskTerminal (coordinatorRoleState run r)"
  by (auto simp: coordinatorRoleTerminal_def coordinatorRoleState_def selected_def find_None_iff
      split: option.split)

lemma transition_role_task_map:
  assumes "distinct (map task_role ts)" "r \<in> task_role ` set ts"
    "\<And>t. t \<in> set ts \<Longrightarrow> task_role t = r \<Longrightarrow> RoleTaskState_CanTransition (task_state t) n"
  shows "transition_role_task r n ts = Inr (map (\<lambda>t. if task_role t = r then t\<lparr>task_state := n\<rparr> else t) ts)"
  using assms
proof (induction ts)
  case (Cons t ts)
  show ?case
  proof (cases "task_role t = r")
    case True
    with Cons.prems have "RoleTask_transition (Some t) n = Inr (t\<lparr>task_state := n\<rparr>)"
      by (simp add: RoleTask_transition_Inr del: RoleTask_transition.simps)
    moreover have "map (\<lambda>t. if task_role t = r then t\<lparr>task_state := n\<rparr> else t) ts = ts"
      using Cons.prems(1) True by (intro map_idI) (auto simp: image_iff)
    ultimately show ?thesis using True by (simp del: RoleTask_transition.simps)
  next
    case False
    with Cons show ?thesis by auto
  qed
qed simp

lemma move_role_to:
  assumes "distinct (selected (ex_run x))" "run_state (ex_run x) = RunRunning" "r \<in> set (selected (ex_run x))"
    "Role_Valid r"
    "RoleTaskState_CanTransition (coordinatorRoleState (ex_run x) r) n"
  shows "move_role r n x = (Inr (), x\<lparr>ex_run := set_task r n (ex_run x)\<rparr>)"
proof -
  have state: "task_state t = coordinatorRoleState (ex_run x) r"
    if "t \<in> set (run_roles (ex_run x))" "task_role t = r" for t
  proof -
    from assms(1) that have "List.find (\<lambda>t. task_role t = r) (run_roles (ex_run x)) = Some t"
      unfolding selected_def using find_key by metis
    then show ?thesis by (simp add: coordinatorRoleState_def)
  qed
  have "transition_role_task r n (run_roles (ex_run x)) = Inr (run_roles (set_task r n (ex_run x)))"
    unfolding set_task_def using transition_role_task_map [of "run_roles (ex_run x)" r n]
      assms(1,3,5) state by (simp add: selected_def)
  then show ?thesis using assms(2,4) by (simp add: move_role_def set_task_def)
qed

section \<open>Decisions\<close>

text \<open>A condition that an observed cancellation does not override.\<close>

definition settled :: "AttemptCondition \<Rightarrow> bool \<Rightarrow> bool" where
  "settled c cancelled \<longleftrightarrow> AttemptCondition_Valid c \<and>
     (cancelled \<longrightarrow> condition_precedence c \<le> ConditionPrecedenceCancellation)"

definition terminal_decision :: "AttemptCondition \<Rightarrow> TransitionDecision \<Rightarrow> bool" where
  "terminal_decision c d \<longleftrightarrow>
     \<not> td_scheduleRetry d \<and> \<not> td_scheduleRepair d \<and>
     (td_terminalProjection d = TerminalProjectionSucceeded \<or>
      td_terminalProjection d = TerminalProjectionFailed \<or>
      td_terminalProjection d = TerminalProjectionCancelled) \<and>
     (td_terminalProjection d = TerminalProjectionSucceeded \<longleftrightarrow> c = AttemptConditionValidReview)"

text \<open>
  What a decision on a condition with failure class \<open>f\<close> means for the attempt: a retry without a
  validation, a repair after one, or the end. A failure above the ceiling of an extraction is always
  the end, and never validated.
\<close>

definition commit_fit ::
    "AttemptCondition \<Rightarrow> FailureClass \<Rightarrow> bool \<Rightarrow> bool \<Rightarrow> TransitionDecision \<Rightarrow> bool" where
  "commit_fit c f p q d \<longleftrightarrow>
     td_condition d = c \<and> td_reasonCode d = AttemptCondition_string c \<and> td_terminalClass d = f \<and>
     (td_scheduleRetry d \<and> \<not> conditionRequiresValidation c \<and> \<not> p \<and> \<not> q \<or>
      \<not> td_scheduleRetry d \<and> td_scheduleRepair d \<and> conditionRequiresValidation c \<and> \<not> p \<and> \<not> q \<or>
      terminal_decision c d) \<and>
     (extractionBoundedFailureCeiling < FailurePrecedence f \<longrightarrow>
        terminal_decision c d \<and> \<not> conditionRequiresValidation c \<and> c \<noteq> AttemptConditionTimeout)"

lemma commits_checked:
  "list_all (\<lambda>row. list_all (\<lambda>(p, q).
       commit_fit (row_condition row) (row_terminalClass row) p q (row_decision row (flags p q)))
     [(False, False), (False, True), (True, False), (True, True)]) transitionPolicyRows"
  by code_simp

lemma rows_commit:
  assumes "row \<in> set transitionPolicyRows"
  shows "commit_fit (row_condition row) (row_terminalClass row) (ti_RepairUsed inp) (ti_RetryUsed inp)
    (row_decision row inp)"
proof -
  have "\<forall>p q. commit_fit (row_condition row) (row_terminalClass row) p q (row_decision row (flags p q))"
    using commits_checked assms unfolding list_all_iff by (simp add: all_bool_eq)
  then show ?thesis by (simp add: row_decision_flags [of row inp])
qed

lemma failure_class_row:
  assumes "lookupTransitionPolicy c = Some row"
  shows "conditionFailureClass c = row_terminalClass row"
proof -
  let ?inp = "\<lparr>ti_Condition = c, ti_RepairUsed = False, ti_RetryUsed = False, ti_CancellationObserved = False\<rparr>"
  have "AttemptCondition_Valid c" using assms by (simp add: AttemptCondition_Valid_def)
  then obtain row' where "lookupTransitionPolicy (effective_condition ?inp) = Some row'"
    "DecideTransition ?inp = Inr (row_decision row' ?inp)"
    using DecideTransition_total [of ?inp] by auto
  moreover have "effective_condition ?inp = c" by (simp add: effective_condition_def)
  ultimately show ?thesis
    using assms rows_commit [of row ?inp] lookup_Some [OF assms]
    by (simp add: conditionFailureClass_def commit_fit_def)
qed

lemma decide_commit:
  assumes "settled c cancelled"
  shows "\<exists>d. DecideTransition \<lparr>ti_Condition = c, ti_RepairUsed = p, ti_RetryUsed = q,
      ti_CancellationObserved = cancelled\<rparr> = Inr d \<and> commit_fit c (conditionFailureClass c) p q d"
proof -
  let ?inp = "\<lparr>ti_Condition = c, ti_RepairUsed = p, ti_RetryUsed = q, ti_CancellationObserved = cancelled\<rparr>"
  have c: "effective_condition ?inp = c"
    using assms by (auto simp: effective_condition_def settled_def)
  obtain row where row: "lookupTransitionPolicy c = Some row" and d: "DecideTransition ?inp = Inr (row_decision row ?inp)"
    using DecideTransition_total [of ?inp] assms unfolding c by (auto simp: settled_def)
  from rows_commit [of row ?inp] lookup_Some [OF row]
  have "commit_fit c (conditionFailureClass c) p q (row_decision row ?inp)"
    by (simp add: failure_class_row [OF row])
  with d show ?thesis by blast
qed

section \<open>The shapes of an attempt\<close>

text \<open>
  An attempt has a last invocation of some purpose; for every purpose there is one phase of the attempt
  in which that invocation waits for its result, and one state of the invocation before it.
\<close>

definition invocation :: "uint64 \<Rightarrow> InvocationPurpose \<Rightarrow> InvocationState \<Rightarrow> bool \<Rightarrow> Invocation" where
  "invocation q p s m = \<lparr>inv_sequence = q, inv_purpose = p, inv_state = s, inv_artifacts = m\<rparr>"

lemma invocation_simps [simp]:
  "inv_sequence (invocation q p s m) = q" "inv_purpose (invocation q p s m) = p"
  "inv_state (invocation q p s m) = s" "inv_artifacts (invocation q p s m) = m"
  "(invocation q p s m)\<lparr>inv_state := t\<rparr> = invocation q p t m"
  "(invocation q p s m)\<lparr>inv_artifacts := a\<rparr> = invocation q p s a"
  by (simp_all add: invocation_def)

lemma NewInvocation_fresh [simp]:
  "q \<noteq> 0 \<Longrightarrow> InvocationPurpose_Valid p \<Longrightarrow> NewInvocation q p = Inr (invocation q p InvocationQueued False)"
  by (simp add: NewInvocation_def invocation_def)

definition purposes :: "InvocationPurpose set" where
  "purposes = {InvocationInitial, InvocationRetry, InvocationRepair, InvocationExtract}"

lemma purpose_known: "p \<in> purposes \<Longrightarrow> InvocationPurpose_Valid p"
  by (auto simp: purposes_def InvocationPurpose_Valid_def)

definition phase_of :: "InvocationPurpose \<Rightarrow> AttemptState" where
  "phase_of p =
     (if p = InvocationRepair then AttemptRepairing
      else if p = InvocationExtract then AttemptValidating else AttemptRunning)"

definition before :: "InvocationPurpose \<Rightarrow> bool \<Rightarrow> Invocation list" where
  "before p b =
     (if p = InvocationRetry then [invocation 1 InvocationInitial InvocationFailed b]
      else if p = InvocationRepair \<or> p = InvocationExtract
        then [invocation 1 InvocationInitial InvocationSucceeded b]
      else [])"

definition shaped ::
    "AttemptID \<Rightarrow> string \<Rightarrow> InvocationPurpose \<Rightarrow> bool \<Rightarrow> AttemptState \<Rightarrow> InvocationState \<Rightarrow> bool \<Rightarrow> Attempt" where
  "shaped i pr p b a s m =
     \<lparr>att_id = i, att_state = a, att_provider = pr,
      att_invocations = before p b @ [invocation (invocationSequence p) p s m]\<rparr>"

lemmas shape_defs = shaped_def before_def phase_of_def purposes_def invocationSequence_def invocation_def

lemma shaped_simps [simp]:
  "att_id (shaped i pr p b a s m) = i" "att_state (shaped i pr p b a s m) = a"
  "att_invocations (shaped i pr p b a s m) = before p b @ [invocation (invocationSequence p) p s m]"
  by (simp_all add: shaped_def)

lemma transition_shaped [simp]:
  assumes "p \<in> purposes" "InvocationState_CanTransition s n"
  shows "TransitionInvocation (Some (shaped i pr p b (phase_of p) s m)) (invocationSequence p) n =
    Inr (shaped i pr p b (phase_of p) n m)"
proof -
  from assms(2) have "InvocationState_RequireTransition s n = None"
    by (rule invocation_states.require_ok)
  then show ?thesis using assms(1)
    by (auto simp: shape_defs current_invocation_def inv_at_def inv_is_def replace_last_def
        Invocation_withTransition_def)
qed

lemma mark_shaped [simp]:
  "p \<in> purposes \<Longrightarrow>
    MarkInvocationRuntimeArtifactsExpected (Some (shaped i pr p b a InvocationRunning False)) (invocationSequence p) =
      Inr (shaped i pr p b a InvocationRunning True)"
  by (auto simp: shape_defs replace_last_def)

lemma end_shaped [simp]:
  assumes "AttemptState_CanTransition a n" "n = AttemptFailed \<or> n = AttemptTimedOut \<or> n = AttemptCancelled"
  shows "Attempt_Transition (Some (shaped i pr p b a s m)) n = Inr (shaped i pr p b n s m)"
proof -
  from assms(1) have "AttemptState_RequireTransition a n = None" by (rule attempt_states.require_ok)
  with assms(2) show ?thesis by (auto simp: attempt_guard_def shaped_def)
qed

lemma validate_shaped [simp]:
  assumes "p \<in> purposes" "p \<noteq> InvocationExtract"
  shows "Attempt_Transition (Some (shaped i pr p b (phase_of p) InvocationSucceeded m)) AttemptValidating =
    Inr (shaped i pr p b AttemptValidating InvocationSucceeded m)"
proof -
  have "AttemptState_RequireTransition (phase_of p) AttemptValidating = None"
    using assms by (intro attempt_states.require_ok) (auto simp: phase_of_def purposes_def)
  with assms show ?thesis by (auto simp: attempt_defs shape_defs)
qed

lemma succeed_shaped [simp]:
  assumes "p \<in> purposes" "s = InvocationSucceeded \<or> p = InvocationExtract \<and> terminalInvocationState s"
  shows "Attempt_Transition (Some (shaped i pr p b AttemptValidating s m)) AttemptSucceeded =
    Inr (shaped i pr p b AttemptSucceeded s m)"
proof -
  have "AttemptState_RequireTransition AttemptValidating AttemptSucceeded = None"
    by (intro attempt_states.require_ok) simp
  moreover have "InvocationState_Valid InvocationSucceeded" by (simp add: InvocationState_Valid_def)
  ultimately show ?thesis using assms by (auto simp: attempt_defs shape_defs terminalInvocationState_def)
qed

lemma follow_shaped [simp]:
  "AppendRetryInvocation (Some (shaped i pr InvocationInitial b AttemptRunning InvocationFailed m))
     (invocation 2 InvocationRetry InvocationQueued False) =
       Inr (shaped i pr InvocationRetry m AttemptRunning InvocationQueued False)"
  "Attempt_Transition (Some (shaped i pr InvocationInitial b AttemptValidating InvocationSucceeded m)) AttemptRepairing =
     Inr (shaped i pr InvocationInitial b AttemptRepairing InvocationSucceeded m)"
  "AppendRepairInvocation (Some (shaped i pr InvocationInitial b AttemptRepairing InvocationSucceeded m))
     (invocation 2 InvocationRepair InvocationQueued False) =
       Inr (shaped i pr InvocationRepair m AttemptRepairing InvocationQueued False)"
  "AppendExtractInvocation (Some (shaped i pr InvocationInitial b AttemptValidating InvocationSucceeded m))
     (invocation 2 InvocationExtract InvocationQueued False) =
       Inr (shaped i pr InvocationExtract m AttemptValidating InvocationQueued False)"
  by (simp_all add: attempt_defs shape_defs append_invocation_def attempt_states.require_ok)

declare TransitionInvocation.simps [simp del] Attempt_Transition.simps [simp del]
  AppendRetryInvocation.simps [simp del] AppendRepairInvocation.simps [simp del]
  AppendExtractInvocation.simps [simp del] MarkInvocationRuntimeArtifactsExpected.simps [simp del]

section \<open>The state of one role\<close>

text \<open>
  What the operations on one role can reach, as one normal form: the role's state, its only attempt
  and the state of its task.
\<close>

definition with_role ::
    "Role \<Rightarrow> coordinatorRole \<Rightarrow> coordinatorAttempt \<Rightarrow> RoleTaskState \<Rightarrow> coordinatorExecution \<Rightarrow> coordinatorExecution" where
  "with_role r st c n x =
     x\<lparr>ex_roles := (ex_roles x)(r \<mapsto> st\<lparr>rol_attempts := [c]\<rparr>), ex_run := set_task r n (ex_run x)\<rparr>"

lemma with_role_simps [simp]:
  "ex_roles (with_role r st c n x) = (ex_roles x)(r \<mapsto> st\<lparr>rol_attempts := [c]\<rparr>)"
  "ex_run (with_role r st c n x) = set_task r n (ex_run x)"
  "ex_extractionAdmitted (with_role r st c n x) = ex_extractionAdmitted x"
  "ex_stopping (with_role r st c n x) = ex_stopping x"
  "ex_nextEvent (with_role r st c n x) = ex_nextEvent x"
  "ex_nextJob (with_role r st c n x) = ex_nextJob x"
  "ex_used (with_role r st c n x) = ex_used x" "ex_issued (with_role r st c n x) = ex_issued x"
  "ex_trace (with_role r st c n x) = ex_trace x" "ex_cancelled (with_role r st c n x) = ex_cancelled x"
  "ex_runStarted (with_role r st c n x) = ex_runStarted x"
  "ex_workersCloseAuthorized (with_role r st c n x) = ex_workersCloseAuthorized x"
  "ex_runTerminalRecorded (with_role r st c n x) = ex_runTerminalRecorded x"
  "ex_terminalRoles (with_role r st c n x) = ex_terminalRoles x"
  "ex_dispatchStopRecorded (with_role r st c n x) = ex_dispatchStopRecorded x"
  "ex_stopCondition (with_role r st c n x) = ex_stopCondition x"
  "ex_dispatchStopCondition (with_role r st c n x) = ex_dispatchStopCondition x"
  "ex_looks (with_role r st c n x) = ex_looks x"
  "role_state r (with_role r st c n x) = st\<lparr>rol_attempts := [c]\<rparr>"
  "attempt_at r 0 (with_role r st c n x) = c"
  by (simp_all add: with_role_def role_state_def attempt_at_def)

lemma with_role_normal [simp]:
  "note_event e (with_role r st c n x) = with_role r st c n (note_event e x)"
  "(with_role r st c n x)\<lparr>ex_nextJob := k\<rparr> = with_role r st c n (x\<lparr>ex_nextJob := k\<rparr>)"
  "with_role r (st\<lparr>rol_attempts := cs\<rparr>) c n x = with_role r st c n x"
  "with_role r st c n (with_role r st' c' n' x) = with_role r st c n x"
  by (simp_all add: with_role_def note_event_def set_task_def fun_eq_iff)

lemma change_attempt_at [simp]:
  "change_attempt r 0 f (with_role r st c n x) = (Inr (), with_role r st (f c) n x)"
  by (simp add: change_attempt_def change_role_def change_def)

lemma change_role_at [simp]:
  assumes "rol_attempts (f (st\<lparr>rol_attempts := [c]\<rparr>)) = [c]"
  shows "change_role r f (with_role r st c n x) = (Inr (), with_role r (f (st\<lparr>rol_attempts := [c]\<rparr>)) c n x)"
proof -
  have "(f (st\<lparr>rol_attempts := [c]\<rparr>))\<lparr>rol_attempts := [c]\<rparr> = f (st\<lparr>rol_attempts := [c]\<rparr>)"
    using assms by (metis (no_types, lifting) coordinatorRole.surjective coordinatorRole.update_convs(2)
        coordinatorRole.select_convs(2))
  then show ?thesis by (simp add: change_role_def change_def)
qed

lemma move_attempt_at [simp]:
  "f (Some (cat_attempt c)) = Inr a \<Longrightarrow>
    move_attempt r 0 f (with_role r st c n x) = (Inr (), with_role r st (c\<lparr>cat_attempt := a\<rparr>) n x)"
  by (simp add: move_attempt_def)

text \<open>An execution in which events of the role are recorded and its task may move.\<close>

definition accepting :: "world \<Rightarrow> bool" where
  "accepting w \<longleftrightarrow> (\<forall>e. w_emit w e) \<and> (\<forall>j out. w_persist w j out)"

definition open_role :: "world \<Rightarrow> Role \<Rightarrow> coordinatorExecution \<Rightarrow> bool" where
  "open_role w r x \<longleftrightarrow>
     accepting w \<and> Role_Valid r \<and> r \<in> set (selected (ex_run x)) \<and> distinct (selected (ex_run x)) \<and>
     run_state (ex_run x) = RunRunning \<and> ex_runStarted x \<and> \<not> ex_workersCloseAuthorized x \<and>
     \<not> ex_runTerminalRecorded x \<and> r \<notin> set (ex_terminalRoles x)"

lemma note_event_simps [simp]:
  "ex_extractionAdmitted (note_event e x) = ex_extractionAdmitted x" "ex_run (note_event e x) = ex_run x"
  "ex_roles (note_event e x) = ex_roles x" "ex_nextJob (note_event e x) = ex_nextJob x"
  "ex_stopping (note_event e x) = ex_stopping x" "ex_cancelled (note_event e x) = ex_cancelled x"
  "ex_dispatchStopRecorded (note_event e x) = ex_dispatchStopRecorded x"
  "ex_stopCondition (note_event e x) = ex_stopCondition x"
  "ex_dispatchStopCondition (note_event e x) = ex_dispatchStopCondition x"
  "ex_looks (note_event e x) = ex_looks x" "ex_nextEvent (note_event e x) = ex_nextEvent x + 1"
  "ex_used (note_event e x) = ex_used x" "ex_issued (note_event e x) = ex_issued x"
  "ex_trace (note_event e x) = ex_trace x @ [e]"
  "ex_runStarted (note_event e x) \<longleftrightarrow> te_kind e = CoordinatorEventRunStarted \<or> ex_runStarted x"
  "ex_workersCloseAuthorized (note_event e x) \<longleftrightarrow>
     te_kind e = CoordinatorEventWorkersCloseAuthorized \<or> ex_workersCloseAuthorized x"
  "ex_runTerminalRecorded (note_event e x) \<longleftrightarrow>
     te_kind e = CoordinatorEventRunTerminal \<or> ex_runTerminalRecorded x"
  "ex_terminalRoles (note_event e x) =
     (if te_kind e = CoordinatorEventRoleTerminal then te_role e # ex_terminalRoles x else ex_terminalRoles x)"
  by (simp_all add: note_event_def)

lemma trace_event_simps [simp]:
  "te_kind (trace_event k r i p c s n x) = k" "te_role (trace_event k r i p c s n x) = r"
  "trace_event k r i p c s n (with_role q st d t x) = trace_event k r i p c s n x"
  by (simp_all add: trace_event_def)

definition inner_event :: "CoordinatorEventKind \<Rightarrow> bool" where
  "inner_event k \<longleftrightarrow> k \<in> {CoordinatorEventAttemptQueued, CoordinatorEventInvocationDispatched,
     CoordinatorEventInvocationCommitted, CoordinatorEventRepairQueued, CoordinatorEventRetryQueued,
     CoordinatorEventExtractionQueued}"

lemma inner_kinds [simp]:
  "inner_event CoordinatorEventAttemptQueued" "inner_event CoordinatorEventInvocationDispatched"
  "inner_event CoordinatorEventInvocationCommitted" "inner_event CoordinatorEventRepairQueued"
  "inner_event CoordinatorEventRetryQueued" "inner_event CoordinatorEventExtractionQueued"
  by (simp_all add: inner_event_def)

lemma open_role_simps [simp]:
  "inner_event (te_kind e) \<Longrightarrow> open_role w r (note_event e x) \<longleftrightarrow> open_role w r x"
  "open_role w r (x\<lparr>ex_nextJob := k\<rparr>) \<longleftrightarrow> open_role w r x"
  by (auto simp: open_role_def inner_event_def)

lemma move_role_at [simp]:
  assumes "open_role w r x" "RoleTaskState_CanTransition n m"
  shows "move_role r m (with_role r st c n x) = (Inr (), with_role r st c m x)"
proof -
  let ?y = "with_role r st c n x"
  have run: "distinct (selected (ex_run ?y))" "run_state (ex_run ?y) = RunRunning"
    "r \<in> set (selected (ex_run ?y))" "Role_Valid r"
    using assms(1) by (simp_all add: open_role_def)
  have "RoleTaskState_CanTransition (coordinatorRoleState (ex_run ?y) r) m"
    using assms run(3) by (simp add: role_state_set_task open_role_def)
  from move_role_to [OF run(1,2,3,4) this] show ?thesis
    by (simp add: with_role_def set_task_def)
qed

section \<open>Recording and queueing\<close>

text \<open>The events of a role with the payloads that their validator asks for.\<close>

definition payload_ok ::
    "CoordinatorEventKind \<Rightarrow> InvocationPurpose option \<Rightarrow> AttemptCondition option \<Rightarrow> string \<Rightarrow> bool" where
  "payload_ok kind purpose condition reason \<longleftrightarrow>
     kind = CoordinatorEventAttemptQueued \<and> purpose = None \<and> condition = None \<and> reason = '''' \<or>
     kind \<in> {CoordinatorEventInvocationDispatched, CoordinatorEventExtractionQueued} \<and>
       (\<exists>p \<in> purposes. purpose = Some p) \<and> condition = None \<and> reason = '''' \<or>
     kind = CoordinatorEventInvocationCommitted \<and>
       (\<exists>p \<in> purposes. purpose = Some p) \<and> (\<exists>c. AttemptCondition_Valid c \<and> condition = Some c) \<and> reason = '''' \<or>
     kind \<in> {CoordinatorEventRepairQueued, CoordinatorEventRetryQueued} \<and>
       (\<exists>p \<in> purposes. purpose = Some p) \<and> condition = None \<and>
       (\<exists>c. AttemptCondition_Valid c \<and> reason = AttemptCondition_string c) \<or>
     kind = CoordinatorEventRoleTerminal \<and> purpose = None \<and>
       (\<exists>c. AttemptCondition_Valid c \<and> condition = Some c \<and> reason = AttemptCondition_string c)"

lemma condition_string_known:
  "AttemptCondition_Valid c \<Longrightarrow> AttemptCondition_string c \<in> AttemptCondition_string ` set AttemptConditions"
  by (auto simp: AttemptCondition_Valid_def AttemptConditions_def dest!: lookup_Some)

lemma payload_role_event: "payload_ok kind purpose condition reason \<Longrightarrow> roleEvent kind"
  by (auto simp: payload_ok_def roleEvent_def)

lemma payload_validates:
  assumes "payload_ok kind purpose condition reason" "ex_nextEvent x + 1 \<noteq> 0" "Role_Valid r"
    "AttemptID_id.valid_id i"
  shows "CoordinatorTraceEvent_validate (trace_event kind r (Some i) purpose condition reason no_run_state x) = None"
proof -
  note defs = CoordinatorTraceEvent_validate_def trace_event_def check_event_payload_def event_shape_def
    wants_def no_run_state_def no_purpose_def no_condition_def CoordinatorEventKind_Valid_def Let_def
  have "ParseAttemptID (AttemptID_String i) = Inr i" using assms(4) by (rule AttemptID_id.parse_str_valid)
  then show ?thesis
    using assms(1) unfolding payload_ok_def
    apply (elim disjE conjE bexE exE insertE emptyE)
    using assms(2-4) purpose_known condition_string_known
    by (simp_all add: defs)
qed

lemma record_attempt_at [simp]:
  assumes "open_role w r x" "ex_nextEvent x + 1 \<noteq> 0" "AttemptID_id.valid_id (att_id (cat_attempt c))"
    "payload_ok kind purpose condition reason"
  shows "record_attempt w kind r 0 purpose condition reason (with_role r st c n x) =
    (Inr (), with_role r st c n (note_event
       (trace_event kind r (Some (att_id (cat_attempt c))) purpose condition reason no_run_state x) x))"
proof -
  let ?y = "with_role r st c n x"
  have "roleEvent kind" "kind \<noteq> CoordinatorEventRunStarted" "kind \<noteq> CoordinatorEventWorkersCloseAuthorized"
    "kind \<noteq> CoordinatorEventRunTerminal"
    using assms(4) by (auto simp: payload_ok_def roleEvent_def)
  moreover have "Role_Valid r" "\<not> ex_runTerminalRecorded ?y" "ex_runStarted ?y" "\<not> ex_workersCloseAuthorized ?y"
    "r \<notin> set (ex_terminalRoles ?y)" "\<And>e. w_emit w e"
    using assms(1) by (simp_all add: open_role_def accepting_def with_role_def)
  moreover from this have "check_record kind r no_run_state ?y = None"
    using calculation by (simp add: check_record_def)
  ultimately show ?thesis
    using payload_validates [OF assms(4,2) _ assms(3)] by (simp add: record_attempt_def seq_def read_def record_event_def Let_def)
qed

definition budgeted :: "world \<Rightarrow> Role \<Rightarrow> ProviderRoute \<Rightarrow> bool" where
  "budgeted w r route \<longleftrightarrow>
     is_ok (canonicalCoordinatorRoute route) \<and>
     (\<exists>limits. invocationLimits w r route = Inr limits \<and> validateInvocationLimits limits = None)"

text \<open>The identities and the target that every job of the run repeats.\<close>

definition addressed :: "Run \<Rightarrow> bool" where
  "addressed run \<longleftrightarrow>
     is_ok (ParseSessionID (SessionID_String (run_sessionID run))) \<and>
     is_ok (ParseRunID (RunID_String (run_id run))) \<and> is_ok (canonicalCoordinatorTarget (run_target run))"

lemma addressed_set_task [simp]: "addressed (set_task r n run) \<longleftrightarrow> addressed run"
  by (simp add: addressed_def)

definition job_at :: "world \<Rightarrow> Role \<Rightarrow> coordinatorAttempt \<Rightarrow> InvocationPurpose \<Rightarrow> coordinatorExecution \<Rightarrow> InvocationJob" where
  "job_at w r c p x =
     \<lparr>ij_sessionID = run_sessionID (ex_run x), ij_runID = run_id (ex_run x), ij_role = r,
      ij_route = cat_route c, ij_target = projr (canonicalCoordinatorTarget (run_target (ex_run x))),
      ij_limits = projr (invocationLimits w r (cat_route c)), ij_attemptID = att_id (cat_attempt c),
      ij_purpose = p, ij_ordinal = ex_nextJob x + 1\<rparr>"

lemma job_at_simps [simp]:
  "ij_role (job_at w r c p x) = r" "ij_purpose (job_at w r c p x) = p"
  "ij_ordinal (job_at w r c p x) = ex_nextJob x + 1"
  by (simp_all add: job_at_def)

lemma new_job_at:
  assumes "budgeted w r (cat_route c)" "addressed (ex_run x)" "Role_Valid r"
    "AttemptID_id.valid_id (att_id (cat_attempt c))" "p \<in> purposes" "ex_nextJob x + 1 \<noteq> 0"
  shows "newInvocationJob (run_sessionID (ex_run x)) (run_id (ex_run x)) r (cat_route c) (run_target (ex_run x))
      (projr (invocationLimits w r (cat_route c))) (att_id (cat_attempt c)) p (ex_nextJob x + 1) =
    Inr (job_at w r c p x)"
proof -
  obtain t where t: "canonicalCoordinatorTarget (run_target (ex_run x)) = Inr t"
    using assms(2) by (auto simp: addressed_def is_ok_iff)
  obtain q where q: "canonicalCoordinatorRoute (cat_route c) = Inr q"
    using assms(1) by (auto simp: budgeted_def is_ok_iff)
  with canonicalCoordinatorRoute_Inr have "canonicalCoordinatorRoute (cat_route c) = Inr (cat_route c)" by auto
  moreover have "canonicalCoordinatorTarget t = Inr t" using t by (rule canonicalCoordinatorTarget_again)
  moreover obtain l where "invocationLimits w r (cat_route c) = Inr l" "validateInvocationLimits l = None"
    using assms(1) by (auto simp: budgeted_def)
  moreover have "ParseAttemptID (AttemptID_String (att_id (cat_attempt c))) = Inr (att_id (cat_attempt c))"
    using assms(4) by (rule AttemptID_id.parse_str_valid)
  moreover obtain s where "ParseSessionID (SessionID_String (run_sessionID (ex_run x))) = Inr s"
    using assms(2) by (auto simp: addressed_def is_ok_iff)
  moreover obtain n where "ParseRunID (RunID_String (run_id (ex_run x))) = Inr n"
    using assms(2) by (auto simp: addressed_def is_ok_iff)
  moreover have "SessionID_String (run_sessionID (ex_run x)) \<noteq> ''''" "RunID_String (run_id (ex_run x)) \<noteq> ''''"
    using assms(2) by (auto simp: addressed_def wellformed_kinds)
  ultimately show ?thesis
    using t assms(3,5,6) purpose_known [OF assms(5)]
    by (simp add: newInvocationJob_def job_at_def Let_def InvocationJob_validate_def check_job_content_def
        check_attempt_id_def)
qed

text \<open>A job of an attempt, as \<open>newJob\<close> makes them and \<open>attemptFor\<close> looks them up.\<close>

definition job_for :: "world \<Rightarrow> Role \<Rightarrow> coordinatorAttempt \<Rightarrow> InvocationJob \<Rightarrow> bool" where
  "job_for w r c j \<longleftrightarrow>
     job_ok j \<and> ij_role j = r \<and> ij_route j = cat_route c \<and> ij_attemptID j = att_id (cat_attempt c) \<and>
     invocationLimits w r (cat_route c) = Inr (ij_limits j) \<and> ij_purpose j \<in> purposes"

lemma newJob_at [simp]:
  assumes "budgeted w r (cat_route c)" "addressed (ex_run x)" "open_role w r x"
    "AttemptID_id.valid_id (att_id (cat_attempt c))" "p \<in> purposes" "ex_nextJob x + 1 \<noteq> 0"
  shows "newJob w r 0 p (with_role r st c n x) =
    (Inr (job_at w r c p x), with_role r st c n (x\<lparr>ex_nextJob := ex_nextJob x + 1\<rparr>))"
proof -
  have "Role_Valid r" using assms(3) by (simp add: open_role_def)
  note job = new_job_at [OF assms(1,2) this assms(4-6)]
  obtain l where "invocationLimits w r (cat_route c) = Inr l" using assms(1) by (auto simp: budgeted_def)
  with job show ?thesis
    by (simp add: newJob_def seq_def read_def change_def result_def give_def)
qed

lemma job_at_for:
  assumes "budgeted w r (cat_route c)" "addressed (ex_run x)" "Role_Valid r"
    "AttemptID_id.valid_id (att_id (cat_attempt c))" "p \<in> purposes" "ex_nextJob x + 1 \<noteq> 0"
  shows "job_for w r c (job_at w r c p x)"
  using newInvocationJob_ok [OF new_job_at [OF assms]] assms(1,5) by (auto simp: job_for_def budgeted_def)

lemma attemptFor_at [simp]:
  assumes "job_for w (ij_role j) c j"
  shows "attemptFor w j (with_role (ij_role j) st c n x) = (Inr 0, with_role (ij_role j) st c n x)"
proof -
  have "InvocationJob_clone j = j" using assms by (simp add: job_for_def job_ok_def)
  from arg_cong [OF this, of ij_route] have "InvocationJob_Route j = ij_route j"
    by (simp add: InvocationJob_clone_def)
  with assms show ?thesis
    by (simp add: attemptFor_def seq_def read_def result_def give_def attempt_matches_def job_for_def
        sameCoordinatorRoute_def)
qed

end
