(* ===== verification/Coordinator_Commit.thy ===== *)
theory Coordinator_Commit
  imports Coordinator_Roles
begin

text \<open>
  Committing the outcome of a job. When the attempt awaits the job's result and the diagnostics accept
  every event, the commit never fails: it ends the role, or queues the one follow-up the policy admits.
\<close>

section \<open>Committing an outcome\<close>

text \<open>An attempt that waits for the result of its invocation of purpose \<open>p\<close>.\<close>

definition awaits :: "InvocationPurpose \<Rightarrow> InvocationState \<Rightarrow> coordinatorAttempt \<Rightarrow> bool" where
  "awaits p s c \<longleftrightarrow>
     p \<in> purposes \<and> AttemptID_id.valid_id (att_id (cat_attempt c)) \<and>
     (\<exists>i pr b. cat_attempt c = shaped i pr p b (phase_of p) s False) \<and>
     (p = InvocationRetry \<longrightarrow> cat_retryUsed c) \<and> (p = InvocationRepair \<longrightarrow> cat_repairUsed c) \<and>
     (p = InvocationExtract \<longrightarrow> cat_acceptedOutput c \<noteq> None)"

definition room :: "nat \<Rightarrow> coordinatorExecution \<Rightarrow> bool" where
  "room k x \<longleftrightarrow> unat (ex_nextEvent x) + k < 2 ^ 64 \<and> unat (ex_nextJob x) + k < 2 ^ 64"

lemma room_le: "room k x \<Longrightarrow> m \<le> k \<Longrightarrow> room m x"
  by (simp add: room_def)

lemma unat_next: "unat n + k < 2 ^ 64 \<Longrightarrow> 0 < k \<Longrightarrow> unat (n + 1) = Suc (unat n)" for n :: uint64
  by (simp add: unat_word_ariths)

lemma room_next [simp]:
  assumes "room (Suc k) x"
  shows "room k (note_event e x)" "room k (x\<lparr>ex_nextJob := ex_nextJob x + 1\<rparr>)"
    "ex_nextEvent x + 1 \<noteq> 0" "ex_nextJob x + 1 \<noteq> 0"
proof -
  have "unat (ex_nextEvent x + 1) = Suc (unat (ex_nextEvent x))" "unat (ex_nextJob x + 1) = Suc (unat (ex_nextJob x))"
    using assms unat_next [of _ "Suc k"] by (simp_all add: room_def)
  with assms show "room k (note_event e x)" "room k (x\<lparr>ex_nextJob := ex_nextJob x + 1\<rparr>)"
    by (simp_all add: room_def)
  show "ex_nextEvent x + 1 \<noteq> 0" "ex_nextJob x + 1 \<noteq> 0"
    using \<open>unat (ex_nextEvent x + 1) = _\<close> \<open>unat (ex_nextJob x + 1) = _\<close> by (metis unat_0 nat.distinct(1))+
qed

lemma returns_at [simp]:
  "returns (change_attempt r 0 f) (with_role r st c n x) Q \<longleftrightarrow> Q () (with_role r st (f c) n x)"
  "rol_attempts (g (st\<lparr>rol_attempts := [c]\<rparr>)) = [c] \<Longrightarrow>
    returns (change_role r g) (with_role r st c n x) Q \<longleftrightarrow> Q () (with_role r (g (st\<lparr>rol_attempts := [c]\<rparr>)) c n x)"
  "h (Some (cat_attempt c)) = Inr a \<Longrightarrow>
    returns (move_attempt r 0 h) (with_role r st c n x) Q \<longleftrightarrow> Q () (with_role r st (c\<lparr>cat_attempt := a\<rparr>) n x)"
  "open_role w r x \<Longrightarrow> RoleTaskState_CanTransition n m \<Longrightarrow>
    returns (move_role r m) (with_role r st c n x) Q \<longleftrightarrow> Q () (with_role r st c m x)"
  by (rule returns_eq, simp)+

lemma returns_record_attempt [simp]:
  assumes "open_role w r x" "room 1 x" "AttemptID_id.valid_id (att_id (cat_attempt c))"
    "payload_ok kind purpose condition reason"
  shows "returns (record_attempt w kind r 0 purpose condition reason) (with_role r st c n x) Q \<longleftrightarrow>
    Q () (with_role r st c n (note_event
       (trace_event kind r (Some (att_id (cat_attempt c))) purpose condition reason no_run_state x) x))"
  using assms by (intro returns_eq record_attempt_at) simp_all

lemma returns_newJob [simp]:
  assumes "budgeted w r (cat_route c)" "addressed (ex_run x)" "open_role w r x"
    "AttemptID_id.valid_id (att_id (cat_attempt c))" "p \<in> purposes" "room 1 x"
  shows "returns (newJob w r 0 p) (with_role r st c n x) Q \<longleftrightarrow>
    Q (job_at w r c p x) (with_role r st c n (x\<lparr>ex_nextJob := ex_nextJob x + 1\<rparr>))"
  using assms by (intro returns_eq newJob_at) simp_all

lemma returns_attemptFor [simp]:
  "job_for w (ij_role j) c j \<Longrightarrow>
    returns (attemptFor w j) (with_role (ij_role j) st c n x) Q \<longleftrightarrow> Q 0 (with_role (ij_role j) st c n x)"
  by (intro returns_eq attemptFor_at)

lemma room_with_role [simp]: "room k (with_role r st c n x) \<longleftrightarrow> room k x"
  by (simp add: room_def)

text \<open>The role, its attempt and its task in an execution.\<close>

definition role_at ::
    "coordinatorExecution \<Rightarrow> Role \<Rightarrow> coordinatorRole \<Rightarrow> coordinatorAttempt \<Rightarrow> RoleTaskState \<Rightarrow> bool" where
  "role_at x r st c n \<longleftrightarrow>
     ex_roles x r = Some st \<and> rol_attempts st = [c] \<and> coordinatorRoleState (ex_run x) r = n"

lemma role_at_with_role [simp]:
  "open_role w r x \<Longrightarrow> role_at (with_role r st c n x) r st' c' n' \<longleftrightarrow>
     st' = st\<lparr>rol_attempts := [c]\<rparr> \<and> c' = c \<and> n' = n"
  by (auto simp: role_at_def role_state_set_task open_role_def)

text \<open>How far an operation on one role reaches.\<close>

definition elsewhere :: "Role \<Rightarrow> coordinatorExecution \<Rightarrow> coordinatorExecution \<Rightarrow> bool" where
  "elsewhere r x y \<longleftrightarrow>
     (\<forall>q. q \<noteq> r \<longrightarrow> ex_roles y q = ex_roles x q \<and>
        coordinatorRoleState (ex_run y) q = coordinatorRoleState (ex_run x) q \<and>
        (q \<in> set (ex_terminalRoles y) \<longleftrightarrow> q \<in> set (ex_terminalRoles x))) \<and>
     run_id (ex_run y) = run_id (ex_run x) \<and> run_sessionID (ex_run y) = run_sessionID (ex_run x) \<and>
     run_target (ex_run y) = run_target (ex_run x) \<and> run_state (ex_run y) = run_state (ex_run x) \<and>
     selected (ex_run y) = selected (ex_run x) \<and> ex_used y = ex_used x \<and> ex_issued y = ex_issued x \<and>
     ex_extractionAdmitted y = ex_extractionAdmitted x \<and> ex_stopping y = ex_stopping x \<and>
     ex_cancelled y = ex_cancelled x \<and> ex_runStarted y = ex_runStarted x \<and>
     ex_workersCloseAuthorized y = ex_workersCloseAuthorized x \<and>
     ex_runTerminalRecorded y = ex_runTerminalRecorded x \<and>
     ex_dispatchStopRecorded y = ex_dispatchStopRecorded x \<and> ex_stopCondition y = ex_stopCondition x \<and>
     ex_dispatchStopCondition y = ex_dispatchStopCondition x"

lemma elsewhere_refl [simp]: "elsewhere r x x"
  by (simp add: elsewhere_def)

lemma elsewhere_trans: "elsewhere r x y \<Longrightarrow> elsewhere r y z \<Longrightarrow> elsewhere r x z"
  unfolding elsewhere_def by simp

lemma role_state_other [simp]: "q \<noteq> r \<Longrightarrow> coordinatorRoleState (set_task r n run) q = coordinatorRoleState run q"
  by (simp add: role_state_set_task)

lemma elsewhere_with_role [simp]:
  "elsewhere r x (with_role r st c n y) \<longleftrightarrow> elsewhere r x y"
  "elsewhere r (with_role r st c n x) y \<longleftrightarrow> elsewhere r x y"
  by (simp_all add: elsewhere_def cong: conj_cong imp_cong)

lemma elsewhere_note [simp]:
  assumes "inner_event (te_kind e) \<or> te_kind e = CoordinatorEventRoleTerminal \<and> te_role e = r"
  shows "elsewhere r x (note_event e y) \<longleftrightarrow> elsewhere r x y"
proof -
  have "te_kind e \<noteq> CoordinatorEventRunStarted" "te_kind e \<noteq> CoordinatorEventWorkersCloseAuthorized"
    "te_kind e \<noteq> CoordinatorEventRunTerminal" "te_kind e = CoordinatorEventRoleTerminal \<longrightarrow> te_role e = r"
    using assms by (auto simp: inner_event_def)
  then show ?thesis by (simp add: elsewhere_def cong: conj_cong imp_cong)
qed

lemma elsewhere_job [simp]: "elsewhere r x (y\<lparr>ex_nextJob := k\<rparr>) \<longleftrightarrow> elsewhere r x y"
  by (simp add: elsewhere_def)

lemma elsewhere_note_left:
  "elsewhere r (note_event e x) y \<Longrightarrow> inner_event (te_kind e) \<Longrightarrow> elsewhere r x y"
  using elsewhere_trans [of r x "note_event e x" y] by simp

text \<open>What a commit leaves of the role: its assignment, and one attempt on the same route.\<close>

definition same_role :: "coordinatorRole \<Rightarrow> coordinatorAttempt \<Rightarrow> coordinatorRole \<Rightarrow> coordinatorAttempt \<Rightarrow> bool" where
  "same_role st c st' c' \<longleftrightarrow>
     rol_assignment st' = rol_assignment st \<and> rol_currentAttempt st' = rol_currentAttempt st \<and>
     cat_route c' = cat_route c \<and> att_id (cat_attempt c') = att_id (cat_attempt c)"

definition role_ends :: "Role \<Rightarrow> uint64 \<Rightarrow> coordinatorRole \<Rightarrow> coordinatorAttempt \<Rightarrow> coordinatorExecution \<Rightarrow> bool" where
  "role_ends r n st c y \<longleftrightarrow>
     ex_nextJob y = n \<and> r \<in> set (ex_terminalRoles y) \<and>
     (\<exists>st' c' n. role_at y r st' c' n \<and> same_role st c st' c' \<and> roleTaskTerminal n \<and>
        attempt_over (att_state (cat_attempt c')))"

lemma role_ends_at:
  assumes "open_role w r x" "te_kind e = CoordinatorEventRoleTerminal" "te_role e = r"
    "same_role st c st' c'" "roleTaskTerminal n" "attempt_over (att_state (cat_attempt c'))"
  shows "role_ends r (ex_nextJob x) st c (with_role r st' c' n (note_event e x))"
proof -
  have "role_at (with_role r st' c' n (note_event e x)) r (st'\<lparr>rol_attempts := [c']\<rparr>) c' n"
    using assms(1) by (simp add: role_at_def role_state_set_task open_role_def)
  moreover have "same_role st c (st'\<lparr>rol_attempts := [c']\<rparr>) c'" using assms(4) by (simp add: same_role_def)
  ultimately show ?thesis using assms(2,3,5,6) unfolding role_ends_def
    by (auto simp: with_role_def)
qed


lemma terminalize_at:
  assumes "p \<in> purposes"
    "attempt_over (att_state (cat_attempt c)) \<and> k \<noteq> AttemptConditionValidReview \<or>
     conditionRequiresValidation k \<and> cat_attempt c = shaped i pr p b AttemptValidating InvocationSucceeded m"
    "\<And>c'. cat_route c' = cat_route c \<Longrightarrow> att_id (cat_attempt c') = att_id (cat_attempt c) \<Longrightarrow>
      attempt_over (att_state (cat_attempt c')) \<Longrightarrow> Q () (with_role r st c' n x)"
  shows "returns (terminalizeAttempt r 0 k) (with_role r st c n x) Q"
proof (cases "attempt_over (att_state (cat_attempt c))")
  case True
  then show ?thesis using assms(3) by (simp add: terminalizeAttempt_def)
next
  case False
  let ?s = "if k = AttemptConditionValidReview then AttemptSucceeded else AttemptFailed"
  from False assms(1,2) have a: "conditionRequiresValidation k"
    "cat_attempt c = shaped i pr p b AttemptValidating InvocationSucceeded m" by auto
  with assms(1) have "Attempt_Transition (Some (cat_attempt c)) ?s = Inr (shaped i pr p b ?s InvocationSucceeded m)"
    by auto
  moreover have "k \<noteq> AttemptConditionTimeout" "k \<noteq> AttemptConditionCancelled"
    using a by (auto simp: conditionRequiresValidation_def)
  ultimately show ?thesis using a assms(3) False
    by (auto simp: terminalizeAttempt_def attempt_over_def)
qed

lemma project_at:
  assumes "open_role w r x" "terminal_decision k d" "attempt_over (att_state (cat_attempt c))"
    "\<And>st' c' n'. same_role st c st' c' \<Longrightarrow> roleTaskTerminal n' \<Longrightarrow> attempt_over (att_state (cat_attempt c')) \<Longrightarrow>
      Q () (with_role r st' c' n' x)"
  shows "returns (project_role r 0 out d) (with_role r st c RoleTaskPrimaryRunning x) Q"
  using assms(1,2)
  by (auto simp: terminal_decision_def project_role_def accept_output_def
      intro!: assms(4)) (auto simp: same_role_def roleTaskTerminal_def assms(3))

lemma end_role_at:
  assumes "open_role w (ij_role j) x" "room 1 x" "AttemptID_id.valid_id (att_id (cat_attempt c))" "p \<in> purposes"
    and "AttemptCondition_Valid k" "td_condition d = k" "td_reasonCode d = AttemptCondition_string k"
      "terminal_decision k d"
    and "attempt_over (att_state (cat_attempt c)) \<and> k \<noteq> AttemptConditionValidReview \<or>
      conditionRequiresValidation k \<and> cat_attempt c = shaped i pr p b AttemptValidating InvocationSucceeded m"
    and "\<And>y. elsewhere (ij_role j) x y \<Longrightarrow> (\<And>k. room (k + 1) x \<Longrightarrow> room k y) \<Longrightarrow>
      role_ends (ij_role j) (ex_nextJob x) st c y \<Longrightarrow> Q [] y"
  shows "returns (end_role w j 0 out k d) (with_role (ij_role j) st c RoleTaskPrimaryRunning x) Q"
proof -
  let ?r = "ij_role j"
  let ?e = "trace_event CoordinatorEventRoleTerminal ?r (Some (att_id (cat_attempt c))) None (Some k)
    (AttemptCondition_string k) no_run_state x"
  have payload: "payload_ok CoordinatorEventRoleTerminal None (Some k) (AttemptCondition_string k)"
    using assms(5) by (auto simp: payload_ok_def)
  have last: "Q [] (with_role ?r st' c' n' (note_event ?e x))"
    if "same_role st c st' c'" "roleTaskTerminal n'" "attempt_over (att_state (cat_attempt c'))" for st' c' n'
    using role_ends_at [OF assms(1) _ _ that] by (intro assms(10)) simp_all
  show ?thesis
    unfolding end_role_def Let_def
    apply (simp add: assms(6,7))
    apply (rule terminalize_at [OF assms(4,9)])
    using assms(1-3) last payload
    apply (auto intro!: project_at [OF assms(1,8)] simp: same_role_def)
    done
qed

text \<open>Or it leaves the role with one more invocation, which the job asks for.\<close>

definition role_goes_on ::
    "world \<Rightarrow> Role \<Rightarrow> uint64 \<Rightarrow> coordinatorRole \<Rightarrow> coordinatorAttempt \<Rightarrow> InvocationJob list \<Rightarrow>
     coordinatorExecution \<Rightarrow> bool" where
  "role_goes_on w r n st c js y \<longleftrightarrow>
     ex_nextJob y = n + 1 \<and>
     r \<notin> set (ex_terminalRoles y) \<and>
     (\<exists>st' c' j'. js = [j'] \<and> role_at y r st' c' RoleTaskPrimaryRunning \<and> same_role st c st' c' \<and>
        ij_purpose j' \<noteq> InvocationInitial \<and> awaits (ij_purpose j') InvocationQueued c' \<and>
        job_for w r c' j' \<and> ij_ordinal j' = ex_nextJob y)"

lemma queue_at:
  assumes "open_role w r x" "budgeted w r (cat_route c)" "addressed (ex_run x)" "room 2 x"
    and "payload_ok kind (Some q) None reason" "q \<in> purposes" "q \<noteq> InvocationInitial"
    and "awaits q InvocationQueued c'" "same_role st c st' c'" "kind \<noteq> CoordinatorEventRoleTerminal"
    and "\<And>js y. elsewhere r x y \<Longrightarrow> (\<And>k. room (k + 2) x \<Longrightarrow> room k y) \<Longrightarrow>
      role_goes_on w r (ex_nextJob x) st c js y \<Longrightarrow> Q js y"
  shows "returns (queue_followup w r 0 q kind reason) (with_role r st' c' RoleTaskPrimaryRunning x) Q"
proof -
  let ?j = "job_at w r c' q x" and ?x = "x\<lparr>ex_nextJob := ex_nextJob x + 1\<rparr>"
  let ?e = "trace_event kind r (Some (att_id (cat_attempt c'))) (Some q) None reason no_run_state ?x"
  let ?y = "with_role r st' c' RoleTaskPrimaryRunning (note_event ?e ?x)"
  have inner: "inner_event kind" using assms(5,10) by (auto simp: payload_ok_def inner_event_def)
  have id: "AttemptID_id.valid_id (att_id (cat_attempt c'))" using assms(8) by (simp add: awaits_def)
  have route: "budgeted w r (cat_route c')" using assms(2,9) by (simp add: same_role_def)
  have room: "room (Suc 1) x" "room 1 x" "room 1 ?x" "\<And>k. room (k + 2) x \<Longrightarrow> room k (note_event ?e ?x)"
    using assms(4) room_le by (auto simp: numeral_2_eq_2)
  have "role_goes_on w r (ex_nextJob x) st c [?j] ?y"
  proof -
    have "job_for w r c' ?j"
      using assms(1,3,6) id route room(2) by (intro job_at_for) (auto simp: open_role_def)
    moreover have "role_at ?y r (st'\<lparr>rol_attempts := [c']\<rparr>) c' RoleTaskPrimaryRunning"
      using assms(1) inner by simp
    moreover have "same_role st c (st'\<lparr>rol_attempts := [c']\<rparr>) c'" using assms(9) by (simp add: same_role_def)
    moreover have "r \<notin> set (ex_terminalRoles ?y)" using assms(1,10) by (simp add: open_role_def)
    ultimately show ?thesis using assms(7,8) unfolding role_goes_on_def by fastforce
  qed
  moreover have "elsewhere r x ?y" using inner by simp
  ultimately have "Q [?j] ?y" using room(4) by (intro assms(11)) simp_all
  then show ?thesis
    using assms(1,3,5,6) id route room by (simp add: queue_followup_def)
qed

text \<open>The three ways on from a decision.\<close>

lemma follow_retry:
  assumes "open_role w (ij_role j) x" "budgeted w (ij_role j) (cat_route c)" "addressed (ex_run x)" "room 2 x"
    and "AttemptID_id.valid_id (att_id (cat_attempt c))" "AttemptCondition_Valid k"
      "td_reasonCode d = AttemptCondition_string k" "td_scheduleRetry d" "ij_purpose j = InvocationInitial"
    and "cat_attempt c = shaped i pr InvocationInitial b AttemptRunning InvocationRunning m"
    and "\<And>js y. elsewhere (ij_role j) x y \<Longrightarrow> (\<And>k. room (k + 2) x \<Longrightarrow> room k y) \<Longrightarrow>
      role_goes_on w (ij_role j) (ex_nextJob x) st c js y \<Longrightarrow> Q js y"
  shows "returns (follow_decision w j 0 out k quiet d) (with_role (ij_role j) st c RoleTaskPrimaryRunning x) Q"
proof -
  have failed: "TransitionInvocation (Some (cat_attempt c)) (invocationSequence InvocationInitial) InvocationFailed =
      Inr (shaped i pr InvocationInitial b AttemptRunning InvocationFailed m)"
    using transition_shaped [of InvocationInitial InvocationRunning InvocationFailed i pr b m] assms(10)
    by (simp add: purposes_def phase_of_def)
  have valid: "InvocationPurpose_Valid InvocationRetry" "InvocationRetry \<in> purposes"
    by (simp_all add: InvocationPurpose_Valid_def purposes_def)
  have payload: "payload_ok CoordinatorEventRetryQueued (Some InvocationRetry) None (td_reasonCode d)"
    using assms(6,7) valid by (auto simp: payload_ok_def)
  let ?c = "c\<lparr>cat_attempt := shaped i pr InvocationRetry m AttemptRunning InvocationQueued False, cat_retryUsed := True\<rparr>"
  have "awaits InvocationRetry InvocationQueued ?c" "same_role st c st ?c"
    using assms(5,10) valid by (auto simp: awaits_def phase_of_def same_role_def)
  from queue_at [OF assms(1-4) payload valid(2) _ this] assms(11)
  have "returns (queue_followup w (ij_role j) 0 InvocationRetry CoordinatorEventRetryQueued (td_reasonCode d))
      (with_role (ij_role j) st ?c RoleTaskPrimaryRunning x) Q" by simp
  then show ?thesis using assms(8,9) failed valid by (simp add: follow_decision_def Let_def)
qed

lemma follow_repair:
  assumes "open_role w (ij_role j) x" "budgeted w (ij_role j) (cat_route c)" "addressed (ex_run x)" "room 2 x"
    and "AttemptID_id.valid_id (att_id (cat_attempt c))" "AttemptCondition_Valid k"
      "td_reasonCode d = AttemptCondition_string k" "\<not> td_scheduleRetry d" "td_scheduleRepair d"
      "conditionRequiresValidation k"
    and "cat_attempt c = shaped i pr InvocationInitial b AttemptValidating InvocationSucceeded m"
    and "\<And>js y. elsewhere (ij_role j) x y \<Longrightarrow> (\<And>k. room (k + 2) x \<Longrightarrow> room k y) \<Longrightarrow>
      role_goes_on w (ij_role j) (ex_nextJob x) st c js y \<Longrightarrow> Q js y"
  shows "returns (follow_decision w j 0 out k quiet d) (with_role (ij_role j) st c RoleTaskPrimaryRunning x) Q"
proof -
  have valid: "InvocationPurpose_Valid InvocationRepair" "InvocationRepair \<in> purposes"
    by (simp_all add: InvocationPurpose_Valid_def purposes_def)
  have payload: "payload_ok CoordinatorEventRepairQueued (Some InvocationRepair) None (td_reasonCode d)"
    using assms(6,7) valid by (auto simp: payload_ok_def)
  let ?c = "c\<lparr>cat_attempt := shaped i pr InvocationRepair m AttemptRepairing InvocationQueued False, cat_repairUsed := True\<rparr>"
  have "awaits InvocationRepair InvocationQueued ?c" "same_role st c st ?c"
    using assms(5,11) valid by (auto simp: awaits_def phase_of_def same_role_def)
  from queue_at [OF assms(1-4) payload valid(2) _ this] assms(12)
  have "returns (queue_followup w (ij_role j) 0 InvocationRepair CoordinatorEventRepairQueued (td_reasonCode d))
      (with_role (ij_role j) st ?c RoleTaskPrimaryRunning x) Q" by simp
  then show ?thesis using assms(8-11) valid by (simp add: follow_decision_def Let_def)
qed

lemma schedule_at:
  assumes "open_role w (ij_role j) x" "budgeted w (ij_role j) (cat_route c)" "addressed (ex_run x)" "room 2 x"
    and "AttemptID_id.valid_id (att_id (cat_attempt c))"
    and "td_terminalProjection d = TerminalProjectionSucceeded \<Longrightarrow> ij_purpose j = InvocationInitial \<Longrightarrow>
      cat_attempt c = shaped i pr InvocationInitial b AttemptValidating InvocationSucceeded m"
    and "same_role st' c' st c" "Q None (with_role (ij_role j) st c RoleTaskPrimaryRunning x)"
    and "\<And>js y. ij_purpose j = InvocationInitial \<Longrightarrow> elsewhere (ij_role j) x y \<Longrightarrow>
      (\<And>k. room (k + 2) x \<Longrightarrow> room k y) \<Longrightarrow> role_goes_on w (ij_role j) (ex_nextJob x) st c js y \<Longrightarrow> \<not> quiet \<Longrightarrow> Q (Some js) y"
  shows "returns (scheduleExtraction w j 0 out d quiet) (with_role (ij_role j) st c RoleTaskPrimaryRunning x) Q"
proof (cases "td_terminalProjection d = TerminalProjectionSucceeded \<and> ij_purpose j = InvocationInitial \<and> \<not> quiet")
  case False
  then show ?thesis using assms(8) by (auto simp: scheduleExtraction_def Let_def)
next
  case True
  note c = assms(6) [OF conjunct1 [OF True] conjunct1 [OF conjunct2 [OF True]]]
  have valid: "InvocationPurpose_Valid InvocationExtract" "InvocationExtract \<in> purposes"
    by (simp_all add: InvocationPurpose_Valid_def purposes_def)
  have payload: "payload_ok CoordinatorEventExtractionQueued (Some InvocationExtract) None ''''"
    using valid by (auto simp: payload_ok_def)
  let ?c = "c\<lparr>cat_attempt := shaped i pr InvocationExtract m AttemptValidating InvocationQueued False,
    cat_extractUsed := True, cat_acceptedOutput := Some (ValidatedRoleOutput_clone out)\<rparr>"
  have "awaits InvocationExtract InvocationQueued ?c" "same_role st c st ?c"
    using assms(5) c valid by (auto simp: awaits_def phase_of_def same_role_def)
  from queue_at [OF assms(1-4) payload valid(2) _ this] assms(9) True
  have "returns (queue_followup w (ij_role j) 0 InvocationExtract CoordinatorEventExtractionQueued '''')
      (with_role (ij_role j) st ?c RoleTaskPrimaryRunning x) (\<lambda>js. Q (Some js))" by simp
  then show ?thesis using True c valid assms(8) by (auto simp: scheduleExtraction_def Let_def before_def)
qed

lemma same_role_trans:
  "same_role st c st' c' \<Longrightarrow> same_role st' c' st'' c'' \<Longrightarrow> same_role st c st'' c''"
  by (simp add: same_role_def)

lemma role_ends_same: "role_ends r n st' c' y \<Longrightarrow> same_role st c st' c' \<Longrightarrow> role_ends r n st c y"
  unfolding role_ends_def using same_role_trans by blast

lemma role_goes_on_same: "role_goes_on w r n st' c' js y \<Longrightarrow> same_role st c st' c' \<Longrightarrow> role_goes_on w r n st c js y"
  unfolding role_goes_on_def using same_role_trans by blast

lemma follow_terminal:
  assumes "open_role w (ij_role j) x" "budgeted w (ij_role j) (cat_route c)" "addressed (ex_run x)" "room 2 x"
    and "AttemptID_id.valid_id (att_id (cat_attempt c))" "AttemptCondition_Valid k"
      "td_reasonCode d = AttemptCondition_string k" "td_condition d = k" "terminal_decision k d"
    and "ij_purpose j \<in> purposes"
    and "conditionRequiresValidation k \<and>
        cat_attempt c = shaped i pr (ij_purpose j) b AttemptValidating InvocationSucceeded m \<or>
      \<not> conditionRequiresValidation k \<and>
        cat_attempt c = shaped i pr (ij_purpose j) b (phase_of (ij_purpose j)) InvocationRunning m \<and>
        (ij_purpose j = InvocationExtract \<longrightarrow> k \<noteq> AttemptConditionTimeout)"
    and "\<And>y. elsewhere (ij_role j) x y \<Longrightarrow> (\<And>k. room (k + 2) x \<Longrightarrow> room k y) \<Longrightarrow>
      role_ends (ij_role j) (ex_nextJob x) st c y \<Longrightarrow> Q [] y"
    and "\<And>js y. elsewhere (ij_role j) x y \<Longrightarrow> (\<And>k. room (k + 2) x \<Longrightarrow> room k y) \<Longrightarrow>
      ij_purpose j = InvocationInitial \<Longrightarrow> \<not> quiet \<Longrightarrow> role_goes_on w (ij_role j) (ex_nextJob x) st c js y \<Longrightarrow> Q js y"
  shows "returns (follow_decision w j 0 out k quiet d) (with_role (ij_role j) st c RoleTaskPrimaryRunning x) Q"
proof -
  let ?r = "ij_role j"
  have terminal: "\<not> td_scheduleRetry d" "\<not> td_scheduleRepair d"
    "td_terminalProjection d = TerminalProjectionSucceeded \<longleftrightarrow> k = AttemptConditionValidReview"
    using assms(9) by (auto simp: terminal_decision_def)
  have room: "room 1 x" "room k y" if "\<And>k. room (k + 1) x \<Longrightarrow> room k y" "room (k + 2) x" for k y
    using that assms(4) room_le [of 2 x 1] room_le [of "k + 2" x "k + 1"] by auto
  have room1: "room 1 x" using assms(4) room_le by fastforce
  have ending: "returns (end_role w j 0 (outcome_output out) k d) (with_role ?r st' c' RoleTaskPrimaryRunning x) Q"
    if "same_role st c st' c'"
      "attempt_over (att_state (cat_attempt c')) \<and> k \<noteq> AttemptConditionValidReview \<or>
       conditionRequiresValidation k \<and> cat_attempt c' = shaped i pr (ij_purpose j) b AttemptValidating InvocationSucceeded m"
    for st' c'
  proof (rule end_role_at [OF assms(1) room1 _ assms(10,6,8,7,9) that(2)])
    show "AttemptID_id.valid_id (att_id (cat_attempt c'))" using that(1) assms(5) by (simp add: same_role_def)
    show "Q [] y" if "elsewhere ?r x y" "\<And>k. room (k + 1) x \<Longrightarrow> room k y" "role_ends ?r (ex_nextJob x) st' c' y" for y
      using that room \<open>same_role st c st' c'\<close> role_ends_same by (intro assms(12)) blast+
  qed
  have scheduling: "returns (scheduleExtraction w j 0 (outcome_output out) d quiet)
      (with_role ?r st' c' RoleTaskPrimaryRunning x)
      (\<lambda>scheduled y. returns (case scheduled of Some js \<Rightarrow> give js | None \<Rightarrow> end_role w j 0 (outcome_output out) k d) y Q)"
    if "same_role st c st' c'"
      "attempt_over (att_state (cat_attempt c')) \<and> k \<noteq> AttemptConditionValidReview \<or>
       conditionRequiresValidation k \<and> cat_attempt c' = shaped i pr (ij_purpose j) b AttemptValidating InvocationSucceeded m"
    for st' c'
  proof (rule schedule_at [OF assms(1) _ assms(3,4)])
    show "budgeted w ?r (cat_route c')" using that(1) assms(2) by (simp add: same_role_def)
    show "AttemptID_id.valid_id (att_id (cat_attempt c'))" using that(1) assms(5) by (simp add: same_role_def)
    show "cat_attempt c' = shaped i pr InvocationInitial b AttemptValidating InvocationSucceeded m"
      if "td_terminalProjection d = TerminalProjectionSucceeded" "ij_purpose j = InvocationInitial"
      using that terminal(3) \<open>attempt_over _ \<and> _ \<or> _\<close> by auto
    show "same_role st' c' st' c'" by (simp add: same_role_def)
    show "returns (case None of Some js \<Rightarrow> give js | None \<Rightarrow> end_role w j 0 (outcome_output out) k d)
        (with_role ?r st' c' RoleTaskPrimaryRunning x) Q"
      using ending [OF that] by simp
    show "returns (case Some js of Some js \<Rightarrow> give js | None \<Rightarrow> end_role w j 0 (outcome_output out) k d) y Q"
      if "ij_purpose j = InvocationInitial" "elsewhere ?r x y" "\<And>k. room (k + 2) x \<Longrightarrow> room k y"
        "role_goes_on w ?r (ex_nextJob x) st' c' js y" "\<not> quiet" for js y
      using assms(13) [OF that(2,3,1,5)] role_goes_on_same [OF that(4) \<open>same_role st c st' c'\<close>] by simp
  qed
  from assms(11) show ?thesis
  proof
    assume "conditionRequiresValidation k \<and>
      cat_attempt c = shaped i pr (ij_purpose j) b AttemptValidating InvocationSucceeded m"
    then show ?thesis using scheduling [of _ c] terminal
      by (simp add: follow_decision_def Let_def same_role_def)
  next
    assume failed: "\<not> conditionRequiresValidation k \<and>
        cat_attempt c = shaped i pr (ij_purpose j) b (phase_of (ij_purpose j)) InvocationRunning m \<and>
        (ij_purpose j = InvocationExtract \<longrightarrow> k \<noteq> AttemptConditionTimeout)"
    then have "k \<noteq> AttemptConditionValidReview" by (auto simp: conditionRequiresValidation_def)
    moreover have "AttemptState_CanTransition (phase_of (ij_purpose j))
       (if k = AttemptConditionTimeout then AttemptTimedOut
        else if k = AttemptConditionCancelled then AttemptCancelled else AttemptFailed)"
      using failed assms(10) by (auto simp: phase_of_def purposes_def)
    ultimately show ?thesis using failed assms(10) terminal scheduling
      by (auto simp: follow_decision_def Let_def transitionFailedInvocation_def same_role_def attempt_over_def)
  qed
qed

lemma mark_at:
  assumes "p \<in> purposes" "ij_purpose j = p" "cat_attempt c = shaped i pr p b a InvocationRunning False"
    and "\<And>m. Q () (with_role r st (c\<lparr>cat_attempt := shaped i pr p b a InvocationRunning m\<rparr>) n x)"
  shows "returns (mark_artifacts r 0 j out) (with_role r st c n x) Q"
proof -
  have same: "c\<lparr>cat_attempt := shaped i pr p b a InvocationRunning False\<rparr> = c" using assms(3) by simp
  show ?thesis using assms(1-3) assms(4) [of True] assms(4) [of False, unfolded same]
    by (auto simp: mark_artifacts_def)
qed

lemma valid_review_valid: "AttemptCondition_Valid AttemptConditionValidReview"
  by code_simp

text \<open>
  The trailer of an accepted report. Whatever became of it, as long as its failure is bounded, the role
  succeeds: with the extracted output, or with the report that was accepted before.
\<close>

lemma commit_extraction:
  assumes "open_role w (ij_role j) x" "room 2 x" "job_for w (ij_role j) c j"
    and "ij_purpose j = InvocationExtract" "awaits InvocationExtract InvocationRunning c" "AttemptCondition_Valid k"
    and "\<And>y. elsewhere (ij_role j) x y \<Longrightarrow> (\<And>k. room (k + 2) x \<Longrightarrow> room k y) \<Longrightarrow>
      role_ends (ij_role j) (ex_nextJob x) st c y \<Longrightarrow> coordinatorRoleState (ex_run y) (ij_role j) = RoleTaskSucceeded \<Longrightarrow>
      rol_output (role_state (ij_role j) y) = Some (ValidatedRoleOutput_clone
        (case (ao_output out, k = AttemptConditionValidReview) of
           (Some extracted, True) \<Rightarrow> ValidatedRoleOutput_clone extracted
         | _ \<Rightarrow> the (cat_acceptedOutput c))) \<Longrightarrow> Q [] y"
  shows "returns (commitExtractionOutcome w j out k) (with_role (ij_role j) st c RoleTaskPrimaryRunning x) Q"
proof -
  let ?r = "ij_role j"
  obtain i pr b where c: "cat_attempt c = shaped i pr InvocationExtract b AttemptValidating InvocationRunning False"
    and id: "AttemptID_id.valid_id (att_id (cat_attempt c))" and "cat_acceptedOutput c \<noteq> None"
    using assms(5) by (auto simp: awaits_def phase_of_def)
  then obtain report where report: "cat_acceptedOutput c = Some report" by blast
  have purpose: "InvocationExtract \<in> purposes" by (simp add: purposes_def)
  define n where "n = (if ao_output out \<noteq> None \<and> k = AttemptConditionValidReview then InvocationSucceeded
    else if k = AttemptConditionTimeout \<or> k = AttemptConditionProviderTimeout then InvocationTimedOut
    else if k = AttemptConditionCancelled then InvocationCancelled else InvocationFailed)"
  have ends: "terminalInvocationState n" "InvocationState_CanTransition InvocationRunning n"
    by (auto simp: n_def terminalInvocationState_def InvocationState_Valid_def)
  have moved: "TransitionInvocation (Some (shaped i pr InvocationExtract b AttemptValidating InvocationRunning m))
      (invocationSequence InvocationExtract) n = Inr (shaped i pr InvocationExtract b AttemptValidating n m)" for m
    using transition_shaped [OF purpose ends(2), of i pr b m] by (simp add: phase_of_def)
  have done_with: "Attempt_Transition (Some (shaped i pr InvocationExtract b AttemptValidating n m)) AttemptSucceeded =
      Inr (shaped i pr InvocationExtract b AttemptSucceeded n m)" for m
    using succeed_shaped [OF purpose, of n] ends by simp
  have committed: "payload_ok CoordinatorEventInvocationCommitted (Some InvocationExtract) (Some k) ''''"
    using assms(6) purpose by (auto simp: payload_ok_def)
  have terminal: "payload_ok CoordinatorEventRoleTerminal None (Some AttemptConditionValidReview)
      (AttemptCondition_string AttemptConditionValidReview)"
    using valid_review_valid by (auto simp: payload_ok_def)
  note role = assms(1) and job = assms(3) [unfolded assms(4)]
  have room: "room 1 x" "room 1 (note_event e x)" for e using assms(2) room_le [of 2 x 1] by (simp_all add: numeral_2_eq_2)
  let ?e = "trace_event CoordinatorEventInvocationCommitted ?r (Some (att_id (cat_attempt c)))
    (Some InvocationExtract) (Some k) '''' no_run_state x"
  let ?x = "note_event ?e x"
  define final where "final = (case (ao_output out, k = AttemptConditionValidReview) of
      (Some extracted, True) \<Rightarrow> ValidatedRoleOutput_clone extracted | _ \<Rightarrow> report)"
  have ending: "Q [] (with_role ?r st' c' RoleTaskSucceeded (note_event e ?x))"
    if "same_role st c st' c'" "attempt_over (att_state (cat_attempt c'))" "te_kind e = CoordinatorEventRoleTerminal"
      "te_role e = ?r" "rol_output st' = Some (ValidatedRoleOutput_clone final)" for st' c' e
  proof (rule assms(7))
    show "role_ends ?r (ex_nextJob x) st c (with_role ?r st' c' RoleTaskSucceeded (note_event e ?x))"
      using role that role_ends_at [of w ?r ?x e st c st' c' RoleTaskSucceeded] by (simp add: roleTaskTerminal_def)
    show "coordinatorRoleState (ex_run (with_role ?r st' c' RoleTaskSucceeded (note_event e ?x))) ?r = RoleTaskSucceeded"
      using role by (simp add: role_state_set_task open_role_def)
    show "room k (with_role ?r st' c' RoleTaskSucceeded (note_event e ?x))" if "room (k + 2) x" for k
      using that by (simp add: numeral_2_eq_2)
  qed (use that in \<open>simp_all add: final_def report split: option.splits bool.splits\<close>)
  let ?failed = "seq (transitionFailedExtractionInvocation ?r 0 (invocationSequence InvocationExtract) k) (\<lambda>_. give report)"
  have "returns (case ao_output out of
      None \<Rightarrow> ?failed
    | Some extracted \<Rightarrow>
        (case k = AttemptConditionValidReview of
           True \<Rightarrow>
             seq (move_attempt ?r 0 (\<lambda>a. TransitionInvocation a (invocationSequence InvocationExtract) InvocationSucceeded))
               (\<lambda>_. give (ValidatedRoleOutput_clone extracted))
         | False \<Rightarrow> ?failed))
    (with_role ?r st (c\<lparr>cat_attempt := shaped i pr InvocationExtract b AttemptValidating InvocationRunning m\<rparr>)
       RoleTaskPrimaryRunning ?x) R"
    if "R final (with_role ?r st (c\<lparr>cat_attempt := shaped i pr InvocationExtract b AttemptValidating n m\<rparr>)
       RoleTaskPrimaryRunning ?x)" for m R
    using that moved [of m]
    by (auto simp: transitionFailedExtractionInvocation_def final_def n_def split: option.splits bool.splits if_splits)
  note projected = this
  note simplified_facts = room [simplified] terminal [simplified]
  show ?thesis
    using assms(3) role id committed room
    apply (simp add: commitExtractionOutcome_def Let_def report assms(4))
    apply (rule mark_at [OF purpose assms(4) c])
    apply (simp only: assms(4))
    apply (rule projected)
    apply (simp add: terminalizeAttempt_def accept_output_def attempt_over_def done_with simplified_facts id [unfolded c, simplified])
    apply (rule ending)
    apply (simp_all add: same_role_def c attempt_over_def)
    done
qed

text \<open>
  Committing a settled condition of a job whose attempt awaits it: the commit never fails, and either
  ends the role or leaves it with one more invocation, after an initial one only.
\<close>

lemma commit_outcome:
  assumes "open_role w (ij_role j) x" "budgeted w (ij_role j) (cat_route c)" "addressed (ex_run x)" "room 3 x"
    and "job_for w (ij_role j) c j" "awaits (ij_purpose j) InvocationRunning c" "settled k cancelled"
    and "\<And>y. elsewhere (ij_role j) x y \<Longrightarrow> (\<And>k. room (k + 3) x \<Longrightarrow> room k y) \<Longrightarrow>
      role_ends (ij_role j) (ex_nextJob x) st c y \<Longrightarrow> Q [] y"
    and "\<And>js y. elsewhere (ij_role j) x y \<Longrightarrow> (\<And>k. room (k + 3) x \<Longrightarrow> room k y) \<Longrightarrow>
      ij_purpose j = InvocationInitial \<Longrightarrow> \<not> quiet \<Longrightarrow> role_goes_on w (ij_role j) (ex_nextJob x) st c js y \<Longrightarrow> Q js y"
  shows "returns (commitOutcome w j out k cancelled quiet) (with_role (ij_role j) st c RoleTaskPrimaryRunning x) Q"
proof (cases "extractionOutcomeIsBounded j k")
  case True
  then have extracting: "ij_purpose j = InvocationExtract" by (simp add: extractionOutcomeIsBounded_def)
  have "room 2 x" using assms(4) room_le by fastforce
  moreover have "AttemptCondition_Valid k" using assms(7) by (simp add: settled_def)
  moreover have "room m y" if "\<And>m. room (m + 2) x \<Longrightarrow> room m y" "room (m + 3) x" for m y
    using that room_le [of "m + 3" x "m + 2"] by simp
  ultimately show ?thesis
    using True assms(1,5,6,8) extracting
    by (simp add: commitOutcome_def commit_extraction)
next
  case False
  let ?r = "ij_role j"
  define p where "p = ij_purpose j"
  obtain i pr b where c: "cat_attempt c = shaped i pr p b (phase_of p) InvocationRunning False"
    and id: "AttemptID_id.valid_id (att_id (cat_attempt c))" and purpose: "p \<in> purposes"
    using assms(6) by (auto simp: awaits_def p_def)
  have valid: "AttemptCondition_Valid k" using assms(7) by (simp add: settled_def)
  have committed: "payload_ok CoordinatorEventInvocationCommitted (Some p) (Some k) ''''"
    using valid purpose by (auto simp: payload_ok_def)
  let ?e = "trace_event CoordinatorEventInvocationCommitted ?r (Some (att_id (cat_attempt c))) (Some p) (Some k)
    '''' no_run_state x"
  let ?x = "note_event ?e x"
  have room: "room 1 x" "room 2 ?x" using assms(4) room_le [of 3 x] by (simp_all add: numeral_3_eq_3)
  have room_y: "room m y" if "\<And>m. room (m + 2) ?x \<Longrightarrow> room m y" "room (m + 3) x" for m y
    using that room_next [of "m + 2" x] by (simp add: numeral_3_eq_3)
  have role_x: "open_role w ?r ?x" and addressed_x: "addressed (ex_run ?x)" using assms(1,3) by simp_all
  have unbounded: "extractionBoundedFailureCeiling < FailurePrecedence (conditionFailureClass k)" if "p = InvocationExtract"
    using False that by (auto simp: extractionOutcomeIsBounded_def p_def)
  have goes_on: "Q js y" if "elsewhere ?r ?x y" "\<And>m. room (m + 2) ?x \<Longrightarrow> room m y" "p = InvocationInitial" "\<not> quiet"
    "role_goes_on w ?r (ex_nextJob x) st c js y" for js y
    using that(1,3-5) room_y [OF that(2)] by (intro assms(9)) (simp_all add: p_def elsewhere_note_left)
  have ends: "Q [] y" if "elsewhere ?r ?x y" "\<And>m. room (m + 2) ?x \<Longrightarrow> room m y" "role_ends ?r (ex_nextJob x) st c y" for y
    using that(1,3) room_y [OF that(2)] by (intro assms(8)) (simp_all add: elsewhere_note_left)
  have decided: "returns (follow_decision w j 0 out k quiet d) (with_role ?r st c' RoleTaskPrimaryRunning ?x) Q"
    if same: "same_role st c st c'"
      and fit: "commit_fit k (conditionFailureClass k) (quiet \<or> cat_repairUsed c) (cat_retryUsed c \<or> quiet) d"
      and shape: "conditionRequiresValidation k \<and> cat_attempt c' = shaped i pr p b AttemptValidating InvocationSucceeded m \<or>
       \<not> conditionRequiresValidation k \<and> cat_attempt c' = shaped i pr p b (phase_of p) InvocationRunning m" for c' d m
  proof -
    have budget: "budgeted w ?r (cat_route c')" and id': "AttemptID_id.valid_id (att_id (cat_attempt c'))"
      using same assms(2) id by (simp_all add: same_role_def)
    have decision: "td_reasonCode d = AttemptCondition_string k" "td_condition d = k"
      using fit by (simp_all add: commit_fit_def)
    have fresh: "p = InvocationInitial" if "\<not> cat_retryUsed c" "\<not> cat_repairUsed c" "\<not> terminal_decision k d"
      using that fit unbounded assms(6) purpose by (auto simp: commit_fit_def awaits_def p_def purposes_def)
    note on = role_goes_on_same [OF _ same] and off = role_ends_same [OF _ same]
    from fit consider
        (retry) "td_scheduleRetry d" "\<not> conditionRequiresValidation k" "p = InvocationInitial" "\<not> quiet"
      | (repair) "\<not> td_scheduleRetry d" "td_scheduleRepair d" "conditionRequiresValidation k"
          "p = InvocationInitial" "\<not> quiet"
      | (terminal) "terminal_decision k d"
      using fresh by (auto simp: commit_fit_def terminal_decision_def)
    then show ?thesis
    proof cases
      case retry
      with shape have "cat_attempt c' = shaped i pr InvocationInitial b AttemptRunning InvocationRunning m"
        by (simp add: phase_of_def)
      from follow_retry [OF role_x budget addressed_x room(2) id' valid decision(1) retry(1) _ this] retry goes_on on
      show ?thesis by (simp add: p_def)
    next
      case repair
      with shape have "cat_attempt c' = shaped i pr InvocationInitial b AttemptValidating InvocationSucceeded m" by simp
      from follow_repair [OF role_x budget addressed_x room(2) id' valid decision(1) repair(1-3) this] repair goes_on on
      show ?thesis by (simp add: p_def)
    next
      case terminal
      have shape': "conditionRequiresValidation k \<and>
          cat_attempt c' = shaped i pr (ij_purpose j) b AttemptValidating InvocationSucceeded m \<or>
        \<not> conditionRequiresValidation k \<and>
          cat_attempt c' = shaped i pr (ij_purpose j) b (phase_of (ij_purpose j)) InvocationRunning m \<and>
          (ij_purpose j = InvocationExtract \<longrightarrow> k \<noteq> AttemptConditionTimeout)"
        using shape fit unbounded by (auto simp: p_def commit_fit_def)
      show ?thesis
        by (rule follow_terminal [OF role_x budget addressed_x room(2) id' valid decision terminal _ shape'])
          (use purpose goes_on ends on off in \<open>auto simp: p_def\<close>)
    qed
  qed
  obtain d where d: "DecideTransition \<lparr>ti_Condition = k, ti_RepairUsed = (quiet \<or> cat_repairUsed c),
      ti_RetryUsed = (cat_retryUsed c \<or> quiet), ti_CancellationObserved = cancelled\<rparr> = Inr d"
    and fit: "commit_fit k (conditionFailureClass k) (quiet \<or> cat_repairUsed c) (cat_retryUsed c \<or> quiet) d"
    using decide_commit [OF assms(7), of "quiet \<or> cat_repairUsed c" "cat_retryUsed c \<or> quiet"] by blast
  have extract_fails: "p \<noteq> InvocationExtract" if "conditionRequiresValidation k"
    using that fit unbounded by (auto simp: commit_fit_def)
  have validated: "TransitionInvocation (Some (shaped i pr p b (phase_of p) InvocationRunning m)) (invocationSequence p)
      InvocationSucceeded = Inr (shaped i pr p b (phase_of p) InvocationSucceeded m)" for m
    using purpose by simp
  define timed where "timed = (case ao_timeoutFacts out of
      Some facts \<Rightarrow> if k = AttemptConditionProviderTimeout then c\<lparr>cat_timeoutFacts := Some facts\<rparr> else c
    | None \<Rightarrow> c)"
  have timed_c: "cat_attempt timed = cat_attempt c" "cat_route timed = cat_route c"
    "cat_repairUsed timed = cat_repairUsed c" "cat_retryUsed timed = cat_retryUsed c"
    by (auto simp: timed_def split: option.splits)
  have timing: "returns (case ao_timeoutFacts out of
        Some facts \<Rightarrow>
          if k = AttemptConditionProviderTimeout
          then change_attempt ?r 0 (\<lambda>a. a\<lparr>cat_timeoutFacts := Some facts\<rparr>) else give ()
      | None \<Rightarrow> give ()) (with_role ?r st c n y) R \<longleftrightarrow> R () (with_role ?r st timed n y)" for n y R
    by (auto simp: timed_def split: option.splits)
  have marked: "returns (mark_artifacts ?r 0 j out) (with_role ?r st timed RoleTaskPrimaryRunning ?x) R"
    if "\<And>m. R () (with_role ?r st (timed\<lparr>cat_attempt := shaped i pr p b (phase_of p) InvocationRunning m\<rparr>)
      RoleTaskPrimaryRunning ?x)" for R
    using that timed_c c by (intro mark_at [OF purpose]) (simp_all add: p_def)
  show ?thesis
  proof (cases "conditionRequiresValidation k")
    case True
    show ?thesis
      using False assms(5) assms(1) id committed room(1) [simplified]
      apply (simp add: commitOutcome_def Let_def p_def [symmetric] timing True)
      apply (rule marked)
      apply (simp add: validated extract_fails True purpose timed_c d)
      apply (rule decided [OF _ fit])
      apply (simp_all add: same_role_def timed_c c True)
      done
  next
    case failing: False
    show ?thesis
      using False assms(5) assms(1) id committed room(1) [simplified]
      apply (simp add: commitOutcome_def Let_def p_def [symmetric] timing failing)
      apply (rule marked)
      apply (simp add: timed_c d)
      apply (rule decided [OF _ fit])
      apply (simp_all add: same_role_def timed_c c failing)
      done
  qed
qed

end
