(* ===== verification/Coordinator_Stop.thy ===== *)
theory Coordinator_Stop
  imports Coordinator_Commit
begin

text \<open>
  The phases of a role in an execution: it waits for the result of a job, or it is over. Committing the
  outcome of a job and stopping a role take it from the one to the other and leave the other roles
  alone; cancelling everything ends every role.
\<close>

section \<open>Phases of a role\<close>

text \<open>A role waits for the result of a job that is queued or running, or it is over.\<close>

definition waiting :: "world \<Rightarrow> coordinatorExecution \<Rightarrow> InvocationState \<Rightarrow> InvocationJob \<Rightarrow> bool" where
  "waiting w x s j \<longleftrightarrow>
     ij_role j \<notin> set (ex_terminalRoles x) \<and>
     (\<exists>st c. role_at x (ij_role j) st c RoleTaskPrimaryRunning \<and> rol_currentAttempt st = 0 \<and>
        awaits (ij_purpose j) s c \<and> job_for w (ij_role j) c j \<and> budgeted w (ij_role j) (cat_route c))"

definition over :: "coordinatorExecution \<Rightarrow> Role \<Rightarrow> bool" where
  "over x r \<longleftrightarrow>
     r \<in> set (ex_terminalRoles x) \<and>
     (\<exists>st c n. role_at x r st c n \<and> roleTaskTerminal n \<and> attempt_over (att_state (cat_attempt c)))"

text \<open>An execution that goes on, and what an operation on some roles leaves alone.\<close>

definition steady :: "world \<Rightarrow> coordinatorExecution \<Rightarrow> bool" where
  "steady w x \<longleftrightarrow>
     accepting w \<and> run_state (ex_run x) = RunRunning \<and> distinct (selected (ex_run x)) \<and>
     (\<forall>r \<in> set (selected (ex_run x)). Role_Valid r) \<and> addressed (ex_run x) \<and> ex_runStarted x \<and>
     \<not> ex_workersCloseAuthorized x \<and> \<not> ex_runTerminalRecorded x \<and>
     dom (ex_roles x) = set (selected (ex_run x)) \<and>
     (ex_dispatchStopRecorded x \<longrightarrow> AttemptCondition_Valid (ex_dispatchStopCondition x))"

definition apart :: "Role set \<Rightarrow> coordinatorExecution \<Rightarrow> coordinatorExecution \<Rightarrow> bool" where
  "apart R x y \<longleftrightarrow>
     (\<forall>q. q \<notin> R \<longrightarrow> ex_roles y q = ex_roles x q \<and>
        coordinatorRoleState (ex_run y) q = coordinatorRoleState (ex_run x) q \<and>
        (q \<in> set (ex_terminalRoles y) \<longleftrightarrow> q \<in> set (ex_terminalRoles x))) \<and>
     selected (ex_run y) = selected (ex_run x) \<and>
     unat (ex_nextJob x) \<le> unat (ex_nextJob y) \<and> (ex_stopping x \<longrightarrow> ex_stopping y)"

lemma apart_refl [simp]: "apart R x x"
  by (simp add: apart_def)

lemma apart_trans: "apart R x y \<Longrightarrow> apart S y z \<Longrightarrow> R \<union> S \<subseteq> T \<Longrightarrow> apart T x z"
  unfolding apart_def by (auto 0 3)

lemma waiting_apart: "apart R x y \<Longrightarrow> ij_role j \<notin> R \<Longrightarrow> waiting w y s j \<longleftrightarrow> waiting w x s j"
  by (simp add: waiting_def apart_def role_at_def)

lemma over_apart: "apart R x y \<Longrightarrow> r \<notin> R \<Longrightarrow> over y r \<longleftrightarrow> over x r"
  by (simp add: over_def apart_def role_at_def)

text \<open>An operation on the roles in \<open>R\<close> that used \<open>m\<close> ordinals, of events and of jobs.\<close>

definition moved :: "world \<Rightarrow> Role set \<Rightarrow> nat \<Rightarrow> coordinatorExecution \<Rightarrow> coordinatorExecution \<Rightarrow> bool" where
  "moved w R m x y \<longleftrightarrow> steady w y \<and> apart R x y \<and> (\<forall>k. room (k + m) x \<longrightarrow> room k y)"

lemma moved_simps:
  assumes "moved w R m x y"
  shows "steady w y" "apart R x y" "room (k + m) x \<Longrightarrow> room k y" "selected (ex_run y) = selected (ex_run x)"
    "unat (ex_nextJob x) \<le> unat (ex_nextJob y)" "ex_stopping x \<Longrightarrow> ex_stopping y"
  using assms by (auto simp: moved_def apart_def)

lemma moved_refl [simp]: "steady w x \<Longrightarrow> moved w R m x x"
  using room_le by (fastforce simp: moved_def)

lemma moved_trans:
  assumes "moved w R m x y" "moved w S n y z" "R \<union> S \<subseteq> T" "m + n \<le> k"
  shows "moved w T k x z"
proof -
  have "room a z" if "room (a + k) x" for a
    using that assms(1,2,4) room_le [of "a + k" x "a + n + m"] unfolding moved_def by (simp add: ac_simps)
  then show ?thesis using assms apart_trans [of R x y S z T] unfolding moved_def by blast
qed

lemma moved_le: "moved w R m x y \<Longrightarrow> R \<subseteq> T \<Longrightarrow> m \<le> k \<Longrightarrow> moved w T k x y"
  by (rule moved_trans [where S = "{}" and n = 0]) (auto dest: moved_simps(1))

lemma moved_waiting: "moved w R m x y \<Longrightarrow> ij_role j \<notin> R \<Longrightarrow> waiting w y s j \<longleftrightarrow> waiting w x s j"
  by (auto simp: moved_def waiting_apart)

lemma moved_over: "moved w R m x y \<Longrightarrow> r \<notin> R \<Longrightarrow> over y r \<longleftrightarrow> over x r"
  by (auto simp: moved_def over_apart)

lemma moved_role:
  assumes "steady w x" "elsewhere r x y" "r \<in> set (selected (ex_run x))" "ex_roles y r \<noteq> None"
    "unat (ex_nextJob x) \<le> unat (ex_nextJob y)" "\<And>k. room (k + m) x \<Longrightarrow> room k y"
  shows "moved w {r} m x y"
proof -
  have "q \<in> dom (ex_roles y) \<longleftrightarrow> q \<in> dom (ex_roles x)" for q
    using assms(1-4) unfolding steady_def elsewhere_def by (cases "q = r") (auto simp: domIff)
  then have "dom (ex_roles y) = dom (ex_roles x)" by blast
  with assms have "steady w y" by (simp add: steady_def elsewhere_def addressed_def)
  moreover have "apart {r} x y" using assms(2,5) by (simp add: apart_def elsewhere_def)
  ultimately show ?thesis using assms(6) by (simp add: moved_def)
qed

lemma open_steady:
  "steady w x \<Longrightarrow> r \<in> set (selected (ex_run x)) \<Longrightarrow> r \<notin> set (ex_terminalRoles x) \<Longrightarrow> open_role w r x"
  by (simp add: steady_def open_role_def)

lemma role_normal:
  assumes "role_at x r st c n" "steady w x"
  shows "with_role r st c n x = x"
proof -
  have "r \<in> set (selected (ex_run x))" using assms by (auto simp: role_at_def steady_def)
  have "set_task r n (ex_run x) = ex_run x"
  proof -
    have "(if task_role t = r then t\<lparr>task_state := n\<rparr> else t) = t" if "t \<in> set (run_roles (ex_run x))" for t
    proof (cases "task_role t = r")
      case True
      have "distinct (map task_role (run_roles (ex_run x)))" using assms(2) by (simp add: steady_def selected_def)
      from find_key [OF this that] True have "task_state t = n"
        using assms(1) by (simp add: role_at_def coordinatorRoleState_def)
      with True show ?thesis by simp
    qed simp
    then have "map (\<lambda>t. if task_role t = r then t\<lparr>task_state := n\<rparr> else t) (run_roles (ex_run x)) = run_roles (ex_run x)"
      by (simp add: map_idI)
    then show ?thesis by (simp add: set_task_def)
  qed
  moreover have "st\<lparr>rol_attempts := [c]\<rparr> = st" using assms(1) by (simp add: role_at_def)
  ultimately show ?thesis using assms(1) by (simp add: with_role_def role_at_def fun_upd_idem)
qed

lemma role_ends_over: "role_ends r n st c y \<Longrightarrow> over y r"
  unfolding role_ends_def over_def by blast

lemma returns_record_event [simp]:
  assumes "att_id (cat_attempt c) = i" "open_role w r x" "room 1 x" "AttemptID_id.valid_id i"
    "payload_ok kind purpose condition reason"
  shows "returns (record_event w kind r (Some i) purpose condition reason no_run_state) (with_role r st c n x) Q \<longleftrightarrow>
    Q () (with_role r st c n (note_event
       (trace_event kind r (Some i) purpose condition reason no_run_state x) x))"
  using returns_record_attempt [of w r x c kind purpose condition reason st n Q] assms
  by (simp add: record_attempt_def)

section \<open>Commits\<close>

lemma waiting_role:
  assumes "waiting w x s j" "steady w x"
  shows "ij_role j \<in> set (selected (ex_run x))" "open_role w (ij_role j) x"
proof -
  show "ij_role j \<in> set (selected (ex_run x))"
    using assms by (auto simp: waiting_def role_at_def steady_def)
  then show "open_role w (ij_role j) x" using assms by (auto simp: waiting_def intro: open_steady)
qed

lemma commit_waiting:
  assumes "steady w x" "waiting w x InvocationRunning j" "settled k cancelled" "room 3 x"
    and "\<And>y. moved w {ij_role j} 3 x y \<Longrightarrow> over y (ij_role j) \<Longrightarrow> Q [] y"
    and "\<And>j' y. moved w {ij_role j} 3 x y \<Longrightarrow> \<not> quiet \<Longrightarrow>
      ij_purpose j = InvocationInitial \<Longrightarrow> ij_role j' = ij_role j \<Longrightarrow> ij_purpose j' \<noteq> InvocationInitial \<Longrightarrow>
      waiting w y InvocationQueued j' \<Longrightarrow> unat (ex_nextJob x) < unat (ij_ordinal j') \<Longrightarrow>
      ij_ordinal j' = ex_nextJob y \<Longrightarrow> Q [j'] y"
  shows "returns (commitOutcome w j out k cancelled quiet) x Q"
proof -
  let ?r = "ij_role j"
  note role = waiting_role [OF assms(2,1)]
  obtain st c where at: "role_at x ?r st c RoleTaskPrimaryRunning" "rol_currentAttempt st = 0"
    and job: "awaits (ij_purpose j) InvocationRunning c" "job_for w ?r c j" "budgeted w ?r (cat_route c)"
    using assms(2) by (auto simp: waiting_def)
  have addressed: "addressed (ex_run x)" using assms(1) by (simp add: steady_def)
  have "returns (commitOutcome w j out k cancelled quiet) (with_role ?r st c RoleTaskPrimaryRunning x) Q"
  proof (rule commit_outcome [OF role(2) job(3) addressed assms(4) job(2,1) assms(3)])
    fix y
    assume y: "elsewhere ?r x y" "\<And>k. room (k + 3) x \<Longrightarrow> room k y" "role_ends ?r (ex_nextJob x) st c y"
    then have "ex_roles y ?r \<noteq> None" "ex_nextJob y = ex_nextJob x" "over y ?r"
      by (auto simp: role_ends_def role_at_def intro: role_ends_over)
    with moved_role [OF assms(1) y(1) role(1)] y(2) show "Q [] y" by (intro assms(5)) simp_all
  next
    fix js y
    assume y: "elsewhere ?r x y" "\<And>k. room (k + 3) x \<Longrightarrow> room k y" "ij_purpose j = InvocationInitial" "\<not> quiet"
      "role_goes_on w ?r (ex_nextJob x) st c js y"
    then obtain st' c' j' where j': "js = [j']" "role_at y ?r st' c' RoleTaskPrimaryRunning" "same_role st c st' c'"
      "ij_purpose j' \<noteq> InvocationInitial" "awaits (ij_purpose j') InvocationQueued c'" "job_for w ?r c' j'"
      "ij_ordinal j' = ex_nextJob y" "ex_nextJob y = ex_nextJob x + 1" "?r \<notin> set (ex_terminalRoles y)"
      by (auto simp: role_goes_on_def)
    have "unat (ex_nextJob y) = Suc (unat (ex_nextJob x))"
      using assms(4) unat_next [of "ex_nextJob x" 3] by (simp add: room_def j'(8))
    moreover have "ex_roles y ?r \<noteq> None" using j'(2) by (simp add: role_at_def)
    moreover have "ij_role j' = ?r" using j'(6) by (simp add: job_for_def)
    moreover from this have "waiting w y InvocationQueued j'"
      unfolding waiting_def using j'(2,3,5,6,9) at(2) job(3)
      by (intro conjI exI [of _ st'] exI [of _ c']) (simp_all add: same_role_def)
    ultimately show "Q js y"
      unfolding j'(1) using moved_role [OF assms(1) y(1) role(1)] y(2-4) j'(4,7) by (intro assms(6)) simp_all
  qed
  then show ?thesis using role_normal [OF at(1) assms(1)] by simp
qed

section \<open>Stopping\<close>

text \<open>The two conditions under which roles are stopped.\<close>

definition stops_role :: "AttemptCondition \<Rightarrow> bool" where
  "stops_role k \<longleftrightarrow> k = AttemptConditionCancelled \<or> k = AttemptConditionTimeout"

lemma stops_role_valid: "stops_role k \<Longrightarrow> AttemptCondition_Valid k"
proof -
  have "AttemptCondition_Valid AttemptConditionCancelled" "AttemptCondition_Valid AttemptConditionTimeout"
    by code_simp+
  then show "stops_role k \<Longrightarrow> AttemptCondition_Valid k" by (auto simp: stops_role_def)
qed

lemma stop_attempt_at:
  assumes "awaits p s c" "s = InvocationQueued \<or> s = InvocationRunning" "stops_role k"
    and "\<And>c'. cat_route c' = cat_route c \<Longrightarrow> att_id (cat_attempt c') = att_id (cat_attempt c) \<Longrightarrow>
      attempt_over (att_state (cat_attempt c')) \<Longrightarrow> Q () (with_role r st c' n x)"
  shows "returns (stopCoordinatorAttempt r 0 k) (with_role r st c n x) Q"
proof -
  obtain i pr b where c: "cat_attempt c = shaped i pr p b (phase_of p) s False" and p: "p \<in> purposes"
    using assms(1) by (auto simp: awaits_def)
  let ?s = "if k = AttemptConditionCancelled then InvocationCancelled
    else if s = InvocationRunning then InvocationTimedOut else InvocationCancelled"
  let ?a = "if k = AttemptConditionCancelled then AttemptCancelled
    else if phase_of p = AttemptRunning \<or> phase_of p = AttemptRepairing then AttemptTimedOut else AttemptFailed"
  have "InvocationState_CanTransition s ?s" using assms(2) by auto
  then have invocation: "TransitionInvocation (Some (shaped i pr p b (phase_of p) s False)) (invocationSequence p) ?s =
      Inr (shaped i pr p b (phase_of p) ?s False)" using p by (rule transition_shaped [rotated])
  have "AttemptState_CanTransition (phase_of p) ?a" using p by (auto simp: phase_of_def purposes_def)
  then have attempt: "Attempt_Transition (Some (shaped i pr p b (phase_of p) ?s False)) ?a =
      Inr (shaped i pr p b ?a ?s False)" by (rule end_shaped) simp
  have "\<not> attempt_over (phase_of p)" by (simp add: phase_of_def attempt_over_def)
  then show ?thesis using assms(2-4) invocation attempt c
    by (auto simp: stopCoordinatorAttempt_def stops_role_def attempt_over_def Let_def)
qed

lemma coordinatorRoleTerminal_at:
  assumes "role_at x r st c n" "steady w x"
  shows "coordinatorRoleTerminal (ex_run x) r \<longleftrightarrow> roleTaskTerminal n"
proof -
  have "r \<in> set (selected (ex_run x))" using assms by (auto simp: role_at_def steady_def)
  then show ?thesis using assms(1) by (simp add: coordinatorRoleTerminal_state role_at_def)
qed

lemma stop_role_over:
  assumes "steady w x" "over x r \<or> r \<notin> set (selected (ex_run x))" "Q () x"
  shows "returns (stop_role w k r) x Q"
proof (cases "ex_roles x r")
  case (Some st)
  then have "over x r" using assms(1,2) by (auto simp: steady_def)
  then obtain st c n where "role_at x r st c n" "roleTaskTerminal n" by (auto simp: over_def)
  then have "coordinatorRoleTerminal (ex_run x) r" using coordinatorRoleTerminal_at assms(1) by blast
  with Some assms(3) show ?thesis by (simp add: stop_role_def)
qed (use assms(3) in \<open>simp add: stop_role_def\<close>)

lemma stop_role_waiting:
  assumes "steady w x" "waiting w x s j" "s = InvocationQueued \<or> s = InvocationRunning" "stops_role k" "room 1 x"
    and "\<And>y. moved w {ij_role j} 1 x y \<Longrightarrow> over y (ij_role j) \<Longrightarrow> Q () y"
  shows "returns (stop_role w k (ij_role j)) x Q"
proof -
  let ?r = "ij_role j"
  note role = waiting_role [OF assms(2,1)]
  obtain st c where at: "role_at x ?r st c RoleTaskPrimaryRunning" "rol_currentAttempt st = 0"
    and job: "awaits (ij_purpose j) s c"
    using assms(2) by (auto simp: waiting_def)
  have id: "AttemptID_id.valid_id (att_id (cat_attempt c))" using job by (simp add: awaits_def)
  have running: "\<not> coordinatorRoleTerminal (ex_run x) ?r"
    using coordinatorRoleTerminal_at [OF at(1) assms(1)] by (simp add: roleTaskTerminal_def)
  have st: "ex_roles x ?r = Some st" "st\<lparr>rol_attempts := [c]\<rparr> = st" using at(1) by (simp_all add: role_at_def)
  let ?e = "trace_event CoordinatorEventRoleTerminal ?r (Some (att_id (cat_attempt c))) None (Some k)
    (AttemptCondition_string k) no_run_state x"
  have payload: "payload_ok CoordinatorEventRoleTerminal None (Some k) (AttemptCondition_string k)"
    using stops_role_valid [OF assms(4)] by (auto simp: payload_ok_def)
  let ?n = "if k = AttemptConditionCancelled then RoleTaskCancelled else RoleTaskFailed"
  have last: "Q () (with_role ?r st' c' ?n (note_event ?e x))"
    if "same_role st c st' c'" "attempt_over (att_state (cat_attempt c'))" for st' c'
  proof (rule assms(6))
    let ?y = "with_role ?r st' c' ?n (note_event ?e x)"
    have ends: "role_ends ?r (ex_nextJob x) st c ?y"
      using that role(2) role_ends_at [of w ?r x ?e st c st' c' ?n] by (auto simp: roleTaskTerminal_def)
    then show "over ?y ?r" by (rule role_ends_over)
    show "moved w {?r} 1 x ?y" by (rule moved_role [OF assms(1) _ role(1)]) simp_all
  qed
  have normal: "with_role ?r st c RoleTaskPrimaryRunning x = x" using role_normal [OF at(1) assms(1)] .
  from arg_cong [OF this, of ex_run] running
  have task: "\<not> coordinatorRoleTerminal (set_task ?r RoleTaskPrimaryRunning (ex_run x)) ?r" by simp
  have "returns (stop_role w k ?r) (with_role ?r st c RoleTaskPrimaryRunning x) Q"
    using role(2) payload assms(5) [simplified]
    apply (simp add: stop_role_def task at(2) split del: if_split)
    apply (rule stop_attempt_at [OF job assms(3,4)])
    apply (simp add: id split del: if_split)
    apply (subst returns_at(4))
    apply assumption
    apply simp
    apply (simp add: id split del: if_split)
    apply (rule last)
    apply (simp_all add: same_role_def)
    done
  then show ?thesis using normal by simp
qed

section \<open>Contexts and requests to stop\<close>

lemma reduces:
  assumes "cs \<noteq> []" "\<And>c. c \<in> set cs \<Longrightarrow> AttemptCondition_Valid c"
  obtains k where "ReduceAttemptConditions cs = Inr k" "k \<in> set cs"
    "\<And>c. c \<in> set cs \<Longrightarrow> condition_precedence k \<le> condition_precedence c"
proof -
  have "is_ok (ReduceAttemptConditions cs)" using assms by (simp add: ReduceAttemptConditions_ok)
  then obtain k where k: "ReduceAttemptConditions cs = Inr k" by (auto simp: is_ok_iff)
  from ReduceAttemptConditions_Inr [OF k] obtain pre post where "cs = pre @ k # post"
    "\<forall>d \<in> set cs. condition_precedence k \<le> condition_precedence d" by blast
  with k show thesis by (intro that) auto
qed

lemma looks_simps [simp]:
  "waiting w (x\<lparr>ex_looks := n\<rparr>) s j \<longleftrightarrow> waiting w x s j" "over (x\<lparr>ex_looks := n\<rparr>) r \<longleftrightarrow> over x r"
  "steady w (x\<lparr>ex_looks := n\<rparr>) \<longleftrightarrow> steady w x" "apart R x (y\<lparr>ex_looks := n\<rparr>) \<longleftrightarrow> apart R x y"
  "room k (x\<lparr>ex_looks := n\<rparr>) \<longleftrightarrow> room k x" "apart R (x\<lparr>ex_looks := n\<rparr>) y \<longleftrightarrow> apart R x y"
  "moved w R m x (y\<lparr>ex_looks := n\<rparr>) \<longleftrightarrow> moved w R m x y" "moved w R m (x\<lparr>ex_looks := n\<rparr>) y \<longleftrightarrow> moved w R m x y"
  by (simp_all add: waiting_def over_def steady_def apart_def room_def role_at_def moved_def)

lemma returns_looks [simp]:
  "returns (callerEnded w) x Q \<longleftrightarrow> Q (w_callerEnded w (ex_looks x)) (x\<lparr>ex_looks := Suc (ex_looks x)\<rparr>)"
  "returns (runEnded w) x R \<longleftrightarrow> R (w_runEnded w (ex_looks x)) (x\<lparr>ex_looks := Suc (ex_looks x)\<rparr>)"
  "returns (admitted w) x Q \<longleftrightarrow> Q (w_admit w (ex_looks x)) (x\<lparr>ex_looks := Suc (ex_looks x)\<rparr>)"
  by (simp_all add: returns_def callerEnded_def runEnded_def admitted_def)

lemma request_stop:
  assumes "steady w x" "AttemptCondition_Valid k" "room 1 x" "\<And>y. moved w {} 1 x y \<Longrightarrow> Q () y"
  shows "returns (requestDispatchStop w k) x Q"
proof -
  have event: "returns (record_event w CoordinatorEventCancellationRequested no_role None None (Some c)
      (AttemptCondition_string c) no_run_state) x R \<longleftrightarrow> R () (note_event (trace_event
        CoordinatorEventCancellationRequested no_role None None (Some c) (AttemptCondition_string c) no_run_state x) x)" if "AttemptCondition_Valid c" for c R
  proof -
    have "check_record CoordinatorEventCancellationRequested no_role no_run_state x = None"
      using assms(1) by (simp add: check_record_def steady_def roleEvent_def no_role_def Role_Valid_def)
    moreover have "CoordinatorTraceEvent_validate (trace_event CoordinatorEventCancellationRequested no_role None
        None (Some c) (AttemptCondition_string c) no_run_state x) = None"
      using that condition_string_known [OF that] assms(3)
      by (simp add: CoordinatorTraceEvent_validate_def trace_event_def check_event_payload_def event_shape_def
          wants_def no_run_state_def no_purpose_def no_role_def CoordinatorEventKind_Valid_def Let_def Role_Valid_def)
    ultimately show ?thesis using assms(1) by (simp add: returns_def record_event_def Let_def steady_def accepting_def)
  qed
  let ?note = "\<lambda>c. seq (record_event w CoordinatorEventCancellationRequested no_role None None (Some c)
      (AttemptCondition_string c) no_run_state) (\<lambda>_.
      change (\<lambda>x. x\<lparr>ex_dispatchStopRecorded := True, ex_dispatchStopCondition := c\<rparr>))"
  have noted: "returns (?note c) x Q" if "AttemptCondition_Valid c" for c
  proof -
    let ?e = "trace_event CoordinatorEventCancellationRequested no_role None None (Some c)
      (AttemptCondition_string c) no_run_state x"
    let ?y = "(note_event ?e x)\<lparr>ex_dispatchStopRecorded := True, ex_dispatchStopCondition := c\<rparr>"
    have "room k ?y" if "room (Suc k) x" for k using room_next(1) [OF that] by (simp add: room_def)
    then have "moved w {} 1 x ?y" using assms(1) that by (simp add: moved_def steady_def apart_def)
    with assms(4) show ?thesis by (simp add: event [OF that])
  qed
  show ?thesis
  proof (cases "ex_dispatchStopRecorded x")
    case True
    then have "AttemptCondition_Valid (ex_dispatchStopCondition x)" using assms(1) by (simp add: steady_def)
    then obtain c where "ReduceAttemptConditions [ex_dispatchStopCondition x, k] = Inr c" "AttemptCondition_Valid c"
      using reduces [of "[ex_dispatchStopCondition x, k]"] assms(2) by (metis in_set_conv_nth list.set_intros set_ConsD
          list.distinct(1) empty_iff list.set(1))
    with True noted assms(1,4) show ?thesis by (simp add: requestDispatchStop_def Let_def)
  next
    case False
    with noted [OF assms(2)] show ?thesis by (simp add: requestDispatchStop_def Let_def)
  qed
qed

lemma prepare_commit:
  assumes "steady w x" "AttemptCondition_Valid c" "room 1 x"
    and "\<And>k cancelled observed y. settled k cancelled \<Longrightarrow> moved w {} 1 x y \<Longrightarrow> Q (k, cancelled, observed) y"
  shows "returns (prepareOutcomeCommit w c) x Q"
proof -
  have settle: "returns (conditionForTransition w c) x (\<lambda>(k, cancelled, observed) y.
      settled k cancelled \<and> AttemptCondition_Valid k \<and> moved w {} 0 x y)"
  proof (cases "w_callerEnded w (ex_looks x)")
    case True
    from assms(2) reduces [of "[c, AttemptConditionCancelled]"] cancelled_valid obtain k where
      "ReduceAttemptConditions [c, AttemptConditionCancelled] = Inr k" "k \<in> {c, AttemptConditionCancelled}"
      "condition_precedence k \<le> condition_precedence AttemptConditionCancelled"
      by (metis empty_iff insert_iff list.distinct(1) list.set(1) list.set(2))
    with True assms(1,2) show ?thesis by (auto simp: conditionForTransition_def settled_def)
  next
    case False
    have "AttemptCondition_Valid AttemptConditionTimeout" using stops_role_valid by (simp add: stops_role_def)
    with False assms(1,2) show ?thesis by (simp add: conditionForTransition_def settled_def Let_def)
  qed
  show ?thesis
    unfolding prepareOutcomeCommit_def returns_seq
  proof (rule returns_mono [OF settle])
    fix v :: "AttemptCondition \<times> bool \<times> bool" and y
    assume "(case v of (k, cancelled, observed) \<Rightarrow> \<lambda>y.
      settled k cancelled \<and> AttemptCondition_Valid k \<and> moved w {} 0 x y) y"
    then obtain k cancelled observed where v: "v = (k, cancelled, observed)" and k: "settled k cancelled"
      "AttemptCondition_Valid k" and y: "moved w {} 0 x y" by (cases v) auto
    from y assms(3) have "steady w y" "room 1 y" by (auto simp: moved_def)
    moreover have "moved w {} 1 x z" if "moved w {} 1 y z" for z using moved_trans [OF y that] by simp
    moreover have "moved w {} 1 x y" using moved_trans [OF y moved_refl] \<open>steady w y\<close> by fastforce
    ultimately show "returns (case v of (effective, cancelled, observed) \<Rightarrow>
        seq (if observed then requestDispatchStop w effective else give ()) (\<lambda>_. give (effective, cancelled, observed))) y Q"
      using k v assms(4) by (auto intro!: request_stop)
  qed
qed

lemma context_condition:
  "(\<And>k n. stops_role k \<Longrightarrow> Q k (x\<lparr>ex_looks := n\<rparr>)) \<Longrightarrow> returns (contextCondition w) x Q"
  by (auto simp: contextCondition_def stops_role_def)

text \<open>Every role of the run is over or waits.\<close>

definition accounted :: "world \<Rightarrow> coordinatorExecution \<Rightarrow> bool" where
  "accounted w x \<longleftrightarrow>
     (\<forall>r \<in> set (selected (ex_run x)). over x r \<or>
        (\<exists>j s. ij_role j = r \<and> (s = InvocationQueued \<or> s = InvocationRunning) \<and> waiting w x s j))"

definition finished :: "world \<Rightarrow> coordinatorExecution \<Rightarrow> bool" where
  "finished w x \<longleftrightarrow> steady w x \<and> (\<forall>r \<in> set (selected (ex_run x)). over x r)"

definition role_count :: nat where
  "role_count = length FixedRoleOrder"

lemma accounted_moved:
  assumes "accounted w x" "moved w R m x y"
    and "\<And>r. r \<in> R \<Longrightarrow> over y r \<or>
      (\<exists>j s. ij_role j = r \<and> (s = InvocationQueued \<or> s = InvocationRunning) \<and> waiting w y s j)"
  shows "accounted w y"
  unfolding accounted_def
proof
  fix r assume "r \<in> set (selected (ex_run y))"
  then have r: "r \<in> set (selected (ex_run x))" using moved_simps(4) [OF assms(2)] by simp
  show "over y r \<or> (\<exists>j s. ij_role j = r \<and> (s = InvocationQueued \<or> s = InvocationRunning) \<and> waiting w y s j)"
  proof (cases "r \<in> R")
    case False
    with r assms(1) show ?thesis
      unfolding accounted_def using moved_over [OF assms(2)] moved_waiting [OF assms(2)] by blast
  qed (rule assms(3))
qed

lemma finished_accounted: "finished w x \<Longrightarrow> accounted w x"
  by (simp add: finished_def accounted_def)

lemma stop_all:
  assumes "steady w x" "accounted w x" "stops_role k" "room role_count x"
    and "\<And>y. finished w y \<Longrightarrow> moved w UNIV role_count x y \<Longrightarrow> Q () y"
  shows "returns (for_each (stop_role w k) FixedRoleOrder) x Q"
proof -
  let ?I = "\<lambda>rs t. moved w (set rs) (length rs) x t \<and> (\<forall>r \<in> set rs. r \<in> set (selected (ex_run x)) \<longrightarrow> over t r)"
  have "returns (for_each (stop_role w k) FixedRoleOrder) x (\<lambda>_. ?I FixedRoleOrder)"
  proof (rule returns_for_each)
    show "?I [] x" using assms(1) by simp
  next
    fix ys r zs t
    assume order: "FixedRoleOrder = ys @ r # zs" and t: "?I ys t"
    have selected: "selected (ex_run t) = selected (ex_run x)" using t moved_simps(4) by blast
    have fresh: "r \<notin> set ys" using distinct_FixedRoleOrder unfolding order by simp
    have left: "?I (ys @ [r]) u" if "moved w {r} 1 t u" "r \<in> set (selected (ex_run x)) \<longrightarrow> over u r" for u
    proof -
      have "moved w (set (ys @ [r])) (length (ys @ [r])) x u"
        using t by (intro moved_trans [OF _ that(1)]) auto
      moreover have "over u q" if "q \<in> set ys" "q \<in> set (selected (ex_run x))" for q
        using that t moved_over [OF \<open>moved w {r} 1 t u\<close>, of q] fresh by (cases "q = r") auto
      ultimately show ?thesis using that(2) by auto
    qed
    show "returns (stop_role w k r) t (\<lambda>_. ?I (ys @ [r]))"
    proof (cases "over t r \<or> r \<notin> set (selected (ex_run t))")
      case True
      have steady: "steady w t" using t moved_simps(1) by blast
      then have "?I (ys @ [r]) t" using True selected by (intro left) auto
      with True steady show ?thesis by (intro stop_role_over)
    next
      case False
      then have "r \<in> set (selected (ex_run x))" "\<not> over x r"
        using selected t fresh moved_over [of w "set ys" "length ys" x t r] by auto
      then obtain j s where j: "ij_role j = r" "s = InvocationQueued \<or> s = InvocationRunning" "waiting w x s j"
        using assms(2) unfolding accounted_def by blast
      then have waits: "waiting w t s j" using t fresh moved_waiting [of w "set ys" "length ys" x t j] by simp
      have "1 + length ys \<le> role_count" unfolding role_count_def order by simp
      then have "room (1 + length ys) x" using assms(4) room_le by blast
      then have space: "room 1 t" using t moved_simps(3) by blast
      have "steady w t" using t moved_simps(1) by blast
      then have "returns (stop_role w k (ij_role j)) t (\<lambda>_. ?I (ys @ [r]))"
      proof (rule stop_role_waiting [OF _ waits j(2) assms(3) space])
        show "?I (ys @ [r]) u" if "moved w {ij_role j} 1 t u" "over u (ij_role j)" for u
          using that j(1) by (intro left) blast+
      qed
      then show ?thesis using j(1) by blast
    qed
  qed
  then show ?thesis
  proof (rule returns_mono)
    fix v :: unit and t
    assume t: "?I FixedRoleOrder t"
    then have m: "moved w UNIV role_count x t"
      unfolding role_count_def using moved_le [OF _ subset_UNIV le_refl] by blast
    have "over t r" if "r \<in> set (selected (ex_run t))" for r
    proof -
      have "r \<in> set FixedRoleOrder" using that moved_simps(1) [OF m] unfolding steady_def Role_Valid_iff by blast
      with that t moved_simps(4) [OF m] show ?thesis by simp
    qed
    then have "finished w t" using moved_simps(1) [OF m] by (simp add: finished_def)
    with m show "Q v t" using assms(5) by simp
  qed
qed

lemma cancel_all:
  assumes "steady w x" "accounted w x" "AttemptCondition_Valid c" "room (role_count + 1) x"
    and "\<And>y. finished w y \<Longrightarrow> moved w UNIV (role_count + 1) x y \<Longrightarrow> ex_stopping y \<Longrightarrow> Q () y"
  shows "returns (cancelAll w c) x Q"
proof -
  have rest: "returns (seq (change (\<lambda>x. x\<lparr>ex_stopping := True, ex_stopCondition := k,
        ex_cancelled := conditionCancelsCoordinatorRun k\<rparr>)) (\<lambda>_.
      seq (requestDispatchStop w k) (\<lambda>_. seq (contextCondition w) (\<lambda>c. for_each (stop_role w c) FixedRoleOrder)))) x Q"
    if "AttemptCondition_Valid k" for k
  proof -
    let ?x = "x\<lparr>ex_stopping := True, ex_stopCondition := k, ex_cancelled := conditionCancelsCoordinatorRun k\<rparr>"
    have same: "steady w ?x" "moved w R m ?x y \<Longrightarrow> moved w R m x y \<and> ex_stopping y"
      "waiting w ?x s j \<longleftrightarrow> waiting w x s j"
      "over ?x r \<longleftrightarrow> over x r" "room m ?x \<longleftrightarrow> room m x" for R m y s j r
      using assms(1) by (simp_all add: steady_def moved_def apart_def waiting_def over_def role_at_def room_def)
    have "accounted w ?x" using assms(2) unfolding accounted_def same(3,4) by simp
    have "room 1 ?x" using assms(4) room_le unfolding same(5) by fastforce
    then show ?thesis
      unfolding returns_seq returns_change
    proof (intro request_stop [OF same(1) that] context_condition)
      fix y c n
      assume y: "moved w {} 1 ?x y" and c: "stops_role c"
      let ?y = "y\<lparr>ex_looks := n\<rparr>"
      have m: "moved w {} 1 ?x ?y" using y by simp
      have "accounted w ?y" using accounted_moved [OF \<open>accounted w ?x\<close> m] by simp
      moreover have "room role_count ?y" using moved_simps(3) [OF m] assms(4) unfolding same(5) by blast
      moreover have "Q () z" if "finished w z" "moved w UNIV role_count ?y z" for z
      proof -
        have "moved w UNIV (role_count + 1) ?x z" by (rule moved_trans [OF m that(2)]) auto
        from same(2) [OF this] that(1) show ?thesis by (intro assms(5)) simp_all
      qed
      ultimately show "returns (for_each (stop_role w c) FixedRoleOrder) ?y Q"
        using moved_simps(1) [OF m] c by (intro stop_all)
    qed
  qed
  show ?thesis
  proof (cases "AttemptCondition_Valid (ex_stopCondition x)")
    case True
    obtain k where "ReduceAttemptConditions [ex_stopCondition x, c] = Inr k" "k \<in> set [ex_stopCondition x, c]"
      using reduces [of "[ex_stopCondition x, c]"] True assms(3) by auto
    with True rest assms(3) show ?thesis by (auto simp: cancelAll_def)
  next
    case False
    with rest [OF assms(3)] show ?thesis by (simp add: cancelAll_def)
  qed
qed

end
