(* ===== verification/Coordinator_Outputs.thy ===== *)
theory Coordinator_Outputs
  imports Coordinator_Keeps
begin

text \<open>
  The outputs that an execution holds: those accepted for a role, and those set aside while the
  extraction of an attempt is under way. Each one passes its validator and is the result of reducing
  the evidence of an output that was bound to the target of the run. Where the jobs of every wave have
  ordinals of their own, an output is also held by the role it was made for.
\<close>

section \<open>Sound outputs\<close>

definition sound_output :: "world \<Rightarrow> TargetIdentity \<Rightarrow> bool \<Rightarrow> Role \<Rightarrow> ValidatedRoleOutput \<Rightarrow> bool" where
  "sound_output w t own r v \<longleftrightarrow>
     ValidatedRoleOutput_validate (w_lower w) (w_letter w) v = None \<and>
     (\<exists>u. reduceOutputEvidence w t u = Inr v) \<and> (own \<longrightarrow> vo_role v = r)"

definition sound_role :: "world \<Rightarrow> TargetIdentity \<Rightarrow> bool \<Rightarrow> Role \<Rightarrow> coordinatorRole \<Rightarrow> bool" where
  "sound_role w t own r st \<longleftrightarrow>
     (\<forall>v. rol_output st = Some v \<longrightarrow> sound_output w t own r v) \<and>
     (\<forall>c \<in> set (rol_attempts st). \<forall>v. cat_acceptedOutput c = Some v \<longrightarrow> sound_output w t own r v)"

definition outputs_inv :: "world \<Rightarrow> TargetIdentity \<Rightarrow> bool \<Rightarrow> coordinatorExecution \<Rightarrow> bool" where
  "outputs_inv w t own x \<longleftrightarrow>
     run_target (ex_run x) = t \<and> (\<forall>r st. ex_roles x r = Some st \<longrightarrow> sound_role w t own r st)"

lemma clone_validates:
  assumes "ValidatedRoleOutput_validate ul letter v = None"
  shows "ValidatedRoleOutput_validate ul letter (ValidatedRoleOutput_clone v) = None"
proof -
  obtain t where t: "canonicalCoordinatorTarget (vo_target v) = Inr t"
    using assms by (auto simp: ValidatedRoleOutput_validate_def split: sum.splits if_splits)
  then have "canonicalCoordinatorTarget t = Inr t"
    using canonicalCoordinatorTarget_ok TargetIdentity_ok_canonical by blast
  moreover have "check_output_findings (v\<lparr>vo_target := t\<rparr>) i fs gs = check_output_findings v i fs gs" for i fs gs
    by (induction v i fs gs rule: check_output_findings.induct) simp_all
  moreover have "check_output_evidence ul (v\<lparr>vo_target := t\<rparr>) = check_output_evidence ul v"
    "OutputTransport (v\<lparr>vo_target := t\<rparr>) = OutputTransport v"
    by (simp_all add: check_output_evidence_def OutputTransport_def cong: sum.case_cong)
  then have "check_output_content ul (v\<lparr>vo_target := t\<rparr>) = check_output_content ul v"
    unfolding check_output_content_def by (simp cong: sum.case_cong)
  ultimately show ?thesis
    using assms t by (simp add: ValidatedRoleOutput_clone_def ValidatedRoleOutput_validate_def
        split: if_splits cong: sum.case_cong list.case_cong option.case_cong)
qed

lemma clone_sound_output:
  assumes "sound_output w t own r v"
  shows "sound_output w t own r (ValidatedRoleOutput_clone v)"
proof -
  from assms obtain u where "reduceOutputEvidence w t u = Inr v" by (auto simp: sound_output_def)
  then have "reduceOutputEvidence w t (u\<lparr>vo_target := s\<rparr>) = Inr (v\<lparr>vo_target := s\<rparr>)" for s
    by (auto simp: reduceOutputEvidence_def Let_def split: if_splits sum.splits reduction_error.splits)
  then have "\<exists>u. reduceOutputEvidence w t u = Inr (ValidatedRoleOutput_clone v)"
    unfolding ValidatedRoleOutput_clone_def by blast
  moreover have "vo_role (ValidatedRoleOutput_clone v) = vo_role v" by (simp add: ValidatedRoleOutput_clone_def)
  ultimately show ?thesis using assms clone_validates by (simp add: sound_output_def)
qed

lemma normalized_sound:
  assumes "normalizedOutcome w t j out = Inr r" "ao_output r = Some v"
  shows "sound_output w t own (ij_role j) v"
proof -
  have refused: "ao_output r' = None" if "NewAttemptOutcome ul letter j None (Some c) = Inr r'" for ul letter c r'
    using that by (auto simp: NewAttemptOutcome_def no_outcome_def split: option.splits if_splits)
  from assms refused obtain u reduced where
    u: "reduceOutputEvidence w t u = Inr reduced"
      "NewAttemptOutcome (w_lower w) (w_letter w) j (Some reduced) None = Inr r"
    by (auto simp: normalizedOutcome_def split: if_splits option.splits sum.splits)
  from u(2) assms(2) have v: "v = ValidatedRoleOutput_clone reduced" "output_matches reduced j"
    "ValidatedRoleOutput_validate (w_lower w) (w_letter w) reduced = None"
    by (auto simp: NewAttemptOutcome_def split: option.splits if_splits)
  with u(1) have "sound_output w t own (ij_role j) reduced"
    by (auto simp: sound_output_def output_matches_def)
  then show ?thesis unfolding v(1) by (rule clone_sound_output)
qed

section \<open>Every operation keeps them\<close>

lemma outputs_inv_roles:
  assumes "outputs_inv w t own x" "\<And>st. sound_role w t own r st \<Longrightarrow> sound_role w t own r (f st)"
  shows "outputs_inv w t own (x\<lparr>ex_roles := (ex_roles x)(r := map_option f (ex_roles x r))\<rparr>)"
  using assms by (auto simp: outputs_inv_def)

lemma outputs_change_role:
  assumes "\<And>st. sound_role w t own r st \<Longrightarrow> sound_role w t own r (f st)"
  shows "keeps (outputs_inv w t own) (change_role r f)"
  unfolding change_role_def by (rule keeps_change, rule outputs_inv_roles) (assumption, rule assms)

lemma outputs_change_attempt:
  assumes "\<And>c v. cat_acceptedOutput (f c) = Some v \<Longrightarrow> cat_acceptedOutput c = Some v \<or> sound_output w t own r v"
  shows "keeps (outputs_inv w t own) (change_attempt r i f)"
  unfolding change_attempt_def
proof (rule outputs_change_role)
  fix st assume st: "sound_role w t own r st"
  have "\<forall>c \<in> set ((rol_attempts st)[i := f (rol_attempts st ! i)]). \<forall>v. cat_acceptedOutput c = Some v \<longrightarrow> sound_output w t own r v"
  proof (cases "i < length (rol_attempts st)")
    case True
    then have "rol_attempts st ! i \<in> set (rol_attempts st)" by simp
    with st assms have "cat_acceptedOutput (f (rol_attempts st ! i)) = Some v \<Longrightarrow> sound_output w t own r v" for v
      unfolding sound_role_def by blast
    with st show ?thesis using set_update_subset_insert [of "rol_attempts st" i] unfolding sound_role_def by blast
  qed (use st in \<open>simp add: sound_role_def list_update_beyond\<close>)
  with st show "sound_role w t own r (st\<lparr>rol_attempts := (rol_attempts st)[i := f (rol_attempts st ! i)]\<rparr>)"
    by (simp add: sound_role_def)
qed

lemma outputs_moves:
  "keeps (outputs_inv w t own) (move_run n)" "keeps (outputs_inv w t own) (move_role role m)"
proof -
  have "run_target run' = run_target run" if "Run_Transition (Some run) n = Inr run'" for run run'
    using that by (auto simp only: Run_Transition_Inr) simp
  moreover have "run_target run' = run_target run" if "Run_TransitionRole (Some run) role m = Inr run'" for run run'
    using that by (auto simp: Run_TransitionRole.simps split: sum.splits if_splits option.splits)
  ultimately show "keeps (outputs_inv w t own) (move_run n)" "keeps (outputs_inv w t own) (move_role role m)"
    by (auto simp: keeps_def move_run_def move_role_def outputs_inv_def
      simp del: Run_Transition.simps Run_TransitionRole.simps split: sum.splits)
qed

lemma outputs_move_attempt: "keeps (outputs_inv w t own) (move_attempt role i f)"
proof -
  have "keeps (outputs_inv w t own) (change_attempt role i (\<lambda>c. c\<lparr>cat_attempt := a\<rparr>))" for a
    by (rule outputs_change_attempt) simp
  then show ?thesis by (auto simp: keeps_def move_attempt_def split: sum.split)
qed

lemma outputs_record:
  "keeps (outputs_inv w t own) (record_event w kind role attempt purpose condition reason runState)"
  by (auto simp: keeps_def record_event_def note_event_def Let_def outputs_inv_def split: option.splits)

lemma index_of_bound: "index_of p k xs = Some i \<Longrightarrow> k \<le> i \<and> i < k + length xs"
  by (induction p k xs rule: index_of.induct) (auto split: if_splits)

lemma attempt_found:
  assumes "attemptFor w j x = (Inr i, y)"
  shows "y = x \<and> (\<exists>st. ex_roles x (ij_role j) = Some st \<and> i < length (rol_attempts st))"
  using assms index_of_bound
  by (fastforce simp: attemptFor_def effect_defs split: option.splits sum.splits)

lemma outputs_accepted:
  assumes "\<And>i accepted. (\<And>v. accepted = Some v \<Longrightarrow> sound_output w t own (ij_role j) v) \<Longrightarrow>
    keeps (outputs_inv w t own) (h i accepted)"
  shows "keeps (outputs_inv w t own) (seq (attemptFor w j) (\<lambda>i.
    seq (read (\<lambda>x. cat_acceptedOutput (attempt_at (ij_role j) i x))) (\<lambda>accepted. h i accepted)))"
  unfolding keeps_def
proof (intro allI impI)
  fix x assume x: "outputs_inv w t own x"
  obtain r y where y: "attemptFor w j x = (r, y)" by fastforce
  have "outputs_inv w t own y" using attempt_looked_up x y unfolding keeps_def by (metis snd_conv)
  moreover have "outputs_inv w t own (snd (h i (cat_acceptedOutput (attempt_at (ij_role j) i y)) y))" if "r = Inr i" for i
  proof -
    from attempt_found y that obtain st where st: "y = x" "ex_roles x (ij_role j) = Some st" "i < length (rol_attempts st)"
      by metis
    have "sound_output w t own (ij_role j) v" if "cat_acceptedOutput (attempt_at (ij_role j) i y) = Some v" for v
    proof -
      have "sound_role w t own (ij_role j) st" using x st(2) by (simp add: outputs_inv_def)
      moreover have "cat_acceptedOutput (rol_attempts st ! i) = Some v"
        using that st by (simp add: attempt_at_def role_state_def)
      ultimately show ?thesis using nth_mem [OF st(3)] unfolding sound_role_def by blast
    qed
    with assms x show ?thesis unfolding st(1) keeps_def by blast
  qed
  ultimately show "outputs_inv w t own (snd (seq (attemptFor w j) (\<lambda>i.
      seq (read (\<lambda>x. cat_acceptedOutput (attempt_at (ij_role j) i x))) (\<lambda>accepted. h i accepted)) x))"
    by (cases r) (simp_all add: seq_def y read_def)
qed

lemma outputs_target:
  assumes "(\<And>j out r v. normalizedOutcome w t j out = Inr r \<Longrightarrow> ao_output r = Some v \<Longrightarrow>
      sound_output w t own (ij_role j) v) \<Longrightarrow> keeps (outputs_inv w t own) (k t)"
  shows "keeps (outputs_inv w t own) (seq (read (\<lambda>x. run_target (ex_run x))) (\<lambda>t. k t))"
  using assms [OF normalized_sound] by (auto simp: keeps_def seq_def read_def outputs_inv_def)

interpretation outputs: kept w "outputs_inv w t own" "sound_output w t own" for w t own
proof (unfold_locales, goal_cases)
  case (4 x y)
  then show ?case by (simp add: outputs_inv_def)
next
  case (7 g role)
  then show ?case by (intro outputs_change_role) (simp add: sound_role_def)
next
  case (9 role v b)
  then show ?case by (intro outputs_change_role) (simp add: sound_role_def)
next
  case (11 j h)
  then show ?case by (rule outputs_accepted)
next
  case (12 k)
  then show ?case by (intro outputs_target) blast
qed (auto intro!: outputs_record outputs_moves outputs_move_attempt outputs_change_attempt outputs_change_role
    clone_sound_output simp: sound_role_def fresh_attempt_def)

interpretation run_outputs: kept_uniform w "outputs_inv w t False" "sound_output w t False" for w t
  by unfold_locales (simp add: sound_output_def)

lemma admitted_outputs:
  assumes "admit_run w extractionAdmitted run as threshold = Inr x"
  shows "outputs_inv w (run_target run) own x"
proof -
  from assms obtain running canonical where "Run_Transition (Some run) RunRunning = Inr running"
    and x: "x = new_execution extractionAdmitted running [] canonical"
    by (auto simp: admit_run_def simp del: Run_Transition.simps split: if_splits option.splits sum.splits)
  then have "run_target running = run_target run" by (auto simp only: Run_Transition_Inr) simp
  then show ?thesis
    by (auto simp: x new_execution_def outputs_inv_def sound_role_def dest!: map_of_SomeD)
qed

text \<open>Whatever fails on the way, an execution only holds outputs that are bound to its target.\<close>

theorem execution_outputs:
  assumes "ExecuteRun w n extractionAdmitted run as threshold policy = Inr e"
  shows "outputs_inv w (run_target run) False (ee_execution e)"
  by (rule run_outputs.executed [OF assms]) (rule admitted_outputs)

end
