(* ===== verification/Coordinator_Waves.thy ===== *)
theory Coordinator_Waves
  imports Coordinator_Stop Coordinator_Outputs Evidence_Facts
begin

text \<open>
  One wave of jobs: what is dispatched of it, what is collected, and what committing it leaves. Every
  role of the wave is over afterwards or has one follow-up queued, and only an initial invocation has one.
\<close>

section \<open>Normalising outcomes\<close>

text \<open>The reduction of an output that validates changes none of its findings.\<close>

lemma reduce_same:
  assumes "ReduceVerifiedFindingEvidence ul fs gs p = Inr a" "ReduceVerifiedFindingEvidence ul fs gs q = Inr b"
  shows "a = b"
proof (rule nth_equalityI)
  note A = Reduce_result [OF assms(1)] and B = Reduce_result [OF assms(2)]
  show "length a = length b" using A B by simp
  show "a ! i = b ! i" if "i < length a" for i
    using that A B reduce_finding_Inr [of ul p i "fs ! i" "gs ! i" "a ! i"]
      reduce_finding_Inr [of ul q i "fs ! i" "gs ! i" "b ! i"] by simp
qed

lemma sameCoordinatorFinding_eq: "sameCoordinatorFinding f g \<Longrightarrow> f = g"
  by (cases f, cases g) (simp add: sameCoordinatorFinding_def coordinatorFindingIdentityFor_def clear_id_def)

lemma reduce_valid_output:
  assumes "ValidatedRoleOutput_validate ul letter v = None"
    and "ReduceVerifiedFindingEvidence ul (vo_findings v) (vo_evidence v) policy = Inr fs"
  shows "fs = vo_findings v"
proof -
  have "check_output_evidence ul v = None"
    using assms(1) by (auto simp: ValidatedRoleOutput_validate_def check_output_content_def
        split: if_splits sum.splits list.splits option.splits)
  then consider "vo_findings v = []"
    | reduced where "ReduceVerifiedFindingEvidence ul (vo_findings v) (vo_evidence v) structuralEvidencePolicy = Inr reduced"
        "list_all2 sameCoordinatorFinding (vo_findings v) reduced"
    by (auto simp: check_output_evidence_def split: if_splits sum.splits)
  then show ?thesis
  proof cases
    case 1
    then show ?thesis using assms(2) by (auto simp: ReduceVerifiedFindingEvidence_def split: if_splits)
  next
    case 2
    then have "reduced = vo_findings v"
      using sameCoordinatorFinding_eq by (auto simp: list_all2_conv_all_nth intro!: nth_equalityI) metis
    with reduce_same [OF 2(1) assms(2)] show ?thesis by simp
  qed
qed

lemma job_ok_target: "job_ok j \<Longrightarrow> canonicalCoordinatorTarget (ij_target j) = Inr (ij_target j)"
proof -
  assume job: "job_ok j"
  then obtain t where t: "canonicalCoordinatorTarget (ij_target j) = Inr t"
    by (auto simp: job_ok_def InvocationJob_validate_def check_job_content_def split: if_splits sum.splits)
  have "InvocationJob_clone j = j" using job by (simp add: job_ok_def)
  from arg_cong [OF this, of ij_target] t show ?thesis by (simp add: InvocationJob_clone_def InvocationJob_Target_def)
qed

lemma internal_valid: "AttemptCondition_Valid AttemptConditionInternalInvariant"
  "AttemptCondition_Valid AttemptConditionInvalidEvidenceClaim"
  by code_simp+

text \<open>
  What normalisation makes of a worker's outcome. It never fails, and what it leaves is valid for the
  job: an outcome that does not fit the job is an internal failure, a failure stays as it is, and an
  output is kept unchanged or refused.
\<close>

lemma validFor_condition:
  "validFor ul letter out j \<Longrightarrow> AttemptCondition_Valid (coordinatorOutcomeCondition out)"
  using valid_review_valid
  by (auto simp: validFor_def coordinatorOutcomeCondition_def split: if_splits option.splits)

lemma reduce_refusal:
  "reduceOutputEvidence w t v = Inl c \<Longrightarrow> AttemptCondition_Valid c \<and> c \<noteq> AttemptConditionValidReview"
  using internal_valid
  by (auto simp: reduceOutputEvidence_def Let_def coordinatorTargetEvidenceBindingCondition_def
      coordinatorEvidenceIdentityBindingCondition_def split: if_splits sum.splits reduction_error.splits)

lemma reduce_kept:
  assumes "ValidatedRoleOutput_validate (w_lower w) (w_letter w) v = None" "reduceOutputEvidence w t v = Inr v'"
  shows "v' = v"
proof -
  obtain fs where "ReduceVerifiedFindingEvidence (w_lower w) (vo_findings v) (vo_evidence v)
      (co_policy (w_coordinator w)) = Inr fs" "v' = v\<lparr>vo_findings := fs\<rparr>"
    using assms(2) by (auto simp: reduceOutputEvidence_def Let_def split: if_splits sum.splits reduction_error.splits)
  with reduce_valid_output [OF assms(1)] show ?thesis by simp
qed

lemma normalized_exact:
  assumes "job_ok j"
  shows "\<exists>o'. normalizedOutcome w t j out = Inr o' \<and> validFor (w_lower w) (w_letter w) o' j \<and>
    (if \<not> validFor (w_lower w) (w_letter w) out j
     then ao_output o' = None \<and> ao_condition o' = Some AttemptConditionInternalInvariant
     else case ao_output out of
       None \<Rightarrow> o' = out
     | Some v \<Rightarrow>
         (case reduceOutputEvidence w t v of
            Inl c \<Rightarrow> ao_output o' = None \<and> ao_condition o' = Some c
          | Inr v' \<Rightarrow> v' = v \<and> ao_output o' = Some v \<and> ao_condition o' = None))"
proof -
  have refused: "\<exists>o'. NewAttemptOutcome (w_lower w) (w_letter w) j None (Some c) = Inr o' \<and>
      validFor (w_lower w) (w_letter w) o' j \<and> ao_output o' = None \<and> ao_condition o' = Some c"
    if "AttemptCondition_Valid c" "c \<noteq> AttemptConditionValidReview" for c
    using NewAttemptOutcome_condition [OF assms that, of "w_lower w" "w_letter w"] by blast
  show ?thesis
  proof (cases "validFor (w_lower w) (w_letter w) out j")
    case False
    with refused [OF internal_valid(1)] show ?thesis by (simp add: normalizedOutcome_def)
  next
    case valid: True
    show ?thesis
    proof (cases "ao_output out")
      case None
      with valid show ?thesis by (simp add: normalizedOutcome_def)
    next
      case (Some v)
      with valid have v: "ValidatedRoleOutput_validate (w_lower w) (w_letter w) v = None" "output_matches v j"
        by (auto simp: validFor_def split: if_splits)
      have clone: "ValidatedRoleOutput_clone v = v"
        using v(2) job_ok_target [OF assms] by (simp add: ValidatedRoleOutput_clone_def output_matches_def)
      show ?thesis
      proof (cases "reduceOutputEvidence w t v")
        case (Inl c)
        from refused [of c] reduce_refusal [OF Inl] Inl valid Some clone show ?thesis
          by (simp add: normalizedOutcome_def)
      next
        case (Inr v')
        from reduce_kept [OF v(1) Inr] have "v' = v" .
        obtain o' where "NewAttemptOutcome (w_lower w) (w_letter w) j (Some v) None = Inr o'"
          using v assms by (simp add: NewAttemptOutcome_def job_ok_def)
        with NewAttemptOutcome_output [OF this assms] Inr \<open>v' = v\<close> valid Some clone show ?thesis
          by (simp add: normalizedOutcome_def)
      qed
    qed
  qed
qed

lemma normalized_total:
  assumes "job_ok j"
  shows "\<exists>o'. normalizedOutcome w t j out = Inr o' \<and> AttemptCondition_Valid (coordinatorOutcomeCondition o')"
  using normalized_exact [OF assms, of w t out] validFor_condition by blast

text \<open>An output that is kept quotes the run's target, and its findings are as verified as the policy asks.\<close>

lemma reduce_policy:
  assumes "reduceOutputEvidence w t v = Inr v" "f \<in> set (vo_findings v)" "Requires (co_policy (w_coordinator w)) (f_severity f)"
  shows "f_evidenceState f = EvidenceVerified"
proof -
  obtain fs where fs: "ReduceVerifiedFindingEvidence (w_lower w) (vo_findings v) (vo_evidence v)
      (co_policy (w_coordinator w)) = Inr fs" "v = v\<lparr>vo_findings := fs\<rparr>"
    using assms(1) by (auto simp: reduceOutputEvidence_def Let_def split: if_splits sum.splits reduction_error.splits)
  from arg_cong [OF fs(2), of vo_findings] have same: "fs = vo_findings v" by simp
  obtain i where i: "i < length (vo_findings v)" "f = vo_findings v ! i" using assms(2) by (auto simp: in_set_conv_nth)
  with Reduce_result [OF fs(1)] have "reduce_finding (w_lower w) (co_policy (w_coordinator w)) i f (vo_evidence v ! i) = Inr f"
    by (simp add: same)
  from reduce_finding_Inr [OF this] assms(3) show ?thesis by blast
qed

section \<open>Dispatching\<close>

lemma waiting_at:
  assumes "waiting w x s j" "steady w x"
  obtains st c where "with_role (ij_role j) st c RoleTaskPrimaryRunning x = x"
    "role_at x (ij_role j) st c RoleTaskPrimaryRunning" "rol_currentAttempt st = 0" "awaits (ij_purpose j) s c"
    "job_for w (ij_role j) c j" "budgeted w (ij_role j) (cat_route c)" "AttemptID_id.valid_id (att_id (cat_attempt c))"
proof -
  obtain st c where *: "role_at x (ij_role j) st c RoleTaskPrimaryRunning" "rol_currentAttempt st = 0"
    "awaits (ij_purpose j) s c" "job_for w (ij_role j) c j" "budgeted w (ij_role j) (cat_route c)"
    using assms(1) unfolding waiting_def by blast
  moreover have "AttemptID_id.valid_id (att_id (cat_attempt c))" using *(3) by (simp add: awaits_def)
  ultimately show thesis using that role_normal [OF *(1) assms(2)] by blast
qed

lemma dispatch_one:
  assumes "steady w x" "waiting w x InvocationQueued j" "room 1 x"
    and "\<And>y. moved w {ij_role j} 1 x y \<Longrightarrow> waiting w y InvocationRunning j \<Longrightarrow> Q () y"
  shows "returns (seq (move_attempt (ij_role j) 0
        (\<lambda>a. TransitionInvocation a (invocationSequence (ij_purpose j)) InvocationRunning)) (\<lambda>_.
      record_attempt w CoordinatorEventInvocationDispatched (ij_role j) 0 (Some (ij_purpose j)) None '''')) x Q"
proof -
  let ?r = "ij_role j"
  note role = waiting_role [OF assms(2,1)]
  obtain st c where x: "with_role ?r st c RoleTaskPrimaryRunning x = x" "role_at x ?r st c RoleTaskPrimaryRunning"
    "rol_currentAttempt st = 0" "awaits (ij_purpose j) InvocationQueued c" "job_for w ?r c j"
    "budgeted w ?r (cat_route c)" and id: "AttemptID_id.valid_id (att_id (cat_attempt c))"
    using assms(2,1) by (rule waiting_at)
  obtain i pr b where c: "cat_attempt c = shaped i pr (ij_purpose j) b (phase_of (ij_purpose j)) InvocationQueued False"
    and purpose: "ij_purpose j \<in> purposes"
    using x(4) by (auto simp: awaits_def)
  let ?c = "c\<lparr>cat_attempt := shaped i pr (ij_purpose j) b (phase_of (ij_purpose j)) InvocationRunning False\<rparr>"
  have running: "TransitionInvocation (Some (cat_attempt c)) (invocationSequence (ij_purpose j)) InvocationRunning =
      Inr (cat_attempt ?c)"
    using transition_shaped [OF purpose, of InvocationQueued InvocationRunning i pr b False] c by simp
  have payload: "payload_ok CoordinatorEventInvocationDispatched (Some (ij_purpose j)) None ''''"
    using purpose by (auto simp: payload_ok_def)
  have id': "AttemptID_id.valid_id (att_id (cat_attempt ?c))" using id c by simp
  let ?e = "trace_event CoordinatorEventInvocationDispatched ?r (Some (att_id (cat_attempt ?c))) (Some (ij_purpose j))
    None '''' no_run_state x"
  let ?y = "with_role ?r st ?c RoleTaskPrimaryRunning (note_event ?e x)"
  have "moved w {?r} 1 x ?y" using role(1) assms(1) by (intro moved_role) simp_all
  moreover have "waiting w ?y InvocationRunning j"
  proof -
    have "job_for w ?r ?c j" "awaits (ij_purpose j) InvocationRunning ?c"
      using x(4,5) c by (auto simp: job_for_def awaits_def)
    moreover have "role_at ?y ?r (st\<lparr>rol_attempts := [?c]\<rparr>) ?c RoleTaskPrimaryRunning" using role(2) by simp
    moreover have "ij_role j \<notin> set (ex_terminalRoles ?y)" using role(2) by (simp add: open_role_def)
    ultimately show ?thesis unfolding waiting_def using x(3,6)
      by (intro conjI exI [of _ "st\<lparr>rol_attempts := [?c]\<rparr>"] exI [of _ ?c]) simp_all
  qed
  ultimately have Q: "Q () ?y" by (rule assms(4))
  have "returns (record_attempt w CoordinatorEventInvocationDispatched ?r 0 (Some (ij_purpose j)) None '''')
      (with_role ?r st ?c RoleTaskPrimaryRunning x) Q"
    using Q unfolding returns_record_attempt [OF role(2) assms(3) id' payload] .
  then have "returns (seq (move_attempt ?r 0
        (\<lambda>a. TransitionInvocation a (invocationSequence (ij_purpose j)) InvocationRunning)) (\<lambda>_.
      record_attempt w CoordinatorEventInvocationDispatched ?r 0 (Some (ij_purpose j)) None ''''))
      (with_role ?r st c RoleTaskPrimaryRunning x) Q"
    using running by simp
  then show ?thesis unfolding x(1) .
qed

lemma attempt_for_waiting:
  assumes "waiting w x s j" "steady w x" "Q 0 x"
  shows "returns (attemptFor w j) x Q"
proof -
  obtain st c where x: "with_role (ij_role j) st c RoleTaskPrimaryRunning x = x" "job_for w (ij_role j) c j"
    using assms(1,2) by (rule waiting_at)
  from returns_attemptFor [OF x(2), of st RoleTaskPrimaryRunning x Q] assms(3) show ?thesis unfolding x(1) by simp
qed

text \<open>A prefix of the wave is dispatched.\<close>

lemma dispatch_wave:
  assumes "steady w x" "\<forall>j \<in> set js. waiting w x InvocationQueued j" "distinct (map ij_role js)" "room (length js) x"
    and "\<And>ds rest y. js = ds @ rest \<Longrightarrow> moved w (ij_role ` set ds) (length ds) x y \<Longrightarrow>
      \<forall>j \<in> set ds. waiting w y InvocationRunning j \<Longrightarrow> Q (acc @ ds) y"
  shows "returns (dispatch_jobs w acc js) x Q"
  using assms
proof (induction js arbitrary: acc x)
  case Nil
  from Nil.prems(5) [of "[]" "[]" x] Nil.prems(1) show ?case by simp
next
  case (Cons j js)
  have stop: "Q acc (x\<lparr>ex_looks := n\<rparr>)" for n
    using Cons.prems(5) [of "[]" "j # js" "x\<lparr>ex_looks := n\<rparr>"] Cons.prems(1) by simp
  have goes_on: "returns (seq (move_attempt (ij_role j) 0
        (\<lambda>a. TransitionInvocation a (invocationSequence (ij_purpose j)) InvocationRunning)) (\<lambda>_.
      record_attempt w CoordinatorEventInvocationDispatched (ij_role j) 0 (Some (ij_purpose j)) None ''''))
      (x\<lparr>ex_looks := n\<rparr>) (\<lambda>_ t. returns (dispatch_jobs w (acc @ [j]) js) t Q)" for n
  proof (rule dispatch_one)
    show "steady w (x\<lparr>ex_looks := n\<rparr>)" "waiting w (x\<lparr>ex_looks := n\<rparr>) InvocationQueued j"
      using Cons.prems(1,2) by simp_all
    show "room 1 (x\<lparr>ex_looks := n\<rparr>)" using Cons.prems(4) room_le [of "length (j # js)" x 1] by simp
  next
    fix y
    assume y: "moved w {ij_role j} 1 (x\<lparr>ex_looks := n\<rparr>) y" "waiting w y InvocationRunning j"
    then have m: "moved w {ij_role j} 1 x y" by simp
    have others: "ij_role i \<noteq> ij_role j" if "i \<in> set js" for i using that Cons.prems(3) by (auto simp: image_iff)
    show "returns (dispatch_jobs w (acc @ [j]) js) y Q"
    proof (rule Cons.IH)
      show "steady w y" using moved_simps(1) [OF m] .
      show "\<forall>i \<in> set js. waiting w y InvocationQueued i"
        using Cons.prems(2) others moved_waiting [OF m] by simp
      show "distinct (map ij_role js)" using Cons.prems(3) by simp
      show "room (length js) y" using Cons.prems(4) moved_simps(3) [OF m, of "length js"] by simp
    next
      fix ds rest z
      assume z: "js = ds @ rest" "moved w (ij_role ` set ds) (length ds) y z"
        "\<forall>i \<in> set ds. waiting w z InvocationRunning i"
      have "ij_role j \<notin> ij_role ` set ds" using others z(1) by (force simp: image_iff)
      then have "waiting w z InvocationRunning j" using moved_waiting [OF z(2)] y(2) by simp
      moreover have "moved w (ij_role ` set (j # ds)) (length (j # ds)) x z"
        by (rule moved_trans [OF m z(2)]) auto
      ultimately show "Q ((acc @ [j]) @ ds) z" using Cons.prems(5) [of "j # ds" rest z] z(1,3) by simp
    qed
  qed
  have "returns (attemptFor w j) (x\<lparr>ex_looks := n\<rparr>) R" if "R 0 (x\<lparr>ex_looks := n\<rparr>)" for n R
    using that Cons.prems(1,2) by (intro attempt_for_waiting [of w _ InvocationQueued]) simp_all
  then show ?case using stop goes_on by simp
qed

section \<open>Collecting\<close>

text \<open>The scheduler answers every job of a wave, in any order.\<close>

definition answers :: "world \<Rightarrow> bool" where
  "answers w \<longleftrightarrow> (\<forall>js. mset (map (\<lambda>a. ij_ordinal (fst a)) (w_results w js)) = mset (map ij_ordinal js))"

lemma collect_all:
  assumes "accepting w" "\<forall>j \<in> set wave. job_ok j" "\<forall>a \<in> set rs. ij_ordinal (fst a) \<in> ij_ordinal ` set wave"
    "distinct (map (\<lambda>a. ij_ordinal (fst a)) rs)" "dom outcomes \<inter> (\<lambda>a. ij_ordinal (fst a)) ` set rs = {}"
    and "\<And>known. dom known = dom outcomes \<union> (\<lambda>a. ij_ordinal (fst a)) ` set rs \<Longrightarrow> Q known x"
  shows "returns (collect_results w wave stopping outcomes rs) x Q"
  using assms(3-)
proof (induction rs arbitrary: stopping outcomes)
  case (Cons r rs)
  obtain a out where r: "r = (a, out)" by (cases r)
  have "ij_ordinal a \<in> ij_ordinal ` set wave" using Cons.prems(1) r by simp
  then have "List.find (\<lambda>j. ij_ordinal j = ij_ordinal a) (rev wave) \<noteq> None" by (auto simp: find_None_iff)
  then obtain j where j: "List.find (\<lambda>j. ij_ordinal j = ij_ordinal a) (rev wave) = Some j" by blast
  then have "j \<in> set wave" by (auto dest: find_SomeD)
  then obtain out' where out': "normalizedOutcome w (run_target (ex_run x)) j out = Inr out'"
    using normalized_total assms(2) by blast
  have fresh: "outcomes (ij_ordinal a) = None" using Cons.prems(3) r by (auto simp: domIff)
  have "w_persist w k o'" for k o' using assms(1) by (simp add: accepting_def)
  moreover have "returns (collect_results w wave s (outcomes(ij_ordinal a \<mapsto> out')) rs) x Q" for s
  proof (rule Cons.IH)
    show "\<forall>a \<in> set rs. ij_ordinal (fst a) \<in> ij_ordinal ` set wave" using Cons.prems(1) by simp
    show "distinct (map (\<lambda>a. ij_ordinal (fst a)) rs)" using Cons.prems(2) by simp
    show "dom (outcomes(ij_ordinal a \<mapsto> out')) \<inter> (\<lambda>a. ij_ordinal (fst a)) ` set rs = {}"
      using Cons.prems(2,3) r unfolding dom_fun_upd by (simp del: fun_upd_apply)
    show "Q known x" if "dom known = dom (outcomes(ij_ordinal a \<mapsto> out')) \<union> (\<lambda>a. ij_ordinal (fst a)) ` set rs" for known
      using that r by (intro Cons.prems(4)) (simp del: fun_upd_apply)
  qed
  ultimately show ?case using r j fresh out' by (simp add: Let_def del: fun_upd_apply)
qed simp

lemma collect_wave:
  assumes "accepting w" "answers w" "\<forall>j \<in> set js. job_ok j" "distinct (map ij_ordinal js)"
    and "\<And>known. \<forall>j \<in> set js. known (ij_ordinal j) \<noteq> None \<Longrightarrow> Q known x"
  shows "returns (collectWave w js) x Q"
proof -
  let ?ordinals = "map (\<lambda>a. ij_ordinal (fst a)) (w_results w js)"
  have m: "mset ?ordinals = mset (map ij_ordinal js)" using assms(2) by (simp add: answers_def)
  from mset_eq_length [OF m] have "take (length js) (w_results w js) = w_results w js" by simp
  moreover have "set ?ordinals = ij_ordinal ` set js" using mset_eq_setD [OF m] by simp
  moreover have "distinct ?ordinals" using mset_eq_imp_distinct_iff [OF m] assms(4) by simp
  ultimately show ?thesis
    unfolding collectWave_def using assms(1,3) by (intro collect_all) (auto intro!: assms(5) simp: domIff)
qed

text \<open>The outcomes of the jobs of a wave have conditions of the policy.\<close>

definition judged :: "(uint64 \<rightharpoonup> AttemptOutcome) \<Rightarrow> InvocationJob list \<Rightarrow> bool" where
  "judged outcomes js \<longleftrightarrow> (\<forall>j \<in> set js. AttemptCondition_Valid (coordinatorOutcomeCondition (outcome_of outcomes j)))"

lemma judge_wave:
  assumes "\<forall>j \<in> set js. job_ok j \<and> collected (ij_ordinal j) \<noteq> None"
  obtains outcomes where "wave_outcomes w t collected Map.empty js = Inr outcomes" "judged outcomes js"
proof -
  have "\<exists>o'. wave_outcomes w t collected outcomes js = Inr o' \<and> dom o' = dom outcomes \<union> ij_ordinal ` set js \<and>
      (\<forall>out \<in> ran o'. AttemptCondition_Valid (coordinatorOutcomeCondition out))"
    if "\<forall>out \<in> ran outcomes. AttemptCondition_Valid (coordinatorOutcomeCondition out)" for outcomes
    using assms that
  proof (induction js arbitrary: outcomes)
    case (Cons j js)
    from Cons.prems(1) obtain out where out: "collected (ij_ordinal j) = Some out" "job_ok j" by auto
    obtain out' where out': "normalizedOutcome w t j out = Inr out'" "AttemptCondition_Valid (coordinatorOutcomeCondition out')"
      using normalized_total [OF out(2)] by blast
    have "\<forall>o' \<in> ran (outcomes(ij_ordinal j \<mapsto> out')). AttemptCondition_Valid (coordinatorOutcomeCondition o')"
      using Cons.prems(2) out'(2) by (auto simp: ran_def)
    from Cons.IH [OF _ this] Cons.prems(1) out(1) out'(1) show ?case by (auto simp del: fun_upd_apply)
  qed simp
  from this [of Map.empty] obtain o' where o': "wave_outcomes w t collected Map.empty js = Inr o'"
    "dom o' = ij_ordinal ` set js" "\<forall>out \<in> ran o'. AttemptCondition_Valid (coordinatorOutcomeCondition out)"
    by auto
  have "AttemptCondition_Valid (coordinatorOutcomeCondition (outcome_of o' j))" if "j \<in> set js" for j
  proof -
    from that o'(2) have "ij_ordinal j \<in> dom o'" by blast
    then obtain out where "o' (ij_ordinal j) = Some out" by blast
    with o'(3) show ?thesis by (auto simp: outcome_of_def ran_def)
  qed
  with o'(1) that show thesis by (simp add: judged_def)
qed

section \<open>Committing\<close>

lemma settled_own: "AttemptCondition_Valid c \<Longrightarrow> settled c False"
  by (simp add: settled_def)

lemma commit_trailer_waiting:
  assumes "steady w x" "waiting w x InvocationRunning j" "room 3 x"
    "AttemptCondition_Valid (coordinatorOutcomeCondition (outcome_of outcomes j))"
    and "\<And>y. moved w {ij_role j} 3 x y \<Longrightarrow> over y (ij_role j) \<Longrightarrow> Q () y"
  shows "returns (commit_trailer w outcomes j) x Q"
  unfolding commit_trailer_def returns_seq returns_give
  by (rule commit_waiting [OF assms(1,2) settled_own [OF assms(4)] assms(3)]) (auto intro: assms(5))

lemma commit_other_waiting:
  assumes "steady w x" "waiting w x InvocationRunning j" "room 4 x"
    "AttemptCondition_Valid (coordinatorOutcomeCondition (outcome_of outcomes j))"
    and "\<And>y. moved w {ij_role j} 4 x y \<Longrightarrow> over y (ij_role j) \<Longrightarrow> Q [] y"
    and "\<And>n y. moved w {ij_role j} 4 x y \<Longrightarrow> \<not> stopped \<Longrightarrow>
      ij_purpose j = InvocationInitial \<Longrightarrow> ij_role n = ij_role j \<Longrightarrow> ij_purpose n \<noteq> InvocationInitial \<Longrightarrow>
      waiting w y InvocationQueued n \<Longrightarrow> unat (ex_nextJob x) < unat (ij_ordinal n) \<Longrightarrow>
      ij_ordinal n = ex_nextJob y \<Longrightarrow> Q [n] y"
  shows "returns (commit_other w outcomes stopped j) x Q"
  unfolding commit_other_def returns_seq
proof (rule prepare_commit [OF assms(1,4)])
  show "room 1 x" using assms(3) room_le by fastforce
next
  fix k cancelled observed t
  assume k: "settled k cancelled" and t: "moved w {} 1 x t"
  have wait: "waiting w t InvocationRunning j" using assms(2) moved_waiting [OF t] by simp
  have space: "room 3 t" using assms(3) moved_simps(3) [OF t, of 3] by simp
  have m: "moved w {ij_role j} 4 x y" if "moved w {ij_role j} 3 t y" for y
    using moved_trans [OF t that] by simp
  show "returns (case (k, cancelled, observed) of (c, cancelled, observed) \<Rightarrow>
      commitOutcome w j (outcome_of outcomes j) c cancelled (stopped \<or> observed)) t Q"
    unfolding prod.case
    by (rule commit_waiting [OF moved_simps(1) [OF t] wait k space])
      (use m moved_simps(5) [OF t] assms(5,6) in auto)
qed

lemma commit_stopped_waiting:
  assumes "steady w x" "waiting w x InvocationRunning j" "room 4 x"
    "AttemptCondition_Valid (coordinatorOutcomeCondition (outcome_of outcomes j))"
    and "\<And>y. moved w {ij_role j} 4 x y \<Longrightarrow> over y (ij_role j) \<Longrightarrow> Q () y"
  shows "returns (commit_stopped w outcomes j) x Q"
proof -
  have "returns (commit_trailer w outcomes j) x Q"
  proof (rule commit_trailer_waiting [OF assms(1,2) _ assms(4)])
    show "room 3 x" using assms(3) room_le by fastforce
    show "Q () y" if "moved w {ij_role j} 3 x y" "over y (ij_role j)" for y
      using assms(5) that moved_le [OF that(1)] by auto
  qed
  moreover have "returns (seq (commit_other w outcomes True j) (\<lambda>_. give ())) x Q"
    unfolding returns_seq returns_give
    by (rule commit_other_waiting [OF assms(1-4)]) (auto intro: assms(5))
  ultimately show ?thesis by (simp add: commit_stopped_def)
qed

text \<open>A loop whose steps end the roles of a list of jobs.\<close>

lemma end_each:
  assumes "steady w x" "\<forall>j \<in> set js. waiting w x InvocationRunning j" "distinct (map ij_role js)"
    "room (4 * length js) x"
    and "\<And>j t R. j \<in> set js \<Longrightarrow> steady w t \<Longrightarrow> waiting w t InvocationRunning j \<Longrightarrow> room 4 t \<Longrightarrow>
      (\<And>y. moved w {ij_role j} 4 t y \<Longrightarrow> over y (ij_role j) \<Longrightarrow> R () y) \<Longrightarrow> returns (f j) t R"
    and "\<And>y. moved w (ij_role ` set js) (4 * length js) x y \<Longrightarrow> \<forall>j \<in> set js. over y (ij_role j) \<Longrightarrow> Q () y"
  shows "returns (for_each f js) x Q"
proof -
  let ?I = "\<lambda>ys t. moved w (ij_role ` set ys) (4 * length ys) x t \<and> (\<forall>j \<in> set ys. over t (ij_role j))"
  have "returns (for_each f js) x (\<lambda>_. ?I js)"
  proof (rule returns_for_each)
    show "?I [] x" using assms(1) by simp
  next
    fix ys j zs t
    assume js: "js = ys @ j # zs" and t: "?I ys t"
    then have m: "moved w (ij_role ` set ys) (4 * length ys) x t" by blast
    have fresh: "ij_role j \<notin> ij_role ` set ys" using assms(3) by (auto simp: js image_iff)
    show "returns (f j) t (\<lambda>_. ?I (ys @ [j]))"
    proof (rule assms(5))
      show "j \<in> set js" by (simp add: js)
      show "steady w t" using moved_simps(1) [OF m] .
      show "waiting w t InvocationRunning j" using assms(2) moved_waiting [OF m fresh] by (simp add: js)
      have "room (4 + 4 * length ys) x" using assms(4) room_le by (fastforce simp: js)
      then show "room 4 t" by (rule moved_simps(3) [OF m])
    next
      fix y
      assume y: "moved w {ij_role j} 4 t y" "over y (ij_role j)"
      have "over y (ij_role i)" if "i \<in> set ys" for i
      proof -
        have "ij_role i \<noteq> ij_role j" using that fresh by (auto simp: image_iff)
        then show ?thesis using t that moved_over [OF y(1)] by simp
      qed
      moreover have "moved w (ij_role ` set (ys @ [j])) (4 * length (ys @ [j])) x y"
        by (rule moved_trans [OF m y(1)]) auto
      ultimately show "?I (ys @ [j]) y" using y(2) by simp
    qed
  qed
  then show ?thesis by (rule returns_mono) (auto intro: assms(6))
qed

text \<open>The jobs of a wave that can be dispatched.\<close>

definition wave_ready :: "world \<Rightarrow> coordinatorExecution \<Rightarrow> InvocationJob list \<Rightarrow> bool" where
  "wave_ready w x js \<longleftrightarrow>
     steady w x \<and> (\<forall>j \<in> set js. waiting w x InvocationQueued j \<and> unat (ij_ordinal j) \<le> unat (ex_nextJob x)) \<and>
     distinct (map ij_role js) \<and> distinct (map ij_ordinal js)"

text \<open>
  The jobs \<open>ys\<close> were committed since \<open>x\<close>, and \<open>ns\<close> are the follow-ups: each role is over, or has one
  of them. A follow-up has an initial invocation before it.
\<close>

definition follow_ups ::
    "world \<Rightarrow> coordinatorExecution \<Rightarrow> InvocationJob list \<Rightarrow> InvocationJob list \<Rightarrow> coordinatorExecution \<Rightarrow> bool" where
  "follow_ups w x ys ns t \<longleftrightarrow>
     moved w (ij_role ` set ys) (4 * length ys) x t \<and> wave_ready w t ns \<and>
     (\<forall>j \<in> set ys. over t (ij_role j) \<or> (\<exists>n. ij_role n = ij_role j \<and> waiting w t InvocationQueued n)) \<and>
     (\<forall>n \<in> set ns. ij_purpose n \<noteq> InvocationInitial \<and>
        (\<exists>j \<in> set ys. ij_role j = ij_role n \<and> ij_purpose j = InvocationInitial))"

lemma follow_step:
  assumes "follow_ups w x ys ns t" "ij_role j \<notin> ij_role ` set ys" "moved w {ij_role j} 4 t y"
  shows "over y (ij_role j) \<Longrightarrow> follow_ups w x (ys @ [j]) ns y"
    "ij_purpose j = InvocationInitial \<Longrightarrow> ij_role n = ij_role j \<Longrightarrow> ij_purpose n \<noteq> InvocationInitial \<Longrightarrow>
      waiting w y InvocationQueued n \<Longrightarrow> unat (ex_nextJob t) < unat (ij_ordinal n) \<Longrightarrow> ij_ordinal n = ex_nextJob y \<Longrightarrow>
      follow_ups w x (ys @ [j]) (ns @ [n]) y"
proof -
  note f = assms(1) [unfolded follow_ups_def wave_ready_def]
  have m: "moved w (ij_role ` set (ys @ [j])) (4 * length (ys @ [j])) x y"
    using f by (intro moved_trans [OF _ assms(3)]) auto
  have new: "ij_role n \<in> ij_role ` set ys" if "n \<in> set ns" for n using f that by (metis image_eqI)
  have kept: "ij_role n \<noteq> ij_role j" if "n \<in> set ns" for n using new [OF that] assms(2) by auto
  have others: "ij_role i \<notin> {ij_role j}" if "i \<in> set ys" for i using that assms(2) by (auto simp: image_iff)
  have old: "over y (ij_role i) \<or> (\<exists>n. ij_role n = ij_role i \<and> waiting w y InvocationQueued n)" if "i \<in> set ys" for i
  proof -
    from f that consider "over t (ij_role i)" | n where "ij_role n = ij_role i" "waiting w t InvocationQueued n" by blast
    then show ?thesis
    proof cases
      case 1
      then show ?thesis using moved_over [OF assms(3) others [OF that]] by simp
    next
      case 2
      then have "waiting w y InvocationQueued n" using moved_waiting [OF assms(3), of n] others [OF that] by simp
      with 2 show ?thesis by blast
    qed
  qed
  have queued: "waiting w y InvocationQueued n \<and> unat (ij_ordinal n) \<le> unat (ex_nextJob t)" if "n \<in> set ns" for n
    using f that kept [OF that] moved_waiting [OF assms(3), of n] by simp
  have ordinals: "unat (ij_ordinal n) \<le> unat (ex_nextJob y)" if "n \<in> set ns" for n
    using queued [OF that] moved_simps(5) [OF assms(3)] by simp
  have purposes: "ij_purpose n \<noteq> InvocationInitial \<and>
      (\<exists>i \<in> set (ys @ [j]). ij_role i = ij_role n \<and> ij_purpose i = InvocationInitial)" if "n \<in> set ns" for n
    using f that by auto
  note steady = moved_simps(1) [OF assms(3)]
  have ready: "wave_ready w y ns" unfolding wave_ready_def using steady queued ordinals f by simp
  {
    assume "over y (ij_role j)"
    then show "follow_ups w x (ys @ [j]) ns y"
      unfolding follow_ups_def using m ready old purposes by auto
  next
    assume n: "ij_purpose j = InvocationInitial" "ij_role n = ij_role j" "ij_purpose n \<noteq> InvocationInitial"
      "waiting w y InvocationQueued n" "unat (ex_nextJob t) < unat (ij_ordinal n)" "ij_ordinal n = ex_nextJob y"
    have "ij_ordinal n \<notin> ij_ordinal ` set ns" using queued n(5) by (force simp: image_iff)
    moreover have "ij_role n \<notin> ij_role ` set ns" using kept n(2) by (force simp: image_iff)
    ultimately have "wave_ready w y (ns @ [n])" using ready n(4,6) by (simp add: wave_ready_def)
    then show "follow_ups w x (ys @ [j]) (ns @ [n]) y"
      unfolding follow_ups_def using m old purposes n(1-4) by auto
  }
qed

text \<open>Committing the outcomes that are no trailers; it ends early when the execution is stopping.\<close>

lemma commit_others_ready:
  assumes "follow_ups w x ys ns t" "\<forall>j \<in> set js. waiting w x InvocationRunning j" "distinct (map ij_role (ys @ js))"
    "room (4 * length (ys @ js)) x" "judged outcomes js"
    and "\<And>zs ns y. set zs \<subseteq> set (ys @ js) \<Longrightarrow> length zs \<le> length (ys @ js) \<Longrightarrow> follow_ups w x zs ns y \<Longrightarrow> Q ns y"
  shows "returns (commit_others w outcomes ns js) t Q"
  using assms
proof (induction js arbitrary: ys ns t)
  case Nil
  from Nil.prems(6) [of ys ns t] Nil.prems(1) show ?case by simp
next
  case (Cons j js)
  note f = Cons.prems(1)
  then have m: "moved w (ij_role ` set ys) (4 * length ys) x t" by (simp add: follow_ups_def)
  have fresh: "ij_role j \<notin> ij_role ` set ys" using Cons.prems(3) by (auto simp: image_iff)
  have rest: "returns (seq (read ex_stopping) (\<lambda>stopping. if stopping then give [] else commit_others w outcomes ns' js)) y Q"
    if f': "follow_ups w x (ys @ [j]) ns' y" for ns' y
  proof -
    have "follow_ups w x (ys @ [j]) [] y"
      using f' by (auto simp: follow_ups_def wave_ready_def)
    then have "Q [] y" by (rule Cons.prems(6) [rotated 2]) auto
    moreover have "returns (commit_others w outcomes ns' js) y Q"
    proof (rule Cons.IH [OF f'])
      show "Q ns y" if "set zs \<subseteq> set ((ys @ [j]) @ js)" "length zs \<le> length ((ys @ [j]) @ js)" "follow_ups w x zs ns y"
        for zs ns y
        using that by (intro Cons.prems(6) [of zs]) auto
    qed (use Cons.prems(2-5) in \<open>auto simp: judged_def\<close>)
    ultimately show ?thesis by simp
  qed
  have "returns (commit_other w outcomes False j) t (\<lambda>generated y.
      returns (seq (read ex_stopping) (\<lambda>stopping. if stopping then give [] else commit_others w outcomes (ns @ generated) js)) y Q)"
  proof (rule commit_other_waiting)
    show "steady w t" using moved_simps(1) [OF m] .
    show "waiting w t InvocationRunning j" using Cons.prems(2) moved_waiting [OF m fresh] by simp
    have "room (4 + 4 * length ys) x" using Cons.prems(4) room_le by fastforce
    then show "room 4 t" by (rule moved_simps(3) [OF m])
    show "AttemptCondition_Valid (coordinatorOutcomeCondition (outcome_of outcomes j))"
      using Cons.prems(5) by (simp add: judged_def)
  qed (use rest follow_step [OF f fresh] in auto)
  then show ?case by simp
qed

text \<open>What a wave leaves: every role is accounted for, and the next wave is ready.\<close>

definition wave_over :: "world \<Rightarrow> coordinatorExecution \<Rightarrow> InvocationJob list \<Rightarrow> InvocationJob list \<Rightarrow> coordinatorExecution \<Rightarrow> bool" where
  "wave_over w x js ns y \<longleftrightarrow>
     moved w UNIV 40 x y \<and> accounted w y \<and> wave_ready w y ns \<and>
     (\<forall>n \<in> set ns. ij_purpose n \<noteq> InvocationInitial) \<and>
     ((\<forall>j \<in> set js. ij_purpose j \<noteq> InvocationInitial) \<longrightarrow> ns = [])"

lemma role_count_eq: "role_count = 7"
  by (simp add: role_count_def FixedRoleOrder_def)

lemma wave_size:
  assumes "\<forall>j \<in> set js. waiting w x s j" "steady w x" "distinct (map ij_role js)"
  shows "length js \<le> 7"
proof -
  have "ij_role ` set js \<subseteq> set FixedRoleOrder"
  proof
    fix r assume "r \<in> ij_role ` set js"
    then have "r \<in> set (selected (ex_run x))" using assms(1,2) waiting_role(1) by blast
    then show "r \<in> set FixedRoleOrder" using assms(2) Role_Valid_iff by (simp add: steady_def)
  qed
  then have "card (ij_role ` set js) \<le> card (set FixedRoleOrder)" by (simp add: card_mono)
  moreover have "card (ij_role ` set js) = length js" using assms(3) distinct_card by (metis length_map set_map)
  moreover have "card (set FixedRoleOrder) = 7" using distinct_card [OF distinct_FixedRoleOrder] role_count_eq
    by (simp add: role_count_def)
  ultimately show ?thesis by simp
qed

lemma finished_wave_over:
  assumes "finished w y" "moved w UNIV m x y" "m \<le> 40"
  shows "wave_over w x js [] y"
  using assms moved_le [OF assms(2), of UNIV 40] finished_accounted [OF assms(1)] moved_simps(1) [OF assms(2)]
  by (simp add: wave_over_def wave_ready_def)

section \<open>Committing a wave\<close>

text \<open>A wave whose jobs all ran, in an execution with room for what committing it needs.\<close>

definition wave_ran :: "world \<Rightarrow> coordinatorExecution \<Rightarrow> InvocationJob list \<Rightarrow> bool" where
  "wave_ran w x js \<longleftrightarrow>
     steady w x \<and> accounted w x \<and> (\<forall>j \<in> set js. waiting w x InvocationRunning j) \<and>
     distinct (map ij_role js) \<and> room 40 x"

lemma wave_ran_simps:
  assumes "wave_ran w x js"
  shows "steady w x" "accounted w x" "j \<in> set js \<Longrightarrow> waiting w x InvocationRunning j" "distinct (map ij_role js)"
    "m \<le> 40 \<Longrightarrow> room m x" "length js \<le> 7"
  using assms room_le wave_size [of js w x InvocationRunning] by (auto simp: wave_ran_def)

lemma wave_ran_looks [simp]: "wave_ran w (x\<lparr>ex_looks := n\<rparr>) js \<longleftrightarrow> wave_ran w x js"
  by (simp add: wave_ran_def accounted_def)

lemma wave_over_looks [simp]: "wave_over w (x\<lparr>ex_looks := n\<rparr>) js ns y \<longleftrightarrow> wave_over w x js ns y"
  by (simp add: wave_over_def)

text \<open>Everything is cancelled after the roles in \<open>R\<close> have ended.\<close>

lemma cancel_wave:
  assumes "wave_ran w x js" "AttemptCondition_Valid k" "moved w R m x y" "\<forall>r \<in> R. over y r" "m \<le> 32"
    and "\<And>z. wave_over w x js [] z \<Longrightarrow> Q [] z"
  shows "returns (seq (cancelAll w k) (\<lambda>_. give [])) y Q"
  unfolding returns_seq returns_give
proof (rule cancel_all [OF moved_simps(1) [OF assms(3)] _ assms(2)])
  show "accounted w y" using accounted_moved [OF wave_ran_simps(2) [OF assms(1)] assms(3)] assms(4) by blast
  have "room (8 + m) x" using wave_ran_simps(5) [OF assms(1)] assms(5) by simp
  then show "room (role_count + 1) y" using moved_simps(3) [OF assms(3)] by (simp add: role_count_eq)
next
  fix z assume z: "finished w z" "moved w UNIV (role_count + 1) y z"
  have "moved w UNIV (m + (role_count + 1)) x z" by (rule moved_trans [OF assms(3) z(2)]) auto
  from finished_wave_over [OF z(1) this] assms(5) show "Q [] z" by (intro assms(6)) (simp add: role_count_eq)
qed

lemma commit_wave_stopped:
  assumes "wave_ran w x js" "judged outcomes js" "AttemptCondition_Valid c"
    and "\<And>z. wave_over w x js [] z \<Longrightarrow> Q [] z"
  shows "returns (seq (requestDispatchStop w c) (\<lambda>_.
    seq (for_each (commit_stopped w outcomes) js) (\<lambda>_. seq (cancelAll w c) (\<lambda>_. give [])))) x Q"
proof -
  note ran = wave_ran_simps [OF assms(1)]
  have each: "returns (for_each (commit_stopped w outcomes) js) t (\<lambda>_ y.
      returns (seq (cancelAll w c) (\<lambda>_. give [])) y Q)" if t: "moved w {} 1 x t" for t
  proof (rule end_each [OF moved_simps(1) [OF t] _ ran(4)])
    show "\<forall>j \<in> set js. waiting w t InvocationRunning j" using ran(3) moved_waiting [OF t] by simp
    have "room (4 * length js + 1) x" using ran(5,6) by simp
    then show "room (4 * length js) t" by (rule moved_simps(3) [OF t])
  next
    fix j u R assume "j \<in> set js" "steady w u" "waiting w u InvocationRunning j" "room 4 u"
      "\<And>y. moved w {ij_role j} 4 u y \<Longrightarrow> over y (ij_role j) \<Longrightarrow> R () y"
    with assms(2) show "returns (commit_stopped w outcomes j) u R"
      by (intro commit_stopped_waiting) (auto simp: judged_def)
  next
    fix y assume y: "moved w (ij_role ` set js) (4 * length js) t y" "\<forall>j \<in> set js. over y (ij_role j)"
    have "moved w (ij_role ` set js) (1 + 4 * length js) x y" by (rule moved_trans [OF t y(1)]) auto
    with y(2) ran(6) show "returns (seq (cancelAll w c) (\<lambda>_. give [])) y Q"
      by (intro cancel_wave [where Q = Q, OF assms(1,3)]) (auto intro: assms(4))
  qed
  have "room 1 x" using ran(5) by simp
  from request_stop [OF ran(1) assms(3) this each] show ?thesis by (simp only: returns_seq [of "requestDispatchStop w c"] returns_seq [of "for_each _ _"])
qed

lemma commit_trailers:
  assumes "wave_ran w x js" "judged outcomes js" "set trailers \<subseteq> set js" "distinct (map ij_role trailers)"
    and "\<And>y. moved w (ij_role ` set trailers) (4 * length trailers) x y \<Longrightarrow> \<forall>j \<in> set trailers. over y (ij_role j) \<Longrightarrow> Q () y"
  shows "returns (for_each (commit_trailer w outcomes) trailers) x Q"
proof (rule end_each [OF wave_ran_simps(1) [OF assms(1)] _ assms(4)])
  note ran = wave_ran_simps [OF assms(1)]
  show waits: "\<forall>j \<in> set trailers. waiting w x InvocationRunning j" using ran(3) assms(3) by blast
  from wave_size [OF waits ran(1) assms(4)] show "room (4 * length trailers) x" by (intro ran(5)) simp
next
  fix j u R assume j: "j \<in> set trailers" "steady w u" "waiting w u InvocationRunning j" "room 4 u"
    "\<And>y. moved w {ij_role j} 4 u y \<Longrightarrow> over y (ij_role j) \<Longrightarrow> R () y"
  show "returns (commit_trailer w outcomes j) u R"
  proof (rule commit_trailer_waiting [OF j(2,3)])
    show "room 3 u" using j(4) room_le by fastforce
    show "AttemptCondition_Valid (coordinatorOutcomeCondition (outcome_of outcomes j))"
      using assms(2,3) j(1) by (auto simp: judged_def)
    show "R () y" if "moved w {ij_role j} 3 u y" "over y (ij_role j)" for y
      using j(5) that moved_le [OF that(1)] by auto
  qed
qed (rule assms(5))

lemma commit_wave_goes_on:
  assumes "wave_ran w x js" "judged outcomes js"
    and "\<And>ns y. wave_over w x js ns y \<Longrightarrow> Q ns y"
  shows "returns (seq (for_each (commit_trailer w outcomes) (filter (bounded_trailer outcomes) js)) (\<lambda>_.
    commit_others w outcomes [] (filter (\<lambda>j. \<not> bounded_trailer outcomes j) js))) x Q"
  unfolding returns_seq
proof (rule commit_trailers [OF assms(1,2)])
  note ran = wave_ran_simps [OF assms(1)]
  define trailers where "trailers = filter (bounded_trailer outcomes) js"
  define others where "others = filter (\<lambda>j. \<not> bounded_trailer outcomes j) js"
  have size: "length trailers + length others = length js"
    using sum_length_filter_compl [of "bounded_trailer outcomes" js] by (simp add: trailers_def others_def)
  fix t assume "moved w (ij_role ` set (filter (bounded_trailer outcomes) js))
      (4 * length (filter (bounded_trailer outcomes) js)) x t"
    "\<forall>j \<in> set (filter (bounded_trailer outcomes) js). over t (ij_role j)"
  then have t: "moved w (ij_role ` set trailers) (4 * length trailers) x t" "\<forall>j \<in> set trailers. over t (ij_role j)"
    unfolding trailers_def by blast+
  have apart: "ij_role j \<notin> ij_role ` set trailers" if "j \<in> set others" for j
    using that ran(4) by (auto simp: others_def trailers_def distinct_map inj_on_def)
  have "returns (commit_others w outcomes [] others) t Q"
  proof (rule commit_others_ready [where ys = "[]" and x = t])
    show "follow_ups w t [] [] t" using moved_simps(1) [OF t(1)] by (simp add: follow_ups_def wave_ready_def)
    show "\<forall>j \<in> set others. waiting w t InvocationRunning j"
      using ran(3) apart moved_waiting [OF t(1)] by (auto simp: others_def)
    show "distinct (map ij_role ([] @ others))" using ran(4) by (simp add: others_def distinct_map_filter)
    have "room (4 * length others + 4 * length trailers) x" using ran(5,6) size by simp
    then show "room (4 * length ([] @ others)) t" using moved_simps(3) [OF t(1)] by simp
    show "judged outcomes others" using assms(2) by (simp add: judged_def others_def)
  next
    fix zs ns y
    assume zs: "set zs \<subseteq> set ([] @ others)" "length zs \<le> length ([] @ others)" "follow_ups w t zs ns y"
    then have y: "moved w (ij_role ` set zs) (4 * length zs) t y" "wave_ready w y ns"
      "\<forall>j \<in> set zs. over y (ij_role j) \<or> (\<exists>n. ij_role n = ij_role j \<and> waiting w y InvocationQueued n)"
      "\<forall>n \<in> set ns. ij_purpose n \<noteq> InvocationInitial \<and> (\<exists>j \<in> set zs. ij_role j = ij_role n \<and> ij_purpose j = InvocationInitial)"
      by (auto simp: follow_ups_def)
    have m: "moved w (ij_role ` set (trailers @ zs)) (4 * length trailers + 4 * length zs) x y"
      by (rule moved_trans [OF t(1) y(1)]) auto
    have "over y (ij_role j)" if "j \<in> set trailers" for j
    proof -
      have "ij_role j \<notin> ij_role ` set zs" using that apart zs(1) by (force simp: image_iff)
      then show ?thesis using t(2) that moved_over [OF y(1)] by simp
    qed
    then have "accounted w y" using y(3) by (intro accounted_moved [OF ran(2) m]) auto
    moreover have "moved w UNIV 40 x y" using zs(2) ran(6) size by (intro moved_le [OF m]) auto
    moreover have "ns = []" if "\<forall>j \<in> set js. ij_purpose j \<noteq> InvocationInitial"
    proof (rule ccontr)
      assume "ns \<noteq> []"
      then obtain n where "n \<in> set ns" by (cases ns) auto
      with y(4) obtain j where "j \<in> set zs" "ij_purpose j = InvocationInitial" by blast
      moreover from this zs(1) have "j \<in> set js" by (auto simp: others_def)
      ultimately show False using that by blast
    qed
    ultimately show "Q ns y" using y(2,4) by (intro assms(3)) (simp add: wave_over_def)
  qed
  then show "returns (commit_others w outcomes [] (filter (\<lambda>j. \<not> bounded_trailer outcomes j) js)) t Q"
    unfolding others_def .
qed (use wave_ran_simps(4) [OF assms(1)] in \<open>auto simp: distinct_map_filter\<close>)

lemma look_contexts:
  assumes "\<And>ks n. (\<And>k. k \<in> set ks \<Longrightarrow> AttemptCondition_Valid k) \<Longrightarrow> Q ks (x\<lparr>ex_looks := n\<rparr>)"
  shows "returns (contextConditions w) x Q"
proof -
  have "AttemptCondition_Valid AttemptConditionCancelled" "AttemptCondition_Valid AttemptConditionTimeout"
    using stops_role_valid by (simp_all add: stops_role_def)
  then show ?thesis by (auto simp: contextConditions_def intro!: assms)
qed

lemma reduce_contexts:
  assumes "\<And>k. k \<in> set ks \<Longrightarrow> AttemptCondition_Valid k" "Q None x" "\<And>k. AttemptCondition_Valid k \<Longrightarrow> Q (Some k) x"
  shows "returns (if ks = [] then give None
    else seq (result CoPolicy (ReduceAttemptConditions ks)) (\<lambda>k. give (Some k))) x Q"
proof (cases "ks = []")
  case False
  with assms(1) obtain k where "ReduceAttemptConditions ks = Inr k" "k \<in> set ks" using reduces [of ks] by metis
  with False assms(1,3) show ?thesis by auto
qed (simp add: assms(2))

lemma commit_wave:
  assumes "wave_ran w x js" "\<forall>j \<in> set js. collected (ij_ordinal j) \<noteq> None"
    and "\<And>ns y. wave_over w x js ns y \<Longrightarrow> Q ns y"
  shows "returns (commitWave w js collected) x Q"
proof -
  define ordered where "ordered = orderedCoordinatorWave js"
  have same: "set ordered = set js" by (simp add: ordered_def orderedCoordinatorWave_def)
  have "mset (map ij_role ordered) = mset (map ij_role js)"
    by (simp add: ordered_def orderedCoordinatorWave_def)
  then have "distinct (map ij_role ordered)"
    using wave_ran_simps(4) [OF assms(1)] mset_eq_imp_distinct_iff by blast
  then have ran: "wave_ran w x ordered" using assms(1) same by (simp add: wave_ran_def)
  then have "\<forall>j \<in> set ordered. job_ok j \<and> collected (ij_ordinal j) \<noteq> None"
    using assms(2) same by (auto simp: wave_ran_def waiting_def job_for_def)
  then obtain outcomes where outcomes: "wave_outcomes w (run_target (ex_run x)) collected Map.empty ordered = Inr outcomes"
    and judged: "judged outcomes ordered" by (rule judge_wave)
  define facts where "facts =
    map (\<lambda>j. coordinatorOutcomeCondition (outcome_of outcomes j)) (filter (\<lambda>j. \<not> bounded_trailer outcomes j) ordered)"
  have "AttemptCondition_Valid c" if "c \<in> set (if facts = [] then [AttemptConditionValidReview] else facts)" for c
    using that judged valid_review_valid by (auto simp: facts_def judged_def split: if_splits)
  then obtain c where c: "ReduceAttemptConditions (if facts = [] then [AttemptConditionValidReview] else facts) = Inr c"
    "AttemptCondition_Valid c"
    using reduces [of "if facts = [] then [AttemptConditionValidReview] else facts"]
    by (metis list.distinct(1))
  have Q: "Q ns y" if "wave_over w x ordered ns y" for ns y
    using that same by (intro assms(3)) (simp add: wave_over_def)
  have ways: "returns (
      if (case ended of None \<Rightarrow> False | Some k \<Rightarrow> \<not> conditionRetainsAuthorityAfterContext c k)
      then seq (cancelAll w (the ended)) (\<lambda>_. give [])
      else if conditionStopsCoordinatorRun c then
        seq (requestDispatchStop w c) (\<lambda>_. seq (for_each (commit_stopped w outcomes) ordered) (\<lambda>_.
        seq (cancelAll w c) (\<lambda>_. give [])))
      else seq (for_each (commit_trailer w outcomes) (filter (bounded_trailer outcomes) ordered)) (\<lambda>_.
        commit_others w outcomes [] (filter (\<lambda>j. \<not> bounded_trailer outcomes j) ordered))) (x\<lparr>ex_looks := n\<rparr>) Q"
    if ended: "\<And>k. ended = Some k \<Longrightarrow> AttemptCondition_Valid k" for ended n
  proof -
    have ran': "wave_ran w (x\<lparr>ex_looks := n\<rparr>) ordered" and Q': "\<And>ns y. wave_over w (x\<lparr>ex_looks := n\<rparr>) ordered ns y \<Longrightarrow> Q ns y"
      using ran Q by simp_all
    have m: "moved w {} 0 (x\<lparr>ex_looks := n\<rparr>) (x\<lparr>ex_looks := n\<rparr>)" using wave_ran_simps(1) [OF ran] by simp
    have "returns (seq (cancelAll w (the ended)) (\<lambda>_. give [])) (x\<lparr>ex_looks := n\<rparr>) Q" if "ended \<noteq> None"
      using that ended by (intro cancel_wave [where Q = Q, OF ran' _ m]) (auto intro: Q')
    moreover note commit_wave_stopped [where Q = Q, OF ran' judged c(2) Q']
      commit_wave_goes_on [where Q = Q, OF ran' judged Q']
    ultimately show ?thesis by (cases ended) (simp_all del: returns_seq)
  qed
  have "returns (seq (contextConditions w) (\<lambda>contexts. seq (if contexts = [] then give None
      else seq (result CoPolicy (ReduceAttemptConditions contexts)) (\<lambda>k. give (Some k))) (\<lambda>ended.
      if (case ended of None \<Rightarrow> False | Some k \<Rightarrow> \<not> conditionRetainsAuthorityAfterContext c k)
      then seq (cancelAll w (the ended)) (\<lambda>_. give [])
      else if conditionStopsCoordinatorRun c then
        seq (requestDispatchStop w c) (\<lambda>_. seq (for_each (commit_stopped w outcomes) ordered) (\<lambda>_.
        seq (cancelAll w c) (\<lambda>_. give [])))
      else seq (for_each (commit_trailer w outcomes) (filter (bounded_trailer outcomes) ordered)) (\<lambda>_.
        commit_others w outcomes [] (filter (\<lambda>j. \<not> bounded_trailer outcomes j) ordered))))) x Q"
    unfolding returns_seq [of "contextConditions w"]
    by (rule look_contexts, subst returns_seq, rule reduce_contexts, blast) (rule ways, simp)+
  with outcomes c(1) [unfolded facts_def] show ?thesis
    unfolding commitWave_def Let_def ordered_def [symmetric]
    by (simp only: returns_seq [of "read _"] returns_read returns_seq [of "result _ _"] returns_result
        sum.inject ex_simps simp_thms)
qed

section \<open>The waves\<close>

lemma cancel_ended_at:
  assumes "steady w x" "accounted w x" "room 8 x"
    and "\<And>y. finished w y \<Longrightarrow> moved w UNIV 8 x y \<Longrightarrow> ex_stopping y \<Longrightarrow> Q () y"
  shows "returns (cancel_ended w) x Q"
  unfolding cancel_ended_def returns_seq
proof (rule context_condition)
  fix k n assume k: "stops_role k"
  show "returns (cancelAll w k) (x\<lparr>ex_looks := n\<rparr>) Q"
    by (rule cancel_all) (use assms stops_role_valid [OF k] in \<open>auto simp: role_count_eq accounted_def\<close>)
qed

text \<open>A wave in which something can be dispatched, with room for all of it.\<close>

lemma one_wave:
  assumes "wave_ready w x js" "js \<noteq> []" "accounted w x" "answers w" "room 60 x"
    and "\<And>y. accounted w y \<Longrightarrow> moved w UNIV 60 x y \<Longrightarrow> outputs_inv w t True y \<Longrightarrow> Q () y"
    and "\<And>ns y. wave_ready w y ns \<Longrightarrow> accounted w y \<Longrightarrow> moved w UNIV 60 x y \<Longrightarrow> outputs_inv w t True y \<Longrightarrow>
      \<forall>n \<in> set ns. ij_purpose n \<noteq> InvocationInitial \<Longrightarrow>
      ((\<forall>j \<in> set js. ij_purpose j \<noteq> InvocationInitial) \<Longrightarrow> ns = []) \<Longrightarrow> returns (run_waves w n ns) y Q"
    and "outputs_inv w t True x"
  shows "returns (run_waves w (Suc n) js) x Q"
proof -
  let ?I = "outputs_inv w t True"
  define after where "after = (\<lambda>ns. seq (runEnded w) (\<lambda>ended. seq (if ended \<noteq> None then cancel_ended w else give ()) (\<lambda>_.
    seq (read ex_stopping) (\<lambda>stopping. if stopping then give () else run_waves w n ns))))"
  have steady: "steady w x" using assms(1) by (simp add: wave_ready_def)
  have cancelled: "returns (cancel_ended w) y Q"
    if "moved w R m x y" "accounted w y" "m \<le> 50" "?I y" for R m y
  proof (rule returns_with [OF outputs.cancel_ended that(4)], rule cancel_ended_at [OF moved_simps(1) [OF that(1)] that(2)])
    have "room (8 + m) x" using assms(5) that(3) room_le by fastforce
    then show "room 8 y" by (rule moved_simps(3) [OF that(1)])
    fix z assume "finished w z" "moved w UNIV 8 y z"
    then show "?I z \<longrightarrow> Q () z" using moved_trans [OF that(1), of UNIV 8 z UNIV 60] that(3)
      by (intro impI assms(6)) (simp_all add: finished_accounted)
  qed
  have committed: "returns (collectWave w ds) y (\<lambda>known z. returns (commitWave w ds known) z (\<lambda>ns z.
      returns (after ns) z Q))"
    if ds: "set ds \<subseteq> set js" "distinct (map ij_role ds)" "distinct (map ij_ordinal ds)"
      "\<forall>j \<in> set ds. waiting w y InvocationRunning j" and y: "moved w (ij_role ` set ds) m x y" "m \<le> 10" "?I y" for ds y m
  proof -
    have accounted: "accounted w y"
      using ds(4) by (intro accounted_moved [OF assms(3) y(1)]) auto
    have "room 40 y" using moved_simps(3) [OF y(1)] assms(5) y(2) room_le [of 60 x "40 + m"] by simp
    then have ran: "wave_ran w y ds"
      using ds(2,4) accounted moved_simps(1) [OF y(1)] by (simp add: wave_ran_def)
    have going: "returns (after ns) z Q"
      if z: "wave_over w y ds ns z" and held: "?I z" for ns z
    proof -
      have m: "moved w UNIV 50 x z" using z y(2) by (intro moved_trans [OF y(1), of UNIV 40 z]) (auto simp: wave_over_def)
      let ?z = "z\<lparr>ex_looks := Suc (ex_looks z)\<rparr>"
      have m': "moved w UNIV 50 x ?z" and accounted': "accounted w ?z" and held': "?I ?z"
        using m z held by (simp_all add: wave_over_def accounted_def outputs_inv_def)
      have "returns (cancel_ended w) ?z (\<lambda>_ t. ex_stopping t \<and> Q () t)"
      proof (rule returns_with [OF outputs.cancel_ended held'], rule cancel_ended_at [OF moved_simps(1) [OF m'] accounted'])
        show "room 8 ?z" using moved_simps(3) [OF m', of 8] assms(5) room_le [of 60 x 58] by simp
        fix u assume "finished w u" "moved w UNIV 8 ?z u" "ex_stopping u"
        then show "?I u \<longrightarrow> ex_stopping u \<and> Q () u" using moved_trans [OF m', of UNIV 8 u UNIV 60]
          by (auto intro!: assms(6) simp: finished_accounted)
      qed
      then have stopped: "returns (cancel_ended w) ?z (\<lambda>_ t. returns (if ex_stopping t then give () else run_waves w n ns) t Q)"
        by (rule returns_mono) simp
      have finished: "Q () ?z" using moved_le [OF m', of UNIV 60] accounted' held' by (intro assms(6)) simp_all
      have "returns (run_waves w n ns) ?z Q"
      proof (rule assms(7))
        show "wave_ready w ?z ns" "\<forall>n \<in> set ns. ij_purpose n \<noteq> InvocationInitial"
          using z by (simp_all add: wave_over_def wave_ready_def)
        show "moved w UNIV 60 x ?z" using moved_le [OF m', of UNIV 60] by simp
        show "ns = []" if "\<forall>j \<in> set js. ij_purpose j \<noteq> InvocationInitial"
          using z that ds(1) by (auto simp: wave_over_def)
      qed (rule accounted' held')+
      with stopped finished show ?thesis by (simp add: after_def)
    qed
    show ?thesis
    proof (rule collect_wave [OF _ assms(4) _ ds(3)])
      show "accepting w" using steady by (simp add: steady_def)
      show "\<forall>j \<in> set ds. job_ok j" using ds(4) by (auto simp: waiting_def job_for_def)
      fix known :: "uint64 \<rightharpoonup> AttemptOutcome" assume "\<forall>j \<in> set ds. known (ij_ordinal j) \<noteq> None"
      then have "returns (commitWave w ds known) y (\<lambda>ns z. ?I z \<longrightarrow> returns (after ns) z Q)"
        by (rule commit_wave [OF ran]) (intro impI going)
      moreover have "h = j" if "h \<in> set ds" "j \<in> set ds" "ij_ordinal h = ij_ordinal j" for h j
        using ds(3) that by (simp add: distinct_map inj_on_def)
      then have "keeps ?I (commitWave w ds known)" by (intro outputs.wave_kept) blast
      ultimately show "returns (commitWave w ds known) y (\<lambda>ns z. returns (after ns) z Q)"
        using y(3) by (blast intro: returns_with)
    qed
  qed
  let ?x = "x\<lparr>ex_looks := Suc (ex_looks x)\<rparr>"
  have same: "moved w R m ?x y \<longleftrightarrow> moved w R m x y" "steady w ?x" "accounted w ?x" "moved w {} 0 x ?x" for R m y
    using steady assms(3) by (simp_all add: accounted_def)
  have held: "?I ?x" using assms(8) by (simp add: outputs_inv_def)
  have dispatched: "returns (dispatchWave w js) ?x (\<lambda>ds y. returns (if ds = [] then cancel_ended w
      else seq (collectWave w ds) (\<lambda>known. seq (commitWave w ds known) after)) y Q)"
    unfolding dispatchWave_def
  proof (rule returns_with [OF outputs.dispatch held], rule dispatch_wave [OF same(2)])
    show waits: "\<forall>j \<in> set js. waiting w ?x InvocationQueued j" using assms(1) by (simp add: wave_ready_def)
    show roles: "distinct (map ij_role js)" using assms(1) by (simp add: wave_ready_def)
    have few: "length js \<le> 7" using wave_size [OF waits same(2) roles] .
    then show "room (length js) ?x" using assms(5) room_le [of 60 x "length js"] by simp
    fix ds rest y
    assume y: "js = ds @ rest" "moved w (ij_role ` set ds) (length ds) ?x y" "\<forall>j \<in> set ds. waiting w y InvocationRunning j"
    then have m: "moved w (ij_role ` set ds) (length ds) x y" unfolding same(1) by blast
    have "accounted w y" using y(3) by (intro accounted_moved [OF assms(3) m]) auto
    then have stop: "returns (cancel_ended w) y Q" if "?I y" using few y(1) that by (intro cancelled [OF m]) auto
    have "distinct (map ij_role ds)" "distinct (map ij_ordinal ds)" "set ds \<subseteq> set js"
      using assms(1) y(1) by (auto simp: wave_ready_def)
    from committed [OF this(3,1,2) y(3) m] few y(1) have "returns (collectWave w ds) y (\<lambda>known z. returns (commitWave w ds known) z (\<lambda>ns z.
      returns (after ns) z Q))" if "?I y" using that by simp
    with stop show "?I y \<longrightarrow> returns (if [] @ ds = [] then cancel_ended w
      else seq (collectWave w ([] @ ds)) (\<lambda>known. seq (commitWave w ([] @ ds) known) after)) y Q"
      by (intro impI) (cases "ds = []", simp_all only: append_Nil if_True if_False simp_thms returns_seq [of "collectWave w ds"] returns_seq [of "commitWave w ds _"])
  qed
  have "returns (cancel_ended w) ?x Q" by (rule cancelled [OF same(4,3) _ held]) simp
  moreover obtain j js' where "js = j # js'" using assms(2) by (cases js) auto
  ultimately show ?thesis using dispatched [unfolded after_def] by (simp del: returns_seq add: returns_seq [of "runEnded w"] returns_seq [of "dispatchWave w _"])
qed

text \<open>Two waves are enough: no follow-up has a follow-up.\<close>

lemma two_waves:
  assumes "wave_ready w x js" "accounted w x" "answers w" "room 120 x" "outputs_inv w t True x"
    and "\<And>y. accounted w y \<Longrightarrow> moved w UNIV 120 x y \<Longrightarrow> outputs_inv w t True y \<Longrightarrow> Q () y"
  shows "returns (run_waves w (Suc (Suc n)) js) x Q"
proof (cases "js = []")
  case True
  have "steady w x" using assms(1) by (simp add: wave_ready_def)
  with True assms(2,5,6) show ?thesis by simp
next
  case False
  have "room 60 x" using assms(4) room_le by fastforce
  from assms(1) False assms(2,3) this show ?thesis
  proof (rule one_wave [where t = t])
    show "Q () y" if "accounted w y" "moved w UNIV 60 x y" "outputs_inv w t True y" for y
      using that(1,3) moved_le [OF that(2)] by (intro assms(6)) simp_all
  next
    fix ns y
    assume ns: "wave_ready w y ns" "accounted w y" "moved w UNIV 60 x y" "outputs_inv w t True y" "\<forall>n \<in> set ns. ij_purpose n \<noteq> InvocationInitial"
    have twice: "moved w UNIV 120 x z" if "moved w UNIV 60 y z" for z
      using moved_trans [OF ns(3) that] by simp
    have "returns (run_waves w (Suc n) ns) y Q" if "ns \<noteq> []"
    proof (rule one_wave [where t = t, OF ns(1) that ns(2) assms(3)])
      show "room 60 y" using moved_simps(3) [OF ns(3), of 60] assms(4) by simp
      show "Q () z" if "accounted w z" "moved w UNIV 60 y z" "outputs_inv w t True z" for z
        using that twice by (intro assms(6))
      show "returns (run_waves w n ms) z Q"
        if "accounted w z" "moved w UNIV 60 y z" "outputs_inv w t True z" "(\<forall>j \<in> set ns. ij_purpose j \<noteq> InvocationInitial) \<Longrightarrow> ms = []" for ms z
        using that ns(5) twice by (simp add: assms(6))
    qed (rule ns(4))
    moreover have "Q () y" using ns(2,4) moved_le [OF ns(3)] by (intro assms(6)) simp_all
    ultimately show "returns (run_waves w (Suc n) ns) y Q" by (cases "ns = []") simp_all
  qed (rule assms(5))
qed

end
