(* ===== verification/Coordinator_Results.thy ===== *)
theory Coordinator_Results
  imports Coordinator_Outputs Evidence_Facts
begin

text \<open>
  The immutable result of an execution (\<open>snapshot\<close>). An execution whose roles hold their own outputs
  always has one: the findings of the outputs are valid, and each of them is told apart from all others,
  within a role because an output repeats no finding and across roles because a finding names its role.
\<close>

section \<open>What an output holds\<close>

definition well_associated :: "Finding list \<Rightarrow> VerifiedFindingEvidence list \<Rightarrow> nat \<Rightarrow> bool" where
  "well_associated fs gs i \<longleftrightarrow>
     length gs = length fs \<and>
     (\<forall>k < length fs. f_id (fs ! k) = final_id (i + k) \<and> ve_findingID (gs ! k) = final_id (i + k) \<and>
        ve_receipts (gs ! k) \<noteq> [])"

lemma output_findings:
  "check_output_findings out i fs gs = None \<Longrightarrow> length fs = length gs \<Longrightarrow> \<forall>f \<in> set fs. f_role f = vo_role out"
  by (induction out i fs gs rule: check_output_findings.induct) (auto split: if_splits)

lemma output_content:
  assumes "ValidatedRoleOutput_validate ul letter v = None"
  shows "\<forall>f \<in> set (vo_findings v). Finding_Validate ul f = None \<and> f_role f = vo_role v"
    "distinct (map clear_id (vo_findings v))" "well_associated (vo_findings v) (vo_evidence v) 0"
proof -
  from assms obtain ordered where ordered: "OrderAndAssignFindings ul (vo_findings v) = Inr ordered"
    and checked: "check_output_findings v 0 (vo_findings v) ordered = None"
    and content: "\<not> duplicateCoordinatorFinding (vo_findings v)" "check_output_evidence ul v = None"
    by (auto simp: ValidatedRoleOutput_validate_def check_output_content_def
        split: if_splits sum.splits list.splits option.splits)
  have "mset (map clear_id ordered) = mset (map clear_id (vo_findings v))"
    using OrderAndAssignFindings_ordered [OF ordered] by (simp only: ordered_findings_def)
  from arg_cong [OF this, of size] have "length ordered = length (vo_findings v)" by simp
  then show "\<forall>f \<in> set (vo_findings v). Finding_Validate ul f = None \<and> f_role f = vo_role v"
    using output_findings [OF checked] OrderAndAssignFindings_ok_iff [of ul "vo_findings v"]
    by (simp add: ordered)
  show "distinct (map clear_id (vo_findings v))"
    using content(1) by (simp add: duplicateCoordinatorFinding_def coordinatorFindingIdentityFor_def [abs_def])
  from content(2) consider "vo_findings v = []" "vo_evidence v = []"
    | reduced where "ReduceVerifiedFindingEvidence ul (vo_findings v) (vo_evidence v) structuralEvidencePolicy = Inr reduced"
    by (auto simp: check_output_evidence_def split: if_splits sum.splits)
  then show "well_associated (vo_findings v) (vo_evidence v) 0"
  proof cases
    case 2
    note R = Reduce_result [OF 2]
    have "f_id (vo_findings v ! k) = final_id k \<and> ve_findingID (vo_evidence v ! k) = final_id k \<and>
        ve_receipts (vo_evidence v ! k) \<noteq> []" if "k < length (vo_findings v)" for k
      using R that reduce_finding_Inr [of ul structuralEvidencePolicy k "vo_findings v ! k" "vo_evidence v ! k" "reduced ! k"]
      by (auto simp: matchesFinding_def split: sum.splits)
    with R show ?thesis by (simp add: well_associated_def)
  qed (simp add: well_associated_def)
qed

lemma clear_id_role: "clear_id f = clear_id g \<Longrightarrow> f_role f = f_role g"
  by (cases f, cases g) (simp add: clear_id_def)

lemma associate_none: "well_associated fs gs i \<Longrightarrow> associate i fs gs = None"
proof (induction i fs gs rule: associate.induct)
  case (1 i f fs g gs)
  have "\<forall>k < Suc (length fs). f_id ((f # fs) ! k) = final_id (i + k) \<and> ve_findingID ((g # gs) ! k) = final_id (i + k) \<and>
      ve_receipts ((g # gs) ! k) \<noteq> []" using 1(2) by (simp add: well_associated_def)
  note all = this [rule_format]
  have "f_id f = final_id i" "ve_findingID g = final_id i" "ve_receipts g \<noteq> []" using all [of 0] by simp_all
  moreover have "well_associated fs gs (Suc i)"
    using 1(2) all [of "Suc k" for k] by (simp add: well_associated_def)
  ultimately show ?case using 1(1) by simp
qed simp_all

lemma output_associations:
  assumes "ValidatedRoleOutput_validate ul letter v = None"
  shows "coordinatorEvidenceAssociations (vo_findings v) (vo_evidence v) = Inr (zip (vo_findings v) (vo_evidence v)) \<and>
    map fst (zip (vo_findings v) (vo_evidence v)) = vo_findings v"
  using output_content(3) [OF assms] associate_none [of "vo_findings v" "vo_evidence v" 0]
  by (simp add: coordinatorEvidenceAssociations_def well_associated_def)

section \<open>The associations of all roles\<close>

lemma snapshot_roles_returns:
  assumes "\<forall>r \<in> set rs. \<forall>st. ex_roles x r = Some st \<longrightarrow> sound_role w t True r st" "distinct rs"
  shows "\<exists>assocs summaries. snapshot_roles x rs = Inr (assocs, summaries) \<and>
    map rs_role summaries = filter (\<lambda>r. ex_roles x r \<noteq> None) rs \<and>
    (\<forall>f \<in> set (map fst assocs). Finding_Validate (w_lower w) f = None \<and> f_role f \<in> set rs) \<and>
    distinct (map clear_id (map fst assocs))"
  using assms
proof (induction rs)
  case (Cons r rs)
  then obtain assocs summaries where rest: "snapshot_roles x rs = Inr (assocs, summaries)"
    "map rs_role summaries = filter (\<lambda>r. ex_roles x r \<noteq> None) rs"
    "\<forall>f \<in> set (map fst assocs). Finding_Validate (w_lower w) f = None \<and> f_role f \<in> set rs"
    "distinct (map clear_id (map fst assocs))" by auto
  show ?case
  proof (cases "ex_roles x r")
    case None
    with rest show ?thesis by auto
  next
    case (Some st)
    have "\<exists>own. (case accepted_output (ex_run x) r st of None \<Rightarrow> Inr []
        | Some out \<Rightarrow> coordinatorEvidenceAssociations (vo_findings out) (vo_evidence out)) = Inr own \<and>
      (\<forall>f \<in> set (map fst own). Finding_Validate (w_lower w) f = None \<and> f_role f = r) \<and> distinct (map clear_id (map fst own))"
    proof (cases "accepted_output (ex_run x) r st")
      case (Some v)
      with Cons.prems(1) \<open>ex_roles x r = Some st\<close> have "sound_output w t True r v"
        by (auto simp: accepted_output_def sound_role_def split: if_splits)
      then have v: "ValidatedRoleOutput_validate (w_lower w) (w_letter w) v = None" "vo_role v = r"
        by (simp_all add: sound_output_def)
      with Some output_associations [OF v(1)] output_content(1,2) [OF v(1)] show ?thesis
        by (simp del: set_map map_map)
    qed simp
    then obtain own where own: "(case accepted_output (ex_run x) r st of None \<Rightarrow> Inr []
        | Some out \<Rightarrow> coordinatorEvidenceAssociations (vo_findings out) (vo_evidence out)) = Inr own"
      "\<forall>f \<in> set (map fst own). Finding_Validate (w_lower w) f = None \<and> f_role f = r" "distinct (map clear_id (map fst own))"
      by blast
    have "clear_id ` set (map fst own) \<inter> clear_id ` set (map fst assocs) = {}"
    proof (rule ccontr)
      assume "\<not> ?thesis"
      then obtain f g where "f \<in> set (map fst own)" "g \<in> set (map fst assocs)" "clear_id f = clear_id g" by blast
      then have "f_role f = r" "f_role g \<in> set rs" "f_role f = f_role g"
        using own(2) rest(3) clear_id_role by blast+
      with Cons.prems(2) show False by simp
    qed
    then have "distinct (map clear_id (map fst (own @ assocs)))" using own(3) rest(4) by (simp add: image_image)
    with own rest Some show ?thesis by (auto simp: role_summary_def Let_def)
  qed
qed simp

section \<open>The evidence of the final findings\<close>

lemma only_position:
  assumes "distinct ks" "i < length ks"
  shows "filter (\<lambda>k. ks ! k = ks ! i) [0..<length ks] = [i]"
proof (rule sorted_distinct_set_unique)
  show "set (filter (\<lambda>k. ks ! k = ks ! i) [0..<length ks]) = set [i]"
    using assms by (auto simp: nth_eq_iff_index_eq)
qed (simp_all add: sorted_wrt_filter)

lemma final_evidence_returns:
  assumes "distinct (map clear_id (map fst assocs))" "distinct (map clear_id fs)"
    "clear_id ` set fs \<subseteq> clear_id ` set (map fst assocs)"
    "\<forall>k \<in> set used. k < length assocs \<and> clear_id (fst (assocs ! k)) \<notin> clear_id ` set fs"
  shows "\<exists>us gs. final_evidence assocs used fs = Inr (us, gs) \<and>
    (\<forall>k < length assocs. clear_id (fst (assocs ! k)) \<in> clear_id ` set fs \<longrightarrow> k \<in> set us) \<and> set used \<subseteq> set us"
  using assms(2-)
proof (induction fs arbitrary: used)
  case (Cons f fs)
  let ?keys = "map clear_id (map fst assocs)"
  from Cons.prems(2) have "clear_id f \<in> set ?keys" by auto
  then obtain i where i: "i < length assocs" "clear_id (fst (assocs ! i)) = clear_id f"
    by (auto simp: in_set_conv_nth)
  have "filter (\<lambda>k. coordinatorFindingIdentityFor (fst (assocs ! k)) = coordinatorFindingIdentityFor f) [0..<length assocs] =
      filter (\<lambda>k. ?keys ! k = ?keys ! i) [0..<length ?keys]"
    using i by (auto simp: coordinatorFindingIdentityFor_def intro!: filter_cong)
  then have position: "filter (\<lambda>k. coordinatorFindingIdentityFor (fst (assocs ! k)) = coordinatorFindingIdentityFor f)
      [0..<length assocs] = [i]"
    using only_position [OF assms(1), of i] i(1) by simp
  have fresh: "i \<notin> set used" using Cons.prems(3) i(2) by auto
  have "\<exists>us gs. final_evidence assocs (i # used) fs = Inr (us, gs) \<and>
    (\<forall>k < length assocs. clear_id (fst (assocs ! k)) \<in> clear_id ` set fs \<longrightarrow> k \<in> set us) \<and> set (i # used) \<subseteq> set us"
  proof (rule Cons.IH)
    show "distinct (map clear_id fs)" "clear_id ` set fs \<subseteq> clear_id ` set (map fst assocs)"
      using Cons.prems by auto
    have "clear_id f \<notin> clear_id ` set fs" using Cons.prems(1) by simp
    with Cons.prems(3) i show "\<forall>k \<in> set (i # used). k < length assocs \<and> clear_id (fst (assocs ! k)) \<notin> clear_id ` set fs"
      by auto
  qed
  then obtain us gs where rest: "final_evidence assocs (i # used) fs = Inr (us, gs)"
    "\<forall>k < length assocs. clear_id (fst (assocs ! k)) \<in> clear_id ` set fs \<longrightarrow> k \<in> set us" "set (i # used) \<subseteq> set us"
    by blast
  have "k \<in> set us" if "k < length assocs" "clear_id (fst (assocs ! k)) = clear_id f" for k
  proof -
    have "?keys ! k = ?keys ! i" using that i by simp
    then have "k = i" using nth_eq_iff_index_eq [OF assms(1), of k i] that(1) i(1) by simp
    then show ?thesis using rest(3) by simp
  qed
  with rest fresh show ?case by (auto simp: position)
qed auto

lemma final_evidence_total:
  assumes "mset (map clear_id fs) = mset (map clear_id (map fst assocs))" "distinct (map clear_id (map fst assocs))"
  shows "is_ok (coordinatorFinalEvidence fs assocs)"
proof -
  have same: "clear_id ` set fs = clear_id ` set (map fst assocs)" using mset_eq_setD [OF assms(1)] by (simp add: image_image)
  have "distinct (map clear_id fs)" using assms mset_eq_imp_distinct_iff by blast
  from final_evidence_returns [OF assms(2) this, of "[]"] same obtain us gs where
    us: "final_evidence assocs [] fs = Inr (us, gs)"
      "\<forall>k < length assocs. clear_id (fst (assocs ! k)) \<in> clear_id ` set fs \<longrightarrow> k \<in> set us" by auto
  have "clear_id (fst (assocs ! k)) \<in> clear_id ` set fs" if "k < length assocs" for k
    unfolding same using that by simp
  with us(2) have "List.find (\<lambda>k. k \<notin> set us) [0..<length assocs] = None" by (simp add: find_None_iff)
  moreover have "length fs = length assocs" using arg_cong [OF assms(1), of size] by simp
  ultimately show ?thesis using us(1) by (simp add: coordinatorFinalEvidence_def is_ok_def)
qed

section \<open>There is a result\<close>

lemma snapshot_returns:
  assumes "outputs_inv w t True x" "Severity_Valid (effective_threshold threshold)"
  shows "is_ok (snapshot w sessionID runID threshold policy x)"
proof -
  from assms(1) have "\<forall>r \<in> set FixedRoleOrder. \<forall>st. ex_roles x r = Some st \<longrightarrow> sound_role w t True r st"
    by (simp add: outputs_inv_def)
  from snapshot_roles_returns [OF this distinct_FixedRoleOrder] obtain assocs summaries where
    roles: "snapshot_roles x FixedRoleOrder = Inr (assocs, summaries)"
      "map rs_role summaries = filter (\<lambda>r. ex_roles x r \<noteq> None) FixedRoleOrder"
      "\<forall>f \<in> set (map fst assocs). Finding_Validate (w_lower w) f = None" "distinct (map clear_id (map fst assocs))"
    by blast
  from roles(3) obtain ordered where ordered: "OrderAndAssignFindings (w_lower w) (map fst assocs) = Inr ordered"
    using OrderAndAssignFindings_ok_iff [of "w_lower w" "map fst assocs"] by (auto simp: is_ok_iff)
  have same: "mset (map clear_id ordered) = mset (map clear_id (map fst assocs))"
    using OrderAndAssignFindings_ordered [OF ordered] by (simp add: ordered_findings_def)
  from final_evidence_total [OF same roles(4)] obtain evidence where
    evidence: "coordinatorFinalEvidence ordered assocs = Inr evidence" by (auto simp: is_ok_iff)
  have "Finding_Validate (w_lower w) f = None" if "f \<in> set ordered" for f
  proof -
    have "clear_id f \<in> clear_id ` set (map fst assocs)" using mset_eq_setD [OF same] that by (force simp: image_image)
    then obtain g where "g \<in> set (map fst assocs)" "clear_id f = clear_id g" by blast
    with roles(3) clear_id_validate show ?thesis by metis
  qed
  moreover
  have "map rr_Role (map role_result summaries) = filter (\<lambda>r. ex_roles x r \<noteq> None) FixedRoleOrder"
    using roles(2) by (simp add: role_result_def comp_def)
  note keyed = this
  have "distinct (map rr_Role (map role_result summaries))"
    unfolding keyed using distinct_FixedRoleOrder by simp
  moreover have "\<forall>s \<in> set (map role_result summaries). Role_Valid (rr_Role s)"
  proof
    fix s assume "s \<in> set (map role_result summaries)"
    then have "rr_Role s \<in> set (map rr_Role (map role_result summaries))" by (auto simp del: map_map)
    then show "Role_Valid (rr_Role s)" unfolding keyed by (simp add: Role_Valid_iff)
  qed
  moreover have "PublicationStatus_Valid PublicationNotPublished" by code_simp
  ultimately obtain axes where "ComputeOutcomeAxes (w_lower w) ordered (map role_result summaries) threshold
      PublicationNotPublished policy = Inr axes"
    using assms(2) by (simp add: ComputeOutcomeAxes_Inr)
  with roles(1) ordered evidence show ?thesis by (simp add: snapshot_def is_ok_def)
qed

lemma admitted_threshold:
  assumes "admit_run w extractionAdmitted run as threshold = Inr x"
  shows "Severity_Valid (effective_threshold threshold)"
proof -
  have "Severity_Valid SeverityHigh" by code_simp
  with assms show ?thesis by (auto simp: admit_run_def effective_threshold_def split: if_splits)
qed

end
