(* ===== verification/Coordinator_Complete.thy ===== *)
theory Coordinator_Complete
  imports Coordinator_Waves Coordinator_Results
begin

text \<open>
  An execution of the coordinator reaches its end. When the diagnostics accept every event, the issuer
  gives fresh identities and the scheduler answers every job that was dispatched, then whatever the
  outcomes are and whenever the contexts end, no operation fails and every role ends.
\<close>

section \<open>Starting the roles\<close>

text \<open>The first \<open>n\<close> identities are well-formed and their UUIDs differ.\<close>

definition issued_uuid :: "world \<Rightarrow> nat \<Rightarrow> string" where
  "issued_uuid w k = drop 2 (AttemptID_String (the (w_attemptID w k)))"

definition issues :: "world \<Rightarrow> nat \<Rightarrow> bool" where
  "issues w n \<longleftrightarrow>
     (\<forall>k < n. \<exists>i. w_attemptID w k = Some i \<and> AttemptID_id.valid_id i) \<and> inj_on (issued_uuid w) {..<n}"

definition reserved :: "world \<Rightarrow> coordinatorExecution \<Rightarrow> bool" where
  "reserved w x \<longleftrightarrow> set (ex_used x) = issued_uuid w ` {..<ex_issued x}"

lemma returns_newAttemptID:
  assumes "issues w n" "reserved w x" "ex_issued x < n"
    and "\<And>i u. AttemptID_id.valid_id i \<Longrightarrow> reserved w (x\<lparr>ex_issued := Suc (ex_issued x), ex_used := u\<rparr>) \<Longrightarrow>
      Q i (x\<lparr>ex_issued := Suc (ex_issued x), ex_used := u\<rparr>)"
  shows "returns (newAttemptID w) x Q"
proof -
  obtain i where i: "w_attemptID w (ex_issued x) = Some i" "AttemptID_id.valid_id i"
    using assms(1,3) by (auto simp: issues_def)
  then have parsed: "ParseAttemptID (AttemptID_String i) = Inr i" by (simp add: AttemptID_id.parse_str_valid)
  have uuid: "issued_uuid w (ex_issued x) = drop 2 (AttemptID_String i)" using i(1) by (simp add: issued_uuid_def)
  have "issued_uuid w (ex_issued x) \<noteq> issued_uuid w k" if "k < ex_issued x" for k
    using assms(1,3) that inj_on_eq_iff [of "issued_uuid w" "{..<n}" "ex_issued x" k] by (simp add: issues_def)
  then have fresh: "drop 2 (AttemptID_String i) \<notin> set (ex_used x)"
    using assms(2) by (auto simp: reserved_def uuid [symmetric])
  have "reserved w (x\<lparr>ex_issued := Suc (ex_issued x), ex_used := drop 2 (AttemptID_String i) # ex_used x\<rparr>)"
    using assms(2) by (simp add: reserved_def uuid lessThan_Suc)
  from assms(4) [OF i(2) this] show ?thesis
    using i(1) parsed fresh by (simp add: newAttemptID_def reserve_def Let_def returns_def effect_defs)
qed

text \<open>A role that has its state and no attempt.\<close>

definition unstarted :: "world \<Rightarrow> coordinatorExecution \<Rightarrow> Role \<Rightarrow> bool" where
  "unstarted w x r \<longleftrightarrow>
     (\<exists>st. ex_roles x r = Some st \<and> rol_attempts st = [] \<and> budgeted w r (as_primaryRoute (rol_assignment st)) \<and>
        TrimSpace (route_providerInstance (as_primaryRoute (rol_assignment st))) \<noteq> '''') \<and>
     coordinatorRoleState (ex_run x) r = RoleTaskPending \<and> r \<notin> set (ex_terminalRoles x)"

lemma unstarted_moved: "moved w R m x y \<Longrightarrow> r \<notin> R \<Longrightarrow> unstarted w y r \<longleftrightarrow> unstarted w x r"
  by (simp add: moved_def apart_def unstarted_def)

lemma first_attempt:
  assumes "AttemptID_id.valid_id i" "TrimSpace p \<noteq> ''''"
  shows "NewInvocation 1 InvocationInitial = Inr (invocation 1 InvocationInitial InvocationQueued False)"
    "NewAttempt i p (invocation 1 InvocationInitial InvocationQueued False) =
       Inr (shaped i (TrimSpace p) InvocationInitial b AttemptQueued InvocationQueued False)"
    "Attempt_Transition (Some (shaped i (TrimSpace p) InvocationInitial b AttemptQueued InvocationQueued False)) AttemptRunning =
       Inr (shaped i (TrimSpace p) InvocationInitial b AttemptRunning InvocationQueued False)"
proof -
  show "NewInvocation 1 InvocationInitial = Inr (invocation 1 InvocationInitial InvocationQueued False)"
    by (simp add: InvocationPurpose_Valid_def)
  show "NewAttempt i p (invocation 1 InvocationInitial InvocationQueued False) =
       Inr (shaped i (TrimSpace p) InvocationInitial b AttemptQueued InvocationQueued False)"
    using assms AttemptID_id.parse_str_valid [OF assms(1)]
    by (simp add: NewAttempt_def Let_def shape_defs inv_is_def inv_at_def)
  have "AttemptState_RequireTransition AttemptQueued AttemptRunning = None" by (intro attempt_states.require_ok) simp
  then show "Attempt_Transition (Some (shaped i (TrimSpace p) InvocationInitial b AttemptQueued InvocationQueued False)) AttemptRunning =
       Inr (shaped i (TrimSpace p) InvocationInitial b AttemptRunning InvocationQueued False)"
    by (simp add: attempt_defs shape_defs Attempt_Transition.simps)
qed

lemma start_primary:
  assumes "steady w x" "unstarted w x r" "r \<in> set (selected (ex_run x))" "issues w n" "reserved w x" "ex_issued x < n"
    "room 2 x"
    and "\<And>j y. moved w {r} 1 x y \<Longrightarrow> reserved w y \<Longrightarrow> ex_issued y = Suc (ex_issued x) \<Longrightarrow>
      waiting w y InvocationQueued j \<Longrightarrow> ij_role j = r \<Longrightarrow> ij_ordinal j = ex_nextJob y \<Longrightarrow>
      unat (ex_nextJob x) < unat (ex_nextJob y) \<Longrightarrow> Q j y"
  shows "returns (startPrimary w r) x Q"
proof -
  obtain st where st: "ex_roles x r = Some st" "rol_attempts st = []" "budgeted w r (as_primaryRoute (rol_assignment st))"
    "TrimSpace (route_providerInstance (as_primaryRoute (rol_assignment st))) \<noteq> ''''"
    and pending: "coordinatorRoleState (ex_run x) r = RoleTaskPending" and fresh: "r \<notin> set (ex_terminalRoles x)"
    using assms(2) by (auto simp: unstarted_def)
  let ?route = "as_primaryRoute (rol_assignment st)"
  let ?p = "TrimSpace (route_providerInstance ?route)"
  let ?y = "x\<lparr>ex_run := set_task r RoleTaskPrimaryQueued (ex_run x)\<rparr>"
  have role: "open_role w r x" using assms(1,3) fresh by (rule open_steady)
  have run: "distinct (selected (ex_run x))" "run_state (ex_run x) = RunRunning" "Role_Valid r"
    using role by (simp_all add: open_role_def)
  have queued: "move_role r RoleTaskPrimaryQueued x = (Inr (), ?y)"
    using run assms(3) pending by (intro move_role_to) simp_all
  have started: "returns (startAttempt w r ?route CoordinatorEventAttemptQueued) ?y Q"
    unfolding startAttempt_def returns_seq [of "newAttemptID w"]
  proof (rule returns_newAttemptID [OF assms(4)])
    show "reserved w ?y" "ex_issued ?y < n" using assms(5,6) by (simp_all add: reserved_def)
    fix i u
    assume i: "AttemptID_id.valid_id i" and u: "reserved w (?y\<lparr>ex_issued := Suc (ex_issued ?y), ex_used := u\<rparr>)"
    note attempt = first_attempt [OF i st(4)]
    let ?a = "shaped i ?p InvocationInitial False AttemptRunning InvocationQueued False"
    let ?c = "fresh_attempt ?route ?a" and ?st = "st\<lparr>rol_currentAttempt := 0\<rparr>"
    let ?x = "x\<lparr>ex_issued := Suc (ex_issued x), ex_used := u\<rparr>"
    let ?e = "trace_event CoordinatorEventAttemptQueued r (Some i) None None '''' no_run_state ?x"
    let ?j = "job_at w r ?c InvocationInitial (note_event ?e ?x)"
    let ?z = "with_role r ?st ?c RoleTaskPrimaryRunning ((note_event ?e ?x)\<lparr>ex_nextJob := ex_nextJob x + 1\<rparr>)"
    have c: "cat_route ?c = ?route" "att_id (cat_attempt ?c) = i" by (simp_all add: fresh_attempt_def)
    have role': "open_role w r ?x" "open_role w r (note_event ?e ?x)"
      using role by (simp_all add: open_role_def inner_event_def)
    have room: "room 1 ?x" "room 1 (note_event ?e ?x)" "ex_nextJob x + 1 \<noteq> 0"
      using assms(7) room_le [of 2 x 1] room_next [of 1 x] by (simp_all add: room_def numeral_2_eq_2)
    have addressed: "addressed (ex_run (note_event ?e ?x))" using assms(1) by (simp add: steady_def)
    have payload: "payload_ok CoordinatorEventAttemptQueued None None ''''" by (simp add: payload_ok_def)
    have purpose: "InvocationInitial \<in> purposes" by (simp add: purposes_def)
    have "unat (ex_nextJob x + 1) = Suc (unat (ex_nextJob x))"
      using assms(7) unat_next [of "ex_nextJob x" 2] by (simp add: room_def)
    then have more: "unat (ex_nextJob x) < unat (ex_nextJob ?z)" by simp
    have identity: "moved w {} 0 x ?x" using assms(1) by (simp add: moved_def steady_def apart_def room_def)
    have "moved w {r} 1 ?x ?z"
    proof (rule moved_role [OF moved_simps(1) [OF identity]])
      show "room k ?z" if "room (k + 1) ?x" for k
        using room_next [of k ?x] that by (simp add: room_def)
    qed (use more assms(3) in \<open>simp_all add: elsewhere_def\<close>)
    then have moved: "moved w {r} 1 x ?z" using moved_trans [OF identity] by fastforce
    have "waiting w ?z InvocationQueued ?j"
    proof -
      have "job_for w r ?c ?j"
        using st(3) addressed run(3) i purpose room(3) by (intro job_at_for) (simp_all add: c)
      moreover have "awaits InvocationInitial InvocationQueued ?c"
        using i purpose by (auto simp: awaits_def fresh_attempt_def phase_of_def)
      moreover have "role_at ?z r (?st\<lparr>rol_attempts := [?c]\<rparr>) ?c RoleTaskPrimaryRunning"
        using role'(2) by simp
      ultimately show ?thesis
        unfolding waiting_def using fresh st(3) c
        by (intro conjI exI [of _ "?st\<lparr>rol_attempts := [?c]\<rparr>"] exI [of _ ?c]) simp_all
    qed
    then have last: "Q ?j ?z" using moved u more by (intro assms(8)) (simp_all add: reserved_def)
    show "returns (seq (result CoAttempt (NewInvocation 1 InvocationInitial)) (\<lambda>initial.
       seq (result CoAttempt (NewAttempt i (route_providerInstance ?route) initial)) (\<lambda>attempt.
       seq (result CoAttempt (Attempt_Transition (Some attempt) AttemptRunning)) (\<lambda>running.
       seq (change_role r (\<lambda>st. st\<lparr>rol_attempts := rol_attempts st @ [fresh_attempt ?route running],
            rol_currentAttempt := int (length (rol_attempts st))\<rparr>)) (\<lambda>_.
       seq (read (\<lambda>x. length (rol_attempts (role_state r x)) - 1)) (\<lambda>current.
       seq (move_role r RoleTaskPrimaryRunning) (\<lambda>_.
       seq (record_event w CoordinatorEventAttemptQueued r (Some (att_id running)) None None '''' no_run_state) (\<lambda>_.
         newJob w r current InvocationInitial))))))))
      (?y\<lparr>ex_issued := Suc (ex_issued ?y), ex_used := u\<rparr>) Q"
    proof -
      have state: "(?y\<lparr>ex_issued := Suc (ex_issued ?y), ex_used := u\<rparr>)\<lparr>ex_roles := (ex_roles x)(r \<mapsto>
          st\<lparr>rol_attempts := [?c], rol_currentAttempt := 0\<rparr>)\<rparr> = with_role r ?st ?c RoleTaskPrimaryQueued ?x"
      proof -
        have same: "st\<lparr>rol_attempts := [?c], rol_currentAttempt := 0\<rparr> = ?st\<lparr>rol_attempts := [?c]\<rparr>"
          by (rule coordinatorRole.equality) simp_all
        show ?thesis unfolding same by (intro coordinatorExecution.equality) (simp_all add: with_role_def)
      qed
      have "returns (seq (move_role r RoleTaskPrimaryRunning) (\<lambda>_.
          seq (record_event w CoordinatorEventAttemptQueued r (Some i) None None '''' no_run_state) (\<lambda>_.
            newJob w r 0 InvocationInitial))) (with_role r ?st ?c RoleTaskPrimaryQueued ?x) Q"
        using last role' room payload i c addressed st(3) purpose
        by simp
      then show ?thesis using attempt(1) attempt(2,3) [where b = False] st(1,2)
        by (simp add: state [symmetric] change_role_def role_state_def)
    qed
  qed
  then show ?thesis using st(1) queued by (simp add: startPrimary_def returns_eq)
qed

text \<open>The initial jobs of the roles \<open>rs\<close> that are assigned.\<close>

lemma start_all:
  assumes "steady w x" "\<forall>r \<in> set rs. ex_roles x r \<noteq> None \<longrightarrow> unstarted w x r" "distinct rs" "issues w n" "reserved w x"
    "ex_issued x + length rs \<le> n" "room (length rs + 1) x"
    and "\<And>js y. moved w (set rs) (length rs) x y \<Longrightarrow>
      \<forall>j \<in> set js. waiting w y InvocationQueued j \<and> unat (ex_nextJob x) < unat (ij_ordinal j) \<and>
        unat (ij_ordinal j) \<le> unat (ex_nextJob y) \<Longrightarrow>
      map ij_role js = filter (\<lambda>r. ex_roles x r \<noteq> None) rs \<Longrightarrow> distinct (map ij_ordinal js) \<Longrightarrow> Q js y"
  shows "returns (start_roles w rs) x Q"
  using assms(1-3,5-)
proof (induction rs arbitrary: x Q)
  case Nil
  show ?case using Nil.prems(1) by (simp add: Nil.prems(7))
next
  case (Cons r rs)
  show ?case
  proof (cases "ex_roles x r")
    case None
    have "returns (start_roles w rs) x Q"
    proof (rule Cons.IH)
      show "room (length rs + 1) x" using Cons.prems(6) room_le by fastforce
      fix js y
      assume y: "moved w (set rs) (length rs) x y" "\<forall>j \<in> set js. waiting w y InvocationQueued j \<and>
          unat (ex_nextJob x) < unat (ij_ordinal j) \<and> unat (ij_ordinal j) \<le> unat (ex_nextJob y)"
        "map ij_role js = filter (\<lambda>r. ex_roles x r \<noteq> None) rs" "distinct (map ij_ordinal js)"
      then show "Q js y" using None moved_le [OF y(1), of "set (r # rs)" "length (r # rs)"]
        by (intro Cons.prems(7)) auto
    qed (use Cons.prems in auto)
    with None show ?thesis by simp
  next
    case (Some st)
    have selected: "r \<in> set (selected (ex_run x))" using Some Cons.prems(1) by (auto simp: steady_def)
    have fresh: "r \<notin> set rs" using Cons.prems(3) by simp
    have "returns (startPrimary w r) x (\<lambda>j y. returns (start_roles w rs) y (\<lambda>js. Q (j # js)))"
    proof (rule start_primary [OF Cons.prems(1) _ selected assms(4) Cons.prems(4)])
      show "unstarted w x r" using Cons.prems(2) Some by simp
      show "ex_issued x < n" using Cons.prems(5) by simp
      show "room 2 x" using Cons.prems(6) room_le by fastforce
      fix j y
      assume y: "moved w {r} 1 x y" "reserved w y" "ex_issued y = Suc (ex_issued x)" "waiting w y InvocationQueued j"
        "ij_role j = r" "ij_ordinal j = ex_nextJob y" "unat (ex_nextJob x) < unat (ex_nextJob y)"
      have same: "ex_roles y q = ex_roles x q" if "q \<in> set rs" for q
        using y(1) that fresh by (auto simp: moved_def apart_def)
      show "returns (start_roles w rs) y (\<lambda>js. Q (j # js))"
      proof (rule Cons.IH [OF moved_simps(1) [OF y(1)] _ _ y(2)])
        show "\<forall>q \<in> set rs. ex_roles y q \<noteq> None \<longrightarrow> unstarted w y q"
        proof
          fix q assume q: "q \<in> set rs"
          then have "q \<notin> {r}" using fresh by auto
          then show "ex_roles y q \<noteq> None \<longrightarrow> unstarted w y q"
            using q Cons.prems(2) same unstarted_moved [OF y(1), of q] by simp
        qed
        show "distinct rs" using Cons.prems(3) by simp
        show "ex_issued y + length rs \<le> n" using Cons.prems(5) y(3) by simp
        show "room (length rs + 1) y" using moved_simps(3) [OF y(1), of "length rs + 1"] Cons.prems(6) by simp
      next
        fix js z
        assume z: "moved w (set rs) (length rs) y z" "\<forall>j \<in> set js. waiting w z InvocationQueued j \<and>
            unat (ex_nextJob y) < unat (ij_ordinal j) \<and> unat (ij_ordinal j) \<le> unat (ex_nextJob z)"
          "map ij_role js = filter (\<lambda>r. ex_roles y r \<noteq> None) rs" "distinct (map ij_ordinal js)"
        have m: "moved w (set (r # rs)) (length (r # rs)) x z" by (rule moved_trans [OF y(1) z(1)]) auto
        have first: "waiting w z InvocationQueued j" using y(4,5) fresh moved_waiting [OF z(1)] by simp
        have "ij_ordinal j \<notin> ij_ordinal ` set js" using z(2) y(6) by (force simp: image_iff)
        moreover have "filter (\<lambda>r. ex_roles y r \<noteq> None) rs = filter (\<lambda>r. ex_roles x r \<noteq> None) rs"
          using same by (intro filter_cong) auto
        ultimately show "Q (j # js) z"
          using m first z y(5-7) Some moved_simps(5) [OF z(1)] by (intro Cons.prems(7)) auto
      qed
    qed
    with Some show ?thesis by simp
  qed
qed

section \<open>The events of the run\<close>

lemma record_global_at:
  assumes "check_record kind no_role s x = None" "accepting w" "ex_nextEvent x + 1 \<noteq> 0"
    "kind = CoordinatorEventRunStarted \<and> s = no_run_state \<or> kind = CoordinatorEventWorkersCloseAuthorized \<and> s = no_run_state \<or>
     kind = CoordinatorEventRunTerminal \<and> coordinatorTerminalRunState s"
    and "Q () (note_event (trace_event kind no_role None None None '''' s x) x)"
  shows "returns (record_global w kind s) x Q"
proof -
  have "CoordinatorTraceEvent_validate (trace_event kind no_role None None None '''' s x) = None"
    using assms(3,4)
    by (auto simp: CoordinatorTraceEvent_validate_def trace_event_def check_event_payload_def event_shape_def
        wants_def no_run_state_def no_purpose_def no_role_def no_condition_def CoordinatorEventKind_Valid_def Let_def Role_Valid_def)
  with assms(1,2,5) show ?thesis
    by (simp add: record_global_def returns_def record_event_def Let_def accepting_def)
qed

lemma all_roles_over:
  assumes "accounted w x" "steady w x" "allRolesTerminal x"
  shows "finished w x"
  unfolding finished_def
proof (intro conjI ballI)
  fix r assume r: "r \<in> set (selected (ex_run x))"
  then have terminal: "roleTaskTerminal (coordinatorRoleState (ex_run x) r)"
    using assms(3) coordinatorRoleTerminal_state [OF r] by (auto simp: allRolesTerminal_def list_all_iff selected_def)
  have False if "waiting w x s j" "ij_role j = r" for s j
    using that terminal by (auto simp: waiting_def role_at_def roleTaskTerminal_def)
  with r assms(1) show "over x r" unfolding accounted_def by blast
qed (rule assms(2))

lemma finished_terminal: "finished w x \<Longrightarrow> allRolesTerminal x"
proof -
  assume f: "finished w x"
  have "coordinatorRoleTerminal (ex_run x) r" if "r \<in> set (selected (ex_run x))" for r
    using f that coordinatorRoleTerminal_state [OF that] by (auto simp: finished_def over_def role_at_def)
  then show ?thesis by (auto simp: allRolesTerminal_def list_all_iff selected_def)
qed

lemma finish_run:
  assumes "run_state (ex_run x) = RunRunning"
    and "\<And>s. coordinatorTerminalRunState s \<Longrightarrow> Q () (x\<lparr>ex_run := (ex_run x)\<lparr>run_state := s\<rparr>\<rparr>)"
  shows "returns finishRun x Q"
proof -
  have moves: "returns (move_run s) x Q"
    if "RunState_CanTransition RunRunning s" "run_guard (ex_run x) s = None" "coordinatorTerminalRunState s" for s
  proof -
    have "Run_Transition (Some (ex_run x)) s = Inr ((ex_run x)\<lparr>run_state := s\<rparr>)"
      using that(1,2) assms(1) by (simp only: Run_Transition_Inr simp_thms)
    with that(3) assms(2) show ?thesis by (simp add: move_run_def returns_def del: Run_Transition.simps)
  qed
  have "run_guard (ex_run x) RunCompleted = None" if "list_all (\<lambda>t. task_state t = RoleTaskSucceeded) (run_roles (ex_run x))"
    using that by (simp add: run_guard_def first_error_None list_all_iff)
  then show ?thesis
    by (auto simp: finishRun_def coordinatorTerminalRunState_def run_guard_def intro!: moves)
qed

section \<open>From the start to the end\<close>

text \<open>The state in which the coordination begins.\<close>

definition ready_to_start :: "world \<Rightarrow> coordinatorExecution \<Rightarrow> bool" where
  "ready_to_start w x \<longleftrightarrow>
     steady w (x\<lparr>ex_runStarted := True\<rparr>) \<and> \<not> ex_runStarted x \<and> ex_nextEvent x = 0 \<and> ex_nextJob x = 0 \<and>
     ex_trace x = [] \<and> ex_used x = [] \<and> ex_issued x = 0 \<and> (\<forall>r \<in> set (selected (ex_run x)). unstarted w x r)"

text \<open>The state in which it ends: every role is over, and so is the run, whose end is the last event.\<close>

definition run_over :: "Role list \<Rightarrow> coordinatorExecution \<Rightarrow> bool" where
  "run_over rs x \<longleftrightarrow>
     selected (ex_run x) = rs \<and> ex_runStarted x \<and> (\<forall>r \<in> set (selected (ex_run x)). over x r) \<and> allRolesTerminal x \<and>
     coordinatorTerminalRunState (run_state (ex_run x)) \<and> ex_workersCloseAuthorized x \<and> ex_runTerminalRecorded x \<and>
     ex_trace x \<noteq> [] \<and> te_kind (last (ex_trace x)) = CoordinatorEventRunTerminal \<and>
     te_runState (last (ex_trace x)) = run_state (ex_run x)"

lemma start_noted:
  assumes "ready_to_start w x"
  defines "y \<equiv> note_event (trace_event CoordinatorEventRunStarted no_role None None None '''' no_run_state x) x"
  shows "check_record CoordinatorEventRunStarted no_role no_run_state x = None" "accepting w" "ex_nextEvent x + 1 \<noteq> 0"
    "steady w y" "room 1000 y" "reserved w y" "ex_issued y = 0" "r \<in> set (selected (ex_run y)) \<Longrightarrow> unstarted w y r"
proof -
  show "steady w y" using assms by (simp add: steady_def ready_to_start_def)
  show "room 1000 y" "reserved w y" "ex_issued y = 0" using assms by (simp_all add: room_def reserved_def ready_to_start_def)
  show "accepting w" "ex_nextEvent x + 1 \<noteq> 0" using assms by (simp_all add: steady_def ready_to_start_def)
  show "r \<in> set (selected (ex_run y)) \<Longrightarrow> unstarted w y r"
    using assms(1) unfolding y_def by (auto simp: unstarted_def ready_to_start_def)
  show "check_record CoordinatorEventRunStarted no_role no_run_state x = None"
    using assms(1) by (simp add: check_record_def roleEvent_def ready_to_start_def steady_def no_role_def Role_Valid_def)
qed

lemma start_wave:
  assumes "steady w x" "\<forall>r \<in> set (selected (ex_run x)). unstarted w x r" "issues w 7" "reserved w x"
    "ex_issued x = 0" "room 8 x"
    and "\<And>js y. moved w UNIV 7 x y \<Longrightarrow> wave_ready w y js \<Longrightarrow> accounted w y \<Longrightarrow> Q js y"
  shows "returns (start_roles w FixedRoleOrder) x Q"
proof (rule start_all [OF assms(1) _ distinct_FixedRoleOrder assms(3,4)])
  have seven: "length FixedRoleOrder = 7" using role_count_eq by (simp add: role_count_def)
  have roles: "ex_roles x r \<noteq> None \<longleftrightarrow> r \<in> set (selected (ex_run x))" for r
    using assms(1) by (auto simp: steady_def)
  show "\<forall>r \<in> set FixedRoleOrder. ex_roles x r \<noteq> None \<longrightarrow> unstarted w x r" using assms(2) roles by blast
  show "ex_issued x + length FixedRoleOrder \<le> 7" using assms(5) seven by simp
  show "room (length FixedRoleOrder + 1) x" using assms(6) seven by simp
  fix js y
  assume y: "moved w (set FixedRoleOrder) (length FixedRoleOrder) x y" "\<forall>j \<in> set js. waiting w y InvocationQueued j \<and>
      unat (ex_nextJob x) < unat (ij_ordinal j) \<and> unat (ij_ordinal j) \<le> unat (ex_nextJob y)"
    "map ij_role js = filter (\<lambda>r. ex_roles x r \<noteq> None) FixedRoleOrder" "distinct (map ij_ordinal js)"
  have m: "moved w UNIV 7 x y" using moved_le [OF y(1)] seven by simp
  have "distinct (map ij_role js)" unfolding y(3) by simp
  then have "wave_ready w y js" using y(2,4) moved_simps(1) [OF m] by (simp add: wave_ready_def)
  moreover have "accounted w y"
    unfolding accounted_def
  proof
    fix r assume "r \<in> set (selected (ex_run y))"
    then have r: "r \<in> set (selected (ex_run x))" using moved_simps(4) [OF m] by simp
    then have "Role_Valid r" using assms(1) by (simp add: steady_def)
    with r roles have "r \<in> set (map ij_role js)" unfolding y(3) by (simp add: Role_Valid_iff)
    with y(2) show "over y r \<or> (\<exists>j s. ij_role j = r \<and> (s = InvocationQueued \<or> s = InvocationRunning) \<and> waiting w y s j)"
      by auto
  qed
  ultimately show "Q js y" using m by (intro assms(7))
qed

lemma close_run:
  assumes "finished w x" "room 2 x" "selected (ex_run x) = rs"
  shows "returns (seq (record_global w CoordinatorEventWorkersCloseAuthorized no_run_state) (\<lambda>_.
    seq finishRun (\<lambda>_. seq (read (\<lambda>x. run_state (ex_run x))) (\<lambda>state.
      record_global w CoordinatorEventRunTerminal state)))) x (\<lambda>_. run_over rs)"
  unfolding returns_seq
proof (rule record_global_at)
  have steady: "steady w x" using assms(1) by (simp add: finished_def)
  let ?e = "trace_event CoordinatorEventWorkersCloseAuthorized no_role None None None '''' no_run_state x"
  let ?x = "note_event ?e x"
  show "check_record CoordinatorEventWorkersCloseAuthorized no_role no_run_state x = None"
    using steady finished_terminal [OF assms(1)]
    by (simp add: check_record_def roleEvent_def steady_def no_role_def Role_Valid_def)
  show accepting: "accepting w" using steady by (simp add: steady_def)
  show "ex_nextEvent x + 1 \<noteq> 0" using assms(2) room_next(3) [of 1 x] by (simp add: numeral_2_eq_2)
  show "returns finishRun ?x (\<lambda>_ t. returns (read (\<lambda>x. run_state (ex_run x))) t (\<lambda>state t.
      returns (record_global w CoordinatorEventRunTerminal state) t (\<lambda>_. run_over rs)))"
  proof (rule finish_run)
    show "run_state (ex_run ?x) = RunRunning" using steady by (simp add: steady_def)
    fix s assume s: "coordinatorTerminalRunState s"
    let ?y = "?x\<lparr>ex_run := (ex_run ?x)\<lparr>run_state := s\<rparr>\<rparr>"
    have "returns (record_global w CoordinatorEventRunTerminal s) ?y (\<lambda>_. run_over rs)"
    proof (rule record_global_at [OF _ accepting])
      show "check_record CoordinatorEventRunTerminal no_role s ?y = None"
        using steady s by (simp add: check_record_def roleEvent_def steady_def no_role_def Role_Valid_def)
      show "ex_nextEvent ?y + 1 \<noteq> 0"
        using assms(2) room_next(1) [of 1 x ?e] room_next(3) [of 0 ?x] by (simp add: numeral_2_eq_2)
      let ?z = "note_event (trace_event CoordinatorEventRunTerminal no_role None None None '''' s ?y) ?y"
      have states: "coordinatorRoleState (ex_run ?z) = coordinatorRoleState (ex_run x)"
        "coordinatorRoleTerminal (ex_run ?z) = coordinatorRoleTerminal (ex_run x)" "selected (ex_run ?z) = selected (ex_run x)"
        by (simp_all add: coordinatorRoleState_def coordinatorRoleTerminal_def selected_def fun_eq_iff)
      have "over ?z r" if "over x r" for r
        using that unfolding over_def role_at_def states by simp
      moreover have "allRolesTerminal ?z"
        using finished_terminal [OF assms(1)] unfolding allRolesTerminal_def states by simp
      ultimately show "run_over rs ?z"
        using assms(1,3) s unfolding run_over_def states by (simp add: finished_def steady_def trace_event_def)
    qed (use s in auto)
    then show "returns (read (\<lambda>x. run_state (ex_run x))) ?y (\<lambda>state t.
        returns (record_global w CoordinatorEventRunTerminal state) t (\<lambda>_. run_over rs))" by simp
  qed
qed auto

lemma coordinate_returns:
  assumes "ready_to_start w x" "issues w 7" "answers w" "\<forall>js. w_prepare w js = Prepared"
    "outputs_inv w t True x"
  shows "returns (coordinate w (Suc (Suc n))) x (\<lambda>_ y. run_over (selected (ex_run x)) y \<and> outputs_inv w t True y)"
proof -
  define rs where "rs = selected (ex_run x)"
  define closing where "closing = seq (record_global w CoordinatorEventWorkersCloseAuthorized no_run_state) (\<lambda>_.
    seq finishRun (\<lambda>_. seq (read (\<lambda>x. run_state (ex_run x))) (\<lambda>state.
      record_global w CoordinatorEventRunTerminal state)))"
  define check where "check = (\<lambda>rest :: unit coordination.
    seq (runEnded w) (\<lambda>ended. seq (if ended \<noteq> None then cancel_ended w else give ()) (\<lambda>_. rest)))"
  have check: "returns (check rest) y (\<lambda>_. run_over rs)"
    if "steady w y" "accounted w y" "room (k + 8) y" "selected (ex_run y) = rs"
      and rest: "\<And>z. steady w z \<Longrightarrow> accounted w z \<Longrightarrow> room k z \<Longrightarrow> selected (ex_run z) = rs \<Longrightarrow> (finished w y \<Longrightarrow> finished w z) \<Longrightarrow>
        returns rest z (\<lambda>_. run_over rs)" for y k rest
  proof -
    let ?y = "y\<lparr>ex_looks := Suc (ex_looks y)\<rparr>"
    have "returns (cancel_ended w) ?y (\<lambda>_ z. returns rest z (\<lambda>_. run_over rs))"
    proof (rule cancel_ended_at)
      show "steady w ?y" "accounted w ?y" using that(1,2) by (simp_all add: accounted_def)
      show "room 8 ?y" using that(3) room_le [of "k + 8" y 8] by simp
      fix z assume z: "finished w z" "moved w UNIV 8 ?y z"
      then show "returns rest z (\<lambda>_. run_over rs)"
        using moved_simps(1,3,4) [OF z(2)] that(3,4) finished_accounted by (intro rest) auto
    qed
    moreover have "returns rest ?y (\<lambda>_. run_over rs)"
      using that(1-4) room_le [of "k + 8" y k] by (intro rest) (simp_all add: accounted_def finished_def)
    ultimately show ?thesis by (simp add: check_def)
  qed
  define final where "final = (\<lambda>(u :: unit) y. run_over rs y \<and> outputs_inv w t True y)"
  define rest where "rest = check
    (seq (read allRolesTerminal) (\<lambda>over. seq (if over then give () else cancelAll w AttemptConditionInternalInvariant) (\<lambda>_.
      check closing)))"
  have keeps: "keeps (outputs_inv w t True) rest"
    unfolding rest_def check_def closing_def record_global_def
    by (intro keeps_seq keeps_if keeps_basic outputs.looks outputs.cancel_ended outputs.cancelAll outputs.finishRun
        outputs_record)
  let ?y = "note_event (trace_event CoordinatorEventRunStarted no_role None None None '''' no_run_state x) x"
  note start = start_noted [OF assms(1)]
  have ending: "returns (check closing) z (\<lambda>_. run_over rs)" if "finished w z" "room 10 z" "selected (ex_run z) = rs" for z
    using that finished_accounted close_run by (intro check [where k = 2]) (auto simp: finished_def closing_def)
  have waves: "returns (run_waves w (Suc (Suc n)) js) y (\<lambda>_ y. returns rest y final)"
    if y: "moved w UNIV 7 ?y y" "wave_ready w y js" "accounted w y" "outputs_inv w t True y" for js y
  proof (rule two_waves [OF y(2,3) assms(3) _ y(4)])
    have room: "room 900 y" using moved_simps(3) [OF y(1), of 900] start(5) room_le by fastforce
    then show "room 120 y" using room_le by fastforce
    fix z assume z: "accounted w z" "moved w UNIV 120 y z" and held: "outputs_inv w t True z"
    have "room 500 z" using moved_simps(3) [OF z(2), of 500] room room_le by fastforce
    then have "room (100 + 8) z" using room_le by fastforce
    moreover have same: "selected (ex_run z) = rs"
      using moved_simps(4) [OF z(2)] moved_simps(4) [OF y(1)] by (simp add: rs_def)
    moreover note moved_simps(1) [OF z(2)] z(1)
    ultimately have "returns rest z (\<lambda>_. run_over rs)"
      unfolding rest_def
    proof (intro check [where k = 100])
      fix u assume u: "steady w u" "accounted w u" "room 100 u" "selected (ex_run u) = rs"
      have "returns (cancelAll w AttemptConditionInternalInvariant) u (\<lambda>_ t. returns (check closing) t (\<lambda>_. run_over rs))"
      proof (rule cancel_all [OF u(1,2) internal_valid(1)])
        show "room (role_count + 1) u" using u(3) room_le by (fastforce simp: role_count_eq)
        fix t assume "finished w t" "moved w UNIV (role_count + 1) u t"
        moreover have "room (10 + (role_count + 1)) u" using u(3) room_le by (fastforce simp: role_count_eq)
        ultimately show "returns (check closing) t (\<lambda>_. run_over rs)"
          using moved_simps(3,4) [of w UNIV "role_count + 1" u t] u(4) by (intro ending) simp_all
      qed
      moreover have "returns (check closing) u (\<lambda>_. run_over rs)" if "allRolesTerminal u"
        using all_roles_over [OF u(2,1) that] u(3,4) room_le [of 100 u 10] by (intro ending) simp_all
      ultimately show "returns (seq (read allRolesTerminal) (\<lambda>over.
          seq (if over then give () else cancelAll w AttemptConditionInternalInvariant) (\<lambda>_. check closing))) u (\<lambda>_. run_over rs)"
        by simp
    qed
    from returns_keeps [OF this keeps held] show "returns rest z final" unfolding final_def .
  qed
  have "outputs_inv w t True ?y" using assms(5) by (simp add: outputs_inv_def note_event_def)
  moreover have "returns (start_roles w FixedRoleOrder) ?y (\<lambda>js y. outputs_inv w t True y \<longrightarrow>
      returns (seq (prepare_initial w js) (\<lambda>_. seq (run_waves w (Suc (Suc n)) js) (\<lambda>_. rest))) y final)"
    using start(8) room_le [OF start(5), of 8] assms(4) waves
    by (intro start_wave [OF start(4) _ assms(2) start(6,7)]) (simp_all add: prepare_initial_def)
  ultimately have "returns (start_roles w FixedRoleOrder) ?y (\<lambda>js y.
      returns (seq (prepare_initial w js) (\<lambda>_. seq (run_waves w (Suc (Suc n)) js) (\<lambda>_. rest))) y final)"
    by (rule returns_with [OF outputs.start_roles])
  then have "returns (record_global w CoordinatorEventRunStarted no_run_state) x (\<lambda>_ y. returns
      (seq (start_roles w FixedRoleOrder) (\<lambda>js. seq (prepare_initial w js) (\<lambda>_.
      seq (run_waves w (Suc (Suc n)) js) (\<lambda>_. rest)))) y final)"
    by (intro record_global_at [OF start(1-3)]) simp_all
  then show ?thesis
    unfolding coordinate_def rest_def check_def closing_def rs_def final_def
      returns_seq [of "record_global w CoordinatorEventRunStarted no_run_state"] .
qed

section \<open>Admission\<close>

lemma assignments_known:
  assumes "assignments_by_role m as = Inr m'" "\<And>r a. m r = Some a \<Longrightarrow> as_role a = r \<and> ProviderRoute_Valid (as_primaryRoute a)"
    "m' r = Some a"
  shows "as_role a = r \<and> ProviderRoute_Valid (as_primaryRoute a)"
  using assms
proof (induction as arbitrary: m)
  case (Cons b as)
  from Cons.prems(1) have b: "ProviderRoute_Valid (as_primaryRoute b)"
    and rest: "assignments_by_role (m(as_role b \<mapsto> b)) as = Inr m'"
    by (auto split: if_splits)
  from rest show ?case by (rule Cons.IH) (use b Cons.prems(2,3) in \<open>auto split: if_splits\<close>)
qed simp

lemma budgets_known:
  assumes "budgets_by_role m bs = Inr m'"
  shows "\<forall>b \<in> set bs. validateRoleBudget b = None"
    "m' r = Some b \<Longrightarrow> m r = Some b \<or> b \<in> set bs \<and> ro_role b = r"
  using assms
proof (induction bs arbitrary: m)
  case (Cons c bs)
  {
    case 1
    with Cons.IH(1) show ?case by (auto split: if_splits)
  next
    case 2
    then have "budgets_by_role (m(ro_role c \<mapsto> c)) bs = Inr m'" by (auto split: if_splits)
    with Cons.IH(2) 2(1) show ?case by (fastforce split: if_splits)
  }
qed simp_all

lemma canonical_known:
  assumes "canonical_assignments byRole budgets rs = Inr (as, ts)" "\<forall>r a. byRole r = Some a \<longrightarrow> as_role a = r"
  shows "map task_role ts = map as_role as" "map as_role as = filter (\<lambda>r. byRole r \<noteq> None) rs"
    "\<forall>t \<in> set ts. task_state t = RoleTaskPending"
    "\<forall>a \<in> set as. byRole (as_role a) = Some a \<and> TrimSpace (route_providerInstance (as_primaryRoute a)) \<noteq> '''' \<and>
       (\<exists>b. budgets (as_role a) = Some b \<and> sameCoordinatorRoute (as_primaryRoute a) (rb_route (ro_primary b)))"
  using assms(1)
proof (induction rs arbitrary: as ts)
  case (Cons r rs)
  have steps: "(case byRole r of None \<Rightarrow> canonical_assignments byRole budgets rs = Inr (as, ts)
    | Some a \<Rightarrow> \<exists>as' ts' t b. canonical_assignments byRole budgets rs = Inr (as', ts') \<and> as = a # as' \<and> ts = t # ts' \<and>
        task_role t = r \<and> task_state t = RoleTaskPending \<and> TrimSpace (route_providerInstance (as_primaryRoute a)) \<noteq> '''' \<and>
        budgets r = Some b \<and> sameCoordinatorRoute (as_primaryRoute a) (rb_route (ro_primary b)))"
    if "canonical_assignments byRole budgets (r # rs) = Inr (as, ts)" for as ts
    using that by (auto simp: NewRoleTask_def Let_def split: option.splits if_splits sum.splits)
  {
    case 1
    from steps [OF 1] Cons.IH(1) assms(2) show ?case by (auto split: option.splits)
  next
    case 2
    from steps [OF 2] Cons.IH(2) assms(2) show ?case by (auto split: option.splits)
  next
    case 3
    from steps [OF 3] Cons.IH(3) show ?case by (auto split: option.splits)
  next
    case 4
    from steps [OF 4] Cons.IH(4) assms(2) show ?case by (fastforce split: option.splits)
  }
qed simp_all

lemma assigned_budgeted:
  assumes "budgets_by_role Map.empty (rc_roles (co_receipt (w_coordinator w))) = Inr budgets"
    "ProviderRoute_Valid route" "budgets r = Some b" "sameCoordinatorRoute route (rb_route (ro_primary b))"
  shows "budgeted w r route"
proof -
  let ?bs = "rc_roles (co_receipt (w_coordinator w))"
  let ?p = "\<lambda>b. ro_role b = r \<and> sameCoordinatorRoute (rb_route (ro_primary b)) route"
  note known = budgets_known [OF assms(1)]
  from known(2) [OF assms(3)] assms(4) have "b \<in> set ?bs" "?p b" by (auto simp: sameCoordinatorRoute_def)
  then obtain c where c: "List.find ?p ?bs = Some c" by (cases "List.find ?p ?bs") (auto simp: find_None_iff)
  then have "c \<in> set ?bs" by (auto dest: find_SomeD)
  with known(1) have "validateRoleBudget c = None" by blast
  then have "validateInvocationLimits (rb_limits (ro_primary c)) = None"
    by (auto simp: validateRoleBudget_def validateRouteBudget_def split: if_splits option.splits)
  with c have "\<exists>l. invocationLimits w r route = Inr l \<and> validateInvocationLimits l = None"
    by (simp add: invocationLimits_def)
  moreover have "is_ok (canonicalCoordinatorRoute route)"
    using assms(2) by (simp add: canonicalCoordinatorRoute_def NewProviderRoute_def ProviderRoute_Valid_def is_ok_def)
  ultimately show ?thesis by (simp add: budgeted_def)
qed

lemma admit_ready:
  assumes "admit_run w extractionAdmitted run as threshold = Inr x" "accepting w"
  shows "ready_to_start w x" "run_id (ex_run x) = run_id run" "selected (ex_run x) = selected run"
proof -
  let ?receipt = "co_receipt (w_coordinator w)"
  from assms(1) obtain target canonical tasks running where
    supplied: "check_supplied run = None" and target: "canonicalCoordinatorTarget (run_target run) = Inr target"
    and assigned: "coordinatorAssignments as ?receipt (run_runType run \<noteq> RunTypeReview) = Inr (canonical, tasks)"
    and same: "sameCoordinatorRoleTasks (run_roles run) tasks"
    and moved: "Run_Transition (Some run) RunRunning = Inr running"
    and x: "x = new_execution extractionAdmitted running [] canonical"
    by (auto simp: admit_run_def simp del: Run_Transition.simps split: if_splits option.splits sum.splits)
  from assigned obtain byRole budgets where byRole: "assignments_by_role Map.empty as = Inr byRole"
    and budgets: "budgets_by_role Map.empty (rc_roles ?receipt) = Inr budgets"
    and canonical: "canonical_assignments byRole budgets FixedRoleOrder = Inr (canonical, tasks)"
    by (auto simp: coordinatorAssignments_def Let_def split: sum.splits if_splits)
  have keyed: "as_role a = r" "ProviderRoute_Valid (as_primaryRoute a)" if "byRole r = Some a" for r a
    using assignments_known [OF byRole _ that] by auto
  then have "\<forall>r a. byRole r = Some a \<longrightarrow> as_role a = r" by blast
  note known = canonical_known [OF canonical this]
  have running: "running = run\<lparr>run_state := RunRunning\<rparr>" using moved by (simp only: Run_Transition_Inr)
  have tasks: "list_all2 (\<lambda>l r. task_role l = task_role r \<and> task_required l = task_required r \<and>
      task_state l = task_state r) (run_roles run) tasks"
    using same by (simp add: sameCoordinatorRoleTasks_def)
  have selected: "selected running = map as_role canonical"
    using tasks known(1) unfolding running selected_def
    by (auto simp: list_all2_conv_all_nth list_eq_iff_nth_eq)
  have pending: "coordinatorRoleState running r = RoleTaskPending" if r: "r \<in> set (selected running)" for r
  proof -
    have "task_state t = RoleTaskPending" if "t \<in> set (run_roles running)" for t
      using that tasks known(3) unfolding running by (force simp: list_all2_conv_all_nth in_set_conv_nth)
    moreover obtain t where "List.find (\<lambda>t. task_role t = r) (run_roles running) = Some t"
      using r by (cases "List.find (\<lambda>t. task_role t = r) (run_roles running)") (auto simp: find_None_iff selected_def)
    moreover from this have "t \<in> set (run_roles running)" by (auto dest: find_SomeD)
    ultimately show ?thesis by (simp add: coordinatorRoleState_def)
  qed
  have roles: "ex_roles x r = map_option (\<lambda>a. \<lparr>rol_assignment = a, rol_attempts = [], rol_currentAttempt = -1,
      rol_output = None, rol_repaired = False, rol_providerUnusable = False,
      rol_failureClass = FailureClassOther '''', rol_reasonCode = ''''\<rparr>)
      (map_of (map (\<lambda>a. (as_role a, a)) canonical) r)" for r
    unfolding x new_execution_def by (induction canonical) auto
  have "dom (ex_roles x) = dom (map_of (map (\<lambda>a. (as_role a, a)) canonical))"
    by (auto simp: roles dom_def)
  then have dom: "dom (ex_roles x) = set (selected running)"
    unfolding selected by (simp add: dom_map_of_conv_image_fst image_image)
  have valid: "distinct (selected running)" "\<forall>r \<in> set (selected running). Role_Valid r"
    unfolding selected known(2) by (auto simp: Role_Valid_iff)
  have unstarted: "unstarted w x r" if r: "r \<in> set (selected running)" for r
  proof -
    obtain a where a: "map_of (map (\<lambda>a. (as_role a, a)) canonical) r = Some a"
      using r unfolding selected by (cases "map_of (map (\<lambda>a. (as_role a, a)) canonical) r") (auto simp: map_of_eq_None_iff image_iff)
    then have "a \<in> set canonical" "as_role a = r" by (auto dest!: map_of_SomeD)
    with known(4) obtain b where b: "byRole r = Some a" "TrimSpace (route_providerInstance (as_primaryRoute a)) \<noteq> ''''"
      "budgets r = Some b" "sameCoordinatorRoute (as_primaryRoute a) (rb_route (ro_primary b))" by blast
    with assigned_budgeted [OF budgets keyed(2)] have "budgeted w r (as_primaryRoute a)" by blast
    with a b(2) pending [OF r] show ?thesis unfolding unstarted_def roles by (simp add: x new_execution_def)
  qed
  have "addressed running" using supplied target running
    by (auto simp: addressed_def check_supplied_def is_ok_def split: sum.splits)
  then have "steady w (x\<lparr>ex_runStarted := True\<rparr>)"
    using assms(2) valid dom running by (simp add: steady_def x new_execution_def)
  then show "ready_to_start w x" using unstarted by (simp add: ready_to_start_def x new_execution_def)
  show "run_id (ex_run x) = run_id run" "selected (ex_run x) = selected run"
    by (simp_all add: x new_execution_def running selected_def)
qed

section \<open>Completion\<close>

text \<open>
  An admitted execution completes: there is no error, the run and all its roles and attempts are over,
  the last event says so, and there is a result.
\<close>

lemma execution_completes:
  assumes "admit_run w extractionAdmitted run as threshold = Inr x" "accepting w" "issues w 7" "answers w"
    "\<forall>js. w_prepare w js = Prepared"
  shows "\<exists>e res. ExecuteRun w (Suc (Suc n)) extractionAdmitted run as threshold policy = Inr e \<and> ee_errors e = [] \<and>
    ee_result e = Inr res \<and>
    cr_runID res = run_id run \<and> cr_runState res = run_state (ex_run (ee_execution e)) \<and>
    cr_trace res = ex_trace (ee_execution e) \<and> run_over (selected run) (ee_execution e)"
proof -
  note ready = admit_ready [OF assms(1,2)]
  from coordinate_returns [OF ready(1) assms(3-5) admitted_outputs [OF assms(1)], of n] obtain y where
    y: "coordinate w (Suc (Suc n)) x = (Inr (), y)" "run_over (selected run) y" "outputs_inv w (run_target run) True y"
    unfolding returns_iff ready(3) by auto
  from snapshot_returns [OF y(3) admitted_threshold [OF assms(1)]] obtain res where
    "snapshot w (run_sessionID run) (run_id run) threshold policy y = Inr res"
    unfolding is_ok_iff by blast
  moreover from this have "cr_runID res = run_id run" "cr_runState res = run_state (ex_run y)" "cr_trace res = ex_trace y"
    by (auto simp: snapshot_def split: sum.splits)
  ultimately show ?thesis using y assms(1) by (simp add: ExecuteRun_def Let_def)
qed

lemma run_over_attempts:
  assumes "run_over rs x" "r \<in> set rs"
  shows "\<exists>st c. ex_roles x r = Some st \<and> rol_attempts st = [c] \<and> attempt_over (att_state (cat_attempt c)) \<and>
    roleTaskTerminal (coordinatorRoleState (ex_run x) r)"
  using assms by (auto simp: run_over_def over_def role_at_def)

end
