(* ===== verification/Spec2Isabelle.thy ===== *)
theory Spec2Isabelle
  imports Runs Attempts Failures Findings Outcomes Publication Compositions Diagnostics
    Transition_Policy Budget Clean_Apply Evidence_Facts Scheduler Coordinator_Complete
begin

text \<open>
  Verification of the core of Mulgae, a command-line program that runs code reviews with external
  model providers and publishes their results.

  The program. A review session has a root run and child runs. A run selects roles (logic,
  security and five more) and has one role task for each; a task is worked on by an attempt, and
  an attempt is one or two provider invocations. Before a run starts, its budget is checked
  against fixed ceilings. After an attempt, the conditions it met are reduced to one, and a policy
  table decides whether to repair, retry, give up or cancel the run. Findings are normalised,
  fingerprinted, ordered and numbered; the results of the roles and the findings give the outcome
  axes. The result is published in durable steps, and after a crash a classifier decides from the
  journal and from what can be observed how to go on. Exit reasons are reduced to one process
  exit code. Selected results of several runs are combined under a composition fingerprint, from
  which a run identity is derived. Old runs are deleted by a cleanup: a planner decides from an
  observation of the store what may go, the plan is hashed and kept as a receipt, and the service
  deletes exactly what the receipt lists, after a crash too.

  The theories, from the bottom. Names of definitions are the names of the source; a method
  \<open>T.m\<close> is \<open>T_m\<close>.

  \<^item> \<open>Prelude\<close>: results and errors, 64-bit integers, times, \<open>sort.Slice\<close>, the contract
    \<open>sort_order\<close> of a comparison function.
  \<^item> \<open>Go_Strings\<close>: the functions of \<open>strings\<close>, \<open>path\<close>, \<open>strconv\<close> and \<open>encoding/hex\<close>
    that the source uses, on byte strings. \<open>Sha256\<close>: \<open>crypto/sha256\<close>, executable.
  \<^item> \<open>States\<close> (\<open>internal/domain/states.go\<close>): the enumerations, as datatypes whose
    last constructor holds any other wire text, the contracts \<open>string_enum\<close> and \<open>lifecycle\<close>,
    and the four transition tables.
  \<^item> \<open>Identifiers\<close> (\<open>identifiers.go\<close>), \<open>Failures\<close> (\<open>failure.go\<close>), \<open>Targets\<close>
    (\<open>target.go\<close>, \<open>review_identity.go\<close>, \<open>source_reference.go\<close>, \<open>live_source.go\<close>),
    \<open>RoleTasks\<close> (\<open>role_task.go\<close>): the values of the domain.
  \<^item> \<open>Runs\<close> (\<open>run.go\<close>, \<open>session.go\<close>) and \<open>Attempts\<close> (\<open>attempt.go\<close>): the two aggregates
    with state. Each has a record, its constructors and mutators, an inductive predicate of what
    clients can reach and an invariant, preserved by every operation.
  \<^item> \<open>Findings\<close> (\<open>finding.go\<close>), \<open>Outcomes\<close> (\<open>outcome.go\<close>), \<open>Publication\<close>
    (\<open>publication.go\<close>), \<open>Compositions\<close> (\<open>composition.go\<close>, \<open>event.go\<close>), \<open>Diagnostics\<close>
    (\<open>runtime_diagnostic.go\<close>).
  \<^item> \<open>Transition_Policy\<close> (\<open>internal/app/review/policy.go\<close>) and \<open>Budget\<close>
    (\<open>internal/app/review/budget.go\<close>, the route of \<open>internal/ports/scheduling.go\<close>).
  \<^item> The cleanup, \<open>internal/app/clean\<close>. \<open>Clean_Model\<close> (\<open>model.go\<close>): snapshots, plans and the
    checks of their texts. \<open>Clean_Graph\<close>: the lineage graph of \<open>planner.go\<close>, with the loop that
    breaks cycles and double parents, and the two searches. \<open>Clean_Hash\<close> (\<open>hash.go\<close>): the
    canonical text of a plan and its hash. \<open>Clean_Plan\<close>: \<open>Plan\<close> in the phases of the source.
    \<open>Clean_Safety\<close> and \<open>Clean_Accounts\<close>: what is protected is kept, when the planner accepts, what
    its accounts say. \<open>Clean_Apply\<close> (\<open>service.go\<close>): the validators, the execution and the resumption
    on a store given by its operations.
  \<^item> The evidence of findings. \<open>Go_Text\<close>: UTF-8, the lines of a text, numbers as text. \<open>Sources\<close>
    (\<open>internal/ports/foundation.go\<close>, \<open>internal/ports/live_source.go\<close>,
    \<open>internal/app/evidence/live_source.go\<close>): safe paths, Git texts, live sources and their identity.
    \<open>Evidence_Claims\<close> (\<open>internal/app/evidence/verifier.go\<close>): claims, the excerpt they quote, receipts,
    the verifier. \<open>Evidence_Groups\<close> (\<open>internal/app/validation/evidence.go\<close>,
    \<open>internal/app/review/evidence.go\<close>): the claims of a finding, the policy, the verification of all
    claims and the reduction of the receipts. \<open>Evidence_Facts\<close>: what the pipeline establishes.
  \<^item> The work of a run. \<open>Role_Outputs\<close> (\<open>internal/app/review/coordinator_types.go\<close>,
    \<open>role_report.go\<close>, the completeness of \<open>internal/app/validation/review.go\<close>): invocation jobs,
    the outputs of roles with their validator, attempt outcomes. \<open>Scheduler\<close>
    (\<open>internal/app/review/invocation_scheduler.go\<close>): the capacity that all runs of the process share
    and the workers of each run, as step relations between critical sections and channel operations,
    with an invariant of every reachable process.
  \<^item> The coordinator. \<open>Go_Effects\<close>: operations that change a state and may fail on the way.
    \<open>Coordinator_State\<close> (\<open>internal/app/review/trace.go\<close>, the types of \<open>coordinator.go\<close>): trace events
    and their validator, attempts, roles, the execution, \<open>record\<close>. \<open>Coordinator_Steps\<close>
    (\<open>coordinator.go\<close>, \<open>internal/app/failure_precedence.go\<close>): starting attempts, dispatching and
    collecting a wave, normalising and committing outcomes, follow-ups, cancellation. \<open>Coordinator_Run\<close>:
    dependencies, assignments, the loop over the waves, \<open>execute\<close>, \<open>abort\<close>, \<open>finishRun\<close> and \<open>snapshot\<close>.
    \<open>Coordinator_Trace\<close>: every operation keeps the trace well formed and changes the run and the
    attempts only by the domain's mutators. Completion: \<open>Coordinator_Roles\<close> evaluates the
    operations on one role on a normal form of the state, \<open>Coordinator_Commit\<close> shows that a commit ends
    the role or queues one follow-up, \<open>Coordinator_Stop\<close> that cancelling ends every role,
    \<open>Coordinator_Waves\<close> treats dispatching, collecting and committing a wave, and
    \<open>Coordinator_Complete\<close> goes from the admission to the end of the run.

  Interfaces. \<open>sort_order\<close> is used by findings, compositions, budgets, exit codes, attempt
  conditions, lineage edges, the runs of a cleanup, claims and severities; \<open>string_enum\<close> by every enumeration; \<open>typed_id\<close> by the four identifiers;
  \<open>lifecycle\<close> and \<open>ranked_lifecycle\<close> by runs, role tasks, attempts and invocations. Each is
  interpreted on the definitions of the model.

  Parameters. The lower-case table of Unicode is the argument \<open>ul\<close> of the functions on findings;
  on ASCII text it is not consulted. \<open>strconv.Quote\<close> on text that is not ASCII is the argument \<open>uq\<close>
  of the hash of a plan. The artifact store of the cleanup is a record of its operations on a state
  of any type, its errors are of any type, and the schema validator and the clock are arguments.
  The reader of a verifier is an argument, as are Unicode normalisation (\<open>nfc\<close>), the JSON text of a
  string (\<open>js\<close>) and what each look at the context returns (\<open>ctx\<close>).
  Which runes are letters is the argument \<open>letter\<close> of the completeness check. The runtime that
  executes a job may return any outcome at any time, and contexts may end at any time.
  The coordinator's surroundings are the record \<open>world\<close>: what each look at a context sees (a look has
  a number), which identifiers the issuer returns, whether diagnostics accept an event, whether an
  initiating failure is persisted, whether the scheduler admits a job, how the preparation of the
  inputs ends and which results arrive for a wave, in which order.
  What is proved of the service holds for every store; where it must complete, the store's
  operations are assumed to succeed. Time is a number of nanoseconds with a flag for UTC.

  Bounds. Sequence numbers are 64-bit words; durations and counters are integers with the
  wrap-around of \<open>int64\<close> written out. An attempt admits at most twelve mutations, by a rank that
  each of them lowers, and one history of twelve exists. The walk of the planner from a run to its
  ancestors has the number of edges plus two as its bound, and is proved never to reach it; the two
  graph searches end by a measure of what is left to visit. The loop over the waves has the number of
  waves as its bound, and running out of it is an error of its own; two waves are proved to be enough,
  because a follow-up has no follow-up. One execution needs fewer than a thousand events.

  Not modelled: unmarshalling from JSON (\<open>encoding/json\<close>), the provider runtime, the services
  under \<open>internal/app\<close> other than the policy, the budget, the coordinator and the cleanup, the ports, the adapters (files, Git,
  processes, providers) and the command line. They are effects on the outside world or glue
  around the values modelled here.
\<close>

section \<open>Concrete inputs of the instances\<close>

definition sample_uuid :: string where
  "sample_uuid = ''01890a5d-ac96-774b-bcce-b302099a8057''"

definition sample_p2 :: PublicationClassifierInput where
  "sample_p2 = \<lparr>pci_journalState = JournalCollecting, pci_observation = DurableObservationP2Committed,
     pci_storedNormalExit = Some ExitCommittedPass, pci_ambiguityReasons = []\<rparr>"

definition sample_transition :: TransitionInput where
  "sample_transition = \<lparr>ti_Condition = AttemptConditionTimeout, ti_RepairUsed = False,
     ti_RetryUsed = False, ti_CancellationObserved = True\<rparr>"

definition sample_invocation :: Invocation where
  "sample_invocation = \<lparr>inv_sequence = 1, inv_purpose = InvocationInitial,
     inv_state = InvocationQueued, inv_artifacts = False\<rparr>"

definition sample_attempt :: Attempt where
  "sample_attempt = \<lparr>att_id = AttemptID (''a_'' @ sample_uuid), att_state = AttemptQueued,
     att_provider = ''codex'', att_invocations = [sample_invocation]\<rparr>"

definition sample_repair_history :: "attempt_op list" where
  "sample_repair_history =
     [OpTransition AttemptRunning, OpTransitionInvocation 1 InvocationRunning, OpMarkArtifacts 1,
      OpTransitionInvocation 1 InvocationSucceeded, OpTransition AttemptValidating,
      OpTransition AttemptRepairing,
      OpAppendRepair (sample_invocation\<lparr>inv_sequence := 2, inv_purpose := InvocationRepair\<rparr>),
      OpTransitionInvocation 2 InvocationRunning, OpMarkArtifacts 2,
      OpTransitionInvocation 2 InvocationSucceeded, OpTransition AttemptValidating,
      OpTransition AttemptSucceeded]"

lemma sample_attempt_new:
  "NewAttempt (AttemptID (''a_'' @ sample_uuid)) ''codex'' sample_invocation = Inr sample_attempt"
  by code_simp

lemma sample_attempt_reachable: "attempt_reachable sample_attempt"
  by (rule attempt_reachable.new [OF sample_attempt_new]) (simp add: sample_invocation_def)

definition sample_target :: TargetIdentityInput where
  "sample_target = \<lparr>tin_Kind = TargetPatch, tin_SHA256 = concat (replicate 32 ''0a''),
     tin_RepositoryID = '''', tin_BaseObjectID = '''', tin_HeadObjectID = '''',
     tin_HeadTreeObjectID = '''', tin_IndexTreeObjectID = '''', tin_GitMode = GitTargetModeOther ''''\<rparr>"

definition sample_tasks :: "RoleTask list" where
  "sample_tasks = map (\<lambda>(role, required). \<lparr>task_role = role, task_required = required,
     task_state = RoleTaskPending, task_primaryProvider = ''codex''\<rparr>)
     [(RoleTesting, False), (RoleLogic, True)]"

definition sample_created :: go_time where
  "sample_created = \<lparr>time_nanos = 1700000000, time_utc = True\<rparr>"

definition sample_new_run :: "run_error + Session \<times> Run" where
  "sample_new_run = (case NewTargetIdentity sample_target of
       Inl e \<Rightarrow> Inl RunTargetRequired
     | Inr target \<Rightarrow> NewReviewSession (SessionID (''s_'' @ sample_uuid)) sample_created
         (RunID (''r_'' @ sample_uuid)) target sample_tasks)"

definition sample_run :: Run where
  "sample_run = (case sample_new_run of Inr (session, run) \<Rightarrow> run)"

definition sample_moves :: "(RunState + Role \<times> RoleTaskState) list" where
  "sample_moves =
     [Inl RunRunning] @
     map (\<lambda>s. Inr (RoleLogic, s)) [RoleTaskPrimaryQueued, RoleTaskPrimaryRunning, RoleTaskSucceeded] @
     map (\<lambda>s. Inr (RoleTesting, s)) [RoleTaskPrimaryQueued, RoleTaskPrimaryRunning, RoleTaskFailed] @
     [Inl RunDegraded]"

lemma sample_run_reachable: "run_reachable sample_run"
proof -
  have "is_ok sample_new_run" by code_simp
  then obtain target session run where
    new: "NewReviewSession (SessionID (''s_'' @ sample_uuid)) sample_created
              (RunID (''r_'' @ sample_uuid)) target sample_tasks = Inr (session, run)"
    and "sample_run = run"
    by (auto simp: is_ok_iff sample_new_run_def sample_run_def split: sum.splits)
  moreover have "list_all RoleTask_ok sample_tasks" by code_simp
  ultimately show ?thesis using run_reachable.root [OF new] by (simp add: list_all_iff)
qed

definition sample_budget :: "RoleBudget list" where
  "sample_budget = map (\<lambda>(role, provider, minutes).
     \<lparr>ro_role = role, ro_primary = \<lparr>rb_route = \<lparr>route_providerInstance = provider\<rparr>,
        rb_limits = \<lparr>il_timeout = minutes * 60 * second\<rparr>\<rparr>\<rparr>)
     [(RoleTesting, ''codex'', 5), (RoleLogic, ''claude'', 10), (RoleSecurity, ''codex'', 7)]"

definition sample_input :: FindingInput where
  "sample_input = \<lparr>fi_Severity = SeverityHigh, fi_Path = ''internal/app/main.go'',
     fi_LineStart = 12, fi_Role = RoleLogic, fi_ProviderInstance = ''codex'',
     fi_Title = ''Lost update'', fi_Description = ''d'', fi_Recommendation = ''r'',
     fi_Confidence = ConfidenceHigh, fi_Lifecycle = FindingOpen,
     fi_EvidenceState = EvidenceUnverified, fi_NormalizedRuleCategory = ''Lost  Update'',
     fi_NormalizedEvidenceRegion = ''run''\<rparr>"

definition sample_result :: "Role \<Rightarrow> bool \<Rightarrow> RoleResultSummary" where
  "sample_result role valid =
     \<lparr>rr_Role = role, rr_Selected = True, rr_Required = False, rr_Valid = valid,
      rr_Degraded = True, rr_ReportsOnly = False\<rparr>"

lemma sample_input_ascii:
  "ascii (fi_NormalizedRuleCategory sample_input)"
  "ascii (fi_NormalizedEvidenceRegion sample_input)"
  by code_simp+

lemma sample_input_accepted: "is_ok (NewFinding (\<lambda>s. s) sample_input)"
  unfolding NewFinding_accepts by code_simp

definition sample_source :: "Role \<Rightarrow> CompositionSource" where
  "sample_source role = \<lparr>cs_role = role, cs_runID = RunID (''r_'' @ sample_uuid),
     cs_reviewID = ReviewID sample_uuid, cs_attemptID = AttemptID (''a_'' @ sample_uuid)\<rparr>"

definition sample_root :: RunID where
  "sample_root = RunID (''r_'' @ sample_uuid)"

lemma sample_composition_accepted:
  "is_ok (compositionFingerprint sample_root '''' [sample_source RoleTesting, sample_source RoleLogic])"
  unfolding compositionFingerprint_accepts by code_simp

definition sample_event :: RuntimeDiagnosticEventInput where
  "sample_event = \<lparr>di_Level = RuntimeDiagnosticInfo, di_Component = ''review'',
     di_Operation = ''run'', di_Event = fst (hd runtimeDiagnosticMessages),
     di_SessionID = SessionID (''s_'' @ sample_uuid), di_RunID = RunID (''r_'' @ sample_uuid),
     di_AttemptID = AttemptID '''', di_InvocationID = '''', di_ExecutionInvocationID = '''',
     di_Role = RoleOther '''', di_Provider = '''', di_Cause = '''', di_Failure = '''',
     di_Mitigation = '''', di_State = '''', di_Outcome = '''', di_Termination = '''',
     di_ProtocolPhase = '''', di_ProtocolTerminal = '''', di_ProviderSessionFingerprint = '''',
     di_ProviderTurnFingerprint = '''', di_InvariantID = '''',
     di_Stream = RuntimeDiagnosticStreamOther '''', di_Offset = 0, di_Length = 0, di_ExitCode = 0,
     di_HasExitCode = False, di_ArtifactRef = ''raw/out.txt'', di_DiscardedPaths = [],
     di_DiscardedPathCount = 0\<rparr>"

definition sample_finding :: Finding where
  "sample_finding = (case NewFinding (\<lambda>s. s) sample_input of Inr f \<Rightarrow> f)"

lemma sample_finding_new: "NewFinding (\<lambda>s. s) sample_input = Inr sample_finding"
  using sample_input_accepted by (auto simp: is_ok_iff sample_finding_def)

lemma sample_finding_valid: "Finding_Validate (\<lambda>s. s) sample_finding = None"
  by (rule new_finding_validates [OF sample_finding_new sample_input_ascii])

definition sample_clean_id :: "string \<Rightarrow> string" where
  "sample_clean_id digit = ''r_01890a5d-ac96-774b-bcce-b302099a805'' @ digit"

definition sample_digest :: string where
  "sample_digest = ''sha256:'' @ concat (replicate 32 ''0a'')"

definition sample_observation :: "string \<Rightarrow> int \<Rightarrow> bool \<Rightarrow> int64 \<Rightarrow> RunObservation" where
  "sample_observation digit seconds active bytes =
     \<lparr>ob_RunID = sample_clean_id digit, ob_SessionID = ''s_'' @ sample_uuid,
      ob_Kind = RunKindPublication, ob_Completed = \<not> active,
      ob_CompletedAt = Some \<lparr>time_nanos = seconds * nanos_per_second, time_utc = True\<rparr>,
      ob_Active = active, ob_Committed = True, ob_Corrupt = False, ob_DiagnosticProtected = False,
      ob_RegularFileBytes = bytes\<rparr>"

definition sample_edge :: "string \<Rightarrow> string \<Rightarrow> LineageEdgeObservation" where
  "sample_edge parent child =
     \<lparr>le_ParentRunID = sample_clean_id parent, le_ChildRunID = sample_clean_id child,
      le_EdgePath = ''runs/edge.json'', le_SHA256 = sample_digest, le_Valid = True\<rparr>"

text \<open>
  Five runs: the first is the parent of the third, which is active; the second is old, the fourth
  old enough for a deletion by size, the fifth young.
\<close>

definition sample_clean :: RetentionSnapshot where
  "sample_clean =
     \<lparr>sn_Now = \<lparr>time_nanos = 1000 * nanos_per_second, time_utc = True\<rparr>,
      sn_StoreEpoch = \<lparr>ep_Value = 3, ep_SHA256 = sample_digest\<rparr>,
      sn_InputPolicySHA256 = sample_digest,
      sn_Policy = \<lparr>po_RetentionAgeSeconds = 500, po_MinAgeForSizeSeconds = 100, po_TargetBytes = 20,
        po_ExplicitKeepRunIDs = []\<rparr>,
      sn_Runs = [sample_observation ''1'' 100 False 10, sample_observation ''2'' 200 False 20,
        sample_observation ''3'' 300 True 30, sample_observation ''4'' 700 False 7,
        sample_observation ''5'' 950 False 5],
      sn_Edges = [sample_edge ''1'' ''3''], sn_ProtectedRegularFileBytes = 4\<rparr>"

lemma sample_clean_ok: "snapshot_ok sample_clean"
  by code_simp

lemma sample_clean_sized: "machine_sized sample_clean"
  by code_simp

lemma sample_clean_int64: "in_int64 (sn_ProtectedRegularFileBytes sample_clean)"
  using sample_clean_sized by (simp add: machine_sized_def)

lemma sample_clean_planned: "\<exists>p. Plan uq sample_clean = Inr p"
  using Plan_accepts [OF sample_clean_int64, of uq] sample_clean_ok by (auto split: sum.splits)

lemma sample_clean_deletions:
  "planned_deletions sample_clean = Inr [sample_clean_id ''2'', sample_clean_id ''4'']"
  by code_simp

lemma sample_clean_deleted:
  "Plan uq sample_clean = Inr p \<Longrightarrow> deleted_ids p = [sample_clean_id ''2'', sample_clean_id ''4'']"
  using planned_deletions_Plan [of uq sample_clean p] by (simp add: sample_clean_deletions)

definition sample_plan :: CleanPlan where
  "sample_plan =
     \<lparr>cp_SchemaVersion = SchemaVersion, cp_Mode = ''dry_run'', cp_Now = ''2026-01-01T00:00:00Z'',
      cp_StoreEpoch = \<lparr>ep_Value = 3, ep_SHA256 = sample_digest\<rparr>, cp_InputPolicySHA256 = sample_digest,
      cp_Policy = \<lparr>po_RetentionAgeSeconds = 500, po_MinAgeForSizeSeconds = 100, po_TargetBytes = 20,
        po_ExplicitKeepRunIDs = []\<rparr>,
      cp_RetentionProtection = \<lparr>rp_RetainedSeedRunIDs = [], rp_TransitiveAncestorProtection = [],
        rp_GraphAnomalyComponents = []\<rparr>,
      cp_RunDecisions = [\<lparr>rd_RunID = sample_clean_id ''2'', rd_Decision = ''selected_age'',
        rd_Reasons = [ReasonEligibleAge, ReasonDeletedAge]\<rparr>],
      cp_DeleteSets = \<lparr>ds_AgeDeleteSet = [], ds_SizeDeleteSet = []\<rparr>, cp_OrderedActions = [],
      cp_ByteAccounting = \<lparr>ba_InitialRegularFileBytes = 0, ba_AgeDeleteBytes = 0, ba_SizeDeleteBytes = 0,
        ba_PlannedDeleteBytes = 0, ba_ProjectedRegularFileBytes = 0, ba_TargetBytes = 20,
        ba_TargetReached = True\<rparr>,
      cp_OutcomeReasons = [], cp_PlanHash = '''', cp_ApplyIdentity = None\<rparr>"

text \<open>A store that holds one receipt and records the tombstones it is given, then the deletions.\<close>

definition sample_store :: "CleanPlan \<Rightarrow> (string list \<times> string list, string) store" where
  "sample_store p =
     \<lparr>so_Lock = (\<lambda>st. None), so_CtxErr = (\<lambda>st. None), so_Observe = (\<lambda>st. Inr sample_clean),
      so_Snapshot = (\<lambda>st. Inr sample_clean),
      so_DryRunPlan = (\<lambda>h st. if h = cp_PlanHash p then Inr p else Inl ''no receipt''),
      so_Persist = (\<lambda>q st. (None, st)), so_Clear = (\<lambda>st. (None, ([], snd st))),
      so_Tombstones = (\<lambda>st. Inr (map (\<lambda>i. \<lparr>tb_RunID = i, tb_PlanHash = cp_PlanHash p\<rparr>) (fst st))),
      so_Tombstone = (\<lambda>t st. (None, (tb_RunID t # fst st, snd st))),
      so_Delete = (\<lambda>t st. (None, (fst st, snd st @ [tb_RunID t])))\<rparr>"

lemma sample_store_reliable: "reliable (sample_store p)"
  by (simp add: reliable_def sample_store_def)

definition sample_source_text :: string where
  "sample_source_text = ''func f() {'' @ [CHR 0x0A] @ ''  return'' @ [CHR 0x0A] @ ''}''"

definition sample_claim :: CurrentEvidenceClaim where
  "sample_claim = \<lparr>ec_targetSHA256 = sample_digest, ec_liveSource = no_live_source,
     ec_path = ''app/main.go'', ec_lineStart = 2, ec_lineEnd = 3, ec_side = SideHead,
     ec_quote = ''  return'' @ [CHR 0x0A] @ ''}''\<rparr>"

definition sample_region :: string where
  "sample_region = evidenceKey (\<lambda>s. s) sample_claim"

definition sample_proved_finding :: Finding where
  "sample_proved_finding =
     \<lparr>f_id = final_id 0, f_fingerprint = fingerprint ''rule'' ''app/main.go'' sample_region,
      f_severity = SeverityHigh, f_path = ''app/main.go'', f_lineStart = 2, f_role = RoleLogic,
      f_providerInstance = ''codex'', f_title = ''t'', f_description = ''d'', f_recommendation = ''r'',
      f_confidence = ConfidenceHigh, f_lifecycle = FindingOpen, f_evidenceState = EvidenceUnverified,
      f_normalizedRuleCategory = ''rule'', f_normalizedEvidenceRegion = sample_region\<rparr>"

definition sample_group :: FindingEvidenceClaims where
  "sample_group = \<lparr>fe_findingID = final_id 0, fe_targetSHA256 = sample_digest,
     fe_finding = sample_proved_finding, fe_claims = [sample_claim], fe_visuals = [no_visual]\<rparr>"

definition sample_verifier :: "string Verifier" where
  "sample_verifier = CapturedVerifier
     (\<lambda>target side path. Inr (ImmutableTargetAvailable, sample_source_text))"

definition sample_evidence_policy :: EvidencePolicy where
  "sample_evidence_policy =
     \<lparr>pol_required = [SeverityHigh, SeverityCritical, SeverityBlocker], pol_structural = False\<rparr>"

lemma sample_region_facts:
  "normalizeFingerprintText (\<lambda>s. s) sample_region = sample_region" "sample_region \<noteq> ''''"
  "normalizeFingerprintText (\<lambda>s. s) ''rule'' = ''rule''"
  "normalizeFindingPath ''app/main.go'' = Inr ''app/main.go''"
  "TrimSpace ''codex'' = ''codex''" "TrimSpace ''t'' = ''t''" "TrimSpace ''d'' = ''d''" "TrimSpace ''r'' = ''r''"
  by code_simp+

lemma sample_finding_validates: "Finding_Validate (\<lambda>s. s) sample_proved_finding = None"
  by (simp add: Finding_Validate_def sample_proved_finding_def sample_region_facts blank_def
      Severity_Valid_def Role_Valid_def Confidence_Valid_def FindingLifecycle_Valid_def EvidenceState_Valid_def)

lemma sample_reconstruction:
  "reconstruction (\<lambda>s. s) sample_proved_finding [sample_claim] =
     \<lparr>fi_Severity = SeverityHigh, fi_Path = ''app/main.go'', fi_LineStart = 2, fi_Role = RoleLogic,
      fi_ProviderInstance = ''codex'', fi_Title = ''t'', fi_Description = ''d'', fi_Recommendation = ''r'',
      fi_Confidence = ConfidenceHigh, fi_Lifecycle = FindingOpen, fi_EvidenceState = EvidenceUnverified,
      fi_NormalizedRuleCategory = ''rule'', fi_NormalizedEvidenceRegion = sample_region\<rparr>"
  by (simp add: reconstruction_def sample_proved_finding_def sample_region_def)
     (simp add: sample_claim_def sample_region_def)

lemma sample_claim_facts:
  "validCurrentEvidenceClaim sample_claim" "ec_targetSHA256 sample_claim = sample_digest"
  "final_id 0 \<noteq> ''''" "sample_digest \<noteq> ''''"
  by code_simp+

lemma sample_group_parts:
  "fe_findingID sample_group = final_id 0" "fe_targetSHA256 sample_group = sample_digest"
  "fe_finding sample_group = sample_proved_finding" "fe_claims sample_group = [sample_claim]"
  "fe_visuals sample_group = [no_visual]" "f_id sample_proved_finding = final_id 0"
  "f_lifecycle sample_proved_finding = FindingOpen" "f_severity sample_proved_finding = SeverityHigh"
  "f_evidenceState sample_proved_finding = EvidenceUnverified"
  by (simp_all add: sample_group_def sample_proved_finding_def)

lemma sample_group_valid: "FindingEvidenceClaims_valid (\<lambda>s. s) sample_group"
proof -
  have "NewFinding (\<lambda>s. s) (reconstruction (\<lambda>s. s) sample_proved_finding [sample_claim]) =
      Inr (sample_proved_finding\<lparr>f_id := ''''\<rparr>)"
    unfolding sample_reconstruction
    by (simp add: NewFinding_def sample_proved_finding_def sample_region_facts blank_def Let_def
        Severity_Valid_def Role_Valid_def Confidence_Valid_def FindingLifecycle_Valid_def EvidenceState_Valid_def)
  then show ?thesis
    by (simp add: FindingEvidenceClaims_valid_def sample_group_parts sample_claim_facts
        sample_finding_validates sameFindingContent_def clear_id_def)
qed

definition sample_current_claim :: CurrentClaim where
  "sample_current_claim =
     \<lparr>cc_targetSHA256 = sample_digest, cc_liveSource = False, cc_targetDigest = replicate 32 10,
      cc_side = SideHead, cc_path = ''app/main.go'', cc_lineStart = 2, cc_lineEnd = 3,
      cc_quote = ec_quote sample_claim\<rparr>"

lemma sample_current_claim:
  "newVerifiedCurrentClaim (\<lambda>s. s) sample_claim = Inr sample_current_claim"
  "validationReason (\<lambda>s. s) sample_current_claim = ReasonVerified"
  "selectExcerpt sample_source_text 2 3 = Some (ec_quote sample_claim)"
  by code_simp+

definition sample_receipt :: CurrentReceipt where
  "sample_receipt = newReceipt sample_current_claim ReceiptVerified ReasonVerified
     (excerptSHA256 sample_current_claim (ec_quote sample_claim)) (ec_quote sample_claim)"

lemma sample_VerifyCurrent:
  "VerifyCurrent (\<lambda>s. s) sample_verifier None None sample_current_claim = (sample_receipt, None)"
proof -
  have "cc_lineStart sample_current_claim = 2" "cc_lineEnd sample_current_claim = 3"
    "cc_quote sample_current_claim = ec_quote sample_claim" "\<not> cc_liveSource sample_current_claim"
    by (simp_all add: sample_current_claim_def)
  then show ?thesis
    by (simp add: VerifyCurrent_def sample_current_claim read_source_def sample_verifier_def
        sample_receipt_def Let_def)
qed

definition sample_verified_group :: VerifiedFindingEvidence where
  "sample_verified_group = \<lparr>ve_findingID = final_id 0, ve_finding = sample_proved_finding,
     ve_validationProof = sample_group, ve_claims = [sample_claim], ve_receipts = [sample_receipt]\<rparr>"

lemma sample_receipt_matches: "receiptMatchesValidationClaim sample_receipt sample_claim"
proof -
  have "re_claim sample_receipt = sample_current_claim" by (simp add: sample_receipt_def newReceipt_def)
  moreover have "EvidenceClaim_TargetSHA256 sample_claim = sample_digest"
    "EvidenceClaim_SourceIdentitySHA256 sample_claim = ''''" by code_simp+
  ultimately show ?thesis
    by (simp add: receiptMatchesValidationClaim_def sample_current_claim_def
        CurrentClaim_TargetSHA256_def CurrentClaim_SourceIdentitySHA256_def) (simp add: sample_claim_def)
qed

lemma sample_verification:
  "VerifyValidatedEvidence (\<lambda>s. s) (\<lambda>s. s) (\<lambda>i k. sample_verifier) (\<lambda>l. None :: string option)
     [sample_group] = Inr [sample_verified_group]"
proof -
  show ?thesis
    by (simp add: VerifyValidatedEvidence_def prepare_group_def MatchesFinding_def sample_group_parts sample_group_valid
        sample_current_claim sample_VerifyCurrent sample_receipt_matches sample_verified_group_def)
qed

lemma sample_reduction:
  "ReduceVerifiedFindingEvidence (\<lambda>s. s) [sample_proved_finding] [sample_verified_group]
     sample_evidence_policy = Inr [sample_proved_finding\<lparr>f_evidenceState := EvidenceVerified\<rparr>]"
proof -
  have "EvidencePolicy_valid sample_evidence_policy" by code_simp
  moreover have "reducedEvidenceState [sample_receipt] = EvidenceVerified"
    by (simp add: reducedEvidenceState_def sample_receipt_def newReceipt_def)
  ultimately show ?thesis
    by (simp add: ReduceVerifiedFindingEvidence_def reduce_finding_def matchesFinding_def MatchesFinding_def
        Finding_WithEvidenceState_def sample_finding_validates sample_verified_group_def
        sample_receipt_matches currentEvidenceClaimsEqual_def sample_group_valid EvidenceState_Valid_def
        sameFindingIdentity_def clear_id_def Let_def sample_group_parts)
qed


definition sample_new_job :: "job_error + InvocationJob" where
  "sample_new_job = (case NewTargetIdentity sample_target of
       Inl e \<Rightarrow> Inl (JobTarget e)
     | Inr target \<Rightarrow> NewInvocationJob RoleLogic \<lparr>route_providerInstance = ''codex''\<rparr> target
         \<lparr>il_timeout = 60\<rparr> (AttemptID (''a_'' @ sample_uuid)) InvocationInitial 1)"

definition sample_job :: InvocationJob where
  "sample_job = (case sample_new_job of Inr j \<Rightarrow> j)"

lemma sample_job_facts: "job_ok sample_job" "il_timeout (ij_limits sample_job) = 60"
proof -
  have "is_ok sample_new_job" by code_simp
  then obtain job where "sample_new_job = Inr job" unfolding is_ok_iff by blast
  moreover from this have "sample_job = job" unfolding sample_job_def by (subst (asm) eq_commute) (erule subst, rule sum.case)
  ultimately have "sample_new_job = Inr sample_job" by (simp only:)
  then obtain t where
    "newInvocationJob (SessionID '''') (RunID '''') RoleLogic \<lparr>route_providerInstance = ''codex''\<rparr> t
       \<lparr>il_timeout = 60\<rparr> (AttemptID (''a_'' @ sample_uuid)) InvocationInitial 1 = Inr sample_job"
    by (auto simp: sample_new_job_def NewInvocationJob_def split: sum.splits)
  from newInvocationJob_ok [OF this] show "job_ok sample_job" "il_timeout (ij_limits sample_job) = 60" by auto
qed

lemma begin_sample_job: "begin_job ul letter sample_job None = WorkerAcquiring sample_job"
  by (simp add: begin_job_def validateInvocationLimits_def sample_job_facts)

lemma worker_moves:
  assumes "process_reachable ul letter es (a, ss)" "i < length ss" "w < length (sc_workers (ss ! i))"
    and "worker_step ul letter (a, ss ! i) (sc_workers (ss ! i) ! w) (b, t) p"
  shows "process_reachable ul letter (es @ [Some (i, EventWork)])
    (b, ss[i := t\<lparr>sc_workers := (sc_workers (ss ! i))[w := p]\<rparr>])"
  by (rule process_reachable.step [OF assms(1) process_step.local [OF assms(2) scheduler_step.work [OF assms(3,4)]]])

text \<open>Two runs with one lane each: the first holds the slot, the second waits.\<close>

definition sample_scheduler :: "(InvocationJob \<times> nat) list \<Rightarrow> nat list \<Rightarrow> worker \<Rightarrow> invocationScheduler" where
  "sample_scheduler jobs gates w =
     \<lparr>sc_ctx = None, sc_capacity = \<lparr>cr_limit = 1, cr_closed = False\<rparr>, sc_maxJobs = 1, sc_jobs = jobs,
      sc_results = [], sc_gates = gates, sc_closed = False, sc_workers = [w]\<rparr>"

definition sample_authority :: "int \<Rightarrow> processWorkerCapacityAuthority" where
  "sample_authority n = \<lparr>ca_active = n, ca_limits = [(1, 2)], ca_changed = 2\<rparr>"

lemma sample_created_schedulers:
  "process_reachable ul letter [None, None]
     (sample_authority 0, [sample_scheduler [] [] WorkerIdle, sample_scheduler [] [] WorkerIdle])"
proof -
  let ?a = "\<lparr>ca_active = 0, ca_limits = [(1, 1)], ca_changed = 1\<rparr>"
  have "newInvocationScheduler None 1 1 coordinatorProcessWorkerCapacity = (?a, sample_scheduler [] [] WorkerIdle)"
    "newInvocationScheduler None 1 1 ?a = (sample_authority 0, sample_scheduler [] [] WorkerIdle)"
    by (simp_all add: newInvocationScheduler_def register_def coordinatorProcessWorkerCapacity_def
        limit_count_def signalLocked_def sample_scheduler_def sample_authority_def)
  note create = process_step.create [OF order.refl this(1)] process_step.create [OF order.refl this(2)]
  from process_reachable.step [OF process_reachable.step [OF process_reachable.initial create(1)] create(2)]
  show ?thesis by simp
qed

lemma sample_prepared:
  assumes "process_reachable ul letter es (a, ss)" "i < length ss" "ss ! i = sample_scheduler [] [] WorkerIdle"
  shows "process_reachable ul letter (es @ [Some (i, EventAdmit sample_job), Some (i, EventGate 0)])
      (a, ss[i := sample_scheduler [(sample_job, 0)] [0] WorkerIdle])"
    and "process_reachable ul letter
      (es @ [Some (i, EventAdmit sample_job), Some (i, EventGate 0), Some (i, EventWork), Some (i, EventWork)])
      (a, ss[i := sample_scheduler [] [0] (WorkerAcquiring sample_job)])"
proof -
  have admit: "admitWithGate sample_job 0 (ss ! i) = Some (sample_scheduler [(sample_job, 0)] [] WorkerIdle, True)"
    by (simp add: assms(3) admitWithGate_def sample_scheduler_def)
  from process_reachable.step [OF assms(1) process_step.local [OF assms(2) scheduler_step.admit [OF admit]]]
  have "process_reachable ul letter (es @ [Some (i, EventAdmit sample_job)])
      (a, ss[i := sample_scheduler [(sample_job, 0)] [] WorkerIdle])" .
  from process_reachable.step [OF this process_step.local [of i, OF _ scheduler_step.gate [of ul letter _ _ 0]]] assms(2)
  show one: "process_reachable ul letter (es @ [Some (i, EventAdmit sample_job), Some (i, EventGate 0)])
      (a, ss[i := sample_scheduler [(sample_job, 0)] [0] WorkerIdle])"
    by (simp add: open_gate_def sample_scheduler_def)
  have take: "worker_step ul letter (a, sample_scheduler [(sample_job, 0)] [0] WorkerIdle) WorkerIdle
      (a, sample_scheduler [] [0] WorkerIdle) (WorkerGated sample_job 0)"
    using worker_step.take_job [of "sample_scheduler [(sample_job, 0)] [0] WorkerIdle" sample_job 0 "[]" ul letter a]
    by (simp add: sample_scheduler_def)
  from worker_moves [OF one, of i 0 a "sample_scheduler [] [0] WorkerIdle" "WorkerGated sample_job 0"] take assms(2)
  have two: "process_reachable ul letter
      (es @ [Some (i, EventAdmit sample_job), Some (i, EventGate 0), Some (i, EventWork)])
      (a, ss[i := sample_scheduler [] [0] (WorkerGated sample_job 0)])"
    by (simp add: sample_scheduler_def)
  have start: "worker_step ul letter (a, sample_scheduler [] [0] (WorkerGated sample_job 0)) (WorkerGated sample_job 0)
      (a, sample_scheduler [] [0] (WorkerGated sample_job 0)) (WorkerAcquiring sample_job)"
    using worker_step.start [of 0 "sample_scheduler [] [0] (WorkerGated sample_job 0)" ul letter a sample_job]
    by (simp add: sample_scheduler_def begin_sample_job)
  from worker_moves [OF two, of i 0 a "sample_scheduler [] [0] (WorkerGated sample_job 0)" "WorkerAcquiring sample_job"]
    start assms(2)
  show "process_reachable ul letter
      (es @ [Some (i, EventAdmit sample_job), Some (i, EventGate 0), Some (i, EventWork), Some (i, EventWork)])
      (a, ss[i := sample_scheduler [] [0] (WorkerAcquiring sample_job)])"
    by (simp add: sample_scheduler_def)
qed

lemma sample_waiting:
  "\<exists>es. process_reachable ul letter es
     (sample_authority 1,
      [sample_scheduler [] [0] (WorkerHolding sample_job), sample_scheduler [] [0] (WorkerWaiting sample_job 2)])"
proof -
  let ?acq = "sample_scheduler [] [0] (WorkerAcquiring sample_job)"
  from sample_prepared(2) [OF sample_created_schedulers, of 0] obtain es where
    "process_reachable ul letter es (sample_authority 0, [?acq, sample_scheduler [] [] WorkerIdle])" by auto
  moreover have "acquire (sc_capacity ?acq) (sample_authority 0) = Acquired (sample_authority 1)"
    "acquire (sc_capacity ?acq) (sample_authority 1) = AcquireWait 2"
    by (simp_all add: acquire_def effectiveLimitLocked_def sample_scheduler_def sample_authority_def)
  note granted = worker_step.granted [OF this(1)] and waits = worker_step.must_wait [OF this(2)]
  ultimately have "process_reachable ul letter (es @ [Some (0, EventWork)]) (sample_authority 1,
      [sample_scheduler [] [0] (WorkerHolding sample_job), sample_scheduler [] [] WorkerIdle])"
    using worker_moves [of ul letter es "sample_authority 0" "[?acq, sample_scheduler [] [] WorkerIdle]" 0 0
      "sample_authority 1" ?acq "WorkerHolding sample_job"] granted
    by (simp add: sample_scheduler_def)
  from sample_prepared(2) [OF this, of 1] obtain es where
    "process_reachable ul letter es (sample_authority 1, [sample_scheduler [] [0] (WorkerHolding sample_job), ?acq])"
    by auto
  from worker_moves [OF this, of 1 0 "sample_authority 1" ?acq "WorkerWaiting sample_job 2"] waits
  show ?thesis by (auto simp: sample_scheduler_def)
qed

definition sample_assignment :: "Role \<Rightarrow> bool \<Rightarrow> Assignment" where
  "sample_assignment role required = \<lparr>as_role = role, as_required = required,
     as_providerInstance = ''codex'', as_primaryRoute = \<lparr>route_providerInstance = ''codex''\<rparr>\<rparr>"

definition sample_coordinator :: Coordinator where
  "sample_coordinator = \<lparr>co_maxActiveLanes = 2,
     co_receipt = fst (PreflightRunBudgetWithCapacity
       (map (\<lambda>role. \<lparr>ro_role = role, ro_primary = \<lparr>rb_route = \<lparr>route_providerInstance = ''codex''\<rparr>,
          rb_limits = \<lparr>il_timeout = 60 * second\<rparr>\<rparr>\<rparr>) [RoleTesting, RoleLogic]) DefaultHarnessCeilings 2),
     co_policy = \<lparr>pol_required = [SeverityHigh, SeverityCritical, SeverityBlocker], pol_structural = False\<rparr>\<rparr>"

text \<open>The logic role times out and is retried, the testing role succeeds with a report.\<close>

definition sample_answer :: "InvocationJob \<Rightarrow> InvocationJob \<times> AttemptOutcome" where
  "sample_answer j =
     (j, if ij_role j = RoleTesting
         then (case NewReportsOnlyValidatedRoleOutput (\<lambda>s. s) (\<lambda>s. True) (ij_role j) ''codex'' (ij_target j) ''Fine.'' of
                 Inl _ \<Rightarrow> no_outcome
               | Inr out \<Rightarrow> no_outcome\<lparr>ao_job := j, ao_output := Some out\<rparr>)
         else no_outcome\<lparr>ao_job := j, ao_condition := Some AttemptConditionProviderTimeout\<rparr>)"

definition sample_world :: world where
  "sample_world = \<lparr>w_coordinator = sample_coordinator, w_lower = (\<lambda>s. s), w_letter = (\<lambda>s. True),
     w_callerEnded = (\<lambda>n. False), w_runEnded = (\<lambda>n. None),
     w_attemptID = (\<lambda>n. Some (AttemptID (''a_'' @ take 35 sample_uuid @ ''0123456'' ! n # []))),
     w_emit = (\<lambda>e. True), w_persist = (\<lambda>j out. True), w_admit = (\<lambda>n. True),
     w_prepare = (\<lambda>js. Prepared), w_results = map sample_answer\<rparr>"


definition sample_assignments :: "Assignment list" where
  "sample_assignments = [sample_assignment RoleTesting False, sample_assignment RoleLogic True]"

definition sample_execution :: "admission_failure + execution_end" where
  "sample_execution =
     ExecuteRun sample_world 2 True sample_run sample_assignments SeverityHigh None"

lemma sample_admitted: "is_ok (admit_run sample_world True sample_run sample_assignments SeverityHigh)"
  by code_simp

lemma sample_executes: "\<exists>e. sample_execution = Inr e"
  using sample_admitted ExecuteRun_returns by (fastforce simp: sample_execution_def is_ok_iff)

lemma sample_surroundings:
  "accepting sample_world" "answers sample_world" "issues sample_world 7" "\<forall>js. w_prepare sample_world js = Prepared"
proof -
  show "accepting sample_world" "\<forall>js. w_prepare sample_world js = Prepared"
    by (simp_all add: accepting_def sample_world_def)
  have "fst (sample_answer j) = j" for j by (simp add: sample_answer_def)
  then show "answers sample_world" by (simp add: answers_def sample_world_def comp_def)
  have "list_all (\<lambda>k. case w_attemptID sample_world k of
      None \<Rightarrow> False | Some i \<Rightarrow> is_ok (ParseAttemptID (AttemptID_String i))) [0..<7]" by code_simp
  then have "\<forall>k \<in> {0..<7}. \<exists>i. w_attemptID sample_world k = Some i \<and> AttemptID_id.valid_id i"
    by (auto simp: list_all_iff AttemptID_id.parse_str split: option.splits)
  then have "\<forall>k < 7. \<exists>i. w_attemptID sample_world k = Some i \<and> AttemptID_id.valid_id i"
    using atLeastLessThan_iff [of _ 0 "7 :: nat"] by blast
  moreover have "distinct (map (issued_uuid sample_world) [0..<7])" by code_simp
  then have "inj_on (issued_uuid sample_world) {..<7}"
    unfolding distinct_map by (simp add: atLeast_upt [symmetric] lessThan_atLeast0 del: upt_rec_numeral)
  ultimately show "issues sample_world 7" by (simp add: issues_def)
qed

lemma sample_completes:
  "\<exists>e. sample_execution = Inr e \<and> run_over (selected sample_run) (ee_execution e)"
proof -
  obtain x where "admit_run sample_world True sample_run sample_assignments SeverityHigh = Inr x"
    using sample_admitted by (auto simp: is_ok_iff)
  from execution_completes [OF this sample_surroundings(1,3,2,4), of 0 None]
  show ?thesis by (auto simp: sample_execution_def numeral_2_eq_2)
qed

section \<open>Further facts across the components\<close>

text \<open>
  A role selection is accepted exactly when it is non-empty, its roles are distinct and each
  task is pending, of a known role and required where the role is a floor role. The result is the
  selection itself, rearranged into the fixed role order.
\<close>

lemma role_selection_canonical:
  "is_ok (validateRoleTasks roles) =
     (roles \<noteq> [] \<and> list_all fresh_role_task roles \<and> distinct (map task_role roles)) \<and>
   (\<forall>ts. validateRoleTasks roles = Inr ts \<longrightarrow> mset ts = mset roles \<and>
     sorted_wrt (<) (map (rolePosition \<circ> task_role) ts))"
proof -
  have "sorted_wrt (<) (map (rolePosition \<circ> task_role) ts)" if "validateRoleTasks roles = Inr ts" for ts
    using validateRoleTasks_Inr(1) [OF that]
    by (simp add: canonical_roles_def sorted_wrt_map)
  then show ?thesis
    using validateRoleTasks_ok_iff [of roles] validateRoleTasks_Inr(2) [of roles]
    by (simp add: list_all_iff)
qed

text \<open>
  A text parses as an identifier of a kind exactly when it is the prefix of the kind
  followed by a canonical version-7 UUID, and then it is the text of the identifier. A text
  parses as at most one of the four kinds, and unmarshalling inverts marshalling.
\<close>

lemma identifier_kinds:
  "(ParseRunID v = Inr r) = (\<exists>u. v = ''r_'' @ u \<and> canonical_uuid_v7 u \<and> r = RunID v) \<and>
   length (filter id [is_ok (ParseRunID v), is_ok (ParseSessionID v), is_ok (ParseAttemptID v),
     is_ok (ParseReviewID v)]) \<le> 1 \<and>
   (RunID_MarshalText r = Inr v) = (RunID_UnmarshalText (Some d) v = Inr r)"
proof (intro conjI)
  show "(ParseRunID v = Inr r) = (\<exists>u. v = ''r_'' @ u \<and> canonical_uuid_v7 u \<and> r = RunID v)"
    unfolding RunID_id.parse_ok validatePrefixedUUIDv7_None by blast
  have "\<not> canonical_uuid_v7 (c # CHR ''_'' # u)" for c u
    by (auto simp: canonical_uuid_v7_def uuid_byte_def isLowerHex_def less_eq_char_def
        dest!: spec [of _ 1])
  then show "length (filter id [is_ok (ParseRunID v), is_ok (ParseSessionID v),
      is_ok (ParseAttemptID v), is_ok (ParseReviewID v)]) \<le> 1"
    unfolding wellformed_kinds by auto
  show "(RunID_MarshalText r = Inr v) = (RunID_UnmarshalText (Some d) v = Inr r)"
    using RunID_id.marshal_unmarshal RunID_id.unmarshal_marshal by blast
qed

text \<open>
  A valid source reference has a canonical run and is of exactly one of the two kinds: a
  published review with a canonical review identifier, or the recovery of a failed run with a
  lower-case SHA-256 manifest digest and no review identifier.
\<close>

lemma source_reference_kinds:
  assumes "SourceReference_Valid r"
  shows "is_ok (ParseRunID (RunID_String (source_runID r))) \<and>
    (SourceReference_Kind r = ''published_review'' \<and> source_recoverySHA256 r = '''' \<and>
        is_ok (ParseReviewID (ReviewID_String (source_reviewID r))) \<or>
      SourceReference_Kind r = ''failed_run_recovery'' \<and> source_reviewID r = ReviewID '''' \<and>
        (\<exists>d. source_recoverySHA256 r = ''sha256:'' @ d \<and> lowerSHA256Pattern d))"
  using assms SourceReference_Valid_cases [OF assms]
  by (auto simp: SourceReference_Valid_def SourceReference_Kind_def ReviewID_id.parse_str
      split: if_splits)

text \<open>
  A run, a role task and an invocation move along their tables for at most two, three and two
  transitions, visit no state twice, and stop for good in a state without successors. An attempt
  cannot leave a terminal state either.
\<close>

lemma lifecycles_terminate:
  "(moves RunState_RequireTransition s ss \<longrightarrow> length ss \<le> 2 \<and> distinct (s # ss)) \<and>
   (moves RoleTaskState_RequireTransition t ts \<longrightarrow> length ts \<le> 3 \<and> distinct (t # ts)) \<and>
   (moves InvocationState_RequireTransition u us \<longrightarrow> length us \<le> 2 \<and> distinct (u # us)) \<and>
   (v \<in> {AttemptSucceeded, AttemptFailed, AttemptTimedOut, AttemptCancelled, AttemptBlocked} \<longrightarrow>
      moves AttemptState_RequireTransition v vs \<longrightarrow> vs = [])"
proof (intro conjI impI)
  assume "v \<in> {AttemptSucceeded, AttemptFailed, AttemptTimedOut, AttemptCancelled, AttemptBlocked}"
  then have "attempt_states.terminal v"
    by (auto simp: attempt_states.terminal_def AttemptState_Valid_def)
  then show "moves AttemptState_RequireTransition v vs \<Longrightarrow> vs = []"
    by (rule attempt_states.terminal_chain)
next
  have "RunState_rank s \<le> 2" "RoleTaskState_rank t \<le> 3" "InvocationState_rank u \<le> 2"
    by (cases s; cases t; cases u; simp)+
  then show "moves RunState_RequireTransition s ss \<Longrightarrow> length ss \<le> 2"
    "moves RoleTaskState_RequireTransition t ts \<Longrightarrow> length ts \<le> 3"
    "moves InvocationState_RequireTransition u us \<Longrightarrow> length us \<le> 2"
    using run_states.chain_bounded [of s ss] role_states.chain_bounded [of t ts]
      invocation_states.chain_bounded [of u us] by linarith+
qed (fact run_states.chain_distinct role_states.chain_distinct invocation_states.chain_distinct)+

text \<open>
  An accepted event draft carries a known event at the one level admitted for it, canonical
  session and run identifiers, token texts only, at most a hundred discarded paths, and an
  artifact reference that is absent, a relative path of proper components or the text dot-dot.
\<close>

lemma diagnostic_draft_safe:
  assumes "NewRuntimeDiagnosticEventDraft i = Inr d"
  shows "d = i \<and> EventCode_Valid (di_Event d) \<and>
    (validDiagnosticLevelForEvent l (di_Event d) \<longleftrightarrow> l = di_Level d) \<and>
    is_ok (ParseSessionID (SessionID_String (di_SessionID d))) \<and>
    is_ok (ParseRunID (RunID_String (di_RunID d))) \<and>
    (\<forall>v \<in> set (di_Component d # di_Operation d # optional_tokens d). list_all token_byte v) \<and>
    length (di_DiscardedPaths d) \<le> 100 \<and>
    (di_ArtifactRef d = '''' \<or> di_ArtifactRef d = ''..'' \<or>
       list_all proper_component (split_on (CHR ''/'') (di_ArtifactRef d)))"
  using draft_safe [OF assms] NewRuntimeDiagnosticEventDraft_Inr(1) [OF assms] event_level_unique
  unfolding SessionID_id.parse_str RunID_id.parse_str by blast

text \<open>
  Once a durable effect is observed, what the journal claims does not change the decision:
  two valid inputs that differ in the journal state only are classified alike.
\<close>

lemma publication_journal_irrelevant:
  assumes "PublicationClassifierInput_validate i = None"
    and "PublicationClassifierInput_validate (i\<lparr>pci_journalState := j\<rparr>) = None"
    and "pci_observation i \<noteq> DurableObservationP0None"
  shows "ClassifyPublication (i\<lparr>pci_journalState := j\<rparr>) = ClassifyPublication i"
  by (rule classify_journal_irrelevant [OF assms])

text \<open>
  The coverage of a run is computed exactly for results with known, distinct roles. It is
  incomplete when a required role or the logic role has no valid selected result or any selected
  result is invalid, degraded when none of that holds and a selected result is degraded, and
  complete otherwise.
\<close>

lemma coverage_exact:
  "computeCoverage results = Inr c \<longleftrightarrow>
     list_all (\<lambda>r. Role_Valid (rr_Role r)) results \<and> distinct (map rr_Role results) \<and>
     c = (if list_ex unsatisfied results then CoverageIncomplete
          else if list_ex (\<lambda>r. rr_Selected r \<and> rr_Degraded r) results then CoverageDegraded
          else CoverageComplete)"
  unfolding computeCoverage_Inr coverage_of_def list_all_iff list_ex_iff ..

text \<open>
  The run identity derived from a composition is the text of the first sixteen bytes of its
  digest, stamped with the version and variant of a version-7 UUID, behind the prefix of run
  identifiers. It is a canonical run identifier, and the derivation fails for the digests that
  stamp to the zero form only.
\<close>

lemma derived_run_identity_canonical:
  assumes "compositionFingerprint root recovery xs = Inr f"
  shows "\<exists>digest u. length digest = 32 \<and>
    fingerprint_value f = ''sha256:'' @ hex_encode digest \<and>
    u = uuid_text (stamp_uuid (take 16 digest)) \<and>
    (\<forall>i. CompositionFingerprint_RunID f = Inr i \<longleftrightarrow> u \<noteq> zero_form \<and> i = RunID (''r_'' @ u)) \<and>
    (u \<noteq> zero_form \<longrightarrow> canonical_uuid_v7 u)"
  by (rule CompositionFingerprint_RunID_canonical [OF assms]) blast

text \<open>
  A captured target identity binds content and a live one binds a source selection only:
  the two digests exclude each other, each present one is a non-zero SHA-256 digest, and Git
  coordinates are complete for a Git target and absent for the other captured kinds.
\<close>

lemma target_identity_shape:
  "(\<forall>t. NewTargetIdentity inp = Inr t \<longrightarrow>
      TargetIdentity_ok t \<and> target_kind t = tin_Kind inp \<and> target_kind t \<noteq> TargetLiveSource \<and>
      target_sha256 t = tin_SHA256 inp \<and> target_sourceIdentitySHA256 t = '''') \<and>
   (\<forall>t. NewLiveTargetIdentity digest base head = Inr t \<longrightarrow>
      TargetIdentity_ok t \<and> target_kind t = TargetLiveSource \<and>
      target_sha256 t = '''' \<and> target_sourceIdentitySHA256 t = digest)"
proof (intro conjI allI impI)
  fix t assume t: "NewTargetIdentity inp = Inr t"
  show "TargetIdentity_ok t" by (rule NewTargetIdentity_ok [OF t])
  show "target_kind t = tin_Kind inp" "target_kind t \<noteq> TargetLiveSource"
    "target_sha256 t = tin_SHA256 inp" "target_sourceIdentitySHA256 t = ''''"
    using t by (auto simp: NewTargetIdentity_def checked_git_target_def target_identity_of_def Let_def
        split: if_splits option.splits)
next
  fix t assume t: "NewLiveTargetIdentity digest base head = Inr t"
  show "TargetIdentity_ok t" by (rule NewLiveTargetIdentity_ok [OF t])
  show "target_kind t = TargetLiveSource" "target_sha256 t = ''''"
    "target_sourceIdentitySHA256 t = digest"
    using t by (auto simp: NewLiveTargetIdentity_def split: if_splits)
qed

text \<open>
  Both searches of the planner visit exactly what they should. The component of a run is the
  set of the runs connected to it, each once; the ancestors recorded for a run are those the valid
  edges reach, each entry with a path of valid edges that leads to it, when these edges are acyclic.
\<close>

lemma clean_searches_exact:
  "set (fst (component start es)) = (touching es)\<^sup>* `` {start} \<and>
   distinct (fst (component start es)) \<and>
   (\<forall>a \<in> set (ancestors_of es d). ap_RetainedDescendantRunID a = d \<and>
      lineage_path es d (ap_LineageEdgeRefs a) (ap_AncestorRunID a)) \<and>
   (acyclic (lineage es) \<longrightarrow> ap_AncestorRunID ` set (ancestors_of es d) = (lineage es)\<^sup>+ `` {d})"
  using component_connected ancestors_of_sound ancestors_of_exact unfolding entry_ok_def by blast

text \<open>
  Two compositions are hashed from the same text only when they have the same root, the same
  recovery manifest and, role by role in the fixed order, the same runs and attempts.
\<close>

lemma composition_encoding_injective:
  assumes "compositionFingerprint root recovery xs = Inr f"
    and "compositionFingerprint root' recovery' ys = Inr g"
  shows "\<exists>m n. fingerprint_value f = ''sha256:'' @ sha256_hex m \<and>
    fingerprint_value g = ''sha256:'' @ sha256_hex n \<and>
    (m = n \<longrightarrow> root = root' \<and> recovery = recovery' \<and>
       map source_coordinates (sort_slice position_less xs) =
         map source_coordinates (sort_slice position_less ys))"
proof (intro exI conjI impI)
  show "fingerprint_value f = ''sha256:'' @ sha256_hex (composition_head root recovery @
      concat (map source_fields (sort_slice position_less xs)))"
    "fingerprint_value g = ''sha256:'' @ sha256_hex (composition_head root' recovery' @
      concat (map source_fields (sort_slice position_less ys)))"
    using assms unfolding compositionFingerprint_Inr by simp_all
qed (auto dest: composition_preimage_inject)

text \<open>
  The order in which findings arrive, and identifiers they carry, do not influence the
  result: two inputs with the same findings up to identifiers are ordered and numbered alike.
\<close>

lemma ordered_findings_canonical:
  assumes "mset (map clear_id xs) = mset (map clear_id ys)"
  shows "map_sum (\<lambda>_. ()) id (OrderAndAssignFindings ul xs) =
    map_sum (\<lambda>_. ()) id (OrderAndAssignFindings ul ys)"
  using OrderAndAssignFindings_permutation [OF assms, of ul]
    OrderAndAssignFindings_permutation [OF assms [symmetric], of ul]
  by (cases "OrderAndAssignFindings ul xs"; cases "OrderAndAssignFindings ul ys") auto

text \<open>
  The digest of an excerpt is taken of a text that determines the claim: two well-formed claims
  whose excerpts are hashed from the same text agree in source kind, target, side, path and lines, and
  the excerpts are equal.
\<close>

lemma excerpt_digest_binds:
  assumes "validationReason nfc c = ReasonVerified" "cc_lineEnd c \<le> max_int64"
    and "validationReason nfc d = ReasonVerified" "cc_lineEnd d \<le> max_int64"
    and "excerpt_preimage c x = excerpt_preimage d y"
  shows "excerptSHA256 c x = ''sha256:'' @ sha256_hex (excerpt_preimage c x) \<and>
    cc_liveSource c = cc_liveSource d \<and> cc_targetSHA256 c = cc_targetSHA256 d \<and>
    cc_side c = cc_side d \<and> cc_path c = cc_path d \<and> cc_lineStart c = cc_lineStart d \<and>
    cc_lineEnd c = cc_lineEnd d \<and> x = y"
  using excerpt_preimage_inject [OF assms] by (simp add: excerptSHA256_def)

section \<open>The properties of the program\<close>

text \<open>
  C1: an execution of the coordinator completes. When the run is admitted, the diagnostics take every
  event and every artifact, the issuer gives seven fresh identities, the prompts can be prepared and the
  scheduler answers every job that was dispatched, then whatever the workers report, whichever jobs
  the scheduler refuses, and whenever the contexts of the caller and of the run end: there is no
  error, neither of the coordination nor of the result that is made at its end, two waves are enough,
  the run has the roles it was started with and a terminal state, the task and the only attempt of each
  of its roles are over, the last event of the trace is the end of the run in that state, and the
  result has the run's identity, that state and that trace.
\<close>
theorem coordinator_completes:
  assumes "admit_run w extractionAdmitted run as threshold = Inr x"
    and "accepting w" "issues w 7" "answers w" "\<forall>js. w_prepare w js = Prepared" "2 \<le> n"
  shows "\<exists>e. ExecuteRun w n extractionAdmitted run as threshold policy = Inr e \<and> ee_errors e = [] \<and>
    (let y = ee_execution e
     in map task_role (run_roles (ex_run y)) = map task_role (run_roles run) \<and>
        coordinatorTerminalRunState (run_state (ex_run y)) \<and>
        (\<forall>r \<in> set (map task_role (run_roles run)).
           roleTaskTerminal (coordinatorRoleState (ex_run y) r) \<and>
           (\<exists>st c. ex_roles y r = Some st \<and> rol_attempts st = [c] \<and> attempt_over (att_state (cat_attempt c)))) \<and>
        ex_trace y \<noteq> [] \<and> te_kind (last (ex_trace y)) = CoordinatorEventRunTerminal \<and>
        te_runState (last (ex_trace y)) = run_state (ex_run y) \<and>
        (\<exists>res. ee_result e = Inr res \<and> cr_runID res = run_id run \<and> cr_runState res = run_state (ex_run y) \<and>
           cr_trace res = ex_trace y))"
proof -
  obtain m where "n = Suc (Suc m)" using assms(6) by (metis Suc_le_D numeral_2_eq_2 Suc_le_mono)
  with execution_completes [OF assms(1-5), of m policy] obtain e res where
    e: "ExecuteRun w n extractionAdmitted run as threshold policy = Inr e" "ee_errors e = []"
      "run_over (selected run) (ee_execution e)" "ee_result e = Inr res"
      "cr_runID res = run_id run" "cr_runState res = run_state (ex_run (ee_execution e))"
      "cr_trace res = ex_trace (ee_execution e)" by blast
  have "\<forall>r \<in> set (selected run). roleTaskTerminal (coordinatorRoleState (ex_run (ee_execution e)) r) \<and>
      (\<exists>st c. ex_roles (ee_execution e) r = Some st \<and> rol_attempts st = [c] \<and>
         attempt_over (att_state (cat_attempt c)))"
    using run_over_attempts [OF e(3)] by blast
  with e show ?thesis unfolding Let_def selected_def run_over_def by blast
qed
theorem coordinator_completes_witness:
  "\<exists>e res. sample_execution = Inr e \<and> ee_errors e = [] \<and> ee_result e = Inr res \<and>
     coordinatorTerminalRunState (cr_runState res)"
proof -
  obtain x where "admit_run sample_world True sample_run sample_assignments SeverityHigh = Inr x"
    using sample_admitted by (auto simp: is_ok_iff)
  from coordinator_completes [OF this sample_surroundings(1,3,2,4) le_refl, of None]
  show ?thesis unfolding sample_execution_def Let_def by fastforce
qed

text \<open>
  C2: the trace of an execution is well formed, however the execution ends and whatever fails on the
  way. Its events are numbered from one without a gap and each passes its validator. The first event,
  and no other, is the start of the run. After the terminal event of a role there is no event of that
  role, so that a role ends at most once. After the workers' close there is only the terminal event of
  the run, which is the last event of the trace and directly follows the workers' close.
\<close>
theorem coordinator_trace_wellformed:
  assumes "ExecuteRun w n extractionAdmitted run as threshold policy = Inr e" "run_inv run"
    and "k < length (ex_trace (ee_execution e))"
  shows "let es = ex_trace (ee_execution e); event = es ! k
    in te_ordinal event = of_nat k + 1 \<and> CoordinatorTraceEvent_validate event = None \<and>
       (te_kind event = CoordinatorEventRunStarted \<longleftrightarrow> k = 0) \<and>
       (\<forall>i < k. te_kind (es ! i) \<noteq> CoordinatorEventRunTerminal \<and>
          \<not> (te_kind (es ! i) = CoordinatorEventRoleTerminal \<and> roleEvent (te_kind event) \<and>
             te_role (es ! i) = te_role event) \<and>
          (te_kind (es ! i) = CoordinatorEventWorkersCloseAuthorized \<longrightarrow>
             i + 1 = k \<and> te_kind event = CoordinatorEventRunTerminal)) \<and>
       (te_kind event = CoordinatorEventRunTerminal \<longrightarrow>
          0 < k \<and> te_kind (es ! (k - 1)) = CoordinatorEventWorkersCloseAuthorized)"
proof -
  let ?es = "ex_trace (ee_execution e)"
  have ok: "trace_ok ?es" using execution_end_inv [OF assms(1,2)] by (simp add: execution_inv_def trace_inv_def)
  show ?thesis using trace_ok_nth [OF ok assms(3)] by (simp add: Let_def)
qed
theorem coordinator_trace_wellformed_witness:
  "\<exists>e. sample_execution = Inr e \<and> ex_trace (ee_execution e) \<noteq> [] \<and>
     te_kind (ex_trace (ee_execution e) ! 0) = CoordinatorEventRunStarted"
proof -
  obtain e where e: "sample_execution = Inr e" "ex_trace (ee_execution e) \<noteq> []"
    using sample_completes by (auto simp: run_over_def)
  have "run_inv sample_run" using run_reachable_inv [OF sample_run_reachable] .
  with coordinator_trace_wellformed [OF e(1) [unfolded sample_execution_def], of 0] e show ?thesis
    by (auto simp: Let_def)
qed

text \<open>
  C3: what the coordinator makes of a worker's outcome before it counts. Whatever was reported, the
  result is valid for the job: an outcome that does not fit the job is an internal failure, a failure
  stays as it is, and an output is either refused as such or kept without any change. It is kept only
  when its evidence is bound to the identity of the run's target and each finding of a severity for
  which the policy asks evidence is verified.
\<close>
theorem outcome_normalised:
  assumes "job_ok j"
  shows "\<exists>r. normalizedOutcome w target j out = Inr r \<and> validFor (w_lower w) (w_letter w) r j \<and>
    (if \<not> validFor (w_lower w) (w_letter w) out j
     then ao_output r = None \<and> ao_condition r = Some AttemptConditionInternalInvariant
     else if ao_output out = None then r = out
     else ao_output r = None \<and>
            (ao_condition r = Some AttemptConditionInvalidEvidenceClaim \<or>
             ao_condition r = Some AttemptConditionInternalInvariant) \<or>
          (\<exists>v. ao_output out = Some v \<and> ao_output r = Some v \<and>
             coordinatorTargetEvidenceBindingCondition (w_lower w) (vo_findings v) (vo_evidence v) target =
               AttemptConditionValidReview \<and>
             (\<forall>f \<in> set (vo_findings v). Requires (co_policy (w_coordinator w)) (f_severity f) \<longrightarrow>
                f_evidenceState f = EvidenceVerified)))"
proof -
  have refusals: "c = AttemptConditionInvalidEvidenceClaim \<or> c = AttemptConditionInternalInvariant"
    if "reduceOutputEvidence w target v = Inl c" for v c
    using that by (auto simp: reduceOutputEvidence_def Let_def coordinatorTargetEvidenceBindingCondition_def
        coordinatorEvidenceIdentityBindingCondition_def split: if_splits sum.splits reduction_error.splits)
  have bound: "coordinatorTargetEvidenceBindingCondition (w_lower w) (vo_findings v) (vo_evidence v) target =
      AttemptConditionValidReview" if "reduceOutputEvidence w target v = Inr v" for v
    using that by (auto simp: reduceOutputEvidence_def Let_def split: if_splits)
  from normalized_exact [OF assms, of w target out] obtain r where
    r: "normalizedOutcome w target j out = Inr r" "validFor (w_lower w) (w_letter w) r j"
    and shape: "if \<not> validFor (w_lower w) (w_letter w) out j
     then ao_output r = None \<and> ao_condition r = Some AttemptConditionInternalInvariant
     else case ao_output out of
       None \<Rightarrow> r = out
     | Some v \<Rightarrow>
         (case reduceOutputEvidence w target v of
            Inl c \<Rightarrow> ao_output r = None \<and> ao_condition r = Some c
          | Inr v' \<Rightarrow> v' = v \<and> ao_output r = Some v \<and> ao_condition r = None)" by blast
  show ?thesis
  proof (intro exI [of _ r] conjI r)
    show "if \<not> validFor (w_lower w) (w_letter w) out j
     then ao_output r = None \<and> ao_condition r = Some AttemptConditionInternalInvariant
     else if ao_output out = None then r = out
     else ao_output r = None \<and>
            (ao_condition r = Some AttemptConditionInvalidEvidenceClaim \<or>
             ao_condition r = Some AttemptConditionInternalInvariant) \<or>
          (\<exists>v. ao_output out = Some v \<and> ao_output r = Some v \<and>
             coordinatorTargetEvidenceBindingCondition (w_lower w) (vo_findings v) (vo_evidence v) target =
               AttemptConditionValidReview \<and>
             (\<forall>f \<in> set (vo_findings v). Requires (co_policy (w_coordinator w)) (f_severity f) \<longrightarrow>
                f_evidenceState f = EvidenceVerified))"
      using shape refusals bound reduce_policy by (auto split: option.splits sum.splits if_splits)
  qed
qed
theorem outcome_normalised_witness:
  "\<exists>r. normalizedOutcome sample_world no_target sample_job no_outcome = Inr r \<and>
     ao_condition r = Some AttemptConditionInternalInvariant"
proof -
  have "\<not> validFor (w_lower sample_world) (w_letter sample_world) no_outcome sample_job"
    by (simp add: validFor_def no_outcome_def)
  with outcome_normalised [OF sample_job_facts(1), of sample_world no_target no_outcome] show ?thesis by auto
qed

text \<open>
  C4: the recovery classifier is total on valid inputs. Its decision passes the decision
  validator, its authority is a function of the durable observation alone, an exit code is
  present exactly for the two terminal statuses, corruption is reported exactly for an ambiguous
  observation or for a journal that claims an effect nobody can observe, and a committed result
  returns the stored exit code unchanged.
\<close>

theorem publication_recovery_total:
  assumes "PublicationClassifierInput_validate i = None"
  shows "\<exists>d. ClassifyPublication i = Inr d \<and> PublicationDecision_validate d = None \<and>
    pd_authority d = observed_authority (pci_observation i) \<and>
    (pd_exitCode d \<noteq> None \<longleftrightarrow> terminal_status (pd_status d)) \<and>
    (pd_status d = PublicationCorrupt \<longleftrightarrow>
       pci_observation i = DurableObservationAmbiguousOrMismatch \<or>
       pci_observation i = DurableObservationP0None \<and> \<not> early_journal (pci_journalState i)) \<and>
    (pd_status d = PublicationCommitted \<longrightarrow> pd_exitCode d = pci_storedNormalExit i)"
  using classify_total [OF assms] by metis

theorem publication_recovery_total_witness:
  "PublicationClassifierInput_validate sample_p2 = None \<and>
   (\<exists>d. ClassifyPublication sample_p2 = Inr d \<and> pd_authority d = PublicationAuthorityP2)"
proof -
  have v: "PublicationClassifierInput_validate sample_p2 = None" by code_simp
  show ?thesis using v publication_recovery_total [OF v] by (auto simp: sample_p2_def)
qed

text \<open>
  C5: the decision validator accepts exactly the decisions that the classifier can produce, so
  that the constructor of decisions admits no combination of status, authority, recovery action,
  exit code and reasons outside the recovery matrix.
\<close>

theorem publication_matrix_exact:
  "PublicationDecision_validate d = None \<longleftrightarrow>
     (\<exists>i. PublicationClassifierInput_validate i = None \<and> ClassifyPublication i = Inr d)"
proof
  assume "\<exists>i. PublicationClassifierInput_validate i = None \<and> ClassifyPublication i = Inr d"
  then obtain i where "PublicationClassifierInput_validate i = None" "ClassifyPublication i = Inr d"
    by blast
  then show "PublicationDecision_validate d = None"
    by (auto elim: classify_total)
qed (rule decision_reachable)

text \<open>
  C6: the reduction of simultaneous attempt conditions succeeds exactly on a non-empty list of
  known conditions, and then selects the earliest of those with the strongest precedence.
\<close>

theorem strongest_condition_selected:
  "is_ok (ReduceAttemptConditions cs) = (cs \<noteq> [] \<and> list_all AttemptCondition_Valid cs) \<and>
   (\<forall>c. ReduceAttemptConditions cs = Inr c \<longrightarrow>
     (\<exists>pre post. cs = pre @ c # post \<and>
       (\<forall>d \<in> set pre. condition_precedence c < condition_precedence d) \<and>
       (\<forall>d \<in> set cs. condition_precedence c \<le> condition_precedence d)))"
  using ReduceAttemptConditions_ok [of cs] ReduceAttemptConditions_Inr [of cs]
  by (simp add: list_all_iff)

theorem strongest_condition_selected_witness:
  "\<exists>pre post. [AttemptConditionTimeout, AttemptConditionCancelled, AttemptConditionQuota] =
     pre @ AttemptConditionCancelled # post"
proof -
  have "ReduceAttemptConditions [AttemptConditionTimeout, AttemptConditionCancelled,
      AttemptConditionQuota] = Inr AttemptConditionCancelled" by code_simp
  then show ?thesis
    using strongest_condition_selected [of "[AttemptConditionTimeout, AttemptConditionCancelled,
      AttemptConditionQuota]"] by blast
qed

text \<open>
  C7: a transition decision exists exactly for a known condition. It decides the condition or,
  when that is weaker, the observed cancellation; it schedules at most one of repair and retry,
  none of them after either was used and none after a cancellation; it is terminal exactly when
  it schedules nothing, cancels the run exactly for the cancelling conditions, marks a provider
  unusable only for a provider fault and succeeds exactly for a valid review.
\<close>

theorem transition_decision_sound:
  "is_ok (DecideTransition inp) = AttemptCondition_Valid (ti_Condition inp) \<and>
   (\<forall>d. DecideTransition inp = Inr d \<longrightarrow>
     TransitionDecision_validate d = None \<and>
     td_condition d = effective_condition inp \<and>
     td_reasonCode d = AttemptCondition_string (effective_condition inp) \<and>
     \<not> (td_scheduleRepair d \<and> td_scheduleRetry d) \<and>
     (td_scheduleRepair d \<or> td_scheduleRetry d \<longrightarrow>
        \<not> ti_RepairUsed inp \<and> \<not> ti_RetryUsed inp \<and> \<not> ti_CancellationObserved inp) \<and>
     (TransitionDecision_Terminal d \<longleftrightarrow> \<not> (td_scheduleRepair d \<or> td_scheduleRetry d)) \<and>
     (td_cancelRun d \<longleftrightarrow> cancelling (effective_condition inp)) \<and>
     (td_providerUnusable d \<longrightarrow> FailureClass_ProviderFault (td_terminalClass d)) \<and>
     (td_terminalProjection d = TerminalProjectionSucceeded \<longleftrightarrow>
        effective_condition inp = AttemptConditionValidReview))"
proof (intro conjI allI impI)
  show "is_ok (DecideTransition inp) = AttemptCondition_Valid (ti_Condition inp)"
    using DecideTransition_rejects [of inp] DecideTransition_total [of inp] by (auto simp: is_ok_iff)
next
  fix d assume "DecideTransition inp = Inr d"
  from DecideTransition_sound [OF this] obtain row
    where row: "lookupTransitionPolicy (effective_condition inp) = Some row"
      and sound: "decision_sound row (ti_RepairUsed inp) (ti_RetryUsed inp) d" by blast
  note c = lookup_Some [OF row] and s = sound [unfolded decision_sound_def]
  show "TransitionDecision_validate d = None" "td_condition d = effective_condition inp"
    "td_reasonCode d = AttemptCondition_string (effective_condition inp)"
    "td_cancelRun d \<longleftrightarrow> cancelling (effective_condition inp)"
    "TransitionDecision_Terminal d \<longleftrightarrow> \<not> (td_scheduleRepair d \<or> td_scheduleRetry d)"
    "td_terminalProjection d = TerminalProjectionSucceeded \<longleftrightarrow>
        effective_condition inp = AttemptConditionValidReview"
    using s c by simp_all
  show "\<not> (td_scheduleRepair d \<and> td_scheduleRetry d)" using s by auto
  show "FailureClass_ProviderFault (td_terminalClass d)" if "td_providerUnusable d" using s that by simp
  assume sched: "td_scheduleRepair d \<or> td_scheduleRetry d"
  then show "\<not> ti_RepairUsed inp" "\<not> ti_RetryUsed inp" using s by auto
  have "schedules (row_action row)" using s sched by (auto simp: schedules_def)
  then show "\<not> ti_CancellationObserved inp" using cancellation_dominates [OF row] by blast
qed

theorem transition_decision_sound_witness:
  "\<exists>d. DecideTransition sample_transition = Inr d \<and> td_cancelRun d \<and>
     \<not> td_scheduleRepair d \<and> \<not> td_scheduleRetry d"
proof -
  have "AttemptCondition_Valid (ti_Condition sample_transition)"
    and e: "cancelling (effective_condition sample_transition)"
    and "ti_CancellationObserved sample_transition" by code_simp+
  with transition_decision_sound [of sample_transition] show ?thesis by (auto simp: is_ok_iff)
qed

text \<open>
  C8: every attempt that the constructor and the six mutators can produce satisfies the attempt
  invariant. In particular it has one or two invocations; one that is validating, repairing or
  succeeded holds a succeeded report, and one that succeeded has no invocation in flight.
\<close>

theorem reachable_attempt_evidence:
  assumes "attempt_reachable a"
  shows "attempt_inv a \<and> length (att_invocations a) \<in> {1, 2} \<and>
    (att_state a = AttemptSucceeded \<longrightarrow>
       (\<exists>r. latestReportInvocation (att_invocations a) = Some r \<and>
            r \<in> set (att_invocations a) \<and> inv_state r = InvocationSucceeded) \<and>
       (\<forall>i \<in> set (att_invocations a). terminalInvocationState (inv_state i)))"
proof -
  have inv: "attempt_inv a" by (rule attempt_reachable_inv [OF assms])
  then have shape: "attempt_shape (att_state a) (att_invocations a)" by (simp add: attempt_inv_def)
  show ?thesis
    using inv shape
    by (cases rule: attempt_shape_cases [OF shape])
      (auto simp: latestReportInvocation_def InvocationPurpose_CarriesRoleReport_def inv_at_def
        terminalInvocationState_def InvocationState_Valid_def)
qed

theorem reachable_attempt_evidence_witness:
  "length (att_invocations sample_attempt) \<in> {1, 2} \<and> att_state sample_attempt = AttemptQueued"
  using reachable_attempt_evidence [OF sample_attempt_reachable] by (simp add: sample_attempt_def)

text \<open>
  C9: an attempt has a bounded history. From the constructor on at most twelve mutations
  succeed, whatever the caller asks for and in whatever order.
\<close>

theorem attempt_history_bounded:
  assumes "NewAttempt i provider initial = Inr a" "\<not> inv_artifacts initial"
    and "\<forall>op \<in> set ops. op_fresh op" "attempt_run ops a = Inr a'"
  shows "length ops \<le> 12"
proof -
  have "length ops + attempt_rank a' \<le> attempt_rank a"
    using attempt_run_rank [OF assms(4) NewAttempt_inv [OF assms(1,2)] assms(3)] by simp
  with new_attempt_rank [OF assms(1)] show ?thesis by simp
qed

theorem attempt_history_bounded_witness:
  "length sample_repair_history = 12 \<and> length sample_repair_history \<le> 12 \<and>
   is_ok (attempt_run sample_repair_history sample_attempt)"
proof -
  have ok: "is_ok (attempt_run sample_repair_history sample_attempt)" by code_simp
  then obtain a' where run: "attempt_run sample_repair_history sample_attempt = Inr a'"
    unfolding is_ok_iff by blast
  have "\<forall>op \<in> set sample_repair_history. op_fresh op"
    by (simp add: sample_repair_history_def sample_invocation_def)
  from attempt_history_bounded [OF sample_attempt_new _ this run]
  have "length sample_repair_history \<le> 12" by (simp add: sample_invocation_def)
  with ok show ?thesis by (simp add: sample_repair_history_def)
qed

text \<open>
  C10: on a reachable attempt no mutator indexes the invocation slice out of range, and a
  succeeded attempt is frozen: every mutation of it is an error.
\<close>

theorem attempt_mutations_safe:
  assumes "attempt_reachable a"
  shows "attempt_apply op a \<noteq> Inl AttemptIndexPanic \<and>
    (att_state a = AttemptSucceeded \<longrightarrow> \<not> is_ok (attempt_apply op a))"
  using attempt_no_panic attempt_success_final attempt_reachable_inv [OF assms] by blast

theorem attempt_mutations_safe_witness:
  "\<exists>a. attempt_run sample_repair_history sample_attempt = Inr a \<and> att_state a = AttemptSucceeded \<and>
     \<not> is_ok (attempt_apply (OpTransition AttemptFailed) a)"
proof -
  have "case attempt_run sample_repair_history sample_attempt of
      Inl e \<Rightarrow> False | Inr a \<Rightarrow> att_state a = AttemptSucceeded" by code_simp
  then obtain a where run: "attempt_run sample_repair_history sample_attempt = Inr a"
    and final: "att_state a = AttemptSucceeded" by (auto split: sum.splits)
  have "\<forall>op \<in> set sample_repair_history. op_fresh op"
    by (simp add: sample_repair_history_def sample_invocation_def)
  from attempt_mutations_safe [OF attempt_run_reachable [OF sample_attempt_reachable this run]]
  show ?thesis using run final by blast
qed

text \<open>
  C11: every run that the constructors and the two mutators can produce is well formed. Its roles
  are known, distinct and in the fixed order, required floor roles stay required, a child run and
  only a child run has a parent and a source, both different from itself, a completed run has
  only succeeded tasks, and a degraded run has every task finished, every required one succeeded
  and some optional one not.
\<close>

theorem reachable_run_wellformed:
  assumes "run_reachable run"
  shows "run_inv run \<and> sorted (map (rolePosition \<circ> task_role) (run_roles run)) \<and>
    distinct (map task_role (run_roles run)) \<and>
    (run_hasParent run \<longleftrightarrow> run_runType run \<noteq> RunTypeReview) \<and>
    (run_hasParent run \<longrightarrow> run_id run \<notin> {run_parentRunID run, run_sourceRunID run}) \<and>
    (run_state run = RunCompleted \<longrightarrow>
       (\<forall>t \<in> set (run_roles run). task_state t = RoleTaskSucceeded)) \<and>
    (run_state run = RunDegraded \<longrightarrow>
       (\<forall>t \<in> set (run_roles run). roleTaskTerminal (task_state t) \<and>
          (task_required t \<longrightarrow> task_state t = RoleTaskSucceeded)) \<and>
       (\<exists>t \<in> set (run_roles run). \<not> task_required t \<and> task_state t \<noteq> RoleTaskSucceeded))"
proof -
  have inv: "run_inv run" by (rule run_reachable_inv [OF assms])
  then have ids: "run_lineage_ok run" and roles: "canonical_roles (run_roles run)"
    and progress: "run_progress_ok run"
    by (simp_all add: run_inv_def run_roles_ok_def)
  have sorted: "sorted (map (rolePosition \<circ> task_role) (run_roles run))"
    using roles unfolding canonical_roles_def sorted_wrt_map comp_def
    by (auto intro: sorted_wrt_mono_rel [rotated])
  show ?thesis
    using inv sorted canonical_roles_distinct [OF roles] ids progress
    by (simp add: run_lineage_ok_def run_progress_ok_def degraded_scan_None)
qed

theorem reachable_run_wellformed_witness:
  "\<exists>run. run_moves sample_moves sample_run = Inr run \<and> run_state run = RunDegraded \<and>
     (\<exists>t \<in> set (run_roles run). \<not> task_required t \<and> task_state t \<noteq> RoleTaskSucceeded)"
proof -
  have "case run_moves sample_moves sample_run of
      Inl e \<Rightarrow> False | Inr run \<Rightarrow> run_state run = RunDegraded" by code_simp
  then obtain run where run: "run_moves sample_moves sample_run = Inr run"
    and final: "run_state run = RunDegraded" by (auto split: sum.splits)
  from reachable_run_wellformed [OF run_moves_reachable [OF sample_run_reachable run]]
  show ?thesis using run final by blast
qed

text \<open>
  C12: a running run can end as completed exactly when all its tasks succeeded and as degraded
  exactly when all are finished, the required ones succeeded and an optional one did not; never
  both, and one of the two whenever all tasks are finished and the required ones succeeded.
\<close>

theorem run_endings_exclusive:
  assumes "run_state run = RunRunning"
  shows "is_ok (Run_Transition (Some run) RunCompleted) =
      list_all (\<lambda>t. task_state t = RoleTaskSucceeded) (run_roles run) \<and>
    \<not> (is_ok (Run_Transition (Some run) RunCompleted) \<and>
       is_ok (Run_Transition (Some run) RunDegraded)) \<and>
    (is_ok (Run_Transition (Some run) RunCompleted) \<or>
       is_ok (Run_Transition (Some run) RunDegraded)) =
      (list_all (\<lambda>t. roleTaskTerminal (task_state t)) (run_roles run) \<and>
       list_all (\<lambda>t. task_state t = RoleTaskSucceeded) (filter task_required (run_roles run)))"
proof (intro conjI)
  have c: "is_ok (Run_Transition (Some run) RunCompleted) \<longleftrightarrow>
      (\<forall>t \<in> set (run_roles run). task_state t = RoleTaskSucceeded)"
    using assms by (auto simp: is_ok_iff Run_Transition_Inr run_guard_def simp del: Run_Transition.simps)
  have d: "is_ok (Run_Transition (Some run) RunDegraded) \<longleftrightarrow>
      degraded_scan False (run_roles run) = None"
    using assms by (auto simp: is_ok_iff Run_Transition_Inr run_guard_def simp del: Run_Transition.simps)
  have e: "roleTaskTerminal RoleTaskSucceeded" by (simp add: roleTaskTerminal_def)
  show "is_ok (Run_Transition (Some run) RunCompleted) =
      list_all (\<lambda>t. task_state t = RoleTaskSucceeded) (run_roles run)"
    unfolding c list_all_iff ..
  show "\<not> (is_ok (Run_Transition (Some run) RunCompleted) \<and>
            is_ok (Run_Transition (Some run) RunDegraded))"
    unfolding c d degraded_scan_None by blast
  show "(is_ok (Run_Transition (Some run) RunCompleted) \<or>
          is_ok (Run_Transition (Some run) RunDegraded)) =
         (list_all (\<lambda>t. roleTaskTerminal (task_state t)) (run_roles run) \<and>
          list_all (\<lambda>t. task_state t = RoleTaskSucceeded) (filter task_required (run_roles run)))"
    unfolding c d degraded_scan_None list_all_iff using e by auto
qed

theorem run_endings_exclusive_witness:
  "\<exists>run. run_moves (butlast sample_moves) sample_run = Inr run \<and>
     \<not> is_ok (Run_Transition (Some run) RunCompleted) \<and>
     is_ok (Run_Transition (Some run) RunDegraded)"
proof -
  have "case run_moves (butlast sample_moves) sample_run of
      Inl e \<Rightarrow> False | Inr run \<Rightarrow> run_state run = RunRunning \<and>
        is_ok (Run_Transition (Some run) RunDegraded)" by code_simp
  then obtain run where "run_moves (butlast sample_moves) sample_run = Inr run"
    and running: "run_state run = RunRunning"
    and "is_ok (Run_Transition (Some run) RunDegraded)" by (auto split: sum.splits)
  with run_endings_exclusive [OF running] show ?thesis by blast
qed

text \<open>
  C13: the exit reduction succeeds exactly on a non-empty list of valid reasons; it keeps all
  reasons in their order, selects the code of one of them that no other reason outranks, and any
  list with the same reasons, in whatever order or multiplicity, selects the same code.
\<close>

theorem operational_exit_strongest:
  "is_ok (ReduceOperationalExit rs) =
     (rs \<noteq> [] \<and> list_all (\<lambda>r. ExitReason_validate r = None) rs) \<and>
   (\<forall>d. ReduceOperationalExit rs = Inr d \<longrightarrow>
     oed_reasons d = rs \<and> oed_code d \<in> er_code ` set rs \<and>
     (\<forall>r \<in> set rs. exit_priority (er_code r) \<le> exit_priority (oed_code d)) \<and>
     (\<forall>rs'. set rs' = set rs \<longrightarrow>
        map_sum id oed_code (ReduceOperationalExit rs') = Inr (oed_code d)))"
proof (intro conjI allI impI)
  have ok: "is_ok (ReduceOperationalExit xs) =
     (xs \<noteq> [] \<and> (\<forall>r \<in> set xs. ExitReason_validate r = None))" for xs
    unfolding validate_exit_reasons_None [of 0, symmetric]
    by (auto simp: ReduceOperationalExit_def OperationalExitInput_validate_def split: option.splits)
  show "is_ok (ReduceOperationalExit rs) =
     (rs \<noteq> [] \<and> list_all (\<lambda>r. ExitReason_validate r = None) rs)"
    by (simp add: ok list_all_iff)
  fix d assume d: "ReduceOperationalExit rs = Inr d"
  note D = ReduceOperationalExit_Inr [OF d]
  show "oed_reasons d = rs" "oed_code d \<in> er_code ` set rs"
    "\<forall>r \<in> set rs. exit_priority (er_code r) \<le> exit_priority (oed_code d)" by (fact D)+
  fix rs' assume eq: "set rs' = set rs"
  have "is_ok (ReduceOperationalExit rs')"
    using ok [of rs] ok [of rs'] d eq by (auto simp: is_ok_iff)
  then obtain d' where d': "ReduceOperationalExit rs' = Inr d'" by (auto simp: is_ok_iff)
  with ReduceOperationalExit_perm [OF d d'] eq
  show "map_sum id oed_code (ReduceOperationalExit rs') = Inr (oed_code d)" by simp
qed

theorem operational_exit_strongest_witness:
  "map_sum id oed_code (ReduceOperationalExit
      [\<lparr>er_code = ExitArtifactFailure, er_reasonCode = ''b''\<rparr>,
       \<lparr>er_code = ExitCommittedPass, er_reasonCode = ''a''\<rparr>]) = Inr ExitArtifactFailure"
proof -
  let ?rs = "[\<lparr>er_code = ExitCommittedPass, er_reasonCode = ''a''\<rparr>,
    \<lparr>er_code = ExitArtifactFailure, er_reasonCode = ''b''\<rparr>]"
  have "ReduceOperationalExit ?rs = Inr \<lparr>oed_code = ExitArtifactFailure, oed_reasons = ?rs\<rparr>"
    by code_simp
  moreover have "set (rev ?rs) = set ?rs" by (rule set_rev)
  ultimately show ?thesis using operational_exit_strongest [of ?rs] by (auto simp: insert_commute)
qed

text \<open>
  C14: an eligible preflight is exact and within every ceiling. The canonical roles are known and
  distinct with valid routes and positive timeouts; each path, the invocation total, the critical
  path and the run deadline are the unbounded integers they stand for, so that no addition or
  multiplication wrapped around; and each is at most its ceiling.
\<close>

theorem eligible_budget_exact:
  assumes "PreflightRunBudgetWithCapacity roles c lanes = (r, None)"
  shows "rc_eligible r \<and> rc_roles r = canonicalRoleBudgets roles \<and>
    validateRoleSelection (rc_roles r) = BudgetReasonEligible \<and>
    receipt_exact r \<and> receipt_bounded r"
  by (intro conjI eligible_receipt [OF assms])

theorem eligible_budget_exact_witness:
  "\<exists>r. PreflightRunBudgetWithCapacity sample_budget DefaultHarnessCeilings 2 = (r, None) \<and>
     receipt_exact r \<and> receipt_bounded r"
proof -
  have "snd (PreflightRunBudgetWithCapacity sample_budget DefaultHarnessCeilings 2) = None"
    by code_simp
  then obtain r where r: "PreflightRunBudgetWithCapacity sample_budget DefaultHarnessCeilings 2 = (r, None)"
    by (metis prod.collapse)
  with eligible_budget_exact [OF r] show ?thesis by blast
qed

text \<open>
  C15: the run deadline of an eligible receipt is sufficient. However the role paths are ordered,
  running each as soon as one of the admitted lanes is free finishes all of them, with the run
  grace on top, by the deadline that the receipt promises.
\<close>

theorem eligible_budget_schedulable:
  assumes "PreflightRunBudgetWithCapacity roles c (int n) = (r, None)"
    and "mset ds = mset (map rp_deadline (rc_rolePaths r))"
  shows "greedy_makespan n ds + budgetRunGrace \<le> rc_runDeadline r \<and>
    rc_runDeadline r \<le> hc_maxRunDeadline c"
  using eligible_schedule [OF assms] eligible_receipt(2,7) [OF assms(1)]
  by (simp add: receipt_bounded_def Let_def)

theorem eligible_budget_schedulable_witness:
  "\<exists>r. PreflightRunBudgetWithCapacity sample_budget DefaultHarnessCeilings (int 2) = (r, None) \<and>
     greedy_makespan 2 (rev (map rp_deadline (rc_rolePaths r))) + budgetRunGrace \<le> rc_runDeadline r"
proof -
  have "snd (PreflightRunBudgetWithCapacity sample_budget DefaultHarnessCeilings (int 2)) = None"
    by code_simp
  then obtain r where
    r: "PreflightRunBudgetWithCapacity sample_budget DefaultHarnessCeilings (int 2) = (r, None)"
    by (metis prod.collapse)
  have "mset (rev (map rp_deadline (rc_rolePaths r))) = mset (map rp_deadline (rc_rolePaths r))"
    by (rule mset_rev)
  from eligible_budget_schedulable [OF r this] r show ?thesis by blast
qed

text \<open>
  C16: the outcome axes. Changes are requested exactly when a finding reaches the threshold, which is
  high by default; findings below it, reports without structure and no findings are told apart. The
  coverage is incomplete exactly when a role that is required, the logic role or a selected one has no
  valid result, and otherwise degraded exactly when a selected role is. CI fails exactly when changes
  are requested, the coverage is degraded or it is incomplete and the policy makes that fail; without a
  policy each of them fails. The publication status passes through.
\<close>

theorem outcome_axes_exact:
  assumes "ComputeOutcomeAxes ul findings results threshold publication policy = Inr axes"
  shows "ax_content axes =
      (if \<exists>f \<in> set findings. Severity_Rank (if threshold = SeverityOther '''' then SeverityHigh else threshold)
            \<le> Severity_Rank (f_severity f)
         then ContentRequestChanges
       else if findings \<noteq> [] then ContentFindingsPresent
       else if \<exists>r \<in> set results. rr_Selected r \<and> rr_Valid r \<and> rr_ReportsOnly r
         then ContentReportsOnly
       else ContentNoFindings) \<and>
    ax_coverage axes =
      (if \<exists>r \<in> set results. (rr_Required r \<or> rr_Role r = RoleLogic \<or> rr_Selected r) \<and> \<not> (rr_Selected r \<and> rr_Valid r)
         then CoverageIncomplete
       else if \<exists>r \<in> set results. rr_Selected r \<and> rr_Degraded r then CoverageDegraded
       else CoverageComplete) \<and>
    ax_ci axes =
      (if ax_content axes = ContentRequestChanges \<and> (case policy of None \<Rightarrow> True | Some p \<Rightarrow> ci_RequestChangesFails p) \<or>
          ax_coverage axes = CoverageDegraded \<and> (case policy of None \<Rightarrow> True | Some p \<Rightarrow> ci_DegradedReviewFails p) \<or>
          ax_coverage axes = CoverageIncomplete \<and> (case policy of None \<Rightarrow> True | Some p \<Rightarrow> ci_IncompleteReviewFails p)
       then CIFail else CIPass) \<and>
    ax_publication axes = publication \<and>
    (\<forall>f \<in> set findings. Finding_Validate ul f = None) \<and>
    distinct (map rr_Role results) \<and> (\<forall>r \<in> set results. Role_Valid (rr_Role r))"
proof -
  note A = assms [unfolded ComputeOutcomeAxes_Inr]
  have "(\<exists>r \<in> set results. unsatisfied r) \<longleftrightarrow>
      (\<exists>r \<in> set results. (rr_Required r \<or> rr_Role r = RoleLogic \<or> rr_Selected r) \<and> \<not> (rr_Selected r \<and> rr_Valid r))"
    by (auto simp: unsatisfied_def)
  then have "ax_coverage axes = (if \<exists>r \<in> set results. (rr_Required r \<or> rr_Role r = RoleLogic \<or> rr_Selected r) \<and>
        \<not> (rr_Selected r \<and> rr_Valid r) then CoverageIncomplete
      else if \<exists>r \<in> set results. rr_Selected r \<and> rr_Degraded r then CoverageDegraded else CoverageComplete)"
    using A by (simp add: coverage_of_def)
  moreover have "ax_ci axes = (if ax_content axes = ContentRequestChanges \<and> (case policy of None \<Rightarrow> True | Some p \<Rightarrow> ci_RequestChangesFails p) \<or>
          ax_coverage axes = CoverageDegraded \<and> (case policy of None \<Rightarrow> True | Some p \<Rightarrow> ci_DegradedReviewFails p) \<or>
          ax_coverage axes = CoverageIncomplete \<and> (case policy of None \<Rightarrow> True | Some p \<Rightarrow> ci_IncompleteReviewFails p)
       then CIFail else CIPass)"
    using A by (simp add: ci_decision_def DefaultCIPolicy_def split: option.split)
  moreover have "ax_content axes =
      (if \<exists>f \<in> set findings. Severity_Rank (if threshold = SeverityOther '''' then SeverityHigh else threshold)
            \<le> Severity_Rank (f_severity f)
         then ContentRequestChanges
       else if findings \<noteq> [] then ContentFindingsPresent
       else if \<exists>r \<in> set results. rr_Selected r \<and> rr_Valid r \<and> rr_ReportsOnly r
         then ContentReportsOnly
       else ContentNoFindings)"
    using A by (simp add: content_verdict_eq effective_threshold_def)
  moreover have "ax_publication axes = publication" using A by simp
  ultimately show ?thesis using A by blast
qed

theorem outcome_axes_exact_witness:
  "\<exists>axes. ComputeOutcomeAxes (\<lambda>s. s) [] [sample_result RoleLogic True] (SeverityOther '''')
       PublicationCommitted None = Inr axes \<and>
     ax_content axes = ContentNoFindings \<and> ax_ci axes = CIFail \<and> ax_coverage axes = CoverageDegraded"
proof -
  have "is_ok (ComputeOutcomeAxes (\<lambda>s. s) [] [sample_result RoleLogic True] (SeverityOther '''')
       PublicationCommitted None)" by code_simp
  then obtain axes where a: "ComputeOutcomeAxes (\<lambda>s. s) [] [sample_result RoleLogic True]
       (SeverityOther '''') PublicationCommitted None = Inr axes" by (auto simp: is_ok_iff)
  with outcome_axes_exact [OF a] show ?thesis by (simp add: sample_result_def)
qed

text \<open>
  C17: a finding that the constructor accepts passes its own validator when the rule category and
  the evidence region are ASCII: its path is canonical, its texts are present, its rule and region
  are in normal form and its fingerprint is the hash of the three.
\<close>

theorem new_finding_valid:
  assumes "NewFinding ul inp = Inr f"
    and "ascii (fi_NormalizedRuleCategory inp)" "ascii (fi_NormalizedEvidenceRegion inp)"
  shows "Finding_Validate ul f = None \<and> safe_path (f_path f) \<and> f_path f = fi_Path inp"
  using new_finding_validates [OF assms] NewFinding_Inr(1) [OF assms(1)]
    normalizeFindingPath_safe by metis

theorem new_finding_valid_witness:
  "Finding_Validate (\<lambda>s. s) sample_finding = None \<and> safe_path (f_path sample_finding) \<and>
     f_path sample_finding = ''internal/app/main.go''"
proof -
  have "fi_Path sample_input = ''internal/app/main.go''" by (simp add: sample_input_def)
  with new_finding_valid [OF sample_finding_new sample_input_ascii] show ?thesis by metis
qed

text \<open>
  C18: ordering succeeds exactly on valid findings. The result is a permutation of the input up
  to the identifiers, sorted by the severity-first key, and numbered in that order, so that the
  identifiers are distinct.
\<close>

theorem ordered_findings_exact:
  "is_ok (OrderAndAssignFindings ul inp) = list_all (\<lambda>f. Finding_Validate ul f = None) inp \<and>
   (\<forall>out. OrderAndAssignFindings ul inp = Inr out \<longrightarrow>
     mset (map clear_id out) = mset (map clear_id inp) \<and> sorted (map finding_key out) \<and>
     map f_id out = map final_id [0..<length out] \<and> distinct (map f_id out))"
proof (intro conjI allI impI)
  show "is_ok (OrderAndAssignFindings ul inp) = list_all (\<lambda>f. Finding_Validate ul f = None) inp"
    by (simp add: OrderAndAssignFindings_ok_iff list_all_iff)
  fix out assume out: "OrderAndAssignFindings ul inp = Inr out"
  note O = OrderAndAssignFindings_ordered [OF out, unfolded ordered_findings_def]
  show "mset (map clear_id out) = mset (map clear_id inp)" "sorted (map finding_key out)"
    using O by simp_all
  show "map f_id out = map final_id [0..<length out]"
    using O by (intro nth_equalityI) simp_all
  show "distinct (map f_id out)"
    using out final_ids_distinct by (auto simp: OrderAndAssignFindings_def early_return)
qed

theorem ordered_findings_exact_witness:
  "\<exists>out. OrderAndAssignFindings (\<lambda>s. s) [sample_finding, sample_finding] = Inr out \<and>
     map f_id out = [''F001'', ''F002'']"
proof -
  note O = ordered_findings_exact [of "\<lambda>s. s" "[sample_finding, sample_finding]"]
  obtain out where out: "OrderAndAssignFindings (\<lambda>s. s) [sample_finding, sample_finding] = Inr out"
    using O sample_finding_valid by (auto simp: is_ok_iff)
  with O have ids: "map f_id out = map final_id [0..<length out]"
    and perm: "mset (map clear_id out) = mset (map clear_id [sample_finding, sample_finding])"
    by blast+
  have "length out = 2" using mset_eq_length [OF perm] by simp
  moreover have "map final_id [0..<2] = [''F001'', ''F002'']" by code_simp
  ultimately show ?thesis using out ids by simp
qed

text \<open>
  C19: the fingerprint of a valid finding is the SHA-256 digest, in lower-case hexadecimal, of an
  encoding of its rule, path and region that no other triple has: findings that disagree in one
  of the three are hashed from different texts.
\<close>

theorem finding_fingerprint_injective_encoding:
  assumes "Finding_Validate ul f = None" "Finding_Validate ul' g = None"
    and "list_all sized [f_normalizedRuleCategory f, f_path f, f_normalizedEvidenceRegion f]"
    and "list_all sized [f_normalizedRuleCategory g, f_path g, f_normalizedEvidenceRegion g]"
  shows "\<exists>m n. f_fingerprint f = sha256_hex m \<and> f_fingerprint g = sha256_hex n \<and>
    (m = n \<longleftrightarrow> f_normalizedRuleCategory f = f_normalizedRuleCategory g \<and> f_path f = f_path g \<and>
       f_normalizedEvidenceRegion f = f_normalizedEvidenceRegion g)"
proof (intro exI conjI)
  show "f_fingerprint f = sha256_hex (frames
      [f_normalizedRuleCategory f, f_path f, f_normalizedEvidenceRegion f])"
    "f_fingerprint g = sha256_hex (frames
      [f_normalizedRuleCategory g, f_path g, f_normalizedEvidenceRegion g])"
    using assms(1,2) unfolding Finding_Validate_None fingerprint_def by blast+
qed (use fingerprint_preimage [OF _ assms(3,4)] in \<open>auto simp del: frames_simps\<close>)

theorem finding_fingerprint_injective_encoding_witness:
  "\<exists>m. f_fingerprint sample_finding = sha256_hex m"
proof -
  have "f_normalizedRuleCategory sample_finding = ''lost update''"
    "f_path sample_finding = ''internal/app/main.go''"
    "f_normalizedEvidenceRegion sample_finding = ''run''"
  proof -
    have "normalizeFingerprintText (\<lambda>s. s) (fi_NormalizedRuleCategory sample_input) = ''lost update''"
      "normalizeFingerprintText (\<lambda>s. s) (fi_NormalizedEvidenceRegion sample_input) = ''run''"
      by code_simp+
    with NewFinding_Inr(1-3) [OF sample_finding_new] normalizeFindingPath_safe
    show "f_normalizedRuleCategory sample_finding = ''lost update''"
      "f_path sample_finding = ''internal/app/main.go''"
      "f_normalizedEvidenceRegion sample_finding = ''run''"
      by (fastforce simp: sample_input_def)+
  qed
  then have sized: "list_all sized [f_normalizedRuleCategory sample_finding, f_path sample_finding,
      f_normalizedEvidenceRegion sample_finding]"
    by (simp add: sized_def)
  from finding_fingerprint_injective_encoding [OF sample_finding_valid sample_finding_valid sized sized]
  show ?thesis by blast
qed

text \<open>
  C20: the composition fingerprint of a root run and its selected sources exists exactly for one
  to seven complete sources with distinct roles, and does not depend on their order.
\<close>

theorem composition_fingerprint_canonical:
  assumes "mset xs = mset ys"
  shows "is_ok (compositionFingerprint root recovery xs) =
      (RunID_String root \<noteq> '''' \<and> xs \<noteq> [] \<and> length xs \<le> length FixedRoleOrder \<and>
       list_all source_complete xs \<and> distinct (map cs_role xs)) \<and>
    (compositionFingerprint root recovery xs = Inr f \<longleftrightarrow>
      compositionFingerprint root recovery ys = Inr f)"
proof
  show "compositionFingerprint root recovery xs = Inr f \<longleftrightarrow>
      compositionFingerprint root recovery ys = Inr f"
    using compositionFingerprint_permutation [OF _ assms]
      compositionFingerprint_permutation [OF _ assms [symmetric]] by blast
qed (rule compositionFingerprint_accepts)

theorem composition_fingerprint_canonical_witness:
  "\<exists>f. compositionFingerprint sample_root '''' [sample_source RoleTesting, sample_source RoleLogic] = Inr f \<and>
     compositionFingerprint sample_root '''' [sample_source RoleLogic, sample_source RoleTesting] = Inr f"
proof -
  have "mset [sample_source RoleTesting, sample_source RoleLogic] =
      mset [sample_source RoleLogic, sample_source RoleTesting]" by simp
  from composition_fingerprint_canonical [OF this, of sample_root "''''"]
  show ?thesis using sample_composition_accepted by (auto simp: is_ok_iff)
qed

text \<open>
  C21: two path checks against what a path inside the repository is: names that are not empty, not dot
  and not dot-dot, separated by slashes, without backslash, null, carriage return and line feed. The check of finding
  paths accepts exactly these texts and returns them as they are. The check of artifact references
  accepts those of at most 4096 bytes and, in addition, the single text dot-dot, which names the parent
  directory and which the check of finding paths rejects.
\<close>

theorem diagnostic_path_accepts_parent:
  "(normalizeFindingPath v = Inr w \<longleftrightarrow>
      w = v \<and> set (split_on (CHR ''/'') v) \<inter> {'''', ''.'', ''..''} = {} \<and>
      set v \<inter> {CHR 0x5C, CHR 0x00, CHR 0x0D, CHR 0x0A} = {}) \<and>
   (validDiagnosticPath v \<longleftrightarrow>
      v = ''..'' \<or> length v \<le> 4096 \<and> set (split_on (CHR ''/'') v) \<inter> {'''', ''.'', ''..''} = {} \<and>
        set v \<inter> {CHR 0x5C, CHR 0x00, CHR 0x0D, CHR 0x0A} = {}) \<and>
   validDiagnosticPath ''..'' \<and> \<not> is_ok (normalizeFindingPath ''..'')"
proof -
  have safe: "safe_path v \<longleftrightarrow> set (split_on (CHR ''/'') v) \<inter> {'''', ''.'', ''..''} = {} \<and>
      set v \<inter> {CHR 0x5C, CHR 0x00, CHR 0x0D, CHR 0x0A} = {}" for v
    unfolding safe_path_def proper_component_def list_all_iff by blast
  have "split_on (CHR ''/'') ''..'' = [''..'']" by code_simp
  then have "\<not> safe_path ''..''" by (simp add: safe_path_def proper_component_def)
  then show ?thesis
    unfolding validDiagnosticPath_iff is_ok_iff normalizeFindingPath_iff safe [symmetric] by blast
qed

text \<open>
  C22: accepted evidence quotes the source. When the claims were verified and the findings reduced
  under a policy that is not structural, every finding keeps its content, those of high severity and
  above are verified, and each claim of a verified finding quotes exactly the lines that the verifier
  read at the path, side and range the claim names.
\<close>

theorem evidence_accepted_quotes_source:
  assumes verified: "VerifyValidatedEvidence ul nfc reader ctx gs = Inr groups"
    and reduced: "ReduceVerifiedFindingEvidence ul fs groups policy = Inr out"
    and i: "i < length out"
  shows "length out = length gs \<and> length out = length fs \<and> fe_claims (gs ! i) \<noteq> [] \<and>
    (\<exists>state. out ! i = (fs ! i)\<lparr>f_evidenceState := state\<rparr>) \<and>
    (\<not> pol_structural policy \<and> f_severity (out ! i) \<in> {SeverityHigh, SeverityCritical, SeverityBlocker} \<longrightarrow>
       f_evidenceState (out ! i) = EvidenceVerified) \<and>
    (f_evidenceState (out ! i) = EvidenceVerified \<longrightarrow>
       (\<forall>k < length (fe_claims (gs ! i)). quotes_source (reader i k) (fe_claims (gs ! i) ! k)))"
proof -
  note R = Reduce_result [OF reduced] and V = VerifyValidatedEvidence_receipts [OF verified]
  with i have "reduce_finding ul policy i (fs ! i) (groups ! i) = Inr (out ! i)" by simp
  note u = reduce_finding_Inr [OF this]
  from u have eq: "out ! i = (fs ! i)\<lparr>f_evidenceState := reducedEvidenceState (ve_receipts (groups ! i))\<rparr>"
    by (rule conjunct1)
  then have severity: "f_severity (out ! i) = f_severity (fs ! i)" by simp
  have some: "fe_claims (gs ! i) \<noteq> []"
  proof -
    have "length (ve_receipts (groups ! i)) = length (fe_claims (gs ! i))" using V R i by simp
    moreover have "ve_receipts (groups ! i) \<noteq> []" using u by blast
    ultimately show ?thesis by (metis length_0_conv)
  qed
  have required: "Requires policy (f_severity (out ! i)) \<longrightarrow> f_evidenceState (out ! i) = EvidenceVerified"
    unfolding severity using u by blast
  have lengths: "length out = length gs" "length out = length fs" and policy: "EvidencePolicy_valid policy"
    using R V by simp_all
  show ?thesis
    using lengths some eq required EvidencePolicy_minimum [OF policy]
      accepted_quotes_source [OF verified reduced i] by blast
qed

theorem evidence_accepted_quotes_source_witness:
  "f_evidenceState ([sample_proved_finding\<lparr>f_evidenceState := EvidenceVerified\<rparr>] ! 0) = EvidenceVerified \<and>
   quotes_source sample_verifier sample_claim"
proof -
  note facts = evidence_accepted_quotes_source [OF sample_verification sample_reduction, of 0]
  have "\<not> pol_structural sample_evidence_policy" by (simp add: sample_evidence_policy_def)
  with facts show ?thesis by (simp add: sample_group_parts)
qed

text \<open>
  C23: the two loops that cut an excerpt out of a text return exactly the named lines, with their
  line ends, when the text has that many lines, and nothing otherwise. The lines of a text, put
  together, are the text.
\<close>

theorem excerpt_selects_lines:
  "selectExcerpt t i j =
     (if 1 \<le> i \<and> i \<le> j \<and> j \<le> int (length (lines t))
      then Some (concat (take (nat (j - i + 1)) (drop (nat (i - 1)) (lines t)))) else None) \<and>
   concat (lines t) = t"
  by (simp add: selectExcerpt_lines line_range_def concat_lines)

text \<open>
  C24: a receipt says what happened. It is about the claim that was verified, is verified exactly
  when the context was live at both looks, the claim is well-formed, the source was available and
  the named lines are the quote, and then it carries the quote and the digest of the excerpt. A
  receipt that is not verified carries no excerpt.
\<close>

theorem receipt_exact:
  "let r = fst (VerifyCurrent nfc v earlier later c) in
    re_claim r = c \<and>
    (re_status r = ReceiptVerified \<longleftrightarrow>
       earlier = None \<and> later = None \<and> validationReason nfc c = ReasonVerified \<and>
       (\<exists>bytes. read_source v c = Inr (ImmutableTargetAvailable, bytes) \<and>
          selectExcerpt bytes (cc_lineStart c) (cc_lineEnd c) = Some (cc_quote c))) \<and>
    (if re_status r = ReceiptVerified
     then snd (VerifyCurrent nfc v earlier later c) = None \<and> re_reason r = ReasonVerified \<and>
       re_verifiedExcerpt r = cc_quote c \<and> re_excerptSHA256 r = excerptSHA256 c (cc_quote c)
     else re_verifiedExcerpt r = '''')"
proof -
  obtain r e where "VerifyCurrent nfc v earlier later c = (r, e)" by (cases "VerifyCurrent nfc v earlier later c")
  note eq = this and exact = VerifyCurrent_verified [OF this]
  show ?thesis
    unfolding Let_def eq fst_conv snd_conv using exact by (cases "re_status r = ReceiptVerified") simp_all
qed

text \<open>
  C25: the evidence state of a finding is a function of all its receipts: verified exactly when all of
  them are, partially verified exactly when some but not all are; and when none is, an invalid path, an
  invalid line, a quote mismatch or outside the scope exactly when every receipt failed for that reason,
  as an invalid receipt, or as a stale one for a target that has changed. In all other cases it is
  unverified.
\<close>

theorem evidence_state_exact:
  assumes "rs \<noteq> []"
  shows "(reducedEvidenceState rs = EvidenceVerified \<longleftrightarrow> (\<forall>r \<in> set rs. re_status r = ReceiptVerified)) \<and>
    (reducedEvidenceState rs = EvidencePartiallyVerified \<longleftrightarrow>
      (\<exists>r \<in> set rs. re_status r = ReceiptVerified) \<and> (\<exists>r \<in> set rs. re_status r \<noteq> ReceiptVerified)) \<and>
    (reducedEvidenceState rs = EvidenceInvalidPath \<longleftrightarrow>
      (\<forall>r \<in> set rs. re_status r = ReceiptInvalid \<and> re_reason r = ReasonInvalidPath)) \<and>
    (reducedEvidenceState rs = EvidenceInvalidLine \<longleftrightarrow>
      (\<forall>r \<in> set rs. re_status r = ReceiptInvalid \<and>
         (re_reason r = ReasonInvalidLineRange \<or> re_reason r = ReasonLineRangeOutOfBounds))) \<and>
    (reducedEvidenceState rs = EvidenceQuoteMismatch \<longleftrightarrow>
      (\<forall>r \<in> set rs. re_status r = ReceiptInvalid \<and> re_reason r = ReasonQuoteMismatch)) \<and>
    (reducedEvidenceState rs = EvidenceOutsideScope \<longleftrightarrow>
      (\<forall>r \<in> set rs. re_status r = ReceiptStale \<and> re_reason r = ReasonStaleTarget)) \<and>
    reducedEvidenceState rs \<in> {EvidenceVerified, EvidencePartiallyVerified, EvidenceInvalidPath,
      EvidenceInvalidLine, EvidenceQuoteMismatch, EvidenceOutsideScope, EvidenceUnverified}"
  using reducedEvidenceState_reason [OF assms] reducedEvidenceState_exact(1,2) [OF assms] by blast

theorem evidence_state_exact_witness:
  "reducedEvidenceState [sample_receipt] = EvidenceVerified"
  using evidence_state_exact [of "[sample_receipt]"] by (simp add: sample_receipt_def newReceipt_def)

text \<open>
  C26: cleanup never deletes what must stay. A run that was asked to be kept, is active, uncommitted
  or corrupt is not deleted, and neither is any run from which it descends over edges recorded as
  valid, even when the planner distrusts one of these edges; a run without a completion time is
  not deleted; and an edge that names an unknown run stops every deletion.
\<close>

theorem clean_retained_never_deleted:
  assumes "Plan uq s = Inr p" "in_int64 (sn_ProtectedRegularFileBytes s)"
  shows "(\<forall>d a. seed_run s d \<longrightarrow> (d, a) \<in> (lineage (sn_Edges s))\<^sup>* \<longrightarrow> a \<notin> set (deleted_ids p)) \<and>
    (\<forall>r \<in> set (sn_Runs s). RunObservation_completion r = None \<longrightarrow> ob_RunID r \<notin> set (deleted_ids p)) \<and>
    ((\<exists>e \<in> set (sn_Edges s). \<not> both_known (known_ids s) e) \<longrightarrow> deleted_ids p = [])"
proof -
  from Plan_deleted [OF assms] obtain st protection where st: "protect_runs s = Inr (st, protection)"
    and deleted: "\<forall>i \<in> set (deleted_ids p). \<not> guarded st i \<and> i \<in> set (known_ids s)" .
  note guards = protect_runs_guards [OF st]
  have "a \<notin> set (deleted_ids p)" if "seed_run s d" "(d, a) \<in> (lineage (sn_Edges s))\<^sup>*" for d a
    using guards deleted that by blast
  moreover have "ob_RunID r \<notin> set (deleted_ids p)"
    if "r \<in> set (sn_Runs s)" "RunObservation_completion r = None" for r
    using guards deleted that by blast
  moreover have "deleted_ids p = []" if "\<exists>e \<in> set (sn_Edges s). \<not> both_known (known_ids s) e"
    using guards deleted that by (cases "deleted_ids p") auto
  ultimately show ?thesis by blast
qed

theorem clean_retained_never_deleted_witness:
  "\<exists>p. Plan (\<lambda>s. s) sample_clean = Inr p \<and> sample_clean_id ''3'' \<notin> set (deleted_ids p) \<and>
     sample_clean_id ''1'' \<notin> set (deleted_ids p) \<and> sample_clean_id ''2'' \<in> set (deleted_ids p)"
proof -
  obtain p where p: "Plan (\<lambda>s. s) sample_clean = Inr p" using sample_clean_planned by blast
  have seed: "seed_run sample_clean (sample_clean_id ''3'')" by code_simp
  have edge: "(sample_clean_id ''3'', sample_clean_id ''1'') \<in> lineage (sn_Edges sample_clean)"
    by (simp add: sample_clean_def sample_edge_def)
  have "sample_clean_id ''2'' \<in> set (deleted_ids p)"
    by (simp add: sample_clean_deleted [OF p])
  with p clean_retained_never_deleted [OF p sample_clean_int64] seed edge show ?thesis
    by (meson r_into_rtrancl rtrancl.rtrancl_refl)
qed

text \<open>
  C27: the check of the lineage edges ends within the rounds it is given, two more than there are edges. It rejects a list
  exactly when an identity, a hash or a path is malformed; otherwise it keeps every edge and only
  takes validity away, so that the valid edges are a forest: no run has two parents and none is
  its own ancestor. Edges that already are a forest are returned as they are.
\<close>

theorem clean_lineage_forest:
  "case checked_edges es of
     Inl e \<Rightarrow> (e = CleanEdgeIdentity \<or> e = CleanEdgePath) \<and>
       \<not> (\<forall>f \<in> set es. edge_identity_ok f \<and> canonicalEdgePath (le_EdgePath f))
   | Inr fs \<Rightarrow> weakens fs (sortEdges es) \<and> forest (lineage fs) \<and>
       (forest (lineage es) \<longrightarrow> fs = sortEdges es) \<and>
       (\<forall>f \<in> set es. edge_identity_ok f \<and> canonicalEdgePath (le_EdgePath f))"
proof (cases "checked_edges es")
  case (Inl e)
  then show ?thesis using checked_edges_Inl by simp
next
  case (Inr fs)
  with checked_edges_Inr [OF Inr] checked_edges_forest [of es] show ?thesis by auto
qed

theorem clean_lineage_forest_witness:
  "\<exists>fs. checked_edges [sample_edge ''2'' ''3'', sample_edge ''1'' ''3''] = Inr fs \<and> forest (lineage fs)"
proof -
  have "is_ok (checked_edges [sample_edge ''2'' ''3'', sample_edge ''1'' ''3''])" by code_simp
  then obtain fs where fs: "checked_edges [sample_edge ''2'' ''3'', sample_edge ''1'' ''3''] = Inr fs"
    by (auto simp: is_ok_iff)
  with clean_lineage_forest [of "[sample_edge ''2'' ''3'', sample_edge ''1'' ''3'']"] show ?thesis by simp
qed

text \<open>
  C28: the planner accepts a snapshot exactly when its inputs are well-formed: a time, canonical
  identities, a policy in range, distinct runs with non-negative sizes, known runs to keep,
  well-formed edges, and a byte total of at most 64 bits. Every other snapshot is rejected with an
  error about the input; the overflow and underflow checks of the later phases never fire.
\<close>

theorem clean_plan_accepts_exactly:
  assumes "in_int64 (sn_ProtectedRegularFileBytes s)"
  shows "case Plan uq s of Inr p \<Rightarrow> snapshot_ok s | Inl e \<Rightarrow> \<not> snapshot_ok s \<and> input_error e"
  using Plan_accepts [OF assms] .

theorem clean_plan_accepts_exactly_witness: "is_ok (Plan (\<lambda>s. s) sample_clean)"
  using clean_plan_accepts_exactly [OF sample_clean_int64, of "\<lambda>s. s"] sample_clean_ok
  by (auto simp: is_ok_iff split: sum.splits)

text \<open>
  C29: the byte accounts of a plan are exact and nothing wraps around. The initial total is the sum
  over all runs and the protected bytes, the planned bytes are those of the two delete sets, the
  projected total is their difference and not negative, the target flag and the outcome reasons
  say whether it is reached, and no run is deleted by size once the total is within the target.
\<close>

theorem clean_accounts_exact:
  assumes "Plan uq s = Inr p" "in_int64 (sn_ProtectedRegularFileBytes s)"
  shows "let b = cp_ByteAccounting p; target = po_TargetBytes (sn_Policy s) in
    ba_InitialRegularFileBytes b = sn_ProtectedRegularFileBytes s + total_bytes (sn_Runs s) \<and>
    ba_InitialRegularFileBytes b \<le> max_int64 \<and>
    ba_AgeDeleteBytes b = entry_bytes (ds_AgeDeleteSet (cp_DeleteSets p)) \<and>
    ba_SizeDeleteBytes b = entry_bytes (ds_SizeDeleteSet (cp_DeleteSets p)) \<and>
    ba_PlannedDeleteBytes b = ba_AgeDeleteBytes b + ba_SizeDeleteBytes b \<and>
    ba_ProjectedRegularFileBytes b = ba_InitialRegularFileBytes b - ba_PlannedDeleteBytes b \<and>
    0 \<le> ba_ProjectedRegularFileBytes b \<and> ba_TargetBytes b = target \<and>
    (ba_TargetReached b \<longleftrightarrow> ba_ProjectedRegularFileBytes b \<le> target) \<and>
    cp_OutcomeReasons p = (if ba_TargetReached b then [] else [ReasonTargetProtected]) \<and>
    (\<forall>j < length (ds_SizeDeleteSet (cp_DeleteSets p)).
       target < ba_InitialRegularFileBytes b - ba_AgeDeleteBytes b -
         entry_bytes (take j (ds_SizeDeleteSet (cp_DeleteSets p))))"
  by (rule Plan_accounts [OF assms])

theorem clean_accounts_exact_witness:
  "\<exists>p. Plan (\<lambda>s. s) sample_clean = Inr p \<and> ba_InitialRegularFileBytes (cp_ByteAccounting p) = 76"
proof -
  obtain p where p: "Plan (\<lambda>s. s) sample_clean = Inr p" using sample_clean_planned by blast
  have "sn_ProtectedRegularFileBytes sample_clean + total_bytes (sn_Runs sample_clean) = 76" by code_simp
  with clean_accounts_exact [OF p sample_clean_int64] p show ?thesis by (auto simp: Let_def)
qed

text \<open>
  C30: the actions, delete sets and decisions of a plan agree. The actions are numbered from one, a
  tombstone directly before the deletion of the same run, which releases the bytes of its entry;
  no run is deleted twice; within the runs deleted by age and within those deleted by size the
  oldest comes first; and there is one decision for each run, in the order of the identities, that
  says selected exactly for the runs of the two sets.
\<close>

theorem clean_actions_and_decisions:
  assumes "Plan uq s = Inr p" "in_int64 (sn_ProtectedRegularFileBytes s)"
  shows "length (cp_OrderedActions p) = 2 * length (all_entries p) \<and>
    (\<forall>k < length (all_entries p). \<exists>phase reason.
       cp_OrderedActions p ! (2 * k) =
         \<lparr>ac_Sequence = 2 * int k + 1, ac_Phase = phase, ac_Action = ''tombstone'',
          ac_RunID = en_RunID (all_entries p ! k), ac_Reason = reason, ac_BytesReleased = 0\<rparr> \<and>
       cp_OrderedActions p ! Suc (2 * k) =
         \<lparr>ac_Sequence = 2 * int k + 2, ac_Phase = phase, ac_Action = ''delete'',
          ac_RunID = en_RunID (all_entries p ! k), ac_Reason = reason,
          ac_BytesReleased = en_RegularFileBytes (all_entries p ! k)\<rparr>) \<and>
    distinct (deleted_ids p) \<and>
    sorted_wrt (oldest_first s) (age_ids p) \<and> sorted_wrt (oldest_first s) (size_ids p) \<and>
    sorted_wrt (<) (map rd_RunID (cp_RunDecisions p)) \<and>
    set (map rd_RunID (cp_RunDecisions p)) = set (known_ids s) \<and>
    (\<forall>d \<in> set (cp_RunDecisions p).
       (rd_Decision d = ''selected_age'' \<longleftrightarrow> rd_RunID d \<in> set (age_ids p)) \<and>
       (rd_Decision d = ''selected_size'' \<longleftrightarrow> rd_RunID d \<in> set (size_ids p)))"
  by (rule Plan_actions [OF assms])

theorem clean_actions_and_decisions_witness:
  "\<exists>p. Plan (\<lambda>s. s) sample_clean = Inr p \<and> length (cp_OrderedActions p) = 4 \<and>
     distinct [sample_clean_id ''2'', sample_clean_id ''4'']"
proof -
  obtain p where p: "Plan (\<lambda>s. s) sample_clean = Inr p" using sample_clean_planned by blast
  have ids: "deleted_ids p = [sample_clean_id ''2'', sample_clean_id ''4'']"
    by (simp add: sample_clean_deleted [OF p])
  have "length (all_entries p) = length (deleted_ids p)"
    by (simp add: all_entries_def deleted_ids_def age_ids_def size_ids_def)
  with clean_actions_and_decisions [OF p sample_clean_int64] p ids show ?thesis by auto
qed

text \<open>
  C31: the canonical bytes of a plan, which its hash is taken of, determine the plan: two plans with
  ASCII texts and reasons of the vocabulary that have the same bytes agree in everything but the
  mode, the hash and the apply identity. An approval of a hash is an approval of one content.
\<close>

theorem clean_plan_bytes_injective:
  assumes "plan_known p" "plan_known q"
    and "CanonicalPlanBytes uq p = Inr bytes" "CanonicalPlanBytes uq q = Inr bytes"
  shows "plan_content p = plan_content q"
  by (rule CanonicalPlanBytes_inject [OF assms])

theorem clean_plan_bytes_injective_witness:
  "plan_known sample_plan \<and>
   plan_content sample_plan = plan_content (sample_plan\<lparr>cp_Mode := ''apply'', cp_PlanHash := sample_digest\<rparr>)"
proof -
  let ?other = "sample_plan\<lparr>cp_Mode := ''apply'', cp_PlanHash := sample_digest\<rparr>"
  let ?bytes = "canonical_json (\<lambda>s. s) (plan_json sample_plan)"
  have known: "plan_known sample_plan" by code_simp
  then have "plan_known ?other" by (simp add: plan_known_def plan_json_def)
  moreover have "CanonicalPlanBytes (\<lambda>s. s) sample_plan = Inr ?bytes"
    "CanonicalPlanBytes (\<lambda>s. s) ?other = Inr ?bytes"
    by (simp_all add: CanonicalPlanBytes_def plan_json_def sample_plan_def)
  ultimately show ?thesis using clean_plan_bytes_injective [OF known] known by blast
qed

text \<open>
  C32: what the planner produces, the executor admits: a dry-run plan is a valid receipt for its own
  hash, and it has an apply plan, which carries the same hash and passes the validator of apply
  plans.
\<close>

theorem clean_plan_passes_validation:
  assumes "Plan uq s = Inr p" "machine_sized s"
  shows "validateDryRunReceipt uq p (cp_PlanHash p) = None \<and>
    (\<exists>a. ApplyPlan uq p = Inr a \<and> validateApplyPlan uq a = None \<and> cp_PlanHash a = cp_PlanHash p)"
  using Plan_receipt [OF assms] Plan_apply [OF assms] by blast

theorem clean_plan_passes_validation_witness:
  "\<exists>p a. Plan (\<lambda>s. s) sample_clean = Inr p \<and> ApplyPlan (\<lambda>s. s) p = Inr a \<and> cp_PlanHash a = cp_PlanHash p"
proof -
  obtain p where p: "Plan (\<lambda>s. s) sample_clean = Inr p" using sample_clean_planned by blast
  from clean_plan_passes_validation [OF p sample_clean_sized] p show ?thesis by blast
qed



text \<open>
  C34: an execution of a fresh plan completes. On a store whose operations do not fail, which still
  holds the plan as its receipt and has the plan's epoch, the apply plan is executed without error
  and all actions of the plan are performed; and every run the plan deletes, and no other, is one
  that a resumption accepts from its tombstone.
\<close>

theorem clean_apply_completes:
  fixes ops :: "('s, 'e) store"
  assumes "Plan uq s = Inr p" "machine_sized s" "reliable ops"
    and "so_DryRunPlan ops (cp_PlanHash p) st = Inr p"
    and "so_Snapshot ops st = Inr current" "sn_StoreEpoch current = sn_StoreEpoch s"
  shows "(\<exists>a. ApplyPlan uq p = Inr a \<and>
      ExecuteApply uq ops a st = (None, performed ops (cp_PlanHash p) (cp_OrderedActions p) st)) \<and>
    (tombstoneSelectsRun p i \<longleftrightarrow> i \<in> set (deleted_ids p))"
proof -
  from Plan_apply [OF assms(1,2)] obtain a where a: "ApplyPlan uq p = Inr a" by blast
  from ExecuteApply_completes [OF assms(1,2) a assms(3-6)] a Plan_selects [OF assms(1,2)]
  show ?thesis by blast
qed

theorem clean_apply_completes_witness:
  "\<exists>p a. Plan (\<lambda>s. s) sample_clean = Inr p \<and>
     ExecuteApply (\<lambda>s. s) (sample_store p) a ([], []) =
       (None, performed (sample_store p) (cp_PlanHash p) (cp_OrderedActions p) ([], [])) \<and>
     tombstoneSelectsRun p (sample_clean_id ''4'')"
proof -
  obtain p where p: "Plan (\<lambda>s. s) sample_clean = Inr p" using sample_clean_planned by blast
  have "sample_clean_id ''4'' \<in> set (deleted_ids p)"
    by (simp add: sample_clean_deleted [OF p])
  moreover have "so_DryRunPlan (sample_store p) (cp_PlanHash p) ([], []) = Inr p"
    "so_Snapshot (sample_store p) ([], []) = Inr sample_clean" by (simp_all add: sample_store_def)
  ultimately show ?thesis
    using clean_apply_completes [OF p sample_clean_sized sample_store_reliable] p by blast
qed

text \<open>
  C35: after an interrupted execution, only authorised deletions are resumed. The store is changed by
  deletions for distinct tombstones, each of them for a run in the delete sets of a plan whose hash
  the tombstone names, with a valid receipt at hand when it is deleted, and at most by the final
  removal of the journals; without an error every tombstone of the store has been resumed.
\<close>

theorem clean_resume_authorised:
  fixes ops :: "('s, 'e) store"
  assumes "ResumeTombstones uq ops st = (r, st')"
  shows "\<exists>ts st1. authorised uq ops ts st st1 \<and> distinct ts \<and>
    (\<forall>t \<in> set ts. \<exists>receipt. PlanHash uq receipt = Inr (tb_PlanHash t) \<and>
       tb_RunID t \<in> set (deleted_ids receipt)) \<and>
    (st' = st1 \<or> st' = snd (so_Clear ops st1)) \<and>
    (r = None \<longrightarrow> (\<exists>all. so_Tombstones ops st = Inr all \<and> set ts = set all))"
proof -
  from ResumeTombstones_authorised [OF assms] obtain ts st1 where ts: "authorised uq ops ts st st1"
    "distinct ts" "st' = st1 \<or> st' = snd (so_Clear ops st1)"
    "r = None \<longrightarrow> (\<exists>all. so_Tombstones ops st = Inr all \<and> set ts = set all)"
    by (elim exE conjE)
  from ts(1) have "\<forall>t \<in> set ts. \<exists>receipt. PlanHash uq receipt = Inr (tb_PlanHash t) \<and>
      tb_RunID t \<in> set (deleted_ids receipt)"
    by (rule authorised_selects)
  with ts show ?thesis by (intro exI [of _ ts] exI [of _ st1]) simp
qed

theorem clean_resume_authorised_witness:
  "\<exists>p ts st1. Plan (\<lambda>s. s) sample_clean = Inr p \<and>
     authorised (\<lambda>s. s) (sample_store p) ts ([sample_clean_id ''2''], []) st1 \<and>
     set ts = {\<lparr>tb_RunID = sample_clean_id ''2'', tb_PlanHash = cp_PlanHash p\<rparr>}"
proof -
  obtain p where p: "Plan (\<lambda>s. s) sample_clean = Inr p" using sample_clean_planned by blast
  have "sample_clean_id ''2'' \<in> set (deleted_ids p)"
    by (simp add: sample_clean_deleted [OF p])
  then have sel: "tombstoneSelectsRun p (sample_clean_id ''2'')"
    using Plan_selects [OF p sample_clean_sized] by simp
  have valid: "validateDryRunReceipt (\<lambda>s. s) p (cp_PlanHash p) = (None :: string apply_error option)"
    by (rule Plan_receipt [OF p sample_clean_sized])
  have hash: "canonicalSHA256 (cp_PlanHash p)" using receipt_selects [OF valid sel] PlanHash_canonical by blast
  have run: "canonicalRunID (sample_clean_id ''2'')" by code_simp
  let ?st = "([sample_clean_id ''2''], [])" and ?t = "\<lparr>tb_RunID = sample_clean_id ''2'', tb_PlanHash = cp_PlanHash p\<rparr>"
  have "ResumeTombstones (\<lambda>s. s) (sample_store p) ?st = (None, ([], [sample_clean_id ''2'']))"
    using valid sel hash run
    by (simp add: ResumeTombstones_def in_transaction_def check_tombstone_def sample_store_def)
  from clean_resume_authorised [OF this] obtain ts st1 where
    ts: "authorised (\<lambda>s. s) (sample_store p) ts ?st st1"
      "\<exists>all. so_Tombstones (sample_store p) ?st = Inr all \<and> set ts = set all"
    by (elim exE conjE) simp
  then have "set ts = {?t}" by (auto simp: sample_store_def)
  with p ts(1) show ?thesis by (intro exI [of _ p] exI [of _ ts] exI [of _ st1]) simp
qed

text \<open>
  C36: the process starts no invocation beyond what every open run allows. The authority counts the
  slots that all runs hold together, and a worker that asks is granted one exactly when its run is open
  and that count is below the limit of every open run. No step of the process, of whatever kind, makes
  the count grow above the limit of a run that is open after it. A count that is above a limit already,
  because the run was opened later, can only shrink.
\<close>

theorem worker_capacity_respected:
  assumes "process_reachable ul letter es (a, ss)" "s \<in> set ss"
  shows "ca_active a = int (sum_list (map slots ss)) \<and>
    (case acquire (sc_capacity s) a of
       Acquired b \<Rightarrow> \<not> cr_closed (sc_capacity s) \<and> b = a\<lparr>ca_active := ca_active a + 1\<rparr> \<and>
         (\<forall>k \<in> set (open_limits ss). ca_active b \<le> k)
     | _ \<Rightarrow> cr_closed (sc_capacity s) \<or> (\<exists>k \<in> set (open_limits ss). k \<le> ca_active a)) \<and>
    (\<forall>e b ts. process_step ul letter (a, ss) e (b, ts) \<longrightarrow>
       ca_active b \<le> ca_active a \<or> (\<forall>k \<in> set (open_limits ts). ca_active b \<le> k))"
proof -
  have active: "ca_active a = int (sum_list (map slots ss))"
    using process_reachable_inv [OF assms(1)] by (simp add: process_inv_def)
  note exactly = granted_exactly [OF assms, folded active]
  have "case acquire (sc_capacity s) a of
       Acquired b \<Rightarrow> \<not> cr_closed (sc_capacity s) \<and> b = a\<lparr>ca_active := ca_active a + 1\<rparr> \<and>
         (\<forall>k \<in> set (open_limits ss). ca_active b \<le> k)
     | _ \<Rightarrow> cr_closed (sc_capacity s) \<or> (\<exists>k \<in> set (open_limits ss). k \<le> ca_active a)"
  proof (cases "acquire (sc_capacity s) a")
    case (Acquired b)
    with exactly acquire_granted [of "sc_capacity s" a b] show ?thesis by auto
  qed (use exactly in \<open>auto simp: not_less\<close>)
  moreover have "ca_active b \<le> ca_active a \<or> (\<forall>k \<in> set (open_limits ts). ca_active b \<le> k)"
    if "process_step ul letter (a, ss) e (b, ts)" for e b ts
    using growth_within_limits [OF assms(1) that] by (cases "ca_active a < ca_active b") auto
  ultimately show ?thesis using active by blast
qed

theorem worker_capacity_respected_witness:
  "ca_active (sample_authority 1) = 1"
proof -
  obtain es where "process_reachable (\<lambda>s. s) (\<lambda>s. True) es (sample_authority 1,
      [sample_scheduler [] [0] (WorkerHolding sample_job), sample_scheduler [] [0] (WorkerWaiting sample_job 2)])"
    using sample_waiting by blast
  from worker_capacity_respected [OF this, of "sample_scheduler [] [0] (WorkerHolding sample_job)"]
  show ?thesis by (simp add: slots_def sample_scheduler_def)
qed

text \<open>
  C37: no wake-up is lost. A worker that waits for capacity either has its channel closed already, so
  that it will ask again, or would be refused if it asked now.
\<close>

theorem worker_wakeup_not_lost:
  assumes "process_reachable ul letter es (a, ss)" "s \<in> set ss" "WorkerWaiting j g \<in> set (sc_workers s)"
  shows "g < ca_changed a \<or> g = ca_changed a \<and> acquire (sc_capacity s) a = AcquireWait g"
  by (rule waiting_is_justified [OF assms])

theorem worker_wakeup_not_lost_witness:
  "acquire (sc_capacity (sample_scheduler [] [0] (WorkerWaiting sample_job 2))) (sample_authority 1) = AcquireWait 2"
proof -
  obtain es where "process_reachable (\<lambda>s. s) (\<lambda>s. True) es (sample_authority 1,
      [sample_scheduler [] [0] (WorkerHolding sample_job), sample_scheduler [] [0] (WorkerWaiting sample_job 2)])"
    using sample_waiting by blast
  from worker_wakeup_not_lost [OF this, of "sample_scheduler [] [0] (WorkerWaiting sample_job 2)" sample_job 2]
  show ?thesis by (simp add: sample_scheduler_def sample_authority_def)
qed

text \<open>
  C38: every admitted job has exactly one place: in the queue, with a worker, or among the results,
  until it is collected. When no job is queued or with a worker, the results and what was collected
  are the admitted jobs, each once; and the result of a well-formed job is valid for it.
\<close>

theorem scheduler_one_result_per_job:
  assumes "process_reachable ul letter es (a, ss)" "i < length ss"
  shows "sum_list (map admitted_by (events_of i es)) =
      jobs_in (ss ! i) + sum_list (map collected_by (events_of i es)) \<and>
    (\<not> unfinished (ss ! i) \<longrightarrow> sum_list (map admitted_by (events_of i es)) =
      mset (map fst (sc_results (ss ! i))) + sum_list (map collected_by (events_of i es))) \<and>
    (\<forall>(j, out) \<in> set (sc_results (ss ! i)). job_ok j \<longrightarrow> validFor ul letter out j)"
proof -
  have accounted: "sum_list (map admitted_by (events_of i es)) =
      jobs_in (ss ! i) + sum_list (map collected_by (events_of i es))"
    using jobs_accounted [OF assms(1)] assms(2) by simp
  have "sum_list (map job_of ws) = {#}" if "\<forall>w \<in> set ws. job_of w = {#}" for ws
    using that by (induction ws) auto
  then have "jobs_in (ss ! i) = mset (map fst (sc_results (ss ! i)))" if "\<not> unfinished (ss ! i)"
    using that by (auto simp: unfinished_def jobs_in_def)
  moreover have "scheduler_inv ul letter (ss ! i)" using reachable_scheduler_inv assms by (metis nth_mem)
  ultimately show ?thesis using accounted by (auto simp: scheduler_inv_def)
qed

theorem scheduler_one_result_per_job_witness:
  "jobs_in (sample_scheduler [(sample_job, 0)] [0] WorkerIdle) = {#sample_job#}"
proof -
  have reach: "process_reachable (\<lambda>s. s) (\<lambda>s. True)
      [None, None, Some (0, EventAdmit sample_job), Some (0, EventGate 0)]
      (sample_authority 0, [sample_scheduler [(sample_job, 0)] [0] WorkerIdle, sample_scheduler [] [] WorkerIdle])"
    using sample_prepared(1) [OF sample_created_schedulers, of 0] by simp
  from scheduler_one_result_per_job [OF reach, of 0] show ?thesis by (simp add: events_of_def)
qed

text \<open>
  C39: the workers never get stuck. While some run has a job without a result, whose gate is open or
  whose context ended, and the result queues have room for the jobs of their runs, a worker of the
  process can take a step of its own.
\<close>

theorem scheduler_deadlock_free:
  assumes "process_reachable ul letter es (a, ss)" "s \<in> set ss" "unfinished s" "released s"
    and "\<forall>s \<in> set ss. size (jobs_in s) \<le> sc_maxJobs s"
  shows "\<exists>i q. process_step ul letter (a, ss) (Some (i, EventWork)) q"
  using process_progress [OF assms] by (simp add: can_work_def)

theorem scheduler_deadlock_free_witness:
  "\<exists>i q. process_step (\<lambda>s. s) (\<lambda>s. True)
     (sample_authority 1,
      [sample_scheduler [] [0] (WorkerHolding sample_job), sample_scheduler [] [0] (WorkerWaiting sample_job 2)])
     (Some (i, EventWork)) q"
proof -
  obtain es where reach: "process_reachable (\<lambda>s. s) (\<lambda>s. True) es (sample_authority 1,
      [sample_scheduler [] [0] (WorkerHolding sample_job), sample_scheduler [] [0] (WorkerWaiting sample_job 2)])"
    using sample_waiting by blast
  show ?thesis
    by (rule scheduler_deadlock_free [OF reach, of "sample_scheduler [] [0] (WorkerWaiting sample_job 2)"])
      (simp_all add: unfinished_def released_def jobs_in_def sample_scheduler_def)
qed

text \<open>
  C40: the result of an invocation is valid for its job and keeps its own condition unless the run's
  context ended: then a timeout of the provider under an expired deadline is a timeout of the run,
  and every condition without authority over the end of the context yields to it. The outcome of the
  runtime, with its output, is passed on exactly when its condition is the one that stands.
\<close>

theorem invocation_result_exact:
  assumes "job_ok j"
  shows "let c = (if validFor ul letter out j then coordinatorOutcomeCondition out
                  else AttemptConditionInternalInvariant);
             d = (if c = AttemptConditionProviderTimeout \<and> late = Some ContextDeadlineExceeded
                  then AttemptConditionTimeout else c);
             stands = (case early of
                 None \<Rightarrow> d
               | Some e \<Rightarrow> if conditionRetainsAuthorityAfterContext d (invocationContextCondition e) then d
                           else invocationContextCondition e);
             r = invokedOutcome ul letter j out early late
         in validFor ul letter r j \<and> coordinatorOutcomeCondition r = stands \<and>
            (if validFor ul letter out j \<and> c = stands then r = out else ao_output r = None)"
proof -
  let ?c = "if validFor ul letter out j then coordinatorOutcomeCondition out else AttemptConditionInternalInvariant"
  note exact = invokedOutcome_exact [OF assms, of ul letter out early late, unfolded Let_def]
  have "ao_output (invokedOutcome ul letter j out early late) = None"
    if "\<not> (validFor ul letter out j \<and> ?c = settled_condition ?c early late)"
  proof -
    from that exact have "settled_condition ?c early late \<noteq> AttemptConditionValidReview"
      by (auto simp: settled_condition_def invocationContextCondition_valid Let_def split: if_splits option.splits)
    with exact outcome_condition_valid show ?thesis by metis
  qed
  with exact show ?thesis unfolding Let_def settled_condition_def by auto
qed

theorem invocation_result_exact_witness:
  "coordinatorOutcomeCondition (invokedOutcome (\<lambda>s. s) (\<lambda>s. True) sample_job no_outcome
     (Some ContextCanceled) (Some ContextCanceled)) = AttemptConditionInternalInvariant"
proof -
  have "\<not> validFor (\<lambda>s. s) (\<lambda>s. True) no_outcome sample_job"
    by (simp add: validFor_def no_outcome_def)
  with invocation_result_exact [OF sample_job_facts(1), of "\<lambda>s. s" "\<lambda>s. True" no_outcome
      "Some ContextCanceled" "Some ContextCanceled"]
  show ?thesis
    by (simp add: Let_def conditionRetainsAuthorityAfterContext_def invocationContextCondition_def)
qed

end
